(* ===== verification/Prelude.thy ===== *)
theory Prelude
  imports Main
    "HOL-Library.Word"
    "HOL-Library.AList"
    "HOL-Library.Char_ord"
    "HOL-Library.List_Lexorder"
    "HOL-Library.Multiset"
begin

section \<open>Shared vocabulary of the development\<close>

text \<open>
  The types, small functions and lemmas every component of the model uses.
  \<^item> A Go function that returns \<open>(T, error)\<close> is a function into \<open>'e + 'a\<close>: \<open>Inl\<close> carries the
    error, \<open>Inr\<close> the value, and \<open>and_then\<close> is the early return after an \<open>if err != nil\<close>.
  \<^item> A Go \<open>string\<close> is a list of bytes, here a HOL \<open>string\<close> whose characters are the bytes; the
    order on strings is the bytewise lexicographic one of \<open>List_Lexorder\<close>, as in Go.
  \<^item> A Go \<open>map\<close> whose length or iteration matters is an association list with distinct keys; one
    that is only looked up is a partial function.
  \<^item> A \<open>time.Time\<close> is its distance from the Unix epoch in nanoseconds, a \<open>time.Duration\<close> a number
    of nanoseconds; the zero time is the first instant of year 1.
  \<^item> An \<open>int64\<close> whose wrap-around matters is an \<open>int\<close> brought back into range by \<open>s64\<close>.
\<close>

named_theorems go_map_simps \<open>facts on association lists with distinct keys\<close>

subsection \<open>Errors as values\<close>

definition and_then :: "'e + 'a \<Rightarrow> ('a \<Rightarrow> 'e + 'b) \<Rightarrow> 'e + 'b" where
  "and_then r f = (case r of Inl e \<Rightarrow> Inl e | Inr a \<Rightarrow> f a)"

lemma and_then_Inl [simp]: "and_then (Inl e) f = Inl e"
  by (simp add: and_then_def)

lemma and_then_Inr [simp]: "and_then (Inr a) f = f a"
  by (simp add: and_then_def)

lemma and_then_eq_Inr: "and_then r f = Inr b \<longleftrightarrow> (\<exists>a. r = Inr a \<and> f a = Inr b)"
  by (cases r) auto

lemma and_then_eq_Inl:
  "and_then r f = Inl e \<longleftrightarrow> r = Inl e \<or> (\<exists>a. r = Inr a \<and> f a = Inl e)"
  by (cases r) auto

text \<open>A guard that returns an error when its condition holds, as Go's \<open>if cond { return err }\<close>.\<close>

definition fail_if :: "bool \<Rightarrow> 'e \<Rightarrow> 'e + unit" where
  "fail_if b e = (if b then Inl e else Inr ())"

lemma fail_if_eq [simp]:
  "fail_if b e = Inr u \<longleftrightarrow> \<not> b"
  "fail_if b e = Inl e' \<longleftrightarrow> b \<and> e' = e"
  by (auto simp: fail_if_def)

lemma fail_if_True [simp]: "fail_if True e = Inl e"
  by (simp add: fail_if_def)

lemma fail_if_False [simp]: "fail_if False e = Inr ()"
  by (simp add: fail_if_def)

subsection \<open>Machine integers, time and durations\<close>

definition max_int64 :: int where "max_int64 = 9223372036854775807"
definition min_int64 :: int where "min_int64 = - 9223372036854775808"

definition s64 :: "int \<Rightarrow> int" where
  "s64 x = (x + 9223372036854775808) mod 18446744073709551616 - 9223372036854775808"

lemma s64_id: "min_int64 \<le> x \<Longrightarrow> x \<le> max_int64 \<Longrightarrow> s64 x = x"
  by (simp add: s64_def min_int64_def max_int64_def)

lemma s64_range: "min_int64 \<le> s64 x \<and> s64 x \<le> max_int64"
proof -
  have "0 \<le> (x + 9223372036854775808) mod 18446744073709551616"
    and "(x + 9223372036854775808) mod 18446744073709551616 < 18446744073709551616"
    by simp_all
  then show ?thesis by (simp add: s64_def min_int64_def max_int64_def)
qed

type_synonym time = int
type_synonym duration = int

definition zero_time :: time where "zero_time = - 62135596800000000000"
definition millisecond :: duration where "millisecond = 1000000"
definition second :: duration where "second = 1000000000"
definition minute :: duration where "minute = 60000000000"
definition hour :: duration where "hour = 3600000000000"

lemmas duration_defs = millisecond_def second_def minute_def hour_def

text \<open>\<open>Time.Sub\<close> saturates at the ends of \<open>Duration\<close>.\<close>

definition time_sub :: "time \<Rightarrow> time \<Rightarrow> duration" where
  "time_sub a b = max min_int64 (min max_int64 (a - b))"

lemma time_sub_mono: "a \<le> a' \<Longrightarrow> time_sub a b \<le> time_sub a' b"
  by (auto simp: time_sub_def)

subsection \<open>Strings\<close>

text \<open>
  The UTF-8 encodings of the characters \<open>unicode.IsSpace\<close> accepts, which is what
  \<open>strings.TrimSpace\<close> strips from both ends.
\<close>

definition space_encodings :: "string list" where
  "space_encodings =
     [[CHR 0x09], [CHR 0x0A], [CHR 0x0B], [CHR 0x0C], [CHR 0x0D], [CHR 0x20],
      [CHR 0xC2, CHR 0x85], [CHR 0xC2, CHR 0xA0], [CHR 0xE1, CHR 0x9A, CHR 0x80],
      [CHR 0xE2, CHR 0x80, CHR 0xA8], [CHR 0xE2, CHR 0x80, CHR 0xA9],
      [CHR 0xE2, CHR 0x80, CHR 0xAF], [CHR 0xE2, CHR 0x81, CHR 0x9F],
      [CHR 0xE3, CHR 0x80, CHR 0x80], [CHR 0xE2, CHR 0x80, CHR 0x80],
      [CHR 0xE2, CHR 0x80, CHR 0x81], [CHR 0xE2, CHR 0x80, CHR 0x82],
      [CHR 0xE2, CHR 0x80, CHR 0x83], [CHR 0xE2, CHR 0x80, CHR 0x84],
      [CHR 0xE2, CHR 0x80, CHR 0x85], [CHR 0xE2, CHR 0x80, CHR 0x86],
      [CHR 0xE2, CHR 0x80, CHR 0x87], [CHR 0xE2, CHR 0x80, CHR 0x88],
      [CHR 0xE2, CHR 0x80, CHR 0x89], [CHR 0xE2, CHR 0x80, CHR 0x8A]]"

fun has_prefix :: "'a list \<Rightarrow> 'a list \<Rightarrow> bool" where
  "has_prefix s [] = True"
| "has_prefix [] (p # ps) = False"
| "has_prefix (c # s) (p # ps) = (c = p \<and> has_prefix s ps)"

lemma has_prefix_iff: "has_prefix s p \<longleftrightarrow> (\<exists>r. s = p @ r)"
  by (induction s p rule: has_prefix.induct) auto

lemma has_prefix_append [simp]: "has_prefix (p @ r) p"
  by (auto simp: has_prefix_iff)

definition trim_prefix :: "'a list \<Rightarrow> 'a list \<Rightarrow> 'a list" where
  "trim_prefix s p = (if has_prefix s p then drop (length p) s else s)"

lemma trim_prefix_append [simp]: "trim_prefix (p @ r) p = r"
  by (simp add: trim_prefix_def)

text \<open>\<open>strings.Split\<close> at a separator of one byte.\<close>

fun split_on :: "char \<Rightarrow> string \<Rightarrow> string list" where
  "split_on c [] = [[]]"
| "split_on c (x # xs) =
     (if x = c then [] # split_on c xs
      else case split_on c xs of [] \<Rightarrow> [[x]] | p # ps \<Rightarrow> (x # p) # ps)"

lemma split_on_last: "c \<notin> set s \<Longrightarrow> split_on c s = [s]"
  by (induction s) auto

lemma split_on_append: "c \<notin> set s \<Longrightarrow> split_on c (s @ c # t) = s # split_on c t"
  by (induction s) auto

text \<open>One leading element of \<open>ws\<close> removed, if there is one.\<close>

definition strip_one :: "string list \<Rightarrow> string \<Rightarrow> string option" where
  "strip_one ws s =
     (case filter (\<lambda>w. w \<noteq> [] \<and> has_prefix s w) ws of [] \<Rightarrow> None | w # _ \<Rightarrow> Some (drop (length w) s))"

lemma strip_one_shorter:
  assumes "strip_one ws s = Some t"
  shows "length t < length s"
proof (cases "filter (\<lambda>w. w \<noteq> [] \<and> has_prefix s w) ws")
  case Nil
  with assms show ?thesis by (simp add: strip_one_def)
next
  case (Cons w r)
  then have "w \<in> set (filter (\<lambda>w. w \<noteq> [] \<and> has_prefix s w) ws)" by simp
  then have "w \<noteq> []" and "has_prefix s w" by simp_all
  moreover from assms Cons have "t = drop (length w) s" by (simp add: strip_one_def)
  ultimately show ?thesis by (auto simp: has_prefix_iff)
qed

function trim_left :: "string list \<Rightarrow> string \<Rightarrow> string" where
  "trim_left ws s = (case strip_one ws s of None \<Rightarrow> s | Some t \<Rightarrow> trim_left ws t)"
  by pat_completeness auto
termination
  by (relation "measure (\<lambda>(ws, s). length s)") (auto dest: strip_one_shorter)

declare trim_left.simps [simp del]

definition trim_space :: "string \<Rightarrow> string" where
  "trim_space s = rev (trim_left (map rev space_encodings) (rev (trim_left space_encodings s)))"

lemma trim_left_id: "strip_one ws s = None \<Longrightarrow> trim_left ws s = s"
  by (subst trim_left.simps) simp

lemma length_trim_left: "length (trim_left ws s) \<le> length s"
proof (induction ws s rule: trim_left.induct)
  case (1 ws s)
  show ?case
  proof (cases "strip_one ws s")
    case None
    then show ?thesis by (simp add: trim_left_id)
  next
    case (Some t)
    with 1 [OF Some] strip_one_shorter [OF Some] show ?thesis
      by (subst trim_left.simps) simp
  qed
qed

lemma length_trim_space: "length (trim_space s) \<le> length s"
  by (simp add: trim_space_def) (metis length_rev length_trim_left order_trans)

lemma trim_left_Nil [simp]: "trim_left ws [] = []"
  using length_trim_left [of ws "[]"] by simp

lemma strip_one_keeps:
  assumes "strip_one ws s = Some t" and "c \<in> set s" and "\<forall>w \<in> set ws. c \<notin> set w"
  shows "c \<in> set t"
proof (cases "filter (\<lambda>w. w \<noteq> [] \<and> has_prefix s w) ws")
  case Nil
  with assms show ?thesis by (simp add: strip_one_def)
next
  case (Cons w r)
  then have "w \<in> set (filter (\<lambda>w. w \<noteq> [] \<and> has_prefix s w) ws)" by simp
  then have w: "w \<in> set ws" "has_prefix s w" by simp_all
  then obtain u where "s = w @ u" by (auto simp: has_prefix_iff)
  moreover from assms(1) Cons have "t = drop (length w) s" by (simp add: strip_one_def)
  ultimately show ?thesis using assms(2,3) w by auto
qed

lemma trim_left_keeps:
  "c \<in> set s \<Longrightarrow> \<forall>w \<in> set ws. c \<notin> set w \<Longrightarrow> c \<in> set (trim_left ws s)"
proof (induction ws s rule: trim_left.induct)
  case (1 ws s)
  show ?case
  proof (cases "strip_one ws s")
    case None
    with 1 show ?thesis by (simp add: trim_left_id)
  next
    case (Some t)
    with 1 strip_one_keeps [OF Some] show ?thesis by (subst trim_left.simps) simp
  qed
qed

lemma trim_space_keeps:
  assumes "c \<in> set s" and "\<forall>w \<in> set space_encodings. c \<notin> set w"
  shows "c \<in> set (trim_space s)"
  using assms by (simp add: trim_space_def trim_left_keeps)

text \<open>Lower case of ASCII letters, which is \<open>strings.ToLower\<close> on ASCII text.\<close>

definition is_lower :: "char \<Rightarrow> bool" where
  "is_lower c \<longleftrightarrow> CHR ''a'' \<le> c \<and> c \<le> CHR ''z''"
definition is_upper :: "char \<Rightarrow> bool" where
  "is_upper c \<longleftrightarrow> CHR ''A'' \<le> c \<and> c \<le> CHR ''Z''"
definition is_digit :: "char \<Rightarrow> bool" where
  "is_digit c \<longleftrightarrow> CHR ''0'' \<le> c \<and> c \<le> CHR ''9''"

lemmas char_class_defs = is_lower_def is_upper_def is_digit_def

definition ascii_lower :: "char \<Rightarrow> char" where
  "ascii_lower c = (if is_upper c then char_of (of_char c + 32 :: nat) else c)"

definition to_lower :: "string \<Rightarrow> string" where
  "to_lower s = map ascii_lower s"

text \<open>
  The value of a PostgreSQL \<open>uuid\<close> parameter given as text: the column compares by value, so the
  letter case of the text does not matter, and reading it back gives lower case.
\<close>

definition uuid_text :: "string \<Rightarrow> string" where
  "uuid_text s = to_lower s"

lemma ascii_lower_idem [simp]: "ascii_lower (ascii_lower c) = ascii_lower c"
proof (cases "is_upper c")
  case True
  then have "(of_char c :: nat) < 91" and "65 \<le> (of_char c :: nat)"
    by (simp_all add: is_upper_def less_eq_char_def)
  then have "(of_char (char_of (of_char c + 32 :: nat) :: char) :: nat) = of_char c + 32"
    by simp
  then show ?thesis
    using \<open>65 \<le> (of_char c :: nat)\<close> True by (simp add: ascii_lower_def is_upper_def less_eq_char_def)
qed (simp add: ascii_lower_def)

lemma uuid_text_idem [simp]: "uuid_text (uuid_text s) = uuid_text s"
  by (simp add: uuid_text_def to_lower_def)

text \<open>The separator of composed keys, and \<open>strings.Join\<close>.\<close>

definition nul :: string where "nul = [CHR 0x00]"

fun join_with :: "string \<Rightarrow> string list \<Rightarrow> string" where
  "join_with sep [] = []"
| "join_with sep [x] = x"
| "join_with sep (x # y # xs) = x @ sep @ join_with sep (y # xs)"

subsection \<open>Rows of a table\<close>

text \<open>\<open>UPDATE t SET ... WHERE P\<close>: every row that satisfies \<open>P\<close> is changed in place.\<close>

definition update_where :: "('r \<Rightarrow> bool) \<Rightarrow> ('r \<Rightarrow> 'r) \<Rightarrow> 'r list \<Rightarrow> 'r list" where
  "update_where P f rows = map (\<lambda>r. if P r then f r else r) rows"

lemma set_update_where: "set (update_where P f rows) = {r \<in> set rows. \<not> P r} \<union> f ` {r \<in> set rows. P r}"
  by (auto simp: update_where_def)

lemma map_update_where:
  "(\<And>r. k (f r) = k r) \<Longrightarrow> map k (update_where P f rows) = map k rows"
  by (simp add: update_where_def)

lemma find_distinct_key:
  assumes "find (\<lambda>r. k r = x) rows = Some r" and "distinct (map k rows)" and "r' \<in> set rows" and "k r' = x"
  shows "r' = r"
proof -
  have "r \<in> set rows" and "k r = x"
    using assms(1) by (auto simp: find_Some_iff)
  then show ?thesis
    using assms(2-4) by (auto simp: distinct_map inj_on_def)
qed

lemma find_append: "find P (xs @ ys) = (case find P xs of None \<Rightarrow> find P ys | Some x \<Rightarrow> Some x)"
  by (induction xs) auto

lemma find_key_only:
  assumes "find (\<lambda>r. k r = x) rows = Some r" and "distinct (map k rows)"
  shows "{r' \<in> set rows. k r' = x} = {r}"
proof (rule set_eqI)
  fix y
  have "r \<in> set rows \<and> k r = x" using assms(1) by (auto simp: find_Some_iff)
  then show "y \<in> {r' \<in> set rows. k r' = x} \<longleftrightarrow> y \<in> {r}"
    using find_distinct_key [OF assms, of y] by auto
qed

text \<open>\<open>strings.Contains\<close>.\<close>

fun contains :: "'a list \<Rightarrow> 'a list \<Rightarrow> bool" where
  "contains [] p = (p = [])"
| "contains (c # s) p = (has_prefix (c # s) p \<or> contains s p)"

lemma contains_iff: "contains s p \<longleftrightarrow> (\<exists>u v. s = u @ p @ v)"
proof (induction s p rule: contains.induct)
  case (1 p)
  show ?case by auto
next
  case (2 c s p)
  show ?case
  proof
    assume "contains (c # s) p"
    then consider "has_prefix (c # s) p" | "contains s p" by auto
    then show "\<exists>u v. c # s = u @ p @ v"
    proof cases
      case 1
      then show ?thesis by (auto simp: has_prefix_iff intro: exI [of _ "[]"])
    next
      case a: 2
      with 2 show ?thesis by (metis append_Cons)
    qed
  next
    assume "\<exists>u v. c # s = u @ p @ v"
    then obtain u v where uv: "c # s = u @ p @ v" by blast
    show "contains (c # s) p"
    proof (cases u)
      case Nil
      with uv have "has_prefix (c # s) p" by (simp del: has_prefix.simps)
      then show ?thesis by simp
    next
      case (Cons d u')
      with uv 2 show ?thesis by auto
    qed
  qed
qed

subsection \<open>Sequences of steps\<close>

text \<open>
  \<open>steps step allowed s os s'\<close>: the operations \<open>os\<close> take \<open>s\<close> to \<open>s'\<close>, each of them allowed when it
  runs and each of them committing.
\<close>

inductive steps :: "('op \<Rightarrow> 's \<Rightarrow> 's option) \<Rightarrow> ('op \<Rightarrow> 's \<Rightarrow> bool) \<Rightarrow> 's \<Rightarrow> 'op list \<Rightarrow> 's \<Rightarrow> bool"
  for step :: "'op \<Rightarrow> 's \<Rightarrow> 's option" and allowed :: "'op \<Rightarrow> 's \<Rightarrow> bool" where
  steps_none: "steps step allowed s [] s"
| steps_more: "allowed x s \<Longrightarrow> step x s = Some s' \<Longrightarrow> steps step allowed s' xs s''
    \<Longrightarrow> steps step allowed s (x # xs) s''"

inductive_cases steps_NilE [elim!]: "steps step allowed s [] s'"
inductive_cases steps_ConsE: "steps step allowed s (x # xs) s'"
inductive_simps steps_Nil_iff [simp]: "steps step allowed s [] s'"
inductive_simps steps_Cons_iff: "steps step allowed s (x # xs) s'"

lemma steps_invariant:
  assumes "steps step allowed s xs s'" and "P s"
    and "\<And>x s s'. allowed x s \<Longrightarrow> step x s = Some s' \<Longrightarrow> P s \<Longrightarrow> P s'"
  shows "P s'"
  using assms by (induction rule: steps.induct) auto

text \<open>
  The interface of an authorization ceiling: each step is taken by an actor that is active, and what
  anybody can do afterwards is what they could do before and what that actor held. The consequence
  for a group of actors follows once, here.
\<close>

locale ceiling_steps =
  fixes step :: "'op \<Rightarrow> 's \<Rightarrow> 's option"
    and ok :: "'s \<Rightarrow> bool"
    and allowed :: "'op \<Rightarrow> 's \<Rightarrow> bool"
    and actor :: "'op \<Rightarrow> 'u"
    and authority :: "'s \<Rightarrow> 'u \<Rightarrow> 'p set"
    and held :: "'s \<Rightarrow> 'u \<Rightarrow> 'p set"
  assumes step_ok: "step x s = Some s' \<Longrightarrow> ok s \<Longrightarrow> ok s'"
    and authority_gain: "step x s = Some s' \<Longrightarrow> ok s \<Longrightarrow> allowed x s
      \<Longrightarrow> authority s' u \<subseteq> authority s u \<union> held s (actor x)"
    and held_gain: "step x s = Some s' \<Longrightarrow> ok s \<Longrightarrow> allowed x s
      \<Longrightarrow> held s' u \<subseteq> held s u \<union> held s (actor x)"
begin

lemma run_ceiling:
  assumes "steps step allowed s xs s'" and "ok s" and "actor ` set xs \<subseteq> A"
  shows "authority s' u \<subseteq> authority s u \<union> (\<Union>a \<in> A. held s a)"
  using assms
proof (induction rule: steps.induct)
  case (steps_none s)
  then show ?case by simp
next
  case (steps_more x s s1 xs s2)
  let ?X = "\<Union>a \<in> A. held s a"
  have x: "held s (actor x) \<subseteq> ?X" using steps_more(6) by (intro UN_upper) simp
  have "held s1 a \<subseteq> ?X" if "a \<in> A" for a
  proof -
    have "held s a \<subseteq> ?X" using that by (rule UN_upper)
    then show ?thesis using held_gain [OF steps_more(2,5) steps_more(1), of a] x by (meson Un_least order_trans)
  qed
  then have a: "(\<Union>a \<in> A. held s1 a) \<subseteq> ?X" by (rule UN_least)
  have b: "authority s1 u \<subseteq> authority s u \<union> ?X"
    using authority_gain [OF steps_more(2,5) steps_more(1), of u] x by (meson Un_mono order_refl order_trans)
  have c: "authority s2 u \<subseteq> authority s1 u \<union> (\<Union>a \<in> A. held s1 a)"
    using steps_more.IH step_ok [OF steps_more(2,5)] steps_more(6) by simp
  show ?case using order_trans [OF c Un_mono [OF b a]] by (simp only: Un_assoc Un_absorb)
qed

end

subsection \<open>Text\<close>

text \<open>\<open>utf8.ValidString\<close>: the well-formed byte sequences of the Unicode standard.\<close>

definition between :: "nat \<Rightarrow> nat \<Rightarrow> nat \<Rightarrow> bool" where "between a b x \<longleftrightarrow> a \<le> x \<and> x \<le> b"

definition utf8_tail :: "nat \<Rightarrow> bool" where "utf8_tail = between 128 191"

fun valid_utf8 :: "nat list \<Rightarrow> bool" where
  "valid_utf8 [] = True"
| "valid_utf8 (a # r) =
     (if a < 128 then valid_utf8 r
      else case r of
        b # r2 \<Rightarrow>
          if between 194 223 a then utf8_tail b \<and> valid_utf8 r2
          else (case r2 of
            c # r3 \<Rightarrow>
              if between 224 239 a
              then (if a = 224 then between 160 191 b else if a = 237 then between 128 159 b else utf8_tail b)
                   \<and> utf8_tail c \<and> valid_utf8 r3
              else (case r3 of
                d # r4 \<Rightarrow>
                  between 240 244 a
                  \<and> (if a = 240 then between 144 191 b else if a = 244 then between 128 143 b else utf8_tail b)
                  \<and> utf8_tail c \<and> utf8_tail d \<and> valid_utf8 r4
              | [] \<Rightarrow> False)
          | [] \<Rightarrow> False)
      | [] \<Rightarrow> False)"

end
