(* ===== verification/Validation.thy ===== *)
theory Validation
  imports Prelude
begin

section \<open>Identifiers, idempotency keys and page requests\<close>

text \<open>
  The leaf packages every handler calls first: \<open>pkg/shared/validation\<close> (\<open>IsUUID\<close>,
  \<open>IsIdempotencyKey\<close>), \<open>pkg/shared/identifier\<close> (\<open>NewUUID\<close>) and \<open>pkg/shared/pagination\<close>
  (\<open>Request.Validate\<close>, \<open>NewResult\<close>). The random bytes \<open>NewUUID\<close> draws are its argument.
\<close>

unbundle bit_operations_syntax

subsection \<open>UUIDs\<close>

definition is_hex :: "char \<Rightarrow> bool" where
  "is_hex c \<longleftrightarrow> is_digit c \<or> (CHR ''a'' \<le> c \<and> c \<le> CHR ''f'') \<or> (CHR ''A'' \<le> c \<and> c \<le> CHR ''F'')"

definition is_uuid :: "string \<Rightarrow> bool" where
  "is_uuid value \<longleftrightarrow>
     length value = 36
     \<and> value ! 8 = CHR ''-'' \<and> value ! 13 = CHR ''-''
     \<and> value ! 18 = CHR ''-'' \<and> value ! 23 = CHR ''-''
     \<and> (let compact = filter (\<lambda>c. c \<noteq> CHR ''-'') value
        in length compact = 32 \<and> list_all is_hex compact)"

lemma is_uuid_not_empty [simp]: "is_uuid u \<Longrightarrow> u \<noteq> []"
  by (auto simp: is_uuid_def)

lemma not_is_uuid_Nil [simp]: "\<not> is_uuid []"
  by (simp add: is_uuid_def)

lemma trim_space_uuid: "is_uuid u \<Longrightarrow> trim_space u \<noteq> []"
proof -
  assume "is_uuid u"
  then have "CHR ''-'' \<in> set u" using nth_mem [of 8 u] by (simp add: is_uuid_def)
  moreover have "\<forall>w \<in> set space_encodings. CHR ''-'' \<notin> set w" by code_simp
  ultimately show ?thesis using trim_space_keeps [of "CHR ''-''" u] by auto
qed

text \<open>\<open>hex.Encode\<close>: two lower-case digits a byte, the high half first.\<close>

definition hex_digit :: "nat \<Rightarrow> char" where
  "hex_digit n = ''0123456789abcdef'' ! n"

definition hex_byte :: "8 word \<Rightarrow> string" where
  "hex_byte b = [hex_digit (unat b div 16), hex_digit (unat b mod 16)]"

definition hex_encode :: "8 word list \<Rightarrow> string" where
  "hex_encode bs = concat (map hex_byte bs)"

definition uuid_bytes :: "8 word list \<Rightarrow> 8 word list" where
  "uuid_bytes v =
     v[6 := ((v ! 6 AND 0x0f) OR 0x40), 8 := ((v ! 8 AND 0x3f) OR 0x80)]"

text \<open>The random source either fails or delivers the sixteen bytes.\<close>

definition new_uuid :: "(8 word list) option \<Rightarrow> string + string" where
  "new_uuid random =
     (case random of
        None \<Rightarrow> Inl ''generate UUID''
      | Some v \<Rightarrow>
          (let w = uuid_bytes v in
           Inr (hex_encode (take 4 w) @ ''-'' @ hex_encode (take 2 (drop 4 w)) @ ''-''
                @ hex_encode (take 2 (drop 6 w)) @ ''-'' @ hex_encode (take 2 (drop 8 w)) @ ''-''
                @ hex_encode (drop 10 w))))"

lemma is_hex_hex_digit: "n < 16 \<Longrightarrow> is_hex (hex_digit n) \<and> hex_digit n \<noteq> CHR ''-''"
proof -
  assume "n < 16"
  then have "n \<in> set [0..<16]" by simp
  moreover have "\<forall>n \<in> set [0..<16]. is_hex (hex_digit n) \<and> hex_digit n \<noteq> CHR ''-''"
    by code_simp
  ultimately show ?thesis by blast
qed

lemma hex_byte_props:
  "length (hex_byte b) = 2 \<and> list_all (\<lambda>c. is_hex c \<and> c \<noteq> CHR ''-'') (hex_byte b)"
proof -
  have "unat b < 256" using unsigned_less [where 'a = nat, of b] by simp
  then show ?thesis by (simp add: hex_byte_def is_hex_hex_digit)
qed

lemma length_hex_encode [simp]: "length (hex_encode bs) = 2 * length bs"
  by (induction bs) (simp_all add: hex_encode_def hex_byte_props)

lemma hex_encode_hex: "list_all (\<lambda>c. is_hex c \<and> c \<noteq> CHR ''-'') (hex_encode bs)"
  using hex_byte_props by (induction bs) (simp_all add: hex_encode_def)

lemma filter_hex_encode [simp]: "filter (\<lambda>c. c \<noteq> CHR ''-'') (hex_encode bs) = hex_encode bs"
  using hex_encode_hex [of bs] by (simp add: filter_id_conv list_all_iff)

lemma length_uuid_bytes [simp]: "length (uuid_bytes v) = length v"
  by (simp add: uuid_bytes_def)

lemma new_uuid_is_uuid:
  assumes "length v = 16" and "new_uuid (Some v) = Inr u"
  shows "is_uuid u"
proof -
  define w where "w = uuid_bytes v"
  have w: "length w = 16" using assms(1) by (simp add: w_def)
  let ?a = "hex_encode (take 4 w)" let ?b = "hex_encode (take 2 (drop 4 w))"
  let ?c = "hex_encode (take 2 (drop 6 w))" let ?d = "hex_encode (take 2 (drop 8 w))"
  let ?e = "hex_encode (drop 10 w)"
  have u: "u = ?a @ ''-'' @ ?b @ ''-'' @ ?c @ ''-'' @ ?d @ ''-'' @ ?e"
    using assms(2) by (simp add: new_uuid_def w_def Let_def)
  have hex: "list_all is_hex (hex_encode bs)" for bs
    using hex_encode_hex [of bs] by (simp add: list_all_iff)
  have len: "length ?a = 8" "length ?b = 4" "length ?c = 4" "length ?d = 4" "length ?e = 12"
    using w by simp_all
  show ?thesis
    using len hex by (simp add: is_uuid_def u nth_append Let_def)
qed

lemma unat_div_16: "unat (w :: 8 word) div 16 = unat (drop_bit 4 w)"
  using unat_drop_bit_eq [of 4 w] by (simp only: drop_bit_eq_div) (simp)
lemma uuid_version_digit: "hex_digit (unat ((b AND 0x0f) OR (0x40 :: 8 word)) div 16) = CHR ''4''"
proof -
  have "drop_bit 4 ((b AND 0x0f) OR (0x40 :: 8 word)) = 4"
    by (rule bit_word_eqI) (auto simp: bit_simps numeral_eq_Suc less_Suc_eq)
  then show ?thesis by (simp only: unat_div_16) (simp add: hex_digit_def)
qed
lemma uuid_variant_digit: "hex_digit (unat ((b AND 0x3f) OR (0x80 :: 8 word)) div 16) \<in> set ''89ab''"
proof -
  have "drop_bit 4 ((b AND 0x3f) OR (0x80 :: 8 word)) =
     (if bit b 4 then (if bit b 5 then 11 else 9) else (if bit b 5 then 10 else 8))"
    by (rule bit_word_eqI) (auto simp: bit_simps numeral_eq_Suc less_Suc_eq)
  then show ?thesis by (simp only: unat_div_16) (simp add: hex_digit_def)
qed
text \<open>
  Every identifier \<open>NewUUID\<close> generates passes \<open>IsUUID\<close>, and its version and variant are
  those of RFC 4122 version 4: the version digit is \<open>4\<close> and the variant digit one of \<open>8\<close>, \<open>9\<close>,
  \<open>a\<close>, \<open>b\<close>, whatever sixteen bytes the random source delivered.
\<close>

theorem new_uuid_valid:
  assumes "length v = 16" and "new_uuid (Some v) = Inr u"
  shows "is_uuid u \<and> u ! 14 = CHR ''4'' \<and> u ! 19 \<in> set ''89ab''"
proof -
  obtain b0 b1 b2 b3 b4 b5 b6 b7 b8 b9 r where v: "v = [b0, b1, b2, b3, b4, b5, b6, b7, b8, b9] @ r"
    using assms(1) by (auto simp: numeral_eq_Suc length_Suc_conv)
  have "u ! 14 = CHR ''4''" and "u ! 19 \<in> set ''89ab''"
    using assms(2) uuid_version_digit [of b6] uuid_variant_digit [of b8]
    by (auto simp: v new_uuid_def uuid_bytes_def Let_def hex_encode_def hex_byte_def)
  with new_uuid_is_uuid [OF assms] show ?thesis by blast
qed

theorem new_uuid_valid_witness:
  "is_uuid ''00000000-0000-4000-8000-000000000000''"
proof -
  have "new_uuid (Some (replicate 16 0)) = Inr ''00000000-0000-4000-8000-000000000000''"
    by code_simp
  from new_uuid_valid [OF _ this] show ?thesis by simp
qed

subsection \<open>Idempotency keys\<close>

text \<open>
  Go ranges over the runes of the string; every byte of a multi-byte or malformed rune is outside
  the accepted set, so the loop over bytes accepts exactly the same strings.
\<close>

definition idempotency_char :: "char \<Rightarrow> bool" where
  "idempotency_char c \<longleftrightarrow> is_lower c \<or> is_upper c \<or> is_digit c \<or> c \<in> set ''-._:''"

definition is_idempotency_key :: "string \<Rightarrow> bool" where
  "is_idempotency_key value \<longleftrightarrow>
     \<not> (length value < 16 \<or> 128 < length value \<or> trim_space value \<noteq> value)
     \<and> list_all idempotency_char value"

lemma idempotency_key_bounds: "is_idempotency_key k \<Longrightarrow> 16 \<le> length k \<and> length k \<le> 128"
  by (auto simp: is_idempotency_key_def)

subsection \<open>Page requests\<close>

definition default_limit :: int where "default_limit = 50"
definition max_limit :: int where "max_limit = 100"
definition max_offset :: int where "max_offset = 1000000"

lemmas page_bound_defs = default_limit_def max_limit_def max_offset_def

datatype page_error = ErrInvalidPage

record page_request =
  page_limit :: int
  page_offset :: int

record page_result =
  result_limit :: int
  result_offset :: int
  result_total :: int
  has_more :: bool

definition validate_page :: "page_request \<Rightarrow> page_error + unit" where
  "validate_page r =
     (if page_limit r < 1 \<or> max_limit < page_limit r then Inl ErrInvalidPage
      else if page_offset r < 0 \<or> max_offset < page_offset r then Inl ErrInvalidPage
      else Inr ())"

definition new_page_result :: "page_request \<Rightarrow> int \<Rightarrow> int \<Rightarrow> page_result" where
  "new_page_result r matched returned =
     \<lparr>result_limit = page_limit r, result_offset = page_offset r, result_total = matched,
      has_more = page_offset r + returned < matched\<rparr>"

lemma validate_page_ok:
  "validate_page r = Inr () \<longleftrightarrow>
     1 \<le> page_limit r \<and> page_limit r \<le> 100 \<and> 0 \<le> page_offset r \<and> page_offset r \<le> 1000000"
  by (auto simp: validate_page_def page_bound_defs)

text \<open>One page of a filtered list, as \<open>LIMIT\<close> and \<open>OFFSET\<close> cut it.\<close>

definition page_items :: "page_request \<Rightarrow> 'a list \<Rightarrow> 'a list" where
  "page_items r xs = take (nat (page_limit r)) (drop (nat (page_offset r)) xs)"

lemma has_more_iff:
  assumes "validate_page r = Inr ()"
  shows "has_more (new_page_result r (int (length xs)) (int (length (page_items r xs))))
         \<longleftrightarrow> drop (nat (page_offset r) + nat (page_limit r)) xs \<noteq> []"
proof -
  from assms have "1 \<le> page_limit r" "0 \<le> page_offset r"
    by (simp_all add: validate_page_ok)
  then show ?thesis
    by (auto simp: new_page_result_def page_items_def min_def not_le split: if_splits)
qed

end
