(* ===== verification/Rbac.thy ===== *)
theory Rbac
  imports Validation
begin

section \<open>Authorization: permissions, scopes and role bindings\<close>

text \<open>
  \<open>pkg/server/rbac\<close>: the permission vocabulary and its scope floors (\<open>service.go\<close>), scopes and
  visibility (\<open>model.go\<close>), the request-scoped memo of role bindings (\<open>cache.go\<close>), the builtin roles
  (\<open>roles.go\<close>) and the decisions of \<open>Service\<close>. A Go \<open>Permission\<close> is a string, so unknown names
  exist here as they do there. The store behind the service is the record \<open>rbac_store\<close> of its three
  queries, each of which may fail; the memo a request context carries is passed in and out.
\<close>

type_synonym permission = string

subsection \<open>The permission vocabulary\<close>

definition all_permissions :: "permission list" where
  "all_permissions =
    [''tenant.create'', ''tenant.read'', ''tenant.manage'',
     ''project.create'', ''project.read'', ''project.manage'',
     ''application.manage'',
     ''cluster.enrollment.create'', ''cluster.enrollment.read'', ''cluster.enrollment.revoke'',
     ''cluster.read'', ''cluster.pod.logs.read'', ''cluster.pod.exec'', ''cluster.terminal.exec'',
     ''cluster.pod.terminal_recording.create'', ''cluster.pod.terminal_recording.read'',
     ''cluster.pod.port_forward'', ''cluster.node.manage'', ''cluster.node.drain'',
     ''cluster.event.read'', ''cluster.metrics.read'', ''cluster.metrics.manage'',
     ''cluster.manage'', ''cluster.namespace.manage'', ''cluster.system_namespace.manage'',
     ''cluster.agent_namespace.manage'', ''cluster.resource.create'', ''cluster.resource.update'',
     ''cluster.resource.delete'', ''cluster.rbac.read'', ''cluster.rbac.manage'',
     ''cluster.secret.read'', ''cluster.secret.manage'', ''cluster.connection.revoke'',
     ''cluster.helm.manage'', ''user.read'', ''user.manage'', ''user.password.change'',
     ''rbac.read'', ''rbac.manage'', ''helm.repository.read'', ''helm.repository.manage'',
     ''audit.read'', ''ai.run'']"

definition permission_valid :: "permission \<Rightarrow> bool" where
  "permission_valid p \<longleftrightarrow> p \<in> set all_permissions"

definition permission_scope_floors :: "(permission \<times> string) list" where
  "permission_scope_floors =
    [(''tenant.create'', ''global''), (''tenant.manage'', ''global''),
     (''user.read'', ''global''), (''user.manage'', ''global''),
     (''user.password.change'', ''global''),
     (''rbac.read'', ''global''), (''rbac.manage'', ''global''),
     (''helm.repository.read'', ''global''), (''helm.repository.manage'', ''global''),
     (''project.create'', ''tenant'')]"

definition minimum_scope :: "permission \<Rightarrow> string" where
  "minimum_scope p =
     (case map_of permission_scope_floors p of None \<Rightarrow> ''project'' | Some s \<Rightarrow> s)"

definition scope_breadth :: "string \<Rightarrow> int" where
  "scope_breadth v =
     (if v = ''global'' then 2 else if v = ''tenant'' then 1 else if v = ''project'' then 0 else -1)"

definition inert_at :: "permission \<Rightarrow> string \<Rightarrow> bool" where
  "inert_at p binding_scope_type \<longleftrightarrow>
     scope_breadth binding_scope_type < scope_breadth (minimum_scope p)"

subsection \<open>Scopes\<close>

record scope =
  scope_type :: string
  scope_tenant :: string
  scope_project :: string

definition global_scope :: scope where
  "global_scope = \<lparr>scope_type = ''global'', scope_tenant = [], scope_project = []\<rparr>"

definition tenant_scope :: "string \<Rightarrow> scope" where
  "tenant_scope t = \<lparr>scope_type = ''tenant'', scope_tenant = t, scope_project = []\<rparr>"

definition project_scope :: "string \<Rightarrow> string \<Rightarrow> scope" where
  "project_scope t p = \<lparr>scope_type = ''project'', scope_tenant = t, scope_project = p\<rparr>"

lemmas scope_defs = global_scope_def tenant_scope_def project_scope_def

record resolved_scope =
  resolved_tenant :: string
  resolved_project :: string
  resolved_agent_namespace :: string

definition no_resolved_scope :: resolved_scope where
  "no_resolved_scope =
     \<lparr>resolved_tenant = [], resolved_project = [], resolved_agent_namespace = []\<rparr>"

datatype rbac_error = ErrDenied | ErrInvalidScope | ErrUnknownPermission permission | ErrStore string

definition validate_scope :: "scope \<Rightarrow> rbac_error + unit" where
  "validate_scope s =
     (if scope_type s = ''global'' \<and> scope_tenant s = [] \<and> scope_project s = [] then Inr ()
      else if scope_type s = ''tenant'' \<and> is_uuid (scope_tenant s) \<and> scope_project s = [] then Inr ()
      else if scope_type s = ''project'' \<and> is_uuid (scope_tenant s) \<and> is_uuid (scope_project s)
      then Inr ()
      else Inl ErrInvalidScope)"

subsection \<open>Role bindings and the store\<close>

record role_binding =
  rb_role :: string
  rb_scope_type :: string
  rb_tenant :: string
  rb_project :: string
  rb_permissions :: "permission list"

datatype lookup_failure = LookupNotFound | LookupFailure string

record rbac_store =
  st_role_bindings :: "string \<Rightarrow> string + role_binding list"
  st_project_tenant :: "string \<Rightarrow> lookup_failure + string"
  st_cluster_scope :: "string \<Rightarrow> lookup_failure + resolved_scope"

definition binding_grants :: "permission list \<Rightarrow> permission \<Rightarrow> bool" where
  "binding_grants ps p \<longleftrightarrow> p \<in> set ps"

definition binding_applies :: "role_binding \<Rightarrow> scope \<Rightarrow> bool" where
  "binding_applies b s \<longleftrightarrow>
     (if rb_scope_type b = ''global'' then True
      else if rb_scope_type b = ''tenant'' then
        scope_type s \<noteq> ''global'' \<and> rb_tenant b = scope_tenant s
      else if rb_scope_type b = ''project'' then
        scope_type s = ''project'' \<and> rb_tenant b = scope_tenant s \<and> rb_project b = scope_project s
      else False)"

definition validate_subject_permission :: "string \<Rightarrow> permission \<Rightarrow> rbac_error + unit" where
  "validate_subject_permission u p =
     (if \<not> is_uuid u then Inl ErrDenied
      else if \<not> permission_valid p then Inl (ErrUnknownPermission p)
      else Inr ())"

subsection \<open>The request-scoped memo\<close>

text \<open>
  \<open>None\<close> is a context with no memo, or one from which \<open>WithoutBindingCache\<close> removed it.
\<close>

type_synonym binding_cache = "(string \<rightharpoonup> role_binding list) option"

definition with_binding_cache :: binding_cache where
  "with_binding_cache = Some Map.empty"

definition without_binding_cache :: "binding_cache \<Rightarrow> binding_cache" where
  "without_binding_cache c = None"

definition list_role_bindings ::
    "rbac_store \<Rightarrow> binding_cache \<Rightarrow> string \<Rightarrow> (rbac_error + role_binding list) \<times> binding_cache" where
  "list_role_bindings st c u =
     (case c of
        None \<Rightarrow> (case st_role_bindings st u of
                   Inl e \<Rightarrow> (Inl (ErrStore e), None) | Inr bs \<Rightarrow> (Inr bs, None))
      | Some m \<Rightarrow>
          (case m u of
             Some bs \<Rightarrow> (Inr bs, Some m)
           | None \<Rightarrow>
               (case st_role_bindings st u of
                  Inl e \<Rightarrow> (Inl (ErrStore e), Some m)
                | Inr bs \<Rightarrow> (Inr bs, Some (m(u \<mapsto> bs))))))"

subsection \<open>The decisions of the service\<close>

type_synonym 'a decision = "(rbac_error + 'a) \<times> binding_cache"

definition authorize_validated ::
    "rbac_store \<Rightarrow> binding_cache \<Rightarrow> string \<Rightarrow> permission \<Rightarrow> scope \<Rightarrow> unit decision" where
  "authorize_validated st c u p s =
     (case list_role_bindings st c u of
        (Inl e, c') \<Rightarrow> (Inl e, c')
      | (Inr bs, c') \<Rightarrow>
          (if list_ex (\<lambda>b. binding_grants (rb_permissions b) p \<and> binding_applies b s) bs
           then Inr () else Inl ErrDenied, c'))"

definition authorize ::
    "rbac_store \<Rightarrow> binding_cache \<Rightarrow> string \<Rightarrow> permission \<Rightarrow> scope \<Rightarrow> unit decision" where
  "authorize st c u p s =
     (case and_then (validate_subject_permission u p) (\<lambda>_. validate_scope s) of
        Inl e \<Rightarrow> (Inl e, c)
      | Inr _ \<Rightarrow> authorize_validated st c u p s)"

definition authorize_global ::
    "rbac_store \<Rightarrow> binding_cache \<Rightarrow> string \<Rightarrow> permission \<Rightarrow> unit decision" where
  "authorize_global st c u p = authorize st c u p global_scope"

definition authorize_tenant ::
    "rbac_store \<Rightarrow> binding_cache \<Rightarrow> string \<Rightarrow> permission \<Rightarrow> string \<Rightarrow> unit decision" where
  "authorize_tenant st c u p t = authorize st c u p (tenant_scope t)"

text \<open>
  The Go functions return the resolved scope beside the error; the scope is part of the value here
  and the callers read it on success only.
\<close>

definition authorize_project ::
    "rbac_store \<Rightarrow> binding_cache \<Rightarrow> string \<Rightarrow> permission \<Rightarrow> string \<Rightarrow> resolved_scope decision" where
  "authorize_project st c u p pr =
     (case validate_subject_permission u p of
        Inl e \<Rightarrow> (Inl e, c)
      | Inr _ \<Rightarrow>
          if \<not> is_uuid pr then (Inl ErrInvalidScope, c)
          else (case st_project_tenant st pr of
                  Inl LookupNotFound \<Rightarrow> (Inl ErrDenied, c)
                | Inl (LookupFailure e) \<Rightarrow> (Inl (ErrStore e), c)
                | Inr t \<Rightarrow>
                    (case authorize_validated st c u p (project_scope t pr) of
                       (Inl e, c') \<Rightarrow> (Inl e, c')
                     | (Inr _, c') \<Rightarrow>
                         (Inr \<lparr>resolved_tenant = t, resolved_project = pr,
                               resolved_agent_namespace = []\<rparr>, c'))))"

definition resolve_cluster_scope :: "rbac_store \<Rightarrow> string \<Rightarrow> rbac_error + resolved_scope" where
  "resolve_cluster_scope st cl =
     (if \<not> is_uuid cl then Inl ErrInvalidScope
      else (case st_cluster_scope st cl of
              Inl LookupNotFound \<Rightarrow> Inl ErrDenied
            | Inl (LookupFailure e) \<Rightarrow> Inl (ErrStore e)
            | Inr r \<Rightarrow> Inr r))"

definition authorize_resolved_cluster ::
    "rbac_store \<Rightarrow> binding_cache \<Rightarrow> string \<Rightarrow> permission \<Rightarrow> resolved_scope \<Rightarrow> unit decision" where
  "authorize_resolved_cluster st c u p r =
     (case validate_subject_permission u p of
        Inl e \<Rightarrow> (Inl e, c)
      | Inr _ \<Rightarrow>
          if \<not> is_uuid (resolved_tenant r) \<or> \<not> is_uuid (resolved_project r)
             \<or> resolved_agent_namespace r = []
          then (Inl ErrInvalidScope, c)
          else authorize_validated st c u p
                 (project_scope (resolved_tenant r) (resolved_project r)))"

definition authorize_cluster ::
    "rbac_store \<Rightarrow> binding_cache \<Rightarrow> string \<Rightarrow> permission \<Rightarrow> string \<Rightarrow> resolved_scope decision" where
  "authorize_cluster st c u p cl =
     (case validate_subject_permission u p of
        Inl e \<Rightarrow> (Inl e, c)
      | Inr _ \<Rightarrow>
          if \<not> is_uuid cl then (Inl ErrInvalidScope, c)
          else (case resolve_cluster_scope st cl of
                  Inl e \<Rightarrow> (Inl e, c)
                | Inr r \<Rightarrow>
                    (case authorize_resolved_cluster st c u p r of
                       (Inl e, c') \<Rightarrow> (Inl e, c')
                     | (Inr _, c') \<Rightarrow> (Inr r, c'))))"

definition is_global_administrator ::
    "rbac_store \<Rightarrow> binding_cache \<Rightarrow> string \<Rightarrow> bool decision" where
  "is_global_administrator st c u =
     (if \<not> is_uuid u then (Inl ErrDenied, c)
      else (case list_role_bindings st c u of
              (Inl e, c') \<Rightarrow> (Inl e, c')
            | (Inr bs, c') \<Rightarrow>
                (Inr (list_ex (\<lambda>b. rb_scope_type b = ''global'' \<and> rb_role b = ''admin'') bs), c')))"

text \<open>The permissions a subject holds globally, which is the ceiling of role management.\<close>

definition global_permissions ::
    "rbac_store \<Rightarrow> binding_cache \<Rightarrow> string \<Rightarrow> permission set decision" where
  "global_permissions st c u =
     (if \<not> is_uuid u then (Inl ErrDenied, c)
      else (case list_role_bindings st c u of
              (Inl e, c') \<Rightarrow> (Inl e, c')
            | (Inr bs, c') \<Rightarrow>
                (Inr (set (concat (map (\<lambda>b. if rb_scope_type b \<noteq> ''global'' then []
                                            else filter (binding_grants (rb_permissions b)) all_permissions)
                                       bs))), c')))"

record capability =
  cap_role :: string
  cap_scope_type :: string
  cap_tenant :: string
  cap_project :: string
  cap_permissions :: "permission list"

definition capability_of :: "role_binding \<Rightarrow> capability" where
  "capability_of b =
     \<lparr>cap_role = rb_role b, cap_scope_type = rb_scope_type b, cap_tenant = rb_tenant b,
      cap_project = rb_project b,
      cap_permissions = sort (filter (\<lambda>p. \<not> inert_at p (rb_scope_type b)
                                          \<and> binding_grants (rb_permissions b) p) all_permissions)\<rparr>"

definition list_capabilities ::
    "rbac_store \<Rightarrow> binding_cache \<Rightarrow> string \<Rightarrow> capability list decision" where
  "list_capabilities st c u =
     (if \<not> is_uuid u then (Inl ErrDenied, c)
      else (case list_role_bindings st c u of
              (Inl e, c') \<Rightarrow> (Inl e, c')
            | (Inr bs, c') \<Rightarrow> (Inr (map capability_of bs), c')))"

subsection \<open>Visibility\<close>

record visibility =
  vis_global :: bool
  vis_tenant_wide :: "string set"
  vis_project_only :: "(string \<times> string) list"

definition add_visible :: "permission \<Rightarrow> role_binding \<Rightarrow> visibility \<Rightarrow> visibility" where
  "add_visible p b v =
     (if \<not> binding_grants (rb_permissions b) p then v
      else if rb_scope_type b = ''global'' then v\<lparr>vis_global := True\<rparr>
      else if rb_scope_type b = ''tenant'' then
        v\<lparr>vis_tenant_wide := insert (rb_tenant b) (vis_tenant_wide v)\<rparr>
      else if rb_scope_type b = ''project'' then
        v\<lparr>vis_project_only := AList.update (rb_project b) (rb_tenant b) (vis_project_only v)\<rparr>
      else v)"

definition no_visibility :: visibility where
  "no_visibility = \<lparr>vis_global = False, vis_tenant_wide = {}, vis_project_only = []\<rparr>"

definition resolve_visibility ::
    "rbac_store \<Rightarrow> binding_cache \<Rightarrow> string \<Rightarrow> permission \<Rightarrow> visibility decision" where
  "resolve_visibility st c u p =
     (case validate_subject_permission u p of
        Inl e \<Rightarrow> (Inl e, c)
      | Inr _ \<Rightarrow>
          (case list_role_bindings st c u of
             (Inl e, c') \<Rightarrow> (Inl e, c')
           | (Inr bs, c') \<Rightarrow> (Inr (fold (add_visible p) bs no_visibility), c')))"

definition allows_tenant :: "visibility \<Rightarrow> string \<Rightarrow> bool" where
  "allows_tenant v t \<longleftrightarrow> vis_global v \<or> t \<in> vis_tenant_wide v \<or> list_ex (\<lambda>e. snd e = t) (vis_project_only v)"

text \<open>A missing map entry reads as the empty string in Go, hence the default.\<close>

definition allows_project :: "visibility \<Rightarrow> string \<Rightarrow> string \<Rightarrow> bool" where
  "allows_project v t pr \<longleftrightarrow>
     vis_global v \<or> t \<in> vis_tenant_wide v
     \<or> (case map_of (vis_project_only v) pr of None \<Rightarrow> [] | Some x \<Rightarrow> x) = t"

definition has_any :: "visibility \<Rightarrow> bool" where
  "has_any v \<longleftrightarrow> vis_global v \<or> vis_tenant_wide v \<noteq> {} \<or> vis_project_only v \<noteq> []"

definition project_ids :: "visibility \<Rightarrow> string list" where
  "project_ids v = map fst (vis_project_only v)"

definition project_tenant_ids :: "visibility \<Rightarrow> string list" where
  "project_tenant_ids v = remdups (map snd (vis_project_only v))"

subsection \<open>Builtin roles\<close>

record builtin_role =
  br_id :: string
  br_name :: string
  br_permissions :: "permission list"

definition builtin_roles :: "builtin_role list" where
  "builtin_roles =
     [\<lparr>br_id = ''00000000-0000-4000-8000-000000000001'', br_name = ''admin'',
       br_permissions = all_permissions\<rparr>,
      \<lparr>br_id = ''00000000-0000-4000-8000-000000000002'', br_name = ''viewer'',
       br_permissions = [''tenant.read'', ''project.read'', ''cluster.read'']\<rparr>]"

definition is_builtin_role :: "string \<Rightarrow> bool" where
  "is_builtin_role n \<longleftrightarrow> list_ex (\<lambda>r. br_name r = n) builtin_roles"


subsection \<open>What the decisions decide\<close>

text \<open>
  The specification of every scoped check: the store answers for the subject, and one of the
  bindings it answers with carries the permission and reaches the scope.
\<close>

definition holds :: "rbac_store \<Rightarrow> string \<Rightarrow> permission \<Rightarrow> scope \<Rightarrow> bool" where
  "holds st u p s \<longleftrightarrow>
     (\<exists>bs. st_role_bindings st u = Inr bs
        \<and> (\<exists>b \<in> set bs. binding_grants (rb_permissions b) p \<and> binding_applies b s))"

text \<open>A memo is coherent when every entry is what the store would answer now.\<close>

definition coherent :: "rbac_store \<Rightarrow> binding_cache \<Rightarrow> bool" where
  "coherent st c \<longleftrightarrow>
     (\<forall>m u bs. c = Some m \<and> m u = Some bs \<longrightarrow> st_role_bindings st u = Inr bs)"

lemma coherent_fresh [simp, intro]: "coherent st None" "coherent st with_binding_cache"
  "coherent st (without_binding_cache c)"
  by (simp_all add: coherent_def with_binding_cache_def without_binding_cache_def)

lemma list_role_bindings_coherent:
  assumes "coherent st c"
  shows "fst (list_role_bindings st c u) = (case st_role_bindings st u of Inl e \<Rightarrow> Inl (ErrStore e) | Inr bs \<Rightarrow> Inr bs)"
    and "coherent st (snd (list_role_bindings st c u))"
  using assms
  by (auto simp: list_role_bindings_def coherent_def split: option.splits sum.splits if_splits)

lemma list_role_bindings_keeps_memo:
  "list_role_bindings st (Some m) u = (r, c') \<Longrightarrow> \<exists>m'. c' = Some m' \<and> m \<subseteq>\<^sub>m m'"
  by (auto simp: list_role_bindings_def map_le_def split: option.splits sum.splits)

lemma authorize_validated_iff:
  "coherent st c \<Longrightarrow> fst (authorize_validated st c u p s) = Inr () \<longleftrightarrow> holds st u p s"
  using list_role_bindings_coherent(1) [of st c u]
  by (auto simp: authorize_validated_def holds_def list_ex_iff split: prod.splits sum.splits)

lemma authorize_validated_coherent:
  "coherent st c \<Longrightarrow> coherent st (snd (authorize_validated st c u p s))"
  using list_role_bindings_coherent(2) [of st c u]
  by (auto simp: authorize_validated_def split: prod.splits sum.splits)

lemma authorize_validated_cases:
  assumes "coherent st c"
  obtains (allow) c' where "authorize_validated st c u p s = (Inr (), c')" and "holds st u p s"
  | (refuse) e c' where "authorize_validated st c u p s = (Inl e, c')" and "\<not> holds st u p s"
proof (cases "authorize_validated st c u p s")
  case (Pair r c')
  with authorize_validated_iff [OF assms, of u p s] that show ?thesis
    by (cases r) auto
qed

lemma validate_subject_permission_ok [simp]:
  "is_uuid u \<Longrightarrow> permission_valid p \<Longrightarrow> validate_subject_permission u p = Inr ()"
  by (simp add: validate_subject_permission_def)

lemma validate_subject_permission_iff:
  "validate_subject_permission u p = Inr x \<longleftrightarrow> is_uuid u \<and> permission_valid p"
  by (auto simp: validate_subject_permission_def)

lemma authorize_iff:
  assumes "coherent st c"
  shows "fst (authorize st c u p s) = Inr () \<longleftrightarrow>
     is_uuid u \<and> permission_valid p \<and> validate_scope s = Inr () \<and> holds st u p s"
proof (cases "validate_subject_permission u p")
  case (Inl e)
  then have "\<not> (is_uuid u \<and> permission_valid p)" by auto
  with Inl show ?thesis by (auto simp: authorize_def)
next
  case (Inr x)
  then have "is_uuid u \<and> permission_valid p" by (simp add: validate_subject_permission_iff)
  with Inr show ?thesis
    by (cases "validate_scope s")
      (auto simp: authorize_def authorize_validated_iff [OF assms])
qed

lemma authorize_project_iff:
  assumes "coherent st c"
  shows "fst (authorize_project st c u p pr) = Inr r \<longleftrightarrow>
     is_uuid u \<and> permission_valid p \<and> is_uuid pr
     \<and> (\<exists>t. st_project_tenant st pr = Inr t \<and> holds st u p (project_scope t pr)
            \<and> r = \<lparr>resolved_tenant = t, resolved_project = pr, resolved_agent_namespace = []\<rparr>)"
proof (cases "is_uuid u \<and> permission_valid p \<and> is_uuid pr")
  case False
  then show ?thesis
    by (auto simp: authorize_project_def validate_subject_permission_def)
next
  case True
  show ?thesis
  proof (cases "st_project_tenant st pr")
    case (Inl e)
    with True show ?thesis
      by (cases e) (auto simp: authorize_project_def)
  next
    case (Inr t)
    show ?thesis
      by (rule authorize_validated_cases [OF assms, of u p "project_scope t pr"])
        (use True Inr in \<open>auto simp: authorize_project_def\<close>)
  qed
qed

lemma resolve_cluster_scope_iff:
  "resolve_cluster_scope st cl = Inr r \<longleftrightarrow> is_uuid cl \<and> st_cluster_scope st cl = Inr r"
  by (auto simp: resolve_cluster_scope_def split: sum.splits lookup_failure.splits)

lemma authorize_resolved_cluster_iff:
  assumes "coherent st c"
  shows "fst (authorize_resolved_cluster st c u p r) = Inr () \<longleftrightarrow>
     is_uuid u \<and> permission_valid p \<and> is_uuid (resolved_tenant r) \<and> is_uuid (resolved_project r)
     \<and> resolved_agent_namespace r \<noteq> []
     \<and> holds st u p (project_scope (resolved_tenant r) (resolved_project r))"
proof (cases "is_uuid u \<and> permission_valid p")
  case False
  then show ?thesis
    by (auto simp: authorize_resolved_cluster_def validate_subject_permission_def)
next
  case True
  then show ?thesis
    by (auto simp: authorize_resolved_cluster_def authorize_validated_iff [OF assms])
qed

lemma authorize_cluster_iff:
  assumes "coherent st c"
  shows "fst (authorize_cluster st c u p cl) = Inr r \<longleftrightarrow>
     is_uuid cl \<and> st_cluster_scope st cl = Inr r
     \<and> fst (authorize_resolved_cluster st c u p r) = Inr ()"
proof (cases "is_uuid u \<and> permission_valid p \<and> is_uuid cl")
  case False
  then show ?thesis
    by (auto simp: authorize_cluster_def validate_subject_permission_def
          authorize_resolved_cluster_def)
next
  case True
  show ?thesis
  proof (cases "resolve_cluster_scope st cl")
    case (Inl e)
    with True have "st_cluster_scope st cl \<noteq> Inr r"
      using resolve_cluster_scope_iff [of st cl r] by auto
    with Inl True show ?thesis by (auto simp: authorize_cluster_def)
  next
    case (Inr r')
    then have "st_cluster_scope st cl = Inr r'" by (simp add: resolve_cluster_scope_iff)
    with True Inr show ?thesis
      by (cases "authorize_resolved_cluster st c u p r'"; cases "fst (authorize_resolved_cluster st c u p r')")
        (auto simp: authorize_cluster_def)
  qed
qed

subsection \<open>Properties of authorization\<close>

lemma holds_widen:
  assumes "holds st u p s"
    and "\<And>b. binding_applies b s \<Longrightarrow> binding_applies b s'"
  shows "holds st u p s'"
  using assms by (auto simp: holds_def)

lemma applies_global_tenant: "binding_applies b global_scope \<Longrightarrow> binding_applies b (tenant_scope t)"
  by (auto simp: binding_applies_def scope_defs split: if_splits)

lemma applies_tenant_project: "binding_applies b (tenant_scope t) \<Longrightarrow> binding_applies b (project_scope t pr)"
  by (auto simp: binding_applies_def scope_defs split: if_splits)

text \<open>
  A grant reaches everything below it. What a subject may do globally they may do in every
  Tenant; what they may do in a Tenant they may do in every Project the store places in it; what they
  may do in a Project they may do on every Cluster the store places in it.
\<close>

theorem authority_flows_down:
  assumes "coherent st c"
  shows "(fst (authorize_global st c u p) = Inr () \<and> is_uuid t
            \<longrightarrow> fst (authorize_tenant st c u p t) = Inr ())
       \<and> (fst (authorize_tenant st c u p t) = Inr () \<and> is_uuid pr \<and> st_project_tenant st pr = Inr t
            \<longrightarrow> (\<exists>r. fst (authorize_project st c u p pr) = Inr r))
       \<and> (fst (authorize_project st c u p pr) = Inr r \<and> is_uuid cl \<and> st_cluster_scope st cl = Inr k
            \<and> resolved_project k = pr \<and> st_project_tenant st pr = Inr (resolved_tenant k)
            \<and> is_uuid (resolved_tenant k) \<and> resolved_agent_namespace k \<noteq> []
            \<longrightarrow> fst (authorize_cluster st c u p cl) = Inr k)"
proof (intro conjI impI)
  show "fst (authorize_tenant st c u p t) = Inr ()"
    if "fst (authorize_global st c u p) = Inr () \<and> is_uuid t"
    using that assms
      holds_widen [where s = global_scope and s' = "tenant_scope t", OF _ applies_global_tenant]
    by (simp add: authorize_global_def authorize_tenant_def authorize_iff)
      (simp add: validate_scope_def tenant_scope_def)
  show "\<exists>r. fst (authorize_project st c u p pr) = Inr r"
    if "fst (authorize_tenant st c u p t) = Inr () \<and> is_uuid pr \<and> st_project_tenant st pr = Inr t"
    using that assms
      holds_widen [where s = "tenant_scope t" and s' = "project_scope t pr", OF _ applies_tenant_project]
    by (simp add: authorize_tenant_def authorize_iff authorize_project_iff)
  show "fst (authorize_cluster st c u p cl) = Inr k"
    if "fst (authorize_project st c u p pr) = Inr r \<and> is_uuid cl \<and> st_cluster_scope st cl = Inr k
            \<and> resolved_project k = pr \<and> st_project_tenant st pr = Inr (resolved_tenant k)
            \<and> is_uuid (resolved_tenant k) \<and> resolved_agent_namespace k \<noteq> []"
    using that assms
    by (auto simp: authorize_cluster_iff authorize_resolved_cluster_iff authorize_project_iff)
qed

text \<open>The example store of the witnesses: one Project administrator in one Tenant.\<close>

definition ex_user :: string where "ex_user = ''00000000-0000-4000-8000-00000000000a''"
definition ex_tenant :: string where "ex_tenant = ''00000000-0000-4000-8000-00000000000b''"
definition ex_project :: string where "ex_project = ''00000000-0000-4000-8000-00000000000c''"
definition ex_cluster :: string where "ex_cluster = ''00000000-0000-4000-8000-00000000000d''"

lemmas ex_id_defs = ex_user_def ex_tenant_def ex_project_def ex_cluster_def

lemma ex_ids_uuid [simp]: "is_uuid ex_user" "is_uuid ex_tenant" "is_uuid ex_project" "is_uuid ex_cluster"
  by (code_simp)+

definition ex_store :: "role_binding list \<Rightarrow> rbac_store" where
  "ex_store bs =
     \<lparr>st_role_bindings = (\<lambda>u. if u = ex_user then Inr bs else Inr []),
      st_project_tenant = (\<lambda>p. if p = ex_project then Inr ex_tenant else Inl LookupNotFound),
      st_cluster_scope = (\<lambda>k. if k = ex_cluster
         then Inr \<lparr>resolved_tenant = ex_tenant, resolved_project = ex_project,
                   resolved_agent_namespace = ''zke-system''\<rparr>
         else Inl LookupNotFound)\<rparr>"

definition ex_binding :: "string \<Rightarrow> permission list \<Rightarrow> role_binding" where
  "ex_binding ty ps = \<lparr>rb_role = ''operator'', rb_scope_type = ty,
     rb_tenant = (if ty = ''global'' then [] else ex_tenant),
     rb_project = (if ty = ''project'' then ex_project else []), rb_permissions = ps\<rparr>"

theorem authority_flows_down_witness:
  "fst (authorize_tenant (ex_store [ex_binding ''global'' [''cluster.read'']]) None ex_user ''cluster.read'' ex_tenant)
     = Inr ()"
proof -
  have "fst (authorize_global (ex_store [ex_binding ''global'' [''cluster.read'']]) None ex_user ''cluster.read'')
     = Inr ()"
    by code_simp
  with authority_flows_down [THEN conjunct1, OF coherent_fresh(1)] show ?thesis by simp
qed

text \<open>
  The memo of one request changes no answer. While the store does not change, a decision taken
  with a coherent memo is the decision taken without one and leaves the memo coherent; and a context
  whose memo was removed follows the store at once, however stale the memo was.
\<close>

theorem memo_transparent:
  "coherent st c \<longrightarrow>
     (fst (authorize st c u p s) = Inr () \<longleftrightarrow> fst (authorize st None u p s) = Inr ())
     \<and> coherent st (snd (authorize st c u p s))
     \<and> (fst (authorize st' (without_binding_cache c) u p s) = Inr () \<longleftrightarrow>
          is_uuid u \<and> permission_valid p \<and> validate_scope s = Inr () \<and> holds st' u p s)"
proof
  assume c: "coherent st c"
  have "coherent st (snd (authorize st c u p s))"
    using c authorize_validated_coherent [OF c]
    by (auto simp: authorize_def split: sum.splits)
  with c show "(fst (authorize st c u p s) = Inr () \<longleftrightarrow> fst (authorize st None u p s) = Inr ())
     \<and> coherent st (snd (authorize st c u p s))
     \<and> (fst (authorize st' (without_binding_cache c) u p s) = Inr () \<longleftrightarrow>
          is_uuid u \<and> permission_valid p \<and> validate_scope s = Inr () \<and> holds st' u p s)"
    by (simp add: authorize_iff)
qed

theorem memo_transparent_witness:
  "fst (authorize (ex_store [ex_binding ''tenant'' [''cluster.read'']])
          (Some [ex_user \<mapsto> [ex_binding ''tenant'' [''cluster.read'']]])
          ex_user ''cluster.read'' (tenant_scope ex_tenant)) = Inr ()"
proof -
  let ?st = "ex_store [ex_binding ''tenant'' [''cluster.read'']]"
  let ?c = "Some [ex_user \<mapsto> [ex_binding ''tenant'' [''cluster.read'']]]"
  have "coherent ?st ?c"
    by (simp add: coherent_def ex_store_def)
  moreover have "fst (authorize ?st None ex_user ''cluster.read'' (tenant_scope ex_tenant)) = Inr ()"
    by code_simp
  ultimately show ?thesis using memo_transparent by blast
qed

text \<open>
  \<open>InertAt\<close> is exactly unreachability: a permission is inert for a binding just when no check made at
  the permission's own floor can be satisfied through it, whatever Tenant or Project the check names.
\<close>

lemma inert_lemma:
  assumes "rb_scope_type b \<in> {''global'', ''tenant'', ''project''}"
  shows "inert_at p (rb_scope_type b) \<longleftrightarrow>
           (\<nexists>s. scope_type s = minimum_scope p \<and> binding_applies b s)"
proof -
  have floors: "minimum_scope p \<in> {''global'', ''tenant'', ''project''}"
    by (auto simp: minimum_scope_def permission_scope_floors_def split: if_splits)
  define s where "s = \<lparr>scope_type = minimum_scope p, scope_tenant = rb_tenant b, scope_project = rb_project b\<rparr>"
  show ?thesis
  proof
    assume "inert_at p (rb_scope_type b)"
    then show "\<nexists>s. scope_type s = minimum_scope p \<and> binding_applies b s"
      using assms floors by (auto simp: inert_at_def scope_breadth_def binding_applies_def)
  next
    assume "\<nexists>s. scope_type s = minimum_scope p \<and> binding_applies b s"
    then have "\<not> binding_applies b s" by (auto simp: s_def)
    then show "inert_at p (rb_scope_type b)"
      using assms floors by (auto simp: inert_at_def scope_breadth_def binding_applies_def s_def)
  qed
qed

text \<open>
  The capability report neither invents nor omits anything. The permissions \<open>ListCapabilities\<close>
  reports across the subject's bindings are exactly the defined permissions the subject can exercise
  at some scope of the permission's own floor.
\<close>

theorem capabilities_exact:
  assumes "coherent st c" and "is_uuid u" and "st_role_bindings st u = Inr bs"
    and "\<forall>b \<in> set bs. rb_scope_type b \<in> {''global'', ''tenant'', ''project''}"
  shows "\<exists>caps. fst (list_capabilities st c u) = Inr caps
           \<and> (\<forall>p. (\<exists>cap \<in> set caps. p \<in> set (cap_permissions cap)) \<longleftrightarrow>
                permission_valid p \<and> (\<exists>s. scope_type s = minimum_scope p \<and> holds st u p s))"
proof -
  have "fst (list_role_bindings st c u) = Inr bs"
    using list_role_bindings_coherent(1) [OF assms(1), of u] assms(3) by simp
  then have caps: "fst (list_capabilities st c u) = Inr (map capability_of bs)"
    using assms(2) by (cases "list_role_bindings st c u") (simp add: list_capabilities_def)
  have "(\<exists>cap \<in> set (map capability_of bs). p \<in> set (cap_permissions cap)) \<longleftrightarrow>
          permission_valid p \<and> (\<exists>s. scope_type s = minimum_scope p \<and> holds st u p s)" for p
  proof -
    have "inert_at p (rb_scope_type b) \<longleftrightarrow> (\<nexists>s. scope_type s = minimum_scope p \<and> binding_applies b s)"
      if "b \<in> set bs" for b
      using that assms(4) by (intro inert_lemma) blast
    then show ?thesis
      using assms(3) by (auto simp: capability_of_def permission_valid_def holds_def)
  qed
  with caps show ?thesis by blast
qed

theorem capabilities_exact_witness:
  "\<exists>caps. fst (list_capabilities (ex_store [ex_binding ''tenant'' [''project.create'', ''user.manage'']]) None ex_user)
       = Inr caps
     \<and> (\<exists>cap \<in> set caps. ''project.create'' \<in> set (cap_permissions cap))
     \<and> \<not> (\<exists>cap \<in> set caps. ''user.manage'' \<in> set (cap_permissions cap))"
proof -
  let ?st = "ex_store [ex_binding ''tenant'' [''project.create'', ''user.manage'']]"
  have st: "st_role_bindings ?st ex_user = Inr [ex_binding ''tenant'' [''project.create'', ''user.manage'']]"
    by (simp add: ex_store_def)
  have "\<exists>caps. fst (list_capabilities ?st None ex_user) = Inr caps
           \<and> (\<forall>p. (\<exists>cap \<in> set caps. p \<in> set (cap_permissions cap)) \<longleftrightarrow>
                permission_valid p \<and> (\<exists>s. scope_type s = minimum_scope p \<and> holds ?st ex_user p s))"
    by (rule capabilities_exact [OF _ _ st]) (simp_all add: ex_binding_def)
  moreover have "scope_type (tenant_scope ex_tenant) = minimum_scope ''project.create''
      \<and> holds ?st ex_user ''project.create'' (tenant_scope ex_tenant) \<and> permission_valid ''project.create''"
    by (simp add: holds_def st) code_simp
  moreover have "\<not> holds ?st ex_user ''user.manage'' s" if "scope_type s = minimum_scope ''user.manage''" for s
  proof -
    have "minimum_scope ''user.manage'' = ''global''" by code_simp
    moreover have "set [ex_binding ''tenant'' [''project.create'', ''user.manage'']]
        = {ex_binding ''tenant'' [''project.create'', ''user.manage'']}" by simp
    ultimately show ?thesis
      using that unfolding holds_def st by (simp add: binding_applies_def ex_binding_def)
  qed
  ultimately show ?thesis by blast
qed

subsection \<open>Visibility and authorization agree\<close>

lemma fold_add_visible:
  assumes "\<forall>b \<in> set bs. rb_scope_type b = ''project'' \<longrightarrow> owner (rb_project b) = Some (rb_tenant b)"
    and "owner pr = Some t" and "t \<noteq> []"
    and "\<forall>k x. map_of (vis_project_only v) k = Some x \<longrightarrow> owner k = Some x"
  shows "allows_project (fold (add_visible p) bs v) t pr \<longleftrightarrow>
           allows_project v t pr
           \<or> (\<exists>b \<in> set bs. binding_grants (rb_permissions b) p \<and> binding_applies b (project_scope t pr))"
  using assms(1,4)
proof (induction bs arbitrary: v)
  case Nil
  then show ?case by simp
next
  case (Cons b bs)
  let ?v = "add_visible p b v"
  have inv: "\<forall>k x. map_of (vis_project_only ?v) k = Some x \<longrightarrow> owner k = Some x"
    using Cons.prems by (auto simp: add_visible_def update_conv' split: if_splits)
  have one: "allows_project ?v t pr \<longleftrightarrow>
      allows_project v t pr \<or> binding_grants (rb_permissions b) p \<and> binding_applies b (project_scope t pr)"
    using Cons.prems assms(2,3)
    by (auto simp: add_visible_def allows_project_def binding_applies_def project_scope_def update_conv'
        split: if_splits option.splits)
  have "allows_project (fold (add_visible p) bs ?v) t pr \<longleftrightarrow>
      allows_project ?v t pr
      \<or> (\<exists>b \<in> set bs. binding_grants (rb_permissions b) p \<and> binding_applies b (project_scope t pr))"
    using Cons.prems(1) inv by (intro Cons.IH) simp_all
  with one show ?case by auto
qed

text \<open>
  What a list shows is what a single check allows. When the store keeps a Project binding's Tenant
  equal to the Project's owner (the foreign key of \<open>role_bindings\<close>), the Projects \<open>AllowsProject\<close>
  admits from the resolved visibility are exactly those \<open>AuthorizeProject\<close> accepts.
\<close>

theorem visibility_matches_authorization:
  assumes "coherent st c" and "st_role_bindings st u = Inr bs"
    and "\<forall>b \<in> set bs. rb_scope_type b = ''project'' \<longrightarrow> st_project_tenant st (rb_project b) = Inr (rb_tenant b)"
    and "fst (resolve_visibility st c u p) = Inr v"
    and "is_uuid pr" and "st_project_tenant st pr = Inr t" and "is_uuid t"
  shows "allows_project v t pr \<longleftrightarrow> (\<exists>r. fst (authorize_project st c u p pr) = Inr r)"
proof -
  have "fst (list_role_bindings st c u) = Inr bs"
    using list_role_bindings_coherent(1) [OF assms(1), of u] assms(2) by simp
  then have v: "v = fold (add_visible p) bs no_visibility" and ok: "is_uuid u \<and> permission_valid p"
    using assms(4)
    by (cases "list_role_bindings st c u";
        auto simp: resolve_visibility_def validate_subject_permission_def split: if_splits)+
  define owner where "owner k = (case st_project_tenant st k of Inl _ \<Rightarrow> None | Inr x \<Rightarrow> Some x)" for k
  have "allows_project v t pr \<longleftrightarrow> allows_project no_visibility t pr
      \<or> (\<exists>b \<in> set bs. binding_grants (rb_permissions b) p \<and> binding_applies b (project_scope t pr))"
    unfolding v
    by (rule fold_add_visible [where owner = owner])
      (use assms in \<open>auto simp: owner_def no_visibility_def\<close>)
  moreover have "\<not> allows_project no_visibility t pr"
    using assms(7) by (auto simp: allows_project_def no_visibility_def)
  ultimately show ?thesis
    using assms ok by (auto simp: authorize_project_iff holds_def)
qed

theorem visibility_matches_authorization_witness:
  "allows_project (fold (add_visible ''cluster.read'') [ex_binding ''project'' [''cluster.read'']] no_visibility)
     ex_tenant ex_project"
proof -
  let ?b = "ex_binding ''project'' [''cluster.read'']" let ?st = "ex_store [?b]"
  have "fst (authorize_project ?st None ex_user ''cluster.read'' ex_project)
      = Inr \<lparr>resolved_tenant = ex_tenant, resolved_project = ex_project, resolved_agent_namespace = []\<rparr>"
    by code_simp
  moreover have "fst (resolve_visibility ?st None ex_user ''cluster.read'')
      = Inr (fold (add_visible ''cluster.read'') [?b] no_visibility)"
    by code_simp
  ultimately show ?thesis
    using visibility_matches_authorization [of ?st None ex_user "[?b]" "''cluster.read''" _ ex_project ex_tenant]
    by (auto simp: ex_store_def ex_binding_def)
qed

end
