(* ===== verification/AccessStore.thy ===== *)
theory AccessStore
  imports Rbac
begin

section \<open>Users, roles and role bindings as transactions\<close>

text \<open>
  \<open>pkg/server/store/access_management.go\<close> and \<open>roles.go\<close>: every write of access management is one
  database transaction that first judges who is asking and then changes rows and appends an audit row.
  A transaction is a function from the database to an error or to its result and the next database, so
  an error is a rollback. The tables and the constraints that decide an outcome are those of
  \<open>migrations/sql/000001_phase1_foundation.sql\<close>. A transaction that writes takes the advisory lock
  \<open>lockAuthorizationMutation\<close> first, so transactions are steps taken one after the other.

  Identifiers given as parameters are text cast to \<open>uuid\<close>, hence \<open>uuid_text\<close>; those read back from a
  row are canonical. Go compares identifiers as text, and the model does the same where Go does.
\<close>

subsection \<open>Tables\<close>

record user_row =
  user_id :: string
  user_name :: string
  user_display :: string
  user_password :: string
  user_status :: string
  user_failed :: int
  user_locked_at :: "time option"
  user_lock_expires :: "time option"
  user_password_changed :: time
  user_created :: time
  user_updated :: time

record role_row =
  role_id :: string
  role_name :: string
  role_display :: string
  role_description :: string
  role_builtin :: bool
  role_permissions :: "permission list"
  role_created :: time
  role_updated :: time

record binding_row =
  bd_id :: string
  bd_subject :: string
  bd_role :: string
  bd_scope :: string
  bd_tenant :: "string option"
  bd_project :: "string option"
  bd_created :: time

record session_row =
  ses_id :: string
  ses_user :: string
  ses_token :: string
  ses_csrf :: string
  ses_idle :: time
  ses_expires :: time
  ses_seen :: time
  ses_revoked :: "time option"
  ses_created :: time

record saved_query_row =
  sq_id :: string
  sq_owner :: "string option"
  sq_visibility :: string

record audit_row =
  au_actor :: string
  au_scope :: string
  au_tenant :: "string option"
  au_project :: "string option"
  au_action :: string
  au_target_type :: string
  au_target :: string
  au_result :: string
  au_request :: string
  au_at :: time

record access_db =
  db_users :: "user_row list"
  db_roles :: "role_row list"
  db_bindings :: "binding_row list"
  db_sessions :: "session_row list"
  db_queries :: "saved_query_row list"
  db_audits :: "audit_row list"
  db_tenants :: "string list"
  db_projects :: "(string \<times> string) list"
  db_clusters :: "(string \<times> resolved_scope) list"

datatype access_error =
    AccessUserNotFound | AccessUserConflict | AccessStateConflict
  | RoleBindingNotFound | RoleBindingConflict | LastGlobalAdmin | GlobalAdminRequired
  | SelfUnbind | SelfLockout "permission list"
  | RoleGrantForbidden "permission list" | RoleRevokeForbidden "permission list"
  | TargetAuthorityExceeded | RoleNotFound | RoleConflict | RoleBuiltin | RoleInUse
  | AccessFailure string

type_synonym 'a transaction = "access_error + 'a \<times> access_db"

text \<open>Who asks, under which request, at what time: the parameters every write carries.\<close>

record actor_request =
  ar_actor :: string
  ar_request :: string
  ar_now :: time

subsection \<open>Constraints of the tables\<close>

text \<open>
  The \<open>CHECK\<close> constraints that depend on more than the service's own validation: the status and lock
  shape of a user, the shape of a binding's scope, and the text and permission limits of a role.
\<close>

definition user_row_ok :: "user_row \<Rightarrow> bool" where
  "user_row_ok r \<longleftrightarrow>
     user_name r \<noteq> [] \<and> user_display r \<noteq> [] \<and> user_password r \<noteq> []
     \<and> user_status r \<in> {''active'', ''locked'', ''disabled''} \<and> 0 \<le> user_failed r
     \<and> ((user_status r = ''locked'' \<and> user_locked_at r \<noteq> None \<and> user_lock_expires r \<noteq> None)
        \<or> (user_status r \<noteq> ''locked'' \<and> user_locked_at r = None \<and> user_lock_expires r = None))"

definition binding_row_ok :: "binding_row \<Rightarrow> bool" where
  "binding_row_ok b \<longleftrightarrow>
     (bd_scope b = ''global'' \<and> bd_tenant b = None \<and> bd_project b = None)
     \<or> (bd_scope b = ''tenant'' \<and> bd_tenant b \<noteq> None \<and> bd_project b = None)
     \<or> (bd_scope b = ''project'' \<and> bd_tenant b \<noteq> None \<and> bd_project b \<noteq> None)"

definition role_name_char :: "char \<Rightarrow> bool" where
  "role_name_char c \<longleftrightarrow> is_lower c \<or> is_digit c"

text \<open>\<open>^[a-z0-9][a-z0-9-]{0,62}$\<close>, the pattern of both \<open>roleNamePattern\<close> and the table.\<close>

definition role_name_matches :: "string \<Rightarrow> bool" where
  "role_name_matches s \<longleftrightarrow>
     (case s of [] \<Rightarrow> False
      | c # cs \<Rightarrow> role_name_char c \<and> length cs \<le> 62 \<and> list_all (\<lambda>x. role_name_char x \<or> x = CHR ''-'') cs)"

definition no_outer_blank :: "string \<Rightarrow> bool" where
  "no_outer_blank s \<longleftrightarrow> s = [] \<or> hd s \<noteq> CHR '' '' \<and> last s \<noteq> CHR '' ''"

definition role_row_ok :: "role_row \<Rightarrow> bool" where
  "role_row_ok r \<longleftrightarrow>
     no_outer_blank (role_name r) \<and> role_name_matches (role_name r)
     \<and> no_outer_blank (role_display r) \<and> 1 \<le> length (role_display r) \<and> length (role_display r) \<le> 253
     \<and> length (role_description r) \<le> 1024 \<and> role_permissions r \<noteq> []"

text \<open>The foreign keys of a binding: its role, its tenant, and tenant and project together.\<close>

definition binding_references_ok :: "access_db \<Rightarrow> binding_row \<Rightarrow> bool" where
  "binding_references_ok db b \<longleftrightarrow>
     bd_role b \<in> role_name ` set (db_roles db)
     \<and> (case bd_tenant b of None \<Rightarrow> True | Some t \<Rightarrow> t \<in> set (db_tenants db))
     \<and> (case (bd_tenant b, bd_project b) of
          (Some t, Some p) \<Rightarrow> (t, p) \<in> set (db_projects db) | _ \<Rightarrow> True)"

definition same_binding :: "binding_row \<Rightarrow> binding_row \<Rightarrow> bool" where
  "same_binding a b \<longleftrightarrow>
     bd_subject a = bd_subject b \<and> bd_role a = bd_role b \<and> bd_scope a = bd_scope b
     \<and> bd_tenant a = bd_tenant b \<and> bd_project a = bd_project b"

definition nullif_uuid :: "string \<Rightarrow> string option" where
  "nullif_uuid s = (if s = [] then None else Some (uuid_text s))"

subsection \<open>Reads\<close>

definition find_user :: "access_db \<Rightarrow> string \<Rightarrow> user_row option" where
  "find_user db u = find (\<lambda>r. user_id r = uuid_text u) (db_users db)"

definition find_role_by_name :: "access_db \<Rightarrow> string \<Rightarrow> role_row option" where
  "find_role_by_name db n = find (\<lambda>r. role_name r = n) (db_roles db)"

definition active_user :: "access_db \<Rightarrow> string \<Rightarrow> bool" where
  "active_user db u \<longleftrightarrow> list_ex (\<lambda>r. user_id r = u \<and> user_status r = ''active'') (db_users db)"

text \<open>The permissions of the role a binding names, through \<open>JOIN roles ON roles.name = role\<close>.\<close>

definition joined_permissions :: "access_db \<Rightarrow> binding_row \<Rightarrow> permission list" where
  "joined_permissions db b =
     concat (map role_permissions (filter (\<lambda>r. role_name r = bd_role b) (db_roles db)))"

text \<open>\<open>actorGlobalPermissionsSQL\<close>: what an active account holds through its global bindings.\<close>

definition actor_permissions :: "access_db \<Rightarrow> string \<Rightarrow> permission list" where
  "actor_permissions db a =
     (if active_user db (uuid_text a)
      then remdups (concat (map (joined_permissions db)
             (filter (\<lambda>b. bd_subject b = uuid_text a \<and> bd_scope b = ''global'') (db_bindings db))))
      else [])"

definition target_permissions :: "access_db \<Rightarrow> string \<Rightarrow> permission list" where
  "target_permissions db u =
     remdups (concat (map (joined_permissions db)
       (filter (\<lambda>b. bd_subject b = uuid_text u) (db_bindings db))))"

definition global_admin_role_name :: string where "global_admin_role_name = ''admin''"

definition admin_binding :: "binding_row \<Rightarrow> bool" where
  "admin_binding b \<longleftrightarrow> bd_scope b = ''global'' \<and> bd_role b = global_admin_role_name"

definition holds_admin :: "access_db \<Rightarrow> string \<Rightarrow> bool" where
  "holds_admin db u \<longleftrightarrow> list_ex (\<lambda>b. bd_subject b = u \<and> admin_binding b) (db_bindings db)"

text \<open>\<open>globalAdministratorsSQL\<close>.\<close>

definition global_administrators :: "access_db \<Rightarrow> string list" where
  "global_administrators db =
     remdups (map user_id (filter (\<lambda>r. user_status r = ''active'' \<and> holds_admin db (user_id r)) (db_users db)))"

record admin_facts =
  target_is_admin :: bool
  target_is_active_admin :: bool
  actor_is_admin :: bool
  administrators :: nat

definition read_global_administrators :: "access_db \<Rightarrow> string \<Rightarrow> string \<Rightarrow> admin_facts" where
  "read_global_administrators db actor user =
     \<lparr>target_is_admin = holds_admin db (uuid_text user),
      target_is_active_admin = uuid_text user \<in> set (global_administrators db),
      actor_is_admin = uuid_text actor \<in> set (global_administrators db),
      administrators = length (global_administrators db)\<rparr>"

subsection \<open>Guards\<close>

definition ensure_not_last_global_admin :: "access_db \<Rightarrow> string \<Rightarrow> string \<Rightarrow> access_error + unit" where
  "ensure_not_last_global_admin db actor user =
     (let f = read_global_administrators db actor user in
      if \<not> target_is_admin f then Inr ()
      else if \<not> actor_is_admin f then Inl GlobalAdminRequired
      else if target_is_active_admin f \<and> administrators f \<le> 1 then Inl LastGlobalAdmin
      else Inr ())"

definition ensure_global_admin_target_allowed ::
    "access_db \<Rightarrow> string \<Rightarrow> string \<Rightarrow> access_error + unit" where
  "ensure_global_admin_target_allowed db actor user =
     (let f = read_global_administrators db actor user in
      if \<not> target_is_admin f \<or> actor_is_admin f then Inr () else Inl GlobalAdminRequired)"

definition ensure_global_admin_grant_allowed ::
    "access_db \<Rightarrow> string \<Rightarrow> string \<Rightarrow> string \<Rightarrow> access_error + unit" where
  "ensure_global_admin_grant_allowed db actor role scope_ty =
     (if role \<noteq> global_admin_role_name \<or> scope_ty \<noteq> ''global'' then Inr ()
      else if uuid_text actor \<notin> set (global_administrators db) then Inl GlobalAdminRequired
      else Inr ())"

definition ensure_target_authority_within_actor ::
    "access_db \<Rightarrow> string \<Rightarrow> string \<Rightarrow> access_error + unit" where
  "ensure_target_authority_within_actor db actor target =
     (if actor = target then Inr ()
      else if list_ex (\<lambda>p. p \<notin> set (actor_permissions db actor)) (target_permissions db target)
      then Inl TargetAuthorityExceeded
      else Inr ())"

definition beyond :: "permission list \<Rightarrow> permission list \<Rightarrow> permission list" where
  "beyond granted held = sort (filter (\<lambda>p. p \<notin> set held) granted)"

definition outside :: "permission list \<Rightarrow> permission list \<Rightarrow> permission list \<Rightarrow> permission list" where
  "outside held permissions other = sort (filter (\<lambda>p. p \<notin> set other \<and> p \<notin> set held) permissions)"

definition ensure_actor_may_change ::
    "permission list \<Rightarrow> permission list \<Rightarrow> permission list \<Rightarrow> access_error + unit" where
  "ensure_actor_may_change current submitted held =
     (if outside held submitted current \<noteq> [] then Inl (RoleGrantForbidden (outside held submitted current))
      else if outside held current submitted \<noteq> [] then Inl (RoleRevokeForbidden (outside held current submitted))
      else Inr ())"

definition ensure_actor_may_grant :: "permission list \<Rightarrow> permission list \<Rightarrow> access_error + unit" where
  "ensure_actor_may_grant granted held =
     (if beyond granted held = [] then Inr () else Inl (RoleGrantForbidden (beyond granted held)))"

definition ensure_actor_may_revoke_role :: "access_db \<Rightarrow> string \<Rightarrow> string \<Rightarrow> access_error + unit" where
  "ensure_actor_may_revoke_role db actor role =
     (case find_role_by_name db role of
        None \<Rightarrow> Inl (AccessFailure ''read revoked role permissions'')
      | Some r \<Rightarrow>
          (let b = beyond (role_permissions r) (actor_permissions db actor) in
           if b = [] then Inr () else Inl (RoleRevokeForbidden b)))"

definition ensure_actor_loses_no_permission ::
    "access_db \<Rightarrow> string \<Rightarrow> permission list \<Rightarrow> access_error + unit" where
  "ensure_actor_loses_no_permission db actor before =
     (let lost = beyond before (actor_permissions db actor) in
      if lost = [] then Inr () else Inl (SelfLockout lost))"

subsection \<open>Audit rows and sessions\<close>

definition global_audit :: "actor_request \<Rightarrow> string \<Rightarrow> string \<Rightarrow> string \<Rightarrow> audit_row" where
  "global_audit q action target_type target =
     \<lparr>au_actor = uuid_text (ar_actor q), au_scope = ''global'', au_tenant = None, au_project = None,
      au_action = action, au_target_type = target_type, au_target = target,
      au_result = ''succeeded'', au_request = ar_request q, au_at = ar_now q\<rparr>"

definition insert_audit :: "audit_row \<Rightarrow> access_db \<Rightarrow> access_db" where
  "insert_audit a db = db\<lparr>db_audits := db_audits db @ [a]\<rparr>"

definition role_binding_audit ::
    "actor_request \<Rightarrow> string \<Rightarrow> binding_row \<Rightarrow> access_error + audit_row" where
  "role_binding_audit q action b =
     (if \<not> contains '' global tenant project '' ('' '' @ bd_scope b @ '' '')
      then Inl (AccessFailure ''role binding audit scope is invalid'')
      else Inr \<lparr>au_actor = uuid_text (ar_actor q), au_scope = bd_scope b, au_tenant = bd_tenant b,
                au_project = bd_project b, au_action = action, au_target_type = ''role_binding'',
                au_target = bd_id b, au_result = ''succeeded'', au_request = ar_request q,
                au_at = ar_now q\<rparr>)"

definition revoke_user_sessions :: "string \<Rightarrow> time \<Rightarrow> access_db \<Rightarrow> access_db" where
  "revoke_user_sessions u now db =
     db\<lparr>db_sessions := update_where (\<lambda>s. ses_user s = uuid_text u)
          (\<lambda>s. s\<lparr>ses_revoked := Some (case ses_revoked s of None \<Rightarrow> now | Some t \<Rightarrow> t)\<rparr>)
          (db_sessions db)\<rparr>"

subsection \<open>Users\<close>

definition create_user ::
    "actor_request \<Rightarrow> string \<Rightarrow> string \<Rightarrow> string \<Rightarrow> string \<Rightarrow> access_db \<Rightarrow> user_row transaction" where
  "create_user q new_id name display password_hash db =
     (let row = \<lparr>user_id = uuid_text new_id, user_name = name, user_display = display,
                 user_password = password_hash, user_status = ''active'', user_failed = 0,
                 user_locked_at = None, user_lock_expires = None, user_password_changed = ar_now q,
                 user_created = ar_now q, user_updated = ar_now q\<rparr> in
      if \<not> active_user db (uuid_text (ar_actor q)) then Inl AccessStateConflict
      else if \<not> user_row_ok row then Inl (AccessFailure ''insert managed user'')
      else if list_ex (\<lambda>r. user_id r = user_id row \<or> user_name r = name) (db_users db)
      then Inl AccessUserConflict
      else Inr (row, insert_audit (global_audit q ''user.create'' ''user'' (user_id row))
                       (db\<lparr>db_users := db_users db @ [row]\<rparr>)))"

text \<open>
  The update of one user row. Writing a row that violates the table's constraints is the generic
  error the caller reports.
\<close>

definition write_user ::
    "string \<Rightarrow> string \<Rightarrow> (user_row \<Rightarrow> user_row) \<Rightarrow> access_db \<Rightarrow> user_row transaction" where
  "write_user what u f db =
     (case find_user db u of
        None \<Rightarrow> Inl (AccessFailure what)
      | Some r \<Rightarrow>
          (if \<not> user_row_ok (f r) then Inl (AccessFailure what)
           else Inr (f r, db\<lparr>db_users := update_where (\<lambda>x. user_id x = uuid_text u) f (db_users db)\<rparr>)))"

definition update_user :: "actor_request \<Rightarrow> string \<Rightarrow> string \<Rightarrow> access_db \<Rightarrow> user_row transaction" where
  "update_user q u display db =
     and_then (ensure_global_admin_target_allowed db (ar_actor q) u) (\<lambda>_.
     if find_user db u = None \<or> \<not> active_user db (uuid_text (ar_actor q)) then Inl AccessUserNotFound
     else and_then (write_user ''update managed user'' u
                      (\<lambda>r. r\<lparr>user_display := display, user_updated := max (user_updated r) (ar_now q)\<rparr>) db)
       (\<lambda>(item, db'). Inr (item, insert_audit (global_audit q ''user.update'' ''user'' (uuid_text u)) db')))"

definition delete_user :: "actor_request \<Rightarrow> string \<Rightarrow> access_db \<Rightarrow> user_row transaction" where
  "delete_user q u db =
     (case find_user db u of
        None \<Rightarrow> Inl AccessUserNotFound
      | Some item \<Rightarrow>
          if \<not> active_user db (uuid_text (ar_actor q)) then Inl AccessUserNotFound
          else and_then (ensure_not_last_global_admin db (ar_actor q) u) (\<lambda>_.
               and_then (ensure_target_authority_within_actor db (ar_actor q) u) (\<lambda>_.
               let uid = uuid_text u;
                   audited = insert_audit (global_audit q ''user.delete'' ''user'' uid) db;
                   kept = filter (\<lambda>s. \<not> (sq_owner s = Some uid \<and> sq_visibility s = ''private'')) (db_queries audited)
               in Inr (item, audited\<lparr>
                    db_sessions := filter (\<lambda>s. ses_user s \<noteq> uid) (db_sessions audited),
                    db_bindings := filter (\<lambda>b. bd_subject b \<noteq> uid) (db_bindings audited),
                    db_queries := update_where (\<lambda>s. sq_owner s = Some uid) (\<lambda>s. s\<lparr>sq_owner := None\<rparr>) kept,
                    db_users := filter (\<lambda>r. user_id r \<noteq> uid) (db_users audited)\<rparr>))))"

definition set_user_status :: "actor_request \<Rightarrow> string \<Rightarrow> string \<Rightarrow> access_db \<Rightarrow> user_row transaction" where
  "set_user_status q u status db =
     (case find_user db u of
        None \<Rightarrow> Inl AccessUserNotFound
      | Some r \<Rightarrow>
          if user_status r = ''locked'' \<and> status = ''active'' then Inl AccessStateConflict
          else
            and_then (if user_status r = ''active'' \<and> status = ''disabled''
                      then ensure_not_last_global_admin db (ar_actor q) u else Inr ()) (\<lambda>_.
            and_then (if user_status r \<noteq> status
                      then ensure_target_authority_within_actor db (ar_actor q) u else Inr ()) (\<lambda>_.
            and_then (write_user ''update managed user status'' u
              (\<lambda>x. x\<lparr>user_status := status,
                     user_failed := (if status = ''active'' then 0 else user_failed x),
                     user_locked_at := None, user_lock_expires := None,
                     user_updated := max (user_updated x) (ar_now q)\<rparr>) db) (\<lambda>(item, db').
            let db'' = (if status = ''disabled'' then revoke_user_sessions u (ar_now q) db' else db')
            in Inr (item, insert_audit (global_audit q ''user.status.update'' ''user'' (uuid_text u)) db'')))))"

definition unlock_user :: "actor_request \<Rightarrow> string \<Rightarrow> access_db \<Rightarrow> user_row transaction" where
  "unlock_user q u db =
     (case find_user db u of
        None \<Rightarrow> Inl AccessUserNotFound
      | Some r \<Rightarrow>
          and_then (ensure_global_admin_target_allowed db (ar_actor q) u) (\<lambda>_.
          and_then (ensure_target_authority_within_actor db (ar_actor q) u) (\<lambda>_.
          if user_status r \<noteq> ''locked'' then Inl AccessStateConflict
          else and_then (write_user ''unlock managed user'' u
                 (\<lambda>x. x\<lparr>user_status := ''active'', user_failed := 0, user_locked_at := None,
                        user_lock_expires := None, user_updated := max (user_updated x) (ar_now q)\<rparr>) db)
               (\<lambda>(item, db'). Inr (item, insert_audit (global_audit q ''user.unlock'' ''user'' (uuid_text u)) db')))))"

definition reset_user_password ::
    "actor_request \<Rightarrow> string \<Rightarrow> string \<Rightarrow> access_db \<Rightarrow> user_row transaction" where
  "reset_user_password q u password_hash db =
     (case find_user db u of
        None \<Rightarrow> Inl AccessUserNotFound
      | Some r \<Rightarrow>
          and_then (ensure_global_admin_target_allowed db (ar_actor q) u) (\<lambda>_.
          and_then (ensure_target_authority_within_actor db (ar_actor q) u) (\<lambda>_.
          if user_status r = ''disabled'' then Inl AccessStateConflict
          else and_then (write_user ''reset managed user password'' u
                 (\<lambda>x. x\<lparr>user_password := password_hash, user_password_changed := ar_now q,
                        user_status := ''active'', user_failed := 0, user_locked_at := None,
                        user_lock_expires := None, user_updated := max (user_updated x) (ar_now q)\<rparr>) db)
               (\<lambda>(item, db'). Inr (item,
                  insert_audit (global_audit q ''user.password.reset'' ''user'' (uuid_text u))
                    (revoke_user_sessions u (ar_now q) db'))))))"

subsection \<open>Roles\<close>

definition binding_count :: "access_db \<Rightarrow> string \<Rightarrow> nat" where
  "binding_count db n = length (filter (\<lambda>b. bd_role b = n) (db_bindings db))"

definition find_role :: "access_db \<Rightarrow> string \<Rightarrow> role_row option" where
  "find_role db i = find (\<lambda>r. role_id r = uuid_text i) (db_roles db)"

definition create_role ::
    "actor_request \<Rightarrow> string \<Rightarrow> string \<Rightarrow> string \<Rightarrow> string \<Rightarrow> permission list \<Rightarrow> access_db \<Rightarrow> role_row transaction" where
  "create_role q new_id name display description permissions db =
     and_then (ensure_actor_may_grant permissions (actor_permissions db (ar_actor q))) (\<lambda>_.
     let row = \<lparr>role_id = uuid_text new_id, role_name = name, role_display = display,
                role_description = description, role_builtin = False, role_permissions = permissions,
                role_created = ar_now q, role_updated = ar_now q\<rparr> in
     if \<not> role_row_ok row then Inl AccessStateConflict
     else if list_ex (\<lambda>r. role_id r = role_id row \<or> role_name r = name) (db_roles db) then Inl RoleConflict
     else Inr (row, insert_audit (global_audit q ''role.create'' ''role'' (role_id row))
                      (db\<lparr>db_roles := db_roles db @ [row]\<rparr>)))"

definition missing_or_builtin_role :: "access_db \<Rightarrow> string \<Rightarrow> access_error" where
  "missing_or_builtin_role db i =
     (case find_role db i of None \<Rightarrow> RoleNotFound | Some r \<Rightarrow> if role_builtin r then RoleBuiltin else RoleNotFound)"

definition update_role ::
    "actor_request \<Rightarrow> string \<Rightarrow> string \<Rightarrow> string \<Rightarrow> permission list \<Rightarrow> access_db \<Rightarrow> role_row transaction" where
  "update_role q i display description permissions db =
     (let held = actor_permissions db (ar_actor q);
          hit = (\<lambda>r. role_id r = uuid_text i \<and> \<not> role_builtin r);
          f = (\<lambda>r. r\<lparr>role_display := display, role_description := description,
                     role_permissions := permissions, role_updated := ar_now q\<rparr>) in
      case find hit (db_roles db) of
        None \<Rightarrow> Inl (missing_or_builtin_role db i)
      | Some r \<Rightarrow>
          and_then (ensure_actor_may_change (role_permissions r) permissions held) (\<lambda>_.
          if \<not> role_row_ok (f r) then Inl (AccessFailure ''update role'')
          else let db' = db\<lparr>db_roles := update_where hit f (db_roles db)\<rparr> in
               and_then (ensure_actor_loses_no_permission db' (ar_actor q) held) (\<lambda>_.
               Inr (f r, insert_audit (global_audit q ''role.update'' ''role'' (role_id r)) db'))))"

definition delete_role :: "actor_request \<Rightarrow> string \<Rightarrow> access_db \<Rightarrow> role_row transaction" where
  "delete_role q i db =
     (case find_role db i of
        None \<Rightarrow> Inl RoleNotFound
      | Some r \<Rightarrow>
          if role_builtin r then Inl RoleBuiltin
          else if 0 < binding_count db (role_name r) then Inl RoleInUse
          else Inr (r, (insert_audit (global_audit q ''role.delete'' ''role'' (role_id r)) db)
                         \<lparr>db_roles := filter (\<lambda>x. \<not> (role_id x = uuid_text i \<and> \<not> role_builtin x)) (db_roles db)\<rparr>))"

text \<open>\<open>EnsureBuiltinRoles\<close>: the reconciliation of one definition, and of all at startup.\<close>

record builtin_definition =
  bi_id :: string
  bi_name :: string
  bi_display :: string
  bi_description :: string
  bi_permissions :: "permission list"

definition reconcile_builtin :: "time \<Rightarrow> builtin_definition \<Rightarrow> role_row list \<Rightarrow> role_row list" where
  "reconcile_builtin now d rows =
     (if list_ex (\<lambda>r. role_name r = bi_name d) rows
      then update_where (\<lambda>r. role_name r = bi_name d)
             (\<lambda>r. r\<lparr>role_display := bi_display d, role_description := bi_description d,
                    role_builtin := True, role_permissions := bi_permissions d,
                    role_updated := (if role_display r \<noteq> bi_display d \<or> role_description r \<noteq> bi_description d
                                        \<or> role_permissions r \<noteq> bi_permissions d \<or> \<not> role_builtin r
                                     then now else role_updated r)\<rparr>) rows
      else rows @ [\<lparr>role_id = uuid_text (bi_id d), role_name = bi_name d, role_display = bi_display d,
                    role_description = bi_description d, role_builtin = True,
                    role_permissions = bi_permissions d, role_created = now, role_updated = now\<rparr>])"

text \<open>
  A new row whose identifier is taken, or a row that violates the table's constraints, fails the
  statement.
\<close>

definition reconcile_fails :: "builtin_definition \<Rightarrow> role_row list \<Rightarrow> bool" where
  "reconcile_fails d rows \<longleftrightarrow>
     \<not> role_row_ok \<lparr>role_id = bi_id d, role_name = bi_name d, role_display = bi_display d,
         role_description = bi_description d, role_builtin = True,
         role_permissions = bi_permissions d, role_created = 0, role_updated = 0\<rparr>
     \<or> \<not> list_ex (\<lambda>r. role_name r = bi_name d) rows \<and> list_ex (\<lambda>r. role_id r = uuid_text (bi_id d)) rows"

fun reconcile_all ::
    "time \<Rightarrow> builtin_definition list \<Rightarrow> role_row list \<Rightarrow> access_error + role_row list" where
  "reconcile_all now [] rows = Inr rows"
| "reconcile_all now (d # ds) rows =
     (if bi_permissions d = [] then Inl (AccessFailure ''builtin role has no permissions'')
      else if reconcile_fails d rows then Inl (AccessFailure ''reconcile builtin role'')
      else reconcile_all now ds (reconcile_builtin now d rows))"

definition ensure_builtin_roles ::
    "builtin_definition list \<Rightarrow> time \<Rightarrow> access_db \<Rightarrow> unit transaction" where
  "ensure_builtin_roles ds now db =
     (if ds = [] then Inl (AccessFailure ''builtin role definitions are required'')
      else and_then (reconcile_all now ds (db_roles db)) (\<lambda>rows. Inr ((), db\<lparr>db_roles := rows\<rparr>)))"

subsection \<open>Role bindings\<close>

definition find_binding :: "access_db \<Rightarrow> string \<Rightarrow> binding_row option" where
  "find_binding db i = find (\<lambda>b. bd_id b = uuid_text i) (db_bindings db)"

text \<open>
  \<open>INSERT ... ON CONFLICT DO NOTHING\<close>: the replayed binding is answered with \<open>True\<close> and no change.
\<close>

definition create_role_binding ::
    "actor_request \<Rightarrow> string \<Rightarrow> string \<Rightarrow> string \<Rightarrow> string \<Rightarrow> string \<Rightarrow> string \<Rightarrow> access_db
       \<Rightarrow> (binding_row \<times> bool) transaction" where
  "create_role_binding q new_id subject role scope_ty tenant project db =
     and_then (ensure_global_admin_grant_allowed db (ar_actor q) role scope_ty) (\<lambda>_.
     case find_role_by_name db role of
       None \<Rightarrow> Inl RoleNotFound
     | Some r \<Rightarrow>
         and_then (ensure_actor_may_grant (role_permissions r) (actor_permissions db (ar_actor q))) (\<lambda>_.
         let row = \<lparr>bd_id = uuid_text new_id, bd_subject = uuid_text subject, bd_role = role,
                    bd_scope = scope_ty, bd_tenant = nullif_uuid tenant,
                    bd_project = nullif_uuid project, bd_created = ar_now q\<rparr> in
         case find_user db subject of
           None \<Rightarrow> Inl AccessUserNotFound
         | Some _ \<Rightarrow>
             if \<not> binding_row_ok row then Inl AccessStateConflict
             else (case find (same_binding row) (db_bindings db) of
                 Some old \<Rightarrow> Inr ((old, True), db)
               | None \<Rightarrow>
                   if list_ex (\<lambda>b. bd_id b = bd_id row) (db_bindings db)
                   then Inl (AccessFailure ''insert role binding'')
                   else if \<not> binding_references_ok db row then Inl AccessStateConflict
                   else and_then (role_binding_audit q ''role_binding.create'' row) (\<lambda>a.
                        Inr ((row, False), insert_audit a (db\<lparr>db_bindings := db_bindings db @ [row]\<rparr>))))))"

definition delete_role_binding :: "actor_request \<Rightarrow> string \<Rightarrow> access_db \<Rightarrow> binding_row transaction" where
  "delete_role_binding q i db =
     (case find_binding db i of
        None \<Rightarrow> Inl RoleBindingNotFound
      | Some item \<Rightarrow>
          and_then (if bd_role item = ''admin'' \<and> bd_scope item = ''global''
                    then ensure_not_last_global_admin db (ar_actor q) (bd_subject item) else Inr ()) (\<lambda>_.
          if bd_subject item = ar_actor q then Inl SelfUnbind
          else and_then (ensure_actor_may_revoke_role db (ar_actor q) (bd_role item)) (\<lambda>_.
               let db' = db\<lparr>db_bindings := filter (\<lambda>b. bd_id b \<noteq> uuid_text i) (db_bindings db)\<rparr> in
               and_then (role_binding_audit q ''role_binding.delete'' item) (\<lambda>a.
               Inr (item, insert_audit a db')))))"

subsection \<open>What authorization reads from the database\<close>

text \<open>
  \<open>store/rbac.go\<close>. The order of the listed bindings decides no outcome and is that of the table.
\<close>

definition opt_text :: "string option \<Rightarrow> string" where
  "opt_text x = (case x of None \<Rightarrow> [] | Some s \<Rightarrow> s)"

definition role_bindings_of :: "access_db \<Rightarrow> string \<Rightarrow> string + role_binding list" where
  "role_bindings_of db u =
     (if trim_space u = [] then Inl ''RBAC user ID is required''
      else Inr (if active_user db (uuid_text u)
                then concat (map (\<lambda>b. map (\<lambda>r. \<lparr>rb_role = bd_role b, rb_scope_type = bd_scope b,
                                              rb_tenant = opt_text (bd_tenant b),
                                              rb_project = opt_text (bd_project b),
                                              rb_permissions = role_permissions r\<rparr>)
                                       (filter (\<lambda>r. role_name r = bd_role b) (db_roles db)))
                       (filter (\<lambda>b. bd_subject b = uuid_text u) (db_bindings db)))
                else []))"

definition db_store :: "access_db \<Rightarrow> rbac_store" where
  "db_store db =
     \<lparr>st_role_bindings = role_bindings_of db,
      st_project_tenant = (\<lambda>p. case find (\<lambda>e. snd e = uuid_text p) (db_projects db) of
                                 None \<Rightarrow> Inl LookupNotFound | Some e \<Rightarrow> Inr (fst e)),
      st_cluster_scope = (\<lambda>c. case map_of (db_clusters db) (uuid_text c) of
                                None \<Rightarrow> Inl LookupNotFound | Some r \<Rightarrow> Inr r)\<rparr>"

section \<open>The writes as steps\<close>

datatype access_op =
    OpCreateUser string string string string
  | OpUpdateUser string string
  | OpDeleteUser string
  | OpSetStatus string string
  | OpUnlock string
  | OpResetPassword string string
  | OpCreateRole string string string string "permission list"
  | OpUpdateRole string string string "permission list"
  | OpDeleteRole string
  | OpCreateBinding string string string string string string
  | OpDeleteBinding string

definition committed :: "'a transaction \<Rightarrow> access_db option" where
  "committed t = (case t of Inl _ \<Rightarrow> None | Inr (_, db) \<Rightarrow> Some db)"

fun run_op :: "actor_request \<Rightarrow> access_op \<Rightarrow> access_db \<Rightarrow> access_db option" where
  "run_op q (OpCreateUser i n d h) db = committed (create_user q i n d h db)"
| "run_op q (OpUpdateUser u d) db = committed (update_user q u d db)"
| "run_op q (OpDeleteUser u) db = committed (delete_user q u db)"
| "run_op q (OpSetStatus u s) db = committed (set_user_status q u s db)"
| "run_op q (OpUnlock u) db = committed (unlock_user q u db)"
| "run_op q (OpResetPassword u h) db = committed (reset_user_password q u h db)"
| "run_op q (OpCreateRole i n d t ps) db = committed (create_role q i n d t ps db)"
| "run_op q (OpUpdateRole i d t ps) db = committed (update_role q i d t ps db)"
| "run_op q (OpDeleteRole i) db = committed (delete_role q i db)"
| "run_op q (OpCreateBinding i s r ty t p) db = committed (create_role_binding q i s r ty t p db)"
| "run_op q (OpDeleteBinding i) db = committed (delete_role_binding q i db)"

lemma committed_iff: "committed t = Some db' \<longleftrightarrow> (\<exists>x. t = Inr (x, db'))"
  by (auto simp: committed_def split: sum.splits)

text \<open>
  What a write did, seen through the three tables that carry authority. Each constructor is one way a
  transaction changes them, with the guard the code took before it.
\<close>

definition admin_guard :: "access_db \<Rightarrow> string \<Rightarrow> string \<Rightarrow> bool" where
  "admin_guard db a u \<longleftrightarrow> (holds_admin db u \<longrightarrow> a \<in> set (global_administrators db)
     \<and> (u \<in> set (global_administrators db) \<longrightarrow> 2 \<le> length (global_administrators db)))"

definition authority_guard :: "access_db \<Rightarrow> actor_request \<Rightarrow> string \<Rightarrow> bool" where
  "authority_guard db q u \<longleftrightarrow>
     ar_actor q = u \<or> set (target_permissions db u) \<subseteq> set (actor_permissions db (ar_actor q))"

inductive access_effect :: "actor_request \<Rightarrow> access_db \<Rightarrow> access_db \<Rightarrow> bool" where
  same_authority:
    "db_roles db' = db_roles db \<Longrightarrow> db_bindings db' = db_bindings db
     \<Longrightarrow> map user_id (db_users db') = map user_id (db_users db)
     \<Longrightarrow> map user_status (db_users db') = map user_status (db_users db) \<Longrightarrow> access_effect q db db'"
| new_user:
    "db_roles db' = db_roles db \<Longrightarrow> db_bindings db' = db_bindings db
     \<Longrightarrow> db_users db' = db_users db @ [row] \<Longrightarrow> user_id row \<notin> user_id ` set (db_users db)
     \<Longrightarrow> uuid_text (user_id row) = user_id row \<Longrightarrow> access_effect q db db'"
| user_gone:
    "db_roles db' = db_roles db \<Longrightarrow> db_bindings db' = filter (\<lambda>b. bd_subject b \<noteq> uuid_text u) (db_bindings db)
     \<Longrightarrow> db_users db' = filter (\<lambda>r. user_id r \<noteq> uuid_text u) (db_users db)
     \<Longrightarrow> admin_guard db (uuid_text (ar_actor q)) (uuid_text u) \<Longrightarrow> authority_guard db q u
     \<Longrightarrow> access_effect q db db'"
| user_state:
    "db_roles db' = db_roles db \<Longrightarrow> db_bindings db' = db_bindings db
     \<Longrightarrow> find_user db u = Some r
     \<Longrightarrow> db_users db' = update_where (\<lambda>x. user_id x = uuid_text u) f (db_users db)
     \<Longrightarrow> (\<And>x. user_id (f x) = user_id x) \<Longrightarrow> (\<And>x. user_status (f x) = status)
     \<Longrightarrow> (user_status r = ''active'' \<Longrightarrow> status \<noteq> ''active'' \<Longrightarrow> admin_guard db (uuid_text (ar_actor q)) (uuid_text u))
     \<Longrightarrow> (user_status r \<noteq> status \<Longrightarrow> authority_guard db q u)
     \<Longrightarrow> access_effect q db db'"
| new_role:
    "db_bindings db' = db_bindings db \<Longrightarrow> db_users db' = db_users db
     \<Longrightarrow> db_roles db' = db_roles db @ [row] \<Longrightarrow> role_name row \<notin> role_name ` set (db_roles db)
     \<Longrightarrow> role_id row \<notin> role_id ` set (db_roles db) \<Longrightarrow> \<not> role_builtin row \<Longrightarrow> access_effect q db db'"
| role_edit:
    "db_bindings db' = db_bindings db \<Longrightarrow> db_users db' = db_users db
     \<Longrightarrow> find (\<lambda>r. role_id r = i \<and> \<not> role_builtin r) (db_roles db) = Some r
     \<Longrightarrow> db_roles db' = update_where (\<lambda>r. role_id r = i \<and> \<not> role_builtin r) f (db_roles db)
     \<Longrightarrow> (\<And>x. role_id (f x) = role_id x) \<Longrightarrow> (\<And>x. role_name (f x) = role_name x)
     \<Longrightarrow> (\<And>x. role_builtin (f x) = role_builtin x) \<Longrightarrow> (\<And>x. role_permissions (f x) = permissions)
     \<Longrightarrow> set permissions - set (role_permissions r) \<subseteq> set (actor_permissions db (ar_actor q))
     \<Longrightarrow> set (role_permissions r) - set permissions \<subseteq> set (actor_permissions db (ar_actor q))
     \<Longrightarrow> set (actor_permissions db (ar_actor q)) \<subseteq> set (actor_permissions db' (ar_actor q))
     \<Longrightarrow> access_effect q db db'"
| role_gone:
    "db_bindings db' = db_bindings db \<Longrightarrow> db_users db' = db_users db
     \<Longrightarrow> find_role db i = Some r \<Longrightarrow> \<not> role_builtin r \<Longrightarrow> \<forall>b \<in> set (db_bindings db). bd_role b \<noteq> role_name r
     \<Longrightarrow> db_roles db' = filter (\<lambda>x. \<not> (role_id x = uuid_text i \<and> \<not> role_builtin x)) (db_roles db)
     \<Longrightarrow> access_effect q db db'"
| new_binding:
    "db_roles db' = db_roles db \<Longrightarrow> db_users db' = db_users db \<Longrightarrow> db_bindings db' = db_bindings db @ [b]
     \<Longrightarrow> bd_id b \<notin> bd_id ` set (db_bindings db)
     \<Longrightarrow> find_role_by_name db (bd_role b) = Some r \<Longrightarrow> find_user db (bd_subject b) = Some s
     \<Longrightarrow> uuid_text (bd_subject b) = bd_subject b
     \<Longrightarrow> set (role_permissions r) \<subseteq> set (actor_permissions db (ar_actor q))
     \<Longrightarrow> (admin_binding b \<Longrightarrow> uuid_text (ar_actor q) \<in> set (global_administrators db))
     \<Longrightarrow> access_effect q db db'"
| binding_gone:
    "db_roles db' = db_roles db \<Longrightarrow> db_users db' = db_users db
     \<Longrightarrow> find_binding db i = Some b
     \<Longrightarrow> db_bindings db' = filter (\<lambda>x. bd_id x \<noteq> uuid_text i) (db_bindings db)
     \<Longrightarrow> find_role_by_name db (bd_role b) = Some r
     \<Longrightarrow> set (role_permissions r) \<subseteq> set (actor_permissions db (ar_actor q))
     \<Longrightarrow> (admin_binding b \<Longrightarrow> admin_guard db (uuid_text (ar_actor q)) (uuid_text (bd_subject b)))
     \<Longrightarrow> bd_subject b \<noteq> ar_actor q
     \<Longrightarrow> access_effect q db db'"

subsection \<open>Every committed write is one of these effects\<close>

lemmas guard_defs = ensure_not_last_global_admin_def ensure_target_authority_within_actor_def
  read_global_administrators_def Let_def

lemma not_last_admin_guard:
  "ensure_not_last_global_admin db a u = Inr x \<Longrightarrow> admin_guard db (uuid_text a) (uuid_text u)"
  by (auto simp: guard_defs admin_guard_def split: if_splits)

lemma target_authority_guard:
  "ensure_target_authority_within_actor db (ar_actor q) u = Inr x \<Longrightarrow> authority_guard db q u"
  by (auto simp: guard_defs authority_guard_def list_ex_iff split: if_splits)

lemma sort_filter_empty: "sort (filter P xs) = [] \<longleftrightarrow> (\<forall>x \<in> set xs. \<not> P x)"
  by (metis filter_empty_conv set_empty set_sort)

lemma may_grant_guard:
  "ensure_actor_may_grant ps held = Inr x \<Longrightarrow> set ps \<subseteq> set held"
  by (auto simp: ensure_actor_may_grant_def beyond_def sort_filter_empty split: if_splits)

lemma may_change_guard:
  assumes "ensure_actor_may_change cur new held = Inr x"
  shows "set new - set cur \<subseteq> set held" and "set cur - set new \<subseteq> set held"
  using assms by (auto simp: ensure_actor_may_change_def outside_def sort_filter_empty split: if_splits)

lemma may_revoke_guard:
  assumes "ensure_actor_may_revoke_role db a n = Inr x"
  shows "\<exists>r. find_role_by_name db n = Some r \<and> set (role_permissions r) \<subseteq> set (actor_permissions db a)"
  using assms
  by (auto simp: ensure_actor_may_revoke_role_def beyond_def sort_filter_empty Let_def
      split: option.splits if_splits)

lemma loses_nothing_guard:
  "ensure_actor_loses_no_permission db a before = Inr x \<Longrightarrow> set before \<subseteq> set (actor_permissions db a)"
  by (auto simp: ensure_actor_loses_no_permission_def beyond_def sort_filter_empty Let_def split: if_splits)

lemmas guard_facts = not_last_admin_guard target_authority_guard may_grant_guard may_change_guard
  may_revoke_guard loses_nothing_guard

text \<open>Audit rows and sessions are outside the tables that carry authority.\<close>

lemma insert_audit_tables [simp]:
  "db_users (insert_audit a db) = db_users db" "db_roles (insert_audit a db) = db_roles db"
  "db_bindings (insert_audit a db) = db_bindings db" "db_projects (insert_audit a db) = db_projects db"
  "db_tenants (insert_audit a db) = db_tenants db" "db_clusters (insert_audit a db) = db_clusters db"
  "db_sessions (insert_audit a db) = db_sessions db"
  "db_audits (insert_audit a db) = db_audits db @ [a]"
  by (simp_all add: insert_audit_def)

lemma revoke_sessions_tables [simp]:
  "db_users (revoke_user_sessions u t db) = db_users db" "db_roles (revoke_user_sessions u t db) = db_roles db"
  "db_bindings (revoke_user_sessions u t db) = db_bindings db"
  "db_audits (revoke_user_sessions u t db) = db_audits db"
  by (simp_all add: revoke_user_sessions_def)

text \<open>Authority is read from the three tables only, so equal tables read the same.\<close>

lemma reads_cong:
  assumes "db_roles d = db_roles d'" and "db_bindings d = db_bindings d'" and "db_users d = db_users d'"
  shows "actor_permissions d = actor_permissions d'"
  using assms by (intro ext) (simp add: actor_permissions_def active_user_def joined_permissions_def [abs_def])

lemma write_user_Inr:
  assumes "write_user w u f db = Inr (x, db')"
  shows "\<exists>r. find_user db u = Some r \<and> x = f r \<and> user_row_ok (f r)
           \<and> db' = db\<lparr>db_users := update_where (\<lambda>x. user_id x = uuid_text u) f (db_users db)\<rparr>"
  using assms by (auto simp: write_user_def split: option.splits if_splits)

lemma create_user_effect:
  assumes "create_user q i n d h db = Inr (x, db')"
  shows "access_effect q db db'"
proof -
  define row where "row = \<lparr>user_id = uuid_text i, user_name = n, user_display = d, user_password = h,
    user_status = ''active'', user_failed = 0, user_locked_at = None, user_lock_expires = None,
    user_password_changed = ar_now q, user_created = ar_now q, user_updated = ar_now q\<rparr>"
  have "\<not> list_ex (\<lambda>r. user_id r = user_id row \<or> user_name r = n) (db_users db)"
    and "db' = insert_audit (global_audit q ''user.create'' ''user'' (user_id row)) (db\<lparr>db_users := db_users db @ [row]\<rparr>)"
    using assms by (auto simp: create_user_def Let_def row_def split: if_splits)
  then show ?thesis
    by (intro new_user [of _ _ row]) (auto simp: list_ex_iff row_def image_iff)
qed

lemma update_user_effect:
  assumes "update_user q u d db = Inr (x, db')"
  shows "access_effect q db db'"
proof -
  from assms obtain y db1 where w: "write_user ''update managed user'' u
      (\<lambda>r. r\<lparr>user_display := d, user_updated := max (user_updated r) (ar_now q)\<rparr>) db = Inr (y, db1)"
    and db': "db' = insert_audit (global_audit q ''user.update'' ''user'' (uuid_text u)) db1"
    by (auto simp: update_user_def and_then_eq_Inr split: if_splits)
  from write_user_Inr [OF w] db' show ?thesis
    by (intro same_authority) (auto simp: map_update_where)
qed

lemma delete_user_effect:
  assumes "delete_user q u db = Inr (x, db')"
  shows "access_effect q db db'"
  using assms
  by (cases "find_user db u")
    (auto simp: delete_user_def and_then_eq_Inr Let_def split: if_splits
      intro!: user_gone dest: guard_facts)

lemma set_user_status_effect:
  assumes "set_user_status q u s db = Inr (x, db')"
  shows "access_effect q db db'"
proof -
  define f where "f = (\<lambda>x :: user_row. x\<lparr>user_status := s, user_failed := (if s = ''active'' then 0 else user_failed x),
    user_locked_at := None, user_lock_expires := None, user_updated := max (user_updated x) (ar_now q)\<rparr>)"
  let ?g1 = "\<lambda>r. if user_status r = ''active'' \<and> s = ''disabled''
              then ensure_not_last_global_admin db (ar_actor q) u else Inr ()"
  let ?g2 = "\<lambda>r. if user_status r \<noteq> s then ensure_target_authority_within_actor db (ar_actor q) u else Inr ()"
  from assms obtain r where r: "find_user db u = Some r"
    by (cases "find_user db u") (simp_all add: set_user_status_def)
  have "\<not> (user_status r = ''locked'' \<and> s = ''active'')"
    using assms by (auto simp: set_user_status_def r)
  with assms have "and_then (?g1 r) (\<lambda>_. and_then (?g2 r) (\<lambda>_.
      and_then (write_user ''update managed user status'' u f db) (\<lambda>(item, db').
        let db'' = (if s = ''disabled'' then revoke_user_sessions u (ar_now q) db' else db')
        in Inr (item, insert_audit (global_audit q ''user.status.update'' ''user'' (uuid_text u)) db'')))) = Inr (x, db')"
    by (simp only: set_user_status_def r f_def option.case if_False)
  then obtain y db1 where g1: "?g1 r = Inr ()" and g2: "?g2 r = Inr ()"
    and w: "write_user ''update managed user status'' u f db = Inr (y, db1)"
    and "db' = insert_audit (global_audit q ''user.status.update'' ''user'' (uuid_text u))
           (if s = ''disabled'' then revoke_user_sessions u (ar_now q) db1 else db1)"
    by (simp only: and_then_eq_Inr Let_def) fastforce
  then have tabs: "db_users db' = db_users db1" "db_roles db' = db_roles db1" "db_bindings db' = db_bindings db1"
    by simp_all
  from write_user_Inr [OF w] r have ok: "user_row_ok (f r)"
    and db1: "db1 = db\<lparr>db_users := update_where (\<lambda>x. user_id x = uuid_text u) f (db_users db)\<rparr>" by auto
  have "s = ''active'' \<or> s = ''disabled''"
    using ok by (auto simp: user_row_ok_def f_def)
  then show ?thesis
    using r g1 g2 tabs db1
    by (intro user_state [of db' db u r f s]) (auto simp: f_def dest: guard_facts)
qed

lemma unlock_user_effect:
  assumes "unlock_user q u db = Inr (x, db')"
  shows "access_effect q db db'"
proof -
  define f where "f = (\<lambda>x :: user_row. x\<lparr>user_status := ''active'', user_failed := 0, user_locked_at := None,
    user_lock_expires := None, user_updated := max (user_updated x) (ar_now q)\<rparr>)"
  from assms obtain r y db1 where r: "find_user db u = Some r"
    and g: "ensure_target_authority_within_actor db (ar_actor q) u = Inr ()"
    and w: "write_user ''unlock managed user'' u f db = Inr (y, db1)"
    and db': "db' = insert_audit (global_audit q ''user.unlock'' ''user'' (uuid_text u)) db1"
    by (cases "find_user db u") (auto simp: unlock_user_def f_def and_then_eq_Inr Let_def split: if_splits)
  from write_user_Inr [OF w] show ?thesis
    using r g db' by (intro user_state [of db' db u r f "''active''"]) (auto simp: f_def dest: guard_facts)
qed

lemma reset_user_password_effect:
  assumes "reset_user_password q u h db = Inr (x, db')"
  shows "access_effect q db db'"
proof -
  define f where "f = (\<lambda>x :: user_row. x\<lparr>user_password := h, user_password_changed := ar_now q,
    user_status := ''active'', user_failed := 0, user_locked_at := None, user_lock_expires := None,
    user_updated := max (user_updated x) (ar_now q)\<rparr>)"
  from assms obtain r y db1 where r: "find_user db u = Some r"
    and g: "ensure_target_authority_within_actor db (ar_actor q) u = Inr ()"
    and w: "write_user ''reset managed user password'' u f db = Inr (y, db1)"
    and db': "db' = insert_audit (global_audit q ''user.password.reset'' ''user'' (uuid_text u))
                (revoke_user_sessions u (ar_now q) db1)"
    by (cases "find_user db u") (auto simp: reset_user_password_def f_def and_then_eq_Inr Let_def split: if_splits)
  from write_user_Inr [OF w] show ?thesis
    using r g db' by (intro user_state [of db' db u r f "''active''"]) (auto simp: f_def dest: guard_facts)
qed

lemma create_role_effect:
  assumes "create_role q i n d t ps db = Inr (x, db')"
  shows "access_effect q db db'"
proof -
  define row where "row = \<lparr>role_id = uuid_text i, role_name = n, role_display = d, role_description = t,
    role_builtin = False, role_permissions = ps, role_created = ar_now q, role_updated = ar_now q\<rparr>"
  have "\<not> list_ex (\<lambda>r. role_id r = role_id row \<or> role_name r = n) (db_roles db)"
    and "db' = insert_audit (global_audit q ''role.create'' ''role'' (role_id row)) (db\<lparr>db_roles := db_roles db @ [row]\<rparr>)"
    using assms by (auto simp: create_role_def Let_def row_def and_then_eq_Inr split: if_splits)
  then show ?thesis
    by (intro new_role [of _ _ row]) (auto simp: list_ex_iff row_def image_iff)
qed

lemma update_role_effect:
  assumes "update_role q i d t ps db = Inr (x, db')"
  shows "access_effect q db db'"
proof -
  define hit where "hit = (\<lambda>r :: role_row. role_id r = uuid_text i \<and> \<not> role_builtin r)"
  define f where "f = (\<lambda>r :: role_row. r\<lparr>role_display := d, role_description := t, role_permissions := ps,
    role_updated := ar_now q\<rparr>)"
  define db1 where "db1 = db\<lparr>db_roles := update_where hit f (db_roles db)\<rparr>"
  let ?held = "actor_permissions db (ar_actor q)"
  from assms obtain r where r: "find hit (db_roles db) = Some r"
    and g1: "ensure_actor_may_change (role_permissions r) ps ?held = Inr ()"
    and g2: "ensure_actor_loses_no_permission db1 (ar_actor q) ?held = Inr ()"
    and db': "db' = insert_audit (global_audit q ''role.update'' ''role'' (role_id r)) db1"
    by (cases "find hit (db_roles db)")
      (auto simp: update_role_def hit_def f_def db1_def and_then_eq_Inr Let_def split: if_splits)
  have "actor_permissions db' = actor_permissions db1"
    by (rule reads_cong) (simp_all add: db')
  then show ?thesis
    using r g1 g2 db'
    by (intro role_edit [of db' db "uuid_text i" r f ps])
      (auto simp: f_def hit_def db1_def dest: guard_facts)
qed

lemma delete_role_effect:
  assumes "delete_role q i db = Inr (x, db')"
  shows "access_effect q db db'"
  using assms
  by (cases "find_role db i")
    (auto simp: delete_role_def binding_count_def filter_empty_conv split: if_splits intro!: role_gone)

lemma create_role_binding_effect:
  assumes "create_role_binding q i s n ty t p db = Inr (x, db')"
  shows "access_effect q db db'"
proof -
  define row where "row = \<lparr>bd_id = uuid_text i, bd_subject = uuid_text s, bd_role = n, bd_scope = ty,
    bd_tenant = nullif_uuid t, bd_project = nullif_uuid p, bd_created = ar_now q\<rparr>"
  from assms obtain r u where g1: "ensure_global_admin_grant_allowed db (ar_actor q) n ty = Inr ()"
    and r: "find_role_by_name db n = Some r" and u: "find_user db s = Some u"
    and g2: "ensure_actor_may_grant (role_permissions r) (actor_permissions db (ar_actor q)) = Inr ()"
    and res: "(case find (same_binding row) (db_bindings db) of
                 Some old \<Rightarrow> Inr ((old, True), db)
               | None \<Rightarrow>
                   if list_ex (\<lambda>b. bd_id b = bd_id row) (db_bindings db)
                   then Inl (AccessFailure ''insert role binding'')
                   else if \<not> binding_references_ok db row then Inl AccessStateConflict
                   else and_then (role_binding_audit q ''role_binding.create'' row) (\<lambda>a.
                        Inr ((row, False), insert_audit a (db\<lparr>db_bindings := db_bindings db @ [row]\<rparr>)))) = Inr (x, db')"
    unfolding create_role_binding_def row_def [symmetric] Let_def
    by (auto simp: and_then_eq_Inr split: option.splits if_splits)
  show ?thesis
  proof (cases "find (same_binding row) (db_bindings db)")
    case (Some old)
    with res show ?thesis by (auto intro: same_authority)
  next
    case None
    with res obtain a where "\<not> list_ex (\<lambda>b. bd_id b = bd_id row) (db_bindings db)"
      and "db' = insert_audit a (db\<lparr>db_bindings := db_bindings db @ [row]\<rparr>)"
      by (auto simp: and_then_eq_Inr split: if_splits)
    moreover have "admin_binding row \<Longrightarrow> uuid_text (ar_actor q) \<in> set (global_administrators db)"
      using g1 by (auto simp: ensure_global_admin_grant_allowed_def admin_binding_def row_def split: if_splits)
    ultimately show ?thesis
      using r u g2
      by (intro new_binding [of db' db row r u])
        (auto simp: row_def list_ex_iff image_iff find_user_def dest: guard_facts)
  qed
qed

lemma delete_role_binding_effect:
  assumes "delete_role_binding q i db = Inr (x, db')"
  shows "access_effect q db db'"
proof -
  from assms obtain b a where b: "find_binding db i = Some b"
    and g1: "(if bd_role b = ''admin'' \<and> bd_scope b = ''global''
              then ensure_not_last_global_admin db (ar_actor q) (bd_subject b) else Inr ()) = Inr ()"
    and ne: "bd_subject b \<noteq> ar_actor q"
    and g2: "ensure_actor_may_revoke_role db (ar_actor q) (bd_role b) = Inr ()"
    and db': "db' = insert_audit a (db\<lparr>db_bindings := filter (\<lambda>b. bd_id b \<noteq> uuid_text i) (db_bindings db)\<rparr>)"
    by (cases "find_binding db i")
      (auto simp: delete_role_binding_def and_then_eq_Inr Let_def split: if_splits)
  from may_revoke_guard [OF g2] obtain r where "find_role_by_name db (bd_role b) = Some r"
    and "set (role_permissions r) \<subseteq> set (actor_permissions db (ar_actor q))" by blast
  then show ?thesis
    using b g1 ne db'
    by (intro binding_gone [of db' db i b r])
      (auto simp: admin_binding_def global_admin_role_name_def dest: guard_facts)
qed

lemma run_op_effect: "run_op q op db = Some db' \<Longrightarrow> access_effect q db db'"
  by (cases op)
    (auto simp: committed_iff intro: create_user_effect update_user_effect delete_user_effect
      set_user_status_effect unlock_user_effect reset_user_password_effect create_role_effect
      update_role_effect delete_role_effect create_role_binding_effect delete_role_binding_effect)

end
