(* ===== verification/AccessSafety.thy ===== *)
theory AccessSafety
  imports AccessStore
begin

section \<open>What no sequence of access-management writes can do\<close>

text \<open>
  The invariant of the access tables, the authority each account carries, and the promises of
  \<open>store/roles.go\<close> and \<open>store/access_management.go\<close> as theorems over every write and every sequence of
  writes: authority never grows or shrinks past what the acting accounts hold, membership of the
  administrator group only changes from inside it, and one active administrator always remains.
\<close>

subsection \<open>The invariant of the tables\<close>

definition db_ok :: "access_db \<Rightarrow> bool" where
  "db_ok db \<longleftrightarrow>
     distinct (map user_id (db_users db)) \<and> distinct (map role_id (db_roles db))
     \<and> distinct (map role_name (db_roles db)) \<and> distinct (map bd_id (db_bindings db))
     \<and> (\<forall>r \<in> set (db_users db). uuid_text (user_id r) = user_id r)
     \<and> (\<forall>b \<in> set (db_bindings db). bd_role b \<in> role_name ` set (db_roles db)
                                  \<and> bd_subject b \<in> user_id ` set (db_users db))"

lemma db_okD:
  assumes "db_ok db"
  shows "distinct (map user_id (db_users db))" "distinct (map role_id (db_roles db))"
    "distinct (map role_name (db_roles db))" "distinct (map bd_id (db_bindings db))"
  using assms by (auto simp: db_ok_def)

lemma canonical_subject:
  "db_ok db \<Longrightarrow> b \<in> set (db_bindings db) \<Longrightarrow> uuid_text (bd_subject b) = bd_subject b"
  by (force simp: db_ok_def)

lemma find_in_set: "find P xs = Some x \<Longrightarrow> x \<in> set xs \<and> P x"
  by (auto simp: find_Some_iff)

lemma role_row_unique:
  assumes "db_ok db" and "r \<in> set (db_roles db)" and "r' \<in> set (db_roles db)" and "role_name r = role_name r'"
  shows "r = r'"
  using db_okD(3) [OF assms(1)] assms(2-4) by (auto simp: distinct_map inj_on_def)

lemma role_id_unique:
  assumes "db_ok db" and "r \<in> set (db_roles db)" and "r' \<in> set (db_roles db)" and "role_id r = role_id r'"
  shows "r = r'"
  using db_okD(2) [OF assms(1)] assms(2-4) by (auto simp: distinct_map inj_on_def)

lemma user_row_unique:
  assumes "db_ok db" and "r \<in> set (db_users db)" and "r' \<in> set (db_users db)" and "user_id r = user_id r'"
  shows "r = r'"
  using db_okD(1) [OF assms(1)] assms(2-4) by (auto simp: distinct_map inj_on_def)

lemma distinct_map_filter_rows: "distinct (map k rows) \<Longrightarrow> distinct (map k (filter P rows))"
  by (simp add: distinct_map_filter)

lemma effect_keeps_db_ok:
  assumes "access_effect q db db'" and ok: "db_ok db"
  shows "db_ok db'"
  using assms(1)
proof cases
  case same_authority
  then have "user_id ` set (db_users db') = user_id ` set (db_users db)"
    by (metis set_map)
  with same_authority ok show ?thesis
    by (simp add: db_ok_def) (metis (mono_tags, lifting) image_iff)
next
  case (new_user row)
  with ok show ?thesis by (auto simp: db_ok_def)
next
  case (user_gone u)
  with ok show ?thesis by (auto simp: db_ok_def distinct_map_filter)
next
  case (user_state u r f status)
  then have "map user_id (db_users db') = map user_id (db_users db)"
    by (simp add: map_update_where)
  moreover from this have "user_id ` set (db_users db') = user_id ` set (db_users db)"
    by (metis set_map)
  ultimately show ?thesis
    using user_state(1,2) ok by (simp add: db_ok_def) (metis (mono_tags, lifting) image_iff)
next
  case (new_role row)
  with ok show ?thesis by (auto simp: db_ok_def)
next
  case (role_edit i r f permissions)
  then have "map role_id (db_roles db') = map role_id (db_roles db)"
    and n: "map role_name (db_roles db') = map role_name (db_roles db)"
    by (simp_all add: map_update_where)
  moreover from n have "role_name ` set (db_roles db') = role_name ` set (db_roles db)"
    by (metis set_map)
  ultimately show ?thesis
    using role_edit(1,2) ok by (simp add: db_ok_def)
next
  case (role_gone i r)
  have "bd_role b \<in> role_name ` set (db_roles db')" if b: "b \<in> set (db_bindings db)" for b
  proof -
    from ok b obtain x where x: "x \<in> set (db_roles db)" "role_name x = bd_role b"
      by (force simp: db_ok_def)
    have "role_id x \<noteq> uuid_text i"
      using role_gone(3,5) x b find_in_set [of _ "db_roles db" r] role_id_unique [OF ok]
      by (fastforce simp: find_role_def)
    with x role_gone(6) show ?thesis by force
  qed
  with role_gone(1,2,6) ok show ?thesis
    by (auto simp: db_ok_def distinct_map_filter)
next
  case (new_binding b r s)
  then have "r \<in> set (db_roles db)" "role_name r = bd_role b" "s \<in> set (db_users db)"
      "user_id s = uuid_text (bd_subject b)"
    using find_in_set by (force simp: find_role_by_name_def find_user_def)+
  then have "bd_role b \<in> role_name ` set (db_roles db)" "bd_subject b \<in> user_id ` set (db_users db)"
    using new_binding(7) by force+
  with new_binding(1-4) ok show ?thesis by (auto simp: db_ok_def)
next
  case (binding_gone i b r)
  with ok show ?thesis by (auto simp: db_ok_def distinct_map_filter)
qed

subsection \<open>The authority an account carries\<close>

text \<open>
  \<open>carried db sc u\<close>: the permissions of the roles bound to \<open>u\<close> at a scope type in \<open>sc\<close>, whatever the
  state of the account; \<open>effective\<close>: what authorization grants, which is nothing unless it is active.
\<close>

definition carried :: "access_db \<Rightarrow> string set \<Rightarrow> string \<Rightarrow> permission set" where
  "carried db sc u = {p. \<exists>b \<in> set (db_bindings db). bd_subject b = u \<and> bd_scope b \<in> sc
                        \<and> (\<exists>r \<in> set (db_roles db). role_name r = bd_role b \<and> p \<in> set (role_permissions r))}"

definition effective :: "access_db \<Rightarrow> string set \<Rightarrow> string \<Rightarrow> permission set" where
  "effective db sc u = (if active_user db u then carried db sc u else {})"

lemma set_joined: "set (joined_permissions db b)
    = {p. \<exists>r \<in> set (db_roles db). role_name r = bd_role b \<and> p \<in> set (role_permissions r)}"
  by (auto simp: joined_permissions_def)

lemma set_actor_permissions: "set (actor_permissions db a) = effective db {''global''} (uuid_text a)"
  by (auto simp: actor_permissions_def effective_def carried_def set_joined)

lemma set_target_permissions: "set (target_permissions db a) = carried db UNIV (uuid_text a)"
  by (auto simp: target_permissions_def carried_def set_joined)

lemma carried_mono: "sc \<subseteq> sc' \<Longrightarrow> carried db sc u \<subseteq> carried db sc' u"
  by (auto simp: carried_def)

lemma carried_cong:
  "db_roles d = db_roles d' \<Longrightarrow> db_bindings d = db_bindings d' \<Longrightarrow> carried d sc u = carried d' sc u"
  by (simp add: carried_def)

lemma active_cong:
  assumes "map user_id (db_users d) = map user_id (db_users d')"
    and "map user_status (db_users d) = map user_status (db_users d')"
  shows "active_user d u = active_user d' u"
proof -
  have zip: "zip (map user_id rs) (map user_status rs) = map (\<lambda>r. (user_id r, user_status r)) rs"
    for rs :: "user_row list" by (induction rs) simp_all
  have "active_user e u \<longleftrightarrow> (u, ''active'') \<in> set (zip (map user_id (db_users e)) (map user_status (db_users e)))" for e
    unfolding active_user_def list_ex_iff zip by auto
  then show ?thesis by (simp add: assms)
qed

lemma authority_guard_carried:
  "authority_guard db q u \<Longrightarrow> ar_actor q = u \<or> carried db sc (uuid_text u) \<subseteq> set (actor_permissions db (ar_actor q))"
  using carried_mono [of sc UNIV db "uuid_text u"] by (auto simp: authority_guard_def set_target_permissions)

lemma user_state_active:
  assumes ok: "db_ok db" and r: "find_user db v = Some r"
    and rows: "db_users db' = update_where (\<lambda>x. user_id x = uuid_text v) f (db_users db)"
    and f: "\<And>x. user_id (f x) = user_id x" "\<And>x. user_status (f x) = status"
  shows "active_user db' u = (if u = uuid_text v then status = ''active'' else active_user db u)"
    and "active_user db (uuid_text v) = (user_status r = ''active'')"
proof -
  have r_in: "r \<in> set (db_users db)" "user_id r = uuid_text v"
    using find_in_set [OF r [unfolded find_user_def]] by auto
  have only: "{x \<in> set (db_users db). user_id x = uuid_text v} = {r}"
    by (rule find_key_only [OF r [unfolded find_user_def] db_okD(1) [OF ok]])
  then have s: "set (db_users db') = {x \<in> set (db_users db). user_id x \<noteq> uuid_text v} \<union> {f r}"
    by (simp add: rows set_update_where)
  show "active_user db' u = (if u = uuid_text v then status = ''active'' else active_user db u)"
    using r_in by (auto simp: active_user_def list_ex_iff s f)
  show "active_user db (uuid_text v) = (user_status r = ''active'')"
  proof
    assume "active_user db (uuid_text v)"
    then obtain x where x: "x \<in> set (db_users db)" "user_id x = uuid_text v" "user_status x = ''active''"
      by (auto simp: active_user_def list_ex_iff)
    have "x = r" by (rule find_distinct_key [OF r [unfolded find_user_def] db_okD(1) [OF ok] x(1,2)])
    with x(3) show "user_status r = ''active''" by simp
  next
    assume "user_status r = ''active''"
    with r_in show "active_user db (uuid_text v)" by (auto simp: active_user_def list_ex_iff)
  qed
qed

text \<open>The roles after an edit, seen through one binding.\<close>

lemma role_edit_carried:
  assumes ok: "db_ok db" and b: "db_bindings db' = db_bindings db"
    and r: "find (\<lambda>r. role_id r = i \<and> \<not> role_builtin r) (db_roles db) = Some r"
    and rows: "db_roles db' = update_where (\<lambda>r. role_id r = i \<and> \<not> role_builtin r) f (db_roles db)"
    and f: "\<And>x. role_name (f x) = role_name x" "\<And>x. role_permissions (f x) = ps"
  shows "carried db' sc u \<subseteq> carried db sc u \<union> (set ps - set (role_permissions r))"
    and "carried db sc u \<subseteq> carried db' sc u \<union> (set (role_permissions r) - set ps)"
proof -
  have only: "x = r" if "x \<in> set (db_roles db)" "role_id x = i \<and> \<not> role_builtin x" for x
    using find_in_set [OF r] that role_id_unique [OF ok] by blast
  have r_in: "r \<in> set (db_roles db)" "role_id r = i \<and> \<not> role_builtin r"
    using find_in_set [OF r] by auto
  have set': "set (db_roles db') = {x \<in> set (db_roles db). x \<noteq> r} \<union> {f r}"
  proof -
    have "{x \<in> set (db_roles db). role_id x = i \<and> \<not> role_builtin x} = {r}" using only r_in by blast
    moreover have "{x \<in> set (db_roles db). \<not> (role_id x = i \<and> \<not> role_builtin x)}
        = {x \<in> set (db_roles db). x \<noteq> r}" using only r_in by blast
    ultimately show ?thesis by (simp add: rows set_update_where)
  qed
  show "carried db' sc u \<subseteq> carried db sc u \<union> (set ps - set (role_permissions r))"
    using r_in by (auto simp: carried_def b set' f)
  show "carried db sc u \<subseteq> carried db' sc u \<union> (set (role_permissions r) - set ps)"
  proof
    fix p assume "p \<in> carried db sc u"
    then obtain b x where bx: "b \<in> set (db_bindings db)" "bd_subject b = u" "bd_scope b \<in> sc"
      "x \<in> set (db_roles db)" "role_name x = bd_role b" "p \<in> set (role_permissions x)"
      by (auto simp: carried_def)
    show "p \<in> carried db' sc u \<union> (set (role_permissions r) - set ps)"
    proof (cases "x = r")
      case True
      have "p \<in> set ps \<Longrightarrow> p \<in> carried db' sc u"
        using bx True by (auto simp: carried_def assms(2) set' f intro!: bexI [of _ b])
      with bx True show ?thesis by auto
    next
      case False
      with bx have "p \<in> carried db' sc u" by (auto simp: carried_def assms(2) set')
      then show ?thesis by simp
    qed
  qed
qed

subsection \<open>No write moves authority the actor does not hold\<close>

lemma effect_gain:
  assumes eff: "access_effect q db db'" and ok: "db_ok db"
    and act: "active_user db (uuid_text (ar_actor q))"
  shows "effective db' sc u \<subseteq> effective db sc u \<union> set (actor_permissions db (ar_actor q))"
  using eff
proof cases
  case same_authority
  show ?thesis
    using active_cong [OF same_authority(3,4)] carried_cong [OF same_authority(1,2)]
    by (simp add: effective_def)
next
  case (new_user row)
  have "bd_subject b \<noteq> user_id row" if "b \<in> set (db_bindings db)" for b
    using that ok new_user(4) unfolding db_ok_def by metis
  then have "carried db' sc (user_id row) = {}"
    using new_user(2) by (simp add: carried_def)
  moreover have "active_user db' u \<longleftrightarrow> active_user db u \<or> u = user_id row \<and> user_status row = ''active''"
    using new_user by (auto simp: active_user_def)
  ultimately show ?thesis
    using carried_cong [OF new_user(1,2)] by (auto simp: effective_def)
next
  case (user_gone v)
  then have "carried db' sc u \<subseteq> carried db sc u" and "active_user db' u \<Longrightarrow> active_user db u"
    by (auto simp: carried_def active_user_def list_ex_iff)
  then show ?thesis by (auto simp: effective_def)
next
  case (user_state v r f status)
  have c: "carried db' sc u = carried db sc u" using carried_cong [OF user_state(1,2)] .
  show ?thesis
  proof (cases "u = uuid_text v \<and> user_status r \<noteq> status")
    case True
    then have g: "ar_actor q = v \<or> carried db sc u \<subseteq> set (actor_permissions db (ar_actor q))"
      using authority_guard_carried user_state(8) by blast
    show ?thesis using g act True c by (auto simp: effective_def)
  next
    case False
    then have "active_user db' u = active_user db u"
      using user_state_active [OF ok user_state(3-6)] by auto
    with c show ?thesis by (auto simp: effective_def)
  qed
next
  case (new_role row)
  then have "carried db' sc u = carried db sc u"
    using ok by (auto simp: carried_def db_ok_def)
  with new_role show ?thesis by (simp add: effective_def active_user_def)
next
  case (role_edit i r f permissions)
  then show ?thesis
    using role_edit_carried(1) [OF ok role_edit(1,3,4,6,8), of sc u]
    by (auto simp: effective_def active_user_def)
next
  case (role_gone i r)
  then show ?thesis by (auto simp: effective_def active_user_def carried_def)
next
  case (new_binding b r s)
  have "carried db' sc u \<subseteq> carried db sc u \<union> set (role_permissions r)"
    using new_binding(1,3) find_distinct_key [OF new_binding(5) [unfolded find_role_by_name_def] db_okD(3) [OF ok]]
    by (auto simp: carried_def)
  with new_binding show ?thesis by (auto simp: effective_def active_user_def)
next
  case (binding_gone i b r)
  then show ?thesis by (auto simp: effective_def active_user_def carried_def)
qed

lemma effect_loss:
  assumes eff: "access_effect q db db'" and ok: "db_ok db" and other: "u \<noteq> uuid_text (ar_actor q)"
  shows "effective db sc u \<subseteq> effective db' sc u \<union> set (actor_permissions db (ar_actor q))"
  using eff
proof cases
  case same_authority
  show ?thesis
    using active_cong [OF same_authority(3,4)] carried_cong [OF same_authority(1,2)]
    by (simp add: effective_def)
next
  case (new_user row)
  then have "active_user db u \<Longrightarrow> active_user db' u" by (auto simp: active_user_def)
  then show ?thesis
    using carried_cong [OF new_user(1,2)] by (auto simp: effective_def)
next
  case (user_gone v)
  show ?thesis
  proof (cases "u = uuid_text v")
    case True
    then have "carried db sc u \<subseteq> set (actor_permissions db (ar_actor q))"
      using authority_guard_carried [OF user_gone(5), of sc] other by blast
    then show ?thesis by (auto simp: effective_def)
  next
    case False
    with user_gone have "carried db sc u \<subseteq> carried db' sc u" and "active_user db u \<Longrightarrow> active_user db' u"
      by (auto simp: carried_def active_user_def list_ex_iff)
    then show ?thesis by (auto simp: effective_def)
  qed
next
  case (user_state v r f status)
  have c: "carried db' sc u = carried db sc u" using carried_cong [OF user_state(1,2)] .
  show ?thesis
  proof (cases "u = uuid_text v \<and> user_status r \<noteq> status")
    case True
    then have "carried db sc u \<subseteq> set (actor_permissions db (ar_actor q))"
      using authority_guard_carried user_state(8) other by blast
    then show ?thesis by (auto simp: effective_def)
  next
    case False
    then have "active_user db' u = active_user db u"
      using user_state_active [OF ok user_state(3-6)] by auto
    with c show ?thesis by (auto simp: effective_def)
  qed
next
  case (new_role row)
  then show ?thesis by (auto simp: effective_def active_user_def carried_def)
next
  case (role_edit i r f permissions)
  then show ?thesis
    using role_edit_carried(2) [OF ok role_edit(1,3,4,6,8), of sc u]
    by (auto simp: effective_def active_user_def)
next
  case (role_gone i r)
  have "x = r" if "x \<in> set (db_roles db)" "role_id x = uuid_text i" for x
    using find_distinct_key [OF role_gone(3) [unfolded find_role_def] db_okD(2) [OF ok]] that .
  then have "carried db sc u \<subseteq> carried db' sc u"
    using role_gone(1,5,6) by (fastforce simp: carried_def)
  with role_gone show ?thesis by (auto simp: effective_def active_user_def)
next
  case (new_binding b r s)
  then show ?thesis by (auto simp: effective_def active_user_def carried_def)
next
  case (binding_gone i b r)
  have "x = b" if "x \<in> set (db_bindings db)" "bd_id x = uuid_text i" for x
    using find_distinct_key [OF binding_gone(3) [unfolded find_binding_def] db_okD(4) [OF ok]] that by blast
  moreover have "x = r" if "x \<in> set (db_roles db)" "role_name x = bd_role b" for x
    using find_distinct_key [OF binding_gone(5) [unfolded find_role_by_name_def] db_okD(3) [OF ok]] that by blast
  ultimately have "carried db sc u \<subseteq> carried db' sc u \<union> set (role_permissions r)"
    using binding_gone(1,4) by (fastforce simp: carried_def)
  with binding_gone show ?thesis by (auto simp: effective_def active_user_def)
qed

subsection \<open>Membership of the administrator group\<close>

lemma set_global_administrators:
  "set (global_administrators db) = {u. active_user db u \<and> holds_admin db u}"
  by (auto simp: global_administrators_def active_user_def list_ex_iff)

lemma other_administrator:
  assumes "admin_guard db a u" and "global_administrators db \<noteq> []"
  shows "\<exists>w. w \<noteq> u \<and> active_user db w \<and> holds_admin db w"
proof (cases "u \<in> set (global_administrators db)")
  case True
  then have "2 \<le> length (global_administrators db)"
    using assms(1) by (auto simp: admin_guard_def set_global_administrators)
  moreover have "distinct (global_administrators db)" by (simp add: global_administrators_def)
  ultimately have "\<not> set (global_administrators db) \<subseteq> {u}"
    using distinct_card [of "global_administrators db"] card_mono [of "{u}" "set (global_administrators db)"]
    by auto
  then show ?thesis by (auto simp: set_global_administrators)
next
  case False
  with assms(2) obtain w where "w \<in> set (global_administrators db)" "w \<noteq> u"
    by (metis list.set_intros(1) neq_Nil_conv)
  then show ?thesis by (auto simp: set_global_administrators)
qed

lemma effect_keeps_administrator:
  assumes eff: "access_effect q db db'" and ok: "db_ok db" and some: "global_administrators db \<noteq> []"
  shows "global_administrators db' \<noteq> []"
proof -
  from some obtain w0 where w0: "active_user db w0" "holds_admin db w0"
    using set_global_administrators [of db] by (metis (mono_tags, lifting) list.set_intros(1) mem_Collect_eq neq_Nil_conv)
  have "\<exists>w. active_user db' w \<and> holds_admin db' w"
    using eff
  proof cases
    case same_authority
    then show ?thesis
      using w0 active_cong [OF same_authority(3,4)] by (auto simp: holds_admin_def)
  next
    case (new_user row)
    then show ?thesis using w0 by (intro exI [of _ w0]) (simp add: active_user_def holds_admin_def)
  next
    case (user_gone u)
    obtain w where "w \<noteq> uuid_text u" "active_user db w" "holds_admin db w"
      using other_administrator [OF user_gone(4) some] by blast
    with user_gone(1-3) show ?thesis
      by (intro exI [of _ w]) (auto simp: active_user_def holds_admin_def list_ex_iff)
  next
    case (user_state u r f status)
    note act = user_state_active [OF ok user_state(3-6)]
    show ?thesis
    proof (cases "user_status r = ''active'' \<and> status \<noteq> ''active''")
      case True
      then obtain w where "w \<noteq> uuid_text u" "active_user db w" "holds_admin db w"
        using other_administrator user_state(7) some by blast
      then show ?thesis using act(1) user_state(2) by (auto simp: holds_admin_def)
    next
      case False
      then have "active_user db' w0" using act w0 by auto
      then show ?thesis using w0 user_state(2) by (auto simp: holds_admin_def)
    qed
  next
    case (binding_gone i b r)
    obtain w where w: "admin_binding b \<longrightarrow> w \<noteq> bd_subject b" "active_user db w" "holds_admin db w"
    proof (cases "admin_binding b")
      case True
      have "uuid_text (bd_subject b) = bd_subject b"
        using canonical_subject [OF ok] find_in_set [OF binding_gone(3) [unfolded find_binding_def]] by blast
      then show ?thesis
        using other_administrator [OF binding_gone(7) [OF True] some] that by auto
    next
      case False
      then show ?thesis using that w0 by blast
    qed
    then obtain b' where b': "b' \<in> set (db_bindings db)" "bd_subject b' = w" "admin_binding b'"
      by (auto simp: holds_admin_def list_ex_iff)
    have "bd_id b' \<noteq> uuid_text i"
      using find_distinct_key [OF binding_gone(3) [unfolded find_binding_def] db_okD(4) [OF ok] b'(1)] w(1) b'(2,3)
      by auto
    then have "holds_admin db' w"
      using binding_gone(4) b' by (auto simp: holds_admin_def list_ex_iff)
    then show ?thesis using w(2) binding_gone(2) by (auto simp: active_user_def)
  qed (use w0 in \<open>auto simp: active_user_def holds_admin_def list_ex_iff\<close>)
  then show ?thesis using set_global_administrators [of db'] by (metis empty_iff empty_set mem_Collect_eq)
qed

lemma effect_keeps_membership:
  assumes eff: "access_effect q db db'" and ok: "db_ok db"
    and out: "uuid_text (ar_actor q) \<notin> set (global_administrators db)"
  shows "holds_admin db' u = holds_admin db u"
  using eff
proof cases
  case (user_gone v)
  then have "\<not> holds_admin db (uuid_text v)"
    using out by (auto simp: admin_guard_def)
  then show ?thesis using user_gone(2) by (auto simp: holds_admin_def list_ex_iff)
next
  case (new_binding b r s)
  then show ?thesis using out by (auto simp: holds_admin_def)
next
  case (binding_gone i b r)
  have b: "b \<in> set (db_bindings db)"
    using find_in_set [OF binding_gone(3) [unfolded find_binding_def]] by blast
  have "\<not> admin_binding b"
  proof
    assume a: "admin_binding b"
    then have "holds_admin db (uuid_text (bd_subject b))"
      using b canonical_subject [OF ok b] by (auto simp: holds_admin_def list_ex_iff)
    then show False using binding_gone(7) [OF a] out by (simp add: admin_guard_def)
  qed
  then have "bd_id b' \<noteq> uuid_text i" if "b' \<in> set (db_bindings db)" "admin_binding b'" for b'
    using find_distinct_key [OF binding_gone(3) [unfolded find_binding_def] db_okD(4) [OF ok] that(1)] that(2)
    by auto
  then show ?thesis using binding_gone(4) by (auto simp: holds_admin_def list_ex_iff)
qed (auto simp: holds_admin_def)

subsection \<open>The interface of the ceiling, discharged by the writes\<close>

definition run_request :: "actor_request \<times> access_op \<Rightarrow> access_db \<Rightarrow> access_db option" where
  "run_request x db = run_op (fst x) (snd x) db"

definition request_actor :: "actor_request \<times> access_op \<Rightarrow> string" where
  "request_actor x = uuid_text (ar_actor (fst x))"

definition from_active :: "actor_request \<times> access_op \<Rightarrow> access_db \<Rightarrow> bool" where
  "from_active x db \<longleftrightarrow> active_user db (request_actor x)"

lemmas request_defs = run_request_def request_actor_def from_active_def

lemma request_effect: "run_request x db = Some db' \<Longrightarrow> access_effect (fst x) db db'"
  by (simp add: run_request_def run_op_effect)

interpretation access: ceiling_steps run_request db_ok from_active request_actor
    "\<lambda>db. effective db sc" "\<lambda>db. effective db {''global''}" for sc
proof
  fix x db db'
  assume x: "run_request x db = Some db'" and ok: "db_ok db"
  note eff = request_effect [OF x]
  show "db_ok db'" by (rule effect_keeps_db_ok [OF eff ok])
next
  fix x db db' u
  assume x: "run_request x db = Some db'" and ok: "db_ok db" and act: "from_active x db"
  note gain = effect_gain [OF request_effect [OF x] ok act [unfolded request_defs], unfolded set_actor_permissions]
  show "effective db' sc u \<subseteq> effective db sc u \<union> effective db {''global''} (request_actor x)"
    using gain by (simp add: request_actor_def)
  show "effective db' {''global''} u \<subseteq> effective db {''global''} u \<union> effective db {''global''} (request_actor x)"
    using gain by (simp add: request_actor_def)
qed

subsection \<open>A small database\<close>

definition ex_admin :: string where "ex_admin = ''00000000-0000-4000-8000-00000000000a''"
definition ex_locked :: string where "ex_locked = ''00000000-0000-4000-8000-00000000000b''"
definition ex_operator :: string where "ex_operator = ''00000000-0000-4000-8000-00000000000c''"
definition ex_nobody :: string where "ex_nobody = ''00000000-0000-4000-8000-00000000000d''"

definition ex_account :: "string \<Rightarrow> string \<Rightarrow> string \<Rightarrow> user_row" where
  "ex_account i n status =
     \<lparr>user_id = i, user_name = n, user_display = n, user_password = ''h'', user_status = status,
      user_failed = 0, user_locked_at = (if status = ''locked'' then Some 1 else None),
      user_lock_expires = (if status = ''locked'' then Some 2 else None),
      user_password_changed = 0, user_created = 0, user_updated = 0\<rparr>"

definition ex_role :: "string \<Rightarrow> string \<Rightarrow> bool \<Rightarrow> permission list \<Rightarrow> role_row" where
  "ex_role i n builtin ps =
     \<lparr>role_id = i, role_name = n, role_display = n, role_description = [], role_builtin = builtin,
      role_permissions = ps, role_created = 0, role_updated = 0\<rparr>"

definition ex_grant :: "string \<Rightarrow> string \<Rightarrow> string \<Rightarrow> binding_row" where
  "ex_grant i s r =
     \<lparr>bd_id = i, bd_subject = s, bd_role = r, bd_scope = ''global'', bd_tenant = None,
      bd_project = None, bd_created = 0\<rparr>"

definition ex_db :: access_db where
  "ex_db =
     \<lparr>db_users = [ex_account ex_admin ''admin'' ''active'', ex_account ex_locked ''locked'' ''locked'',
                  ex_account ex_operator ''operator'' ''active'', ex_account ex_nobody ''nobody'' ''active''],
      db_roles = [ex_role ''1'' ''admin'' True [''rbac.manage'', ''user.manage''],
                  ex_role ''2'' ''operator'' False [''rbac.manage'', ''user.manage'']],
      db_bindings = [ex_grant ''1'' ex_admin ''admin'', ex_grant ''2'' ex_locked ''admin'',
                     ex_grant ''3'' ex_operator ''operator''],
      db_sessions = [], db_queries = [], db_audits = [], db_tenants = [], db_projects = [],
      db_clusters = []\<rparr>"

definition ex_ask :: "string \<Rightarrow> actor_request" where
  "ex_ask a = \<lparr>ar_actor = a, ar_request = ''request'', ar_now = 5\<rparr>"

lemma ex_db_ok: "db_ok ex_db"
  unfolding db_ok_def by code_simp

text \<open>The operator grants their own role to the account that has none.\<close>

definition ex_grant_operator :: "actor_request \<times> access_op" where
  "ex_grant_operator =
     (ex_ask ex_operator, OpCreateBinding ''4'' ex_nobody ''operator'' ''global'' [] [])"

definition ex_db_granted :: access_db where
  "ex_db_granted = the (run_request ex_grant_operator ex_db)"

lemma ex_grant_runs: "run_request ex_grant_operator ex_db = Some ex_db_granted"
  unfolding ex_db_granted_def by code_simp

lemma ex_grant_active: "from_active ex_grant_operator ex_db"
  by code_simp

lemma ex_grant_steps: "steps run_request from_active ex_db [ex_grant_operator] ex_db_granted"
  by (simp add: steps_Cons_iff ex_grant_runs ex_grant_active)

section \<open>Properties\<close>

text \<open>
  C1: no privilege escalation. Whatever sequence of committed writes a group \<open>A\<close> of active accounts
  makes, every account can do afterwards only what it could do before or what somebody in the group
  held globally before; in particular no collusion manufactures a permission nobody in it held.
\<close>

theorem no_escalation:
  assumes "steps run_request from_active db xs db'" and "db_ok db" and "request_actor ` set xs \<subseteq> A"
  shows "effective db' sc u \<subseteq> effective db sc u \<union> (\<Union>a \<in> A. effective db {''global''} a)"
  using access.run_ceiling [OF assms] .

theorem no_escalation_witness:
  "''user.manage'' \<in> effective ex_db_granted UNIV ex_nobody
   \<and> effective ex_db_granted UNIV ex_nobody \<subseteq> effective ex_db {''global''} ex_operator"
proof -
  have "request_actor ` set [ex_grant_operator] \<subseteq> {ex_operator}" by code_simp
  from no_escalation [OF ex_grant_steps ex_db_ok this, of UNIV ex_nobody]
  have "effective ex_db_granted UNIV ex_nobody
      \<subseteq> effective ex_db UNIV ex_nobody \<union> effective ex_db {''global''} ex_operator" by simp
  moreover have uid: "uuid_text ex_nobody = ex_nobody" by code_simp
  moreover have "set (target_permissions ex_db ex_nobody) = {}" by code_simp
  then have "effective ex_db UNIV ex_nobody = {}"
    using set_target_permissions [of ex_db ex_nobody, unfolded uid] by (simp add: effective_def)
  moreover have "''user.manage'' \<in> set (target_permissions ex_db_granted ex_nobody)"
    and "active_user ex_db_granted ex_nobody" by code_simp+
  ultimately show ?thesis
    using set_target_permissions [of ex_db_granted ex_nobody, unfolded uid] by (simp add: effective_def)
qed

text \<open>
  C7: nobody takes authority away that they do not hold. After any committed write, the permissions
  any other account has lost are among those the actor held globally before it.
\<close>

theorem no_overreach:
  assumes "run_op q op db = Some db'" and "db_ok db" and "u \<noteq> uuid_text (ar_actor q)"
  shows "effective db sc u - effective db' sc u \<subseteq> set (actor_permissions db (ar_actor q))"
  using effect_loss [OF run_op_effect [OF assms(1)] assms(2,3), of sc] by blast

definition ex_disable :: access_op where "ex_disable = OpSetStatus ex_operator ''disabled''"

definition ex_db_disabled :: access_db where
  "ex_db_disabled = the (run_op (ex_ask ex_admin) ex_disable ex_db)"

lemma ex_disable_runs: "run_op (ex_ask ex_admin) ex_disable ex_db = Some ex_db_disabled"
  unfolding ex_db_disabled_def by code_simp

theorem no_overreach_witness:
  "effective ex_db UNIV ex_operator - effective ex_db_disabled UNIV ex_operator
     \<subseteq> set (actor_permissions ex_db ex_admin)
   \<and> effective ex_db_disabled UNIV ex_operator = {}"
proof -
  have "ex_operator \<noteq> uuid_text (ar_actor (ex_ask ex_admin))" by code_simp
  from no_overreach [OF ex_disable_runs ex_db_ok this, of UNIV]
  have "effective ex_db UNIV ex_operator - effective ex_db_disabled UNIV ex_operator
      \<subseteq> set (actor_permissions ex_db ex_admin)" by (simp add: ex_ask_def)
  moreover have "\<not> active_user ex_db_disabled ex_operator" by code_simp
  ultimately show ?thesis by (simp add: effective_def)
qed

text \<open>
  The account of last resort survives. If some active account holds the builtin role globally
  before a sequence of committed writes, some active account does after it.
\<close>

theorem administrator_remains:
  assumes "steps run_request from_active db xs db'" and "db_ok db" and "global_administrators db \<noteq> []"
  shows "global_administrators db' \<noteq> []"
proof -
  have "db_ok db' \<and> global_administrators db' \<noteq> []"
    using assms(1)
  proof (rule steps_invariant)
    show "db_ok db \<and> global_administrators db \<noteq> []" using assms(2,3) by simp
  next
    fix x s s'
    assume "run_request x s = Some s'" and "db_ok s \<and> global_administrators s \<noteq> []"
    then show "db_ok s' \<and> global_administrators s' \<noteq> []"
      using effect_keeps_db_ok effect_keeps_administrator request_effect by blast
  qed
  then show ?thesis by simp
qed

theorem administrator_remains_witness:
  "global_administrators ex_db_granted \<noteq> []"
proof -
  have "global_administrators ex_db \<noteq> []" by code_simp
  then show ?thesis by (rule administrator_remains [OF ex_grant_steps ex_db_ok])
qed

text \<open>
  C6: the administrator group is closed from the outside. As long as nobody who acts is bound to the
  builtin role globally, the set of accounts bound to it does not change, by one write or by many.
\<close>

theorem membership_from_inside:
  assumes "steps run_request from_active db xs db'" and "db_ok db"
    and "\<forall>x \<in> set xs. \<not> holds_admin db (request_actor x)"
  shows "holds_admin db' = holds_admin db"
  using assms
proof (induction rule: steps.induct)
  case (steps_none s)
  then show ?case by simp
next
  case (steps_more x s s1 xs s2)
  have "request_actor x \<notin> set (global_administrators s)"
    using steps_more.prems(2) by (simp add: set_global_administrators)
  then have m: "holds_admin s1 = holds_admin s"
    using effect_keeps_membership [OF request_effect [OF steps_more(2)] steps_more.prems(1)]
    by (intro ext) (simp add: request_actor_def)
  have "db_ok s1" by (rule effect_keeps_db_ok [OF request_effect [OF steps_more(2)] steps_more.prems(1)])
  then have "holds_admin s2 = holds_admin s1"
    by (rule steps_more.IH) (use steps_more.prems(2) in \<open>simp add: m\<close>)
  with m show ?case by simp
qed

theorem membership_from_inside_witness:
  "holds_admin ex_db_granted = holds_admin ex_db \<and> holds_admin ex_db_granted ex_locked"
proof -
  have "\<forall>x \<in> set [ex_grant_operator]. \<not> holds_admin ex_db (request_actor x)" by code_simp
  moreover have "holds_admin ex_db ex_locked" by code_simp
  ultimately show ?thesis using membership_from_inside [OF ex_grant_steps ex_db_ok] by simp
qed

lemma ex_outside_disables:
  "case set_user_status (ex_ask ex_operator) ex_locked ''disabled'' ex_db of
     Inl e \<Rightarrow> False | Inr (item, db') \<Rightarrow> user_id item = ex_locked \<and> user_status item = ''disabled''"
  by code_simp

text \<open>
  The guard of the group has a gap. \<open>SetUserStatus\<close> asks for an administrator only when the
  target account is active, so an account outside the group that holds every permission of the role
  can disable an administrator whose account is locked.
\<close>

theorem locked_administrator_disabled_from_outside:
  "\<exists>db q u item db'. db_ok db \<and> active_user db (uuid_text (ar_actor q))
     \<and> \<not> holds_admin db (uuid_text (ar_actor q)) \<and> holds_admin db u
     \<and> set_user_status q u ''disabled'' db = Inr (item, db')
     \<and> user_id item = u \<and> user_status item = ''disabled''"
proof -
  obtain item db' where "set_user_status (ex_ask ex_operator) ex_locked ''disabled'' ex_db = Inr (item, db')"
      and "user_id item = ex_locked" and "user_status item = ''disabled''"
    using ex_outside_disables by (auto split: sum.splits)
  moreover have "active_user ex_db (uuid_text (ar_actor (ex_ask ex_operator)))"
    and "\<not> holds_admin ex_db (uuid_text (ar_actor (ex_ask ex_operator)))"
    and "holds_admin ex_db ex_locked" by code_simp+
  ultimately show ?thesis using ex_db_ok by blast
qed

text \<open>
  Disabling takes effect at once. After \<open>SetUserStatus(disabled)\<close> commits, authorization refuses
  the account every permission at every scope, whatever roles are still bound to it.
\<close>

theorem disabled_account_is_refused:
  assumes "set_user_status q u ''disabled'' db = Inr (item, db')" and "uuid_text v = uuid_text u"
  shows "fst (authorize (db_store db') None v p s) \<noteq> Inr ()"
proof -
  from assms(1) obtain r where r: "find_user db u = Some r"
    by (cases "find_user db u") (simp_all add: set_user_status_def)
  from assms(1) obtain y db1 f where w: "write_user ''update managed user status'' u f db = Inr (y, db1)"
    and f: "\<And>x. user_id (f x) = user_id x" "\<And>x. user_status (f x) = ''disabled''"
    and us: "db_users db' = db_users db1"
    by (simp add: set_user_status_def r and_then_eq_Inr Let_def) fastforce
  have "db_users db' = update_where (\<lambda>x. user_id x = uuid_text u) f (db_users db)"
    using write_user_Inr [OF w] us by auto
  then have "\<not> active_user db' (uuid_text v)"
    using f assms(2) by (auto simp: active_user_def list_ex_iff set_update_where)
  then have "\<not> holds (db_store db') v p s"
    by (auto simp: holds_def db_store_def role_bindings_of_def split: if_splits)
  then show ?thesis using authorize_iff [of "db_store db'" None v p s] by simp
qed

theorem disabled_account_is_refused_witness:
  "fst (authorize (db_store ex_db_disabled) None ex_operator ''user.manage'' global_scope) \<noteq> Inr ()"
proof -
  obtain item where "set_user_status (ex_ask ex_admin) ex_operator ''disabled'' ex_db = Inr (item, ex_db_disabled)"
    using ex_disable_runs by (auto simp: ex_disable_def committed_iff)
  then show ?thesis by (rule disabled_account_is_refused) (rule refl)
qed

lemma create_role_binding_new:
  assumes "create_role_binding q i u n ty t pr db = Inr ((b, False), db')"
  shows "bd_subject b = uuid_text u \<and> bd_role b = n \<and> bd_scope b = ty \<and> bd_tenant b = nullif_uuid t
      \<and> bd_project b = nullif_uuid pr \<and> find (same_binding b) (db_bindings db) = None
      \<and> db_bindings db' = db_bindings db @ [b] \<and> db_roles db' = db_roles db \<and> db_users db' = db_users db"
proof -
  define row where "row = \<lparr>bd_id = uuid_text i, bd_subject = uuid_text u, bd_role = n, bd_scope = ty,
    bd_tenant = nullif_uuid t, bd_project = nullif_uuid pr, bd_created = ar_now q\<rparr>"
  have "b = row \<and> find (same_binding row) (db_bindings db) = None
      \<and> (\<exists>a. db' = insert_audit a (db\<lparr>db_bindings := db_bindings db @ [row]\<rparr>))"
    using assms unfolding create_role_binding_def row_def [symmetric] Let_def
    by (auto simp: and_then_eq_Inr split: option.splits if_splits)
  then show ?thesis by (auto simp: row_def)
qed

lemma create_role_binding_guards:
  assumes "create_role_binding q i u n ty t pr db = Inr ((b, False), db')"
  shows "ensure_global_admin_grant_allowed db (ar_actor q) n ty = Inr ()
      \<and> (\<exists>r x. find_role_by_name db n = Some r \<and> find_user db u = Some x
            \<and> ensure_actor_may_grant (role_permissions r) (actor_permissions db (ar_actor q)) = Inr ())
      \<and> binding_row_ok b"
  using assms unfolding create_role_binding_def Let_def
  by (auto simp: and_then_eq_Inr split: option.splits if_splits)

lemma ex_grant_new:
  "\<exists>b. create_role_binding (ex_ask ex_operator) ''4'' ex_nobody ''operator'' ''global'' [] [] ex_db
     = Inr ((b, False), ex_db_granted)"
proof -
  let ?r = "create_role_binding (ex_ask ex_operator) ''4'' ex_nobody ''operator'' ''global'' [] [] ex_db"
  have "snd (fst (projr ?r)) = False \<and> \<not> isl ?r" by code_simp
  moreover have "committed ?r = Some ex_db_granted"
    using ex_grant_runs by (simp add: run_request_def ex_grant_operator_def)
  ultimately show ?thesis
    by (cases ?r) (auto simp: committed_def)
qed

text \<open>
  A granted role is a usable role. Once a new binding is committed, authorization allows its
  subject every defined permission the role carries, at every well-formed scope the binding reaches.
\<close>

theorem binding_takes_effect:
  assumes "create_role_binding q i u n ty t pr db = Inr ((b, False), db')"
    and "is_uuid u" and "active_user db (uuid_text u)"
    and "r \<in> set (db_roles db)" and "role_name r = n" and "p \<in> set (role_permissions r)"
    and "permission_valid p" and "validate_scope s = Inr ()"
    and "binding_applies \<lparr>rb_role = n, rb_scope_type = ty, rb_tenant = opt_text (nullif_uuid t),
           rb_project = opt_text (nullif_uuid pr), rb_permissions = role_permissions r\<rparr> s"
  shows "fst (authorize (db_store db') None u p s) = Inr ()"
proof -
  note new = create_role_binding_new [OF assms(1)]
  let ?rb = "\<lparr>rb_role = n, rb_scope_type = ty, rb_tenant = opt_text (nullif_uuid t),
           rb_project = opt_text (nullif_uuid pr), rb_permissions = role_permissions r\<rparr>"
  have act: "active_user db' (uuid_text u)" using assms(3) new by (simp add: active_user_def)
  have "b \<in> set (db_bindings db')" "r \<in> set (db_roles db')" using new assms(4) by simp_all
  then have "\<exists>bs. role_bindings_of db' u = Inr bs \<and> ?rb \<in> set bs"
    using new assms(5) act trim_space_uuid [OF assms(2)]
    by (auto simp: role_bindings_of_def intro!: bexI [of _ b] image_eqI [of _ _ r])
  then have "holds (db_store db') u p s"
    using assms(6,9) by (auto simp: holds_def db_store_def binding_grants_def intro!: bexI [of _ ?rb])
  then show ?thesis using authorize_iff [of "db_store db'" None u p s] assms(2,7,8) by simp
qed

theorem binding_takes_effect_witness:
  "fst (authorize (db_store ex_db_granted) None ex_nobody ''user.manage'' (tenant_scope ex_admin)) = Inr ()"
proof -
  obtain b where "create_role_binding (ex_ask ex_operator) ''4'' ex_nobody ''operator'' ''global'' [] [] ex_db
      = Inr ((b, False), ex_db_granted)"
    using ex_grant_new by blast
  then show ?thesis
    by (rule binding_takes_effect [where r = "ex_role ''2'' ''operator'' False [''rbac.manage'', ''user.manage'']"])
      code_simp+
qed

text \<open>
  Granting is idempotent. Asking again for a binding that was just created, by the same actor, is
  answered with the binding that exists, marked as replayed, and changes nothing.
\<close>

theorem grant_replays:
  assumes "create_role_binding q i u n ty t pr db = Inr ((b, False), db')"
    and "ar_actor q' = ar_actor q"
  shows "create_role_binding q' j u n ty t pr db' = Inr ((b, True), db')"
proof -
  note new = create_role_binding_new [OF assms(1)]
  note guards = create_role_binding_guards [OF assms(1)]
  have "effective db sc a \<subseteq> effective db' sc a" for sc a
    using new by (auto simp: effective_def active_user_def carried_def)
  then have held: "set (actor_permissions db (ar_actor q)) \<subseteq> set (actor_permissions db' (ar_actor q))"
    by (simp add: set_actor_permissions)
  have "set (global_administrators db) \<subseteq> set (global_administrators db')"
    using new by (auto simp: set_global_administrators active_user_def holds_admin_def)
  then have "ensure_global_admin_grant_allowed db' (ar_actor q') n ty = Inr ()"
    using guards assms(2) by (auto simp: ensure_global_admin_grant_allowed_def split: if_splits)
  moreover obtain r x where rx: "find_role_by_name db n = Some r" "find_user db u = Some x"
    and "ensure_actor_may_grant (role_permissions r) (actor_permissions db (ar_actor q)) = Inr ()"
    using guards by blast
  moreover from this(3) have "set (role_permissions r) \<subseteq> set (actor_permissions db' (ar_actor q'))"
    using may_grant_guard held assms(2) by fastforce
  then have "ensure_actor_may_grant (role_permissions r) (actor_permissions db' (ar_actor q')) = Inr ()"
    by (auto simp: ensure_actor_may_grant_def beyond_def sort_filter_empty)
  moreover have "find_role_by_name db' n = Some r" "find_user db' u = Some x"
    using rx new by (simp_all add: find_role_by_name_def find_user_def)
  moreover define row where "row = \<lparr>bd_id = uuid_text j, bd_subject = uuid_text u, bd_role = n, bd_scope = ty,
    bd_tenant = nullif_uuid t, bd_project = nullif_uuid pr, bd_created = ar_now q'\<rparr>"
  moreover have same: "same_binding row = same_binding b"
    using new by (intro ext) (simp add: same_binding_def row_def)
  then have "find (same_binding row) (db_bindings db') = Some b"
    using new by (simp add: find_append same_binding_def)
  moreover have "binding_row_ok row"
    using guards new by (simp add: binding_row_ok_def row_def)
  ultimately show ?thesis
    by (simp add: create_role_binding_def row_def Let_def)
qed

theorem grant_replays_witness:
  "\<exists>b. create_role_binding (ex_ask ex_operator) ''9'' ex_nobody ''operator'' ''global'' [] [] ex_db_granted
         = Inr ((b, True), ex_db_granted)"
proof -
  obtain b where "create_role_binding (ex_ask ex_operator) ''4'' ex_nobody ''operator'' ''global'' [] [] ex_db
      = Inr ((b, False), ex_db_granted)"
    using ex_grant_new by blast
  from grant_replays [OF this refl] show ?thesis by blast
qed

subsection \<open>Accountability\<close>

definition audited_by :: "actor_request \<Rightarrow> access_db \<Rightarrow> access_db \<Rightarrow> bool" where
  "audited_by q db db' \<longleftrightarrow>
     (\<exists>a. db_audits db' = db_audits db @ [a] \<and> au_actor a = uuid_text (ar_actor q)
        \<and> au_request a = ar_request q \<and> au_at a = ar_now q \<and> au_result a = ''succeeded'')"

lemma audited_byI [intro!]:
  "db_audits db1 = db_audits db \<Longrightarrow> audited_by q db (insert_audit (global_audit q x y z) db1)"
  by (simp add: audited_by_def global_audit_def)

lemma role_binding_audit_audited:
  "role_binding_audit q x b = Inr a \<Longrightarrow> db_audits db1 = db_audits db \<Longrightarrow> audited_by q db (insert_audit a db1)"
  by (auto simp: audited_by_def role_binding_audit_def split: if_splits)

lemma write_user_audits: "write_user w u f db = Inr (x, db1) \<Longrightarrow> db_audits db1 = db_audits db"
  by (auto dest: write_user_Inr)

lemma user_ops_audited:
  "create_user q i n d h db = Inr (x, db') \<Longrightarrow> audited_by q db db'"
  "update_user q u d db = Inr (x, db') \<Longrightarrow> audited_by q db db'"
  "unlock_user q u db = Inr (x, db') \<Longrightarrow> audited_by q db db'"
  "reset_user_password q u h db = Inr (x, db') \<Longrightarrow> audited_by q db db'"
  by (auto simp: create_user_def update_user_def unlock_user_def reset_user_password_def and_then_eq_Inr
      Let_def split: if_splits option.splits dest: write_user_audits)

lemma delete_user_audited: "delete_user q u db = Inr (x, db') \<Longrightarrow> audited_by q db db'"
  by (auto simp: delete_user_def and_then_eq_Inr Let_def audited_by_def global_audit_def
      split: if_splits option.splits)

lemma set_user_status_audited:
  assumes "set_user_status q u s db = Inr (x, db')"
  shows "audited_by q db db'"
proof -
  from assms obtain r where r: "find_user db u = Some r"
    by (cases "find_user db u") (simp_all add: set_user_status_def)
  from assms obtain y db1 f where w: "write_user ''update managed user status'' u f db = Inr (y, db1)"
    and db': "db' = insert_audit (global_audit q ''user.status.update'' ''user'' (uuid_text u))
                (if s = ''disabled'' then revoke_user_sessions u (ar_now q) db1 else db1)"
    by (simp add: set_user_status_def r and_then_eq_Inr Let_def split: if_split_asm) fastforce+
  show ?thesis unfolding db' by (rule audited_byI) (simp add: write_user_audits [OF w])
qed

lemma role_ops_audited:
  "create_role q i n d t ps db = Inr (y, db') \<Longrightarrow> audited_by q db db'"
  "update_role q i d t ps db = Inr (y, db') \<Longrightarrow> audited_by q db db'"
  by (auto simp: create_role_def update_role_def and_then_eq_Inr Let_def split: if_splits option.splits)

lemma delete_role_audited: "delete_role q i db = Inr (y, db') \<Longrightarrow> audited_by q db db'"
  by (auto simp: delete_role_def audited_by_def global_audit_def split: if_splits option.splits)

lemma binding_ops_audited:
  "create_role_binding q i u n ty t pr db = Inr (z, db') \<Longrightarrow> db' = db \<or> audited_by q db db'"
  "delete_role_binding q i db = Inr (b, db') \<Longrightarrow> audited_by q db db'"
  by (auto simp: create_role_binding_def delete_role_binding_def and_then_eq_Inr Let_def
      split: if_splits option.splits intro: role_binding_audit_audited)

lemmas ops_audited = user_ops_audited delete_user_audited set_user_status_audited role_ops_audited
  delete_role_audited binding_ops_audited(2)

text \<open>
  Nothing happens off the record. Every committed write either changed nothing at all, which is a
  replayed grant, or appended exactly one audit row that names the actor, the request and the time.
\<close>

theorem committed_write_is_audited:
  assumes "run_op q op db = Some db'"
  shows "db' = db \<or> audited_by q db db'"
  using assms by (cases op) (auto simp: committed_iff dest: ops_audited binding_ops_audited(1))

theorem committed_write_is_audited_witness:
  "audited_by (ex_ask ex_admin) ex_db ex_db_disabled"
proof -
  have "length (db_audits ex_db_disabled) \<noteq> length (db_audits ex_db)" by code_simp
  then have "ex_db_disabled \<noteq> ex_db" by auto
  then show ?thesis using committed_write_is_audited [OF ex_disable_runs] by blast
qed

end
