(* ===== verification/AccessMgmt.thy ===== *)
theory AccessMgmt
  imports AccessSafety
begin

section \<open>The access-management service\<close>

text \<open>
  \<open>pkg/server/accessmanagement\<close>: the validation, the early permission ceiling and the error mapping
  that stand in front of the transactions of \<open>AccessStore\<close>. The password hash and the normalisation of
  a user name (Argon2 and Unicode NFKC, in \<open>pkg/server/auth\<close> and third-party packages) are arguments.
  An error that carries the names of permissions carries the text \<open>Detail\<close> returns.
\<close>

datatype am_error =
    AmInvalidInput | AmNotFound | AmConflict | AmLastAdmin | AmGlobalAdminRequired
  | AmSelfDisable | AmSelfDelete | AmSelfUnbind | AmSelfLockout string
  | AmRoleUnreachableAtScope string | AmTargetAuthorityExceeded | AmRoleBuiltin | AmRoleInUse
  | AmPermissionEscalation string | AmPermissionRevocation string
  | AmStore access_error | AmAuthority rbac_error | AmFailure string

subsection \<open>Input validation\<close>

definition max_display_name_bytes :: nat where "max_display_name_bytes = 253"
definition max_role_description_bytes :: nat where "max_role_description_bytes = 1024"
definition max_role_name_bytes :: nat where "max_role_name_bytes = 63"

definition valid_display_name :: "string \<Rightarrow> bool" where
  "valid_display_name v \<longleftrightarrow> trim_space v = v \<and> 0 < length v \<and> length v \<le> max_display_name_bytes"

definition valid_actor_request :: "actor_request \<Rightarrow> bool" where
  "valid_actor_request q \<longleftrightarrow>
     is_uuid (ar_actor q) \<and> trim_space (ar_request q) \<noteq> [] \<and> ar_now q \<noteq> zero_time"

definition valid_role_name :: "string \<Rightarrow> bool" where
  "valid_role_name n \<longleftrightarrow> length n \<le> max_role_name_bytes \<and> role_name_matches n"

definition valid_role_text :: "string \<Rightarrow> nat \<Rightarrow> bool \<Rightarrow> bool" where
  "valid_role_text v maximum required \<longleftrightarrow>
     trim_space v = v \<and> length v \<le> maximum \<and> (\<not> required \<or> v \<noteq> [])"

fun dedup_known :: "permission set \<Rightarrow> permission list \<Rightarrow> permission list option" where
  "dedup_known seen [] = Some []"
| "dedup_known seen (p # ps) =
     (if \<not> permission_valid p then None
      else if p \<in> seen then dedup_known seen ps
      else map_option (Cons p) (dedup_known (insert p seen) ps))"

definition normalized_permissions :: "permission list \<Rightarrow> am_error + permission list" where
  "normalized_permissions ps =
     (if ps = [] \<or> length all_permissions < length ps then Inl AmInvalidInput
      else case dedup_known {} ps of None \<Rightarrow> Inl AmInvalidInput | Some r \<Rightarrow> Inr (sort r))"

definition valid_role_scope :: "string \<Rightarrow> string \<Rightarrow> string \<Rightarrow> string \<Rightarrow> bool" where
  "valid_role_scope role ty tenant project \<longleftrightarrow>
     valid_role_name role
     \<and> (if ty = ''global'' then tenant = [] \<and> project = []
        else if ty = ''tenant'' then is_uuid tenant \<and> project = []
        else if ty = ''project'' then is_uuid tenant \<and> is_uuid project
        else False)"

text \<open>\<open>strings.Join(names, ", ")\<close>.\<close>

fun join_comma :: "string list \<Rightarrow> string" where
  "join_comma [] = []"
| "join_comma [s] = s"
| "join_comma (s # t # r) = s @ '', '' @ join_comma (t # r)"

definition ensure_scope_can_carry :: "string \<Rightarrow> permission list \<Rightarrow> am_error + unit" where
  "ensure_scope_can_carry ty ps =
     (let inert = filter (\<lambda>p. inert_at p ty) ps in
      if ps = [] \<or> length inert \<noteq> length ps then Inr ()
      else Inl (AmRoleUnreachableAtScope (join_comma (sort inert))))"

text \<open>
  \<open>authority\<close> is the configured \<open>PermissionAuthority\<close>: the authorization service over the store it
  reads, or \<open>None\<close> when it was never supplied.
\<close>

definition ensure_within_actor_ceiling ::
    "rbac_store option \<Rightarrow> string \<Rightarrow> permission list \<Rightarrow> am_error + unit" where
  "ensure_within_actor_ceiling authority actor ps =
     (case authority of
        None \<Rightarrow> Inl (AmFailure ''role management has no permission authority configured'')
      | Some st \<Rightarrow>
          (case fst (global_permissions st None actor) of
             Inl e \<Rightarrow> Inl (AmAuthority e)
           | Inr held \<Rightarrow>
               (let exceeded = filter (\<lambda>p. p \<notin> held) ps in
                if exceeded = [] then Inr () else Inl (AmPermissionEscalation (join_comma exceeded)))))"

subsection \<open>Error mapping\<close>

definition role_write_error :: "access_error \<Rightarrow> am_error" where
  "role_write_error e =
     (case e of
        RoleNotFound \<Rightarrow> AmNotFound
      | RoleConflict \<Rightarrow> AmConflict
      | RoleBuiltin \<Rightarrow> AmRoleBuiltin
      | RoleInUse \<Rightarrow> AmRoleInUse
      | LastGlobalAdmin \<Rightarrow> AmLastAdmin
      | SelfLockout ps \<Rightarrow> AmSelfLockout (join_comma ps)
      | RoleGrantForbidden ps \<Rightarrow> AmPermissionEscalation (join_comma ps)
      | RoleRevokeForbidden ps \<Rightarrow> AmPermissionRevocation (join_comma ps)
      | AccessStateConflict \<Rightarrow> AmConflict
      | _ \<Rightarrow> AmStore e)"

text \<open>
  \<open>userFromStore\<close>: a lock whose end has passed is reported as no lock.
\<close>

definition user_from_store :: "user_row \<Rightarrow> time \<Rightarrow> user_row" where
  "user_from_store r now =
     (if user_status r = ''locked''
         \<and> (case user_lock_expires r of None \<Rightarrow> True | Some t \<Rightarrow> \<not> now < t)
      then r\<lparr>user_status := ''active'', user_locked_at := None, user_lock_expires := None\<rparr>
      else r)"

definition map_user_mutation ::
    "time \<Rightarrow> user_row transaction \<Rightarrow> am_error + user_row \<times> access_db" where
  "map_user_mutation now t =
     (case t of
        Inr (item, db) \<Rightarrow> Inr (user_from_store item now, db)
      | Inl e \<Rightarrow> Inl (case e of
            AccessUserNotFound \<Rightarrow> AmNotFound
          | AccessStateConflict \<Rightarrow> AmConflict
          | LastGlobalAdmin \<Rightarrow> AmLastAdmin
          | GlobalAdminRequired \<Rightarrow> AmGlobalAdminRequired
          | TargetAuthorityExceeded \<Rightarrow> AmTargetAuthorityExceeded
          | _ \<Rightarrow> AmStore e))"

definition map_role_write :: "role_row transaction \<Rightarrow> am_error + role_row \<times> access_db" where
  "map_role_write t = (case t of Inr r \<Rightarrow> Inr r | Inl e \<Rightarrow> Inl (role_write_error e))"

subsection \<open>Operations\<close>

text \<open>\<open>new_id\<close> is what \<open>identifier.NewUUID\<close> delivered, or its error.\<close>

definition svc_create_user ::
    "(string \<Rightarrow> string option) \<Rightarrow> (string \<Rightarrow> am_error + string) \<Rightarrow> string + string \<Rightarrow> actor_request
       \<Rightarrow> string \<Rightarrow> string \<Rightarrow> string \<Rightarrow> access_db \<Rightarrow> am_error + user_row \<times> access_db" where
  "svc_create_user norm_name hash new_id q name display password db =
     (case norm_name name of
        None \<Rightarrow> Inl AmInvalidInput
      | Some n \<Rightarrow>
          if \<not> valid_display_name display \<or> \<not> valid_actor_request q then Inl AmInvalidInput
          else and_then (hash password) (\<lambda>h.
               case new_id of
                 Inl e \<Rightarrow> Inl (AmFailure e)
               | Inr i \<Rightarrow>
                   (case create_user q i n display h db of
                      Inr (item, db') \<Rightarrow> Inr (user_from_store item (ar_now q), db')
                    | Inl AccessUserConflict \<Rightarrow> Inl AmConflict
                    | Inl AccessStateConflict \<Rightarrow> Inl AmConflict
                    | Inl e \<Rightarrow> Inl (AmStore e))))"

definition svc_update_user ::
    "actor_request \<Rightarrow> string \<Rightarrow> string \<Rightarrow> access_db \<Rightarrow> am_error + user_row \<times> access_db" where
  "svc_update_user q u display db =
     (if \<not> is_uuid u \<or> \<not> valid_display_name display \<or> \<not> valid_actor_request q then Inl AmInvalidInput
      else map_user_mutation (ar_now q) (update_user q u display db))"

definition svc_delete_user ::
    "actor_request \<Rightarrow> string \<Rightarrow> bool \<Rightarrow> access_db \<Rightarrow> am_error + user_row \<times> access_db" where
  "svc_delete_user q u confirm db =
     (if \<not> confirm \<or> \<not> is_uuid u \<or> \<not> valid_actor_request q then Inl AmInvalidInput
      else if u = ar_actor q then Inl AmSelfDelete
      else map_user_mutation (ar_now q) (delete_user q u db))"

definition svc_set_user_status ::
    "actor_request \<Rightarrow> string \<Rightarrow> string \<Rightarrow> access_db \<Rightarrow> am_error + user_row \<times> access_db" where
  "svc_set_user_status q u status db =
     (if \<not> is_uuid u \<or> (status \<noteq> ''active'' \<and> status \<noteq> ''disabled'') \<or> \<not> valid_actor_request q
      then Inl AmInvalidInput
      else if u = ar_actor q \<and> status = ''disabled'' then Inl AmSelfDisable
      else map_user_mutation (ar_now q) (set_user_status q u status db))"

definition svc_unlock_user ::
    "actor_request \<Rightarrow> string \<Rightarrow> bool \<Rightarrow> access_db \<Rightarrow> am_error + user_row \<times> access_db" where
  "svc_unlock_user q u confirm db =
     (if \<not> confirm \<or> \<not> is_uuid u \<or> \<not> valid_actor_request q then Inl AmInvalidInput
      else map_user_mutation (ar_now q) (unlock_user q u db))"

definition svc_reset_user_password ::
    "(string \<Rightarrow> am_error + string) \<Rightarrow> actor_request \<Rightarrow> string \<Rightarrow> string \<Rightarrow> bool \<Rightarrow> access_db
       \<Rightarrow> am_error + user_row \<times> access_db" where
  "svc_reset_user_password hash q u password confirm db =
     (if \<not> confirm \<or> \<not> is_uuid u \<or> \<not> valid_actor_request q then Inl AmInvalidInput
      else and_then (hash password) (\<lambda>h.
           map_user_mutation (ar_now q) (reset_user_password q u h db)))"

definition svc_create_role ::
    "rbac_store option \<Rightarrow> string + string \<Rightarrow> actor_request \<Rightarrow> string \<Rightarrow> string \<Rightarrow> string \<Rightarrow> permission list
       \<Rightarrow> bool \<Rightarrow> access_db \<Rightarrow> am_error + role_row \<times> access_db" where
  "svc_create_role authority new_id q name display description permissions confirm db =
     and_then (normalized_permissions permissions) (\<lambda>ps.
     if \<not> valid_role_name name \<or> is_builtin_role name
        \<or> \<not> valid_role_text display max_display_name_bytes True
        \<or> \<not> valid_role_text description max_role_description_bytes False
        \<or> \<not> confirm \<or> \<not> valid_actor_request q
     then Inl AmInvalidInput
     else and_then (ensure_within_actor_ceiling authority (ar_actor q) ps) (\<lambda>_.
          case new_id of
            Inl e \<Rightarrow> Inl (AmFailure e)
          | Inr i \<Rightarrow> map_role_write (create_role q i name display description ps db)))"

definition svc_update_role ::
    "actor_request \<Rightarrow> string \<Rightarrow> string \<Rightarrow> string \<Rightarrow> permission list \<Rightarrow> bool \<Rightarrow> access_db
       \<Rightarrow> am_error + role_row \<times> access_db" where
  "svc_update_role q i display description permissions confirm db =
     and_then (normalized_permissions permissions) (\<lambda>ps.
     if \<not> is_uuid i \<or> \<not> valid_role_text display max_display_name_bytes True
        \<or> \<not> valid_role_text description max_role_description_bytes False
        \<or> \<not> confirm \<or> \<not> valid_actor_request q
     then Inl AmInvalidInput
     else map_role_write (update_role q i display description ps db))"

definition svc_delete_role ::
    "actor_request \<Rightarrow> string \<Rightarrow> bool \<Rightarrow> access_db \<Rightarrow> am_error + role_row \<times> access_db" where
  "svc_delete_role q i confirm db =
     (if \<not> is_uuid i \<or> \<not> confirm \<or> \<not> valid_actor_request q then Inl AmInvalidInput
      else map_role_write (delete_role q i db))"

definition svc_create_role_binding ::
    "rbac_store option \<Rightarrow> string + string \<Rightarrow> actor_request \<Rightarrow> string \<Rightarrow> string \<Rightarrow> string \<Rightarrow> string
       \<Rightarrow> string \<Rightarrow> access_db \<Rightarrow> am_error + (binding_row \<times> bool) \<times> access_db" where
  "svc_create_role_binding authority new_id q subject role ty tenant project db =
     (if \<not> valid_role_scope role ty tenant project \<or> \<not> is_uuid subject \<or> \<not> valid_actor_request q
      then Inl AmInvalidInput
      else case find_role_by_name db role of
        None \<Rightarrow> Inl AmNotFound
      | Some r \<Rightarrow>
          and_then (ensure_within_actor_ceiling authority (ar_actor q) (role_permissions r)) (\<lambda>_.
          and_then (ensure_scope_can_carry ty (role_permissions r)) (\<lambda>_.
          case new_id of
            Inl e \<Rightarrow> Inl (AmFailure e)
          | Inr i \<Rightarrow>
              (case create_role_binding q i subject role ty tenant project db of
                 Inr x \<Rightarrow> Inr x
               | Inl e \<Rightarrow> Inl (case e of
                     AccessUserNotFound \<Rightarrow> AmNotFound
                   | RoleNotFound \<Rightarrow> AmNotFound
                   | GlobalAdminRequired \<Rightarrow> AmGlobalAdminRequired
                   | RoleGrantForbidden ps \<Rightarrow> AmPermissionEscalation (join_comma ps)
                   | RoleBindingConflict \<Rightarrow> AmConflict
                   | AccessStateConflict \<Rightarrow> AmConflict
                   | _ \<Rightarrow> AmStore e)))))"

definition svc_delete_role_binding ::
    "actor_request \<Rightarrow> string \<Rightarrow> bool \<Rightarrow> access_db \<Rightarrow> am_error + binding_row \<times> access_db" where
  "svc_delete_role_binding q i confirm db =
     (if \<not> confirm \<or> \<not> is_uuid i \<or> \<not> valid_actor_request q then Inl AmInvalidInput
      else case delete_role_binding q i db of
        Inr x \<Rightarrow> Inr x
      | Inl e \<Rightarrow> Inl (case e of
            RoleBindingNotFound \<Rightarrow> AmNotFound
          | SelfUnbind \<Rightarrow> AmSelfUnbind
          | LastGlobalAdmin \<Rightarrow> AmLastAdmin
          | GlobalAdminRequired \<Rightarrow> AmGlobalAdminRequired
          | RoleRevokeForbidden ps \<Rightarrow> AmPermissionRevocation (join_comma ps)
          | _ \<Rightarrow> AmStore e))"

section \<open>Properties\<close>

lemma dedup_known_props:
  "dedup_known seen ps = Some r \<Longrightarrow>
     distinct r \<and> set r = set ps - seen \<and> (\<forall>p \<in> set ps. permission_valid p)"
proof (induction seen ps arbitrary: r rule: dedup_known.induct)
  case (1 seen)
  then show ?case by simp
next
  case (2 seen p ps)
  then show ?case by (cases "p \<in> seen") (auto split: if_splits)
qed

lemma dedup_known_None:
  "dedup_known seen ps = None \<longleftrightarrow> (\<exists>p \<in> set ps. \<not> permission_valid p)"
  by (induction seen ps rule: dedup_known.induct) auto

text \<open>
  Normalisation keeps exactly the submitted set. It succeeds precisely on a non-empty list, no
  longer than the vocabulary, of defined permissions, and its result is that set in strict ascending
  order, so two submissions of one set store one value.
\<close>

theorem normalized_permissions_spec:
  "normalized_permissions ps = Inr r \<longleftrightarrow>
     ps \<noteq> [] \<and> length ps \<le> length all_permissions \<and> list_all permission_valid ps
     \<and> r = sorted_list_of_set (set ps)"
proof (cases "dedup_known {} ps")
  case None
  then show ?thesis
    using dedup_known_None [of "{}" ps] by (auto simp: normalized_permissions_def list_all_iff)
next
  case (Some x)
  from dedup_known_props [OF Some] have "distinct x" "set x = set ps" "list_all permission_valid ps"
    by (auto simp: list_all_iff)
  then have "sort x = sorted_list_of_set (set ps)"
    by (metis sorted_list_of_set_sort_remdups distinct_remdups_id)
  with Some \<open>list_all permission_valid ps\<close> show ?thesis by (auto simp: normalized_permissions_def)
qed

text \<open>
  No binding is created that would grant nothing. When the service creates a binding for a role
  that has permissions, some permission of the role can be exercised at a scope the binding reaches.
\<close>

theorem created_binding_is_not_inert:
  assumes "svc_create_role_binding authority new_id q subject role ty tenant project db = Inr ((b, replayed), db')"
    and "find_role_by_name db role = Some r" and "role_permissions r \<noteq> []"
  shows "\<exists>p \<in> set (role_permissions r). \<exists>s. scope_type s = minimum_scope p
           \<and> binding_applies \<lparr>rb_role = role, rb_scope_type = ty, rb_tenant = opt_text (nullif_uuid tenant),
               rb_project = opt_text (nullif_uuid project), rb_permissions = role_permissions r\<rparr> s"
proof -
  let ?rb = "\<lparr>rb_role = role, rb_scope_type = ty, rb_tenant = opt_text (nullif_uuid tenant),
               rb_project = opt_text (nullif_uuid project), rb_permissions = role_permissions r\<rparr>"
  from assms(1,2) have v: "valid_role_scope role ty tenant project"
    and c: "ensure_scope_can_carry ty (role_permissions r) = Inr ()"
    by (auto simp: svc_create_role_binding_def and_then_eq_Inr split: if_splits)
  from c assms(3) have "filter (\<lambda>p. inert_at p ty) (role_permissions r) \<noteq> role_permissions r"
    by (auto simp: ensure_scope_can_carry_def Let_def split: if_splits)
  then obtain p where p: "p \<in> set (role_permissions r)" "\<not> inert_at p ty"
    by (metis filter_True)
  have "rb_scope_type ?rb \<in> {''global'', ''tenant'', ''project''}"
    using v by (auto simp: valid_role_scope_def split: if_splits)
  then show ?thesis using p inert_lemma [of ?rb p] by auto
qed

definition ex_uuid_request :: actor_request where "ex_uuid_request = ex_ask ex_operator"

lemma ex_service_grant:
  "\<exists>b db'. svc_create_role_binding (Some (db_store ex_db)) (Inr ex_locked) ex_uuid_request ex_nobody
             ''operator'' ''global'' [] [] ex_db = Inr ((b, False), db')"
proof -
  let ?r = "svc_create_role_binding (Some (db_store ex_db)) (Inr ex_locked) ex_uuid_request ex_nobody
             ''operator'' ''global'' [] [] ex_db"
  have "\<not> isl ?r \<and> \<not> snd (fst (projr ?r))" by code_simp
  then show ?thesis by (cases ?r) auto
qed

theorem created_binding_is_not_inert_witness:
  "\<exists>p \<in> {''rbac.manage'', ''user.manage''}. \<exists>s. scope_type s = minimum_scope p
     \<and> binding_applies \<lparr>rb_role = ''operator'', rb_scope_type = ''global'', rb_tenant = [],
          rb_project = [], rb_permissions = [''rbac.manage'', ''user.manage'']\<rparr> s"
proof -
  obtain b db' where g: "svc_create_role_binding (Some (db_store ex_db)) (Inr ex_locked) ex_uuid_request ex_nobody
             ''operator'' ''global'' [] [] ex_db = Inr ((b, False), db')"
    using ex_service_grant by blast
  have "find_role_by_name ex_db ''operator''
      = Some (ex_role ''2'' ''operator'' False [''rbac.manage'', ''user.manage''])" by code_simp
  from created_binding_is_not_inert [OF g this] show ?thesis
    by (simp add: ex_role_def opt_text_def nullif_uuid_def)
qed

text \<open>
  The self rules compare identifiers as text, and the database does not. An account that names
  itself in upper case passes the check \<open>ErrSelfDisable\<close> stands behind and disables itself.
\<close>

theorem self_disable_by_letter_case:
  "\<exists>db q u item db'. db_ok db \<and> u \<noteq> ar_actor q \<and> uuid_text u = ar_actor q
     \<and> svc_set_user_status q u ''disabled'' db = Inr (item, db')
     \<and> user_id item = ar_actor q \<and> user_status item = ''disabled''"
proof -
  let ?u = "''00000000-0000-4000-8000-00000000000C''"
  let ?r = "svc_set_user_status ex_uuid_request ?u ''disabled'' ex_db"
  have "case ?r of Inl e \<Rightarrow> False | Inr (item, db') \<Rightarrow>
      user_id item = ar_actor ex_uuid_request \<and> user_status item = ''disabled''" by code_simp
  then obtain item db' where "?r = Inr (item, db')" "user_id item = ar_actor ex_uuid_request"
    "user_status item = ''disabled''" by (auto split: sum.splits)
  moreover have "?u \<noteq> ar_actor ex_uuid_request" "uuid_text ?u = ar_actor ex_uuid_request" by code_simp+
  ultimately show ?thesis using ex_db_ok by blast
qed

end
