(* ===== verification/AuthStore.thy ===== *)
theory AuthStore
  imports AccessSafety
begin

section \<open>Accounts, passwords and sessions in the store\<close>

text \<open>
  \<open>pkg/server/store/auth_session.go\<close>, \<open>auth_user.go\<close>, \<open>auth_audit.go\<close> and \<open>auth_types.go\<close>: the
  transactions of authentication, over the same tables as access management (\<open>AccessStore\<close>). An error
  is a rollback. Two clocks meet here, the Server's (\<open>time.Now\<close>, given by the caller) and the
  database's (\<open>now()\<close>, a column default), and both are parameters. A digest is the bytes it consists of;
  \<open>gen_random_uuid()\<close> is a parameter. An audit row of the system has the empty actor, one without a
  target the empty target; the client address an audit row carries is not modelled.
\<close>

datatype auth_error =
    GlobalAdministratorExists | UsernameUnavailable | CredentialsChanged
  | AuthUserNotFound | AuthSessionNotFound | AuthFailure string

record clocks =
  server_now :: time
  database_now :: time

record session_params =
  sp_user :: string
  sp_token :: string
  sp_csrf :: string
  sp_idle :: time
  sp_expires :: time

record login_params =
  lp_user :: string
  lp_hash :: string
  lp_changed :: time
  lp_replacement :: string
  lp_session :: session_params
  lp_request :: string
  lp_now :: time

record failure_params =
  fp_user :: "string option"
  fp_request :: string
  fp_now :: time
  fp_max :: int
  fp_duration :: duration

record password_params =
  pp_user :: string
  pp_session :: string
  pp_hash :: string
  pp_changed :: time
  pp_new_hash :: string
  pp_request :: string
  pp_now :: time

record setup_params =
  su_name :: string
  su_display :: string
  su_hash :: string
  su_request :: string

definition blank :: "string \<Rightarrow> bool" where "blank s \<longleftrightarrow> trim_space s = []"

definition sha256_size :: nat where "sha256_size = 32"

definition auth_audit :: "string \<Rightarrow> string \<Rightarrow> string \<Rightarrow> string \<Rightarrow> string \<Rightarrow> string \<Rightarrow> time \<Rightarrow> audit_row" where
  "auth_audit actor action target_type target result request at =
     \<lparr>au_actor = actor, au_scope = ''global'', au_tenant = None, au_project = None,
      au_action = action, au_target_type = target_type,
      au_target = (if target = [] then [] else uuid_text target),
      au_result = result, au_request = request, au_at = at\<rparr>"

subsection \<open>Locks\<close>

text \<open>
  \<open>status = 'locked' AND lock_expires_at > now\<close>, and the same with \<open>\<le>\<close>. The column is not \<open>NULL\<close> on a
  locked row; where it is, both comparisons are unknown and neither branch is taken.
\<close>

definition lock_running :: "user_row \<Rightarrow> time \<Rightarrow> bool" where
  "lock_running r now \<longleftrightarrow>
     user_status r = ''locked'' \<and> (case user_lock_expires r of None \<Rightarrow> False | Some e \<Rightarrow> now < e)"

definition lock_over :: "user_row \<Rightarrow> time \<Rightarrow> bool" where
  "lock_over r now \<longleftrightarrow>
     user_status r = ''locked'' \<and> (case user_lock_expires r of None \<Rightarrow> False | Some e \<Rightarrow> e \<le> now)"

subsection \<open>Logging in\<close>

definition validate_create_session :: "session_params \<Rightarrow> auth_error + unit" where
  "validate_create_session p =
     (if blank (sp_user p) then Inl (AuthFailure ''session user and token digests are required'')
      else if length (sp_token p) \<noteq> sha256_size then Inl (AuthFailure ''session token digest must use SHA-256'')
      else if length (sp_csrf p) \<noteq> sha256_size then Inl (AuthFailure ''CSRF token digest must use SHA-256'')
      else if sp_idle p = zero_time \<or> sp_expires p = zero_time \<or> sp_expires p < sp_idle p
      then Inl (AuthFailure ''session expiry is invalid'')
      else Inr ())"

text \<open>The foreign key of a session and the uniqueness of its identifier and digest decide the insert.\<close>

definition insert_session ::
    "time \<Rightarrow> string \<Rightarrow> session_params \<Rightarrow> access_db \<Rightarrow> auth_error + session_row \<times> access_db" where
  "insert_session now new_id p db =
     (let row = \<lparr>ses_id = uuid_text new_id, ses_user = uuid_text (sp_user p), ses_token = sp_token p,
                 ses_csrf = sp_csrf p, ses_idle = sp_idle p, ses_expires = sp_expires p,
                 ses_seen = now, ses_revoked = None, ses_created = now\<rparr> in
      if find_user db (sp_user p) = None
         \<or> list_ex (\<lambda>s. ses_id s = ses_id row \<or> ses_token s = ses_token row) (db_sessions db)
      then Inl (AuthFailure ''create user session'')
      else Inr (row, db\<lparr>db_sessions := db_sessions db @ [row]\<rparr>))"

definition login_row :: "login_params \<Rightarrow> time \<Rightarrow> user_row \<Rightarrow> bool" where
  "login_row p at r \<longleftrightarrow>
     user_id r = uuid_text (lp_user p) \<and> (user_status r = ''active'' \<or> lock_over r at)
     \<and> user_password r = lp_hash p \<and> user_password_changed r = lp_changed p"

definition logged_in_row :: "clocks \<Rightarrow> login_params \<Rightarrow> time \<Rightarrow> user_row \<Rightarrow> user_row" where
  "logged_in_row clk p at r =
     r\<lparr>user_password := (if lp_replacement p \<noteq> [] then lp_replacement p else user_password r),
       user_status := ''active'', user_failed := 0, user_locked_at := None, user_lock_expires := None,
       user_updated := max (if lp_replacement p \<noteq> [] then database_now clk else user_updated r) at\<rparr>"

definition complete_login ::
    "clocks \<Rightarrow> string \<Rightarrow> login_params \<Rightarrow> access_db \<Rightarrow> auth_error + session_row \<times> access_db" where
  "complete_login clk new_id p db =
     (let at = (if lp_now p = zero_time then server_now clk else lp_now p) in
      if blank (lp_user p) \<or> blank (lp_hash p) \<or> lp_changed p = zero_time \<or> sp_user (lp_session p) \<noteq> lp_user p
      then Inl (AuthFailure ''login credential version is required'')
      else and_then (validate_create_session (lp_session p)) (\<lambda>_.
        if blank (lp_request p) then Inl (AuthFailure ''session audit request ID is required'')
        else (case find (login_row p at) (db_users db) of
          None \<Rightarrow> Inl CredentialsChanged
        | Some r \<Rightarrow>
            if \<not> user_row_ok (logged_in_row clk p at r) then Inl (AuthFailure ''clear successful login failures'')
            else
              let cleared = db\<lparr>db_users := update_where (\<lambda>x. user_id x = uuid_text (lp_user p))
                                             (logged_in_row clk p at) (db_users db)\<rparr>;
                  unlocked = (if user_status r = ''locked''
                              then insert_audit (auth_audit [] ''auth.account.auto_unlock'' ''user''
                                     (lp_user p) ''succeeded'' (lp_request p) at) cleared
                              else cleared)
              in and_then (insert_session (database_now clk) new_id (lp_session p) unlocked) (\<lambda>(s, db').
                 Inr (s, insert_audit (auth_audit (uuid_text (lp_user p)) ''auth.login'' ''session'' (ses_id s)
                           ''succeeded'' (lp_request p) (database_now clk)) db')))))"

subsection \<open>Sessions\<close>

text \<open>The rows the \<open>UPDATE ... FROM users\<close> of \<open>FindActiveSession\<close> joins.\<close>

definition session_active :: "access_db \<Rightarrow> string \<Rightarrow> time \<Rightarrow> session_row \<Rightarrow> bool" where
  "session_active db digest now s \<longleftrightarrow>
     ses_token s = digest \<and> ses_revoked s = None \<and> now < ses_idle s \<and> now < ses_expires s
     \<and> list_ex (\<lambda>u. user_id u = ses_user s \<and> user_password_changed u \<le> ses_created s
                   \<and> user_status u = ''active'') (db_users db)"

definition touched_session :: "time \<Rightarrow> duration \<Rightarrow> session_row \<Rightarrow> session_row" where
  "touched_session now timeout s =
     s\<lparr>ses_seen := max (ses_seen s) now,
       ses_idle := min (ses_expires s) (max (ses_idle s) (now + timeout))\<rparr>"

definition find_active_session ::
    "string \<Rightarrow> time \<Rightarrow> duration \<Rightarrow> access_db \<Rightarrow> auth_error + (session_row \<times> user_row) \<times> access_db" where
  "find_active_session digest now timeout db =
     (if length digest \<noteq> sha256_size then Inl AuthSessionNotFound
      else if now = zero_time \<or> timeout \<le> 0
      then Inl (AuthFailure ''session activity time and idle timeout are required'')
      else (case find (session_active db digest now) (db_sessions db) of
        None \<Rightarrow> Inl AuthSessionNotFound
      | Some s \<Rightarrow>
          (case find (\<lambda>u. user_id u = ses_user s) (db_users db) of
            None \<Rightarrow> Inl AuthSessionNotFound
          | Some u \<Rightarrow>
              Inr ((touched_session now timeout s, u),
                   db\<lparr>db_sessions := update_where (session_active db digest now)
                                       (touched_session now timeout) (db_sessions db)\<rparr>))))"

definition revoke_authenticated_session ::
    "time \<Rightarrow> string \<Rightarrow> string \<Rightarrow> time \<Rightarrow> string \<Rightarrow> access_db \<Rightarrow> auth_error + access_db" where
  "revoke_authenticated_session dbnow session user revoked_at request db =
     (let hit = (\<lambda>s. ses_id s = uuid_text session \<and> ses_user s = uuid_text user \<and> ses_revoked s = None) in
      if blank session \<or> blank user \<or> revoked_at = zero_time \<or> blank request
      then Inl (AuthFailure ''authenticated session revocation fields are required'')
      else if length (filter hit (db_sessions db)) \<noteq> 1 then Inl AuthSessionNotFound
      else Inr (insert_audit (auth_audit (uuid_text user) ''auth.logout'' ''session'' session ''succeeded''
                                request dbnow)
                 (db\<lparr>db_sessions := update_where hit (\<lambda>s. s\<lparr>ses_revoked := Some revoked_at\<rparr>)
                                     (db_sessions db)\<rparr>)))"

subsection \<open>Changing one's own password\<close>

definition live_session_of :: "access_db \<Rightarrow> string \<Rightarrow> string \<Rightarrow> time \<Rightarrow> bool" where
  "live_session_of db session user now \<longleftrightarrow>
     list_ex (\<lambda>s. ses_id s = uuid_text session \<and> ses_user s = uuid_text user \<and> ses_revoked s = None
                 \<and> now < ses_idle s \<and> now < ses_expires s) (db_sessions db)"

definition password_row :: "access_db \<Rightarrow> password_params \<Rightarrow> user_row \<Rightarrow> bool" where
  "password_row db p r \<longleftrightarrow>
     user_id r = uuid_text (pp_user p) \<and> user_status r = ''active'' \<and> user_password r = pp_hash p
     \<and> user_password_changed r = pp_changed p
     \<and> live_session_of db (pp_session p) (pp_user p) (pp_now p)"

definition changed_password_row :: "password_params \<Rightarrow> user_row \<Rightarrow> user_row" where
  "changed_password_row p r =
     r\<lparr>user_password := pp_new_hash p, user_password_changed := pp_now p, user_failed := 0,
       user_locked_at := None, user_lock_expires := None,
       user_updated := max (user_updated r) (pp_now p)\<rparr>"

definition change_own_password :: "password_params \<Rightarrow> access_db \<Rightarrow> auth_error + access_db" where
  "change_own_password p db =
     (if blank (pp_user p) \<or> blank (pp_session p) \<or> blank (pp_hash p) \<or> pp_changed p = zero_time
         \<or> blank (pp_new_hash p) \<or> blank (pp_request p) \<or> pp_now p = zero_time
      then Inl (AuthFailure ''password change fields are required'')
      else if length (filter (password_row db p) (db_users db)) \<noteq> 1 then Inl CredentialsChanged
      else Inr (insert_audit (auth_audit (uuid_text (pp_user p)) ''auth.password.change'' ''user''
                                (uuid_text (pp_user p)) ''succeeded'' (pp_request p) (pp_now p))
                 (revoke_user_sessions (pp_user p) (pp_now p)
                   (db\<lparr>db_users := update_where (password_row db p) (changed_password_row p) (db_users db)\<rparr>))))"

subsection \<open>Failed attempts\<close>

definition record_login_audit :: "time \<Rightarrow> string option \<Rightarrow> string \<Rightarrow> string \<Rightarrow> access_db \<Rightarrow> auth_error + access_db" where
  "record_login_audit dbnow user result request db =
     (if result \<noteq> ''failed'' \<and> result \<noteq> ''denied''
      then Inl (AuthFailure ''login audit result must be failed or denied'')
      else if blank request then Inl (AuthFailure ''login audit request ID is required'')
      else Inr (insert_audit (auth_audit [] ''auth.login'' ''user'' (opt_text user) result request dbnow) db))"

definition record_password_change_audit ::
    "string \<Rightarrow> string \<Rightarrow> string \<Rightarrow> time \<Rightarrow> access_db \<Rightarrow> auth_error + access_db" where
  "record_password_change_audit user result request now db =
     (if blank user \<or> (result \<noteq> ''failed'' \<and> result \<noteq> ''denied'') \<or> blank request \<or> now = zero_time
      then Inl (AuthFailure ''password change audit fields are invalid'')
      else Inr (insert_audit (auth_audit (uuid_text user) ''auth.password.change'' ''user'' (uuid_text user)
                                result request now) db))"

text \<open>\<open>loginFailureMayLock\<close>: Go's prediction, from the row it has locked, that the statement may lock.\<close>

definition login_failure_may_lock :: "string \<Rightarrow> int \<Rightarrow> time option \<Rightarrow> time \<Rightarrow> int \<Rightarrow> bool" where
  "login_failure_may_lock status failed expires now max_failures =
     (if status = ''disabled''
         \<or> status = ''locked'' \<and> (case expires of None \<Rightarrow> False | Some e \<Rightarrow> now < e) then False
      else if status = ''locked'' \<and> (case expires of None \<Rightarrow> False | Some e \<Rightarrow> \<not> now < e)
      then max_failures \<le> 1
      else max_failures \<le> failed + 1)"

text \<open>The CTE \<open>lockable\<close>: the last active global administrator is not locked out.\<close>

definition lockable :: "access_db \<Rightarrow> string \<Rightarrow> bool" where
  "lockable db u \<longleftrightarrow>
     uuid_text u \<notin> set (global_administrators db) \<or> 1 < length (global_administrators db)"

text \<open>The four \<open>CASE\<close> expressions of the update; each of the last three takes its branches in one order.\<close>

definition failed_count :: "time \<Rightarrow> user_row \<Rightarrow> int" where
  "failed_count now r =
     (if lock_running r now then user_failed r
      else if user_status r = ''disabled'' then user_failed r
      else if lock_over r now then 1
      else user_failed r + 1)"

definition lock_branch :: "time \<Rightarrow> int \<Rightarrow> bool \<Rightarrow> user_row \<Rightarrow> 'a \<Rightarrow> 'a \<Rightarrow> 'a \<Rightarrow> 'a \<Rightarrow> 'a \<Rightarrow> 'a" where
  "lock_branch now max_failures allowed r disabled running recovered locked active =
     (if user_status r = ''disabled'' then disabled
      else if lock_running r now then running
      else if lock_over r now \<and> 1 < max_failures then recovered
      else if max_failures \<le> user_failed r + 1 \<and> allowed then locked
      else active)"

definition failed_row :: "failure_params \<Rightarrow> bool \<Rightarrow> user_row \<Rightarrow> user_row" where
  "failed_row p allowed r =
     (let now = fp_now p; at = Some (fp_now p); til = Some (fp_now p + fp_duration p) in
      r\<lparr>user_failed := failed_count now r,
        user_status := lock_branch now (fp_max p) allowed r (user_status r) (user_status r) ''active''
                         ''locked'' ''active'',
        user_locked_at := lock_branch now (fp_max p) allowed r None (user_locked_at r) None at None,
        user_lock_expires := lock_branch now (fp_max p) allowed r None (user_lock_expires r) None til None,
        user_updated := max (user_updated r) now\<rparr>)"

text \<open>
  \<open>failed_login_count + 1\<close> is an \<open>integer\<close> of 32 bits, and leaving its range fails the statement. It is
  evaluated unless an earlier branch of a \<open>CASE\<close> was taken.
\<close>

definition count_overflows :: "failure_params \<Rightarrow> user_row \<Rightarrow> bool" where
  "count_overflows p r \<longleftrightarrow>
     user_status r \<noteq> ''disabled'' \<and> \<not> lock_running r (fp_now p)
     \<and> \<not> (lock_over r (fp_now p) \<and> 1 < fp_max p) \<and> 2147483647 < user_failed r + 1"

definition newly_locked :: "failure_params \<Rightarrow> user_row \<Rightarrow> bool" where
  "newly_locked p r \<longleftrightarrow> user_status r = ''locked'' \<and> user_locked_at r = Some (fp_now p)"

definition lock_withheld :: "failure_params \<Rightarrow> bool \<Rightarrow> user_row \<Rightarrow> bool" where
  "lock_withheld p allowed r \<longleftrightarrow> user_failed r = fp_max p \<and> \<not> allowed"

definition failure_audit :: "failure_params \<Rightarrow> string \<Rightarrow> string \<Rightarrow> string \<Rightarrow> access_db \<Rightarrow> access_db" where
  "failure_audit p action result target =
     insert_audit (auth_audit [] action ''user'' target result (fp_request p) (fp_now p))"

definition fail_user :: "failure_params \<Rightarrow> string \<Rightarrow> user_row \<Rightarrow> access_db \<Rightarrow> auth_error + access_db" where
  "fail_user p u r db =
     (let allowed = lockable db u; r' = failed_row p allowed r in
      if count_overflows p r \<or> \<not> user_row_ok r'
      then Inl (AuthFailure ''record persistent login failure'')
      else
        let d1 = db\<lparr>db_users := update_where (\<lambda>x. user_id x = uuid_text u) (failed_row p allowed) (db_users db)\<rparr>;
            d2 = (if user_status r' = ''locked'' then revoke_user_sessions u (fp_now p) d1 else d1);
            d3 = (if newly_locked p r' then failure_audit p ''auth.account.lock'' ''succeeded'' u d2 else d2);
            d4 = (if lock_withheld p allowed r'
                  then failure_audit p ''auth.account.lock_withheld'' ''succeeded'' u d3 else d3)
        in Inr d4)"

definition record_login_failure :: "failure_params \<Rightarrow> access_db \<Rightarrow> auth_error + access_db" where
  "record_login_failure p db =
     (if blank (fp_request p) \<or> fp_now p = zero_time \<or> fp_max p \<le> 0 \<or> fp_duration p \<le> 0
      then Inl (AuthFailure ''login failure fields are invalid'')
      else case fp_user p of
        None \<Rightarrow> Inr (failure_audit p ''auth.login'' ''failed'' [] db)
      | Some u \<Rightarrow>
          (case find_user db u of
            None \<Rightarrow> Inr (failure_audit p ''auth.login'' ''failed'' [] db)
          | Some r \<Rightarrow> and_then (fail_user p u r db) (\<lambda>d. Inr (failure_audit p ''auth.login'' ''failed'' u d))))"

subsection \<open>The first administrator\<close>

definition has_global_administrator :: "access_db \<Rightarrow> bool" where
  "has_global_administrator db \<longleftrightarrow> list_ex (\<lambda>b. bd_role b = ''admin'' \<and> bd_scope b = ''global'') (db_bindings db)"

definition create_first_global_administrator ::
    "time \<Rightarrow> string \<Rightarrow> string \<Rightarrow> setup_params \<Rightarrow> access_db \<Rightarrow> auth_error + user_row \<times> access_db" where
  "create_first_global_administrator dbnow new_user new_binding p db =
     (let row = \<lparr>user_id = uuid_text new_user, user_name = su_name p, user_display = su_display p,
                 user_password = su_hash p, user_status = ''active'', user_failed = 0,
                 user_locked_at = None, user_lock_expires = None, user_password_changed = dbnow,
                 user_created = dbnow, user_updated = dbnow\<rparr>;
          grant = \<lparr>bd_id = uuid_text new_binding, bd_subject = user_id row, bd_role = ''admin'',
                   bd_scope = ''global'', bd_tenant = None, bd_project = None, bd_created = dbnow\<rparr> in
      if blank (su_name p) \<or> blank (su_display p) \<or> su_hash p = [] \<or> blank (su_request p)
      then Inl (AuthFailure ''global administrator setup fields are required'')
      else if has_global_administrator db then Inl GlobalAdministratorExists
      else if list_ex (\<lambda>r. user_name r = su_name p) (db_users db) then Inl UsernameUnavailable
      else if \<not> user_row_ok row \<or> list_ex (\<lambda>r. user_id r = user_id row) (db_users db)
      then Inl (AuthFailure ''insert global administrator'')
      else if ''admin'' \<notin> role_name ` set (db_roles db)
              \<or> list_ex (\<lambda>b. bd_id b = bd_id grant \<or> same_binding b grant) (db_bindings db)
      then Inl (AuthFailure ''grant global administrator role'')
      else Inr (row, insert_audit (auth_audit (user_id row) ''auth.administrator.setup'' ''user'' (user_id row)
                                     ''succeeded'' (su_request p) dbnow)
                       (db\<lparr>db_users := db_users db @ [row], db_bindings := db_bindings db @ [grant]\<rparr>)))"

definition find_user_by_username :: "access_db \<Rightarrow> string \<Rightarrow> auth_error + user_row" where
  "find_user_by_username db n =
     (case find (\<lambda>r. user_name r = n) (db_users db) of None \<Rightarrow> Inl AuthUserNotFound | Some r \<Rightarrow> Inr r)"

definition find_user_by_id :: "access_db \<Rightarrow> string \<Rightarrow> auth_error + user_row" where
  "find_user_by_id db u = (case find_user db u of None \<Rightarrow> Inl AuthUserNotFound | Some r \<Rightarrow> Inr r)"

end
