(* ===== verification/Encoding.thy ===== *)
theory Encoding
  imports Prelude
begin

section \<open>Decimal numbers and base64 text\<close>

text \<open>
  What the sources use of \<open>strconv\<close>, \<open>strings.Cut\<close> and \<open>encoding/base64\<close>: \<open>Itoa\<close>, \<open>Atoi\<close> with its
  optional sign and its range error, and \<open>RawURLEncoding\<close>, whose decoder skips line ends, ignores
  trailing bits and refuses anything outside its alphabet. Each pair is proved to round-trip.
\<close>

subsection \<open>Decimal numbers\<close>

definition digit_char :: "nat \<Rightarrow> char" where
  "digit_char d = char_of (48 + d)"

definition digit_value :: "char \<Rightarrow> nat option" where
  "digit_value c = (if is_digit c then Some (of_char c - 48) else None)"

fun nat_digits :: "nat \<Rightarrow> string" where
  "nat_digits n = (if n < 10 then [digit_char n] else nat_digits (n div 10) @ [digit_char (n mod 10)])"

declare nat_digits.simps [simp del]

definition itoa :: "int \<Rightarrow> string" where
  "itoa i = (if i < 0 then CHR ''-'' # nat_digits (nat (- i)) else nat_digits (nat i))"

fun digits_value :: "nat \<Rightarrow> string \<Rightarrow> nat option" where
  "digits_value acc [] = Some acc"
| "digits_value acc (c # cs) =
     (case digit_value c of None \<Rightarrow> None | Some d \<Rightarrow> digits_value (acc * 10 + d) cs)"

definition atoi :: "string \<Rightarrow> int option" where
  "atoi s =
     (let neg = (s \<noteq> [] \<and> hd s = CHR ''-'');
          body = (if s \<noteq> [] \<and> (hd s = CHR ''-'' \<or> hd s = CHR ''+'') then tl s else s) in
      if body = [] then None
      else case digits_value 0 body of
        None \<Rightarrow> None
      | Some n \<Rightarrow>
          (let i = (if neg then - int n else int n) in
           if i < min_int64 \<or> max_int64 < i then None else Some i))"

lemma digit_value_char [simp]: "d < 10 \<Longrightarrow> digit_value (digit_char d) = Some d"
  by (simp add: digit_value_def digit_char_def is_digit_def less_eq_char_def)

lemma digits_value_append:
  "digits_value acc (xs @ [c]) =
     (case digits_value acc xs of None \<Rightarrow> None | Some n \<Rightarrow>
        (case digit_value c of None \<Rightarrow> None | Some d \<Rightarrow> Some (n * 10 + d)))"
  by (induction xs arbitrary: acc) (auto split: option.splits)

lemma digits_value_nat_digits: "digits_value 0 (nat_digits n) = Some n"
proof (induction n rule: nat_digits.induct)
  case (1 n)
  show ?case
  proof (cases "n < 10")
    case True
    then show ?thesis by (simp add: nat_digits.simps)
  next
    case False
    then show ?thesis using 1 by (subst nat_digits.simps) (simp add: digits_value_append)
  qed
qed

lemma nat_digits_head: "\<exists>d cs. d < 10 \<and> nat_digits n = digit_char d # cs"
proof (induction n rule: nat_digits.induct)
  case (1 n)
  show ?case
  proof (cases "n < 10")
    case True
    then show ?thesis by (auto simp: nat_digits.simps)
  next
    case False
    with 1 obtain d cs where "d < 10" "nat_digits (n div 10) = digit_char d # cs" by blast
    then show ?thesis using False by (subst nat_digits.simps) auto
  qed
qed

lemma digit_char_not_sign: "d < 10 \<Longrightarrow> digit_char d \<noteq> CHR ''-'' \<and> digit_char d \<noteq> CHR ''+''"
proof -
  assume "d < 10"
  then have "digit_value (digit_char d) = Some d" by simp
  moreover have "digit_value CHR ''-'' = None" "digit_value CHR ''+'' = None" by code_simp+
  ultimately show ?thesis by auto
qed

lemma atoi_itoa: "min_int64 \<le> i \<Longrightarrow> i \<le> max_int64 \<Longrightarrow> atoi (itoa i) = Some i"
proof (cases "i < 0")
  case True
  moreover assume "min_int64 \<le> i" "i \<le> max_int64"
  moreover have "nat_digits (nat (- i)) \<noteq> []" using nat_digits_head [of "nat (- i)"] by auto
  ultimately show ?thesis by (simp add: atoi_def itoa_def digits_value_nat_digits Let_def)
next
  case False
  assume "min_int64 \<le> i" "i \<le> max_int64"
  moreover obtain d cs where "d < 10" "nat_digits (nat i) = digit_char d # cs"
    using nat_digits_head by blast
  ultimately show ?thesis
    using False digits_value_nat_digits [of "nat i"] digit_char_not_sign [of d]
    by (simp add: atoi_def itoa_def Let_def)
qed

subsection \<open>Cutting at a separator\<close>

definition cut_at :: "char \<Rightarrow> string \<Rightarrow> (string \<times> string) option" where
  "cut_at c s = (if c \<in> set s then Some (takeWhile (\<lambda>x. x \<noteq> c) s, tl (dropWhile (\<lambda>x. x \<noteq> c) s)) else None)"

lemma cut_at_append: "c \<notin> set s \<Longrightarrow> cut_at c (s @ c # t) = Some (s, t)"
  by (simp add: cut_at_def takeWhile_append dropWhile_append)

subsection \<open>Base64\<close>

fun sextets :: "nat list \<Rightarrow> nat list" where
  "sextets [] = []"
| "sextets [a] = [a div 4, (a mod 4) * 16]"
| "sextets [a, b] = [a div 4, (a mod 4) * 16 + b div 16, (b mod 16) * 4]"
| "sextets (a # b # c # r) =
     a div 4 # ((a mod 4) * 16 + b div 16) # ((b mod 16) * 4 + c div 64) # c mod 64 # sextets r"

fun octets :: "nat list \<Rightarrow> nat list option" where
  "octets [] = Some []"
| "octets [x] = None"
| "octets [x, y] = Some [x * 4 + y div 16]"
| "octets [x, y, z] = Some [x * 4 + y div 16, (y mod 16) * 16 + z div 4]"
| "octets (x # y # z # w # r) =
     (case octets r of None \<Rightarrow> None
      | Some t \<Rightarrow> Some ((x * 4 + y div 16) # ((y mod 16) * 16 + z div 4) # ((z mod 4) * 64 + w) # t))"

definition sextet_char :: "nat \<Rightarrow> char" where
  "sextet_char n = ''ABCDEFGHIJKLMNOPQRSTUVWXYZabcdefghijklmnopqrstuvwxyz0123456789-_'' ! n"

definition sextet_value :: "char \<Rightarrow> nat option" where
  "sextet_value c =
     (if is_upper c then Some (of_char c - 65)
      else if is_lower c then Some (of_char c - 71)
      else if is_digit c then Some (of_char c + 4)
      else if c = CHR ''-'' then Some 62
      else if c = CHR ''_'' then Some 63
      else None)"

fun sextet_values :: "string \<Rightarrow> nat list option" where
  "sextet_values [] = Some []"
| "sextet_values (c # cs) =
     (case (sextet_value c, sextet_values cs) of (Some x, Some xs) \<Rightarrow> Some (x # xs) | _ \<Rightarrow> None)"

definition raw_url_encode :: "string \<Rightarrow> string" where
  "raw_url_encode s = map sextet_char (sextets (map of_char s))"

definition raw_url_decode :: "string \<Rightarrow> string option" where
  "raw_url_decode t =
     (case sextet_values (filter (\<lambda>c. c \<noteq> CHR 0x0A \<and> c \<noteq> CHR 0x0D) t) of
        None \<Rightarrow> None
      | Some xs \<Rightarrow> (case octets xs of None \<Rightarrow> None | Some bs \<Rightarrow> Some (map char_of bs)))"

lemma sextet_char_facts:
  "n < 64 \<Longrightarrow> sextet_value (sextet_char n) = Some n \<and> sextet_char n \<noteq> CHR 0x0A
     \<and> sextet_char n \<noteq> CHR 0x0D \<and> sextet_char n \<noteq> CHR '':''"
proof -
  assume "n < 64"
  then have "n \<in> set [0..<64]" by simp
  moreover have "\<forall>n \<in> set [0..<64]. sextet_value (sextet_char n) = Some n \<and> sextet_char n \<noteq> CHR 0x0A
     \<and> sextet_char n \<noteq> CHR 0x0D \<and> sextet_char n \<noteq> CHR '':''" by code_simp
  ultimately show ?thesis by blast
qed

lemma octets_sextets: "\<forall>b \<in> set bs. b < 256 \<Longrightarrow> octets (sextets bs) = Some bs"
proof (induction bs rule: sextets.induct)
  case (4 a b c r)
  have "((a mod 4) * 16 + b div 16) div 16 = a mod 4" "((a mod 4) * 16 + b div 16) mod 16 = b div 16"
    "((b mod 16) * 4 + c div 64) div 4 = b mod 16" "((b mod 16) * 4 + c div 64) mod 4 = c div 64"
    using 4(2) by auto
  then show ?case using 4 by simp
qed auto

lemma sextets_bound: "\<forall>b \<in> set bs. b < 256 \<Longrightarrow> \<forall>x \<in> set (sextets bs). x < 64"
proof (induction bs rule: sextets.induct)
  case (4 a b c r)
  have "(a mod 4) * 16 + b div 16 < 64" "(b mod 16) * 4 + c div 64 < 64" "a div 4 < 64" "c mod 64 < 64"
    using 4(2) by auto
  then show ?case using 4 by simp
next
  case (3 a b)
  then show ?case by auto
qed auto

lemma sextet_values_map:
  "\<forall>x \<in> set xs. x < 64 \<Longrightarrow> sextet_values (map sextet_char xs) = Some xs"
  using sextet_char_facts by (induction xs) auto

lemma raw_url_roundtrip: "raw_url_decode (raw_url_encode s) = Some s"
proof -
  let ?bs = "map of_char s :: nat list"
  have small: "\<forall>b \<in> set ?bs. b < 256" by auto
  note bound = sextets_bound [OF small]
  have "filter (\<lambda>c. c \<noteq> CHR 0x0A \<and> c \<noteq> CHR 0x0D) (map sextet_char (sextets ?bs)) = map sextet_char (sextets ?bs)"
    using bound sextet_char_facts by (auto simp: filter_id_conv)
  then show ?thesis
    by (simp add: raw_url_encode_def raw_url_decode_def sextet_values_map [OF bound] octets_sextets [OF small] comp_def)
qed

lemma raw_url_no_colon: "CHR '':'' \<notin> set (raw_url_encode s)"
proof -
  have "\<forall>b \<in> set (map of_char s :: nat list). b < 256" by auto
  from sextets_bound [OF this] have "sextet_char x \<noteq> CHR '':''" if "x \<in> set (sextets (map of_char s))" for x
    using sextet_char_facts that by blast
  then show ?thesis unfolding raw_url_encode_def set_map by (metis imageE)
qed

lemma sextets_Nil_iff [simp]: "sextets bs = [] \<longleftrightarrow> bs = []"
  by (cases bs rule: sextets.cases) auto

lemma raw_url_encode_Nil_iff: "raw_url_encode s = [] \<longleftrightarrow> s = []"
  by (simp add: raw_url_encode_def)

text \<open>
  \<open>RawStdEncoding.Strict()\<close>: the other two characters for 62 and 63, and the bits the last sextet has
  left over must be zero. Line ends are still skipped.
\<close>

definition std_of_url :: "char \<Rightarrow> char" where
  "std_of_url c = (if c = CHR ''-'' then CHR ''+'' else if c = CHR ''_'' then CHR ''/'' else c)"

definition url_of_std :: "char \<Rightarrow> char" where
  "url_of_std c =
     (if c = CHR ''+'' then CHR ''-'' else if c = CHR ''/'' then CHR ''_''
      else if c = CHR ''-'' \<or> c = CHR ''_'' then CHR ''='' else c)"

definition raw_std_encode :: "string \<Rightarrow> string" where
  "raw_std_encode s = map std_of_url (raw_url_encode s)"

definition raw_std_decode_strict :: "string \<Rightarrow> string option" where
  "raw_std_decode_strict t =
     (case sextet_values (map url_of_std (filter (\<lambda>c. c \<noteq> CHR 0x0A \<and> c \<noteq> CHR 0x0D) t)) of
        None \<Rightarrow> None
      | Some xs \<Rightarrow> (case octets xs of None \<Rightarrow> None
                   | Some bs \<Rightarrow> if sextets bs = xs then Some (map char_of bs) else None))"

lemma std_sextet_facts:
  assumes "n < 64"
  shows "url_of_std (std_of_url (sextet_char n)) = sextet_char n \<and> std_of_url (sextet_char n) \<noteq> CHR 0x0A
     \<and> std_of_url (sextet_char n) \<noteq> CHR 0x0D \<and> std_of_url (sextet_char n) \<noteq> CHR ''$''"
proof -
  have "n \<in> set [0..<64]" using assms by simp
  moreover have "\<forall>n \<in> set [0..<64]. url_of_std (std_of_url (sextet_char n)) = sextet_char n
     \<and> std_of_url (sextet_char n) \<noteq> CHR 0x0A \<and> std_of_url (sextet_char n) \<noteq> CHR 0x0D
     \<and> std_of_url (sextet_char n) \<noteq> CHR ''$''" by code_simp
  ultimately show ?thesis by blast
qed

lemma raw_std_roundtrip: "raw_std_decode_strict (raw_std_encode s) = Some s"
proof -
  let ?bs = "map of_char s :: nat list"
  have small: "\<forall>b \<in> set ?bs. b < 256" by auto
  note bound = sextets_bound [OF small]
  have keep: "filter (\<lambda>c. c \<noteq> CHR 0x0A \<and> c \<noteq> CHR 0x0D) (raw_std_encode s) = raw_std_encode s"
    using bound std_sextet_facts by (auto simp: raw_std_encode_def raw_url_encode_def filter_id_conv)
  have undone: "map url_of_std (raw_std_encode s) = map sextet_char (sextets ?bs)"
    using bound std_sextet_facts by (auto simp: raw_std_encode_def raw_url_encode_def)
  show ?thesis
    unfolding raw_std_decode_strict_def keep undone sextet_values_map [OF bound]
    by (simp add: octets_sextets [OF small] comp_def)
qed

lemma raw_std_no_dollar: "CHR ''$'' \<notin> set (raw_std_encode s)"
proof -
  have "\<forall>b \<in> set (map of_char s :: nat list). b < 256" by auto
  from sextets_bound [OF this] have "std_of_url (sextet_char x) \<noteq> CHR ''$''" if "x \<in> set (sextets (map of_char s))" for x
    using std_sextet_facts that by blast
  then show ?thesis unfolding raw_std_encode_def raw_url_encode_def set_map by (metis imageE)
qed

lemma nat_digits_chars: "c \<in> set (nat_digits n) \<Longrightarrow> \<exists>d. d < 10 \<and> c = digit_char d"
proof (induction n rule: nat_digits.induct)
  case (1 n)
  show ?case
  proof (cases "n < 10")
    case True
    then show ?thesis using 1(2) by (subst (asm) nat_digits.simps) auto
  next
    case False
    then have "c \<in> set (nat_digits (n div 10)) \<or> c = digit_char (n mod 10)"
      using 1(2) by (subst (asm) nat_digits.simps) auto
    then show ?thesis using 1(1) [OF False] by (metis mod_less_divisor zero_less_numeral)
  qed
qed

lemma not_in_nat_digits: "digit_value c = None \<Longrightarrow> c \<notin> set (nat_digits n)"
  using nat_digits_chars by force

end
