(* ===== verification/MetricsRewrite.thy ===== *)
theory MetricsRewrite
  imports Prelude "HOL-Library.Word"
begin

section \<open>Rewriting a metrics batch\<close>

text \<open>
  \<open>pkg/server/metricsingest/rewrite.go\<close>: the Server checks an uncompressed remote-write request and
  replaces the scope labels of every series by its own, copying what it does not need to understand.
  The protobuf wire primitives (\<open>protowire\<close>) are an argument: a record of what they answer on a byte
  string, \<open>None\<close> for a negative size. Byte strings are \<open>string\<close>.
\<close>

unbundle bit_operations_syntax

record wire =
  w_tag :: "string \<Rightarrow> (int \<times> int \<times> nat) option"
  w_bytes :: "string \<Rightarrow> (string \<times> nat) option"
  w_varint :: "string \<Rightarrow> (64 word \<times> nat) option"
  w_field :: "int \<Rightarrow> int \<Rightarrow> string \<Rightarrow> nat option"
  w_put_tag :: "int \<Rightarrow> int \<Rightarrow> string"
  w_put_bytes :: "string \<Rightarrow> string"

definition varint_type :: int where "varint_type = 0"
definition bytes_type :: int where "bytes_type = 2"

datatype metrics_error = ErrPayloadInvalid string | ErrPayloadTooLarge string

definition scope_label_prefix :: string where "scope_label_prefix = ''zke_''"

record batch_limits =
  bl_max_series :: int
  bl_max_samples :: int
  bl_max_labels :: int
  bl_max_name :: int
  bl_max_value :: int
  bl_max_age :: duration
  bl_max_future :: duration

record metric_label =
  lb_name :: string
  lb_value :: string

record batch_stats =
  bs_series :: int
  bs_samples :: int
  bs_hashes :: "64 word list"

subsection \<open>Labels and samples\<close>

definition label_start :: "char \<Rightarrow> bool" where
  "label_start c \<longleftrightarrow> is_lower c \<or> is_upper c \<or> c = CHR ''_''"

definition valid_label_name :: "string \<Rightarrow> bool" where
  "valid_label_name n \<longleftrightarrow>
     (case n of [] \<Rightarrow> False | c # cs \<Rightarrow> label_start c \<and> list_all (\<lambda>d. label_start d \<or> is_digit d) cs)"

text \<open>
  A loop over the fields of a message: \<open>step\<close> handles the first field of what is left. The loop may not
  end, since nothing here says that a step consumes anything; a step that calls another loop is itself
  partial.
\<close>

partial_function (option) scan_fields ::
    "(string \<Rightarrow> 'a \<Rightarrow> ('e + string \<times> 'a) option) \<Rightarrow> string \<Rightarrow> 'a \<Rightarrow> ('e + 'a) option" where
  "scan_fields step rest a =
     (if rest = [] then Some (Inr a)
      else Option.bind (step rest a)
             (\<lambda>r. case r of Inl e \<Rightarrow> Some (Inl e) | Inr x \<Rightarrow> scan_fields step (fst x) (snd x)))"

declare scan_fields.simps [code]

definition parse_label_step :: "wire \<Rightarrow> string \<Rightarrow> metric_label \<Rightarrow> (metrics_error + string \<times> metric_label) option" where
  "parse_label_step w rest l =
     Some (case w_tag w rest of
       None \<Rightarrow> Inl (ErrPayloadInvalid ''malformed label field'')
     | Some (number, kind, c) \<Rightarrow>
         (let r = drop c rest in
          if kind = bytes_type \<and> (number = 1 \<or> number = 2)
          then (case w_bytes w r of
                  None \<Rightarrow> Inl (ErrPayloadInvalid ''malformed label value'')
                | Some (v, z) \<Rightarrow> Inr (drop z r, if number = 1 then l\<lparr>lb_name := v\<rparr> else l\<lparr>lb_value := v\<rparr>))
          else (case w_field w number kind r of
                  None \<Rightarrow> Inl (ErrPayloadInvalid ''malformed label field'')
                | Some z \<Rightarrow> Inr (drop z r, l))))"

definition no_label :: metric_label where "no_label = \<lparr>lb_name = [], lb_value = []\<rparr>"

definition check_label :: "batch_limits \<Rightarrow> metric_label \<Rightarrow> metrics_error + metric_label" where
  "check_label lim l =
     (if \<not> valid_label_name (lb_name l) then Inl (ErrPayloadInvalid ''invalid label name'')
      else if bl_max_name lim < int (length (lb_name l)) then Inl (ErrPayloadTooLarge ''label name'')
      else if bl_max_value lim < int (length (lb_value l)) then Inl (ErrPayloadTooLarge ''label value'')
      else if \<not> valid_utf8 (map of_char (lb_value l)) then Inl (ErrPayloadInvalid ''label value is not valid UTF-8'')
      else Inr l)"

definition parse_label :: "wire \<Rightarrow> batch_limits \<Rightarrow> string \<Rightarrow> (metrics_error + metric_label) option" where
  "parse_label w lim encoded =
     Option.bind (scan_fields (parse_label_step w) encoded no_label)
       (\<lambda>r. Some (and_then r (check_label lim)))"

definition sample_step :: "wire \<Rightarrow> string \<Rightarrow> int option \<Rightarrow> (metrics_error + string \<times> int option) option" where
  "sample_step w rest ts =
     Some (case w_tag w rest of
       None \<Rightarrow> Inl (ErrPayloadInvalid ''malformed sample field'')
     | Some (number, kind, c) \<Rightarrow>
         (let r = drop c rest in
          if number = 2 \<and> kind = varint_type
          then (case w_varint w r of
                  None \<Rightarrow> Inl (ErrPayloadInvalid ''malformed sample timestamp'')
                | Some (v, z) \<Rightarrow> Inr (drop z r, Some (sint v)))
          else (case w_field w number kind r of
                  None \<Rightarrow> Inl (ErrPayloadInvalid ''malformed sample field'')
                | Some z \<Rightarrow> Inr (drop z r, ts))))"

definition check_timestamp :: "batch_limits \<Rightarrow> time \<Rightarrow> int option \<Rightarrow> metrics_error + unit" where
  "check_timestamp lim now ts =
     (case ts of
        None \<Rightarrow> Inl (ErrPayloadInvalid ''sample has no timestamp'')
      | Some t \<Rightarrow>
          if t \<le> 0 then Inl (ErrPayloadInvalid ''sample has no timestamp'')
          else if now + bl_max_future lim < t * millisecond then Inl (ErrPayloadInvalid ''sample timestamp is in the future'')
          else if t * millisecond < now - bl_max_age lim then Inl (ErrPayloadInvalid ''sample timestamp is too old'')
          else Inr ())"

definition validate_sample :: "wire \<Rightarrow> batch_limits \<Rightarrow> time \<Rightarrow> string \<Rightarrow> (metrics_error + unit) option" where
  "validate_sample w lim now encoded =
     Option.bind (scan_fields (sample_step w) encoded None) (\<lambda>r. Some (and_then r (check_timestamp lim now)))"

text \<open>FNV-1a over the sorted labels.\<close>

definition fnv_offset :: "64 word" where "fnv_offset = 14695981039346656037"
definition fnv_prime :: "64 word" where "fnv_prime = 1099511628211"

definition fnv_byte :: "64 word \<Rightarrow> 64 word \<Rightarrow> 64 word" where
  "fnv_byte b h = (h XOR b) * fnv_prime"

definition hash_labels :: "metric_label list \<Rightarrow> 64 word" where
  "hash_labels ls =
     fold (\<lambda>l h. fnv_byte 254 (fold (\<lambda>c. fnv_byte (of_nat (of_char c))) (lb_value l)
                  (fnv_byte 255 (fold (\<lambda>c. fnv_byte (of_nat (of_char c))) (lb_name l) h)))) ls fnv_offset"

subsection \<open>A time series\<close>

record series_scan =
  sc_labels :: "metric_label list"
  sc_tail :: string
  sc_stats :: batch_stats

definition kept_label :: "metric_label \<Rightarrow> bool" where
  "kept_label l \<longleftrightarrow> \<not> has_prefix (lb_name l) scope_label_prefix \<and> lb_value l \<noteq> []"

definition series_step ::
    "wire \<Rightarrow> batch_limits \<Rightarrow> time \<Rightarrow> string \<Rightarrow> series_scan \<Rightarrow> (metrics_error + string \<times> series_scan) option" where
  "series_step w lim now rest s =
     (case w_tag w rest of
        None \<Rightarrow> Some (Inl (ErrPayloadInvalid ''malformed series field tag''))
      | Some (number, kind, c) \<Rightarrow>
          (let r = drop c rest in
           if number = 1 \<and> kind = bytes_type
           then (case w_bytes w r of
                   None \<Rightarrow> Some (Inl (ErrPayloadInvalid ''malformed label''))
                 | Some (v, z) \<Rightarrow>
                     Option.bind (parse_label w lim v)
                       (\<lambda>p. case p of
                          Inl e \<Rightarrow> Some (Inl e)
                        | Inr l \<Rightarrow> Some (Inr (drop z r, if kept_label l then s\<lparr>sc_labels := sc_labels s @ [l]\<rparr> else s))))
           else if number = 2 \<and> kind = bytes_type
           then (case w_bytes w r of
                   None \<Rightarrow> Some (Inl (ErrPayloadInvalid ''malformed sample''))
                 | Some (v, z) \<Rightarrow>
                     Option.bind (validate_sample w lim now v)
                       (\<lambda>p. case p of
                          Inl e \<Rightarrow> Some (Inl e)
                        | Inr _ \<Rightarrow>
                            (let st = (sc_stats s)\<lparr>bs_samples := bs_samples (sc_stats s) + 1\<rparr> in
                             if bl_max_samples lim < bs_samples st then Some (Inl (ErrPayloadTooLarge ''samples''))
                             else Some (Inr (drop z r,
                               s\<lparr>sc_stats := st, sc_tail := sc_tail s @ w_put_tag w number kind @ w_put_bytes w v\<rparr>)))))
           else if number = 1 then Some (Inl (ErrPayloadInvalid ''label has an unexpected wire type''))
           else (case w_field w number kind r of
                   None \<Rightarrow> Some (Inl (ErrPayloadInvalid ''malformed series field''))
                 | Some z \<Rightarrow>
                     Some (Inr (drop z r, s\<lparr>sc_tail := sc_tail s @ w_put_tag w number kind @ take z r\<rparr>)))))"

text \<open>
  \<open>slices.SortFunc\<close> is not stable, but labels it could exchange repeat a name and are refused next.
\<close>

definition encode_label :: "wire \<Rightarrow> metric_label \<Rightarrow> string" where
  "encode_label w l =
     w_put_tag w 1 bytes_type @ w_put_bytes w
       (w_put_tag w 1 bytes_type @ w_put_bytes w (lb_name l) @ w_put_tag w 2 bytes_type @ w_put_bytes w (lb_value l))"

definition finish_series ::
    "wire \<Rightarrow> metric_label list \<Rightarrow> batch_limits \<Rightarrow> series_scan \<Rightarrow> metrics_error + string \<times> batch_stats" where
  "finish_series w scope lim s =
     (let ls = sort_key lb_name (sc_labels s @ scope) in
      if bl_max_labels lim < int (length (sc_labels s @ scope)) then Inl (ErrPayloadTooLarge ''labels'')
      else if \<not> distinct (map lb_name ls) then Inl (ErrPayloadInvalid ''series repeats label'')
      else if ''__name__'' \<notin> set (map lb_name ls) then Inl (ErrPayloadInvalid ''series has no metric name'')
      else Inr (concat (map (encode_label w) ls) @ sc_tail s,
                (sc_stats s)\<lparr>bs_hashes := bs_hashes (sc_stats s) @ [hash_labels ls]\<rparr>))"

definition rewrite_time_series ::
    "wire \<Rightarrow> metric_label list \<Rightarrow> batch_limits \<Rightarrow> time \<Rightarrow> string \<Rightarrow> batch_stats
       \<Rightarrow> (metrics_error + string \<times> batch_stats) option" where
  "rewrite_time_series w scope lim now series st =
     Option.bind (scan_fields (series_step w lim now) series \<lparr>sc_labels = [], sc_tail = [], sc_stats = st\<rparr>)
       (\<lambda>r. Some (and_then r (finish_series w scope lim)))"

subsection \<open>A batch\<close>

definition batch_step ::
    "wire \<Rightarrow> metric_label list \<Rightarrow> batch_limits \<Rightarrow> time \<Rightarrow> string \<Rightarrow> string \<times> batch_stats
       \<Rightarrow> (metrics_error + string \<times> (string \<times> batch_stats)) option" where
  "batch_step w scope lim now rest acc =
     (case w_tag w rest of
        None \<Rightarrow> Some (Inl (ErrPayloadInvalid ''malformed field tag''))
      | Some (number, kind, c) \<Rightarrow>
          (let r = drop c rest; out = fst acc; st = snd acc in
           if number = 1 \<and> kind = bytes_type
           then (case w_bytes w r of
                   None \<Rightarrow> Some (Inl (ErrPayloadInvalid ''malformed time series''))
                 | Some (series, z) \<Rightarrow>
                     (let st' = st\<lparr>bs_series := bs_series st + 1\<rparr> in
                      if bl_max_series lim < bs_series st' then Some (Inl (ErrPayloadTooLarge ''series''))
                      else Option.bind (rewrite_time_series w scope lim now series st')
                             (\<lambda>p. case p of
                                Inl e \<Rightarrow> Some (Inl e)
                              | Inr (b, st'') \<Rightarrow>
                                  Some (Inr (drop z r, (out @ w_put_tag w number bytes_type @ w_put_bytes w b, st''))))))
           else if number = 1 then Some (Inl (ErrPayloadInvalid ''time series has an unexpected wire type''))
           else (case w_field w number kind r of
                   None \<Rightarrow> Some (Inl (ErrPayloadInvalid ''malformed field''))
                 | Some z \<Rightarrow> Some (Inr (drop z r, (out @ w_put_tag w number kind @ take z r, st))))))"

definition rewrite_batch ::
    "wire \<Rightarrow> metric_label list \<Rightarrow> batch_limits \<Rightarrow> time \<Rightarrow> string \<Rightarrow> (metrics_error + string \<times> batch_stats) option" where
  "rewrite_batch w scope lim now payload =
     scan_fields (batch_step w scope lim now) payload ([], \<lparr>bs_series = 0, bs_samples = 0, bs_hashes = []\<rparr>)"

end
