(* ===== verification/PasswordHash.thy ===== *)
theory PasswordHash
  imports Encoding MetricsRewrite
begin

section \<open>Password hashes\<close>

text \<open>
  \<open>pkg/server/auth/password.go\<close>: the policy of new passwords and the PHC text of an Argon2id hash. The
  key derivation \<open>argon2.IDKey\<close> (package \<open>golang.org/x/crypto\<close>) is the parameter \<open>idkey\<close>: password,
  salt, iterations, memory, parallelism and length to the key. The salt, which the code draws at random,
  is a parameter of hashing.
\<close>

record argon_params =
  memory_kib :: nat
  iterations :: nat
  parallelism :: nat
  salt_length :: nat
  key_length :: nat

type_synonym key_derivation = "string \<Rightarrow> string \<Rightarrow> nat \<Rightarrow> nat \<Rightarrow> nat \<Rightarrow> nat \<Rightarrow> string"

definition minimum_password_characters :: nat where "minimum_password_characters = 15"
definition maximum_password_bytes :: nat where "maximum_password_bytes = 1024"
definition argon2_version :: nat where "argon2_version = 19"

definition default_password_params :: argon_params where
  "default_password_params =
     \<lparr>memory_kib = 65536, iterations = 3, parallelism = 4, salt_length = 16, key_length = 32\<rparr>"

text \<open>\<open>utf8.RuneCount\<close> of bytes that are valid UTF-8: the bytes that are not continuations.\<close>

definition rune_count :: "string \<Rightarrow> nat" where
  "rune_count s = length (filter (\<lambda>c. \<not> utf8_tail (of_char c)) s)"

definition validate_new_password :: "string \<Rightarrow> string + unit" where
  "validate_new_password p =
     (if maximum_password_bytes < length p then Inl ''password must not exceed 1024 bytes''
      else if \<not> valid_utf8 (map of_char p) then Inl ''password must be valid UTF-8''
      else if rune_count p < minimum_password_characters then Inl ''password must contain at least 15 characters''
      else Inr ())"

definition validate_params :: "argon_params \<Rightarrow> string + unit" where
  "validate_params p =
     (if memory_kib p < 7 * 1024 \<or> 256 * 1024 < memory_kib p then Inl ''Argon2 memory must be between 7168 and 262144 KiB''
      else if iterations p = 0 \<or> 10 < iterations p then Inl ''Argon2 iterations must be between 1 and 10''
      else if parallelism p = 0 \<or> 16 < parallelism p then Inl ''Argon2 parallelism must be between 1 and 16''
      else if salt_length p < 16 \<or> 64 < salt_length p then Inl ''Argon2 salt length must be between 16 and 64 bytes''
      else if key_length p < 16 \<or> 64 < key_length p then Inl ''Argon2 key length must be between 16 and 64 bytes''
      else Inr ())"

definition cost_text :: "nat \<Rightarrow> nat \<Rightarrow> nat \<Rightarrow> string" where
  "cost_text m t p = ''m='' @ nat_digits m @ '',t='' @ nat_digits t @ '',p='' @ nat_digits p"

definition derive :: "key_derivation \<Rightarrow> argon_params \<Rightarrow> string \<Rightarrow> string \<Rightarrow> nat \<Rightarrow> string" where
  "derive idkey p password salt len = idkey password salt (iterations p) (memory_kib p) (parallelism p) len"

definition hash_password :: "key_derivation \<Rightarrow> string \<Rightarrow> string \<Rightarrow> argon_params \<Rightarrow> string + string" where
  "hash_password idkey salt password p =
     and_then (validate_new_password password) (\<lambda>_.
     and_then (validate_params p) (\<lambda>_.
     Inr (''$argon2id$v='' @ nat_digits argon2_version @ ''$''
          @ cost_text (memory_kib p) (iterations p) (parallelism p)
          @ ''$'' @ raw_std_encode salt @ ''$'' @ raw_std_encode (derive idkey p password salt (key_length p)))))"

text \<open>
  \<open>fmt.Sscanf\<close> with a comparison against the reprinted text: the text is the literal and one unsigned
  decimal number of 32 bits in its shortest form.
\<close>

definition scan_number :: "string \<Rightarrow> string \<Rightarrow> nat option" where
  "scan_number literal s =
     (if \<not> has_prefix s literal then None
      else case digits_value 0 (drop (length literal) s) of
        None \<Rightarrow> None
      | Some n \<Rightarrow> if n < 4294967296 \<and> s = literal @ nat_digits n then Some n else None)"

definition scan_cost :: "string \<Rightarrow> (nat \<times> nat \<times> nat) option" where
  "scan_cost s =
     (case split_on (CHR '','') s of
        [a, b, c] \<Rightarrow>
          (case (scan_number ''m='' a, scan_number ''t='' b, scan_number ''p='' c) of
             (Some m, Some t, Some p) \<Rightarrow> Some (m, t, p)
           | _ \<Rightarrow> None)
      | _ \<Rightarrow> None)"

definition parse_password_hash :: "string \<Rightarrow> string + argon_params \<times> string \<times> string" where
  "parse_password_hash encoded =
     (case split_on (CHR ''$'') encoded of
        [a, algorithm, version, cost, salt_text, key_text] \<Rightarrow>
          (if a \<noteq> [] \<or> algorithm \<noteq> ''argon2id'' then Inl ''password hash has an invalid format''
           else if version \<noteq> ''v='' @ nat_digits argon2_version
           then Inl ''password hash has an unsupported Argon2 version''
           else case scan_cost cost of
             None \<Rightarrow> Inl ''password hash has invalid Argon2 parameters''
           | Some (m, t, p) \<Rightarrow>
               if 255 < p then Inl ''password hash has invalid Argon2 parameters''
               else case raw_std_decode_strict salt_text of
                 None \<Rightarrow> Inl ''password hash has invalid salt encoding''
               | Some salt \<Rightarrow>
                   (case raw_std_decode_strict key_text of
                      None \<Rightarrow> Inl ''password hash has invalid key encoding''
                    | Some key \<Rightarrow>
                        (let ps = \<lparr>memory_kib = m, iterations = t, parallelism = p,
                                   salt_length = length salt mod 4294967296, key_length = length key mod 4294967296\<rparr>
                         in and_then (validate_params ps) (\<lambda>_. Inr (ps, salt, key)))))
      | _ \<Rightarrow> Inl ''password hash has an invalid format'')"

definition verify_password :: "key_derivation \<Rightarrow> string \<Rightarrow> string \<Rightarrow> string + bool \<times> bool" where
  "verify_password idkey password encoded =
     (if maximum_password_bytes < length password then Inl ''password must not exceed 1024 bytes''
      else and_then (parse_password_hash encoded) (\<lambda>(ps, salt, expected).
        let actual = derive idkey ps password salt (length expected mod 4294967296);
            matches = (actual = expected) in
        Inr (matches, matches \<and> ps \<noteq> default_password_params)))"

lemma scan_number_print: "n < 4294967296 \<Longrightarrow> scan_number l (l @ nat_digits n) = Some n"
  by (simp add: scan_number_def digits_value_nat_digits)

lemma comma_free: "CHR '','' \<notin> set (nat_digits n)" "CHR ''$'' \<notin> set (nat_digits n)"
  by (rule not_in_nat_digits, code_simp)+

lemma split_fields3:
  assumes "x \<notin> set a" and "x \<notin> set b" and "x \<notin> set c"
  shows "split_on x (a @ x # b @ x # c) = [a, b, c]"
  using assms by (simp add: split_on_append split_on_last)

lemma split_fields6:
  assumes "x \<notin> set a" and "x \<notin> set b" and "x \<notin> set c" and "x \<notin> set d" and "x \<notin> set e" and "x \<notin> set f"
  shows "split_on x (a @ x # b @ x # c @ x # d @ x # e @ x # f) = [a, b, c, d, e, f]"
  using assms by (simp add: split_on_append split_on_last)

lemma scan_cost_print:
  assumes "m < 4294967296" and "t < 4294967296" and "p < 4294967296"
  shows "scan_cost (cost_text m t p) = Some (m, t, p)"
proof -
  have shape: "cost_text m t p
      = (''m='' @ nat_digits m) @ CHR '','' # (''t='' @ nat_digits t) @ CHR '','' # (''p='' @ nat_digits p)"
    by (simp add: cost_text_def)
  have parts: "split_on (CHR '','') (cost_text m t p)
      = [''m='' @ nat_digits m, ''t='' @ nat_digits t, ''p='' @ nat_digits p]"
    unfolding shape by (rule split_fields3) (simp_all add: comma_free)
  show ?thesis
    unfolding scan_cost_def parts
    using scan_number_print [OF assms(1), of "''m=''"] scan_number_print [OF assms(2), of "''t=''"]
      scan_number_print [OF assms(3), of "''p=''"] by (simp del: append.simps)
qed

lemma validate_params_ok:
  "validate_params p = Inr u \<longleftrightarrow>
     7168 \<le> memory_kib p \<and> memory_kib p \<le> 262144 \<and> 1 \<le> iterations p \<and> iterations p \<le> 10
     \<and> 1 \<le> parallelism p \<and> parallelism p \<le> 16 \<and> 16 \<le> salt_length p \<and> salt_length p \<le> 64
     \<and> 16 \<le> key_length p \<and> key_length p \<le> 64"
  by (auto simp: validate_params_def)

lemma parse_printed:
  assumes ok: "validate_params p = Inr u" and lens: "length salt = salt_length p" "length key = key_length p"
  shows "parse_password_hash (''$argon2id$v='' @ nat_digits argon2_version @ ''$''
          @ cost_text (memory_kib p) (iterations p) (parallelism p)
          @ ''$'' @ raw_std_encode salt @ ''$'' @ raw_std_encode key) = Inr (p, salt, key)"
proof -
  have free: "CHR ''$'' \<notin> set (cost_text m t q)" for m t q by (simp add: cost_text_def comma_free)
  let ?v = "''v='' @ nat_digits argon2_version"
  have shape: "''$argon2id$v='' @ nat_digits argon2_version @ ''$''
          @ cost_text (memory_kib p) (iterations p) (parallelism p)
          @ ''$'' @ raw_std_encode salt @ ''$'' @ raw_std_encode key
      = [] @ CHR ''$'' # ''argon2id'' @ CHR ''$'' # ?v @ CHR ''$''
        # cost_text (memory_kib p) (iterations p) (parallelism p) @ CHR ''$'' # raw_std_encode salt
        @ CHR ''$'' # raw_std_encode key" by simp
  have v: "CHR ''$'' \<notin> set ?v" by (simp add: comma_free)
  have parts: "split_on (CHR ''$'') ([] @ CHR ''$'' # ''argon2id'' @ CHR ''$'' # ?v @ CHR ''$''
        # cost_text (memory_kib p) (iterations p) (parallelism p) @ CHR ''$'' # raw_std_encode salt
        @ CHR ''$'' # raw_std_encode key)
      = [[], ''argon2id'', ?v, cost_text (memory_kib p) (iterations p) (parallelism p), raw_std_encode salt,
         raw_std_encode key]"
    by (rule split_fields6) (simp_all add: free v [simplified] raw_std_no_dollar)
  have cost: "scan_cost (cost_text (memory_kib p) (iterations p) (parallelism p))
      = Some (memory_kib p, iterations p, parallelism p)"
    using ok by (intro scan_cost_print) (auto simp: validate_params_ok)
  have same: "\<lparr>memory_kib = memory_kib p, iterations = iterations p, parallelism = parallelism p,
      salt_length = length salt mod 4294967296, key_length = length key mod 4294967296\<rparr> = p"
    using ok lens by (cases p) (simp add: validate_params_ok)
  have small: "\<not> 255 < parallelism p" using ok by (simp add: validate_params_ok)
  show ?thesis
    unfolding shape parse_password_hash_def parts
    using ok small by (simp add: cost raw_std_roundtrip same [unfolded lens] lens Let_def)
qed

subsection \<open>Properties\<close>

lemma hash_password_Inr:
  assumes "hash_password idkey salt password p = Inr h"
  shows "validate_new_password password = Inr ()" and "validate_params p = Inr ()"
    and "h = ''$argon2id$v='' @ nat_digits argon2_version @ ''$''
          @ cost_text (memory_kib p) (iterations p) (parallelism p)
          @ ''$'' @ raw_std_encode salt @ ''$'' @ raw_std_encode (derive idkey p password salt (key_length p))"
  using assms by (auto simp: hash_password_def and_then_eq_Inr)

lemma new_password_short: "validate_new_password p = Inr u \<Longrightarrow> length p \<le> maximum_password_bytes"
  by (auto simp: validate_new_password_def split: if_splits)

text \<open>
  C33: a stored hash is what its password verifies against. What \<open>HashPassword\<close> writes is read back
  with the parameters, salt and key it was written from; the password it was made of verifies, any other
  password verifies exactly when the key derivation maps it to the same key, and an upgrade is asked for
  exactly when the cost differs from the configured one.
\<close>

theorem stored_hash_verifies:
  assumes hashed: "hash_password idkey salt password p = Inr h" and salt: "length salt = salt_length p"
    and key: "length (derive idkey p password salt (key_length p)) = key_length p"
  shows "verify_password idkey password h = Inr (True, p \<noteq> default_password_params)
    \<and> verify_password idkey other h =
      (if maximum_password_bytes < length other then Inl ''password must not exceed 1024 bytes''
       else let same = derive idkey p other salt (key_length p) = derive idkey p password salt (key_length p)
            in Inr (same, same \<and> p \<noteq> default_password_params))"
proof -
  note h = hash_password_Inr [OF hashed]
  have parsed: "parse_password_hash h = Inr (p, salt, derive idkey p password salt (key_length p))"
    unfolding h(3) by (rule parse_printed [OF h(2) salt key])
  have small: "key_length p mod 4294967296 = key_length p" using h(2) by (simp add: validate_params_ok)
  have general: "verify_password idkey other h =
      (if maximum_password_bytes < length other then Inl ''password must not exceed 1024 bytes''
       else let same = derive idkey p other salt (key_length p) = derive idkey p password salt (key_length p)
            in Inr (same, same \<and> p \<noteq> default_password_params))" for other
    by (simp add: verify_password_def parsed key small Let_def)
  show ?thesis using new_password_short [OF h(1)] by (simp add: general)
qed

definition first_byte_key :: key_derivation where
  "first_byte_key password salt t m p len = replicate len (hd password)"

definition sample_password :: string where "sample_password = replicate 15 (CHR ''x'')"

lemma sample_hash:
  "hash_password first_byte_key (replicate 16 (CHR ''s'')) sample_password default_password_params
   = Inr (projr (hash_password first_byte_key (replicate 16 (CHR ''s'')) sample_password default_password_params))"
proof -
  have "validate_new_password sample_password = Inr ()"
    unfolding validate_new_password_def sample_password_def by code_simp
  then show ?thesis
    by (simp add: hash_password_def validate_params_def default_password_params_def)
qed

theorem stored_hash_verifies_witness:
  "verify_password first_byte_key sample_password
     (projr (hash_password first_byte_key (replicate 16 (CHR ''s'')) sample_password default_password_params))
   = Inr (True, False)"
  using stored_hash_verifies [OF sample_hash, where other = sample_password]
  by (simp add: default_password_params_def derive_def first_byte_key_def)

text \<open>
  Hashing and verifying cost is bounded by the code, not by the stored text. A text that verifies at
  all carries an Argon2id cost of at most 256 MiB, ten iterations and sixteen lanes, with a salt and a key
  of 16 to 64 bytes, and the work never runs on more than 1024 bytes of password.
\<close>

theorem verification_cost_bounded:
  assumes "verify_password idkey password encoded = Inr r"
  shows "\<exists>ps salt key. parse_password_hash encoded = Inr (ps, salt, key)
           \<and> 7168 \<le> memory_kib ps \<and> memory_kib ps \<le> 262144 \<and> 1 \<le> iterations ps \<and> iterations ps \<le> 10
           \<and> 1 \<le> parallelism ps \<and> parallelism ps \<le> 16 \<and> length password \<le> maximum_password_bytes"
proof -
  from assms obtain ps salt key where p: "parse_password_hash encoded = Inr (ps, salt, key)"
    and short: "length password \<le> maximum_password_bytes"
    by (auto simp: verify_password_def and_then_eq_Inr split: if_splits)
  from p have "validate_params ps = Inr ()"
    by (auto simp: parse_password_hash_def and_then_eq_Inr Let_def
        split: list.splits if_splits option.splits)
  with p short show ?thesis by (auto simp: validate_params_ok)
qed

end
