(* ===== verification/AuthService.thy ===== *)
theory AuthService
  imports AuthStore PasswordHash
begin

section \<open>The authentication service\<close>

text \<open>
  \<open>pkg/server/auth/service.go\<close>, \<open>session.go\<close> and \<open>setup.go\<close>. An operation returns its result or error,
  the database it leaves behind, and, for a login, the stored hashes a password was checked against: the
  work an observer can time. The read of the account and the write that completes a login are separate
  statements, so the account is read in \<open>seen\<close> and the write runs on a database that may have moved on.

  Parameters stand for what the code calls: the password verifier (a field of the service, by default
  \<open>VerifyPassword\<close>) and the hasher, each together with the wait for one of the password slots and the
  context's end; the Unicode normalization of a user name; and SHA-256. Random values are given.
\<close>

record auth_config =
  ac_idle :: duration
  ac_absolute :: duration
  ac_checks :: int
  ac_max_failed :: int
  ac_lock :: duration

record auth_env =
  ae_verify :: "string \<Rightarrow> string \<Rightarrow> string + bool \<times> bool"
  ae_hash :: "string \<Rightarrow> string + string"
  ae_username :: "string \<Rightarrow> string + string"
  ae_display :: "string \<Rightarrow> string + string"
  ae_digest :: "string \<Rightarrow> string"
  ae_config :: auth_config

datatype service_error =
    InvalidCredentials | Unauthenticated | InvalidNewPassword | PasswordUnchanged
  | SetupAlreadyCompleted | SetupUsernameUnavailable | InvalidSetupUsername string
  | StoreError auth_error | AuthFault string

record login_input =
  li_user :: string
  li_password :: string
  li_request :: string
  li_now :: time

record random_draws =
  dr_session_id :: string
  dr_session_token :: string
  dr_csrf_token :: string

record auth_user =
  aus_id :: string
  aus_name :: string
  aus_display :: string

record login_result =
  lr_user :: auth_user
  lr_session :: string
  lr_token :: string
  lr_csrf :: string
  lr_expires :: time

record auth_identity =
  aid_user :: auth_user
  aid_session :: string
  aid_expires :: time
  aid_csrf :: string

record change_input =
  cp_identity :: auth_identity
  cp_current :: string
  cp_new :: string
  cp_request :: string
  cp_now :: time

definition dummy_password_hash :: string where
  "dummy_password_hash =
     ''$argon2id$v=19$m=65536,t=3,p=4$MDEyMzQ1Njc4OWFiY2RlZg$MDEyMzQ1Njc4OWFiY2RlZjAxMjM0NTY3ODlhYmNkZWY''"

text \<open>\<open>NewService\<close> fills in what is not configured.\<close>

definition new_service_config :: "auth_config \<Rightarrow> auth_config" where
  "new_service_config c =
     c\<lparr>ac_checks := max 1 (ac_checks c),
       ac_max_failed := (if ac_max_failed c \<le> 0 then 5 else ac_max_failed c),
       ac_lock := (if ac_lock c \<le> 0 then 15 * minute else ac_lock c)\<rparr>"

definition auth_user_of :: "user_row \<Rightarrow> auth_user" where
  "auth_user_of r = \<lparr>aus_id = user_id r, aus_name = user_name r, aus_display = user_display r\<rparr>"

subsection \<open>Login\<close>

definition reject_login ::
    "auth_env \<Rightarrow> string option \<Rightarrow> login_input \<Rightarrow> access_db \<Rightarrow> service_error \<times> access_db" where
  "reject_login env user x db =
     (case record_login_failure
             \<lparr>fp_user = user, fp_request = li_request x, fp_now = li_now x,
              fp_max = ac_max_failed (ae_config env), fp_duration = ac_lock (ae_config env)\<rparr> db of
        Inl e \<Rightarrow> (StoreError e, db)
      | Inr db' \<Rightarrow> (InvalidCredentials, db'))"

definition reject_unknown ::
    "auth_env \<Rightarrow> login_input \<Rightarrow> access_db \<Rightarrow> (service_error + login_result) \<times> access_db \<times> string list" where
  "reject_unknown env x db =
     (case ae_verify env (li_password x) dummy_password_hash of
        Inl _ \<Rightarrow> (Inl (AuthFault ''verify dummy password hash''), db, [dummy_password_hash])
      | Inr _ \<Rightarrow> (let (e, db') = reject_login env None x db in (Inl e, db', [dummy_password_hash])))"

definition login_write ::
    "auth_env \<Rightarrow> random_draws \<Rightarrow> login_input \<Rightarrow> user_row \<Rightarrow> string \<Rightarrow> login_params" where
  "login_write env d x u replacement =
     \<lparr>lp_user = user_id u, lp_hash = user_password u, lp_changed = user_password_changed u,
      lp_replacement = replacement,
      lp_session = \<lparr>sp_user = user_id u, sp_token = ae_digest env (dr_session_token d),
                    sp_csrf = ae_digest env (dr_csrf_token d),
                    sp_idle = li_now x + ac_idle (ae_config env),
                    sp_expires = li_now x + ac_absolute (ae_config env)\<rparr>,
      lp_request = li_request x, lp_now = li_now x\<rparr>"

definition login_known ::
    "auth_env \<Rightarrow> random_draws \<Rightarrow> clocks \<Rightarrow> login_input \<Rightarrow> user_row \<Rightarrow> access_db
       \<Rightarrow> (service_error + login_result) \<times> access_db \<times> string list" where
  "login_known env d clk x u db =
     (case ae_verify env (li_password x) (user_password u) of
        Inl _ \<Rightarrow> (Inl (AuthFault ''verify stored password hash''), db, [user_password u])
      | Inr (matches, needs_rehash) \<Rightarrow>
          if \<not> matches \<or> user_status u = ''disabled'' \<or> lock_running u (li_now x)
          then (let (e, db') = reject_login env (Some (user_id u)) x db in (Inl e, db', [user_password u]))
          else (case (if needs_rehash then ae_hash env (li_password x) else Inr []) of
            Inl m \<Rightarrow> (Inl (AuthFault m), db, [user_password u])
          | Inr replacement \<Rightarrow>
              (case complete_login clk (dr_session_id d) (login_write env d x u replacement) db of
                 Inl CredentialsChanged \<Rightarrow>
                   (let (e, db') = reject_login env (Some (user_id u)) x db in (Inl e, db', [user_password u]))
               | Inl e \<Rightarrow> (Inl (StoreError e), db, [user_password u])
               | Inr (s, db') \<Rightarrow>
                   (Inr \<lparr>lr_user = auth_user_of u, lr_session = ses_id s, lr_token = dr_session_token d,
                         lr_csrf = dr_csrf_token d, lr_expires = ses_expires s\<rparr>, db', [user_password u]))))"

definition login ::
    "auth_env \<Rightarrow> random_draws \<Rightarrow> clocks \<Rightarrow> login_input \<Rightarrow> access_db \<Rightarrow> access_db
       \<Rightarrow> (service_error + login_result) \<times> access_db \<times> string list" where
  "login env d clk x seen db =
     (if blank (li_request x) \<or> li_now x = zero_time
      then (Inl (AuthFault ''login request ID and time are required''), db, [])
      else if maximum_password_bytes < length (li_password x)
      then (let (e, db') = reject_login env None x db in (Inl e, db', []))
      else (case ae_username env (li_user x) of
          Inl _ \<Rightarrow> reject_unknown env x db
        | Inr name \<Rightarrow>
            (case find_user_by_username seen name of
               Inl e \<Rightarrow> if e = AuthUserNotFound then reject_unknown env x db else (Inl (StoreError e), db, [])
             | Inr u \<Rightarrow> login_known env d clk x u db)))"

definition record_login_denied ::
    "time \<Rightarrow> string \<Rightarrow> access_db \<Rightarrow> (service_error + unit) \<times> access_db" where
  "record_login_denied dbnow request db =
     (case record_login_audit dbnow None ''denied'' request db of
        Inl e \<Rightarrow> (Inl (StoreError e), db) | Inr db' \<Rightarrow> (Inr (), db'))"

subsection \<open>Requests under a session\<close>

definition authenticate ::
    "auth_env \<Rightarrow> string \<Rightarrow> time \<Rightarrow> access_db \<Rightarrow> (service_error + auth_identity) \<times> access_db" where
  "authenticate env token now db =
     (if token = [] \<or> now = zero_time then (Inl Unauthenticated, db)
      else case find_active_session (ae_digest env token) now (ac_idle (ae_config env)) db of
        Inl e \<Rightarrow> (Inl (if e = AuthSessionNotFound then Unauthenticated else StoreError e), db)
      | Inr ((s, u), db') \<Rightarrow>
          (Inr \<lparr>aid_user = auth_user_of u, aid_session = ses_id s, aid_expires = ses_expires s,
                aid_csrf = ses_csrf s\<rparr>, db'))"

definition logout ::
    "time \<Rightarrow> auth_identity \<Rightarrow> string \<Rightarrow> time \<Rightarrow> access_db \<Rightarrow> (service_error + unit) \<times> access_db" where
  "logout dbnow i request now db =
     (case revoke_authenticated_session dbnow (aid_session i) (aus_id (aid_user i)) now request db of
        Inl e \<Rightarrow> (Inl (if e = AuthSessionNotFound then Unauthenticated else StoreError e), db)
      | Inr db' \<Rightarrow> (Inr (), db'))"

definition csrf_token_matches :: "auth_env \<Rightarrow> string \<Rightarrow> string \<Rightarrow> bool" where
  "csrf_token_matches env token expected \<longleftrightarrow>
     token \<noteq> [] \<and> expected \<noteq> [] \<and> ae_digest env token = expected"

definition reject_password_change ::
    "change_input \<Rightarrow> string \<Rightarrow> service_error \<Rightarrow> access_db \<Rightarrow> (service_error + unit) \<times> access_db" where
  "reject_password_change x result rejection db =
     (case record_password_change_audit (aus_id (aid_user (cp_identity x))) result (cp_request x) (cp_now x) db of
        Inl e \<Rightarrow> (Inl (StoreError e), db) | Inr db' \<Rightarrow> (Inl rejection, db'))"

text \<open>\<open>cancelled\<close> is the context's error when hashing the new password failed with it.\<close>

definition change_password ::
    "auth_env \<Rightarrow> (string \<Rightarrow> bool) \<Rightarrow> change_input \<Rightarrow> access_db \<Rightarrow> access_db
       \<Rightarrow> (service_error + unit) \<times> access_db" where
  "change_password env cancelled x seen db =
     (let i = cp_identity x; reject = (\<lambda>result e. reject_password_change x result e db) in
      if blank (aus_id (aid_user i)) \<or> blank (aid_session i) \<or> blank (cp_request x) \<or> cp_now x = zero_time
      then (Inl InvalidCredentials, db)
      else if cp_current x = [] \<or> maximum_password_bytes < length (cp_current x)
      then reject ''denied'' InvalidCredentials
      else if validate_new_password (cp_new x) \<noteq> Inr () then reject ''failed'' InvalidNewPassword
      else (case find_user_by_id seen (aus_id (aid_user i)) of
        Inl e \<Rightarrow> if e = AuthUserNotFound then reject ''denied'' Unauthenticated else (Inl (StoreError e), db)
      | Inr u \<Rightarrow>
          if user_status u \<noteq> ''active'' then reject ''denied'' Unauthenticated
          else (case ae_verify env (cp_current x) (user_password u) of
            Inl _ \<Rightarrow> reject ''failed'' (AuthFault ''verify current password'')
          | Inr (matches, _) \<Rightarrow>
              if \<not> matches then reject ''denied'' InvalidCredentials
              else (case ae_verify env (cp_new x) (user_password u) of
                Inl _ \<Rightarrow> reject ''failed'' (AuthFault ''compare new password'')
              | Inr (same, _) \<Rightarrow>
                  if same then reject ''failed'' PasswordUnchanged
                  else (case ae_hash env (cp_new x) of
                    Inl m \<Rightarrow> if cancelled m then (Inl (AuthFault m), db)
                             else reject ''failed'' (AuthFault ''hash new password'')
                  | Inr h \<Rightarrow>
                      (case change_own_password
                              \<lparr>pp_user = user_id u, pp_session = aid_session i, pp_hash = user_password u,
                               pp_changed = user_password_changed u, pp_new_hash = h,
                               pp_request = cp_request x, pp_now = cp_now x\<rparr> db of
                         Inl e \<Rightarrow> if e = CredentialsChanged then reject ''denied'' Unauthenticated
                                  else (Inl (StoreError e), db)
                       | Inr db' \<Rightarrow> (Inr (), db')))))))"

subsection \<open>The first administrator\<close>

definition setup_required :: "access_db \<Rightarrow> bool" where
  "setup_required db \<longleftrightarrow> \<not> has_global_administrator db"

definition setup_administrator ::
    "auth_env \<Rightarrow> time \<Rightarrow> string \<Rightarrow> string \<Rightarrow> string \<Rightarrow> string \<Rightarrow> string \<Rightarrow> access_db \<Rightarrow> access_db
       \<Rightarrow> (service_error + auth_user) \<times> access_db" where
  "setup_administrator env dbnow user_uuid binding_uuid username password request seen db =
     (if blank request then (Inl (AuthFault ''setup request ID is required''), db)
      else if \<not> setup_required seen then (Inl SetupAlreadyCompleted, db)
      else (case (ae_username env username, ae_display env username) of
        (Inl m, _) \<Rightarrow> (Inl (InvalidSetupUsername m), db)
      | (Inr _, Inl m) \<Rightarrow> (Inl (InvalidSetupUsername m), db)
      | (Inr name, Inr display) \<Rightarrow>
          if validate_new_password password \<noteq> Inr () then (Inl InvalidNewPassword, db)
          else (case ae_hash env password of
            Inl m \<Rightarrow> (Inl (AuthFault m), db)
          | Inr h \<Rightarrow>
              (case create_first_global_administrator dbnow user_uuid binding_uuid
                      \<lparr>su_name = name, su_display = display, su_hash = h, su_request = request\<rparr> db of
                 Inl e \<Rightarrow> (Inl (if e = GlobalAdministratorExists then SetupAlreadyCompleted
                               else if e = UsernameUnavailable then SetupUsernameUnavailable
                               else StoreError e), db)
               | Inr (u, db') \<Rightarrow> (Inr (auth_user_of u), db')))))"

end
