(* ===== verification/AuthSafety.thy ===== *)
theory AuthSafety
  imports AuthHistory
begin

section \<open>What authentication guarantees over time\<close>

text \<open>
  Properties of sequences of the transactions of \<open>AuthHistory\<close>: the administrator of last resort under
  attack, sessions that stay ended, locks that hold, and what a refused login gives away. The sample
  history at the end discharges their hypotheses.
\<close>

subsection \<open>Sessions that have ended\<close>

definition tokens_drawn :: "auth_state \<Rightarrow> bool" where
  "tokens_drawn s \<longleftrightarrow>
     distinct (map ses_token (db_sessions (fst s))) \<and> ses_token ` set (db_sessions (fst s)) \<subseteq> snd s"

definition ended :: "string \<Rightarrow> auth_state \<Rightarrow> bool" where
  "ended d s \<longleftrightarrow> d \<in> snd s \<and> (\<forall>r \<in> set (db_sessions (fst s)). ses_token r = d \<longrightarrow> ses_revoked r \<noteq> None)"

lemma ended_step:
  assumes "auth_run x s = Some s'" and "auth_allowed x s" and "ended d s"
  shows "ended d s'"
proof -
  obtain db S db' S' where s: "s = (db, S)" "s' = (db', S')" by (cases s, cases s')
  with assms(1) have run: "run_auth x db = Some db'" and S': "S' = S \<union> drawn x" by (simp_all add: auth_run_Some)
  have "ses_revoked r' \<noteq> None" if r': "r' \<in> set (db_sessions db')" "ses_token r' = d" for r'
  proof -
    from run_auth_sessions [OF run] r'(1)
    consider (old) r where "r \<in> set (db_sessions db)" "same_session r r'" | (new) "opened_by x r'" by blast
    then show ?thesis
    proof cases
      case old
      then show ?thesis using assms(3) r'(2) by (auto simp: ended_def s same_session_def)
    next
      case new
      then have "d \<in> drawn x" using r'(2) by (auto simp: opened_by_def drawn_def)
      then show ?thesis using assms(2,3) by (auto simp: ended_def auth_allowed_def s)
    qed
  qed
  then show ?thesis using assms(3) S' by (auto simp: ended_def s)
qed

lemma ended_steps: "auth_steps s xs s' \<Longrightarrow> ended d s \<Longrightarrow> ended d s'"
  by (induction rule: steps.induct) (auto intro: ended_step)

lemma ended_inactive:
  assumes "ended d (db, S)"
  shows "find_active_session d now t db \<noteq> Inr y"
proof
  assume "find_active_session d now t db = Inr y"
  moreover obtain p q db' where "y = ((p, q), db')" by (cases y) auto
  ultimately have "find_active_session d now t db = Inr ((p, q), db')" by simp
  from use_session_Inr(1) [OF this] show False
    using assms by (auto simp: ended_def session_active_def)
qed

lemma ended_is_refused: "ended (ae_digest env token) (db, S) \<Longrightarrow> isl (fst (authenticate env token now db))"
  using ended_inactive [of "ae_digest env token" db S now "ac_idle (ae_config env)"]
  by (auto simp: authenticate_def split: sum.splits)

text \<open>The transactions that end a session, and the sessions they end.\<close>

definition ends :: "auth_op \<Rightarrow> access_db \<Rightarrow> session_row \<Rightarrow> bool" where
  "ends x db s =
     (case x of
        Manage _ (OpSetStatus u st) \<Rightarrow> st = ''disabled'' \<and> ses_user s = uuid_text u
      | Manage _ (OpResetPassword u _) \<Rightarrow> ses_user s = uuid_text u
      | Manage _ (OpDeleteUser u) \<Rightarrow> ses_user s = uuid_text u
      | Logout _ i u _ _ \<Rightarrow> ses_id s = uuid_text i \<and> ses_user s = uuid_text u
      | ChangePassword p \<Rightarrow> ses_user s = uuid_text (pp_user p)
      | LoginFailed p \<Rightarrow>
          (case fp_user p of
             None \<Rightarrow> False
           | Some u \<Rightarrow> ses_user s = uuid_text u
               \<and> (case find_user db u of
                    None \<Rightarrow> False
                  | Some r \<Rightarrow> user_status (failed_row p (lockable db u) r) = ''locked''))
      | _ \<Rightarrow> False)"

text \<open>\<open>gone\<close>: no row of the table is the session of \<open>s\<close> and still open.\<close>

definition gone :: "session_row \<Rightarrow> session_row list \<Rightarrow> bool" where
  "gone s ss \<longleftrightarrow> (\<forall>r \<in> set ss. ses_token r = ses_token s \<longrightarrow> ses_revoked r \<noteq> None)"

lemma gone_update:
  assumes "distinct (map ses_token ss)" and "s \<in> set ss" and "ses_revoked s = None \<Longrightarrow> P s"
    and "\<And>r. ses_token (f r) = ses_token r" and "\<And>r. ses_revoked (f r) \<noteq> None"
  shows "gone s (update_where P f ss)"
proof -
  have "r = s" if "r \<in> set ss" "ses_token r = ses_token s" for r
    using that assms(1,2) by (auto simp: distinct_map inj_on_def)
  then show ?thesis using assms(3-5) by (auto simp: gone_def set_update_where)
qed

lemma gone_revoked:
  assumes "distinct (map ses_token (db_sessions db))" and "s \<in> set (db_sessions db)" and "ses_user s = uuid_text u"
  shows "gone s (db_sessions (revoke_user_sessions u t db))"
  unfolding revoked_sessions using assms by (intro gone_update) simp_all

lemma ends_gone:
  assumes run: "run_auth x db = Some db'" and e: "ends x db s" and s: "s \<in> set (db_sessions db)"
    and tok: "distinct (map ses_token (db_sessions db))"
  shows "gone s (db_sessions db')"
proof (cases x)
  case (Manage q op)
  show ?thesis
  proof (cases op)
    case (OpSetStatus u st)
    then obtain y where "set_user_status q u st db = Inr (y, db')"
      using run Manage by (auto simp: committed_iff)
    from set_status_sessions [OF this] show ?thesis
      using e s tok by (simp add: Manage OpSetStatus ends_def gone_revoked)
  next
    case (OpResetPassword u h)
    then obtain y where "reset_user_password q u h db = Inr (y, db')"
      using run Manage by (auto simp: committed_iff)
    from reset_sessions [OF this] show ?thesis
      using e s tok by (simp add: Manage OpResetPassword ends_def gone_revoked)
  next
    case (OpDeleteUser u)
    then obtain y where "delete_user q u db = Inr (y, db')"
      using run Manage by (auto simp: committed_iff)
    from delete_sessions [OF this] have d: "db_sessions db' = filter (\<lambda>s. ses_user s \<noteq> uuid_text u) (db_sessions db)" .
    have "r = s" if "r \<in> set (db_sessions db)" "ses_token r = ses_token s" for r
      using that s tok by (auto simp: distinct_map inj_on_def)
    then show ?thesis using e by (auto simp: d gone_def Manage OpDeleteUser ends_def)
  qed (use e Manage in \<open>simp_all add: ends_def\<close>)
next
  case (Logout dbnow i u now r)
  then show ?thesis
    using run e s tok
    by (auto simp: ends_def revoke_authenticated_session_def Let_def intro!: gone_update split: if_splits)
next
  case (ChangePassword p)
  then have "change_own_password p db = Inr db'" using run by simp
  from change_password_Inr(4) [OF this] show ?thesis
    using e s tok by (simp add: ChangePassword ends_def gone_revoked)
next
  case (LoginFailed p)
  then have f: "record_login_failure p db = Inr db'" using run by simp
  from f show ?thesis
  proof (cases rule: login_failure_Inr)
    case unknown
    then show ?thesis using e by (auto simp: LoginFailed ends_def)
  next
    case (known u r)
    then show ?thesis using e s tok by (simp add: LoginFailed ends_def gone_revoked)
  qed
qed (use e in \<open>simp_all add: ends_def\<close>)

text \<open>
  C3: a session that has ended never comes back. Disabling, deleting or locking an account, resetting or
  changing its password and logging out end the sessions they name; whatever transactions follow, logins
  of the same account included, no token of an ended session is accepted again at any time.
\<close>

theorem ended_sessions_never_return:
  assumes "run_auth x db = Some db1" and "ends x db s" and "s \<in> set (db_sessions db)" and "tokens_drawn (db, S)"
    and "auth_steps (db1, S) xs (db2, S2)" and "ae_digest env token = ses_token s"
  shows "isl (fst (authenticate env token now db2))"
proof -
  have "gone s (db_sessions db1)"
    using ends_gone [OF assms(1-3)] assms(4) by (simp add: tokens_drawn_def)
  moreover have "ses_token s \<in> S" using assms(3,4) by (auto simp: tokens_drawn_def)
  ultimately have "ended (ses_token s) (db1, S)" by (simp add: ended_def gone_def)
  from ended_steps [OF assms(5) this] show ?thesis
    using ended_is_refused [of env token db2 S2] assms(6) by simp
qed

text \<open>
  C2: the deployment keeps an administrator. If some active account holds the builtin role globally, then
  after any sequence of management writes, logins, password changes and failed attempts with whatever
  thresholds, some active account still does: the account of last resort can be neither removed by its
  colleagues nor locked out by guessing at its password.
\<close>

theorem administrator_survives:
  assumes "auth_steps s xs s'" and "db_ok (fst s)" and "global_administrators (fst s) \<noteq> []"
  shows "global_administrators (fst s') \<noteq> []"
  using auth_steps_keep [OF assms(1,2)] assms(3) by simp

text \<open>
  The setup of the first administrator happens at most once. Once it has succeeded, no later state
  asks for a setup and no setup transaction commits.
\<close>

theorem setup_happens_once:
  assumes "create_first_global_administrator t u b p db = Inr (y, db1)" and "db_ok db"
    and "auth_steps (db1, S) xs (db2, S2)"
  shows "\<not> setup_required db2 \<and> isl (create_first_global_administrator t' u' b' p' db2)"
proof -
  have "has_global_administrator db2"
    using setup_ok [OF assms(1,2)] auth_steps_keep [OF assms(3)] administrator_has_binding by simp
  then show ?thesis by (auto simp: setup_required_def create_first_global_administrator_def Let_def)
qed

subsection \<open>Where an accepted request comes from\<close>

lemma steps_sessions:
  assumes "auth_steps s xs s'"
  shows "\<forall>r \<in> set (db_sessions (fst s')). (\<exists>r0 \<in> set (db_sessions (fst s)). same_session r0 r)
           \<or> (\<exists>x \<in> set xs. opened_by x r)"
  using assms
proof (induction rule: steps.induct)
  case (steps_none s)
  show ?case using same_session_refl by blast
next
  case (steps_more x s s1 xs s2)
  from steps_more(2) have "run_auth x (fst s) = Some (fst s1)" by (cases s; cases s1) (simp add: auth_run_Some)
  note first = run_auth_sessions [OF this]
  show ?case
  proof
    fix r
    assume "r \<in> set (db_sessions (fst s2))"
    with steps_more.IH consider (later) y where "y \<in> set xs" "opened_by y r"
      | (kept) r1 where "r1 \<in> set (db_sessions (fst s1))" "same_session r1 r" by blast
    then show "(\<exists>r0 \<in> set (db_sessions (fst s)). same_session r0 r) \<or> (\<exists>y \<in> set (x # xs). opened_by y r)"
    proof cases
      case later
      then show ?thesis by auto
    next
      case kept
      with first consider (older) r0 where "r0 \<in> set (db_sessions (fst s))" "same_session r0 r1"
        | (opened) "opened_by x r1" by blast
      then show ?thesis
      proof cases
        case older
        then show ?thesis using kept(2) same_session_trans by blast
      next
        case opened
        then have "opened_by x r" using kept(2) by (auto simp: opened_by_def same_session_def)
        then show ?thesis by simp
      qed
    qed
  qed
qed

text \<open>
  C5: an accepted request goes back to a login. Starting from a store without sessions, a token is accepted
  at a time only if one of the transactions was the login that drew it, for the account the request then
  acts as; that login set the expiry the request is within, it happened, by the database's clock, no
  earlier than the account's password was last changed by the Server's, and the account is active now.
\<close>

theorem accepted_requests_come_from_logins:
  assumes "auth_steps s xs (db', S')" and "db_sessions (fst s) = []"
    and "fst (authenticate env token now db') = Inr i"
  shows "\<exists>clk sid p r. CompleteLogin clk sid p \<in> set xs \<and> sp_token (lp_session p) = ae_digest env token
           \<and> aus_id (aid_user i) = uuid_text (lp_user p) \<and> now < sp_expires (lp_session p)
           \<and> aid_expires i = sp_expires (lp_session p)
           \<and> r \<in> set (db_users db') \<and> user_id r = aus_id (aid_user i) \<and> user_status r = ''active''
           \<and> user_password_changed r \<le> database_now clk"
proof -
  from assms(3) obtain q u db2 where f: "find_active_session (ae_digest env token) now (ac_idle (ae_config env)) db' = Inr ((q, u), db2)"
    and i: "i = \<lparr>aid_user = auth_user_of u, aid_session = ses_id q, aid_expires = ses_expires q, aid_csrf = ses_csrf q\<rparr>"
    by (auto simp: authenticate_def split: if_splits sum.splits)
  from use_session_Inr(1) [OF f] obtain s0 where s0: "s0 \<in> set (db_sessions db')"
    "session_active db' (ae_digest env token) now s0"
    and q: "q = touched_session now (ac_idle (ae_config env)) s0" and u: "find (\<lambda>u. user_id u = ses_user s0) (db_users db') = Some u"
    by blast
  obtain x where x: "x \<in> set xs" "opened_by x s0"
    using steps_sessions [OF assms(1)] s0(1) assms(2) by auto
  obtain clk sid p where p: "x = CompleteLogin clk sid p" "ses_token s0 = sp_token (lp_session p)"
    "ses_user s0 = uuid_text (lp_user p)" "ses_expires s0 = sp_expires (lp_session p)" "ses_created s0 = database_now clk"
    using x(2) by (auto simp: opened_by_def)
  from s0(2) obtain r where r: "r \<in> set (db_users db')" "user_id r = ses_user s0" "user_status r = ''active''"
    "user_password_changed r \<le> ses_created s0"
    by (auto simp: session_active_def list_ex_iff)
  have "user_id u = ses_user s0" using find_in_set [OF u] by simp
  then have "aus_id (aid_user i) = ses_user s0" by (simp add: i auth_user_of_def)
  moreover have "aid_expires i = ses_expires s0" by (simp add: i q touched_session_def)
  ultimately show ?thesis
    using x(1) p r s0(2) unfolding session_active_def by metis
qed

text \<open>
  A login behind the clock is useless. A login that completes while the database's clock is behind the
  Server's clock at the account's last password change answers with a session, and that session is never
  accepted, at any time, until the password changes again.
\<close>

theorem login_behind_the_clock:
  assumes "complete_login clk i p db = Inr (s, db')" and "database_now clk < lp_changed p"
    and "ae_digest env token = ses_token s" and "db_ok db"
  shows "isl (fst (authenticate env token now db'))"
proof -
  note l = complete_login_Inr [OF assms(1)]
  define at where "at = (if lp_now p = zero_time then server_now clk else lp_now p)"
  obtain r where r: "find (login_row p at) (db_users db) = Some r" using l(1) by (auto simp: at_def)
  then have r': "r \<in> set (db_users db)" "user_id r = uuid_text (lp_user p)" "user_password_changed r = lp_changed p"
    by (auto dest!: find_in_set simp: login_row_def)
  have late: "user_password_changed v = lp_changed p" if "v \<in> set (db_users db')" "user_id v = ses_user s" for v
  proof -
    from that obtain v0 where v0: "v0 \<in> set (db_users db)" "user_id v0 = uuid_text (lp_user p)"
      "user_password_changed v = user_password_changed v0"
      using l(2,6) by (auto simp: set_update_where logged_in_row_def)
    then have "v0 = r" using user_row_unique [OF assms(4) v0(1) r'(1)] r'(2) by simp
    then show ?thesis using v0 r' by simp
  qed
  have "\<not> session_active db' (ses_token s) now r0" if "r0 \<in> set (db_sessions db')" for r0
  proof
    assume a: "session_active db' (ses_token s) now r0"
    then have tok: "ses_token r0 = ses_token s" by (simp add: session_active_def)
    have "r0 = s"
    proof (cases "r0 \<in> set (db_sessions db)")
      case True
      then show ?thesis using l(7) tok by (metis imageI)
    next
      case False
      then show ?thesis using that l(5) by simp
    qed
    then show False using a late l(6) assms(2) by (auto simp: session_active_def list_ex_iff)
  qed
  then have "find (session_active db' (ses_token s) now) (db_sessions db') = None"
    by (simp add: find_None_iff)
  then show ?thesis
    by (auto simp: authenticate_def find_active_session_def assms(3))
qed

subsection \<open>Locks\<close>

text \<open>
  C32: Go predicts the statement. An attempt locks an account that was not locked exactly when Go's
  reading of the row said it may, and the account is not the last administrator. So every attempt that
  locks holds the advisory lock under which administrators are counted.
\<close>

theorem locking_is_predicted:
  assumes "user_row_ok r" and "\<not> lock_running r (fp_now p)" and "0 < fp_max p"
  shows "user_status (failed_row p (lockable db u) r) = ''locked''
    \<longleftrightarrow> login_failure_may_lock (user_status r) (user_failed r) (user_lock_expires r) (fp_now p) (fp_max p)
        \<and> lockable db u"
proof -
  have st: "user_status r = ''active'' \<or> user_status r = ''disabled''
      \<or> user_status r = ''locked'' \<and> (\<exists>e. user_lock_expires r = Some e)"
    using assms(1) by (auto simp: user_row_ok_def)
  have f: "0 \<le> user_failed r" using assms(1) by (simp add: user_row_ok_def)
  from st consider (active) "user_status r = ''active''" | (disabled) "user_status r = ''disabled''"
    | (locked) e where "user_status r = ''locked''" "user_lock_expires r = Some e" by blast
  then show ?thesis
  proof cases
    case active
    then show ?thesis
      by (auto simp: failed_row_facts lock_branch_def lock_running_def lock_over_def login_failure_may_lock_def)
  next
    case disabled
    then show ?thesis by (simp add: failed_row_facts lock_branch_def login_failure_may_lock_def)
  next
    case locked
    then have "e \<le> fp_now p" using assms(2) by (simp add: lock_running_def)
    then show ?thesis using locked f assms(3)
      by (auto simp: failed_row_facts lock_branch_def lock_running_def lock_over_def login_failure_may_lock_def)
  qed
qed

definition locked_until :: "string \<Rightarrow> time \<Rightarrow> access_db \<Rightarrow> bool" where
  "locked_until k e db \<longleftrightarrow>
     (\<forall>r \<in> set (db_users db). user_id r = k \<longrightarrow> user_status r = ''locked'' \<and> user_lock_expires r = Some e)
     \<and> k \<in> user_id ` set (db_users db)"

text \<open>Authentication before \<open>e\<close>: no administrator intervenes, and attempts carry earlier times.\<close>

definition before :: "time \<Rightarrow> auth_op \<Rightarrow> bool" where
  "before e x =
     (case x of
        Manage _ _ \<Rightarrow> False
      | CompleteLogin clk _ p \<Rightarrow> (if lp_now p = zero_time then server_now clk else lp_now p) < e
      | LoginFailed p \<Rightarrow> fp_now p < e
      | _ \<Rightarrow> True)"

lemma locked_login_refused:
  assumes "locked_until k e db" and "(if lp_now p = zero_time then server_now clk else lp_now p) < e"
    and "uuid_text (lp_user p) = k"
  shows "complete_login clk i p db \<noteq> Inr (s, db')"
proof
  assume "complete_login clk i p db = Inr (s, db')"
  from complete_login_Inr(1) [OF this] show False
    using assms by (auto dest!: find_in_set simp: login_row_def locked_until_def lock_over_def)
qed

lemma locked_same_users: "db_users db' = db_users db \<Longrightarrow> locked_until k e db \<Longrightarrow> locked_until k e db'"
  by (simp add: locked_until_def)

lemma locked_update:
  assumes "locked_until k e db" and "db_users db' = update_where P f (db_users db)"
    and "\<And>r. user_id (f r) = user_id r"
    and "\<And>r. P r \<Longrightarrow> user_id r = k \<Longrightarrow> user_status r = ''locked'' \<Longrightarrow> user_lock_expires r = Some e
           \<Longrightarrow> user_status (f r) = ''locked'' \<and> user_lock_expires (f r) = Some e"
  shows "locked_until k e db'"
proof -
  have "user_id ` set (db_users db') = user_id ` set (db_users db)"
    by (metis assms(2,3) list.set_map map_update_where)
  moreover have "user_status r = ''locked'' \<and> user_lock_expires r = Some e"
    if "r \<in> set (db_users db')" "user_id r = k" for r
    using that assms(1,3,4) unfolding assms(2) by (auto simp: set_update_where locked_until_def)
  ultimately show ?thesis using assms(1) by (auto simp: locked_until_def)
qed

lemma lock_step:
  assumes run: "run_auth x db = Some db'" and b: "before e x" and l: "locked_until k e db"
  shows "locked_until k e db'"
proof (cases x)
  case (Manage q op)
  then show ?thesis using b by (simp add: before_def)
next
  case (CompleteLogin clk i p)
  then obtain s where s: "complete_login clk i p db = Inr (s, db')" using run by auto
  have "uuid_text (lp_user p) \<noteq> k"
    using locked_login_refused [OF l] s b by (auto simp: CompleteLogin before_def)
  then show ?thesis
    by (intro locked_update [OF l complete_login_Inr(2) [OF s]]) (auto simp: logged_in_row_def)
next
  case (UseSession d now t)
  then obtain s u where "find_active_session d now t db = Inr ((s, u), db')" using run by auto
  from use_session_Inr(2) [OF this] show ?thesis by (intro locked_same_users [OF _ l]) simp
next
  case (Logout dbnow s u now r)
  then show ?thesis using run
    by (intro locked_same_users [OF _ l]) (auto simp: revoke_authenticated_session_def Let_def split: if_splits)
next
  case (ChangePassword p)
  then have "change_own_password p db = Inr db'" using run by simp
  from change_password_Inr(1) [OF this] show ?thesis
    by (rule locked_update [OF l]) (auto simp: changed_password_row_def password_row_def)
next
  case (LoginFailed p)
  then have "record_login_failure p db = Inr db'" using run by simp
  then show ?thesis
  proof (cases rule: login_failure_Inr)
    case unknown
    then show ?thesis by (intro locked_same_users [OF _ l])
  next
    case (known u r)
    from known(3) show ?thesis
      by (rule locked_update [OF l]) (use b in \<open>auto simp: failed_row_facts lock_branch_def lock_running_def before_def LoginFailed\<close>)
  qed
next
  case (LoginAudited t u r q)
  then show ?thesis using run
    by (intro locked_same_users [OF _ l]) (auto simp: record_login_audit_def split: if_splits)
next
  case (ChangeAudited u r q t)
  then show ?thesis using run
    by (intro locked_same_users [OF _ l]) (auto simp: record_password_change_audit_def split: if_splits)
next
  case (Setup t u b p)
  then obtain y where "create_first_global_administrator t u b p db = Inr (y, db')" using run by auto
  note s = setup_Inr [OF this]
  have "user_id y \<noteq> k" using s(8) l by (auto simp: locked_until_def)
  then show ?thesis using s(2) l by (auto simp: locked_until_def)
qed

text \<open>
  C4: a lock holds. While the lock of an account has not expired and no administrator intervenes, no
  sequence of logins, failures, password changes and uses of sessions lets anybody into the account:
  a login before the expiry is refused even with the right password, and even when it read the account
  before it was locked.
\<close>

theorem lock_holds:
  assumes "auth_steps (db, S) xs (db', S')" and "locked_until k e db" and "\<forall>x \<in> set xs. before e x"
    and "login env d clk x seen db' = (Inr y, db2, checks)" and "li_now x < e"
  shows "uuid_text (aus_id (lr_user y)) \<noteq> k"
proof
  assume k: "uuid_text (aus_id (lr_user y)) = k"
  have "locked_until k e (fst (db', S'))"
    using assms(1-3)
  proof (induction "(db, S)" xs "(db', S')" arbitrary: db S rule: steps.induct)
    case steps_none
    then show ?case by simp
  next
    case (steps_more x s1 xs db S)
    obtain db1 S1 where s1: "s1 = (db1, S1)" by (cases s1)
    have "run_auth x db = Some db1" using steps_more(2) by (simp add: s1 auth_run_Some)
    then have "locked_until k e db1" using lock_step steps_more.prems by simp
    with steps_more(4) [OF s1] steps_more.prems show ?case by simp
  qed
  then have l: "locked_until k e db'" by simp
  obtain u replacement s where u: "y = \<lparr>lr_user = auth_user_of u, lr_session = ses_id s,
      lr_token = dr_session_token d, lr_csrf = dr_csrf_token d, lr_expires = ses_expires s\<rparr>"
    and c: "complete_login clk (dr_session_id d) (login_write env d x u replacement) db' = Inr (s, db2)"
    and nz: "li_now x \<noteq> zero_time"
    using assms(4)
    by (auto simp: login_def login_known_def reject_unknown_def Let_def
        split: if_splits sum.splits prod.splits auth_error.splits)
  show False
    using locked_login_refused [OF l, of "login_write env d x u replacement" clk] c k u nz assms(5)
    by (auto simp: login_write_def auth_user_of_def)
qed

subsection \<open>What a refusal gives away\<close>

lemma reject_login_error:
  "reject_login env u x db = (e, db') \<Longrightarrow> e = InvalidCredentials \<or> (\<exists>f. e = StoreError f)"
  by (auto simp: reject_login_def split: sum.splits)

text \<open>
  Refused logins look alike. Provided the verifier and the hasher run and the store answers, an
  attempt that does not get in is told the one generic error and cost exactly one password check, whether
  the name is malformed or unknown, the password is wrong, or the account is disabled, locked or was
  changed meanwhile.
\<close>

theorem refusals_look_alike:
  assumes "login env d clk x seen db = (Inl e, db', checks)"
    and "\<not> blank (li_request x)" and "li_now x \<noteq> zero_time" and "length (li_password x) \<le> maximum_password_bytes"
    and "\<And>h. \<exists>r. ae_verify env (li_password x) h = Inr r" and "\<exists>h. ae_hash env (li_password x) = Inr h"
    and "\<And>f. e \<noteq> StoreError f"
  shows "e = InvalidCredentials \<and> length checks = 1"
proof -
  have rej: "e = InvalidCredentials" if "reject_login env u x db = (e, dd)" for u dd
    using reject_login_error [OF that] assms(7) by blast
  have unknown: "e = InvalidCredentials \<and> length checks = 1" if "reject_unknown env x db = (Inl e, db', checks)"
    using that assms(5) [of dummy_password_hash]
    by (auto simp: reject_unknown_def Let_def split: prod.splits dest: rej)
  have known: "e = InvalidCredentials \<and> length checks = 1" if "login_known env d clk x u db = (Inl e, db', checks)" for u
  proof -
    obtain m n where v: "ae_verify env (li_password x) (user_password u) = Inr (m, n)"
      using assms(5) [of "user_password u"] by auto
    obtain h where h: "ae_hash env (li_password x) = Inr h" using assms(6) by blast
    show ?thesis
    proof (cases "\<not> m \<or> user_status u = ''disabled'' \<or> lock_running u (li_now x)")
      case True
      then show ?thesis
        using that v
        by (auto simp: login_known_def Let_def split: prod.splits dest: rej)
    next
      case False
      then show ?thesis
        using that v h assms(7)
        by (auto simp: login_known_def Let_def split: prod.splits if_splits sum.splits auth_error.splits
            dest: rej)
    qed
  qed
  show ?thesis
    using assms(1-4,7) unknown known
    by (auto simp: login_def split: if_splits sum.splits)
qed

section \<open>A sample history\<close>

text \<open>
  The operator of the sample database logs in, two wrong passwords lock the account, and the operator
  logs in again after the lock has expired. The verifier compares texts, and the digest of a token is its
  first character 32 times.
\<close>

definition sample_env :: auth_env where
  "sample_env =
     \<lparr>ae_verify = (\<lambda>p h. Inr (p = h, False)), ae_hash = Inr, ae_username = Inr, ae_display = Inr,
      ae_digest = (\<lambda>t. replicate 32 (if t = [] then CHR ''0'' else hd t)),
      ae_config = \<lparr>ac_idle = 30, ac_absolute = 720, ac_checks = 4, ac_max_failed = 2, ac_lock = 15\<rparr>\<rparr>"

definition sample_input :: "string \<Rightarrow> time \<Rightarrow> login_input" where
  "sample_input p t = \<lparr>li_user = ''operator'', li_password = p, li_request = ''request'', li_now = t\<rparr>"

definition sample_draws :: "string \<Rightarrow> random_draws" where
  "sample_draws t = \<lparr>dr_session_id = t, dr_session_token = t, dr_csrf_token = ''csrf''\<rparr>"

definition at_clock :: "time \<Rightarrow> clocks" where
  "at_clock t = \<lparr>server_now = t, database_now = t\<rparr>"

definition operator_row :: user_row where "operator_row = ex_account ex_operator ''operator'' ''active''"

definition sample_login :: "string \<Rightarrow> time \<Rightarrow> auth_op" where
  "sample_login t now = CompleteLogin (at_clock now) t
     (login_write sample_env (sample_draws t) (sample_input ''h'' now) operator_row [])"

definition sample_failure :: "time \<Rightarrow> auth_op" where
  "sample_failure now = LoginFailed
     \<lparr>fp_user = Some ex_operator, fp_request = ''request'', fp_now = now, fp_max = 2, fp_duration = 15\<rparr>"

definition h1 :: access_db where "h1 = the (run_auth (sample_login ''a'' 10) ex_db)"
definition h2 :: access_db where "h2 = the (run_auth (sample_failure 20) h1)"
definition h3 :: access_db where "h3 = the (run_auth (sample_failure 21) h2)"
definition h4 :: access_db where "h4 = the (run_auth (sample_login ''b'' 40) h3)"

lemma sample_runs:
  "run_auth (sample_login ''a'' 10) ex_db = Some h1"
  "run_auth (sample_failure 20) h1 = Some h2"
  "run_auth (sample_failure 21) h2 = Some h3"
  "run_auth (sample_login ''b'' 40) h3 = Some h4"
  unfolding h4_def h3_def h2_def h1_def by code_simp+

definition session_a :: session_row where "session_a = hd (db_sessions h2)"
definition digest_a :: string where "digest_a = replicate 32 (CHR ''a'')"

lemma drawn_samples:
  "drawn (sample_login ''a'' 10) = {digest_a}" "drawn (sample_login ''b'' 40) = {replicate 32 (CHR ''b'')}"
  "drawn (sample_failure t) = {}"
  by (simp_all add: drawn_def sample_login_def sample_failure_def login_write_def sample_draws_def sample_env_def digest_a_def)

lemma sample_auth_runs:
  "auth_run (sample_login ''a'' 10) (ex_db, {}) = Some (h1, {digest_a})"
  "auth_run (sample_failure 20) (h1, S) = Some (h2, S)"
  "auth_run (sample_failure 21) (h2, S) = Some (h3, S)"
  "auth_run (sample_login ''b'' 40) (h3, S) = Some (h4, S \<union> {replicate 32 (CHR ''b'')})"
  by (simp_all add: auth_run_def sample_runs drawn_samples)

lemma sample_allowed:
  "auth_allowed (sample_login ''a'' 10) (ex_db, {})" "auth_allowed (sample_failure t) s"
  "auth_allowed (sample_login ''b'' 40) (h3, {digest_a})"
  by (simp_all add: auth_allowed_def drawn_samples) (simp_all add: sample_login_def sample_failure_def digest_a_def)

lemma first_login_steps: "auth_steps (ex_db, {}) [sample_login ''a'' 10] (h1, {digest_a})"
  by (simp add: steps_Cons_iff sample_auth_runs sample_allowed)

lemma relogin_steps: "auth_steps (h3, {digest_a}) [sample_login ''b'' 40] (h4, {digest_a} \<union> {replicate 32 (CHR ''b'')})"
  by (simp add: steps_Cons_iff sample_auth_runs sample_allowed)

theorem ended_sessions_never_return_witness:
  "isl (fst (authenticate sample_env ''a'' 50 h4)) \<and> \<not> isl (fst (authenticate sample_env ''a'' 15 h1))
   \<and> \<not> isl (fst (authenticate sample_env ''b'' 50 h4))"
proof -
  have "ends (sample_failure 21) h2 session_a" by code_simp
  moreover have "session_a \<in> set (db_sessions h2)" by code_simp
  moreover have "tokens_drawn (h2, {digest_a})" unfolding tokens_drawn_def by code_simp
  moreover have "ae_digest sample_env ''a'' = ses_token session_a" by code_simp
  ultimately have "isl (fst (authenticate sample_env ''a'' 50 h4))"
    using ended_sessions_never_return [OF sample_runs(3) _ _ _ relogin_steps] by blast
  moreover have "\<not> isl (fst (authenticate sample_env ''a'' 15 h1))" by code_simp
  moreover have "\<not> isl (fst (authenticate sample_env ''b'' 50 h4))" by code_simp
  ultimately show ?thesis by simp
qed

text \<open>Two wrong passwords against the only active administrator, with a threshold of two.\<close>

definition guess_admin :: "time \<Rightarrow> auth_op" where
  "guess_admin now = LoginFailed
     \<lparr>fp_user = Some ex_admin, fp_request = ''request'', fp_now = now, fp_max = 2, fp_duration = 15\<rparr>"

definition a1 :: access_db where "a1 = the (run_auth (guess_admin 20) ex_db)"
definition a2 :: access_db where "a2 = the (run_auth (guess_admin 21) a1)"

lemma guess_steps: "auth_steps (ex_db, {}) [guess_admin 20, guess_admin 21] (a2, {})"
proof -
  have "run_auth (guess_admin 20) ex_db = Some a1" "run_auth (guess_admin 21) a1 = Some a2"
    unfolding a2_def a1_def by code_simp+
  then show ?thesis
    by (simp add: steps_Cons_iff auth_run_def auth_allowed_def drawn_def guess_admin_def)
qed

theorem administrator_survives_witness:
  "global_administrators a2 \<noteq> [] \<and> map au_action (db_audits a2)
     = [''auth.login'', ''auth.account.lock_withheld'', ''auth.login'']"
proof -
  have "global_administrators ex_db \<noteq> []" by code_simp
  then have "global_administrators a2 \<noteq> []"
    using administrator_survives [OF guess_steps] ex_db_ok by simp
  moreover have "map au_action (db_audits a2) = [''auth.login'', ''auth.account.lock_withheld'', ''auth.login'']"
    by code_simp
  ultimately show ?thesis by simp
qed

definition fresh_db :: access_db where "fresh_db = ex_db\<lparr>db_users := [], db_bindings := []\<rparr>"

definition first_setup :: setup_params where
  "first_setup = \<lparr>su_name = ''root'', su_display = ''root'', su_hash = ''h'', su_request = ''request''\<rparr>"

definition set_up_db :: access_db where
  "set_up_db = the (stored_with (create_first_global_administrator 5 ex_admin ''1'' first_setup fresh_db))"

theorem setup_happens_once_witness:
  "\<not> setup_required set_up_db \<and> isl (create_first_global_administrator 9 ex_nobody ''2'' first_setup set_up_db)
   \<and> setup_required fresh_db"
proof -
  have "create_first_global_administrator 5 ex_admin ''1'' first_setup fresh_db
      = Inr (fst (projr (create_first_global_administrator 5 ex_admin ''1'' first_setup fresh_db)), set_up_db)"
    unfolding set_up_db_def by code_simp
  moreover have "db_ok fresh_db" unfolding db_ok_def by code_simp
  moreover have "auth_steps (set_up_db, {}) [] (set_up_db, {})" by simp
  ultimately have "\<not> setup_required set_up_db \<and> isl (create_first_global_administrator 9 ex_nobody ''2'' first_setup set_up_db)"
    by (rule setup_happens_once)
  moreover have "setup_required fresh_db" by code_simp
  ultimately show ?thesis by simp
qed

definition identity_a :: auth_identity where
  "identity_a = projr (fst (authenticate sample_env ''a'' 15 h1))"

theorem accepted_requests_come_from_logins_witness:
  "\<exists>clk sid p r. CompleteLogin clk sid p \<in> set [sample_login ''a'' 10]
     \<and> sp_token (lp_session p) = ae_digest sample_env ''a'' \<and> aus_id (aid_user identity_a) = uuid_text (lp_user p)
     \<and> 15 < sp_expires (lp_session p) \<and> aid_expires identity_a = sp_expires (lp_session p)
     \<and> r \<in> set (db_users h1) \<and> user_id r = aus_id (aid_user identity_a) \<and> user_status r = ''active''
     \<and> user_password_changed r \<le> database_now clk"
proof -
  have "db_sessions (fst (ex_db, {} :: string set)) = []" by (simp add: ex_db_def)
  moreover have "fst (authenticate sample_env ''a'' 15 h1) = Inr identity_a" unfolding identity_a_def by code_simp
  ultimately show ?thesis by (rule accepted_requests_come_from_logins [OF first_login_steps])
qed

text \<open>The database's clock is five units behind the last password change.\<close>

definition behind :: clocks where "behind = \<lparr>server_now = 10, database_now = - 5\<rparr>"

definition behind_params :: login_params where
  "behind_params = login_write sample_env (sample_draws ''a'') (sample_input ''h'' 10) operator_row []"

definition behind_result :: "session_row \<times> access_db" where
  "behind_result = projr (complete_login behind ''a'' behind_params ex_db)"

theorem login_behind_the_clock_witness:
  "isl (fst (authenticate sample_env ''a'' 15 (snd behind_result)))"
proof -
  have "complete_login behind ''a'' behind_params ex_db = Inr (fst behind_result, snd behind_result)"
    unfolding behind_result_def by code_simp
  moreover have "database_now behind < lp_changed behind_params" by code_simp
  moreover have "ae_digest sample_env ''a'' = ses_token (fst behind_result)" unfolding behind_result_def by code_simp
  ultimately show ?thesis using ex_db_ok by (rule login_behind_the_clock)
qed

theorem locking_is_predicted_witness:
  "user_status (failed_row \<lparr>fp_user = Some ex_operator, fp_request = ''r'', fp_now = 20, fp_max = 1, fp_duration = 15\<rparr>
     (lockable ex_db ex_operator) operator_row) = ''locked''
   \<longleftrightarrow> login_failure_may_lock ''active'' 0 None 20 1 \<and> lockable ex_db ex_operator"
  using locking_is_predicted [of operator_row
      "\<lparr>fp_user = Some ex_operator, fp_request = ''r'', fp_now = 20, fp_max = 1, fp_duration = 15\<rparr>" ex_db ex_operator]
  by (simp add: operator_row_def ex_account_def user_row_ok_def lock_running_def)

definition admin_input :: login_input where
  "admin_input = \<lparr>li_user = ''admin'', li_password = ''h'', li_request = ''request'', li_now = 30\<rparr>"

theorem lock_holds_witness:
  "uuid_text (aus_id (lr_user (projr (fst (login sample_env (sample_draws ''c'') (at_clock 30) admin_input h3 h3)))))
     \<noteq> ex_operator
   \<and> fst (login sample_env (sample_draws ''d'') (at_clock 30) (sample_input ''h'' 30) h1 h3) = Inl InvalidCredentials"
proof -
  let ?l = "login sample_env (sample_draws ''c'') (at_clock 30) admin_input h3 h3"
  have l: "?l = (Inr (projr (fst ?l)), fst (snd ?l), snd (snd ?l))" by code_simp
  have "locked_until ex_operator 36 h3" unfolding locked_until_def by code_simp
  moreover have "li_now admin_input < 36" by code_simp
  moreover have "auth_steps (h3, {}) [] (h3, {})" by simp
  ultimately have "uuid_text (aus_id (lr_user (projr (fst ?l)))) \<noteq> ex_operator"
    using lock_holds [of h3 "{}" "[]" h3 "{}" ex_operator 36, OF _ _ _ l] by simp
  moreover have "fst (login sample_env (sample_draws ''d'') (at_clock 30) (sample_input ''h'' 30) h1 h3) = Inl InvalidCredentials"
    by code_simp
  ultimately show ?thesis by simp
qed

theorem refusals_look_alike_witness:
  "snd (snd (login sample_env (sample_draws ''c'') (at_clock 30) (sample_input ''wrong'' 30) ex_db ex_db)) = [''h'']
   \<and> length (snd (snd (login sample_env (sample_draws ''c'') (at_clock 30) (sample_input ''wrong'' 30) ex_db ex_db))) = 1"
proof -
  let ?l = "login sample_env (sample_draws ''c'') (at_clock 30) (sample_input ''wrong'' 30) ex_db ex_db"
  have l: "?l = (Inl InvalidCredentials, fst (snd ?l), snd (snd ?l))" by code_simp
  have "\<not> blank (li_request (sample_input ''wrong'' 30))" "li_now (sample_input ''wrong'' 30) \<noteq> zero_time"
    "length (li_password (sample_input ''wrong'' 30)) \<le> maximum_password_bytes"
    by (simp_all add: sample_input_def zero_time_def maximum_password_bytes_def) code_simp
  moreover have "\<exists>r. ae_verify sample_env p h = Inr r" "\<exists>h. ae_hash sample_env p = Inr h" for p h
    by (rule exI, simp add: sample_env_def)+
  ultimately have "length (snd (snd ?l)) = 1"
    using refusals_look_alike [OF l] by blast
  moreover have "snd (snd ?l) = [''h'']" by code_simp
  ultimately show ?thesis by simp
qed

end
