(* ===== verification/Tables.thy ===== *)
theory Tables
  imports Prelude
begin

section \<open>Bounded tables\<close>

text \<open>
  Several components keep a Go map that must not grow without end and make room before an insertion:
  they scan the map, drop what has expired, remember the oldest entry under the empty string as "none
  yet", and remove it when the map is still full. Go's iteration order is unspecified, so the order a
  scan meets is chosen by an argument: \<open>iterate order m\<close> is the permutation of \<open>m\<close> that \<open>order\<close> picks,
  every permutation is picked by some \<open>order\<close>, and no proof uses more than that it is one.
\<close>

type_synonym 'e table = "(string \<times> 'e) list"

definition iterate :: "('e table \<Rightarrow> 'e table) \<Rightarrow> 'e table \<Rightarrow> 'e table" where
  "iterate order m = (if mset (order m) = mset m then order m else m)"

lemma iterate_perm [simp]: "mset (iterate order m) = mset m"
  by (simp add: iterate_def)

lemma iterate_any: "mset p = mset m \<Longrightarrow> \<exists>order. iterate order m = p"
  by (rule exI [of _ "\<lambda>_. p"]) (simp add: iterate_def)

lemma iterate_set [simp]: "set (iterate order m) = set m"
  by (metis iterate_perm set_mset_mset)

definition scan_step ::
    "('e \<Rightarrow> bool) \<Rightarrow> ('e \<Rightarrow> time) \<Rightarrow> string \<times> 'e \<Rightarrow> 'e table \<times> string \<times> time \<Rightarrow> 'e table \<times> string \<times> time" where
  "scan_step expired started x s =
     (case (x, s) of ((k, e), (m, ok, ot)) \<Rightarrow>
        if expired e then (AList.delete k m, ok, ot)
        else if ok = [] \<or> started e < ot then (m, k, started e)
        else (m, ok, ot))"

definition make_room ::
    "nat \<Rightarrow> ('e \<Rightarrow> bool) \<Rightarrow> ('e \<Rightarrow> time) \<Rightarrow> ('e table \<Rightarrow> 'e table) \<Rightarrow> 'e table \<Rightarrow> 'e table" where
  "make_room cap expired started order m =
     (if length m < cap then m
      else case fold (scan_step expired started) (iterate order m) (m, [], zero_time) of
             (m', ok, ot) \<Rightarrow> if cap \<le> length m' \<and> ok \<noteq> [] then AList.delete ok m' else m')"

text \<open>The entries that survive the scan, and the key it remembers.\<close>

lemma scan_entries:
  "fst (fold (scan_step expired started) xs (m, ok, ot))
     = filter (\<lambda>x. fst x \<notin> fst ` {y \<in> set xs. expired (snd y)}) m"
proof (induction xs arbitrary: m ok ot)
  case Nil
  then show ?case by simp
next
  case (Cons x xs)
  obtain k e where x: "x = (k, e)" by (cases x)
  show ?case
  proof (cases "expired e")
    case True
    have "filter (\<lambda>y. fst y \<notin> fst ` {y \<in> set xs. expired (snd y)}) (AList.delete k m)
        = filter (\<lambda>y. fst y \<notin> insert k (fst ` {y \<in> set xs. expired (snd y)})) m"
      by (simp add: AList.delete_eq case_prod_beta conj_commute) (rule filter_cong, auto)
    moreover have "fst ` {y \<in> set (x # xs). expired (snd y)} = insert k (fst ` {y \<in> set xs. expired (snd y)})"
      using True x by force
    ultimately show ?thesis using True x Cons.IH by (simp add: scan_step_def)
  next
    case False
    then have "{y \<in> set (x # xs). expired (snd y)} = {y \<in> set xs. expired (snd y)}"
      using x by auto
    then show ?thesis using False x Cons.IH by (simp add: scan_step_def)
  qed
qed

lemma scan_key:
  assumes "\<forall>x \<in> set xs. fst x \<noteq> []"
  shows "case fold (scan_step expired started) xs (m, ok, ot) of (m', k, t) \<Rightarrow>
           (k = ok \<or> k \<in> fst ` {y \<in> set xs. \<not> expired (snd y)})
           \<and> (ok \<noteq> [] \<or> (\<exists>y \<in> set xs. \<not> expired (snd y)) \<longrightarrow> k \<noteq> [])"
  using assms
proof (induction xs arbitrary: m ok ot)
  case Nil
  then show ?case by simp
next
  case (Cons x xs)
  obtain k e where x: "x = (k, e)" by (cases x)
  obtain m1 k1 t1 where s: "scan_step expired started x (m, ok, ot) = (m1, k1, t1)"
    by (cases "scan_step expired started x (m, ok, ot)")
  obtain m' k' t' where r: "fold (scan_step expired started) xs (m1, k1, t1) = (m', k', t')"
    by (cases "fold (scan_step expired started) xs (m1, k1, t1)")
  have IH: "(k' = k1 \<or> k' \<in> fst ` {y \<in> set xs. \<not> expired (snd y)})
      \<and> (k1 \<noteq> [] \<or> (\<exists>y \<in> set xs. \<not> expired (snd y)) \<longrightarrow> k' \<noteq> [])"
    using Cons.IH [where m = m1 and ok = k1 and ot = t1] Cons.prems r by simp
  have k1: "k1 = ok \<or> (k1 = k \<and> \<not> expired e)" "\<not> expired e \<Longrightarrow> k1 \<noteq> []" "ok \<noteq> [] \<Longrightarrow> k1 \<noteq> []"
    using s x Cons.prems by (auto simp: scan_step_def split: if_splits)
  have fold: "fold (scan_step expired started) (x # xs) (m, ok, ot) = (m', k', t')"
    using s r by simp
  have "{y \<in> set (x # xs). \<not> expired (snd y)}
      = (if expired e then {} else {x}) \<union> {y \<in> set xs. \<not> expired (snd y)}"
    using x by auto
  moreover have "(\<exists>y \<in> set (x # xs). \<not> expired (snd y)) \<longleftrightarrow> \<not> expired e \<or> (\<exists>y \<in> set xs. \<not> expired (snd y))"
    using x by simp
  ultimately show ?case
    unfolding fold prod.case using IH k1 x by (cases "expired e") (simp_all, auto)
qed

lemma fst_scan: "fold f xs a = (m, k, t) \<Longrightarrow> m = fst (fold f xs a)"
  by simp

lemma length_delete_less: "k \<in> fst ` set m \<Longrightarrow> length (AList.delete k m) < length m"
  by (auto simp: AList.delete_eq case_prod_beta length_filter_less)

lemma set_delete_subset: "set (AList.delete k m) \<subseteq> set m"
  by (auto simp: AList.delete_eq)

definition table_ok :: "'e table \<Rightarrow> bool" where
  "table_ok m \<longleftrightarrow> distinct (map fst m) \<and> (\<forall>x \<in> set m. fst x \<noteq> [])"

lemma table_ok_Nil [simp]: "table_ok []" by (simp add: table_ok_def)

lemma table_ok_delete: "table_ok m \<Longrightarrow> table_ok (AList.delete k m)"
  using set_delete_subset [of k m] by (auto simp: table_ok_def AList.distinct_delete)

lemma table_ok_filter: "table_ok m \<Longrightarrow> table_ok (filter P m)"
  by (auto simp: table_ok_def distinct_map_filter)

lemma set_update_fst: "fst ` set (AList.update k e m) = insert k (fst ` set m)"
  by (induction m) auto

lemma table_ok_update: "table_ok m \<Longrightarrow> k \<noteq> [] \<Longrightarrow> table_ok (AList.update k e m)"
  unfolding table_ok_def using set_update_fst [of k e m] AList.distinct_update [of m k e]
  by (metis (no_types, lifting) imageE imageI insertE)

lemma length_update_le: "length (AList.update k e m) \<le> Suc (length m)"
  by (induction m) auto

lemma length_update_mem: "k \<in> fst ` set m \<Longrightarrow> length (AList.update k e m) = length m"
  by (induction m) auto

lemma length_update_new: "k \<notin> fst ` set m \<Longrightarrow> length (AList.update k e m) = Suc (length m)"
  by (induction m) auto

lemma make_room_cases:
  assumes "table_ok m" and "cap \<le> length m" and "0 < cap"
  obtains (short) m' where "make_room cap expired started order m = m'" "length m' < cap"
      "m' = filter (\<lambda>x. fst x \<notin> fst ` {y \<in> set m. expired (snd y)}) m"
  | (oldest) k m' where "make_room cap expired started order m = AList.delete k m'" "k \<in> fst ` set m'"
      "m' = filter (\<lambda>x. fst x \<notin> fst ` {y \<in> set m. expired (snd y)}) m" "cap \<le> length m'"
proof -
  obtain m' k t where r: "fold (scan_step expired started) (iterate order m) (m, [], zero_time) = (m', k, t)"
    by (cases "fold (scan_step expired started) (iterate order m) (m, [], zero_time)")
  have m': "m' = filter (\<lambda>x. fst x \<notin> fst ` {y \<in> set m. expired (snd y)}) m"
    using scan_entries [of expired started "iterate order m" m "[]" zero_time] r by simp
  have keys: "\<forall>x \<in> set (iterate order m). fst x \<noteq> []"
    using assms(1) by (simp add: table_ok_def)
  have key: "(k = [] \<or> k \<in> fst ` {y \<in> set m. \<not> expired (snd y)})
      \<and> ((\<exists>y \<in> set m. \<not> expired (snd y)) \<longrightarrow> k \<noteq> [])"
    using scan_key [OF keys, where expired = expired and started = started and m = m and ok = "[]" and ot = zero_time] r by simp
  have alive: "y \<in> set m'" if "y \<in> set m" "\<not> expired (snd y)" for y
    using that assms(1) unfolding m' by (auto simp: table_ok_def distinct_map inj_on_def)
  show thesis
  proof (cases "cap \<le> length m'")
    case False
    then show thesis
      using short [of m'] m' r assms(2) by (simp add: make_room_def)
  next
    case True
    then obtain y where y: "y \<in> set m'" using assms(3) by (cases m') auto
    then have "y \<in> set m" "\<not> expired (snd y)" unfolding m' by auto
    then have "k \<noteq> []" "k \<in> fst ` {y \<in> set m. \<not> expired (snd y)}" using key by blast+
    moreover from this(2) have "k \<in> fst ` set m'" using alive by blast
    ultimately show thesis
      using oldest [of k m'] m' r True assms(2) by (simp add: make_room_def)
  qed
qed

lemma make_room_less:
  assumes "table_ok m" and "length m \<le> cap" and "0 < cap"
  shows "length (make_room cap expired started order m) < cap"
proof (cases "length m < cap")
  case True
  then show ?thesis by (simp add: make_room_def)
next
  case False
  then have "cap \<le> length m" by simp
  from assms(1) this assms(3) show ?thesis
  proof (cases rule: make_room_cases [where order = order and expired = expired and started = started])
    case (short m')
    then show ?thesis by simp
  next
    case (oldest k m')
    have "length m' \<le> length m" using oldest(3) by simp
    then show ?thesis using oldest(1) length_delete_less [OF oldest(2)] assms(2) by simp
  qed
qed

lemma make_room_ok:
  assumes "table_ok m" and "0 < cap"
  shows "table_ok (make_room cap expired started order m)"
proof (cases "length m < cap")
  case True
  then show ?thesis using assms by (simp add: make_room_def)
next
  case False
  then have "cap \<le> length m" by simp
  from assms(1) this assms(2) show ?thesis
    by (cases rule: make_room_cases [where order = order and expired = expired and started = started])
      (simp_all add: assms(1) table_ok_filter table_ok_delete)
qed

lemma make_room_subset: "set (make_room cap expired started order m) \<subseteq> set m"
proof (cases "length m < cap")
  case True
  then show ?thesis by (simp add: make_room_def)
next
  case False
  obtain m' k t where r: "fold (scan_step expired started) (iterate order m) (m, [], zero_time) = (m', k, t)"
    by (cases "fold (scan_step expired started) (iterate order m) (m, [], zero_time)")
  have "set m' \<subseteq> set m"
    using scan_entries [of expired started "iterate order m" m "[]" zero_time] r by auto
  then show ?thesis using False r set_delete_subset [of k m'] by (auto simp: make_room_def)
qed

text \<open>
  The interface: a client makes room and then puts one entry, and the table never exceeds its
  capacity.
\<close>

locale bounded_table =
  fixes make_space :: "'m \<Rightarrow> 'm" and put :: "'k \<Rightarrow> 'v \<Rightarrow> 'm \<Rightarrow> 'm"
    and size_of :: "'m \<Rightarrow> nat" and wf :: "'m \<Rightarrow> bool" and key_ok :: "'k \<Rightarrow> bool" and cap :: nat
  assumes space: "wf m \<Longrightarrow> size_of m \<le> cap \<Longrightarrow> size_of (make_space m) < cap"
    and space_wf: "wf m \<Longrightarrow> wf (make_space m)"
    and put_size: "size_of (put k v m) \<le> Suc (size_of m)"
    and put_wf: "wf m \<Longrightarrow> key_ok k \<Longrightarrow> wf (put k v m)"
begin

definition within :: "'m \<Rightarrow> bool" where
  "within m \<longleftrightarrow> wf m \<and> size_of m \<le> cap"

lemma space_within: "within m \<Longrightarrow> within (make_space m)"
  using space [of m] space_wf [of m] by (simp add: within_def)

lemma put_after_space: "within m \<Longrightarrow> key_ok k \<Longrightarrow> within (put k v (make_space m))"
  using space [of m] space_wf [of m] put_wf [of "make_space m" k v] put_size [of k v "make_space m"]
  by (simp add: within_def)

lemma put_within_size: "within m \<Longrightarrow> key_ok k \<Longrightarrow> size_of (put k v m) = size_of m \<Longrightarrow> within (put k v m)"
  using put_wf [of m k v] by (simp add: within_def)

end

end
