(* ===== verification/Limiters.thy ===== *)
theory Limiters
  imports Tables
begin

section \<open>The login and source rate limiters\<close>

text \<open>
  \<open>pkg/server/httpapi/source_limiter.go\<close> and \<open>login_limiter.go\<close>: attempts counted in a fixed window per
  key, in a map with a nominal capacity. The digest behind a login key (SHA-256) is the argument
  \<open>digest\<close>; the iteration order of the map is the argument \<open>order\<close>. The capacity is an argument of the
  operations, so that small tables can be evaluated; the code's constant is \<open>max_entries\<close>.
\<close>

definition max_entries :: nat where "max_entries = 10000"

subsection \<open>One window\<close>

record limit_entry =
  window_started :: time
  attempts :: int
  denial_audited :: bool

definition window_over :: "duration \<Rightarrow> time \<Rightarrow> limit_entry \<Rightarrow> bool" where
  "window_over window now e \<longleftrightarrow> \<not> now < window_started e + window"

definition ensure_capacity ::
    "nat \<Rightarrow> (limit_entry table \<Rightarrow> limit_entry table) \<Rightarrow> duration \<Rightarrow> time \<Rightarrow> limit_entry table \<Rightarrow> limit_entry table" where
  "ensure_capacity cap order window now m = make_room cap (window_over window now) window_started order m"

definition retry_after :: "limit_entry \<Rightarrow> duration \<Rightarrow> time \<Rightarrow> duration" where
  "retry_after e window now =
     (let remaining = time_sub (window_started e + window) now in
      if remaining \<le> 0 then second else remaining)"

subsection \<open>Source limiter\<close>

record source_limiter =
  sl_window :: duration
  sl_max_attempts :: int
  sl_entries :: "limit_entry table"

definition default_source_window :: duration where "default_source_window = minute"
definition default_source_attempts :: int where "default_source_attempts = 30"

definition new_source_limiter :: "duration \<Rightarrow> int \<Rightarrow> source_limiter" where
  "new_source_limiter window maximum =
     \<lparr>sl_window = (if window \<le> 0 then default_source_window else window),
      sl_max_attempts = (if maximum \<le> 0 then default_source_attempts else maximum),
      sl_entries = []\<rparr>"

definition fresh_entry :: "time \<Rightarrow> limit_entry" where
  "fresh_entry now = \<lparr>window_started = now, attempts = 0, denial_audited = False\<rparr>"

definition current_entry ::
    "nat \<Rightarrow> (limit_entry table \<Rightarrow> limit_entry table) \<Rightarrow> duration \<Rightarrow> string \<Rightarrow> time \<Rightarrow> limit_entry table
       \<Rightarrow> limit_entry \<times> limit_entry table" where
  "current_entry cap order window key now m =
     (case map_of m key of
        Some e \<Rightarrow> if window_over window now e then (fresh_entry now, ensure_capacity cap order window now m)
                  else (e, m)
      | None \<Rightarrow> (fresh_entry now, ensure_capacity cap order window now m))"

definition source_allow ::
    "nat \<Rightarrow> (limit_entry table \<Rightarrow> limit_entry table) \<Rightarrow> string \<Rightarrow> time \<Rightarrow> source_limiter
       \<Rightarrow> (bool \<times> duration) \<times> source_limiter" where
  "source_allow cap order source now l =
     (case current_entry cap order (sl_window l) source now (sl_entries l) of
        (e, m) \<Rightarrow>
          if sl_max_attempts l \<le> attempts e
          then ((False, retry_after e (sl_window l) now), l\<lparr>sl_entries := m\<rparr>)
          else ((True, 0), l\<lparr>sl_entries := AList.update source (e\<lparr>attempts := attempts e + 1\<rparr>) m\<rparr>))"

subsection \<open>Login limiter\<close>

record login_limiter =
  ll_window :: duration
  ll_max_account :: int
  ll_max_source :: int
  ll_entries :: "limit_entry table"

definition new_login_limiter :: "duration \<Rightarrow> int \<Rightarrow> int \<Rightarrow> login_limiter" where
  "new_login_limiter window account source =
     \<lparr>ll_window = window, ll_max_account = account, ll_max_source = source, ll_entries = []\<rparr>"

definition login_limit_key :: "(string \<Rightarrow> string) \<Rightarrow> string \<Rightarrow> string \<Rightarrow> string" where
  "login_limit_key digest kind value = kind @ '':'' @ digest value"

definition login_allow ::
    "nat \<Rightarrow> (limit_entry table \<Rightarrow> limit_entry table) \<Rightarrow> (string \<Rightarrow> string) \<Rightarrow> string \<Rightarrow> string \<Rightarrow> time
       \<Rightarrow> login_limiter \<Rightarrow> (bool \<times> duration \<times> bool) \<times> login_limiter" where
  "login_allow cap order digest source account now l =
     (let w = ll_window l; sk = login_limit_key digest ''source'' source in
      case current_entry cap order w sk now (ll_entries l) of
        (se, m1) \<Rightarrow>
          if ll_max_source l \<le> attempts se
          then ((False, retry_after se w now, \<not> denial_audited se),
                l\<lparr>ll_entries := AList.update sk (se\<lparr>denial_audited := True\<rparr>) m1\<rparr>)
          else
            (let ak = login_limit_key digest ''account'' account in
             case current_entry cap order w ak now m1 of
               (ae, m2) \<Rightarrow>
                 if ll_max_account l \<le> attempts ae
                 then ((False, retry_after ae w now, \<not> denial_audited ae),
                       l\<lparr>ll_entries := AList.update ak (ae\<lparr>denial_audited := True\<rparr>) m2\<rparr>)
                 else ((True, 0, False),
                       l\<lparr>ll_entries := AList.update ak (ae\<lparr>attempts := attempts ae + 1\<rparr>)
                                        (AList.update sk (se\<lparr>attempts := attempts se + 1\<rparr>) m2)\<rparr>)))"

section \<open>The source table is bounded\<close>

interpretation source_table: bounded_table
  "ensure_capacity max_entries order window now" AList.update length table_ok "\<lambda>k. k \<noteq> []" max_entries
  for order window now
proof
  fix m :: "limit_entry table" and k v
  have cap: "0 < max_entries" by (simp add: max_entries_def)
  show "length (ensure_capacity max_entries order window now m) < max_entries"
    if "table_ok m" "length m \<le> max_entries"
    using that cap unfolding ensure_capacity_def by (intro make_room_less)
  show "table_ok (ensure_capacity max_entries order window now m)" if "table_ok m"
    using that cap unfolding ensure_capacity_def by (intro make_room_ok)
  show "length (AList.update k v m) \<le> Suc (length m)" by (rule length_update_le)
  show "table_ok (AList.update k v m)" if "table_ok m" "k \<noteq> []"
    using that by (rule table_ok_update)
qed

lemma current_entry_cases:
  assumes "current_entry cap order w k now m = (e, m')"
  obtains (kept) "m' = m" "map_of m k = Some e" "\<not> window_over w now e"
  | (fresh) "m' = ensure_capacity cap order w now m" "e = fresh_entry now"
  using assms by (auto simp: current_entry_def split: option.splits if_splits)

text \<open>
  The source limiter holds its bound. Whatever order the map iterates in and whatever is asked,
  as long as sources are not empty strings, ten thousand entries are never exceeded.
\<close>

theorem source_limiter_bounded:
  assumes "table_ok (sl_entries l)" and "length (sl_entries l) \<le> max_entries" and "source \<noteq> []"
  shows "length (sl_entries (snd (source_allow max_entries order source now l))) \<le> max_entries
         \<and> table_ok (sl_entries (snd (source_allow max_entries order source now l)))"
proof -
  obtain e m where c: "current_entry max_entries order (sl_window l) source now (sl_entries l) = (e, m)"
    by (cases "current_entry max_entries order (sl_window l) source now (sl_entries l)")
  have w: "source_table.within (sl_entries l)"
    using assms(1,2) by (simp add: source_table.within_def)
  from c have "source_table.within m \<and> (\<forall>v. source_table.within (AList.update source v m))"
  proof (cases rule: current_entry_cases)
    case kept
    then have "source \<in> fst ` set m" by (metis domI dom_map_of_conv_image_fst)
    then show ?thesis
      using kept w assms(3) by (simp add: source_table.put_within_size length_update_mem)
  next
    case fresh
    then show ?thesis
      using w assms(3) source_table.space_within source_table.put_after_space by simp
  qed
  then show ?thesis
    using c by (auto simp: source_allow_def source_table.within_def)
qed

theorem source_limiter_bounded_witness:
  "length (sl_entries (snd (source_allow max_entries rev ''10.0.0.1'' 0 (new_source_limiter minute 3)))) \<le> max_entries"
  using source_limiter_bounded [of "new_source_limiter minute 3" "''10.0.0.1''" rev 0]
  by (simp add: new_source_limiter_def)

subsection \<open>How many attempts a window admits\<close>

text \<open>A run of calls, and how many of a source's were admitted.\<close>

fun source_run ::
    "nat \<Rightarrow> (limit_entry table \<Rightarrow> limit_entry table) \<Rightarrow> (string \<times> time) list \<Rightarrow> source_limiter
       \<Rightarrow> bool list \<times> source_limiter" where
  "source_run cap order [] l = ([], l)"
| "source_run cap order ((s, now) # cs) l =
     (case source_allow cap order s now l of
        ((ok, _), l') \<Rightarrow> (case source_run cap order cs l' of (oks, l'') \<Rightarrow> (ok # oks, l'')))"

definition admitted :: "string \<Rightarrow> (string \<times> time) list \<Rightarrow> bool list \<Rightarrow> int" where
  "admitted s cs oks = int (length (filter (\<lambda>(c, ok). fst c = s \<and> ok) (zip cs oks)))"

lemma source_allow_params [simp]:
  "sl_window (snd (source_allow cap order s now l)) = sl_window l"
  "sl_max_attempts (snd (source_allow cap order s now l)) = sl_max_attempts l"
  by (auto simp: source_allow_def split: prod.splits)

lemma current_entry_not_full:
  "length m < cap \<Longrightarrow> current_entry cap order w k now m = (e, m') \<Longrightarrow> m' = m"
  by (erule current_entry_cases) (simp_all add: ensure_capacity_def make_room_def)

lemma source_allow_not_full:
  assumes "length (sl_entries l) < cap"
  shows "length (sl_entries (snd (source_allow cap order s now l))) \<le> Suc (length (sl_entries l))"
    and "k \<noteq> s \<Longrightarrow> map_of (sl_entries (snd (source_allow cap order s now l))) k = map_of (sl_entries l) k"
proof -
  obtain e m where c: "current_entry cap order (sl_window l) s now (sl_entries l) = (e, m)"
    by (cases "current_entry cap order (sl_window l) s now (sl_entries l)")
  with current_entry_not_full [OF assms] have "m = sl_entries l" by blast
  with c show "length (sl_entries (snd (source_allow cap order s now l))) \<le> Suc (length (sl_entries l))"
    and "k \<noteq> s \<Longrightarrow> map_of (sl_entries (snd (source_allow cap order s now l))) k = map_of (sl_entries l) k"
    by (simp_all add: source_allow_def length_update_le update_conv')
qed

lemma source_allow_same:
  assumes "map_of (sl_entries l) s = Some e" and "now < window_started e + sl_window l"
  shows "source_allow cap order s now l =
     (if sl_max_attempts l \<le> attempts e then ((False, retry_after e (sl_window l) now), l)
      else ((True, 0), l\<lparr>sl_entries := AList.update s (e\<lparr>attempts := attempts e + 1\<rparr>) (sl_entries l)\<rparr>))"
  using assms by (simp add: source_allow_def current_entry_def window_over_def)

lemma source_allow_entry:
  assumes "map_of (sl_entries l) s = Some e" and "now < window_started e + sl_window l"
    and "length (sl_entries l) < cap" and "source_allow cap order t now l = ((ok, d), l')"
  shows "map_of (sl_entries l') s = Some (if t = s \<and> ok then e\<lparr>attempts := attempts e + 1\<rparr> else e)
         \<and> (t = s \<and> ok \<longrightarrow> attempts e + 1 \<le> sl_max_attempts l)"
proof (cases "t = s")
  case True
  then show ?thesis
    using source_allow_same [OF assms(1,2), of cap order] assms(1,4) by (auto simp: update_conv' split: if_splits)
next
  case False
  then show ?thesis using source_allow_not_full(2) [OF assms(3), of s t order now] assms(1,4) by simp
qed

text \<open>
  The limit limits. Once a window is open for a source, every run of calls inside that window, from
  this and other sources in any interleaving, admits the source at most the attempts it has left,
  provided the table does not fill up meanwhile.
\<close>

theorem source_window_limit:
  assumes "map_of (sl_entries l) s = Some e" and "\<forall>c \<in> set cs. snd c < window_started e + sl_window l"
    and "length (sl_entries l) + length cs \<le> cap" and "attempts e \<le> sl_max_attempts l"
  shows "admitted s cs (fst (source_run cap order cs l)) \<le> sl_max_attempts l - attempts e"
  using assms
proof (induction cs arbitrary: l e)
  case Nil
  then show ?case by (simp add: admitted_def)
next
  case (Cons c cs)
  obtain t now where cn: "c = (t, now)" by (cases c)
  obtain ok d l' where a: "source_allow cap order t now l = ((ok, d), l')"
    by (metis prod.collapse)
  obtain oks l'' where r: "source_run cap order cs l' = (oks, l'')"
    by (cases "source_run cap order cs l'")
  have full: "length (sl_entries l) < cap" using Cons.prems(3) by simp
  have len: "length (sl_entries l') + length cs \<le> cap"
    using source_allow_not_full(1) [OF full, of order t now] a Cons.prems(3) by simp
  have par: "sl_window l' = sl_window l" "sl_max_attempts l' = sl_max_attempts l"
    using source_allow_params [of cap order t now l] a by simp_all
  define e' where "e' = (if t = s \<and> ok then e\<lparr>attempts := attempts e + 1\<rparr> else e)"
  have entry: "map_of (sl_entries l') s = Some e'" and room: "t = s \<and> ok \<longrightarrow> attempts e + 1 \<le> sl_max_attempts l"
    using source_allow_entry [OF Cons.prems(1) _ full a] Cons.prems(2) cn unfolding e'_def by auto
  have "admitted s cs (fst (source_run cap order cs l')) \<le> sl_max_attempts l' - attempts e'"
    by (rule Cons.IH [OF entry]) (use Cons.prems(2,4) len par room in \<open>auto simp: e'_def\<close>)
  then show ?case
    using a r cn par by (auto simp: admitted_def e'_def split: if_splits)
qed

definition ex_source_limiter :: source_limiter where
  "ex_source_limiter = snd (source_allow 9 rev ''a'' 0 (new_source_limiter minute 2))"

theorem source_window_limit_witness:
  "admitted ''a'' [(''a'', 1), (''b'', 2), (''a'', 3), (''a'', 4)]
     (fst (source_run 9 rev [(''a'', 1), (''b'', 2), (''a'', 3), (''a'', 4)] ex_source_limiter)) \<le> 1"
proof -
  let ?e = "\<lparr>window_started = 0, attempts = 1, denial_audited = False\<rparr>"
  have l: "ex_source_limiter = \<lparr>sl_window = minute, sl_max_attempts = 2, sl_entries = [(''a'', ?e)]\<rparr>"
    by (simp add: ex_source_limiter_def source_allow_def current_entry_def new_source_limiter_def
        ensure_capacity_def make_room_def fresh_entry_def minute_def)
  show ?thesis
    using source_window_limit [of ex_source_limiter "''a''" ?e "[(''a'', 1), (''b'', 2), (''a'', 3), (''a'', 4)]" 9 rev]
    by (simp add: l minute_def)
qed

section \<open>The login limiter\<close>

lemma login_keys_differ: "login_limit_key digest ''source'' s \<noteq> login_limit_key digest ''account'' a"
  by (simp add: login_limit_key_def)

lemma not_over_before_retry:
  assumes "\<not> window_over w now e" and "now' < now + retry_after e w now"
  shows "\<not> window_over w now' e"
  using assms by (auto simp: window_over_def retry_after_def time_sub_def Let_def min_int64_def max_int64_def
      split: if_splits)

text \<open>
  What an attempt does while the table is not full: both entries are read from the map or are fresh.
\<close>

definition entry_at :: "duration \<Rightarrow> limit_entry table \<Rightarrow> string \<Rightarrow> time \<Rightarrow> limit_entry" where
  "entry_at w m k now =
     (case map_of m k of Some e \<Rightarrow> if window_over w now e then fresh_entry now else e | None \<Rightarrow> fresh_entry now)"

lemma current_entry_at:
  "length m < cap \<Longrightarrow> current_entry cap order w k now m = (entry_at w m k now, m)"
  by (auto simp: current_entry_def entry_at_def ensure_capacity_def make_room_def split: option.splits)

lemma entry_at_kept:
  assumes "entry_at w m k now = e" and "0 < attempts e"
  shows "map_of m k = Some e \<and> \<not> window_over w now e"
  using assms by (auto simp: entry_at_def fresh_entry_def split: option.splits if_splits)

lemma entry_at_later:
  assumes "attempts (entry_at w m k now) < mx" and "now \<le> now'" and "0 < mx"
  shows "attempts (entry_at w m k now') < mx"
  using assms by (auto simp: entry_at_def fresh_entry_def window_over_def split: option.splits if_splits)

lemma login_allow_at:
  fixes digest :: "string \<Rightarrow> string" and s a :: string and now :: time and l :: login_limiter
  assumes "length (ll_entries l) < cap"
  defines "sk \<equiv> login_limit_key digest ''source'' s" and "ak \<equiv> login_limit_key digest ''account'' a"
    and "se \<equiv> entry_at (ll_window l) (ll_entries l) (login_limit_key digest ''source'' s) now"
    and "ae \<equiv> entry_at (ll_window l) (ll_entries l) (login_limit_key digest ''account'' a) now"
  shows "login_allow cap order digest s a now l =
      (if ll_max_source l \<le> attempts se
       then ((False, retry_after se (ll_window l) now, \<not> denial_audited se),
             l\<lparr>ll_entries := AList.update sk (se\<lparr>denial_audited := True\<rparr>) (ll_entries l)\<rparr>)
       else if ll_max_account l \<le> attempts ae
       then ((False, retry_after ae (ll_window l) now, \<not> denial_audited ae),
             l\<lparr>ll_entries := AList.update ak (ae\<lparr>denial_audited := True\<rparr>) (ll_entries l)\<rparr>)
       else ((True, 0, False), l\<lparr>ll_entries := AList.update ak (ae\<lparr>attempts := attempts ae + 1\<rparr>)
                                     (AList.update sk (se\<lparr>attempts := attempts se + 1\<rparr>) (ll_entries l))\<rparr>))"
  using current_entry_at [OF assms(1)] unfolding login_allow_def Let_def sk_def ak_def se_def ae_def by simp

text \<open>A full window answers a denial; a denial leaves its window full and marked as audited.\<close>

definition refused :: "int \<Rightarrow> duration \<Rightarrow> time \<Rightarrow> limit_entry \<Rightarrow> bool" where
  "refused mx w now e \<longleftrightarrow> mx \<le> attempts e \<and> \<not> window_over w now e \<and> denial_audited e"

lemma refused_by_source:
  assumes "map_of (ll_entries l) (login_limit_key digest ''source'' s) = Some e"
    and "refused (ll_max_source l) (ll_window l) now e"
  shows "\<exists>d. fst (login_allow cap order digest s a now l) = (False, d, False)"
  using assms by (simp add: refused_def login_allow_def Let_def current_entry_def)

lemma refused_by_account:
  assumes "length (ll_entries l) < cap" and "map_of (ll_entries l) (login_limit_key digest ''account'' a) = Some e"
    and "refused (ll_max_account l) (ll_window l) now e"
    and "attempts (entry_at (ll_window l) (ll_entries l) (login_limit_key digest ''source'' s) now) < ll_max_source l"
  shows "\<exists>d. fst (login_allow cap order digest s a now l) = (False, d, False)"
  using assms by (simp add: login_allow_at refused_def entry_at_def [of _ _ "login_limit_key digest ''account'' a"])

lemma refused_after_denial:
  assumes "e = entry_at w m k now" and "mx \<le> attempts e" and "0 < mx" and "now' < now + retry_after e w now"
  shows "refused mx w now' (e\<lparr>denial_audited := True\<rparr>) \<and> k \<in> fst ` set m"
proof -
  have kept: "map_of m k = Some e" "\<not> window_over w now e"
    using entry_at_kept [of w m k now e] assms(1-3) by auto
  have "\<not> window_over w now' e" using not_over_before_retry [OF kept(2) assms(4)] .
  then show ?thesis
    using assms(2) kept(1) by (auto simp: refused_def window_over_def domI simp flip: dom_map_of_conv_image_fst)
qed

text \<open>
  A refused login stays refused until the announced time, and is audited once. When an attempt is
  denied with a wait of \<open>d\<close>, a repetition by the same source for the same account before \<open>d\<close> has
  passed is denied again and does not ask for a second audit record, as long as the table has room.
\<close>

theorem login_denial_lasts:
  assumes deny: "login_allow cap order digest s a now l = ((False, d, audit), l')"
    and room: "length (ll_entries l) < cap" and limits: "0 < ll_max_source l" "0 < ll_max_account l"
    and later: "now \<le> now'" "now' < now + d"
  shows "\<exists>d'. fst (login_allow cap order digest s a now' l') = (False, d', False)"
proof -
  let ?w = "ll_window l" and ?m = "ll_entries l"
  let ?sk = "login_limit_key digest ''source'' s" and ?ak = "login_limit_key digest ''account'' a"
  define se where "se = entry_at ?w ?m ?sk now"
  define ae where "ae = entry_at ?w ?m ?ak now"
  note call = login_allow_at [OF room, of order digest s a now, folded se_def ae_def]
  show ?thesis
  proof (cases "ll_max_source l \<le> attempts se")
    case True
    with deny call have l': "l' = l\<lparr>ll_entries := AList.update ?sk (se\<lparr>denial_audited := True\<rparr>) ?m\<rparr>"
      and d: "d = retry_after se ?w now" by auto
    have "refused (ll_max_source l) ?w now' (se\<lparr>denial_audited := True\<rparr>)"
      using refused_after_denial [OF se_def True limits(1)] later d by blast
    then show ?thesis by (intro refused_by_source) (simp_all add: l' update_conv')
  next
    case False
    with call deny have over: "ll_max_account l \<le> attempts ae" by (auto split: if_splits)
    with deny call False have l': "l' = l\<lparr>ll_entries := AList.update ?ak (ae\<lparr>denial_audited := True\<rparr>) ?m\<rparr>"
      and d: "d = retry_after ae ?w now" by auto
    have again: "refused (ll_max_account l) ?w now' (ae\<lparr>denial_audited := True\<rparr>)" "?ak \<in> fst ` set ?m"
      using refused_after_denial [OF ae_def over limits(2)] later d by blast+
    have other: "entry_at ?w (ll_entries l') ?sk now' = entry_at ?w ?m ?sk now'"
      using login_keys_differ [of digest s a] by (simp add: entry_at_def l' update_conv')
    have src: "attempts (entry_at ?w ?m ?sk now') < ll_max_source l"
      using entry_at_later [of ?w ?m ?sk now "ll_max_source l" now'] False later limits unfolding se_def by simp
    show ?thesis
      by (rule refused_by_account [where e = "ae\<lparr>denial_audited := True\<rparr>"])
        (use again room other src in \<open>simp_all add: l' update_conv' length_update_mem\<close>)
  qed
qed

definition ex_login_limiter :: login_limiter where
  "ex_login_limiter = snd (login_allow 9 rev (\<lambda>v. v) ''s'' ''a'' 0 (new_login_limiter minute 1 5))"

theorem login_denial_lasts_witness:
  "\<exists>d l'. login_allow 9 rev (\<lambda>v. v) ''s'' ''a'' 10 ex_login_limiter = ((False, d, True), l')
     \<and> (\<exists>d'. fst (login_allow 9 rev (\<lambda>v. v) ''s'' ''a'' 20 l') = (False, d', False))"
proof -
  have l: "ex_login_limiter = \<lparr>ll_window = minute, ll_max_account = 1, ll_max_source = 5,
      ll_entries = [(''source:s'', \<lparr>window_started = 0, attempts = 1, denial_audited = False\<rparr>),
                    (''account:a'', \<lparr>window_started = 0, attempts = 1, denial_audited = False\<rparr>)]\<rparr>"
    by (simp add: ex_login_limiter_def login_allow_def current_entry_def new_login_limiter_def
        ensure_capacity_def make_room_def fresh_entry_def login_limit_key_def)
  obtain l' where first: "login_allow 9 rev (\<lambda>v. v) ''s'' ''a'' 10 ex_login_limiter = ((False, minute - 10, True), l')"
    by (simp add: l login_allow_def current_entry_def window_over_def login_limit_key_def retry_after_def
        time_sub_def minute_def min_int64_def max_int64_def)
  have "\<exists>d'. fst (login_allow 9 rev (\<lambda>v. v) ''s'' ''a'' 20 l') = (False, d', False)"
    by (rule login_denial_lasts [OF first]) (simp_all add: l minute_def)
  with first show ?thesis by blast
qed

text \<open>
  The login table does not hold its bound. Room is made twice before anything is inserted, so an
  attempt by a new source for a new account on a table one short of the capacity leaves it one past it.
\<close>

theorem login_table_passes_capacity:
  assumes "Suc (length (ll_entries l)) = cap" and "0 < ll_max_source l" and "0 < ll_max_account l"
    and "login_limit_key digest ''source'' s \<notin> fst ` set (ll_entries l)"
    and "login_limit_key digest ''account'' a \<notin> fst ` set (ll_entries l)"
  shows "length (ll_entries (snd (login_allow cap order digest s a now l))) = Suc cap"
proof -
  have new: "map_of (ll_entries l) (login_limit_key digest ''source'' s) = None"
    "map_of (ll_entries l) (login_limit_key digest ''account'' a) = None"
    using assms(4,5) by (simp_all add: map_of_eq_None_iff)
  have "length (ll_entries l) < cap" using assms(1) by simp
  note cur = current_entry_at [OF this]
  show ?thesis
    using assms(1,2,3) new login_keys_differ [of digest s a] assms(4,5)
    by (simp add: login_allow_def Let_def cur entry_at_def fresh_entry_def length_update_new set_update_fst)
qed

theorem login_table_passes_capacity_witness:
  "length (ll_entries (snd (login_allow 1 rev (\<lambda>v. v) ''s'' ''a'' 0 (new_login_limiter minute 1 5)))) = 2"
  using login_table_passes_capacity [of "new_login_limiter minute 1 5" 1 "\<lambda>v. v" "''s''" "''a''" rev 0]
  by (simp add: new_login_limiter_def)

end
