(* ===== verification/SectionTotals.thy ===== *)
theory SectionTotals
  imports Prelude
begin

section \<open>Running totals of a cached section\<close>

text \<open>
  \<open>pkg/agent/resourcecache/contribution.go\<close>: the counters an event adds to and takes back from. A sum
  that a Go \<open>int64\<close> would wrap is brought back by \<open>s64\<close>, so the saturation the code implements is
  proved rather than assumed. Fields keep the names of the structs.
\<close>

record contribution =
  c_status :: string
  c_version :: string
  c_unschedulable :: bool
  c_ready :: bool
  c_not_ready :: bool
  c_terminating :: bool
  c_non_terminal :: bool
  c_cpu_capacity :: int
  c_cpu_allocatable :: int
  c_cpu_requested :: int
  c_memory_capacity :: int
  c_memory_allocatable :: int
  c_memory_requested :: int
  c_pod_capacity :: int
  c_pod_allocatable :: int
  c_storage_capacity :: int
  c_storage_requested :: int

type_synonym counts = "string \<rightharpoonup> int"

record section_totals =
  t_total :: int
  t_status :: counts
  t_version :: counts
  t_unschedulable :: int
  t_ready :: int
  t_not_ready :: int
  t_terminating :: int
  t_non_terminal :: int
  t_cpu_capacity :: int
  t_cpu_allocatable :: int
  t_cpu_requested :: int
  t_memory_capacity :: int
  t_memory_allocatable :: int
  t_memory_requested :: int
  t_pod_capacity :: int
  t_pod_allocatable :: int
  t_storage_capacity :: int
  t_storage_requested :: int

definition new_section_totals :: section_totals where
  "new_section_totals =
     \<lparr>t_total = 0, t_status = Map.empty, t_version = Map.empty, t_unschedulable = 0, t_ready = 0,
      t_not_ready = 0, t_terminating = 0, t_non_terminal = 0, t_cpu_capacity = 0,
      t_cpu_allocatable = 0, t_cpu_requested = 0, t_memory_capacity = 0, t_memory_allocatable = 0,
      t_memory_requested = 0, t_pod_capacity = 0, t_pod_allocatable = 0, t_storage_capacity = 0,
      t_storage_requested = 0\<rparr>"

definition add_signed :: "int \<Rightarrow> int \<Rightarrow> int" where
  "add_signed n sign = max (s64 (n + sign)) 0"

definition add_flag :: "int \<Rightarrow> bool \<Rightarrow> int \<Rightarrow> int" where
  "add_flag n is_set sign = (if \<not> is_set then n else add_signed n sign)"

definition add_scaled :: "int \<Rightarrow> int \<Rightarrow> int \<Rightarrow> int" where
  "add_scaled n value sign =
     (if value = 0 then n
      else if sign < 0 then max (s64 (n - value)) 0
      else if s64 (max_int64 - value) < n then max_int64
      else s64 (n + value))"

definition bucket_name :: "string \<Rightarrow> string" where
  "bucket_name b = (if b = [] then ''unknown'' else b)"

definition count_bucket :: "counts \<Rightarrow> string \<Rightarrow> int \<Rightarrow> counts" where
  "count_bucket m b sign =
     (let k = bucket_name b; n = add_signed (case m k of None \<Rightarrow> 0 | Some v \<Rightarrow> v) sign in
      if n \<le> 0 then m(k := None) else m(k \<mapsto> n))"

definition apply_contribution :: "contribution \<Rightarrow> int \<Rightarrow> section_totals \<Rightarrow> section_totals" where
  "apply_contribution c sign t =
     \<lparr>t_total = add_signed (t_total t) sign,
      t_status = count_bucket (t_status t) (c_status c) sign,
      t_version = (if c_version c \<noteq> [] then count_bucket (t_version t) (c_version c) sign else t_version t),
      t_unschedulable = add_flag (t_unschedulable t) (c_unschedulable c) sign,
      t_ready = add_flag (t_ready t) (c_ready c) sign,
      t_not_ready = add_flag (t_not_ready t) (c_not_ready c) sign,
      t_terminating = add_flag (t_terminating t) (c_terminating c) sign,
      t_non_terminal = add_flag (t_non_terminal t) (c_non_terminal c) sign,
      t_cpu_capacity = add_scaled (t_cpu_capacity t) (c_cpu_capacity c) sign,
      t_cpu_allocatable = add_scaled (t_cpu_allocatable t) (c_cpu_allocatable c) sign,
      t_cpu_requested = add_scaled (t_cpu_requested t) (c_cpu_requested c) sign,
      t_memory_capacity = add_scaled (t_memory_capacity t) (c_memory_capacity c) sign,
      t_memory_allocatable = add_scaled (t_memory_allocatable t) (c_memory_allocatable c) sign,
      t_memory_requested = add_scaled (t_memory_requested t) (c_memory_requested c) sign,
      t_pod_capacity = add_scaled (t_pod_capacity t) (c_pod_capacity c) sign,
      t_pod_allocatable = add_scaled (t_pod_allocatable t) (c_pod_allocatable c) sign,
      t_storage_capacity = add_scaled (t_storage_capacity t) (c_storage_capacity c) sign,
      t_storage_requested = add_scaled (t_storage_requested t) (c_storage_requested c) sign\<rparr>"

section \<open>What the totals mean\<close>

text \<open>The specification: counts and sums over the multiset of contributions.\<close>

definition count_of :: "('c \<Rightarrow> bool) \<Rightarrow> 'c multiset \<Rightarrow> int" where
  "count_of P M = int (size (filter_mset P M))"

definition sum_of :: "('c \<Rightarrow> int) \<Rightarrow> 'c multiset \<Rightarrow> int" where
  "sum_of f M = sum_mset (image_mset f M)"

definition buckets_of :: "('c \<Rightarrow> string option) \<Rightarrow> 'c multiset \<Rightarrow> counts" where
  "buckets_of b M = (\<lambda>k. let n = count_of (\<lambda>c. b c = Some k) M in if n = 0 then None else Some n)"

definition version_bucket :: "contribution \<Rightarrow> string option" where
  "version_bucket c = (if c_version c = [] then None else Some (c_version c))"

definition totals_of :: "contribution multiset \<Rightarrow> section_totals" where
  "totals_of M =
     \<lparr>t_total = int (size M), t_status = buckets_of (\<lambda>c. Some (bucket_name (c_status c))) M,
      t_version = buckets_of version_bucket M,
      t_unschedulable = count_of c_unschedulable M, t_ready = count_of c_ready M,
      t_not_ready = count_of c_not_ready M, t_terminating = count_of c_terminating M,
      t_non_terminal = count_of c_non_terminal M,
      t_cpu_capacity = sum_of c_cpu_capacity M, t_cpu_allocatable = sum_of c_cpu_allocatable M,
      t_cpu_requested = sum_of c_cpu_requested M, t_memory_capacity = sum_of c_memory_capacity M,
      t_memory_allocatable = sum_of c_memory_allocatable M,
      t_memory_requested = sum_of c_memory_requested M,
      t_pod_capacity = sum_of c_pod_capacity M, t_pod_allocatable = sum_of c_pod_allocatable M,
      t_storage_capacity = sum_of c_storage_capacity M,
      t_storage_requested = sum_of c_storage_requested M\<rparr>"

definition amounts :: "(contribution \<Rightarrow> int) list" where
  "amounts = [c_cpu_capacity, c_cpu_allocatable, c_cpu_requested, c_memory_capacity,
     c_memory_allocatable, c_memory_requested, c_pod_capacity, c_pod_allocatable,
     c_storage_capacity, c_storage_requested]"

text \<open>
  No amount is negative and nothing overflows: the condition under which counters can be taken back.
\<close>

definition within_int64 :: "contribution multiset \<Rightarrow> bool" where
  "within_int64 M \<longleftrightarrow>
     int (size M) < max_int64
     \<and> (\<forall>f \<in> set amounts. (\<forall>c \<in># M. 0 \<le> f c) \<and> sum_of f M \<le> max_int64)"

lemma count_of_add [simp]: "count_of P (add_mset c M) = (if P c then 1 else 0) + count_of P M"
  by (simp add: count_of_def)

lemma count_of_empty [simp]: "count_of P {#} = 0" by (simp add: count_of_def)

lemma count_of_bounds: "0 \<le> count_of P M \<and> count_of P M \<le> int (size M)"
  using size_filter_mset_lesseq [of P M] by (simp add: count_of_def)

lemma sum_of_add [simp]: "sum_of f (add_mset c M) = f c + sum_of f M"
  by (simp add: sum_of_def)

lemma sum_of_empty [simp]: "sum_of f {#} = 0" by (simp add: sum_of_def)

lemma sum_of_nonneg: "\<forall>c \<in># M. 0 \<le> f c \<Longrightarrow> 0 \<le> sum_of f M"
  by (induction M) auto

lemma within_int64_subset: "within_int64 (add_mset c M) \<Longrightarrow> within_int64 M"
  by (auto simp: within_int64_def)

lemma within_int64_amount:
  assumes "within_int64 (add_mset c M)" and "f \<in> set amounts"
  shows "0 \<le> f c" and "0 \<le> sum_of f M" and "f c + sum_of f M \<le> max_int64"
  using assms sum_of_nonneg [of M f] by (auto simp: within_int64_def)

lemma s64_small: "0 \<le> n \<Longrightarrow> n \<le> max_int64 \<Longrightarrow> s64 n = n"
  by (rule s64_id) (auto simp: min_int64_def max_int64_def)

lemma add_scaled_add: "0 \<le> n \<Longrightarrow> 0 \<le> v \<Longrightarrow> v + n \<le> max_int64 \<Longrightarrow> add_scaled n v 1 = v + n"
  by (auto simp: add_scaled_def s64_small max_int64_def)

lemma add_scaled_sub: "0 \<le> n \<Longrightarrow> 0 \<le> v \<Longrightarrow> v + n \<le> max_int64 \<Longrightarrow> add_scaled (v + n) v (-1) = n"
  by (auto simp: add_scaled_def s64_small max_int64_def)

lemma add_signed_up: "0 \<le> n \<Longrightarrow> n < max_int64 \<Longrightarrow> add_signed n 1 = n + 1"
  by (simp add: add_signed_def s64_small)

lemma add_signed_down: "0 < n \<Longrightarrow> n \<le> max_int64 \<Longrightarrow> add_signed n (-1) = n - 1"
  by (simp add: add_signed_def s64_small)

lemma count_bucket_up:
  assumes "int (size M) < max_int64" and "b c = Some (bucket_name k)"
  shows "count_bucket (buckets_of b M) k 1 = buckets_of b (add_mset c M)"
proof -
  have n: "0 \<le> count_of (\<lambda>c. b c = Some (bucket_name k)) M"
    "count_of (\<lambda>c. b c = Some (bucket_name k)) M < max_int64"
    using count_of_bounds [of "\<lambda>c. b c = Some (bucket_name k)" M] assms(1) by auto
  show ?thesis
    using add_signed_up [OF n] assms(2) n
    by (intro ext) (auto simp: count_bucket_def buckets_of_def Let_def)
qed

lemma count_bucket_down:
  assumes "int (size M) < max_int64" and "b c = Some (bucket_name k)"
  shows "count_bucket (buckets_of b (add_mset c M)) k (-1) = buckets_of b M"
proof -
  define n where "n = count_of (\<lambda>c. b c = Some (bucket_name k)) M"
  have n: "0 < n + 1" "n + 1 \<le> max_int64"
    using count_of_bounds [of "\<lambda>c. b c = Some (bucket_name k)" M] assms(1) by (auto simp: n_def)
  have "add_signed (1 + n) (-1) = n" using add_signed_down [OF n] by (simp add: add.commute)
  then show ?thesis
    using assms(2) n
    by (intro ext) (auto simp: count_bucket_def buckets_of_def Let_def n_def)
qed

lemma buckets_of_skip: "b c = None \<Longrightarrow> buckets_of b (add_mset c M) = buckets_of b M"
  by (simp add: buckets_of_def)

lemma flag_up:
  "int (size M) < max_int64 \<Longrightarrow> add_flag (count_of P M) (P c) 1 = count_of P (add_mset c M)"
  using count_of_bounds [of P M] by (simp add: add_flag_def add_signed_up)

lemma flag_down:
  "int (size M) < max_int64 \<Longrightarrow> add_flag (count_of P (add_mset c M)) (P c) (-1) = count_of P M"
  using count_of_bounds [of P M] by (simp add: add_flag_def add_signed_down)

lemma version_up:
  "int (size M) < max_int64 \<Longrightarrow>
     (if c_version c \<noteq> [] then count_bucket (buckets_of version_bucket M) (c_version c) 1
      else buckets_of version_bucket M) = buckets_of version_bucket (add_mset c M)"
  by (simp add: count_bucket_up buckets_of_skip version_bucket_def bucket_name_def)

lemma version_down:
  "int (size M) < max_int64 \<Longrightarrow>
     (if c_version c \<noteq> [] then count_bucket (buckets_of version_bucket (add_mset c M)) (c_version c) (-1)
      else buckets_of version_bucket (add_mset c M)) = buckets_of version_bucket M"
  by (simp add: count_bucket_down buckets_of_skip version_bucket_def bucket_name_def)

lemma apply_up:
  assumes "within_int64 (add_mset c M)"
  shows "apply_contribution c 1 (totals_of M) = totals_of (add_mset c M)"
proof -
  have size: "int (size M) < max_int64" using assms by (simp add: within_int64_def)
  have amt: "add_scaled (sum_of f M) (f c) 1 = sum_of f (add_mset c M)" if "f \<in> set amounts" for f
    using within_int64_amount [OF assms that] by (simp add: add_scaled_add)
  show ?thesis
    unfolding apply_contribution_def totals_of_def section_totals.simps section_totals.ext_inject
    using size
    by (simp only: amt amounts_def list.set insert_iff flag_up version_up simp_thms
        count_bucket_up [where b = "\<lambda>c. Some (bucket_name (c_status c))"])
      (simp add: add_signed_up)
qed

lemma apply_down:
  assumes "within_int64 (add_mset c M)"
  shows "apply_contribution c (-1) (totals_of (add_mset c M)) = totals_of M"
proof -
  have size: "int (size M) < max_int64" using assms by (simp add: within_int64_def)
  have amt: "add_scaled (sum_of f (add_mset c M)) (f c) (-1) = sum_of f M" if "f \<in> set amounts" for f
    using within_int64_amount [OF assms that] by (simp add: add_scaled_sub)
  show ?thesis
    unfolding apply_contribution_def totals_of_def section_totals.simps section_totals.ext_inject
    using size
    by (simp only: amt amounts_def list.set insert_iff flag_down version_down simp_thms
        count_bucket_down [where b = "\<lambda>c. Some (bucket_name (c_status c))"])
      (simp add: add_signed_down)
qed

section \<open>The interface of an accumulator\<close>

text \<open>
  What a store needs of the totals it maintains: adding and taking back are exact as long as the
  contents stay inside \<open>fits\<close>, which every part of a fitting whole does.
\<close>

locale accumulator =
  fixes add :: "'c \<Rightarrow> 't \<Rightarrow> 't" and remove :: "'c \<Rightarrow> 't \<Rightarrow> 't" and empty :: 't
    and meaning :: "'c multiset \<Rightarrow> 't" and fits :: "'c multiset \<Rightarrow> bool"
  assumes meaning_empty: "meaning {#} = empty"
    and add_exact: "fits (add_mset c M) \<Longrightarrow> add c (meaning M) = meaning (add_mset c M)"
    and remove_exact: "fits (add_mset c M) \<Longrightarrow> remove c (meaning (add_mset c M)) = meaning M"
    and fits_part: "fits (add_mset c M) \<Longrightarrow> fits M"
begin

lemma replace_exact:
  assumes "fits (add_mset old M)" and "fits (add_mset new M)"
  shows "add new (remove old (meaning (add_mset old M))) = meaning (add_mset new M)"
  using add_exact [OF assms(2)] remove_exact [OF assms(1)] by simp

lemma build_exact: "fits (mset cs) \<Longrightarrow> fold add cs empty = meaning (mset cs)"
proof (induction cs rule: rev_induct)
  case Nil
  then show ?case by (simp add: meaning_empty)
next
  case (snoc c cs)
  then have "fits (add_mset c (mset cs))" by simp
  then show ?case using snoc.IH fits_part add_exact by simp
qed

end

interpretation totals: accumulator "\<lambda>c. apply_contribution c 1" "\<lambda>c. apply_contribution c (-1)"
    new_section_totals totals_of within_int64
proof
  show "totals_of {#} = new_section_totals"
    by (simp add: totals_of_def new_section_totals_def buckets_of_def Let_def)
  fix c M
  assume a: "within_int64 (add_mset c M)"
  show "apply_contribution c 1 (totals_of M) = totals_of (add_mset c M)" by (rule apply_up [OF a])
  show "apply_contribution c (-1) (totals_of (add_mset c M)) = totals_of M" by (rule apply_down [OF a])
  show "within_int64 M" by (rule within_int64_subset [OF a])
qed

end
