(* ===== verification/ResourceStore.thy ===== *)
theory ResourceStore
  imports SectionTotals
begin

section \<open>The compact store behind one watched resource\<close>

text \<open>
  \<open>pkg/agent/resourcecache/store.go\<close>: the accumulator a client-go reflector writes into. An object of
  the Kubernetes client is a value of the type variable \<open>'o\<close>; projecting it, reading its identity and
  splitting a tombstone's key are third-party or generated code and come in the record \<open>object_api\<close>.
  The clock is the argument \<open>now\<close>. Locks make every operation one step.
\<close>

subsection \<open>Keys\<close>

datatype object_key = ObjectKey (key_namespace: string) (key_name: string)

text \<open>The order \<open>matchingKeys\<close> sorts by: namespace, then name.\<close>

instantiation object_key :: linorder
begin

definition less_object_key :: "object_key \<Rightarrow> object_key \<Rightarrow> bool" where
  "a < b \<longleftrightarrow>
     (if key_namespace a \<noteq> key_namespace b then key_namespace a < key_namespace b
      else key_name a < key_name b)"

definition less_eq_object_key :: "object_key \<Rightarrow> object_key \<Rightarrow> bool" where
  "a \<le> b \<longleftrightarrow> a = b \<or> (a :: object_key) < b"

instance
proof
  fix x y z :: object_key
  show "(x < y) = (x \<le> y \<and> \<not> y \<le> x)"
    by (cases x; cases y) (auto simp: less_object_key_def less_eq_object_key_def split: if_splits)
  show "x \<le> x" by (simp add: less_eq_object_key_def)
  show "x \<le> y \<Longrightarrow> y \<le> z \<Longrightarrow> x \<le> z"
    by (cases x; cases y; cases z) (auto simp: less_object_key_def less_eq_object_key_def split: if_splits)
  show "x \<le> y \<Longrightarrow> y \<le> x \<Longrightarrow> x = y"
    by (cases x; cases y) (auto simp: less_object_key_def less_eq_object_key_def split: if_splits)
  show "x \<le> y \<or> y \<le> x"
    by (cases x; cases y) (auto simp: less_object_key_def less_eq_object_key_def)
qed

end

subsection \<open>State\<close>

record 's entry =
  e_key :: object_key
  e_uid :: string
  e_labels :: "(string \<times> string) list"
  e_created :: time
  e_summary :: 's
  e_contribution :: contribution

record 's resource_store =
  rs_items :: "(object_key \<times> 's entry) list"
  rs_totals :: section_totals
  rs_generation :: "64 word"
  rs_synced :: bool
  rs_version :: string
  rs_last_success :: time
  rs_last_event :: time
  rs_watch_restarts :: int
  rs_failure_code :: string
  rs_sync_closed :: bool

definition new_store :: "'s resource_store" where
  "new_store =
     \<lparr>rs_items = [], rs_totals = new_section_totals, rs_generation = 0, rs_synced = False,
      rs_version = [], rs_last_success = zero_time, rs_last_event = zero_time,
      rs_watch_restarts = 0, rs_failure_code = [], rs_sync_closed = False\<rparr>"

text \<open>What the reflector delivers: an object, a tombstone, or something else.\<close>

datatype 'o delivered = Structured 'o | Tombstone "'o option" string | Unexpected

record ('o, 's) object_api =
  api_project :: "'o \<Rightarrow> string + 's entry"
  api_namespace :: "'o \<Rightarrow> string"
  api_name :: "'o \<Rightarrow> string"
  api_split_key :: "string \<Rightarrow> (string \<times> string) option"
  api_version :: "'s \<Rightarrow> string"

subsection \<open>Operations\<close>

definition project :: "('o, 's) object_api \<Rightarrow> 'o delivered \<Rightarrow> string + 's entry" where
  "project api d =
     (case d of Structured x \<Rightarrow> api_project api x | _ \<Rightarrow> Inl ''unexpected cached object'')"

definition observe_locked :: "('o, 's) object_api \<Rightarrow> 's \<Rightarrow> time \<Rightarrow> 's resource_store \<Rightarrow> 's resource_store" where
  "observe_locked api summary now st =
     st\<lparr>rs_generation := rs_generation st + 1, rs_last_event := now, rs_last_success := now,
        rs_version := (if api_version api summary \<noteq> [] then api_version api summary else rs_version st)\<rparr>"

definition upsert ::
    "('o, 's) object_api \<Rightarrow> time \<Rightarrow> 'o delivered \<Rightarrow> 's resource_store \<Rightarrow> string option \<times> 's resource_store" where
  "upsert api now d st =
     (case project api d of
        Inl e \<Rightarrow> (Some e, st)
      | Inr p \<Rightarrow>
          (let t = (case map_of (rs_items st) (e_key p) of
                      None \<Rightarrow> rs_totals st
                    | Some old \<Rightarrow> apply_contribution (e_contribution old) (-1) (rs_totals st))
           in (None, observe_locked api (e_summary p) now
                 (st\<lparr>rs_items := AList.update (e_key p) p (rs_items st),
                     rs_totals := apply_contribution (e_contribution p) 1 t\<rparr>))))"

definition deleted_key :: "('o, 's) object_api \<Rightarrow> 'o delivered \<Rightarrow> object_key option" where
  "deleted_key api d =
     (case d of
        Tombstone (Some x) k \<Rightarrow> Some (ObjectKey (api_namespace api x) (api_name api x))
      | Tombstone None k \<Rightarrow> (case api_split_key api k of None \<Rightarrow> None | Some (ns, n) \<Rightarrow> Some (ObjectKey ns n))
      | _ \<Rightarrow> None)"

definition delete_object ::
    "('o, 's) object_api \<Rightarrow> time \<Rightarrow> 'o delivered \<Rightarrow> 's resource_store \<Rightarrow> string option \<times> 's resource_store" where
  "delete_object api now d st =
     (case (case deleted_key api d of
              Some k \<Rightarrow> Inr k
            | None \<Rightarrow> (case project api d of Inl e \<Rightarrow> Inl e | Inr p \<Rightarrow> Inr (e_key p))) of
        Inl e \<Rightarrow> (Some e, st)
      | Inr k \<Rightarrow>
          (case map_of (rs_items st) k of
             None \<Rightarrow> (None, st)
           | Some old \<Rightarrow>
               (None, st\<lparr>rs_totals := apply_contribution (e_contribution old) (-1) (rs_totals st),
                         rs_items := AList.delete k (rs_items st),
                         rs_generation := rs_generation st + 1, rs_last_event := now\<rparr>)))"

text \<open>The loop of \<open>Replace\<close>, over the listing.\<close>

definition add_listed ::
    "'s entry \<Rightarrow> (object_key \<times> 's entry) list \<times> section_totals
       \<Rightarrow> (object_key \<times> 's entry) list \<times> section_totals" where
  "add_listed p acc =
     (let t = (case map_of (fst acc) (e_key p) of
                 None \<Rightarrow> snd acc
               | Some old \<Rightarrow> apply_contribution (e_contribution old) (-1) (snd acc))
      in (AList.update (e_key p) p (fst acc), apply_contribution (e_contribution p) 1 t))"

fun build_listing ::
    "('o, 's) object_api \<Rightarrow> 'o delivered list \<Rightarrow> (object_key \<times> 's entry) list \<times> section_totals
       \<Rightarrow> string + (object_key \<times> 's entry) list \<times> section_totals" where
  "build_listing api [] acc = Inr acc"
| "build_listing api (d # ds) acc =
     (case project api d of Inl e \<Rightarrow> Inl e | Inr p \<Rightarrow> build_listing api ds (add_listed p acc))"

definition replace ::
    "('o, 's) object_api \<Rightarrow> time \<Rightarrow> 'o delivered list \<Rightarrow> string \<Rightarrow> 's resource_store
       \<Rightarrow> string option \<times> 's resource_store" where
  "replace api now ds version st =
     (case build_listing api ds ([], new_section_totals) of
        Inl e \<Rightarrow> (Some e, st)
      | Inr (items, t) \<Rightarrow>
          (None, st\<lparr>rs_items := items, rs_totals := t, rs_generation := rs_generation st + 1,
                    rs_version := version, rs_synced := True, rs_last_success := now,
                    rs_last_event := now, rs_failure_code := [], rs_sync_closed := True\<rparr>))"

definition record_failure :: "string \<Rightarrow> 's resource_store \<Rightarrow> 's resource_store" where
  "record_failure code st = st\<lparr>rs_failure_code := code\<rparr>"

definition record_restart :: "'s resource_store \<Rightarrow> 's resource_store" where
  "record_restart st = st\<lparr>rs_watch_restarts := rs_watch_restarts st + 1\<rparr>"

record section_health =
  sh_synced :: bool
  sh_version :: string
  sh_last_success :: time
  sh_last_event :: time
  sh_watch_restarts :: int
  sh_observed :: int
  sh_failure_code :: string

definition snapshot_totals :: "'s resource_store \<Rightarrow> section_totals \<times> section_health" where
  "snapshot_totals st =
     (rs_totals st,
      \<lparr>sh_synced = rs_synced st, sh_version = rs_version st, sh_last_success = rs_last_success st,
       sh_last_event = rs_last_event st, sh_watch_restarts = rs_watch_restarts st,
       sh_observed = int (length (rs_items st)), sh_failure_code = rs_failure_code st\<rparr>)"

text \<open>The store's interface to the reflector, as events.\<close>

datatype 'o cache_event =
    EvUpsert time "'o delivered"
  | EvDelete time "'o delivered"
  | EvReplace time "'o delivered list" string
  | EvFailure string
  | EvRestart

fun handle :: "('o, 's) object_api \<Rightarrow> 'o cache_event \<Rightarrow> 's resource_store \<Rightarrow> 's resource_store" where
  "handle api (EvUpsert now d) st = snd (upsert api now d st)"
| "handle api (EvDelete now d) st = snd (delete_object api now d st)"
| "handle api (EvReplace now ds v) st = snd (replace api now ds v st)"
| "handle api (EvFailure c) st = record_failure c st"
| "handle api EvRestart st = record_restart st"

section \<open>The counters are what a recount would give\<close>

definition contributions :: "(object_key \<times> 's entry) list \<Rightarrow> contribution multiset" where
  "contributions items = mset (map (\<lambda>x. e_contribution (snd x)) items)"

definition contents :: "'s resource_store \<Rightarrow> contribution multiset" where
  "contents st = contributions (rs_items st)"

definition exact :: "'s resource_store \<Rightarrow> bool" where
  "exact st \<longleftrightarrow> distinct (map fst (rs_items st)) \<and> rs_totals st = totals_of (contents st)"

lemma contributions_update_new:
  "map_of items k = None \<Longrightarrow>
     contributions (AList.update k p items) = add_mset (e_contribution p) (contributions items)"
  by (induction items) (auto simp: contributions_def split: if_splits)

lemma contributions_update_old:
  assumes "map_of items k = Some old" and "distinct (map fst items)"
  shows "\<exists>M. contributions items = add_mset (e_contribution old) M
          \<and> contributions (AList.update k p items) = add_mset (e_contribution p) M
          \<and> contributions (AList.delete k items) = M"
  using assms
proof (induction items)
  case Nil
  then show ?case by simp
next
  case (Cons x items)
  obtain k' v where x: "x = (k', v)" by (cases x)
  show ?case
  proof (cases "k' = k")
    case True
    then have "v = old" using Cons.prems x by simp
    moreover have "k \<notin> fst ` set items" using Cons.prems x True by auto
    then have "AList.delete k items = items"
      unfolding AList.delete_eq by (intro filter_True) force
    ultimately show ?thesis using x True by (simp add: contributions_def)
  next
    case False
    then obtain M where "contributions items = add_mset (e_contribution old) M"
      "contributions (AList.update k p items) = add_mset (e_contribution p) M"
      "contributions (AList.delete k items) = M"
      using Cons x by auto
    then show ?thesis
      using x False by (auto simp: contributions_def)
  qed
qed

lemma fits_part: "within_int64 N \<Longrightarrow> M \<subseteq># N \<Longrightarrow> within_int64 M"
proof -
  assume n: "within_int64 N" and "M \<subseteq># N"
  then obtain D where "N = D + M" by (metis subset_mset.diff_add)
  with n show ?thesis
    by (induction D arbitrary: N) (auto dest: within_int64_subset)
qed

lemma upsert_totals:
  assumes "distinct (map fst items)" and "t = totals_of (contributions items)"
    and "within_int64 (contributions items)" and "within_int64 (contributions (AList.update (e_key p) p items))"
  shows "apply_contribution (e_contribution p) 1
           (case map_of items (e_key p) of None \<Rightarrow> t | Some old \<Rightarrow> apply_contribution (e_contribution old) (-1) t)
         = totals_of (contributions (AList.update (e_key p) p items))"
proof (cases "map_of items (e_key p)")
  case None
  then show ?thesis
    using assms contributions_update_new [OF None, of p] totals.add_exact by simp
next
  case (Some old)
  obtain M where "contributions items = add_mset (e_contribution old) M"
    "contributions (AList.update (e_key p) p items) = add_mset (e_contribution p) M"
    using contributions_update_old [OF Some assms(1), of p] by blast
  then show ?thesis
    using assms Some totals.replace_exact [of "e_contribution old" M "e_contribution p"] by simp
qed

text \<open>
  The condition under which an event is accounted for exactly: what is stored before and after it,
  and what a listing carries, is within the range of the counters.
\<close>

fun listed :: "('o, 's) object_api \<Rightarrow> 'o delivered list \<Rightarrow> contribution multiset" where
  "listed api [] = {#}"
| "listed api (d # ds) =
     (case project api d of Inl e \<Rightarrow> {#} | Inr p \<Rightarrow> add_mset (e_contribution p) (listed api ds))"

definition in_range :: "('o, 's) object_api \<Rightarrow> 'o cache_event \<Rightarrow> 's resource_store \<Rightarrow> bool" where
  "in_range api ev st \<longleftrightarrow>
     within_int64 (contents st) \<and> within_int64 (contents (handle api ev st))
     \<and> (case ev of EvReplace now ds v \<Rightarrow> within_int64 (listed api ds) | _ \<Rightarrow> True)"

lemma contributions_update_subset:
  "distinct (map fst items) \<Longrightarrow>
     contributions (AList.update (e_key p) p items) \<subseteq># add_mset (e_contribution p) (contributions items)"
proof (cases "map_of items (e_key p)")
  case None
  then show ?thesis by (simp add: contributions_update_new)
next
  case (Some old)
  assume "distinct (map fst items)"
  from contributions_update_old [OF Some this, of p] show ?thesis by auto
qed

lemma build_listing_exact:
  assumes "build_listing api ds (items, t) = Inr (items', t')" and "distinct (map fst items)"
    and "t = totals_of (contributions items)" and "within_int64 (contributions items + listed api ds)"
  shows "distinct (map fst items') \<and> t' = totals_of (contributions items')"
  using assms
proof (induction ds arbitrary: items t)
  case Nil
  then show ?case by auto
next
  case (Cons d ds)
  then obtain p where p: "project api d = Inr p"
    and rest: "build_listing api ds (add_listed p (items, t)) = Inr (items', t')"
    by (auto split: sum.splits)
  have fit: "within_int64 (add_mset (e_contribution p) (contributions items) + listed api ds)"
    using Cons.prems(4) p by simp
  have sub: "contributions (AList.update (e_key p) p items) + listed api ds
      \<subseteq># add_mset (e_contribution p) (contributions items) + listed api ds"
    using contributions_update_subset [OF Cons.prems(2)] by simp
  have fit': "within_int64 (contributions (AList.update (e_key p) p items) + listed api ds)"
    by (rule fits_part [OF fit sub])
  have "within_int64 (contributions items)" "within_int64 (contributions (AList.update (e_key p) p items))"
    using fits_part [OF fit] fits_part [OF fit'] by simp_all
  note now = upsert_totals [OF Cons.prems(2,3) this]
  show ?case
  proof (rule Cons.IH)
    show "build_listing api ds (AList.update (e_key p) p items,
        totals_of (contributions (AList.update (e_key p) p items))) = Inr (items', t')"
      using rest now by (simp add: add_listed_def Let_def cong: option.case_cong)
  qed (use Cons.prems(2) fit' in \<open>simp_all add: AList.distinct_update\<close>)
qed

lemma handle_exact:
  assumes "exact st" and range: "in_range api ev st"
  shows "exact (handle api ev st)"
proof (cases ev)
  case (EvUpsert now d)
  show ?thesis
  proof (cases "project api d")
    case (Inl e)
    then show ?thesis using assms(1) EvUpsert by (simp add: upsert_def)
  next
    case (Inr p)
    then have items: "rs_items (handle api ev st) = AList.update (e_key p) p (rs_items st)"
      using EvUpsert by (simp add: upsert_def Let_def observe_locked_def)
    have "within_int64 (contributions (rs_items st))"
      "within_int64 (contributions (AList.update (e_key p) p (rs_items st)))"
      using range items by (simp_all add: in_range_def contents_def)
    from upsert_totals [OF _ _ this, of "rs_totals st"] show ?thesis
      using assms(1) Inr items EvUpsert
      by (simp add: exact_def contents_def upsert_def Let_def observe_locked_def AList.distinct_update)
  qed
next
  case (EvDelete now d)
  show ?thesis
  proof (cases "handle api ev st = st")
    case True
    then show ?thesis using assms(1) by simp
  next
    case False
    then obtain k old where old: "map_of (rs_items st) k = Some old"
      and h: "handle api ev st = st\<lparr>rs_totals := apply_contribution (e_contribution old) (-1) (rs_totals st),
                rs_items := AList.delete k (rs_items st),
                rs_generation := rs_generation st + 1, rs_last_event := now\<rparr>"
      using EvDelete by (auto simp: delete_object_def split: sum.splits option.splits)
    have d: "distinct (map fst (rs_items st))" using assms(1) by (simp add: exact_def)
    obtain M where M: "contributions (rs_items st) = add_mset (e_contribution old) M"
      "contributions (AList.delete k (rs_items st)) = M"
      using contributions_update_old [OF old d] by blast
    then have "apply_contribution (e_contribution old) (-1) (rs_totals st) = totals_of M"
      using assms(1) range totals.remove_exact by (simp add: exact_def contents_def in_range_def)
    then show ?thesis using M d h by (simp add: exact_def contents_def AList.distinct_delete)
  qed
next
  case (EvReplace now ds v)
  then show ?thesis
    using assms(1) range build_listing_exact [of api ds "[]" new_section_totals]
    by (auto simp: replace_def in_range_def exact_def contents_def contributions_def totals.meaning_empty
        split: sum.splits)
next
  case (EvFailure c)
  then show ?thesis using assms(1) by (simp add: exact_def contents_def record_failure_def)
next
  case EvRestart
  then show ?thesis using assms(1) by (simp add: exact_def contents_def record_restart_def)
qed

section \<open>Properties\<close>

text \<open>An example client: the object is its own projection.\<close>

definition ex_api :: "(string entry, string) object_api" where
  "ex_api = \<lparr>api_project = (\<lambda>x. Inr x), api_namespace = (\<lambda>x. key_namespace (e_key x)),
     api_name = (\<lambda>x. key_name (e_key x)), api_split_key = (\<lambda>k. Some ([], k)), api_version = (\<lambda>s. s)\<rparr>"

definition ex_contribution :: "int \<Rightarrow> contribution" where
  "ex_contribution bytes =
     \<lparr>c_status = [], c_version = [], c_unschedulable = False, c_ready = True, c_not_ready = False,
      c_terminating = False, c_non_terminal = True, c_cpu_capacity = 0, c_cpu_allocatable = 0,
      c_cpu_requested = 0, c_memory_capacity = 0, c_memory_allocatable = 0,
      c_memory_requested = bytes, c_pod_capacity = 0, c_pod_allocatable = 0, c_storage_capacity = 0,
      c_storage_requested = 0\<rparr>"

definition ex_entry :: "string \<Rightarrow> int \<Rightarrow> string entry" where
  "ex_entry n bytes =
     \<lparr>e_key = ObjectKey ''default'' n, e_uid = n, e_labels = [], e_created = 0, e_summary = ''7'',
      e_contribution = ex_contribution bytes\<rparr>"

definition ex_events :: "string entry cache_event list" where
  "ex_events = [EvUpsert 1 (Structured (ex_entry ''a'' 5)), EvUpsert 2 (Structured (ex_entry ''b'' 7)),
                EvDelete 3 (Tombstone (Some (ex_entry ''a'' 0)) [])]"

definition stored :: "('o, 's) object_api \<Rightarrow> 'o cache_event \<Rightarrow> 's resource_store \<Rightarrow> 's resource_store option" where
  "stored api ev st = Some (handle api ev st)"

lemma run_exact:
  assumes "steps (stored api) (in_range api) st evs st'" and "exact st"
  shows "exact st'"
  using assms
proof (rule steps_invariant)
  fix x s s'
  assume "in_range api x s" and "stored api x s = Some s'" and "exact s"
  then show "exact s'" using handle_exact by (auto simp: stored_def)
qed

lemma new_store_exact: "exact new_store"
  by (simp add: exact_def new_store_def contents_def contributions_def totals.meaning_empty)

text \<open>
  C15: the counters do not drift. After any sequence of additions, updates, deletions, re-listings and
  failures from the empty store, the running totals the overview reads are exactly what a recount of
  the stored objects would give, as long as the amounts involved fit in an \<open>int64\<close>.
\<close>

theorem totals_match_recount:
  assumes "steps (stored api) (in_range api) new_store evs st"
  shows "rs_totals st = totals_of (contents st)"
  using run_exact [OF assms new_store_exact] by (simp add: exact_def)

lemma ex_events_run:
  "steps (stored ex_api) (in_range ex_api) new_store ex_events (fold (handle ex_api) ex_events new_store)"
  unfolding ex_events_def
  by (simp add: steps_Cons_iff stored_def in_range_def within_int64_def amounts_def ex_api_def ex_entry_def
      ex_contribution_def new_store_def upsert_def delete_object_def project_def deleted_key_def
      observe_locked_def contents_def contributions_def max_int64_def)

theorem totals_match_recount_witness:
  "rs_totals (fold (handle ex_api) ex_events new_store)
     = totals_of (contents (fold (handle ex_api) ex_events new_store))
   \<and> t_memory_requested (rs_totals (fold (handle ex_api) ex_events new_store)) = 7"
proof -
  have "t_memory_requested (rs_totals (fold (handle ex_api) ex_events new_store)) = 7" by code_simp
  then show ?thesis using totals_match_recount [OF ex_events_run] by simp
qed

lemma count_of_sum:
  assumes "finite K" and "\<forall>c \<in># M. f c \<in> K"
  shows "(\<Sum>k \<in> K. count_of (\<lambda>c. f c = k) M) = int (size M)"
  using assms(2)
proof (induction M)
  case empty
  then show ?case by simp
next
  case (add c M)
  have "(\<Sum>k \<in> K. count_of (\<lambda>c. f c = k) (add_mset c M))
      = (\<Sum>k \<in> K. (if f c = k then 1 else 0) + count_of (\<lambda>c. f c = k) M)"
    by (intro sum.cong) simp_all
  also have "\<dots> = 1 + int (size M)"
    using add assms(1) by (simp add: sum.distrib)
  finally show ?case by simp
qed

lemma buckets_of_total:
  "(\<Sum>k \<in> dom (buckets_of (\<lambda>c. Some (f c)) M). the (buckets_of (\<lambda>c. Some (f c)) M k)) = int (size M)"
proof -
  let ?K = "f ` set_mset M"
  have pos: "count_of (\<lambda>c. f c = k) M \<noteq> 0 \<longleftrightarrow> k \<in> ?K" for k
    by (auto simp: count_of_def filter_mset_eq_conv multiset_eq_iff not_in_iff)
  then have "dom (buckets_of (\<lambda>c. Some (f c)) M) = ?K"
    by (auto simp: buckets_of_def Let_def dom_def)
  moreover have "the (buckets_of (\<lambda>c. Some (f c)) M k) = count_of (\<lambda>c. f c = k) M" if "k \<in> ?K" for k
    using that pos [of k] by (simp add: buckets_of_def Let_def)
  ultimately show ?thesis
    using count_of_sum [of ?K M f] by simp
qed

text \<open>
  No object is missing from the status counts. In every reachable store inside the range, the
  status buckets, an empty status counted as unknown, add up to the total.
\<close>

theorem status_counts_add_up:
  assumes "steps (stored api) (in_range api) new_store evs st"
  shows "(\<Sum>k \<in> dom (t_status (rs_totals st)). the (t_status (rs_totals st) k)) = t_total (rs_totals st)"
  using run_exact [OF assms new_store_exact] buckets_of_total [of "\<lambda>c. bucket_name (c_status c)" "contents st"]
  by (simp add: exact_def totals_of_def)

theorem status_counts_add_up_witness:
  "(\<Sum>k \<in> dom (t_status (rs_totals (fold (handle ex_api) ex_events new_store))).
      the (t_status (rs_totals (fold (handle ex_api) ex_events new_store)) k)) = 1"
proof -
  have "t_total (rs_totals (fold (handle ex_api) ex_events new_store)) = 1" by code_simp
  then show ?thesis using status_counts_add_up [OF ex_events_run] by simp
qed

text \<open>
  Saturation is not taken back. Once a sum has met the ceiling, deleting the object that pushed it
  there leaves a total that is not the sum of what is stored, and only a re-listing repairs it.
\<close>

theorem saturated_totals_drift:
  "\<exists>evs st. st = fold (handle ex_api) evs new_store
     \<and> sum_of c_memory_requested (contents st) = 5 \<and> t_memory_requested (rs_totals st) = 0
     \<and> list_all (\<lambda>ev. case ev of EvUpsert now (Structured x) \<Rightarrow>
          0 \<le> c_memory_requested (e_contribution x) \<and> c_memory_requested (e_contribution x) \<le> max_int64
        | _ \<Rightarrow> True) evs"
proof -
  let ?evs = "[EvUpsert 1 (Structured (ex_entry ''a'' max_int64)), EvUpsert 2 (Structured (ex_entry ''b'' 5)),
               EvDelete 3 (Structured (ex_entry ''a'' max_int64))]"
  have "t_memory_requested (rs_totals (fold (handle ex_api) ?evs new_store)) = 0" by code_simp
  moreover have "map (\<lambda>x. e_contribution (snd x)) (rs_items (fold (handle ex_api) ?evs new_store)) = [ex_contribution 5]"
    by code_simp
  then have "sum_of c_memory_requested (contents (fold (handle ex_api) ?evs new_store)) = 5"
    by (simp add: contents_def contributions_def ex_contribution_def)
  moreover have "list_all (\<lambda>ev. case ev of EvUpsert now (Structured x) \<Rightarrow>
          0 \<le> c_memory_requested (e_contribution x) \<and> c_memory_requested (e_contribution x) \<le> max_int64
        | _ \<Rightarrow> True) ?evs" by code_simp
  ultimately show ?thesis by blast
qed

end
