(* ===== verification/PagedQueries.thy ===== *)
theory PagedQueries
  imports ResourceStore Encoding Tables
begin

section \<open>Paged queries against the cache\<close>

text \<open>
  \<open>pkg/agent/resourcecache/query.go\<close> and \<open>fields.go\<close>: which stored objects a query matches, one window
  of them, and the sessions that keep the matched keys for later pages. Label and field selectors are
  parsed by the Kubernetes libraries, the summaries are rendered by \<open>json.Marshal\<close>, and the Pod and
  Namespace fields a field selector reads are generated types: all of them come in \<open>query_api\<close>. The
  random bytes of a session identifier and the iteration order of the session map are arguments.
\<close>

definition default_query_limit :: int where "default_query_limit = 100"
definition max_query_limit :: int where "max_query_limit = 500"
definition max_paging_sessions :: nat where "max_paging_sessions = 64"
definition max_paging_session_age :: duration where "max_paging_session_age = 2 * minute"
definition max_paging_session_keys :: nat where "max_paging_session_keys = 200000"

datatype query_error = ErrResourceNotCached | ErrUnavailable | ErrQueryUnsupported | ErrNotSynced
  | ErrPageToken string | ErrIdentifier

record resource_name =
  gvr_group :: string
  gvr_version :: string
  gvr_resource :: string

record query =
  q_resource :: resource_name
  q_namespace :: string
  q_label_selector :: string
  q_field_selector :: string
  q_limit :: int
  q_page_token :: string

record requirement =
  rq_operator :: string
  rq_field :: string
  rq_value :: string

text \<open>
  \<open>qa_labels\<close> parses a label selector into \<open>None\<close> when it selects everything, or its predicate;
  \<open>qa_pod\<close> is the node name and phase when the summary is a Pod's, \<open>qa_namespace_phase\<close> the phase when
  it is a Namespace's.
\<close>

record 's query_api =
  qa_labels :: "string \<Rightarrow> ((string \<times> string) list \<Rightarrow> bool) option option"
  qa_fields :: "string \<Rightarrow> requirement list option"
  qa_pod :: "'s \<Rightarrow> (string \<times> string) option"
  qa_namespace_phase :: "'s \<Rightarrow> string option"
  qa_marshal :: "'s \<Rightarrow> string option"

subsection \<open>Field selectors\<close>

type_synonym 's field_reader = "'s entry \<Rightarrow> string option"

definition pods_gvr :: resource_name where
  "pods_gvr = \<lparr>gvr_group = [], gvr_version = ''v1'', gvr_resource = ''pods''\<rparr>"
definition namespaces_gvr :: resource_name where
  "namespaces_gvr = \<lparr>gvr_group = [], gvr_version = ''v1'', gvr_resource = ''namespaces''\<rparr>"

definition field_reader :: "'s query_api \<Rightarrow> resource_name \<Rightarrow> string \<Rightarrow> 's field_reader option" where
  "field_reader api gvr field =
     (if field = ''metadata.name'' then Some (\<lambda>e. Some (key_name (e_key e)))
      else if field = ''metadata.namespace'' then Some (\<lambda>e. Some (key_namespace (e_key e)))
      else if gvr = pods_gvr then
        (if field = ''spec.nodeName'' then Some (\<lambda>e. map_option fst (qa_pod api (e_summary e)))
         else if field = ''status.phase'' then Some (\<lambda>e. map_option snd (qa_pod api (e_summary e)))
         else None)
      else if gvr = namespaces_gvr then
        (if field = ''status.phase'' then Some (\<lambda>e. qa_namespace_phase api (e_summary e)) else None)
      else None)"

definition requirement_holds :: "requirement \<times> 's field_reader \<Rightarrow> 's entry \<Rightarrow> bool" where
  "requirement_holds rr e =
     (case snd rr e of
        None \<Rightarrow> False
      | Some v \<Rightarrow> (if rq_operator (fst rr) = ''!='' then v \<noteq> rq_value (fst rr) else v = rq_value (fst rr)))"

fun requirement_readers ::
    "'s query_api \<Rightarrow> resource_name \<Rightarrow> requirement list \<Rightarrow> (requirement \<times> 's field_reader) list option" where
  "requirement_readers api gvr [] = Some []"
| "requirement_readers api gvr (r # rs) =
     (if rq_operator r \<notin> {''='', ''=='', ''!=''} then None
      else case field_reader api gvr (rq_field r) of
        None \<Rightarrow> None
      | Some f \<Rightarrow> map_option (Cons (r, f)) (requirement_readers api gvr rs))"

definition parse_field_selector ::
    "'s query_api \<Rightarrow> resource_name \<Rightarrow> string \<Rightarrow> query_error + ('s entry \<Rightarrow> bool) option" where
  "parse_field_selector api gvr selector =
     (if selector = [] then Inr None
      else case qa_fields api selector of
        None \<Rightarrow> Inl ErrQueryUnsupported
      | Some [] \<Rightarrow> Inr None
      | Some rs \<Rightarrow>
          (case requirement_readers api gvr rs of
             None \<Rightarrow> Inl ErrQueryUnsupported
           | Some rfs \<Rightarrow> Inr (Some (\<lambda>e. list_all (\<lambda>rr. requirement_holds rr e) rfs))))"

subsection \<open>Matching and cutting\<close>

definition entry_matches ::
    "string \<Rightarrow> ((string \<times> string) list \<Rightarrow> bool) option \<Rightarrow> ('s entry \<Rightarrow> bool) option
       \<Rightarrow> object_key \<times> 's entry \<Rightarrow> bool" where
  "entry_matches ns selector matcher x \<longleftrightarrow>
     (ns = [] \<or> key_namespace (fst x) = ns)
     \<and> (case selector of None \<Rightarrow> True | Some p \<Rightarrow> p (e_labels (snd x)))
     \<and> (case matcher of None \<Rightarrow> True | Some m \<Rightarrow> m (snd x))"

definition matching_keys ::
    "string \<Rightarrow> ((string \<times> string) list \<Rightarrow> bool) option \<Rightarrow> ('s entry \<Rightarrow> bool) option \<Rightarrow> 's resource_store
       \<Rightarrow> (object_key list \<times> string \<times> string) option" where
  "matching_keys ns selector matcher st =
     (if \<not> rs_synced st then None
      else Some (sort (map fst (filter (entry_matches ns selector matcher) (rs_items st))),
                 itoa (uint (rs_generation st)), rs_version st))"

record page =
  pg_items :: "string list"
  pg_snapshot :: string
  pg_version :: string
  pg_remaining :: int
  pg_next :: string

definition rendered :: "'s query_api \<Rightarrow> 's resource_store \<Rightarrow> object_key \<Rightarrow> string option" where
  "rendered api st k =
     (case map_of (rs_items st) k of None \<Rightarrow> None | Some e \<Rightarrow> qa_marshal api (e_summary e))"

definition cut :: "'s query_api \<Rightarrow> 's resource_store \<Rightarrow> object_key list \<Rightarrow> int \<Rightarrow> int \<Rightarrow> string list \<times> int" where
  "cut api st keys offset limit =
     (if offset < 0 \<or> int (length keys) \<le> offset then ([], 0)
      else let stop = min (offset + limit) (int (length keys)) in
           (List.map_filter (rendered api st) (take (nat (stop - offset)) (drop (nat offset) keys)),
            int (length keys) - stop))"

subsection \<open>Sessions and page tokens\<close>

record paging_session =
  ps_fingerprint :: string
  ps_keys :: "object_key list"
  ps_snapshot :: string
  ps_created :: time

definition fingerprint_separator :: string where "fingerprint_separator = [CHR 0x00]"

definition query_fingerprint :: "query \<Rightarrow> string" where
  "query_fingerprint q =
     gvr_group (q_resource q) @ fingerprint_separator @ gvr_version (q_resource q) @ fingerprint_separator
     @ gvr_resource (q_resource q) @ fingerprint_separator @ q_namespace q @ fingerprint_separator
     @ q_label_selector q @ fingerprint_separator @ q_field_selector q"

definition encode_page_token :: "string \<Rightarrow> int \<Rightarrow> string" where
  "encode_page_token i offset = raw_url_encode (i @ '':'' @ itoa offset)"

definition decode_page_token :: "string \<Rightarrow> query_error + string \<times> int" where
  "decode_page_token token =
     (case raw_url_decode token of
        None \<Rightarrow> Inl (ErrPageToken ''malformed token'')
      | Some s \<Rightarrow>
          (case cut_at CHR '':'' s of
             None \<Rightarrow> Inl (ErrPageToken ''malformed token'')
           | Some (i, position) \<Rightarrow>
               if i = [] then Inl (ErrPageToken ''malformed token'')
               else (case atoi position of
                       None \<Rightarrow> Inl (ErrPageToken ''malformed position'')
                     | Some offset \<Rightarrow> Inr (i, offset))))"

text \<open>Sixteen random bytes, or the failure to read them.\<close>

definition new_session_identifier :: "string option \<Rightarrow> query_error + string" where
  "new_session_identifier random =
     (case random of None \<Rightarrow> Inl ErrIdentifier | Some bytes \<Rightarrow> Inr (raw_url_encode bytes))"

definition session_expired :: "time \<Rightarrow> paging_session \<Rightarrow> bool" where
  "session_expired now s \<longleftrightarrow> max_paging_session_age < time_sub now (ps_created s)"

definition expire_locked :: "time \<Rightarrow> paging_session table \<Rightarrow> paging_session table" where
  "expire_locked now m = filter (\<lambda>x. \<not> session_expired now (snd x)) m"

definition evict_oldest_locked ::
    "(paging_session table \<Rightarrow> paging_session table) \<Rightarrow> paging_session table \<Rightarrow> paging_session table" where
  "evict_oldest_locked order m =
     (case fold (scan_step (\<lambda>s. False) ps_created) (iterate order m) (m, [], zero_time) of
        (m', oldest, t) \<Rightarrow> if oldest \<noteq> [] then AList.delete oldest m else m)"

definition session_room ::
    "(paging_session table \<Rightarrow> paging_session table) \<Rightarrow> time \<Rightarrow> paging_session table \<Rightarrow> paging_session table" where
  "session_room order now m =
     (let m1 = expire_locked now m in
      if max_paging_sessions \<le> length m1 then evict_oldest_locked order m1 else m1)"

definition open_session ::
    "(paging_session table \<Rightarrow> paging_session table) \<Rightarrow> string option \<Rightarrow> time \<Rightarrow> string \<Rightarrow> object_key list
       \<Rightarrow> string \<Rightarrow> int \<Rightarrow> paging_session table \<Rightarrow> (query_error + string) \<times> paging_session table" where
  "open_session order random now fingerprint keys snapshot offset m =
     (if max_paging_session_keys < length keys then (Inl ErrQueryUnsupported, m)
      else case new_session_identifier random of
        Inl e \<Rightarrow> (Inl e, m)
      | Inr i \<Rightarrow>
          (Inr (encode_page_token i offset),
           AList.update i \<lparr>ps_fingerprint = fingerprint, ps_keys = keys, ps_snapshot = snapshot,
                           ps_created = now\<rparr> (session_room order now m)))"

definition resume_session ::
    "time \<Rightarrow> string \<Rightarrow> string \<Rightarrow> paging_session table
       \<Rightarrow> (query_error + paging_session \<times> int) \<times> paging_session table" where
  "resume_session now token fingerprint m =
     (case decode_page_token token of
        Inl e \<Rightarrow> (Inl e, m)
      | Inr (i, offset) \<Rightarrow>
          (let m1 = expire_locked now m in
           (case map_of m1 i of
              None \<Rightarrow> Inl (ErrPageToken ''unknown or expired page'')
            | Some s \<Rightarrow>
                if ps_fingerprint s \<noteq> fingerprint then Inl (ErrPageToken ''query does not match the page'')
                else if offset < 0 \<or> int (length (ps_keys s)) < offset
                then Inl (ErrPageToken ''position is outside the page'')
                else Inr (s, offset), m1)))"

definition advance_session :: "string \<Rightarrow> int \<Rightarrow> query_error + string" where
  "advance_session token offset =
     and_then (decode_page_token token) (\<lambda>(i, old). Inr (encode_page_token i offset))"

subsection \<open>Answering a page\<close>

definition first_page ::
    "'s query_api \<Rightarrow> (paging_session table \<Rightarrow> paging_session table) \<Rightarrow> string option \<Rightarrow> time \<Rightarrow> 's resource_store
       \<Rightarrow> query \<Rightarrow> ((string \<times> string) list \<Rightarrow> bool) option \<Rightarrow> ('s entry \<Rightarrow> bool) option \<Rightarrow> int
       \<Rightarrow> paging_session table \<Rightarrow> (query_error + page) \<times> paging_session table" where
  "first_page api order random now st q selector matcher limit m =
     (case matching_keys (q_namespace q) selector matcher st of
        None \<Rightarrow> (Inl ErrNotSynced, m)
      | Some (keys, snapshot, version) \<Rightarrow>
          (case cut api st keys 0 limit of
             (items, remaining) \<Rightarrow>
               let p = \<lparr>pg_items = items, pg_snapshot = snapshot, pg_version = version,
                        pg_remaining = remaining, pg_next = []\<rparr> in
               if 0 < remaining then
                 (case open_session order random now (query_fingerprint q) keys snapshot limit m of
                    (Inl e, m') \<Rightarrow> (Inl e, m')
                  | (Inr token, m') \<Rightarrow> (Inr (p\<lparr>pg_next := token\<rparr>), m'))
               else (Inr p, m)))"

definition continue_page ::
    "'s query_api \<Rightarrow> time \<Rightarrow> 's resource_store \<Rightarrow> query \<Rightarrow> int \<Rightarrow> paging_session table
       \<Rightarrow> (query_error + page) \<times> paging_session table" where
  "continue_page api now st q limit m =
     (case resume_session now (q_page_token q) (query_fingerprint q) m of
        (Inl e, m') \<Rightarrow> (Inl e, m')
      | (Inr (s, offset), m') \<Rightarrow>
          if \<not> rs_synced st then (Inl ErrNotSynced, m')
          else (case cut api st (ps_keys s) offset limit of
             (items, remaining) \<Rightarrow>
               let p = \<lparr>pg_items = items, pg_snapshot = ps_snapshot s, pg_version = rs_version st,
                        pg_remaining = remaining, pg_next = []\<rparr> in
               if 0 < remaining then
                 (case advance_session (q_page_token q) (offset + limit) of
                    Inl e \<Rightarrow> (Inl e, m')
                  | Inr token \<Rightarrow> (Inr (p\<lparr>pg_next := token\<rparr>), m'))
               else (Inr p, m')))"

text \<open>
  \<open>Summaries\<close>, over the store of the resource: \<open>None\<close> when the cache does not follow it or Discovery
  says it is absent; \<open>namespaced\<close> is the kind's own flag.
\<close>

definition summaries ::
    "'s query_api \<Rightarrow> (paging_session table \<Rightarrow> paging_session table) \<Rightarrow> string option \<Rightarrow> time
       \<Rightarrow> (bool \<times> 's resource_store) option \<Rightarrow> query \<Rightarrow> paging_session table
       \<Rightarrow> (query_error + page) \<times> paging_session table" where
  "summaries api order random now target q m =
     (case target of
        None \<Rightarrow> (Inl ErrResourceNotCached, m)
      | Some (namespaced, st) \<Rightarrow>
          if rs_failure_code st \<noteq> [] then (Inl ErrUnavailable, m)
          else if q_namespace q \<noteq> [] \<and> \<not> namespaced then (Inl ErrQueryUnsupported, m)
          else
            (let limit = min (if q_limit q \<le> 0 then default_query_limit else q_limit q) max_query_limit in
             case qa_labels api (q_label_selector q) of
               None \<Rightarrow> (Inl ErrQueryUnsupported, m)
             | Some selector \<Rightarrow>
                 (case parse_field_selector api (q_resource q) (q_field_selector q) of
                    Inl e \<Rightarrow> (Inl e, m)
                  | Inr matcher \<Rightarrow>
                      if q_page_token q \<noteq> [] then continue_page api now st q limit m
                      else first_page api order random now st q selector matcher limit m)))"

section \<open>Page tokens\<close>

lemma decode_encode:
  assumes "new_session_identifier (Some bytes) = Inr i" and "bytes \<noteq> []"
    and "min_int64 \<le> offset" and "offset \<le> max_int64"
  shows "decode_page_token (encode_page_token i offset) = Inr (i, offset)"
proof -
  have i: "i = raw_url_encode bytes" using assms(1) by (simp add: new_session_identifier_def)
  then have "cut_at CHR '':'' (i @ '':'' @ itoa offset) = Some (i, itoa offset)"
    using cut_at_append [OF raw_url_no_colon] by simp
  then show ?thesis
    using assms(2-4) i
    by (simp add: decode_page_token_def encode_page_token_def raw_url_roundtrip atoi_itoa raw_url_encode_Nil_iff)
qed

text \<open>
  A page token says what was put into it. For every identifier the session table issues and every
  offset an \<open>int64\<close> holds, decoding the encoded token gives the identifier and the offset back.
\<close>

theorem page_token_roundtrip:
  assumes "new_session_identifier (Some bytes) = Inr i" and "bytes \<noteq> []"
    and "min_int64 \<le> offset" and "offset \<le> max_int64"
  shows "decode_page_token (encode_page_token i offset) = Inr (i, offset)"
  using decode_encode [OF assms] .

theorem page_token_roundtrip_witness:
  "decode_page_token (encode_page_token (raw_url_encode ''0123456789abcdef'') 100)
     = Inr (raw_url_encode ''0123456789abcdef'', 100)"
  by (rule page_token_roundtrip [of "''0123456789abcdef''"])
    (simp_all add: new_session_identifier_def min_int64_def max_int64_def)

lemma encode_page_token_not_empty [simp]: "encode_page_token i offset \<noteq> []"
  by (simp add: encode_page_token_def raw_url_encode_Nil_iff)

section \<open>The session table is bounded\<close>

lemma evict_is_make_room:
  assumes "max_paging_sessions \<le> length m"
  shows "evict_oldest_locked order m = make_room max_paging_sessions (\<lambda>s. False) ps_created order m"
proof -
  obtain m' k t where r: "fold (scan_step (\<lambda>s. False) ps_created) (iterate order m) (m, [], zero_time) = (m', k, t)"
    by (cases "fold (scan_step (\<lambda>s. False) ps_created) (iterate order m) (m, [], zero_time)")
  then have "m' = m"
    using scan_entries [of "\<lambda>s. False" ps_created "iterate order m" m "[]" zero_time] by simp
  with r assms show ?thesis by (simp add: evict_oldest_locked_def make_room_def)
qed

lemma session_room_eq:
  "session_room order now m = make_room max_paging_sessions (\<lambda>s. False) ps_created order (expire_locked now m)"
  using evict_is_make_room [of "expire_locked now m" order]
  by (auto simp: session_room_def Let_def make_room_def)

interpretation sessions: bounded_table "session_room order now" AList.update length table_ok
    "\<lambda>k. k \<noteq> []" max_paging_sessions
  for order now
proof
  fix m :: "paging_session table" and k v
  have cap: "0 < max_paging_sessions" by (simp add: max_paging_sessions_def)
  have len: "length (expire_locked now m) \<le> length m" by (simp add: expire_locked_def)
  have ok: "table_ok m \<Longrightarrow> table_ok (expire_locked now m)"
    by (simp add: expire_locked_def table_ok_filter)
  show "length (session_room order now m) < max_paging_sessions"
    if "table_ok m" "length m \<le> max_paging_sessions"
    unfolding session_room_eq using that len ok cap by (intro make_room_less) simp_all
  show "table_ok (session_room order now m)" if "table_ok m"
    unfolding session_room_eq using that ok cap by (intro make_room_ok) simp_all
  show "length (AList.update k v m) \<le> Suc (length m)" by (rule length_update_le)
  show "table_ok (AList.update k v m)" if "table_ok m" "k \<noteq> []"
    using that by (rule table_ok_update)
qed

lemma expire_within: "sessions.within m \<Longrightarrow> sessions.within (expire_locked now m)"
  by (simp add: sessions.within_def expire_locked_def table_ok_filter order_trans [OF length_filter_le])

lemma open_session_within:
  assumes "sessions.within m" and "random \<noteq> Some []"
  shows "sessions.within (snd (open_session order random now fp keys snap off m))"
proof (cases random)
  case None
  then show ?thesis using assms by (simp add: open_session_def new_session_identifier_def)
next
  case (Some bytes)
  then have "raw_url_encode bytes \<noteq> []" using assms(2) by (simp add: raw_url_encode_Nil_iff)
  then show ?thesis
    using assms(1) Some sessions.put_after_space by (simp add: open_session_def new_session_identifier_def)
qed

lemma resume_session_within:
  "sessions.within m \<Longrightarrow> sessions.within (snd (resume_session now token fp m))"
  using expire_within by (auto simp: resume_session_def Let_def split: sum.splits)

lemma first_page_within:
  assumes "sessions.within m" and "random \<noteq> Some []"
  shows "sessions.within (snd (first_page api order random now st q sel mat limit m))"
  using assms(1) open_session_within [OF assms]
  by (auto simp: first_page_def Let_def split: option.splits prod.splits sum.splits) (metis snd_conv)+

lemma continue_page_within:
  assumes "sessions.within m"
  shows "sessions.within (snd (continue_page api now st q limit m))"
  using resume_session_within [OF assms, of now "q_page_token q" "query_fingerprint q"]
  by (auto simp: continue_page_def Let_def split: prod.splits sum.splits)

text \<open>
  At most 64 paging sessions. Answering any query, whatever it asks and whatever order the session
  map iterates in, keeps the table of sessions within its capacity.
\<close>

theorem sessions_bounded:
  assumes "table_ok m" and "length m \<le> max_paging_sessions" and "random \<noteq> Some []"
  shows "length (snd (summaries api order random now target q m)) \<le> max_paging_sessions"
proof -
  have w: "sessions.within m" using assms(1,2) by (simp add: sessions.within_def)
  have "sessions.within (snd (summaries api order random now target q m))"
    unfolding summaries_def Let_def
    by (simp add: w first_page_within [OF w assms(3)] continue_page_within [OF w]
        split: option.split sum.split prod.split)
  then show ?thesis by (simp add: sessions.within_def)
qed

definition ex_query_api :: "string query_api" where
  "ex_query_api = \<lparr>qa_labels = (\<lambda>s. Some None), qa_fields = (\<lambda>s. Some []), qa_pod = (\<lambda>s. None),
     qa_namespace_phase = (\<lambda>s. None), qa_marshal = (\<lambda>s. Some s)\<rparr>"

definition ex_query :: query where
  "ex_query = \<lparr>q_resource = pods_gvr, q_namespace = [], q_label_selector = [], q_field_selector = [],
     q_limit = 1, q_page_token = []\<rparr>"

definition ex_synced_store :: "string resource_store" where
  "ex_synced_store = handle ex_api (EvReplace 1
     [Structured (ex_entry ''b'' 1), Structured (ex_entry ''a'' 1)] ''9'') new_store"

theorem sessions_bounded_witness:
  "length (snd (summaries ex_query_api rev (Some ''0123456789abcdef'') 5 (Some (True, ex_synced_store)) ex_query []))
     \<le> max_paging_sessions"
  by (rule sessions_bounded) simp_all

section \<open>Pages put together\<close>

lemma cut_window:
  assumes "0 \<le> offset" and "0 < limit" and "offset \<le> int (length keys)"
  shows "cut api st keys offset limit =
     (List.map_filter (rendered api st) (take (nat limit) (drop (nat offset) keys)),
      max 0 (int (length keys) - offset - limit))"
proof (cases "offset = int (length keys)")
  case True
  then show ?thesis using assms by (simp add: cut_def map_filter_simps)
next
  case False
  show ?thesis
  proof (cases "offset + limit \<le> int (length keys)")
    case True
    then show ?thesis using assms False by (simp add: cut_def Let_def)
  next
    case past: False
    have "take (nat (int (length keys) - offset)) (drop (nat offset) keys) = drop (nat offset) keys"
      by (rule take_all) (use assms in simp)
    moreover have "take (nat limit) (drop (nat offset) keys) = drop (nat offset) keys"
      by (rule take_all) (use assms past in simp)
    ultimately show ?thesis using assms False past by (simp add: cut_def Let_def min_def)
  qed
qed

lemma map_of_filter_kept: "map_of m k = Some v \<Longrightarrow> P (k, v) \<Longrightarrow> map_of (filter P m) k = Some v"
  by (induction m) (auto split: if_splits)

text \<open>Following the continuation tokens until a page carries none.\<close>

fun walk ::
    "nat \<Rightarrow> 's query_api \<Rightarrow> time \<Rightarrow> 's resource_store \<Rightarrow> query \<Rightarrow> int \<Rightarrow> paging_session table
       \<Rightarrow> (query_error + string list) option" where
  "walk 0 api now st q limit m = None"
| "walk (Suc n) api now st q limit m =
     (case continue_page api now st q limit m of
        (Inl e, m') \<Rightarrow> Some (Inl e)
      | (Inr p, m') \<Rightarrow>
          if pg_next p = [] then Some (Inr (pg_items p))
          else (case walk n api now st (q\<lparr>q_page_token := pg_next p\<rparr>) limit m' of
                  Some (Inr r) \<Rightarrow> Some (Inr (pg_items p @ r)) | x \<Rightarrow> x))"

definition read_all ::
    "nat \<Rightarrow> 's query_api \<Rightarrow> (paging_session table \<Rightarrow> paging_session table) \<Rightarrow> string option \<Rightarrow> time
       \<Rightarrow> 's resource_store \<Rightarrow> query \<Rightarrow> ((string \<times> string) list \<Rightarrow> bool) option \<Rightarrow> ('s entry \<Rightarrow> bool) option \<Rightarrow> int
       \<Rightarrow> paging_session table \<Rightarrow> (query_error + string list) option" where
  "read_all n api order random now st q selector matcher limit m =
     (case first_page api order random now st q selector matcher limit m of
        (Inl e, m') \<Rightarrow> Some (Inl e)
      | (Inr p, m') \<Rightarrow>
          if pg_next p = [] then Some (Inr (pg_items p))
          else (case walk n api now st (q\<lparr>q_page_token := pg_next p\<rparr>) limit m' of
                  Some (Inr r) \<Rightarrow> Some (Inr (pg_items p @ r)) | x \<Rightarrow> x))"

lemma fingerprint_token [simp]: "query_fingerprint (q\<lparr>q_page_token := t\<rparr>) = query_fingerprint q"
  by (simp add: query_fingerprint_def)

lemma map_filter_take_drop:
  "List.map_filter f (take n xs) @ List.map_filter f (drop n xs) = List.map_filter f xs"
  by (simp add: List.map_filter_def flip: map_append filter_append)

lemma walk_rest:
  assumes "map_of m i = Some s" and "ps_created s = now" and "ps_fingerprint s = query_fingerprint q"
    and "new_session_identifier (Some bytes) = Inr i" and "bytes \<noteq> []"
    and "0 \<le> offset" and "offset \<le> int (length (ps_keys s))" and "length (ps_keys s) \<le> max_paging_session_keys"
    and "0 < limit" and "limit \<le> max_query_limit" and "rs_synced st"
    and "nat (int (length (ps_keys s)) - offset) < n"
  shows "walk n api now st (q\<lparr>q_page_token := encode_page_token i offset\<rparr>) limit m
           = Some (Inr (List.map_filter (rendered api st) (drop (nat offset) (ps_keys s))))"
  using assms(1,6,7,12)
proof (induction n arbitrary: m offset)
  case 0
  then show ?case by simp
next
  case (Suc n)
  let ?len = "int (length (ps_keys s))"
  let ?q = "q\<lparr>q_page_token := encode_page_token i offset\<rparr>"
  define m1 where "m1 = expire_locked now m"
  have small: "?len \<le> 200000" using assms(8) by (simp add: max_paging_session_keys_def)
  have tok: "decode_page_token (encode_page_token i offset) = Inr (i, offset)"
    by (rule decode_encode [OF assms(4,5)])
      (use Suc.prems small in \<open>simp_all add: min_int64_def max_int64_def\<close>)
  have "\<not> session_expired now s"
    using assms(2) by (simp add: session_expired_def time_sub_def max_paging_session_age_def minute_def
        min_int64_def max_int64_def)
  then have kept: "map_of m1 i = Some s"
    unfolding m1_def expire_locked_def by (intro map_of_filter_kept [OF Suc.prems(1)]) simp
  have res: "resume_session now (encode_page_token i offset) (query_fingerprint q) m = (Inr (s, offset), m1)"
    using tok kept Suc.prems assms(3) by (simp add: resume_session_def m1_def [symmetric])
  let ?now = "take (nat limit) (drop (nat offset) (ps_keys s))"
  let ?p = "\<lparr>pg_items = List.map_filter (rendered api st) ?now, pg_snapshot = ps_snapshot s,
             pg_version = rs_version st, pg_remaining = max 0 (?len - offset - limit), pg_next = []\<rparr>"
  show ?case
  proof (cases "?len \<le> offset + limit")
    case True
    then have "continue_page api now st ?q limit m = (Inr ?p, m1)"
      using res assms(9,11) Suc.prems by (simp add: continue_page_def cut_window)
    moreover have "?now = drop (nat offset) (ps_keys s)"
      by (rule take_all) (use True Suc.prems assms(9) in simp)
    ultimately show ?thesis by simp
  next
    case False
    have "advance_session (encode_page_token i offset) (offset + limit) = Inr (encode_page_token i (offset + limit))"
      using tok by (simp add: advance_session_def)
    then have page: "continue_page api now st ?q limit m
        = (Inr (?p\<lparr>pg_next := encode_page_token i (offset + limit)\<rparr>), m1)"
      using res assms(9,11) Suc.prems False by (simp add: continue_page_def cut_window)
    have "walk n api now st (q\<lparr>q_page_token := encode_page_token i (offset + limit)\<rparr>) limit m1
        = Some (Inr (List.map_filter (rendered api st) (drop (nat (offset + limit)) (ps_keys s))))"
      by (rule Suc.IH [OF kept]) (use Suc.prems assms(9) False in simp_all)
    moreover have "drop (nat (offset + limit)) (ps_keys s) = drop (nat limit) (drop (nat offset) (ps_keys s))"
      using Suc.prems assms(9) by (simp add: nat_add_distrib add.commute)
    ultimately show ?thesis
      using page map_filter_take_drop [of "rendered api st" "nat limit" "drop (nat offset) (ps_keys s)"]
      by simp
  qed
qed

text \<open>
  C16: paging is complete and exact. Asking for the first page and following the tokens until one page
  carries none returns, for an unchanged store, precisely the rendered summaries of the matching keys,
  each once and in the order of namespace and name, whatever the page size; the number of pages is
  bounded by the number of keys.
\<close>

theorem pages_are_the_whole_answer:
  assumes "rs_synced st" and "0 < limit" and "limit \<le> max_query_limit"
    and "random = Some bytes" and "bytes \<noteq> []"
    and "keys = sort (map fst (filter (entry_matches (q_namespace q) selector matcher) (rs_items st)))"
    and "length keys \<le> max_paging_session_keys" and "length keys < n"
  shows "read_all n api order random now st q selector matcher limit m
           = Some (Inr (List.map_filter (rendered api st) keys))"
proof -
  have match: "matching_keys (q_namespace q) selector matcher st
      = Some (keys, itoa (uint (rs_generation st)), rs_version st)"
    using assms(1,6) by (simp add: matching_keys_def)
  have cut0: "cut api st keys 0 limit = (List.map_filter (rendered api st) (take (nat limit) keys),
      max 0 (int (length keys) - limit))"
    using cut_window [of 0 limit keys api st] assms(2) by simp
  show ?thesis
  proof (cases "int (length keys) \<le> limit")
    case True
    then have "take (nat limit) keys = keys" by simp
    then show ?thesis using match cut0 True by (simp add: read_all_def first_page_def)
  next
    case False
    define i where "i = raw_url_encode bytes"
    have ident: "new_session_identifier (Some bytes) = Inr i"
      by (simp add: new_session_identifier_def i_def)
    let ?s = "\<lparr>ps_fingerprint = query_fingerprint q, ps_keys = keys,
               ps_snapshot = itoa (uint (rs_generation st)), ps_created = now\<rparr>"
    let ?m = "AList.update i ?s (session_room order now m)"
    have "walk n api now st (q\<lparr>q_page_token := encode_page_token i limit\<rparr>) limit ?m
        = Some (Inr (List.map_filter (rendered api st) (drop (nat limit) (ps_keys ?s))))"
      by (rule walk_rest [OF _ _ _ ident assms(5)])
        (use assms False in \<open>simp_all add: update_conv' del: fun_upd_apply, simp_all\<close>)
    then show ?thesis
      using match cut0 False assms(4,7) ident
      by (simp add: read_all_def first_page_def open_session_def map_filter_take_drop)
  qed
qed

theorem pages_are_the_whole_answer_witness:
  "read_all 3 ex_query_api rev (Some ''0123456789abcdef'') 5 ex_synced_store ex_query None None 1 []
     = Some (Inr (List.map_filter (rendered ex_query_api ex_synced_store)
                    [ObjectKey ''default'' ''a'', ObjectKey ''default'' ''b'']))"
proof (rule pages_are_the_whole_answer [OF _ _ _ refl])
  show "[ObjectKey ''default'' ''a'', ObjectKey ''default'' ''b'']
      = sort (map fst (filter (entry_matches (q_namespace ex_query) None None) (rs_items ex_synced_store)))"
    by code_simp
  show "rs_synced ex_synced_store" by code_simp
qed (simp_all add: max_query_limit_def max_paging_session_keys_def)

end
