(* ===== verification/Overview.thy ===== *)
theory Overview
  imports ResourceStore
begin

section \<open>The overview snapshot\<close>

text \<open>
  \<open>pkg/agent/resourcecache/overview.go\<close>: what the cache knows, put together from the running totals of
  each section. A section is its name, whether Discovery says the API is absent, and its store; the
  list is the order the cache was built with.
\<close>

definition max_items_per_section :: int where "max_items_per_section = 10000"

definition section_nodes :: string where "section_nodes = ''nodes''"
definition section_namespaces :: string where "section_namespaces = ''namespaces''"
definition section_pods :: string where "section_pods = ''pods''"
definition section_persistent_volumes :: string where "section_persistent_volumes = ''storage.persistentvolumes''"
definition section_persistent_volume_claims :: string where
  "section_persistent_volume_claims = ''storage.persistentvolumeclaims''"
definition section_workload_prefix :: string where "section_workload_prefix = ''workloads.''"

lemmas section_names = section_nodes_def section_namespaces_def section_pods_def
  section_persistent_volumes_def section_persistent_volume_claims_def section_workload_prefix_def

record 's cached_section =
  cs_section :: string
  cs_absent :: bool
  cs_store :: "'s resource_store"

record section_state =
  sst_section :: string
  sst_synced :: bool
  sst_version :: string
  sst_last_success :: time
  sst_last_event :: time
  sst_watch_restarts :: int
  sst_observed :: int
  sst_code :: string
  sst_truncated :: bool

record workload_totals =
  wl_resource :: string
  wl_total :: int
  wl_status :: counts

record overview =
  ov_generated :: time
  ov_synced :: bool
  ov_stale :: bool
  ov_last_success :: time
  ov_sections :: "section_state list"
  ov_nodes_total :: int
  ov_nodes_unschedulable :: int
  ov_nodes_status :: counts
  ov_nodes_versions :: counts
  ov_namespaces_total :: int
  ov_namespaces_status :: counts
  ov_pods_total :: int
  ov_pods_ready :: int
  ov_pods_not_ready :: int
  ov_pods_terminating :: int
  ov_pods_status :: counts
  ov_workloads :: "workload_totals list"
  ov_pv_total :: int
  ov_pv_capacity :: int
  ov_pv_status :: counts
  ov_pvc_total :: int
  ov_pvc_requested :: int
  ov_pvc_status :: counts
  ov_cpu_capacity :: int
  ov_cpu_allocatable :: int
  ov_cpu_requested :: int
  ov_memory_capacity :: int
  ov_memory_allocatable :: int
  ov_memory_requested :: int
  ov_pod_capacity :: int
  ov_pod_allocatable :: int
  ov_non_terminal_pods :: int

definition empty_overview :: "time \<Rightarrow> overview" where
  "empty_overview now =
     \<lparr>ov_generated = now, ov_synced = True, ov_stale = False, ov_last_success = zero_time,
      ov_sections = [], ov_nodes_total = 0, ov_nodes_unschedulable = 0, ov_nodes_status = Map.empty,
      ov_nodes_versions = Map.empty, ov_namespaces_total = 0, ov_namespaces_status = Map.empty,
      ov_pods_total = 0, ov_pods_ready = 0, ov_pods_not_ready = 0, ov_pods_terminating = 0,
      ov_pods_status = Map.empty, ov_workloads = [], ov_pv_total = 0, ov_pv_capacity = 0,
      ov_pv_status = Map.empty, ov_pvc_total = 0, ov_pvc_requested = 0, ov_pvc_status = Map.empty,
      ov_cpu_capacity = 0, ov_cpu_allocatable = 0, ov_cpu_requested = 0, ov_memory_capacity = 0,
      ov_memory_allocatable = 0, ov_memory_requested = 0, ov_pod_capacity = 0, ov_pod_allocatable = 0,
      ov_non_terminal_pods = 0\<rparr>"

definition merge_section :: "string \<Rightarrow> section_totals \<Rightarrow> overview \<Rightarrow> overview" where
  "merge_section s t v =
     (if s = section_nodes then
        v\<lparr>ov_nodes_total := t_total t, ov_nodes_unschedulable := t_unschedulable t,
          ov_nodes_status := t_status t, ov_nodes_versions := t_version t,
          ov_cpu_capacity := t_cpu_capacity t, ov_cpu_allocatable := t_cpu_allocatable t,
          ov_memory_capacity := t_memory_capacity t, ov_memory_allocatable := t_memory_allocatable t,
          ov_pod_capacity := t_pod_capacity t, ov_pod_allocatable := t_pod_allocatable t\<rparr>
      else if s = section_namespaces then
        v\<lparr>ov_namespaces_total := t_total t, ov_namespaces_status := t_status t\<rparr>
      else if s = section_pods then
        v\<lparr>ov_pods_total := t_total t, ov_pods_ready := t_ready t, ov_pods_not_ready := t_not_ready t,
          ov_pods_terminating := t_terminating t, ov_pods_status := t_status t,
          ov_cpu_requested := t_cpu_requested t, ov_memory_requested := t_memory_requested t,
          ov_non_terminal_pods := t_non_terminal t\<rparr>
      else if s = section_persistent_volumes then
        v\<lparr>ov_pv_total := t_total t, ov_pv_capacity := t_storage_capacity t, ov_pv_status := t_status t\<rparr>
      else if s = section_persistent_volume_claims then
        v\<lparr>ov_pvc_total := t_total t, ov_pvc_requested := t_storage_requested t, ov_pvc_status := t_status t\<rparr>
      else if has_prefix s section_workload_prefix then
        v\<lparr>ov_workloads := ov_workloads v @
            [\<lparr>wl_resource = trim_prefix s section_workload_prefix, wl_total = t_total t, wl_status = t_status t\<rparr>]\<rparr>
      else v)"

definition section_state_of :: "'s cached_section \<Rightarrow> section_health \<Rightarrow> section_state" where
  "section_state_of c h =
     \<lparr>sst_section = cs_section c, sst_synced = (\<not> cs_absent c \<and> sh_synced h),
      sst_version = sh_version h, sst_last_success = sh_last_success h,
      sst_last_event = sh_last_event h, sst_watch_restarts = sh_watch_restarts h,
      sst_observed = sh_observed h,
      sst_code = (if \<not> cs_absent c \<and> \<not> sh_synced h then ''warming_up'' else sh_failure_code h),
      sst_truncated = (max_items_per_section < sh_observed h)\<rparr>"

definition add_section :: "'s cached_section \<Rightarrow> overview \<Rightarrow> overview" where
  "add_section c v =
     (if cs_section c = [] then v
      else case snapshot_totals (cs_store c) of
        (t, h) \<Rightarrow>
          let state = section_state_of c h in
          if \<not> sst_synced state
          then v\<lparr>ov_synced := False, ov_stale := True, ov_sections := ov_sections v @ [state]\<rparr>
          else
            let v1 = (if sst_code state \<noteq> [] then v\<lparr>ov_stale := True\<rparr> else v);
                v2 = (if ov_last_success v1 < sh_last_success h then v1\<lparr>ov_last_success := sh_last_success h\<rparr> else v1);
                v3 = merge_section (cs_section c) t v2
            in v3\<lparr>ov_sections := ov_sections v3 @ [state]\<rparr>)"

definition overview_snapshot :: "time \<Rightarrow> 's cached_section list \<Rightarrow> overview" where
  "overview_snapshot now sections =
     (let v = fold add_section sections (empty_overview now) in
      v\<lparr>ov_sections := sort_key sst_section (ov_sections v),
        ov_workloads := sort_key wl_resource (ov_workloads v)\<rparr>)"

section \<open>Properties\<close>

text \<open>The sections that count: those with a name.\<close>

definition usable :: "'s cached_section \<Rightarrow> bool" where
  "usable c \<longleftrightarrow> \<not> cs_absent c \<and> rs_synced (cs_store c)"

definition troubled :: "'s cached_section \<Rightarrow> bool" where
  "troubled c \<longleftrightarrow> \<not> usable c \<or> rs_failure_code (cs_store c) \<noteq> []"

lemma merge_section_flags [simp]:
  "ov_synced (merge_section s t v) = ov_synced v" "ov_stale (merge_section s t v) = ov_stale v"
  "ov_sections (merge_section s t v) = ov_sections v"
  by (simp_all add: merge_section_def)

lemma add_section_flags:
  "ov_synced (add_section c v) \<longleftrightarrow> ov_synced v \<and> (cs_section c = [] \<or> usable c)"
  "ov_stale (add_section c v) \<longleftrightarrow> ov_stale v
     \<or> cs_section c \<noteq> [] \<and> (\<not> usable c \<or> rs_failure_code (cs_store c) \<noteq> [])"
  by (auto simp: add_section_def snapshot_totals_def section_state_of_def Let_def usable_def)

lemma fold_add_section_flags:
  "ov_synced (fold add_section cs v) \<longleftrightarrow> ov_synced v \<and> (\<forall>c \<in> set cs. cs_section c = [] \<or> usable c)"
  "ov_stale (fold add_section cs v) \<longleftrightarrow> ov_stale v
     \<or> (\<exists>c \<in> set cs. cs_section c \<noteq> [] \<and> (\<not> usable c \<or> rs_failure_code (cs_store c) \<noteq> []))"
  by (induction cs arbitrary: v) (auto simp: add_section_flags)

text \<open>
  The overview is honest about what it knows. It claims to be synchronized exactly when every
  section it reports is followed and has listed once, and it is free of the stale mark exactly when,
  besides, none of those sections is failing.
\<close>

theorem overview_is_honest:
  "ov_synced (overview_snapshot now cs) = (\<nexists>c. c \<in> set cs \<and> cs_section c \<noteq> [] \<and> \<not> usable c)
   \<and> ov_stale (overview_snapshot now cs) = (\<exists>c. c \<in> set cs \<and> cs_section c \<noteq> [] \<and> troubled c)"
  using fold_add_section_flags [of cs "empty_overview now"]
  by (auto simp: overview_snapshot_def empty_overview_def Let_def troubled_def)

lemma pods_kept: "cs_section c \<noteq> section_pods \<Longrightarrow> ov_pods_total (add_section c v) = ov_pods_total v"
  by (simp add: add_section_def merge_section_def Let_def split: prod.split)

lemma pods_kept_fold:
  "\<forall>c \<in> set cs. cs_section c \<noteq> section_pods \<Longrightarrow> ov_pods_total (fold add_section cs v) = ov_pods_total v"
  by (induction cs arbitrary: v) (simp_all add: pods_kept)

text \<open>
  The number of Pods the overview shows is the number of Pods the cache holds. When the Pod
  section occurs once and is usable, and its store came about by events inside the range, the Pod
  total of the snapshot is the number of stored entries.
\<close>

theorem overview_counts_stored_pods:
  assumes "steps (stored api) (in_range api) new_store evs (cs_store c)"
    and "cs_section c = section_pods" and "usable c"
    and "\<forall>x \<in> set pre \<union> set suf. cs_section x \<noteq> section_pods"
  shows "ov_pods_total (overview_snapshot now (pre @ c # suf)) = int (length (rs_items (cs_store c)))"
proof -
  have "t_total (rs_totals (cs_store c)) = int (length (rs_items (cs_store c)))"
    using run_exact [OF assms(1) new_store_exact]
    by (simp add: exact_def totals_of_def contents_def contributions_def)
  moreover have "ov_pods_total (add_section c v) = t_total (rs_totals (cs_store c))" for v
    using assms(2,3)
    by (simp add: add_section_def snapshot_totals_def section_state_of_def usable_def merge_section_def
        Let_def section_names)
  ultimately show ?thesis
    using assms(4) by (simp add: overview_snapshot_def Let_def pods_kept_fold)
qed

definition ex_pod_events :: "string entry cache_event list" where
  "ex_pod_events = [EvReplace 1 [Structured (ex_entry ''a'' 5), Structured (ex_entry ''b'' 7)] ''9'']"

definition ex_pods :: "string cached_section" where
  "ex_pods = \<lparr>cs_section = section_pods, cs_absent = False,
              cs_store = fold (handle ex_api) ex_pod_events new_store\<rparr>"

theorem overview_counts_stored_pods_witness:
  "ov_pods_total (overview_snapshot 3 [ex_pods]) = 2"
proof -
  have "steps (stored ex_api) (in_range ex_api) new_store ex_pod_events (cs_store ex_pods)"
    unfolding ex_pod_events_def ex_pods_def
    by (simp add: steps_Cons_iff stored_def in_range_def within_int64_def amounts_def ex_api_def ex_entry_def
        ex_contribution_def new_store_def replace_def project_def add_listed_def
        contents_def contributions_def max_int64_def)
  then have "ov_pods_total (overview_snapshot 3 ([] @ ex_pods # [])) = int (length (rs_items (cs_store ex_pods)))"
    by (rule overview_counts_stored_pods) (code_simp, code_simp, simp)
  moreover have "length (rs_items (cs_store ex_pods)) = 2" by code_simp
  ultimately show ?thesis by simp
qed

end
