(* ===== verification/PodAccess.thy ===== *)
theory PodAccess
  imports Rbac Tables Encoding
begin

section \<open>Pod access sessions\<close>

text \<open>
  \<open>pkg/server/podaccess/service.go\<close>. A user asks for access to a port of a Pod (\<open>Create\<close>) and gets a
  ticket with a one-time address. Opening the address (\<open>activate\<close>) takes the pending entry, checks the
  user again and commits an active session, which a cookie resolves (\<open>resolve\<close>) until it expires, is
  revoked, is replaced or fails (\<open>deactivate\<close>). Five maps under one mutex hold the state; the activation
  releases the mutex between taking the pending entry and committing, so other calls fall in between.

  SHA-256, the Kubernetes name checks, the rendering of the external address, the authenticator and
  Go's map iteration orders are arguments. Random bytes are an argument of each call, \<open>None\<close> when the
  reader fails. \<open>pv_closed\<close> lists the sessions whose context \<open>close\<close> cancelled, \<open>pv_audits\<close> what
  \<open>recordWithReason\<close> handed to the auditor. Logging and the proxied traffic are left out.
\<close>

subsection \<open>Data\<close>

datatype pod_access_error =
    ErrInvalidInput | ErrDisabled | ErrCapacity | ErrConfirmationRequired | ErrIdempotencyConflict
  | ErrTargetReserved | ErrActivationNotFound | ErrActivationExpired | ErrAccessNotFound
  | ErrAccessExpired | ErrAccessRevoked | ErrAccessReplaced | ErrAccessFailed | ErrByteLimit
  | ErrRandom string

record pod_access_config =
  pc_enabled :: bool
  pc_activation_ttl :: duration
  pc_max_session_ttl :: duration
  pc_revalidate_interval :: duration
  pc_operation_timeout :: duration
  pc_idle_timeout :: duration
  pc_max_pending :: int
  pc_max_active :: int
  pc_max_connections :: int
  pc_max_connections_per_session :: int
  pc_max_client_bytes :: "64 word"
  pc_max_pod_bytes :: "64 word"

text \<open>\<open>agentprotocol.MaxPodPortForwardBytes\<close>.\<close>

definition max_port_forward_bytes :: "64 word" where "max_port_forward_bytes = 1073741824"

definition apply_defaults :: "pod_access_config \<Rightarrow> pod_access_config" where
  "apply_defaults c =
     c\<lparr>pc_activation_ttl := (if pc_activation_ttl c \<le> 0 then 30 * second else pc_activation_ttl c),
       pc_max_session_ttl := (if pc_max_session_ttl c \<le> 0 then hour else pc_max_session_ttl c),
       pc_revalidate_interval := (if pc_revalidate_interval c \<le> 0 then 15 * second else pc_revalidate_interval c),
       pc_operation_timeout := (if pc_operation_timeout c \<le> 0 then 10 * second else pc_operation_timeout c),
       pc_idle_timeout := (if pc_idle_timeout c \<le> 0 then 60 * second else pc_idle_timeout c),
       pc_max_pending := (if pc_max_pending c \<le> 0 then 1024 else pc_max_pending c),
       pc_max_active := (if pc_max_active c \<le> 0 then 256 else pc_max_active c),
       pc_max_connections := (if pc_max_connections c \<le> 0 then 128 else pc_max_connections c),
       pc_max_connections_per_session :=
         (if pc_max_connections_per_session c \<le> 0 then 8 else pc_max_connections_per_session c),
       pc_max_client_bytes := (if pc_max_client_bytes c = 0 then max_port_forward_bytes else pc_max_client_bytes c),
       pc_max_pod_bytes := (if pc_max_pod_bytes c = 0 then max_port_forward_bytes else pc_max_pod_bytes c)\<rparr>"

record create_input =
  ci_user :: string
  ci_auth_session :: string
  ci_auth_token :: string
  ci_idempotency :: string
  ci_cluster :: string
  ci_namespace :: string
  ci_pod :: string
  ci_pod_uid :: string
  ci_request :: string
  ci_port :: "32 word"
  ci_ttl :: duration
  ci_replace :: bool
  ci_confirm :: bool
  ci_now :: time

record ticket =
  tk_url :: string
  tk_expires :: time
  tk_ttl :: duration

record pending_session =
  pe_input :: create_input
  pe_expires :: time

record idempotency_record =
  ir_fingerprint :: string
  ir_ticket :: ticket

type_synonym pod_target = "string \<times> string"

definition target :: "create_input \<Rightarrow> pod_target" where
  "target i = (ci_cluster i, ci_pod_uid i)"

record target_reservation =
  rv_key :: string
  rv_idempotency :: string
  rv_active :: bool

datatype end_reason = EndExpired | EndRevoked | EndReplaced | EndByteLimit | EndFailed | EndServerShutdown

definition end_error :: "end_reason \<Rightarrow> pod_access_error" where
  "end_error r =
     (case r of EndReplaced \<Rightarrow> ErrAccessReplaced | EndByteLimit \<Rightarrow> ErrByteLimit | EndRevoked \<Rightarrow> ErrAccessRevoked
      | EndFailed \<Rightarrow> ErrAccessFailed | _ \<Rightarrow> ErrAccessExpired)"

record ended_session =
  en_reason :: end_reason
  en_at :: time
  en_expires :: time

record active_session =
  as_key :: string
  as_input :: create_input
  as_forward :: string
  as_expires :: time
  as_cookie_prefix :: string

record pod_access =
  pv_pending :: "pending_session table"
  pv_active :: "active_session table"
  pv_reservations :: "pod_target \<rightharpoonup> target_reservation"
  pv_ended :: "ended_session table"
  pv_idempotency :: "idempotency_record table"
  pv_closed :: "string list"
  pv_audits :: "(create_input \<times> string \<times> string) list"

record pod_access_env =
  ev_config :: pod_access_config
  ev_sha256 :: "string \<Rightarrow> string"
  ev_dns_label :: "string \<Rightarrow> bool"
  ev_dns_subdomain :: "string \<Rightarrow> bool"
  ev_render :: "string \<Rightarrow> string"
  ev_authenticate :: "string \<Rightarrow> time \<Rightarrow> string + (string \<times> string)"
  ev_store :: rbac_store
  ev_pending_order :: "pending_session table \<Rightarrow> pending_session table"
  ev_active_order :: "active_session table \<Rightarrow> active_session table"
  ev_ended_order :: "ended_session table \<Rightarrow> ended_session table"

definition new_service :: pod_access where
  "new_service =
     \<lparr>pv_pending = [], pv_active = [], pv_reservations = Map.empty, pv_ended = [], pv_idempotency = [],
      pv_closed = [], pv_audits = []\<rparr>"

subsection \<open>Ending sessions\<close>

text \<open>The scan of \<open>rememberEndedLocked\<close>: a zero time stands for "none yet".\<close>

definition oldest_step :: "string \<times> ended_session \<Rightarrow> string \<times> time \<Rightarrow> string \<times> time" where
  "oldest_step x best =
     (if snd best = zero_time \<or> en_at (snd x) < snd best then (fst x, en_at (snd x)) else best)"

definition zero_digest :: string where "zero_digest = replicate 32 (CHR 0x00)"

definition oldest_ended :: "ended_session table \<Rightarrow> string" where
  "oldest_ended m = fst (fold oldest_step m (zero_digest, zero_time))"

definition remember_ended ::
    "pod_access_env \<Rightarrow> string \<Rightarrow> end_reason \<Rightarrow> time \<Rightarrow> time \<Rightarrow> pod_access \<Rightarrow> pod_access" where
  "remember_ended ev key reason now expiry s =
     (let maximum = now + pc_max_session_ttl (ev_config ev);
          m = AList.update key \<lparr>en_reason = reason, en_at = now,
                 en_expires = (if maximum < expiry then maximum else expiry)\<rparr> (pv_ended s)
      in s\<lparr>pv_ended := (if int (length m) \<le> pc_max_active (ev_config ev) then m
                        else AList.delete (oldest_ended (iterate (ev_ended_order ev) m)) m)\<rparr>)"

definition close_session :: "active_session \<Rightarrow> pod_access \<Rightarrow> pod_access" where
  "close_session a s = s\<lparr>pv_closed := as_key a # pv_closed s\<rparr>"

definition record_audit :: "create_input \<Rightarrow> string \<Rightarrow> string \<Rightarrow> pod_access \<Rightarrow> pod_access" where
  "record_audit i result reason s = s\<lparr>pv_audits := pv_audits s @ [(i, result, reason)]\<rparr>"

definition remove_reservation ::
    "pod_access_env \<Rightarrow> pod_target \<Rightarrow> target_reservation \<Rightarrow> time \<Rightarrow> end_reason \<Rightarrow> pod_access
       \<Rightarrow> active_session option \<times> pod_access" where
  "remove_reservation ev t r now reason s =
     (let s1 = s\<lparr>pv_reservations := (pv_reservations s)(t := None),
                 pv_idempotency := AList.delete (rv_idempotency r) (pv_idempotency s)\<rparr>
      in if rv_active r then
           (let s2 = s1\<lparr>pv_active := AList.delete (rv_key r) (pv_active s1)\<rparr>
            in case map_of (pv_active s1) (rv_key r) of
                 None \<Rightarrow> (None, s2)
               | Some a \<Rightarrow> (Some a, remember_ended ev (rv_key r) reason now (as_expires a) s2))
         else (None, s1\<lparr>pv_pending := AList.delete (rv_key r) (pv_pending s1)\<rparr>))"

text \<open>
  A session's context has ended when it was closed, when its own deadline passed on the runtime's
  clock or when the service shuts down; \<open>gone\<close> says which contexts the last two ended.
\<close>

definition context_ended :: "(string \<Rightarrow> bool) \<Rightarrow> pod_access \<Rightarrow> active_session \<Rightarrow> bool" where
  "context_ended gone s a \<longleftrightarrow> as_key a \<in> set (pv_closed s) \<or> gone (as_key a)"

definition drop_reservation :: "bool \<Rightarrow> pod_target \<Rightarrow> string \<Rightarrow> pod_access \<Rightarrow> pod_access" where
  "drop_reservation active t key s =
     (case pv_reservations s t of
        Some r \<Rightarrow> if rv_active r = active \<and> rv_key r = key
                  then s\<lparr>pv_reservations := (pv_reservations s)(t := None)\<rparr> else s
      | None \<Rightarrow> s)"

definition expire_pending :: "time \<Rightarrow> string \<times> pending_session \<Rightarrow> pod_access \<Rightarrow> pod_access" where
  "expire_pending now x s =
     (if now < pe_expires (snd x) then s
      else drop_reservation False (target (pe_input (snd x))) (fst x)
             (s\<lparr>pv_pending := AList.delete (fst x) (pv_pending s)\<rparr>))"

text \<open>The goroutine that closes an expired session is run at once.\<close>

definition expire_active ::
    "pod_access_env \<Rightarrow> (string \<Rightarrow> bool) \<Rightarrow> time \<Rightarrow> string \<times> active_session \<Rightarrow> pod_access \<Rightarrow> pod_access" where
  "expire_active ev gone now x s =
     (if now < as_expires (snd x) \<and> \<not> context_ended gone s (snd x) then s
      else close_session (snd x)
             (remember_ended ev (fst x) EndExpired now (as_expires (snd x))
               (drop_reservation True (target (as_input (snd x))) (fst x)
                 (s\<lparr>pv_active := AList.delete (fst x) (pv_active s)\<rparr>))))"

definition remove_expired :: "pod_access_env \<Rightarrow> (string \<Rightarrow> bool) \<Rightarrow> time \<Rightarrow> pod_access \<Rightarrow> pod_access" where
  "remove_expired ev gone now s =
     (let s1 = fold (expire_pending now) (iterate (ev_pending_order ev) (pv_pending s)) s;
          s2 = s1\<lparr>pv_idempotency := filter (\<lambda>x. now < tk_expires (ir_ticket (snd x))) (pv_idempotency s1)\<rparr>;
          s3 = fold (expire_active ev gone now) (iterate (ev_active_order ev) (pv_active s2)) s2
      in s3\<lparr>pv_ended := filter (\<lambda>x. now < en_expires (snd x)) (pv_ended s3)\<rparr>)"

subsection \<open>Creating a ticket\<close>

definition supported_session_ttl :: "duration \<Rightarrow> bool" where
  "supported_session_ttl v \<longleftrightarrow> v = 15 * minute \<or> v = 30 * minute \<or> v = hour"

definition validate_create_input :: "pod_access_env \<Rightarrow> create_input \<Rightarrow> bool" where
  "validate_create_input ev i \<longleftrightarrow>
     is_uuid (ci_user i) \<and> is_uuid (ci_auth_session i) \<and> ci_auth_token i \<noteq> []
     \<and> is_idempotency_key (ci_idempotency i) \<and> is_uuid (ci_cluster i) \<and> is_uuid (ci_request i)
     \<and> ci_now i \<noteq> zero_time \<and> ev_dns_label ev (ci_namespace i) \<and> ev_dns_subdomain ev (ci_pod i)
     \<and> ci_pod_uid i \<noteq> [] \<and> length (ci_pod_uid i) \<le> 256 \<and> trim_space (ci_pod_uid i) = ci_pod_uid i
     \<and> ci_port i \<noteq> 0 \<and> ci_port i \<le> 65535 \<and> supported_session_ttl (ci_ttl i)"

definition opaque_token_bytes :: nat where "opaque_token_bytes = 32"

definition new_opaque_token :: "pod_access_env \<Rightarrow> string option \<Rightarrow> string + (string \<times> string)" where
  "new_opaque_token ev r =
     (case r of None \<Rightarrow> Inl ''random source failed''
      | Some v \<Rightarrow> Inr (raw_url_encode (take opaque_token_bytes v),
                       ev_sha256 ev (raw_url_encode (take opaque_token_bytes v))))"

definition valid_opaque_token :: "string \<Rightarrow> bool" where
  "valid_opaque_token t =
     (case raw_url_decode t of None \<Rightarrow> False | Some v \<Rightarrow> length v = opaque_token_bytes)"

definition create_fingerprint :: "pod_access_env \<Rightarrow> create_input \<Rightarrow> string" where
  "create_fingerprint ev i =
     ev_sha256 ev (join_with nul
       [ci_auth_session i, ci_cluster i, ci_namespace i, ci_pod i, ci_pod_uid i,
        itoa (uint (ci_port i)), itoa (ci_ttl i div second), (if ci_replace i then ''true'' else ''false'')])"

definition idempotency_key_of :: "create_input \<Rightarrow> string" where
  "idempotency_key_of i = ci_user i @ nul @ ci_idempotency i"

definition activation_path_prefix :: string where "activation_path_prefix = ''/.zke-pod-access/open/''"

definition ticket_for :: "pod_access_env \<Rightarrow> create_input \<Rightarrow> string \<Rightarrow> ticket" where
  "ticket_for ev i token =
     \<lparr>tk_url = ev_render ev (activation_path_prefix @ token),
      tk_expires = ci_now i + pc_activation_ttl (ev_config ev), tk_ttl = ci_ttl i\<rparr>"

text \<open>The counts the capacity check uses: what a replacement frees is taken off first.\<close>

definition counts_after_release :: "pod_access \<Rightarrow> target_reservation option \<Rightarrow> int \<times> int" where
  "counts_after_release s r =
     (case r of
        None \<Rightarrow> (int (length (pv_pending s)), int (length (pv_idempotency s)))
      | Some v \<Rightarrow>
          (int (length (pv_pending s))
             - (if \<not> rv_active v \<and> map_of (pv_pending s) (rv_key v) \<noteq> None then 1 else 0),
           int (length (pv_idempotency s))
             - (if map_of (pv_idempotency s) (rv_idempotency v) \<noteq> None then 1 else 0)))"

definition insert_pending :: "pod_access_env \<Rightarrow> create_input \<Rightarrow> string \<Rightarrow> ticket \<Rightarrow> pod_access \<Rightarrow> pod_access" where
  "insert_pending ev i digest t s =
     s\<lparr>pv_pending := AList.update digest \<lparr>pe_input = i, pe_expires = tk_expires t\<rparr> (pv_pending s),
       pv_reservations := (pv_reservations s)(target i \<mapsto>
         \<lparr>rv_key = digest, rv_idempotency = idempotency_key_of i, rv_active = False\<rparr>),
       pv_idempotency := AList.update (idempotency_key_of i)
         \<lparr>ir_fingerprint = create_fingerprint ev i, ir_ticket = t\<rparr> (pv_idempotency s)\<rparr>"

definition close_replaced :: "active_session option \<Rightarrow> pod_access \<Rightarrow> pod_access" where
  "close_replaced a s =
     (case a of None \<Rightarrow> s
      | Some v \<Rightarrow> record_audit (as_input v) ''succeeded'' ''replaced'' (close_session v s))"

text \<open>The part of \<open>Create\<close> under the mutex, once the input is checked and the token drawn.\<close>

definition reserve ::
    "pod_access_env \<Rightarrow> create_input \<Rightarrow> string \<Rightarrow> ticket \<Rightarrow> pod_access \<Rightarrow> (pod_access_error + ticket) \<times> pod_access" where
  "reserve ev i digest t s =
     (case map_of (pv_idempotency s) (idempotency_key_of i) of
        Some rec \<Rightarrow>
          (if ir_fingerprint rec \<noteq> create_fingerprint ev i then Inl ErrIdempotencyConflict else Inr (ir_ticket rec), s)
      | None \<Rightarrow>
          (let r = pv_reservations s (target i);
               full = (\<lambda>n. pc_max_pending (ev_config ev) \<le> n)
           in if r \<noteq> None \<and> \<not> ci_replace i then (Inl ErrTargetReserved, s)
              else if full (fst (counts_after_release s r)) \<or> full (snd (counts_after_release s r))
              then (Inl ErrCapacity, s)
              else (case r of
                      None \<Rightarrow> (Inr t, insert_pending ev i digest t s)
                    | Some v \<Rightarrow>
                        (case remove_reservation ev (target i) v (ci_now i) EndReplaced s of
                           (replaced, s') \<Rightarrow> (Inr t, close_replaced replaced (insert_pending ev i digest t s'))))))"

definition create ::
    "pod_access_env \<Rightarrow> (string \<Rightarrow> bool) \<Rightarrow> string option \<Rightarrow> create_input \<Rightarrow> pod_access
       \<Rightarrow> (pod_access_error + ticket) \<times> pod_access" where
  "create ev gone random i s =
     (if \<not> validate_create_input ev i \<or> pc_max_session_ttl (ev_config ev) < ci_ttl i then (Inl ErrInvalidInput, s)
      else if \<not> ci_confirm i then (Inl ErrConfirmationRequired, s)
      else case new_opaque_token ev random of
             Inl e \<Rightarrow> (Inl (ErrRandom e), s)
           | Inr (token, digest) \<Rightarrow>
               reserve ev i digest (ticket_for ev i token) (remove_expired ev gone (ci_now i) s))"

subsection \<open>Activation\<close>

definition release_pending_reservation :: "pod_target \<Rightarrow> string \<Rightarrow> pod_access \<Rightarrow> pod_access" where
  "release_pending_reservation t key s =
     (case pv_reservations s t of
        Some r \<Rightarrow> if \<not> rv_active r \<and> rv_key r = key
                  then s\<lparr>pv_reservations := (pv_reservations s)(t := None),
                         pv_idempotency := AList.delete (rv_idempotency r) (pv_idempotency s)\<rparr> else s
      | None \<Rightarrow> s)"

text \<open>The authorization check runs on a context without a request memo.\<close>

definition revalidate :: "pod_access_env \<Rightarrow> create_input \<Rightarrow> time \<Rightarrow> pod_access_error + unit" where
  "revalidate ev i now =
     (case ev_authenticate ev (ci_auth_token i) now of
        Inl _ \<Rightarrow> Inl ErrAccessRevoked
      | Inr (user, session) \<Rightarrow>
          if user \<noteq> ci_user i \<or> session \<noteq> ci_auth_session i then Inl ErrAccessRevoked
          else (case fst (authorize_cluster (ev_store ev) None (ci_user i) ''cluster.pod.port_forward'' (ci_cluster i)) of
                  Inl _ \<Rightarrow> Inl ErrAccessRevoked
                | Inr _ \<Rightarrow> Inr ()))"

text \<open>
  The three steps of \<open>activate\<close>: taking the pending entry under the mutex, the checks outside it,
  which end in a session to commit or in a release, and the commit under the mutex.
\<close>

definition activate_take ::
    "pod_access_env \<Rightarrow> (string \<Rightarrow> bool) \<Rightarrow> string \<Rightarrow> time \<Rightarrow> pod_access \<Rightarrow> pending_session option \<times> pod_access" where
  "activate_take ev gone digest now s =
     (let s' = remove_expired ev gone now s
      in case map_of (pv_pending s') digest of
           None \<Rightarrow> (None, s')
         | Some p \<Rightarrow> (Some p, s'\<lparr>pv_pending := AList.delete digest (pv_pending s')\<rparr>))"

record activation_random =
  ar_cookie :: "string option"
  ar_forward :: "(8 word list) option"
  ar_prefix :: "string option"

definition session_for :: "create_input \<Rightarrow> string \<Rightarrow> string \<Rightarrow> string \<Rightarrow> time \<Rightarrow> active_session" where
  "session_for i key forward prefix now =
     \<lparr>as_key = key, as_input = i, as_forward = forward, as_expires = now + ci_ttl i,
      as_cookie_prefix = ''zke_pa_'' @ raw_url_encode prefix @ ''_''\<rparr>"

definition activate_check ::
    "pod_access_env \<Rightarrow> pending_session \<Rightarrow> time \<Rightarrow> activation_random
       \<Rightarrow> (pod_access_error \<times> string option) + (string \<times> active_session)" where
  "activate_check ev p now r =
     (if \<not> now < pe_expires p then Inl (ErrActivationExpired, None)
      else case revalidate ev (pe_input p) now of
             Inl e \<Rightarrow> Inl (e, Some ''denied'')
           | Inr _ \<Rightarrow>
               (case new_opaque_token ev (ar_cookie r) of
                  Inl e \<Rightarrow> Inl (ErrRandom e, Some ''failed'')
                | Inr (cookie, key) \<Rightarrow>
                    (case new_uuid (ar_forward r) of
                       Inl e \<Rightarrow> Inl (ErrRandom e, Some ''failed'')
                     | Inr forward \<Rightarrow>
                         (case ar_prefix r of
                            None \<Rightarrow> Inl (ErrRandom ''random source failed'', Some ''failed'')
                          | Some prefix \<Rightarrow> Inr (cookie, session_for (pe_input p) key forward (take 9 prefix) now)))))"

definition activate_release :: "pending_session \<Rightarrow> string \<Rightarrow> string option \<Rightarrow> pod_access \<Rightarrow> pod_access" where
  "activate_release p digest result s =
     (let s' = release_pending_reservation (target (pe_input p)) digest s
      in case result of None \<Rightarrow> s' | Some res \<Rightarrow> record_audit (pe_input p) res [] s')"

definition activate_commit ::
    "pod_access_env \<Rightarrow> (string \<Rightarrow> bool) \<Rightarrow> pending_session \<Rightarrow> string \<Rightarrow> string \<times> active_session \<Rightarrow> time \<Rightarrow> pod_access
       \<Rightarrow> (pod_access_error + string \<times> active_session) \<times> pod_access" where
  "activate_commit ev gone p digest c now s =
     (let s1 = remove_expired ev gone now s; t = target (pe_input p); a = snd c
      in case pv_reservations s1 t of
           None \<Rightarrow> (Inl ErrActivationNotFound, record_audit (pe_input p) ''failed'' [] (close_session a s1))
         | Some r \<Rightarrow>
             if rv_active r \<or> rv_key r \<noteq> digest
             then (Inl ErrActivationNotFound, record_audit (pe_input p) ''failed'' [] (close_session a s1))
             else if pc_max_active (ev_config ev) \<le> int (length (pv_active s1))
             then (Inl ErrCapacity, record_audit (pe_input p) ''failed'' []
                     (close_session a (s1\<lparr>pv_reservations := (pv_reservations s1)(t := None)\<rparr>)))
             else (Inr c, record_audit (pe_input p) ''succeeded'' []
                     (s1\<lparr>pv_active := AList.update (as_key a) a (pv_active s1),
                         pv_reservations := (pv_reservations s1)(t \<mapsto>
                           \<lparr>rv_key = as_key a, rv_idempotency = rv_idempotency r, rv_active = True\<rparr>)\<rparr>)))"

definition activate ::
    "pod_access_env \<Rightarrow> (string \<Rightarrow> bool) \<Rightarrow> string \<Rightarrow> time \<Rightarrow> activation_random \<Rightarrow> pod_access
       \<Rightarrow> (pod_access_error + string \<times> active_session) \<times> pod_access" where
  "activate ev gone token now r s =
     (case activate_take ev gone (ev_sha256 ev token) now s of
        (None, s') \<Rightarrow> (Inl ErrActivationNotFound, s')
      | (Some p, s') \<Rightarrow>
          (case activate_check ev p now r of
             Inl (e, result) \<Rightarrow> (Inl e, activate_release p (ev_sha256 ev token) result s')
           | Inr c \<Rightarrow> activate_commit ev gone p (ev_sha256 ev token) c now s'))"

subsection \<open>Using and ending a session\<close>

definition deactivate_audit :: "end_reason \<Rightarrow> (string \<times> string) option" where
  "deactivate_audit r =
     (case r of EndRevoked \<Rightarrow> Some (''denied'', ''permission_revoked'') | EndReplaced \<Rightarrow> Some (''succeeded'', ''replaced'')
      | EndByteLimit \<Rightarrow> Some (''failed'', ''byte_limit'') | EndFailed \<Rightarrow> Some (''failed'', ''upstream_failure'')
      | _ \<Rightarrow> None)"

definition deactivate :: "pod_access_env \<Rightarrow> string \<Rightarrow> end_reason \<Rightarrow> time \<Rightarrow> pod_access \<Rightarrow> pod_access" where
  "deactivate ev key reason now s =
     (case map_of (pv_active s) key of
        None \<Rightarrow> s
      | Some a \<Rightarrow>
          (let s' = close_session a (remember_ended ev key reason now (as_expires a)
                      (drop_reservation True (target (as_input a)) key
                        (s\<lparr>pv_active := AList.delete key (pv_active s)\<rparr>)))
           in case deactivate_audit reason of
                None \<Rightarrow> s' | Some (result, why) \<Rightarrow> record_audit (as_input a) result why s'))"

definition resolve ::
    "pod_access_env \<Rightarrow> (string \<Rightarrow> bool) \<Rightarrow> string \<Rightarrow> time \<Rightarrow> pod_access \<Rightarrow> (pod_access_error + active_session) \<times> pod_access" where
  "resolve ev gone token now s =
     (if \<not> valid_opaque_token token then (Inl ErrAccessNotFound, s)
      else let key = ev_sha256 ev token
      in case map_of (pv_active s) key of
           None \<Rightarrow>
             (case map_of (pv_ended s) key of
                Some e \<Rightarrow> (if now < en_expires e then Inl (end_error (en_reason e)) else Inl ErrAccessNotFound, s)
              | None \<Rightarrow> (Inl ErrAccessNotFound, s))
         | Some a \<Rightarrow>
             if \<not> now < as_expires a \<or> context_ended gone s a
             then (Inl ErrAccessExpired, deactivate ev key EndExpired now s)
             else (Inr a, s))"

text \<open>
  One turn of \<open>monitor\<close>: \<open>ended\<close> says that the session's context is done, otherwise the ticker fired.
\<close>

definition monitor_turn :: "pod_access_env \<Rightarrow> bool \<Rightarrow> active_session \<Rightarrow> time \<Rightarrow> pod_access \<Rightarrow> pod_access" where
  "monitor_turn ev ended a now s =
     (if ended then deactivate ev (as_key a) (if now < as_expires a then EndServerShutdown else EndExpired) now s
      else case revalidate ev (as_input a) now of
             Inl _ \<Rightarrow> deactivate ev (as_key a) EndRevoked now s
           | Inr _ \<Rightarrow> s)"

subsection \<open>The activation page\<close>

datatype activation_page =
    MethodNotAllowed | NotFoundPage | ReplacementRequired | GonePage pod_access_error
  | Redirect string active_session

definition serve_activation ::
    "pod_access_env \<Rightarrow> (string \<Rightarrow> bool) \<Rightarrow> string \<Rightarrow> string \<Rightarrow> string \<Rightarrow> time \<Rightarrow> activation_random \<Rightarrow> pod_access
       \<Rightarrow> activation_page \<times> pod_access" where
  "serve_activation ev gone http_method path cookie now r s =
     (if http_method \<noteq> ''GET'' \<and> http_method \<noteq> ''POST'' then (MethodNotAllowed, s)
      else let token = trim_prefix path activation_path_prefix
      in if \<not> valid_opaque_token token then (NotFoundPage, s)
      else let old = (if cookie = [] then (Inl ErrAccessNotFound, s) else resolve ev gone cookie now s);
               s1 = snd old;
               live = (case fst old of Inr _ \<Rightarrow> True | Inl _ \<Rightarrow> False)
      in if live \<and> http_method = ''GET'' then (ReplacementRequired, s1)
      else let s2 = (if live then deactivate ev (ev_sha256 ev cookie) EndReplaced now s1 else s1)
      in case activate ev gone token now r s2 of
           (Inl e, s3) \<Rightarrow> (GonePage e, s3)
         | (Inr (v, a), s3) \<Rightarrow> (Redirect v a, s3))"

subsection \<open>Byte counters\<close>

text \<open>
  The loop repeats until the compare-and-swap meets the value it read, so one call is one atomic step
  on the counter. \<open>maximum - current\<close> is a subtraction of unsigned 64-bit words.
\<close>

definition exceeds_limit :: "64 word \<Rightarrow> 64 word \<Rightarrow> 64 word \<Rightarrow> bool \<times> 64 word" where
  "exceeds_limit counter amount maximum =
     (if maximum - counter < amount then (True, counter) else (False, counter + amount))"

end
