(* ===== verification/PodSafety.thy ===== *)
theory PodSafety
  imports PodAccess
begin

section \<open>One entry per Pod\<close>

text \<open>
  What holds in every interleaving of the calls of a Pod access service. A claim is a triple of a
  target, a key and a flag that tells an active session from an activation; the pending, active and
  in-flight entries claim targets, the reservation table records claims. The invariant compares the
  two as sets, so that every step of the service is one of six moves on sets.
\<close>

type_synonym claim = "pod_target \<times> string \<times> bool"

definition keys_of :: "claim set \<Rightarrow> string set" where "keys_of C = (fst \<circ> snd) ` C"

definition one_key :: "claim set \<Rightarrow> bool" where
  "one_key C \<longleftrightarrow> (\<forall>x \<in> C. \<forall>y \<in> C. fst (snd x) = fst (snd y) \<longrightarrow> x = y)"

definition claims_ok :: "claim set \<Rightarrow> claim set \<Rightarrow> claim set \<Rightarrow> claim set \<Rightarrow> bool" where
  "claims_ok R P A F \<longleftrightarrow>
     P \<union> A \<subseteq> R \<and> R \<subseteq> P \<union> A \<union> F \<and> (\<forall>x \<in> R. \<forall>y \<in> R. fst x = fst y \<longrightarrow> x = y)
     \<and> one_key P \<and> one_key F \<and> one_key A \<and> keys_of P \<inter> keys_of F = {}
     \<and> (\<forall>x \<in> P \<union> F. \<not> snd (snd x)) \<and> (\<forall>x \<in> A. snd (snd x))"

lemma claims_okD:
  assumes "claims_ok R P A F"
  shows "P \<subseteq> R" "A \<subseteq> R" "R \<subseteq> P \<union> A \<union> F" "\<And>x y. x \<in> R \<Longrightarrow> y \<in> R \<Longrightarrow> fst x = fst y \<Longrightarrow> x = y"
    "one_key P" "one_key F" "one_key A" "keys_of P \<inter> keys_of F = {}"
    "\<And>x. x \<in> P \<Longrightarrow> \<not> snd (snd x)" "\<And>x. x \<in> F \<Longrightarrow> \<not> snd (snd x)" "\<And>x. x \<in> A \<Longrightarrow> snd (snd x)"
  using assms unfolding claims_ok_def by blast+

lemma one_key_subset: "one_key C \<Longrightarrow> D \<subseteq> C \<Longrightarrow> one_key D"
  by (auto simp: one_key_def)

lemma one_key_insert: "one_key C \<Longrightarrow> fst (snd x) \<notin> keys_of C \<Longrightarrow> one_key (insert x C)"
  by (auto simp: one_key_def keys_of_def image_iff)

lemma keys_of_insert [simp]: "keys_of (insert x C) = insert (fst (snd x)) (keys_of C)"
  by (simp add: keys_of_def)

lemma keys_of_minus: "keys_of (C - {x}) \<subseteq> keys_of C"
  by (auto simp: keys_of_def)

lemma in_keys_of: "x \<in> C \<Longrightarrow> fst (snd x) \<in> keys_of C"
  by (auto simp: keys_of_def)

lemma key_apart: "keys_of P \<inter> keys_of F = {} \<Longrightarrow> x \<in> P \<Longrightarrow> x \<notin> F"
  by (auto simp: keys_of_def)

lemma key_gone: "one_key C \<Longrightarrow> x \<in> C \<Longrightarrow> fst (snd x) \<notin> keys_of (C - {x})"
  by (auto simp: one_key_def keys_of_def)

text \<open>An activation is forgotten; its reservation goes with it.\<close>

lemma move_forget:
  assumes ok: "claims_ok R P A F" and x: "x \<in> P \<union> F"
  shows "claims_ok (R - {x}) (P - {x}) A F"
proof -
  note d = claims_okD [OF ok]
  have "x \<notin> A" using d(9-11) x by blast
  then show ?thesis
    using d x keys_of_minus [of P x] one_key_subset [OF d(5), of "P - {x}"] unfolding claims_ok_def by blast
qed

lemma move_end:
  assumes ok: "claims_ok R P A F" and x: "x \<in> A"
  shows "claims_ok (R - {x}) P (A - {x}) F"
proof -
  note d = claims_okD [OF ok]
  have "x \<notin> P" using d(9,11) x by blast
  then show ?thesis
    using d x one_key_subset [OF d(7), of "A - {x}"] unfolding claims_ok_def by blast
qed

lemma move_abandon:
  assumes ok: "claims_ok R P A F" and x: "x \<in> F"
  shows "claims_ok (R - {x}) P A (F - {x})"
proof -
  note d = claims_okD [OF ok]
  have "x \<notin> P" using key_apart [OF d(8), of x] x by blast
  moreover have "x \<notin> A" using d(10,11) x by blast
  ultimately show ?thesis
    using d x keys_of_minus [of F x] one_key_subset [OF d(6), of "F - {x}"] unfolding claims_ok_def by blast
qed

lemma move_take:
  assumes ok: "claims_ok R P A F" and x: "x \<in> P"
  shows "claims_ok R (P - {x}) A (insert x F)"
proof -
  note d = claims_okD [OF ok]
  have "fst (snd x) \<notin> keys_of F" using d(8) in_keys_of [OF x] by blast
  moreover have "fst (snd x) \<notin> keys_of (P - {x})" by (rule key_gone [OF d(5) x])
  ultimately show ?thesis
    using d(1-4,7,8) x d(9-11) keys_of_minus [of P x] one_key_subset [OF d(5), of "P - {x}"] one_key_insert [OF d(6), of x]
    unfolding claims_ok_def keys_of_insert by (intro conjI) blast+
qed

lemma move_reserve:
  assumes ok: "claims_ok R P A F" and new: "fst x \<notin> fst ` R" "fst (snd x) \<notin> keys_of P \<union> keys_of F" "\<not> snd (snd x)"
  shows "claims_ok (insert x R) (insert x P) A F"
proof -
  note d = claims_okD [OF ok]
  have other: "fst y \<noteq> fst x" if "y \<in> R" for y using that new(1) by (metis image_eqI)
  have "one_key (insert x P)" using one_key_insert [OF d(5), of x] new(2) by blast
  moreover have "\<forall>y \<in> insert x R. \<forall>z \<in> insert x R. fst y = fst z \<longrightarrow> y = z"
    using d(4) other by (metis insertE)
  moreover have "insert x P \<union> A \<subseteq> insert x R" "insert x R \<subseteq> insert x P \<union> A \<union> F" using d(1-3) by blast+
  moreover have "keys_of (insert x P) \<inter> keys_of F = {}" using d(8) new(2) by simp
  moreover have "\<forall>y \<in> insert x P \<union> F. \<not> snd (snd y)" using d(9,10) new(3) by blast
  ultimately show ?thesis
    using d(6,7,11) unfolding claims_ok_def by (intro conjI ballI) (assumption | blast)+
qed

lemma move_commit:
  assumes ok: "claims_ok R P A F" and x: "x \<in> F" "x \<in> R"
    and y: "fst y = fst x" "snd (snd y)" "fst (snd y) \<notin> keys_of A"
  shows "claims_ok (insert y (R - {x})) P (insert y A) (F - {x})"
proof -
  note d = claims_okD [OF move_abandon [OF ok x(1)]]
  have other: "fst z \<noteq> fst y" if "z \<in> R - {x}" for z
    using that claims_okD(4) [OF ok _ x(2), of z] y(1) by (metis DiffD1 DiffD2 singletonI)
  have "one_key (insert y A)" by (rule one_key_insert [OF d(7) y(3)])
  moreover have "\<forall>u \<in> insert y (R - {x}). \<forall>v \<in> insert y (R - {x}). fst u = fst v \<longrightarrow> u = v"
    using d(4) other by (metis insertE)
  moreover have "P \<union> insert y A \<subseteq> insert y (R - {x})" "insert y (R - {x}) \<subseteq> P \<union> insert y A \<union> (F - {x})"
    using d(1-3) by blast+
  moreover have "\<forall>u \<in> P \<union> (F - {x}). \<not> snd (snd u)" "\<forall>u \<in> insert y A. snd (snd u)" using d(9-11) y(2) by blast+
  ultimately show ?thesis using d(5,6,8) unfolding claims_ok_def by (intro conjI ballI) (assumption | blast)+
qed

subsection \<open>The claims of a state\<close>

definition reserved :: "pod_access \<Rightarrow> claim set" where
  "reserved s = {x. \<exists>r. pv_reservations s (fst x) = Some r \<and> snd x = (rv_key r, rv_active r)}"

definition waiting :: "pending_session table \<Rightarrow> claim set" where
  "waiting m = (\<lambda>x. (target (pe_input (snd x)), fst x, False)) ` set m"

definition running :: "active_session table \<Rightarrow> claim set" where
  "running m = (\<lambda>x. (target (as_input (snd x)), fst x, True)) ` set m"

text \<open>
  The whole system: the service and the activations between taking the pending entry and the commit.
\<close>

type_synonym flight = "pending_session table"

definition tables_ok :: "pod_access \<Rightarrow> bool" where
  "tables_ok s \<longleftrightarrow> distinct (map fst (pv_pending s)) \<and> distinct (map fst (pv_active s))
     \<and> (\<forall>x \<in> set (pv_active s). as_key (snd x) = fst x)"

definition pod_ok :: "pod_access \<Rightarrow> flight \<Rightarrow> bool" where
  "pod_ok s fl \<longleftrightarrow> tables_ok s \<and> distinct (map fst fl)
     \<and> claims_ok (reserved s) (waiting (pv_pending s)) (running (pv_active s)) (waiting fl)"

lemma keys_waiting [simp]: "keys_of (waiting m) = fst ` set m"
  by (auto simp: keys_of_def waiting_def image_image comp_def)

lemma keys_running [simp]: "keys_of (running m) = fst ` set m"
  by (auto simp: keys_of_def running_def image_image comp_def)

lemma distinct_key: "distinct (map fst m) \<Longrightarrow> (k, v) \<in> set m \<Longrightarrow> (k, w) \<in> set m \<Longrightarrow> v = w"
  by (metis map_of_is_SomeI option.inject)

lemma waiting_delete:
  assumes "distinct (map fst m)" and "(k, p) \<in> set m"
  shows "waiting (AList.delete k m) = waiting m - {(target (pe_input p), k, False)}"
  using distinct_key [OF assms] by (auto simp: waiting_def AList.delete_eq image_iff)

lemma running_delete:
  assumes "distinct (map fst m)" and "(k, a) \<in> set m"
  shows "running (AList.delete k m) = running m - {(target (as_input a), k, True)}"
  using distinct_key [OF assms] by (auto simp: running_def AList.delete_eq image_iff)

lemma set_update_new: "k \<notin> fst ` set m \<Longrightarrow> set (AList.update k v m) = insert (k, v) (set m)"
  by (induction m) auto

lemma waiting_update:
  "k \<notin> fst ` set m \<Longrightarrow> waiting (AList.update k p m) = insert (target (pe_input p), k, False) (waiting m)"
  by (simp add: waiting_def set_update_new)

lemma running_update:
  "k \<notin> fst ` set m \<Longrightarrow> running (AList.update k a m) = insert (target (as_input a), k, True) (running m)"
  by (simp add: running_def set_update_new)

lemma mem_reserved: "x \<in> reserved s \<longleftrightarrow> (\<exists>r. pv_reservations s (fst x) = Some r \<and> snd x = (rv_key r, rv_active r))"
  by (simp add: reserved_def)

lemma reserved_put:
  "reserved (s\<lparr>pv_reservations := (pv_reservations s)(t \<mapsto> r)\<rparr>)
     = insert (t, rv_key r, rv_active r) {x \<in> reserved s. fst x \<noteq> t}"
proof (rule set_eqI)
  fix x
  show "x \<in> reserved (s\<lparr>pv_reservations := (pv_reservations s)(t \<mapsto> r)\<rparr>)
     \<longleftrightarrow> x \<in> insert (t, rv_key r, rv_active r) {x \<in> reserved s. fst x \<noteq> t}"
    by (cases x, cases "fst x = t") (simp_all add: mem_reserved)
qed

lemma reserved_drop:
  "reserved (s\<lparr>pv_reservations := (pv_reservations s)(t := None)\<rparr>) = {x \<in> reserved s. fst x \<noteq> t}"
  by (rule set_eqI) (simp add: mem_reserved)

lemma reserved_fun: "x \<in> reserved s \<Longrightarrow> y \<in> reserved s \<Longrightarrow> fst x = fst y \<Longrightarrow> x = y"
  by (auto simp: mem_reserved prod_eq_iff)

lemma reserved_drop_own:
  "pv_reservations s t = Some r \<Longrightarrow> {x \<in> reserved s. fst x \<noteq> t} = reserved s - {(t, rv_key r, rv_active r)}"
  by (rule set_eqI) (auto simp: mem_reserved prod_eq_iff)

lemma reserved_I: "pv_reservations s t = Some r \<Longrightarrow> (t, rv_key r, rv_active r) \<in> reserved s"
  by (simp add: mem_reserved)

lemma reserved_free: "pv_reservations s t = None \<Longrightarrow> {x \<in> reserved s. fst x \<noteq> t} = reserved s \<and> t \<notin> fst ` reserved s"
  by (auto simp: mem_reserved)

lemma reserved_cong: "pv_reservations s = pv_reservations s' \<Longrightarrow> reserved s = reserved s'"
  by (simp add: reserved_def)

lemma reserved_drop_reservation: "reserved (drop_reservation b t k s) = reserved s - {(t, k, b)}"
  by (rule set_eqI)
    (auto simp: drop_reservation_def reserved_drop mem_reserved prod_eq_iff split: option.splits)

lemma reserved_release: "reserved (release_pending_reservation t k s) = reserved s - {(t, k, False)}"
  by (rule set_eqI)
    (auto simp: release_pending_reservation_def mem_reserved prod_eq_iff split: option.splits)

lemma drop_reservation_tables [simp]:
  "pv_pending (drop_reservation b t k s) = pv_pending s" "pv_active (drop_reservation b t k s) = pv_active s"
  "pv_ended (drop_reservation b t k s) = pv_ended s" "pv_idempotency (drop_reservation b t k s) = pv_idempotency s"
  "pv_closed (drop_reservation b t k s) = pv_closed s" "pv_audits (drop_reservation b t k s) = pv_audits s"
  by (auto simp: drop_reservation_def split: option.splits)

lemma release_tables [simp]:
  "pv_pending (release_pending_reservation t k s) = pv_pending s"
  "pv_active (release_pending_reservation t k s) = pv_active s"
  "pv_ended (release_pending_reservation t k s) = pv_ended s"
  by (auto simp: release_pending_reservation_def split: option.splits)

lemma remember_ended_tables [simp]:
  "pv_pending (remember_ended ev k r now x s) = pv_pending s" "pv_active (remember_ended ev k r now x s) = pv_active s"
  "pv_reservations (remember_ended ev k r now x s) = pv_reservations s"
  "pv_idempotency (remember_ended ev k r now x s) = pv_idempotency s"
  "pv_closed (remember_ended ev k r now x s) = pv_closed s"
  by (simp_all add: remember_ended_def Let_def)

lemma close_session_tables [simp]:
  "pv_pending (close_session a s) = pv_pending s" "pv_active (close_session a s) = pv_active s"
  "pv_reservations (close_session a s) = pv_reservations s" "pv_ended (close_session a s) = pv_ended s"
  "pv_idempotency (close_session a s) = pv_idempotency s"
  by (simp_all add: close_session_def)

lemma record_audit_tables [simp]:
  "pv_pending (record_audit i r w s) = pv_pending s" "pv_active (record_audit i r w s) = pv_active s"
  "pv_reservations (record_audit i r w s) = pv_reservations s" "pv_ended (record_audit i r w s) = pv_ended s"
  "pv_idempotency (record_audit i r w s) = pv_idempotency s"
  by (simp_all add: record_audit_def)

lemma pod_ok_cong:
  "pv_pending s = pv_pending s' \<Longrightarrow> pv_active s = pv_active s' \<Longrightarrow> pv_reservations s = pv_reservations s'
     \<Longrightarrow> pod_ok s fl = pod_ok s' fl"
  by (simp add: pod_ok_def tables_ok_def reserved_def)

subsection \<open>The steps keep the claims in order\<close>

lemma iterate_keys: "distinct (map fst m) \<Longrightarrow> distinct (map fst (iterate order m))"
  by (metis iterate_perm mset_eq_imp_distinct_iff mset_map)

lemma pod_okD:
  assumes "pod_ok s fl"
  shows "distinct (map fst (pv_pending s))" "distinct (map fst (pv_active s))" "distinct (map fst fl)"
    "\<And>k a. (k, a) \<in> set (pv_active s) \<Longrightarrow> as_key a = k"
    "claims_ok (reserved s) (waiting (pv_pending s)) (running (pv_active s)) (waiting fl)"
  using assms unfolding pod_ok_def tables_ok_def by auto

lemma waiting_I: "(k, p) \<in> set m \<Longrightarrow> (target (pe_input p), k, False) \<in> waiting m"
  by (force simp: waiting_def)

lemma running_I: "(k, a) \<in> set m \<Longrightarrow> (target (as_input a), k, True) \<in> running m"
  by (force simp: running_def)

lemma pod_ok_forget:
  assumes ok: "pod_ok s fl" and p: "(k, p) \<in> set (pv_pending s)"
    and s': "pv_pending s' = AList.delete k (pv_pending s)" "pv_active s' = pv_active s"
      "reserved s' = reserved s - {(target (pe_input p), k, False)}"
  shows "pod_ok s' fl"
  using move_forget [OF pod_okD(5) [OF ok], of "(target (pe_input p), k, False)"] waiting_I [OF p]
    pod_okD(1-4) [OF ok] s' waiting_delete [OF pod_okD(1) [OF ok] p]
  by (auto simp: pod_ok_def tables_ok_def AList.distinct_delete)

lemma pod_ok_end:
  assumes ok: "pod_ok s fl" and a: "(k, a) \<in> set (pv_active s)"
    and s': "pv_active s' = AList.delete k (pv_active s)" "pv_pending s' = pv_pending s"
      "reserved s' = reserved s - {(target (as_input a), k, True)}"
  shows "pod_ok s' fl"
  using move_end [OF pod_okD(5) [OF ok], of "(target (as_input a), k, True)"] running_I [OF a]
    pod_okD(1-4) [OF ok] s' running_delete [OF pod_okD(2) [OF ok] a] set_delete_subset [of k "pv_active s"]
  by (auto simp: pod_ok_def tables_ok_def AList.distinct_delete)

lemma expire_pending_ok:
  assumes "pod_ok s fl" and "(k, p) \<in> set (pv_pending s)"
  shows "pod_ok (expire_pending now (k, p) s) fl"
proof (cases "now < pe_expires p")
  case True
  then show ?thesis using assms(1) by (simp add: expire_pending_def)
next
  case False
  then show ?thesis
    using reserved_cong [of "s\<lparr>pv_pending := AList.delete k (pv_pending s)\<rparr>" s]
    by (intro pod_ok_forget [OF assms]) (simp_all add: expire_pending_def reserved_drop_reservation)
qed

lemma expire_pending_fold:
  assumes "pod_ok s fl" and "set xs \<subseteq> set (pv_pending s)" and "distinct (map fst xs)"
  shows "pod_ok (fold (expire_pending now) xs s) fl"
  using assms
proof (induction xs arbitrary: s)
  case (Cons x xs)
  have "set xs \<subseteq> set (pv_pending (expire_pending now x s))"
    using Cons.prems(2,3) by (auto simp: expire_pending_def AList.delete_eq image_iff)
  then show ?case
    using Cons.IH [of "expire_pending now x s"] expire_pending_ok [of s fl "fst x" "snd x" now] Cons.prems by simp
qed simp

lemma expire_active_ok:
  assumes "pod_ok s fl" and "(k, a) \<in> set (pv_active s)"
  shows "pod_ok (expire_active ev gone now (k, a) s) fl"
proof (cases "now < as_expires a \<and> \<not> context_ended gone s a")
  case True
  then show ?thesis using assms(1) by (simp add: expire_active_def)
next
  case False
  let ?d = "drop_reservation True (target (as_input a)) k (s\<lparr>pv_active := AList.delete k (pv_active s)\<rparr>)"
  have "reserved (expire_active ev gone now (k, a) s) = reserved ?d"
    using False by (intro reserved_cong) (auto simp: expire_active_def)
  then show ?thesis
    using False reserved_cong [of "s\<lparr>pv_active := AList.delete k (pv_active s)\<rparr>" s]
    by (intro pod_ok_end [OF assms]) (auto simp: expire_active_def reserved_drop_reservation)
qed

lemma expire_active_fold:
  assumes "pod_ok s fl" and "set xs \<subseteq> set (pv_active s)" and "distinct (map fst xs)"
  shows "pod_ok (fold (expire_active ev gone now) xs s) fl"
  using assms
proof (induction xs arbitrary: s)
  case (Cons x xs)
  have "set xs \<subseteq> set (pv_active (expire_active ev gone now x s))"
    using Cons.prems(2,3) by (auto simp: expire_active_def AList.delete_eq image_iff)
  then show ?case
    using Cons.IH [of "expire_active ev gone now x s"] expire_active_ok [of s fl "fst x" "snd x" ev gone now] Cons.prems
    by simp
qed simp

lemma remove_expired_ok:
  assumes "pod_ok s fl"
  shows "pod_ok (remove_expired ev gone now s) fl"
proof -
  define s1 where "s1 = fold (expire_pending now) (iterate (ev_pending_order ev) (pv_pending s)) s"
  define s2 where "s2 = s1\<lparr>pv_idempotency := filter (\<lambda>x. now < tk_expires (ir_ticket (snd x))) (pv_idempotency s1)\<rparr>"
  define s3 where "s3 = fold (expire_active ev gone now) (iterate (ev_active_order ev) (pv_active s2)) s2"
  have "pod_ok s1 fl"
    unfolding s1_def using assms iterate_keys [OF pod_okD(1) [OF assms]] by (intro expire_pending_fold) simp_all
  then have s2: "pod_ok s2 fl" using pod_ok_cong [of s2 s1 fl] by (simp add: s2_def)
  then have "pod_ok s3 fl"
    unfolding s3_def using iterate_keys [OF pod_okD(2) [OF s2]] by (intro expire_active_fold) simp_all
  then show ?thesis
    using pod_ok_cong [of "remove_expired ev gone now s" s3 fl]
    by (simp add: remove_expired_def Let_def s1_def s2_def s3_def)
qed

lemma waiting_delete_claim:
  assumes "distinct (map fst m)" and apart: "fst ` set m \<inter> fst ` set fl = {}"
    and x: "(t, k, False) \<in> waiting m \<union> waiting fl"
  shows "waiting (AList.delete k m) = waiting m - {(t, k, False)}"
proof (cases "k \<in> fst ` set m")
  case True
  then have "(t, k, False) \<notin> waiting fl" using apart by (auto simp: waiting_def)
  then obtain p where "(k, p) \<in> set m" "target (pe_input p) = t" using x by (auto simp: waiting_def)
  then show ?thesis using waiting_delete [OF assms(1)] by blast
next
  case False
  then have "(t, k, False) \<notin> waiting m" by (force simp: waiting_def)
  then show ?thesis using False by simp
qed

lemma remove_reservation_ok:
  assumes ok: "pod_ok s fl" and r: "pv_reservations s t = Some r"
    and rem: "remove_reservation ev t r now reason s = (a, s')"
  shows "pod_ok s' fl \<and> pv_reservations s' = (pv_reservations s)(t := None)"
proof -
  let ?x = "(t, rv_key r, rv_active r)"
  have in_r: "?x \<in> reserved s" using reserved_I [OF r] .
  note d = claims_okD [OF pod_okD(5) [OF ok]]
  have res: "reserved s' = reserved s - {?x}" if "pv_reservations s' = (pv_reservations s)(t := None)" for s'
    using reserved_cong [of s' "s\<lparr>pv_reservations := (pv_reservations s)(t := None)\<rparr>"] that
    by (simp add: reserved_drop reserved_drop_own [OF r])
  show ?thesis
  proof (cases "rv_active r")
    case True
    then have "?x \<in> running (pv_active s)" using in_r d(3) d(9) [of ?x] d(10) [of ?x] by auto
    then obtain v where v: "(rv_key r, v) \<in> set (pv_active s)" "target (as_input v) = t"
      by (auto simp: running_def)
    have "pv_pending s' = pv_pending s \<and> pv_active s' = AList.delete (rv_key r) (pv_active s)
        \<and> pv_reservations s' = (pv_reservations s)(t := None)"
      using rem True by (auto simp: remove_reservation_def Let_def split: option.splits)
    then show ?thesis using pod_ok_end [OF ok v(1), of s'] res [of s'] v(2) True by simp
  next
    case False
    then have eq: "pv_pending s' = AList.delete (rv_key r) (pv_pending s)" "pv_active s' = pv_active s"
      "pv_reservations s' = (pv_reservations s)(t := None)"
      using rem by (auto simp: remove_reservation_def Let_def)
    have x: "?x \<in> waiting (pv_pending s) \<union> waiting fl" using in_r d(3) d(11) [of ?x] False by auto
    have "waiting (AList.delete (rv_key r) (pv_pending s)) = waiting (pv_pending s) - {?x}"
      using waiting_delete_claim [OF pod_okD(1) [OF ok], of fl t "rv_key r"] d(8) x False by simp
    then show ?thesis
      using move_forget [OF pod_okD(5) [OF ok] x] pod_okD(1-4) [OF ok] eq res [of s']
      by (simp add: pod_ok_def tables_ok_def AList.distinct_delete)
  qed
qed

definition fresh_digest :: "string \<Rightarrow> pod_access \<Rightarrow> flight \<Rightarrow> bool" where
  "fresh_digest d s fl \<longleftrightarrow> d \<notin> fst ` set (pv_pending s) \<and> d \<notin> fst ` set fl \<and> d \<notin> fst ` set (pv_active s)"

lemma insert_pending_ok:
  assumes ok: "pod_ok s fl" and free: "pv_reservations s (target i) = None"
    and new: "d \<notin> fst ` set (pv_pending s)" "d \<notin> fst ` set fl"
  shows "pod_ok (insert_pending ev i d t s) fl"
proof -
  let ?x = "(target i, d, False)" and ?r = "\<lparr>rv_key = d, rv_idempotency = idempotency_key_of i, rv_active = False\<rparr>"
  have "reserved (insert_pending ev i d t s) = insert ?x (reserved s)"
    using reserved_cong [of "insert_pending ev i d t s" "s\<lparr>pv_reservations := (pv_reservations s)(target i \<mapsto> ?r)\<rparr>"]
      reserved_free [OF free] by (simp add: insert_pending_def reserved_put)
  moreover have "claims_ok (insert ?x (reserved s)) (insert ?x (waiting (pv_pending s))) (running (pv_active s)) (waiting fl)"
    by (rule move_reserve [OF pod_okD(5) [OF ok]]) (use reserved_free [OF free] new in simp_all)
  ultimately show ?thesis
    using pod_okD(1-4) [OF ok] new(1)
    by (simp add: pod_ok_def tables_ok_def insert_pending_def waiting_update AList.distinct_update)
qed

text \<open>What the calls never add: entries come from creation and commit alone.\<close>

definition shrinks :: "pod_access \<Rightarrow> pod_access \<Rightarrow> bool" where
  "shrinks s' s \<longleftrightarrow> set (pv_pending s') \<subseteq> set (pv_pending s) \<and> set (pv_active s') \<subseteq> set (pv_active s)
     \<and> set (pv_idempotency s') \<subseteq> set (pv_idempotency s)"

lemma shrinks_refl [simp]: "shrinks s s"
  by (simp add: shrinks_def)

lemma shrinks_trans: "shrinks s' s \<Longrightarrow> shrinks s'' s' \<Longrightarrow> shrinks s'' s"
  by (auto simp: shrinks_def)

lemma expire_pending_shrinks: "shrinks (expire_pending now x s) s"
  by (auto simp: shrinks_def expire_pending_def AList.delete_eq)

lemma expire_active_shrinks: "shrinks (expire_active ev gone now x s) s"
  by (auto simp: shrinks_def expire_active_def AList.delete_eq)

lemma fold_shrinks: "(\<And>x s. shrinks (f x s) s) \<Longrightarrow> shrinks (fold f xs s) s"
  by (induction xs arbitrary: s) (auto intro: shrinks_trans)

lemma remove_expired_shrinks: "shrinks (remove_expired ev gone now s) s"
proof -
  let ?s1 = "fold (expire_pending now) (iterate (ev_pending_order ev) (pv_pending s)) s"
  have a: "shrinks ?s1 s" by (rule fold_shrinks) (rule expire_pending_shrinks)
  have b: "shrinks (fold (expire_active ev gone now) xs s2) s2" for xs s2
    by (rule fold_shrinks) (rule expire_active_shrinks)
  show ?thesis
    using a b [of "iterate (ev_active_order ev) (pv_active ?s1)"
      "?s1\<lparr>pv_idempotency := filter (\<lambda>x. now < tk_expires (ir_ticket (snd x))) (pv_idempotency ?s1)\<rparr>"]
    by (auto simp: remove_expired_def Let_def shrinks_def)
qed

lemma remove_reservation_shrinks: "shrinks (snd (remove_reservation ev t r now reason s)) s"
  by (auto simp: shrinks_def remove_reservation_def Let_def AList.delete_eq split: option.splits)

lemma shrinks_keys:
  "shrinks s' s \<Longrightarrow> d \<notin> fst ` set (pv_pending s) \<Longrightarrow> d \<notin> fst ` set (pv_pending s')"
  "shrinks s' s \<Longrightarrow> d \<notin> fst ` set (pv_active s) \<Longrightarrow> d \<notin> fst ` set (pv_active s')"
  by (auto simp: shrinks_def)

lemma close_replaced_tables [simp]:
  "pv_pending (close_replaced a s) = pv_pending s" "pv_active (close_replaced a s) = pv_active s"
  "pv_reservations (close_replaced a s) = pv_reservations s" "pv_ended (close_replaced a s) = pv_ended s"
  "pv_idempotency (close_replaced a s) = pv_idempotency s"
  by (auto simp: close_replaced_def split: option.splits)

lemma reserve_ok:
  assumes ok: "pod_ok s fl" and new: "d \<notin> fst ` set (pv_pending s)" "d \<notin> fst ` set fl"
  shows "pod_ok (snd (reserve ev i d t s)) fl"
proof (cases "pv_reservations s (target i)")
  case None
  then show ?thesis
    using ok insert_pending_ok [OF ok None new, of ev t] by (simp add: reserve_def Let_def split: option.splits)
next
  case (Some v)
  obtain a s' where r: "remove_reservation ev (target i) v (ci_now i) EndReplaced s = (a, s')"
    by (cases "remove_reservation ev (target i) v (ci_now i) EndReplaced s")
  have s': "pod_ok s' fl" "pv_reservations s' (target i) = None"
    using remove_reservation_ok [OF ok Some r] by simp_all
  have "d \<notin> fst ` set (pv_pending s')"
    using remove_reservation_shrinks [of ev "target i" v "ci_now i" EndReplaced s] r new(1) shrinks_keys(1) [of s' s d] by simp
  then have "pod_ok (insert_pending ev i d t s') fl" using insert_pending_ok [OF s'] new(2) by simp
  then have "pod_ok (close_replaced a (insert_pending ev i d t s')) fl"
    using pod_ok_cong [of "close_replaced a (insert_pending ev i d t s')" "insert_pending ev i d t s'" fl] by simp
  then show ?thesis using ok Some r by (simp add: reserve_def Let_def split: option.splits)
qed

lemma create_ok:
  assumes ok: "pod_ok s fl" and new: "\<forall>t d. new_opaque_token ev random = Inr (t, d) \<longrightarrow> fresh_digest d s fl"
  shows "pod_ok (snd (create ev gone random i s)) fl"
proof (cases "new_opaque_token ev random")
  case (Inl e)
  then show ?thesis using ok by (simp add: create_def)
next
  case (Inr td)
  obtain t d where td: "td = (t, d)" by (cases td)
  then have "fresh_digest d s fl" using new Inr by simp
  then have "pod_ok (snd (reserve ev i d (ticket_for ev i t) (remove_expired ev gone (ci_now i) s))) fl"
    using shrinks_keys(1) [OF remove_expired_shrinks] by (intro reserve_ok remove_expired_ok ok) (auto simp: fresh_digest_def)
  then show ?thesis using ok Inr td by (simp add: create_def)
qed

lemma activate_take_ok:
  assumes ok: "pod_ok s fl" and t: "activate_take ev gone d now s = (po, s')"
  shows "pod_ok s' (case po of None \<Rightarrow> fl | Some p \<Rightarrow> (d, p) # fl)"
proof -
  let ?s = "remove_expired ev gone now s"
  have ok': "pod_ok ?s fl" by (rule remove_expired_ok [OF ok])
  show ?thesis
  proof (cases "map_of (pv_pending ?s) d")
    case None
    then show ?thesis using t ok' by (auto simp: activate_take_def Let_def)
  next
    case (Some p)
    then have p: "(d, p) \<in> set (pv_pending ?s)" by (rule map_of_SomeD)
    have s': "s' = ?s\<lparr>pv_pending := AList.delete d (pv_pending ?s)\<rparr>" and po: "po = Some p"
      using t Some by (auto simp: activate_take_def Let_def)
    have "reserved s' = reserved ?s" by (rule reserved_cong) (simp add: s')
    moreover have "d \<notin> fst ` set fl" using claims_okD(8) [OF pod_okD(5) [OF ok']] p by (force simp: image_iff)
    moreover have "waiting ((d, p) # fl) = insert (target (pe_input p), d, False) (waiting fl)" by (simp add: waiting_def)
    ultimately show ?thesis
      using move_take [OF pod_okD(5) [OF ok'] waiting_I [OF p]] pod_okD(1-4) [OF ok'] waiting_delete [OF pod_okD(1) [OF ok'] p]
      by (simp add: po s' pod_ok_def tables_ok_def AList.distinct_delete)
  qed
qed

lemma pod_ok_abandon:
  assumes ok: "pod_ok s fl" and p: "(d, p) \<in> set fl"
    and s': "pv_pending s' = pv_pending s" "pv_active s' = pv_active s"
      "reserved s' = reserved s - {(target (pe_input p), d, False)}"
  shows "pod_ok s' (AList.delete d fl)"
  using move_abandon [OF pod_okD(5) [OF ok] waiting_I [OF p]] pod_okD(1-4) [OF ok] s'
    waiting_delete [OF pod_okD(3) [OF ok] p]
  by (simp add: pod_ok_def tables_ok_def AList.distinct_delete)

lemma activate_release_ok:
  assumes "pod_ok s fl" and "(d, p) \<in> set fl"
  shows "pod_ok (activate_release p d res s) (AList.delete d fl)"
proof -
  let ?r = "release_pending_reservation (target (pe_input p)) d s"
  have "pod_ok ?r (AList.delete d fl)"
    using pod_ok_abandon [OF assms, of ?r] reserved_release by simp
  then show ?thesis
    using pod_ok_cong [of "activate_release p d res s" ?r "AList.delete d fl"]
    by (simp add: activate_release_def Let_def split: option.splits)
qed

lemma pod_ok_commit:
  assumes ok: "pod_ok s fl" and p: "(d, p) \<in> set fl" and x: "(target (pe_input p), d, False) \<in> reserved s"
    and a: "as_input a = pe_input p" "as_key a \<notin> fst ` set (pv_active s)"
    and s': "pv_pending s' = pv_pending s" "pv_active s' = AList.update (as_key a) a (pv_active s)"
      "reserved s' = insert (target (pe_input p), as_key a, True) (reserved s - {(target (pe_input p), d, False)})"
  shows "pod_ok s' (AList.delete d fl)"
proof -
  have "claims_ok (reserved s') (waiting (pv_pending s')) (running (pv_active s')) (waiting (AList.delete d fl))"
    using move_commit [OF pod_okD(5) [OF ok] waiting_I [OF p] x, of "(target (pe_input p), as_key a, True)"]
    by (simp add: s' a running_update waiting_delete [OF pod_okD(3) [OF ok] p])
  moreover have "tables_ok s'"
    using pod_okD(1,2,4) [OF ok] s' set_update_new [OF a(2)] by (auto simp: tables_ok_def AList.distinct_update)
  ultimately show ?thesis using pod_okD(3) [OF ok] by (simp add: pod_ok_def AList.distinct_delete)
qed

lemma activate_commit_outcome:
  fixes ev gone p d c now s
  defines "s1 \<equiv> remove_expired ev gone now s" and "t \<equiv> target (pe_input p)" and "k \<equiv> as_key (snd c)"
  obtains (lost) s' where "activate_commit ev gone p d c now s = (Inl ErrActivationNotFound, s')"
      "pv_pending s' = pv_pending s1" "pv_active s' = pv_active s1" "pv_reservations s' = pv_reservations s1"
      "pv_ended s' = pv_ended s1" "pv_idempotency s' = pv_idempotency s1" "(t, d, False) \<notin> reserved s1"
  | (full) s' where "activate_commit ev gone p d c now s = (Inl ErrCapacity, s')"
      "pv_pending s' = pv_pending s1" "pv_active s' = pv_active s1" "pv_reservations s' = (pv_reservations s1)(t := None)"
      "pv_ended s' = pv_ended s1" "pv_idempotency s' = pv_idempotency s1" "(t, d, False) \<in> reserved s1"
  | (committed) s' and r :: target_reservation where "activate_commit ev gone p d c now s = (Inr c, s')"
      "pv_pending s' = pv_pending s1" "pv_active s' = AList.update k (snd c) (pv_active s1)"
      "pv_reservations s' = (pv_reservations s1)(t \<mapsto> \<lparr>rv_key = k, rv_idempotency = rv_idempotency r, rv_active = True\<rparr>)"
      "pv_ended s' = pv_ended s1" "pv_idempotency s' = pv_idempotency s1" "(t, d, False) \<in> reserved s1"
      "int (length (pv_active s1)) < pc_max_active (ev_config ev)"
proof (cases "pv_reservations s1 t")
  case None
  then show thesis
    by (intro lost [of "snd (activate_commit ev gone p d c now s)"]) (simp_all add: activate_commit_def Let_def mem_reserved flip: s1_def t_def)
next
  case (Some r)
  consider "rv_active r \<or> rv_key r \<noteq> d"
    | "\<not> rv_active r" "rv_key r = d" "pc_max_active (ev_config ev) \<le> int (length (pv_active s1))"
    | "\<not> rv_active r" "rv_key r = d" "\<not> pc_max_active (ev_config ev) \<le> int (length (pv_active s1))" by blast
  then show thesis
  proof cases
    case 1
    with Some show thesis
      by (intro lost [of "snd (activate_commit ev gone p d c now s)"]) (auto simp: activate_commit_def Let_def mem_reserved simp flip: s1_def t_def)
  next
    case 2
    with Some show thesis
      by (intro full [of "snd (activate_commit ev gone p d c now s)"]) (simp_all add: activate_commit_def Let_def mem_reserved flip: s1_def t_def)
  next
    case 3
    with Some show thesis
      by (intro committed [of "snd (activate_commit ev gone p d c now s)" r]) (simp_all add: activate_commit_def Let_def mem_reserved k_def flip: s1_def t_def)
  qed
qed

lemma activate_commit_ok:
  assumes ok: "pod_ok s fl" and p: "(d, p) \<in> set fl"
    and c: "as_input (snd c) = pe_input p" "as_key (snd c) \<notin> fst ` set (pv_active s)"
  shows "pod_ok (snd (activate_commit ev gone p d c now s)) (AList.delete d fl)"
proof -
  note ok' = remove_expired_ok [OF ok, of ev gone now]
  note k = shrinks_keys(2) [OF remove_expired_shrinks c(2), of ev gone now]
  have own: "{y \<in> reserved s1. fst y \<noteq> t} = reserved s1 - {(t, d, False)}" if "(t, d, False) \<in> reserved s1" for s1 t
    using that reserved_drop_own [of s1 t] by (auto simp: mem_reserved)
  show ?thesis
  proof (cases rule: activate_commit_outcome [of ev gone p d c now s])
    case (lost s')
    then show ?thesis using pod_ok_abandon [OF ok' p, of s'] reserved_cong [OF lost(4)] by simp
  next
    case (full s')
    have "reserved s' = reserved (remove_expired ev gone now s) - {(target (pe_input p), d, False)}"
      using reserved_cong [of s' "(remove_expired ev gone now s)\<lparr>pv_reservations := pv_reservations s'\<rparr>"] full(4,7)
      by (simp add: reserved_drop own)
    then show ?thesis using full pod_ok_abandon [OF ok' p, of s'] by simp
  next
    case (committed s' r)
    have "reserved s' = insert (target (pe_input p), as_key (snd c), True)
        (reserved (remove_expired ev gone now s) - {(target (pe_input p), d, False)})"
      using reserved_cong [of s' "(remove_expired ev gone now s)\<lparr>pv_reservations := pv_reservations s'\<rparr>"] committed(4,7)
      by (simp add: reserved_put own)
    then show ?thesis using committed pod_ok_commit [OF ok' p committed(7) c(1) k, of s'] by simp
  qed
qed

lemma deactivate_ok:
  assumes ok: "pod_ok s fl"
  shows "pod_ok (deactivate ev k reason now s) fl"
proof (cases "map_of (pv_active s) k")
  case None
  then show ?thesis using ok by (simp add: deactivate_def)
next
  case (Some a)
  let ?d = "drop_reservation True (target (as_input a)) k (s\<lparr>pv_active := AList.delete k (pv_active s)\<rparr>)"
  have "pv_reservations (deactivate ev k reason now s) = pv_reservations ?d"
    using Some by (simp add: deactivate_def Let_def split: option.splits)
  then have "reserved (deactivate ev k reason now s) = reserved ?d" by (rule reserved_cong)
  then show ?thesis
    using Some reserved_cong [of "s\<lparr>pv_active := AList.delete k (pv_active s)\<rparr>" s]
    by (intro pod_ok_end [OF ok map_of_SomeD [OF Some]])
      (simp_all add: deactivate_def Let_def reserved_drop_reservation split: option.splits)
qed

lemma resolve_ok: "pod_ok s fl \<Longrightarrow> pod_ok (snd (resolve ev gone token now s)) fl"
  using deactivate_ok by (auto simp: resolve_def Let_def split: option.splits)

lemma monitor_turn_ok: "pod_ok s fl \<Longrightarrow> pod_ok (monitor_turn ev e a now s) fl"
  using deactivate_ok by (auto simp: monitor_turn_def split: sum.splits)

subsection \<open>The bounds\<close>

definition sizes_ok :: "pod_access_env \<Rightarrow> pod_access \<Rightarrow> bool" where
  "sizes_ok ev s \<longleftrightarrow>
     int (length (pv_pending s)) \<le> pc_max_pending (ev_config ev)
     \<and> int (length (pv_idempotency s)) \<le> pc_max_pending (ev_config ev)
     \<and> int (length (pv_active s)) \<le> pc_max_active (ev_config ev)
     \<and> int (length (pv_ended s)) \<le> pc_max_active (ev_config ev)"

lemma oldest_step_fold:
  "fst (fold oldest_step m best) \<in> insert (fst best) (fst ` set m)
   \<and> (m \<noteq> [] \<and> snd best = zero_time \<longrightarrow> fst (fold oldest_step m best) \<in> fst ` set m)"
proof (induction m arbitrary: best)
  case Nil
  then show ?case by simp
next
  case (Cons x m)
  have "oldest_step x best = best \<or> fst (oldest_step x best) = fst x"
    and "snd best = zero_time \<Longrightarrow> fst (oldest_step x best) = fst x" by (simp_all add: oldest_step_def)
  then show ?case using Cons.IH [of "oldest_step x best"] by auto
qed

lemma oldest_ended_in: "m \<noteq> [] \<Longrightarrow> oldest_ended m \<in> fst ` set m"
  using oldest_step_fold [of m "(zero_digest, zero_time)"] by (simp add: oldest_ended_def)

lemma length_delete_le: "length (AList.delete k m) \<le> length m"
  by (simp add: AList.delete_eq)

lemma update_not_Nil [simp]: "AList.update k v m \<noteq> []"
  by (cases m) auto

lemma remember_ended_length:
  assumes "int (length (pv_ended s)) \<le> pc_max_active (ev_config ev)"
  shows "int (length (pv_ended (remember_ended ev k r now x s))) \<le> pc_max_active (ev_config ev)"
proof -
  let ?m = "AList.update k \<lparr>en_reason = r, en_at = now,
      en_expires = (if now + pc_max_session_ttl (ev_config ev) < x then now + pc_max_session_ttl (ev_config ev) else x)\<rparr> (pv_ended s)"
  have "iterate (ev_ended_order ev) ?m \<noteq> []" by (metis iterate_set set_empty update_not_Nil)
  then have "oldest_ended (iterate (ev_ended_order ev) ?m) \<in> fst ` set ?m" by (metis oldest_ended_in iterate_set)
  then have "length (AList.delete (oldest_ended (iterate (ev_ended_order ev) ?m)) ?m) < length ?m"
    by (rule length_delete_less)
  moreover have "length ?m \<le> Suc (length (pv_ended s))" by (rule length_update_le)
  ultimately show ?thesis using assms by (simp add: remember_ended_def Let_def)
qed

lemma expire_pending_sizes: "sizes_ok ev s \<Longrightarrow> sizes_ok ev (expire_pending now x s)"
  using length_delete_le [of "fst x" "pv_pending s"] by (simp add: sizes_ok_def expire_pending_def)

lemma expire_active_sizes: "sizes_ok ev s \<Longrightarrow> sizes_ok ev (expire_active ev gone now x s)"
  using length_delete_le [of "fst x" "pv_active s"] by (simp add: sizes_ok_def expire_active_def remember_ended_length)

lemma sizes_fold: "(\<And>x s. sizes_ok ev s \<Longrightarrow> sizes_ok ev (f x s)) \<Longrightarrow> sizes_ok ev s \<Longrightarrow> sizes_ok ev (fold f xs s)"
  by (induction xs arbitrary: s) auto

lemma sizes_ok_smaller:
  "sizes_ok ev s \<Longrightarrow> length (pv_pending s') \<le> length (pv_pending s) \<Longrightarrow> length (pv_idempotency s') \<le> length (pv_idempotency s)
     \<Longrightarrow> length (pv_active s') \<le> length (pv_active s) \<Longrightarrow> length (pv_ended s') \<le> length (pv_ended s) \<Longrightarrow> sizes_ok ev s'"
  by (simp add: sizes_ok_def)

lemma remove_expired_sizes:
  assumes "sizes_ok ev s"
  shows "sizes_ok ev (remove_expired ev gone now s)"
proof -
  define s1 where "s1 = fold (expire_pending now) (iterate (ev_pending_order ev) (pv_pending s)) s"
  define s2 where "s2 = s1\<lparr>pv_idempotency := filter (\<lambda>x. now < tk_expires (ir_ticket (snd x))) (pv_idempotency s1)\<rparr>"
  define s3 where "s3 = fold (expire_active ev gone now) (iterate (ev_active_order ev) (pv_active s2)) s2"
  have "sizes_ok ev s1" unfolding s1_def using assms expire_pending_sizes by (intro sizes_fold)
  then have "sizes_ok ev s2" by (rule sizes_ok_smaller) (simp_all add: s2_def)
  then have "sizes_ok ev s3" unfolding s3_def using expire_active_sizes by (intro sizes_fold)
  then have "sizes_ok ev (s3\<lparr>pv_ended := filter (\<lambda>x. now < en_expires (snd x)) (pv_ended s3)\<rparr>)"
    by (rule sizes_ok_smaller) simp_all
  then show ?thesis by (simp add: remove_expired_def Let_def s1_def s2_def s3_def)
qed

lemma insert_pending_lengths:
  "length (pv_pending (insert_pending ev i d t s)) \<le> Suc (length (pv_pending s))"
  "length (pv_idempotency (insert_pending ev i d t s)) \<le> Suc (length (pv_idempotency s))"
  "pv_active (insert_pending ev i d t s) = pv_active s" "pv_ended (insert_pending ev i d t s) = pv_ended s"
  by (simp_all add: insert_pending_def length_update_le)

lemma length_delete_one: "length (AList.delete k m) \<le> length m - (if map_of m k \<noteq> None then 1 else 0)"
proof (cases "k \<in> fst ` set m")
  case True
  then have "length (AList.delete k m) < length m" by (rule length_delete_less)
  then show ?thesis using True by (simp add: map_of_eq_None_iff)
qed (simp add: map_of_eq_None_iff)

lemma remove_reservation_lengths:
  assumes "remove_reservation ev t v now reason s = (a, s')"
  shows "int (length (pv_pending s')) \<le> fst (counts_after_release s (Some v))"
    and "int (length (pv_idempotency s')) \<le> snd (counts_after_release s (Some v))"
    and "length (pv_active s') \<le> length (pv_active s)"
proof -
  have one: "int (length (AList.delete k m)) \<le> int (length m) - (if map_of m k \<noteq> None then 1 else 0)" for k and m :: "'z table"
    using length_delete_one [of k m] map_of_SomeD [of m k] by (cases m) (auto split: if_splits)
  show "int (length (pv_pending s')) \<le> fst (counts_after_release s (Some v))"
    using assms one [of "rv_key v" "pv_pending s"]
    by (auto simp: remove_reservation_def counts_after_release_def Let_def split: if_splits option.splits)
  show "int (length (pv_idempotency s')) \<le> snd (counts_after_release s (Some v))"
    using assms one [of "rv_idempotency v" "pv_idempotency s"]
    by (auto simp: remove_reservation_def counts_after_release_def Let_def split: if_splits option.splits)
  show "length (pv_active s') \<le> length (pv_active s)"
    using assms length_delete_le [of "rv_key v" "pv_active s"]
    by (auto simp: remove_reservation_def Let_def split: if_splits option.splits)
qed

lemma remove_reservation_ended:
  assumes "remove_reservation ev t v now reason s = (a, s')" and "int (length (pv_ended s)) \<le> pc_max_active (ev_config ev)"
  shows "int (length (pv_ended s')) \<le> pc_max_active (ev_config ev)"
  using assms by (auto simp: remove_reservation_def Let_def remember_ended_length split: if_splits option.splits)

lemma reserve_sizes:
  assumes ok: "sizes_ok ev s"
  shows "sizes_ok ev (snd (reserve ev i d t s))"
proof (cases "pv_reservations s (target i)")
  case None
  then show ?thesis
    using ok insert_pending_lengths [of ev i d t s]
    by (auto simp: reserve_def Let_def counts_after_release_def sizes_ok_def split: option.splits)
next
  case (Some v)
  obtain a s' where r: "remove_reservation ev (target i) v (ci_now i) EndReplaced s = (a, s')"
    by (cases "remove_reservation ev (target i) v (ci_now i) EndReplaced s")
  have "sizes_ok ev (close_replaced a (insert_pending ev i d t s'))"
    if "fst (counts_after_release s (Some v)) < pc_max_pending (ev_config ev)"
      "snd (counts_after_release s (Some v)) < pc_max_pending (ev_config ev)"
    using that remove_reservation_lengths [OF r] remove_reservation_ended [OF r] insert_pending_lengths [of ev i d t s'] ok
    by (simp add: sizes_ok_def)
  then show ?thesis using ok Some r by (auto simp: reserve_def Let_def split: option.splits)
qed

lemma create_sizes: "sizes_ok ev s \<Longrightarrow> sizes_ok ev (snd (create ev gone random i s))"
  by (auto simp: create_def remove_expired_sizes reserve_sizes split: sum.splits)

lemma activate_take_sizes: "sizes_ok ev s \<Longrightarrow> sizes_ok ev (snd (activate_take ev gone d now s))"
  using remove_expired_sizes [of ev s gone now] length_delete_le [of d "pv_pending (remove_expired ev gone now s)"]
  by (auto simp: activate_take_def Let_def sizes_ok_def split: option.splits)

lemma activate_release_sizes: "sizes_ok ev s \<Longrightarrow> sizes_ok ev (activate_release p d res s)"
  by (rule sizes_ok_smaller)
    (auto simp: activate_release_def Let_def release_pending_reservation_def length_delete_le split: option.splits)

lemma activate_commit_sizes:
  assumes "sizes_ok ev s"
  shows "sizes_ok ev (snd (activate_commit ev gone p d c now s))"
proof -
  note ok = remove_expired_sizes [OF assms, of gone now]
  note up = length_update_le [of "as_key (snd c)" "snd c" "pv_active (remove_expired ev gone now s)"]
  show ?thesis
    by (cases rule: activate_commit_outcome [of ev gone p d c now s]) (use ok up in \<open>simp_all add: sizes_ok_def\<close>)
qed

lemma deactivate_sizes: "sizes_ok ev s \<Longrightarrow> sizes_ok ev (deactivate ev k reason now s)"
  using length_delete_le [of k "pv_active s"]
  by (auto simp: deactivate_def Let_def sizes_ok_def remember_ended_length split: option.splits)

lemma resolve_sizes: "sizes_ok ev s \<Longrightarrow> sizes_ok ev (snd (resolve ev gone token now s))"
  using deactivate_sizes by (auto simp: resolve_def Let_def split: option.splits)

lemma monitor_turn_sizes: "sizes_ok ev s \<Longrightarrow> sizes_ok ev (monitor_turn ev e a now s)"
  using deactivate_sizes by (auto simp: monitor_turn_def split: sum.splits)

end
