(* ===== verification/PodRuns.thy ===== *)
theory PodRuns
  imports PodSafety
begin

section \<open>Runs of the Pod access service\<close>

text \<open>
  Every interleaving of the calls of \<open>pkg/server/podaccess/service.go\<close>. A state pairs the service with
  the activations in flight, those between taking the pending entry and the commit. Digests are fresh:
  a token is 32 random bytes, and the runs considered are those in which no digest is drawn twice.
\<close>

lemma activate_check_session:
  assumes "activate_check ev p now r = Inr c"
  shows "as_input (snd c) = pe_input p" "now < pe_expires p" "revalidate ev (pe_input p) now = Inr ()"
  using assms by (auto simp: activate_check_def session_for_def split: if_splits sum.splits option.splits)

inductive pod_step :: "pod_access_env \<Rightarrow> pod_access \<times> flight \<Rightarrow> pod_access \<times> flight \<Rightarrow> bool" for ev where
  step_create: "(\<forall>t d. new_opaque_token ev random = Inr (t, d) \<longrightarrow> fresh_digest d s fl)
    \<Longrightarrow> pod_step ev (s, fl) (snd (create ev gone random i s), fl)"
| step_take: "activate_take ev gone d now s = (Some p, s') \<Longrightarrow> pod_step ev (s, fl) (s', (d, p) # fl)"
| step_miss: "activate_take ev gone d now s = (None, s') \<Longrightarrow> pod_step ev (s, fl) (s', fl)"
| step_release: "(d, p) \<in> set fl \<Longrightarrow> activate_check ev p now r = Inl (e, res)
    \<Longrightarrow> pod_step ev (s, fl) (activate_release p d res s, AList.delete d fl)"
| step_commit: "(d, p) \<in> set fl \<Longrightarrow> activate_check ev p now r = Inr c \<Longrightarrow> as_key (snd c) \<notin> fst ` set (pv_active s)
    \<Longrightarrow> pod_step ev (s, fl) (snd (activate_commit ev gone p d c now s), AList.delete d fl)"
| step_resolve: "pod_step ev (s, fl) (snd (resolve ev gone token now s), fl)"
| step_deactivate: "pod_step ev (s, fl) (deactivate ev k reason now s, fl)"
| step_monitor: "pod_step ev (s, fl) (monitor_turn ev ended a now s, fl)"

inductive pod_reach :: "pod_access_env \<Rightarrow> pod_access \<times> flight \<Rightarrow> bool" for ev where
  reach_start: "pod_reach ev (new_service, [])"
| reach_step: "pod_reach ev x \<Longrightarrow> pod_step ev x y \<Longrightarrow> pod_reach ev y"

inductive_cases pod_stepE: "pod_step ev (s, fl) y"

lemma pod_step_ok: "pod_step ev x y \<Longrightarrow> pod_ok (fst x) (snd x) \<Longrightarrow> pod_ok (fst y) (snd y)"
proof (induction rule: pod_step.induct)
  case (step_commit d p fl now r c s gone)
  then show ?case using activate_commit_ok activate_check_session(1) by simp
next
  case (step_take gone d now s p s' fl)
  then show ?case using activate_take_ok by fastforce
next
  case (step_miss gone d now s s' fl)
  then show ?case using activate_take_ok by fastforce
qed (simp_all add: create_ok activate_release_ok resolve_ok deactivate_ok monitor_turn_ok)

lemma pod_step_sizes: "pod_step ev x y \<Longrightarrow> sizes_ok ev (fst x) \<Longrightarrow> sizes_ok ev (fst y)"
proof (induction rule: pod_step.induct)
  case (step_take gone d now s p s' fl)
  then show ?case using activate_take_sizes [of ev s gone d now] by simp
next
  case (step_miss gone d now s s' fl)
  then show ?case using activate_take_sizes [of ev s gone d now] by simp
qed (simp_all add: create_sizes activate_release_sizes activate_commit_sizes resolve_sizes deactivate_sizes monitor_turn_sizes)

lemma pod_reach_ok: "pod_reach ev x \<Longrightarrow> pod_ok (fst x) (snd x)"
proof (induction rule: pod_reach.induct)
  case reach_start
  then show ?case
    by (simp add: pod_ok_def tables_ok_def new_service_def claims_ok_def reserved_def waiting_def running_def
        one_key_def keys_of_def)
next
  case (reach_step x y)
  then show ?case using pod_step_ok by blast
qed

lemma defaults_positive:
  "0 < pc_max_pending (apply_defaults c)" "0 < pc_max_active (apply_defaults c)"
  "0 < pc_max_connections (apply_defaults c)" "0 < pc_max_connections_per_session (apply_defaults c)"
  "0 < pc_activation_ttl (apply_defaults c)" "0 < pc_max_session_ttl (apply_defaults c)"
  by (simp_all add: apply_defaults_def second_def hour_def)

text \<open>The example environment of the witnesses: digests are the tokens themselves.\<close>

definition ex_config :: pod_access_config where
  "ex_config = apply_defaults
     \<lparr>pc_enabled = True, pc_activation_ttl = 0, pc_max_session_ttl = 0, pc_revalidate_interval = 0,
      pc_operation_timeout = 0, pc_idle_timeout = 0, pc_max_pending = 2, pc_max_active = 1, pc_max_connections = 0,
      pc_max_connections_per_session = 0, pc_max_client_bytes = 0, pc_max_pod_bytes = 0\<rparr>"

definition ex_env :: pod_access_env where
  "ex_env =
     \<lparr>ev_config = ex_config, ev_sha256 = (\<lambda>x. x), ev_dns_label = (\<lambda>s. s \<noteq> []), ev_dns_subdomain = (\<lambda>s. s \<noteq> []),
      ev_render = (\<lambda>p. ''https://pods.example'' @ p),
      ev_authenticate = (\<lambda>t now. if t = ''session-token'' then Inr (ex_user, ex_tenant) else Inl ''unknown session''),
      ev_store = ex_store [ex_binding ''project'' [''cluster.pod.port_forward'']],
      ev_pending_order = rev, ev_active_order = rev, ev_ended_order = rev\<rparr>"

definition ex_ask_pod :: "string \<Rightarrow> bool \<Rightarrow> time \<Rightarrow> create_input" where
  "ex_ask_pod pod replace now =
     \<lparr>ci_user = ex_user, ci_auth_session = ex_tenant, ci_auth_token = ''session-token'', ci_idempotency = ''idempotency-'' @ pod,
      ci_cluster = ex_cluster, ci_namespace = ''default'', ci_pod = ''web'', ci_pod_uid = pod, ci_request = ex_project,
      ci_port = 8080, ci_ttl = 15 * minute, ci_replace = replace, ci_confirm = True, ci_now = now\<rparr>"

definition ex_token :: "char \<Rightarrow> string" where "ex_token c = replicate 32 c"

definition ex_random :: activation_random where
  "ex_random = \<lparr>ar_cookie = Some (ex_token CHR ''C''), ar_forward = Some (replicate 16 7), ar_prefix = Some ''123456789''\<rparr>"

definition ex_created :: pod_access where
  "ex_created = snd (create ex_env (\<lambda>_. False) (Some (ex_token CHR ''A'')) (ex_ask_pod ''uid-1'' False 0) new_service)"

definition ex_digest :: "char \<Rightarrow> string" where "ex_digest c = raw_url_encode (ex_token c)"

definition ex_ticket :: ticket where
  "ex_ticket = ticket_for ex_env (ex_ask_pod ''uid-1'' False 0) (ex_digest CHR ''A'')"

lemma iterate_Nil [simp]: "iterate order [] = []"
  by (simp add: iterate_def)

lemma remove_expired_new [simp]: "remove_expired ev gone now new_service = new_service"
  by (simp add: remove_expired_def new_service_def)

lemma ex_sizes [simp]: "pc_max_pending (ev_config ex_env) = 2" "pc_max_active (ev_config ex_env) = 1"
    "pc_max_session_ttl (ev_config ex_env) = hour" "pc_activation_ttl (ev_config ex_env) = 30 * second" "ev_sha256 ex_env = (\<lambda>x. x)"
  by (simp_all add: ex_env_def ex_config_def apply_defaults_def)

lemma ex_valid: "validate_create_input ex_env (ex_ask_pod ''uid-1'' r 0)"
  by (cases r) code_simp+

lemma ex_ask_fields [simp]: "ci_ttl (ex_ask_pod p r now) = 15 * minute" "ci_confirm (ex_ask_pod p r now)"
    "ci_now (ex_ask_pod p r now) = now"
  by (simp_all add: ex_ask_pod_def)

lemma new_service_fields [simp]:
  "pv_pending new_service = []" "pv_active new_service = []" "pv_reservations new_service = Map.empty"
  "pv_ended new_service = []" "pv_idempotency new_service = []"
  by (simp_all add: new_service_def)

lemma ex_create:
  "create ex_env (\<lambda>_. False) (Some (ex_token CHR ''A'')) (ex_ask_pod ''uid-1'' False 0) new_service = (Inr ex_ticket, ex_created)"
  "ex_created = insert_pending ex_env (ex_ask_pod ''uid-1'' False 0) (ex_digest CHR ''A'') ex_ticket new_service"
  unfolding ex_created_def
  by (simp_all add: create_def ex_valid new_opaque_token_def reserve_def counts_after_release_def
      ex_ticket_def minute_def hour_def opaque_token_bytes_def ex_token_def ex_digest_def)

lemma ex_digest_eq [simp]: "ex_digest c = ex_digest c' \<longleftrightarrow> c = c'"
proof
  assume "ex_digest c = ex_digest c'"
  then have "Some (ex_token c) = Some (ex_token c')" by (metis ex_digest_def raw_url_roundtrip)
  then have "replicate 32 c = replicate 32 c'" by (simp only: option.inject ex_token_def)
  then show "c = c'" unfolding replicate_eq_replicate by simp
qed simp

lemma ex_digest_valid [simp]: "valid_opaque_token (ex_digest c)"
  by (simp add: valid_opaque_token_def ex_digest_def raw_url_roundtrip ex_token_def opaque_token_bytes_def)

text \<open>The example run: the ticket is opened one nanosecond later.\<close>

definition ex_pending :: pending_session where
  "ex_pending = \<lparr>pe_input = ex_ask_pod ''uid-1'' False 0, pe_expires = 30 * second\<rparr>"

definition ex_session :: active_session where
  "ex_session = session_for (ex_ask_pod ''uid-1'' False 0) (ex_digest CHR ''C'') ''07070707-0707-4707-8707-070707070707'' ''123456789'' 1"

definition ex_activated :: pod_access where
  "ex_activated =
     \<lparr>pv_pending = [], pv_active = [(ex_digest CHR ''C'', ex_session)],
      pv_reservations = Map.empty(target (ex_ask_pod ''uid-1'' False 0) \<mapsto>
        \<lparr>rv_key = ex_digest CHR ''C'', rv_idempotency = idempotency_key_of (ex_ask_pod ''uid-1'' False 0), rv_active = True\<rparr>),
      pv_ended = [],
      pv_idempotency = [(idempotency_key_of (ex_ask_pod ''uid-1'' False 0),
        \<lparr>ir_fingerprint = create_fingerprint ex_env (ex_ask_pod ''uid-1'' False 0), ir_ticket = ex_ticket\<rparr>)],
      pv_closed = [], pv_audits = [(ex_ask_pod ''uid-1'' False 0, ''succeeded'', [])]\<rparr>"

lemma fold_nothing: "\<forall>x \<in> set xs. f x s = s \<Longrightarrow> fold f xs s = s"
  by (induction xs) simp_all

lemma nothing_expired:
  assumes "\<forall>x \<in> set (pv_pending s). now < pe_expires (snd x)"
    and "\<forall>x \<in> set (pv_idempotency s). now < tk_expires (ir_ticket (snd x))"
    and "\<forall>x \<in> set (pv_active s). now < as_expires (snd x) \<and> \<not> context_ended gone s (snd x)"
    and "\<forall>x \<in> set (pv_ended s). now < en_expires (snd x)"
  shows "remove_expired ev gone now s = s"
proof -
  have "fold (expire_pending now) (iterate (ev_pending_order ev) (pv_pending s)) s = s"
    using assms(1) by (intro fold_nothing) (simp add: expire_pending_def)
  moreover have "fold (expire_active ev gone now) (iterate (ev_active_order ev) (pv_active s)) s = s"
    using assms(3) by (intro fold_nothing) (simp add: expire_active_def)
  ultimately show ?thesis using assms(2,4) by (simp add: remove_expired_def Let_def filter_id_conv)
qed

lemma ex_revalidate: "revalidate ex_env (ex_ask_pod pod r now') now = Inr ()"
proof -
  have "fst (authorize_cluster (ex_store [ex_binding ''project'' [''cluster.pod.port_forward'']]) None ex_user
      ''cluster.pod.port_forward'' ex_cluster) = Inr (\<lparr>resolved_tenant = ex_tenant, resolved_project = ex_project,
                   resolved_agent_namespace = ''zke-system''\<rparr>)" by code_simp
  then show ?thesis by (simp add: revalidate_def ex_env_def ex_ask_pod_def)
qed

lemma ex_uuid: "new_uuid (Some (replicate 16 7)) = Inr ''07070707-0707-4707-8707-070707070707''"
  by code_simp

lemma ex_check: "activate_check ex_env ex_pending 1 ex_random = Inr (ex_digest CHR ''C'', ex_session)"
  by (simp add: activate_check_def ex_pending_def ex_random_def ex_revalidate ex_uuid second_def new_opaque_token_def
      ex_session_def ex_digest_def ex_token_def opaque_token_bytes_def)

lemma ex_take:
  "activate_take ex_env (\<lambda>_. False) (ex_digest CHR ''A'') 1 ex_created = (Some ex_pending, ex_created\<lparr>pv_pending := []\<rparr>)"
proof -
  have "remove_expired ex_env (\<lambda>_. False) 1 ex_created = ex_created"
    by (rule nothing_expired) (simp_all add: ex_create(2) insert_pending_def ex_ticket_def ticket_for_def second_def)
  then show ?thesis
    by (simp add: activate_take_def ex_create(2) insert_pending_def ex_pending_def ex_ticket_def ticket_for_def)
qed

lemma ex_commit:
  "activate_commit ex_env (\<lambda>_. False) ex_pending (ex_digest CHR ''A'') (ex_digest CHR ''C'', ex_session) 1 (ex_created\<lparr>pv_pending := []\<rparr>)
     = (Inr (ex_digest CHR ''C'', ex_session), ex_activated)"
proof -
  have "remove_expired ex_env (\<lambda>_. False) 1 (ex_created\<lparr>pv_pending := []\<rparr>) = ex_created\<lparr>pv_pending := []\<rparr>"
    by (rule nothing_expired) (simp_all add: ex_create(2) insert_pending_def ex_ticket_def ticket_for_def second_def)
  then show ?thesis
    by (simp add: activate_commit_def Let_def ex_create(2) insert_pending_def ex_pending_def ex_activated_def ex_session_def
        session_for_def record_audit_def new_service_def)
qed

lemma ex_activate:
  "activate ex_env (\<lambda>_. False) (ex_digest CHR ''A'') 1 ex_random ex_created = (Inr (ex_digest CHR ''C'', ex_session), ex_activated)"
  by (simp add: activate_def ex_take ex_check ex_commit)

lemma ex_created_reach: "pod_reach ex_env (ex_created, [])"
  unfolding ex_created_def
  by (rule reach_step [OF reach_start], rule step_create) (simp add: fresh_digest_def)

lemma ex_activated_reach: "pod_reach ex_env (ex_activated, [])"
proof -
  have a: "pod_reach ex_env (ex_created\<lparr>pv_pending := []\<rparr>, [(ex_digest CHR ''A'', ex_pending)])"
    by (rule reach_step [OF ex_created_reach step_take [OF ex_take]])
  have "pod_step ex_env (ex_created\<lparr>pv_pending := []\<rparr>, [(ex_digest CHR ''A'', ex_pending)])
      (snd (activate_commit ex_env (\<lambda>_. False) ex_pending (ex_digest CHR ''A'') (ex_digest CHR ''C'', ex_session) 1
        (ex_created\<lparr>pv_pending := []\<rparr>)), AList.delete (ex_digest CHR ''A'') [(ex_digest CHR ''A'', ex_pending)])"
    by (rule step_commit [OF _ ex_check]) (simp_all add: ex_create(2) insert_pending_def)
  from reach_step [OF a this] show ?thesis by (simp add: ex_commit)
qed

definition ex_other :: "bool \<Rightarrow> create_input" where
  "ex_other r = (ex_ask_pod ''uid-1'' r 2)\<lparr>ci_idempotency := ''idempotency-other''\<rparr>"

definition ex_second :: create_input where "ex_second = ex_ask_pod ''uid-2'' False 2"

lemma ex_more_valid: "validate_create_input ex_env (ex_other r)" "validate_create_input ex_env ex_second"
  by (cases r; code_simp) code_simp

lemma ex_activated_stays: "now < 30 * second \<Longrightarrow> remove_expired ex_env (\<lambda>_. False) now ex_activated = ex_activated"
  by (rule nothing_expired)
    (simp_all add: ex_activated_def ex_ticket_def ticket_for_def ex_session_def session_for_def minute_def second_def context_ended_def)

lemma ex_keys:
    "idempotency_key_of (ex_other r) \<noteq> idempotency_key_of (ex_ask_pod ''uid-1'' False 0)"
    "idempotency_key_of ex_second \<noteq> idempotency_key_of (ex_ask_pod ''uid-1'' False 0)"
    "target (ex_ask_pod ''uid-1'' False 0) \<noteq> target ex_second"
    "idempotency_key_of (ex_ask_pod ''uid-1'' False 0) \<noteq> idempotency_key_of (ex_other r)"
    "idempotency_key_of (ex_ask_pod ''uid-1'' False 0) \<noteq> idempotency_key_of ex_second"
    "target (ex_other r) = target (ex_ask_pod ''uid-1'' False 0)" "target ex_second \<noteq> target (ex_ask_pod ''uid-1'' False 0)"
  by (simp_all add: idempotency_key_of_def ex_other_def ex_second_def ex_ask_pod_def target_def)

lemma ex_more_fields [simp]:
  "ci_ttl (ex_other r) = 15 * minute" "ci_confirm (ex_other r)" "ci_now (ex_other r) = 2" "ci_replace (ex_other r) = r"
  "ci_ttl ex_second = 15 * minute" "ci_confirm ex_second" "ci_now ex_second = 2"
  by (simp_all add: ex_other_def ex_second_def ex_ask_pod_def)

lemma ex_activated_fields [simp]:
  "pv_pending ex_activated = []" "pv_active ex_activated = [(ex_digest CHR ''C'', ex_session)]" "pv_ended ex_activated = []"
  "pv_reservations ex_activated = Map.empty(target (ex_ask_pod ''uid-1'' False 0) \<mapsto>
     \<lparr>rv_key = ex_digest CHR ''C'', rv_idempotency = idempotency_key_of (ex_ask_pod ''uid-1'' False 0), rv_active = True\<rparr>)"
  "pv_idempotency ex_activated = [(idempotency_key_of (ex_ask_pod ''uid-1'' False 0),
     \<lparr>ir_fingerprint = create_fingerprint ex_env (ex_ask_pod ''uid-1'' False 0), ir_ticket = ex_ticket\<rparr>)]"
  "pv_closed ex_activated = []"
  by (simp_all add: ex_activated_def)

lemma ex_create_more:
  "create ex_env (\<lambda>_. False) (Some (ex_token c)) (ex_other r) ex_activated
     = reserve ex_env (ex_other r) (ex_digest c) (ticket_for ex_env (ex_other r) (ex_digest c)) ex_activated"
  "create ex_env (\<lambda>_. False) (Some (ex_token c)) ex_second ex_activated
     = reserve ex_env ex_second (ex_digest c) (ticket_for ex_env ex_second (ex_digest c)) ex_activated"
  by (simp_all add: create_def ex_more_valid new_opaque_token_def ex_activated_stays ex_digest_def ex_token_def
      opaque_token_bytes_def minute_def hour_def second_def)

subsection \<open>What a run keeps\<close>

definition live_inputs :: "pod_access \<Rightarrow> create_input list" where
  "live_inputs s = map (\<lambda>x. pe_input (snd x)) (pv_pending s) @ map (\<lambda>x. as_input (snd x)) (pv_active s)"

lemma claimed_targets:
  assumes "pod_ok s fl"
  shows "x \<in> set (pv_pending s) \<Longrightarrow> y \<in> set (pv_pending s) \<Longrightarrow> target (pe_input (snd x)) = target (pe_input (snd y)) \<Longrightarrow> fst x = fst y"
    and "u \<in> set (pv_active s) \<Longrightarrow> v \<in> set (pv_active s) \<Longrightarrow> target (as_input (snd u)) = target (as_input (snd v)) \<Longrightarrow> fst u = fst v"
    and "x \<in> set (pv_pending s) \<Longrightarrow> u \<in> set (pv_active s) \<Longrightarrow> target (pe_input (snd x)) \<noteq> target (as_input (snd u))"
proof -
  note d = claims_okD [OF pod_okD(5) [OF assms]]
  have w: "(target (pe_input (snd x)), fst x, False) \<in> reserved s" if "x \<in> set (pv_pending s)" for x
    using that d(1) waiting_I [of "fst x" "snd x" "pv_pending s"] by auto
  have r: "(target (as_input (snd u)), fst u, True) \<in> reserved s" if "u \<in> set (pv_active s)" for u
    using that d(2) running_I [of "fst u" "snd u" "pv_active s"] by auto
  show "x \<in> set (pv_pending s) \<Longrightarrow> y \<in> set (pv_pending s) \<Longrightarrow> target (pe_input (snd x)) = target (pe_input (snd y)) \<Longrightarrow> fst x = fst y"
    using d(4) [OF w w, of x y] by simp
  show "u \<in> set (pv_active s) \<Longrightarrow> v \<in> set (pv_active s) \<Longrightarrow> target (as_input (snd u)) = target (as_input (snd v)) \<Longrightarrow> fst u = fst v"
    using d(4) [OF r r, of u v] by simp
  show "x \<in> set (pv_pending s) \<Longrightarrow> u \<in> set (pv_active s) \<Longrightarrow> target (pe_input (snd x)) \<noteq> target (as_input (snd u))"
    using d(4) [OF w r, of x u] by auto
qed

lemma distinct_by_key:
  assumes "distinct (map fst m)" and "\<And>x y. x \<in> set m \<Longrightarrow> y \<in> set m \<Longrightarrow> f x = f y \<Longrightarrow> fst x = fst y"
  shows "distinct (map f m)"
  using assms unfolding distinct_map inj_on_def by metis

text \<open>
  C22: one Pod, one entry. Whatever interleaves - creations, replacements, activations cut between
  their two critical sections, expiries, revocations - no two of the pending activations and active
  sessions are for the same Pod of the same cluster.
\<close>

theorem one_entry_per_pod:
  assumes "pod_reach ev (s, fl)"
  shows "distinct (map target (live_inputs s))"
proof -
  have ok: "pod_ok s fl" using pod_reach_ok [OF assms] by simp
  note c = claimed_targets [OF ok]
  have "distinct (map (\<lambda>x. target (pe_input (snd x))) (pv_pending s))"
    by (rule distinct_by_key [OF pod_okD(1) [OF ok]]) (rule c(1))
  moreover have "distinct (map (\<lambda>x. target (as_input (snd x))) (pv_active s))"
    by (rule distinct_by_key [OF pod_okD(2) [OF ok]]) (rule c(2))
  moreover have "target (pe_input (snd x)) \<noteq> target (as_input (snd u))" if "x \<in> set (pv_pending s)" "u \<in> set (pv_active s)" for x u
    using c(3) [OF that] .
  then have "(\<lambda>x. target (pe_input (snd x))) ` set (pv_pending s) \<inter> (\<lambda>u. target (as_input (snd u))) ` set (pv_active s) = {}"
    by blast
  ultimately show ?thesis by (simp add: live_inputs_def comp_def)
qed

theorem one_entry_per_pod_witness:
  "distinct (map target (live_inputs ex_created)) \<and> length (live_inputs ex_created) = 1"
  using one_entry_per_pod [OF ex_created_reach] by (simp add: ex_create(2) insert_pending_def live_inputs_def new_service_def)

text \<open>
  No Pod stays locked. When no activation is between its critical sections, the reserved Pods are
  those with a pending or active entry, so a Pod whose entries are gone can be asked for again.
\<close>

theorem reservations_are_live:
  assumes "pod_reach ev (s, [])"
  shows "dom (pv_reservations s) = target ` set (live_inputs s)"
proof -
  have ok: "pod_ok s []" using pod_reach_ok [OF assms] by simp
  note d = claims_okD [OF pod_okD(5) [OF ok]]
  have "reserved s = waiting (pv_pending s) \<union> running (pv_active s)" using d(1-3) by (auto simp: waiting_def)
  moreover have "dom (pv_reservations s) \<subseteq> fst ` reserved s"
    using reserved_I [of s] by (metis domD fst_conv image_eqI subsetI)
  moreover have "fst ` reserved s \<subseteq> dom (pv_reservations s)" by (auto simp: mem_reserved)
  ultimately have "dom (pv_reservations s) = fst ` (waiting (pv_pending s) \<union> running (pv_active s))" by blast
  then show ?thesis by (simp add: live_inputs_def waiting_def running_def image_Un image_image)
qed

theorem reservations_are_live_witness: "dom (pv_reservations ex_created) = target ` set (live_inputs ex_created)"
  by (rule reservations_are_live [OF ex_created_reach])

text \<open>
  The tables are bounded. With the configuration the constructor fills in, no interleaving holds
  more pending activations or idempotency records than \<open>MaxPending\<close>, nor more active sessions or
  remembered ends than \<open>MaxActive\<close>.
\<close>

theorem pod_tables_bounded:
  assumes "pod_reach ev x" and "ev_config ev = apply_defaults c"
  shows "sizes_ok ev (fst x)"
  using assms
proof (induction rule: pod_reach.induct)
  case reach_start
  then show ?case using defaults_positive [of c] by (simp add: sizes_ok_def new_service_def)
next
  case (reach_step x y)
  then show ?case using pod_step_sizes by blast
qed

theorem pod_tables_bounded_witness: "sizes_ok ex_env (fst (ex_created, []))"
  using pod_tables_bounded [OF ex_created_reach] by (simp add: ex_env_def ex_config_def)

subsection \<open>Creation\<close>

lemma map_of_filter_first: "map_of m k = Some v \<Longrightarrow> P (k, v) \<Longrightarrow> map_of (filter P m) k = Some v"
  by (induction m) (auto split: if_splits)

lemma expiry_keeps_idempotency:
  "pv_idempotency (fold (expire_pending now) xs s) = pv_idempotency s"
  "pv_idempotency (fold (expire_active ev gone now) ys s) = pv_idempotency s"
proof -
  show "pv_idempotency (fold (expire_pending now) xs s) = pv_idempotency s"
    by (induction xs arbitrary: s) (simp_all add: expire_pending_def)
  show "pv_idempotency (fold (expire_active ev gone now) ys s) = pv_idempotency s"
    by (induction ys arbitrary: s) (simp_all add: expire_active_def)
qed

lemma remove_expired_idempotency:
  "pv_idempotency (remove_expired ev gone now s) = filter (\<lambda>x. now < tk_expires (ir_ticket (snd x))) (pv_idempotency s)"
  by (simp add: remove_expired_def Let_def expiry_keeps_idempotency)

lemma idempotency_kept:
  "map_of (pv_idempotency s) k = Some rec \<Longrightarrow> now < tk_expires (ir_ticket rec)
     \<Longrightarrow> map_of (pv_idempotency (remove_expired ev gone now s)) k = Some rec"
  by (simp add: remove_expired_idempotency map_of_filter_first)

lemma create_records:
  assumes "create ev gone random i s = (Inr t, s')"
  shows "map_of (pv_idempotency s') (idempotency_key_of i) = Some \<lparr>ir_fingerprint = create_fingerprint ev i, ir_ticket = t\<rparr>"
    and "validate_create_input ev i" "ci_ttl i \<le> pc_max_session_ttl (ev_config ev)" "ci_confirm i"
proof -
  show "validate_create_input ev i" "ci_ttl i \<le> pc_max_session_ttl (ev_config ev)" "ci_confirm i"
    using assms by (auto simp: create_def split: if_splits)
  obtain token d where "reserve ev i d (ticket_for ev i token) (remove_expired ev gone (ci_now i) s) = (Inr t, s')"
    using assms by (auto simp: create_def split: if_splits sum.splits)
  then show "map_of (pv_idempotency s') (idempotency_key_of i) = Some \<lparr>ir_fingerprint = create_fingerprint ev i, ir_ticket = t\<rparr>"
    by (auto simp: reserve_def Let_def insert_pending_def update_conv' split: option.splits if_splits prod.splits)
qed

lemma create_again:
  assumes rec: "map_of (pv_idempotency s) (idempotency_key_of i) = Some \<lparr>ir_fingerprint = create_fingerprint ev i, ir_ticket = t\<rparr>"
    and i: "validate_create_input ev i" "ci_ttl i \<le> pc_max_session_ttl (ev_config ev)" "ci_confirm i"
    and again: "is_uuid request" "now' \<noteq> zero_time" "now' < tk_expires t"
  shows "create ev gone (Some v) (i\<lparr>ci_request := request, ci_now := now'\<rparr>) s = (Inr t, remove_expired ev gone now' s)"
proof -
  let ?i = "i\<lparr>ci_request := request, ci_now := now'\<rparr>"
  have "map_of (pv_idempotency (remove_expired ev gone now' s)) (idempotency_key_of ?i)
      = Some \<lparr>ir_fingerprint = create_fingerprint ev ?i, ir_ticket = t\<rparr>"
    using idempotency_kept [OF rec, of now'] again(3) by (simp add: idempotency_key_of_def create_fingerprint_def)
  moreover have "validate_create_input ev ?i" using i(1) again(1,2) by (simp add: validate_create_input_def)
  ultimately show ?thesis using i(2,3) by (simp add: create_def new_opaque_token_def reserve_def)
qed

text \<open>
  Asking twice gives one ticket. Repeating a successful creation with the same idempotency key and
  the same request before the ticket expires answers that ticket and adds nothing.
\<close>

theorem create_replays:
  assumes first: "create ev gone random i s = (Inr t, s1)"
    and again: "is_uuid request" "now' \<noteq> zero_time" "now' < tk_expires t"
  shows "create ev gone' (Some v) (i\<lparr>ci_request := request, ci_now := now'\<rparr>) s1 = (Inr t, remove_expired ev gone' now' s1)"
  using create_again [OF create_records [OF first] again] .

theorem create_replays_witness:
  "fst (create ex_env (\<lambda>_. False) (Some (ex_token CHR ''B''))
     ((ex_ask_pod ''uid-1'' False 0)\<lparr>ci_request := ex_user, ci_now := second\<rparr>) ex_created) = Inr ex_ticket"
proof -
  have "second \<noteq> zero_time" "second < tk_expires ex_ticket"
    by (simp_all add: second_def zero_time_def ex_ticket_def ticket_for_def)
  then show ?thesis using create_replays [OF ex_create(1) ex_ids_uuid(1)] by simp
qed

subsection \<open>Live sessions survive what is not theirs\<close>

lemma expire_pending_active:
  "pv_active (fold (expire_pending now) xs s) = pv_active s \<and> pv_closed (fold (expire_pending now) xs s) = pv_closed s
     \<and> pv_ended (fold (expire_pending now) xs s) = pv_ended s"
  by (induction xs arbitrary: s) (simp_all add: expire_pending_def)

lemma expire_active_keeps:
  assumes "(k, a) \<in> set (pv_active s)" and "as_key a = k" and "now < as_expires a" and "\<not> context_ended gone s a"
    and "\<forall>x \<in> set xs. as_key (snd x) = fst x \<and> (fst x = k \<longrightarrow> snd x = a)"
  shows "(k, a) \<in> set (pv_active (fold (expire_active ev gone now) xs s))
         \<and> \<not> context_ended gone (fold (expire_active ev gone now) xs s) a"
  using assms
proof (induction xs arbitrary: s)
  case Nil
  then show ?case by simp
next
  case (Cons x xs)
  let ?s = "expire_active ev gone now x s"
  have "(k, a) \<in> set (pv_active ?s) \<and> \<not> context_ended gone ?s a"
  proof (cases "fst x = k")
    case True
    then have "snd x = a" using Cons.prems(5) by simp
    then show ?thesis using Cons.prems(1,3,4) by (simp add: expire_active_def)
  next
    case False
    then have "as_key (snd x) \<noteq> as_key a" using Cons.prems(2,5) by simp
    then show ?thesis
      using Cons.prems(1,2,4) False by (auto simp: expire_active_def close_session_def context_ended_def AList.delete_eq)
  qed
  then show ?case using Cons.IH [of ?s] Cons.prems by simp
qed

lemma drop_reservation_sub: "pv_reservations (drop_reservation b t k s) u = Some r \<Longrightarrow> pv_reservations s u = Some r"
  by (auto simp: drop_reservation_def split: option.splits if_splits)

lemma remove_expired_parts:
  obtains s1 s2 s3 where "s1 = fold (expire_pending now) (iterate (ev_pending_order ev) (pv_pending s)) s"
    and "s2 = s1\<lparr>pv_idempotency := filter (\<lambda>x. now < tk_expires (ir_ticket (snd x))) (pv_idempotency s1)\<rparr>"
    and "s3 = fold (expire_active ev gone now) (iterate (ev_active_order ev) (pv_active s2)) s2"
    and "remove_expired ev gone now s = s3\<lparr>pv_ended := filter (\<lambda>x. now < en_expires (snd x)) (pv_ended s3)\<rparr>"
    and "pv_active s2 = pv_active s" "pv_ended s2 = pv_ended s" "pv_closed s2 = pv_closed s" "pv_reservations s2 = pv_reservations s1"
proof -
  define s1 where "s1 = fold (expire_pending now) (iterate (ev_pending_order ev) (pv_pending s)) s"
  define s2 where "s2 = s1\<lparr>pv_idempotency := filter (\<lambda>x. now < tk_expires (ir_ticket (snd x))) (pv_idempotency s1)\<rparr>"
  define s3 where "s3 = fold (expire_active ev gone now) (iterate (ev_active_order ev) (pv_active s2)) s2"
  have "pv_active s1 = pv_active s" "pv_ended s1 = pv_ended s" "pv_closed s1 = pv_closed s"
    by (simp_all add: s1_def expire_pending_active)
  then show thesis
    by (intro that [OF s1_def s2_def s3_def]) (simp_all add: remove_expired_def Let_def s1_def s2_def s3_def)
qed

lemma expiry_step_reservations:
  "pv_reservations (expire_pending now x s) t = Some r \<Longrightarrow> pv_reservations s t = Some r"
  "pv_reservations (expire_active ev gone now y s) t = Some r \<Longrightarrow> pv_reservations s t = Some r"
  using drop_reservation_sub [of False "target (pe_input (snd x))" "fst x" "s\<lparr>pv_pending := AList.delete (fst x) (pv_pending s)\<rparr>" t r]
    drop_reservation_sub [of True "target (as_input (snd y))" "fst y" "s\<lparr>pv_active := AList.delete (fst y) (pv_active s)\<rparr>" t r]
  by (simp_all add: expire_pending_def expire_active_def split: if_splits)

lemma fold_reservations:
  assumes "pv_reservations (fold f xs s) t = Some r"
    and "\<And>x s. pv_reservations (f x s) t = Some r \<Longrightarrow> pv_reservations s t = Some r"
  shows "pv_reservations s t = Some r"
  using assms(1)
proof (induction xs arbitrary: s)
  case (Cons x xs)
  have "pv_reservations (f x s) t = Some r" by (rule Cons.IH) (use Cons.prems in simp)
  then show ?case by (rule assms(2))
qed simp

lemma remove_expired_reservations:
  assumes "pv_reservations (remove_expired ev gone now s) t = Some r"
  shows "pv_reservations s t = Some r"
proof (rule remove_expired_parts [of now ev s gone])
  fix s1 s2 s3
  assume s1: "s1 = fold (expire_pending now) (iterate (ev_pending_order ev) (pv_pending s)) s"
    and s3: "s3 = fold (expire_active ev gone now) (iterate (ev_active_order ev) (pv_active s2)) s2"
    and r: "remove_expired ev gone now s = s3\<lparr>pv_ended := filter (\<lambda>x. now < en_expires (snd x)) (pv_ended s3)\<rparr>"
    and s2: "pv_reservations s2 = pv_reservations s1"
  have "pv_reservations s3 t = Some r" using assms r by simp
  then have "pv_reservations s1 t = Some r"
    unfolding s3 s2 [symmetric] by (rule fold_reservations) (rule expiry_step_reservations(2))
  then show ?thesis unfolding s1 by (rule fold_reservations) (rule expiry_step_reservations(1))
qed

lemma live_session_kept:
  assumes ok: "pod_ok s fl" and a: "(k, a) \<in> set (pv_active s)" "now < as_expires a" "\<not> context_ended gone s a"
  shows "(k, a) \<in> set (pv_active (remove_expired ev gone now s))"
    and "\<exists>r. pv_reservations (remove_expired ev gone now s) (target (as_input a)) = Some r
           \<and> pv_reservations s (target (as_input a)) = Some r \<and> rv_active r \<and> rv_key r = k"
proof -
  have keys: "\<forall>x \<in> set (iterate (ev_active_order ev) (pv_active s)). as_key (snd x) = fst x \<and> (fst x = k \<longrightarrow> snd x = a)"
    using pod_okD(4) [OF ok] distinct_key [OF pod_okD(2) [OF ok]] a(1) by auto
  note k = pod_okD(4) [OF ok a(1)]
  show in_s: "(k, a) \<in> set (pv_active (remove_expired ev gone now s))"
  proof (rule remove_expired_parts [of now ev s gone])
    fix s1 s2 s3
    assume s3: "s3 = fold (expire_active ev gone now) (iterate (ev_active_order ev) (pv_active s2)) s2"
      and r: "remove_expired ev gone now s = s3\<lparr>pv_ended := filter (\<lambda>x. now < en_expires (snd x)) (pv_ended s3)\<rparr>"
      and s2: "pv_active s2 = pv_active s" "pv_closed s2 = pv_closed s"
    have "(k, a) \<in> set (pv_active s3)"
      unfolding s3 using a keys s2 k by (intro expire_active_keeps [THEN conjunct1]) (simp_all add: context_ended_def)
    then show ?thesis using r by simp
  qed
  have "(target (as_input a), k, True) \<in> reserved (remove_expired ev gone now s)"
    using claims_okD(2) [OF pod_okD(5) [OF remove_expired_ok [OF ok]]] running_I [OF in_s] by blast
  then show "\<exists>r. pv_reservations (remove_expired ev gone now s) (target (as_input a)) = Some r
           \<and> pv_reservations s (target (as_input a)) = Some r \<and> rv_active r \<and> rv_key r = k"
    using remove_expired_reservations [of ev gone now s "target (as_input a)"] by (auto simp: mem_reserved)
qed

lemma reserve_error: "reserve ev i d t s = (Inl e, s') \<Longrightarrow> s' = s"
  by (auto simp: reserve_def Let_def split: option.splits if_splits prod.splits)

lemma create_error: "create ev gone random i s = (Inl e, s') \<Longrightarrow> s' = s \<or> s' = remove_expired ev gone (ci_now i) s"
  by (auto simp: create_def dest: reserve_error split: if_splits sum.splits)

text \<open>
  A refused replacement revokes nothing. When \<open>Create\<close> fails, for whatever reason, every session
  that has not expired is still active and still holds its Pod.
\<close>

theorem refused_create_revokes_nothing:
  assumes "pod_reach ev (s, fl)" and "create ev gone random i s = (Inl e, s')"
    and "(k, a) \<in> set (pv_active s)" and "ci_now i < as_expires a" and "\<not> context_ended gone s a"
  shows "(k, a) \<in> set (pv_active s') \<and> pv_reservations s' (target (as_input a)) = pv_reservations s (target (as_input a))"
proof -
  have ok: "pod_ok s fl" using pod_reach_ok [OF assms(1)] by simp
  note live = live_session_kept [OF ok assms(3-5), of ev]
  have "pv_reservations (remove_expired ev gone (ci_now i) s) (target (as_input a)) = pv_reservations s (target (as_input a))"
    using live(2) by auto
  with live(1) create_error [OF assms(2)] assms(3) show ?thesis by metis
qed

theorem refused_create_revokes_nothing_witness:
  "fst (create ex_env (\<lambda>_. False) (Some (ex_token CHR ''B'')) (ex_other False) ex_activated) = Inl ErrTargetReserved
   \<and> (ex_digest CHR ''C'', ex_session) \<in> set (pv_active (snd (create ex_env (\<lambda>_. False) (Some (ex_token CHR ''B'')) (ex_other False) ex_activated)))"
proof -
  obtain s' where c: "create ex_env (\<lambda>_. False) (Some (ex_token CHR ''B'')) (ex_other False) ex_activated = (Inl ErrTargetReserved, s')"
    by (simp add: ex_create_more reserve_def Let_def ex_keys)
  then show ?thesis
    using refused_create_revokes_nothing [OF ex_activated_reach c, of "ex_digest CHR ''C''" ex_session]
    by (simp add: ex_activated_def ex_session_def session_for_def context_ended_def minute_def)
qed

text \<open>The number of sessions and remembered ends together only shrinks in an expiry.\<close>

lemma remember_ended_adds_one: "length (pv_ended (remember_ended ev k r now x s)) \<le> Suc (length (pv_ended s))"
proof -
  have "length (AList.delete q (AList.update k v (pv_ended s))) \<le> Suc (length (pv_ended s))" for q v
    using length_delete_le [of q "AList.update k v (pv_ended s)"] length_update_le [of k v "pv_ended s"] by simp
  then show ?thesis by (simp add: remember_ended_def Let_def length_update_le)
qed

lemma expire_active_total:
  assumes "set xs \<subseteq> set (pv_active s)" and "distinct (map fst xs)"
  shows "length (pv_ended (fold (expire_active ev gone now) xs s)) + length (pv_active (fold (expire_active ev gone now) xs s))
       \<le> length (pv_ended s) + length (pv_active s)"
  using assms
proof (induction xs arbitrary: s)
  case (Cons x xs)
  let ?s = "expire_active ev gone now x s"
  have "length (AList.delete (fst x) (pv_active s)) < length (pv_active s)"
    using Cons.prems(1) by (intro length_delete_less) auto
  then have "length (pv_ended ?s) + length (pv_active ?s) \<le> length (pv_ended s) + length (pv_active s)"
    using remember_ended_adds_one [of ev "fst x" EndExpired now "as_expires (snd x)"
        "drop_reservation True (target (as_input (snd x))) (fst x) (s\<lparr>pv_active := AList.delete (fst x) (pv_active s)\<rparr>)"]
    by (simp add: expire_active_def)
  moreover have "set xs \<subseteq> set (pv_active ?s)"
    using Cons.prems by (auto simp: expire_active_def AList.delete_eq image_iff)
  ultimately show ?case using Cons.IH [of ?s] Cons.prems(2) by simp
qed simp

lemma remove_expired_total:
  assumes "pod_ok s fl"
  shows "length (pv_ended (remove_expired ev gone now s)) + length (pv_active (remove_expired ev gone now s))
       \<le> length (pv_ended s) + length (pv_active s)"
proof (rule remove_expired_parts [of now ev s gone])
  fix s1 s2 s3
  assume s3: "s3 = fold (expire_active ev gone now) (iterate (ev_active_order ev) (pv_active s2)) s2"
    and r: "remove_expired ev gone now s = s3\<lparr>pv_ended := filter (\<lambda>x. now < en_expires (snd x)) (pv_ended s3)\<rparr>"
    and s2: "pv_active s2 = pv_active s" "pv_ended s2 = pv_ended s"
  have "length (pv_ended s3) + length (pv_active s3) \<le> length (pv_ended s2) + length (pv_active s2)"
    unfolding s3 using iterate_keys [OF pod_okD(2) [OF assms], of "ev_active_order ev"] s2
    by (intro expire_active_total) simp_all
  moreover have "length (filter (\<lambda>x. now < en_expires (snd x)) (pv_ended s3)) \<le> length (pv_ended s3)"
    by (rule length_filter_le)
  ultimately show ?thesis unfolding r using s2 by (simp del: length_filter_le)
qed

text \<open>
  A replaced session answers that it was replaced. When a creation that is not a replay takes over
  a Pod with a live session, the cookie of that session stops resolving at once, and as long as the
  table of ends had room its holder is told why.
\<close>

theorem replaced_session_is_refused:
  assumes reach: "pod_reach ev (s, fl)" and c: "create ev gone random i s = (Inr t, s')"
    and a: "(k, a) \<in> set (pv_active s)" "target (as_input a) = target i" "ci_now i < as_expires a" "\<not> context_ended gone s a"
    and new: "map_of (pv_idempotency s) (idempotency_key_of i) = None"
    and room: "int (length (pv_ended s) + length (pv_active s)) \<le> pc_max_active (ev_config ev)"
    and cookie: "valid_opaque_token token" "ev_sha256 ev token = k"
    and later: "now < as_expires a" "now < ci_now i + pc_max_session_ttl (ev_config ev)"
  shows "resolve ev gone' token now s' = (Inl ErrAccessReplaced, s')"
proof -
  let ?s = "remove_expired ev gone (ci_now i) s"
  have ok: "pod_ok s fl" using pod_reach_ok [OF reach] by simp
  note live = live_session_kept [OF ok a(1,3,4), of ev]
  obtain r where r: "pv_reservations ?s (target i) = Some r" "rv_active r" "rv_key r = k" using live(2) a(2) by auto
  have act: "map_of (pv_active ?s) k = Some a"
    using map_of_is_SomeI [OF pod_okD(2) [OF remove_expired_ok [OF ok]] live(1)] .
  have fresh: "map_of (pv_idempotency ?s) (idempotency_key_of i) = None"
    using new by (auto simp: remove_expired_idempotency map_of_eq_None_iff)
  have space: "int (length (pv_ended ?s)) < pc_max_active (ev_config ev)"
    using remove_expired_total [OF ok, of ev gone "ci_now i"] live(1) room by (cases "pv_active ?s") auto
  let ?e = "\<lparr>en_reason = EndReplaced, en_at = ci_now i,
      en_expires = (if ci_now i + pc_max_session_ttl (ev_config ev) < as_expires a
                    then ci_now i + pc_max_session_ttl (ev_config ev) else as_expires a)\<rparr>"
  have fits: "int (length (AList.update k ?e (pv_ended ?s))) \<le> pc_max_active (ev_config ev)"
    using length_update_le [of k ?e "pv_ended ?s"] space by simp
  obtain d tk where "reserve ev i d tk ?s = (Inr t, s')" using c by (auto simp: create_def split: if_splits sum.splits)
  then obtain b s2 where s2: "remove_reservation ev (target i) r (ci_now i) EndReplaced ?s = (b, s2)"
    and s': "s' = close_replaced b (insert_pending ev i d tk s2)"
    using r(1) fresh by (auto simp: reserve_def Let_def split: if_splits prod.splits)
  have "pv_active s2 = AList.delete k (pv_active ?s)" "map_of (pv_ended s2) k = Some ?e"
    using s2 r act fits by (auto simp: remove_reservation_def Let_def remember_ended_def update_conv')
  then have "map_of (pv_active s') k = None" "map_of (pv_ended s') k = Some ?e"
    by (simp_all add: s' insert_pending_lengths delete_conv')
  then show ?thesis using cookie later by (simp add: resolve_def end_error_def)
qed

theorem replaced_session_is_refused_witness:
  "resolve ex_env (\<lambda>_. False) (ex_digest CHR ''C'') 3
     (snd (create ex_env (\<lambda>_. False) (Some (ex_token CHR ''B'')) (ex_other True) ex_activated))
   = (Inl ErrAccessReplaced, snd (create ex_env (\<lambda>_. False) (Some (ex_token CHR ''B'')) (ex_other True) ex_activated))"
proof -
  obtain t s' where c: "create ex_env (\<lambda>_. False) (Some (ex_token CHR ''B'')) (ex_other True) ex_activated = (Inr t, s')"
    by (simp add: ex_create_more reserve_def Let_def ex_keys counts_after_release_def remove_reservation_def)
  show ?thesis unfolding c snd_conv
    by (rule replaced_session_is_refused [OF ex_activated_reach c, of "ex_digest CHR ''C''" ex_session])
      (simp_all add: ex_activated_def ex_session_def session_for_def context_ended_def minute_def hour_def ex_keys)
qed

subsection \<open>Activation\<close>

text \<open>
  Activation checks again. A cookie is handed out only when, at that moment, the login session of
  the user who asked still authenticates as that user and the user may forward ports in the cluster's
  project.
\<close>

theorem activation_needs_permission:
  assumes "activate ev gone token now ar s = (Inr (cookie, a), s')"
  shows "ev_authenticate ev (ci_auth_token (as_input a)) now = Inr (ci_user (as_input a), ci_auth_session (as_input a))
     \<and> (\<exists>r. st_cluster_scope (ev_store ev) (ci_cluster (as_input a)) = Inr r
           \<and> holds (ev_store ev) (ci_user (as_input a)) ''cluster.pod.port_forward''
               (project_scope (resolved_tenant r) (resolved_project r)))"
proof -
  obtain p s1 where p: "activate_take ev gone (ev_sha256 ev token) now s = (Some p, s1)"
    and chk: "activate_check ev p now ar = Inr (cookie, a)"
    using assms by (auto simp: activate_def activate_commit_def Let_def split: prod.splits option.splits sum.splits if_splits)
  note c = activate_check_session [OF chk]
  then obtain r where "fst (authorize_cluster (ev_store ev) None (ci_user (as_input a)) ''cluster.pod.port_forward'' (ci_cluster (as_input a))) = Inr r"
    and "ev_authenticate ev (ci_auth_token (as_input a)) now = Inr (ci_user (as_input a), ci_auth_session (as_input a))"
    by (auto simp: revalidate_def split: sum.splits if_splits prod.splits)
  then show ?thesis using coherent_fresh by (auto simp: authorize_cluster_iff authorize_resolved_cluster_iff)
qed

theorem activation_needs_permission_witness:
  "\<exists>r. st_cluster_scope (ev_store ex_env) ex_cluster = Inr r
     \<and> holds (ev_store ex_env) ex_user ''cluster.pod.port_forward'' (project_scope (resolved_tenant r) (resolved_project r))"
  using activation_needs_permission [OF ex_activate] by (simp add: ex_session_def session_for_def ex_ask_pod_def)

text \<open>
  A capacity failure leaves a dead ticket. When an activation fails because too many sessions are
  active, the ticket is spent but its idempotency record stays: until the ticket expires, repeating the
  creation answers the same address, and opening that address finds no activation.
\<close>

theorem capacity_failure_leaves_dead_ticket:
  assumes c: "create ev gone random i s = (Inr t, s1)"
    and full: "activate ev gone token now ar s1 = (Inl ErrCapacity, s2)" and early: "now < tk_expires t"
    and again: "is_uuid request" "now' \<noteq> zero_time" "now' < tk_expires t"
  shows "\<exists>s3. create ev gone' (Some v) (i\<lparr>ci_request := request, ci_now := now'\<rparr>) s2 = (Inr t, s3)
           \<and> fst (activate ev gone'' token now'' ar' s3) = Inl ErrActivationNotFound"
proof -
  let ?d = "ev_sha256 ev token"
  obtain p sa c where p: "activate_take ev gone ?d now s1 = (Some p, sa)" "activate_check ev p now ar = Inr c"
    and com: "activate_commit ev gone p ?d c now sa = (Inl ErrCapacity, s2)"
    using full by (auto simp: activate_def activate_check_def revalidate_def split: prod.splits option.splits sum.splits if_splits)
  have s2: "pv_pending s2 = pv_pending (remove_expired ev gone now sa)"
      "pv_idempotency s2 = pv_idempotency (remove_expired ev gone now sa)"
    using com by (cases rule: activate_commit_outcome [of ev gone p ?d c now sa]; auto)+
  have sa: "pv_pending sa = AList.delete ?d (pv_pending (remove_expired ev gone now s1))"
      "pv_idempotency sa = pv_idempotency (remove_expired ev gone now s1)"
    using p(1) by (auto simp: activate_take_def Let_def split: option.splits)
  have rec: "map_of (pv_idempotency s2) (idempotency_key_of i) = Some \<lparr>ir_fingerprint = create_fingerprint ev i, ir_ticket = t\<rparr>"
    unfolding s2(2) by (rule idempotency_kept) (simp_all add: sa(2) early idempotency_kept [OF create_records(1) [OF c]])
  note redo = create_again [OF rec create_records(2-4) [OF c] again, of gone' v]
  have "?d \<notin> fst ` set (pv_pending sa)" by (auto simp: sa(1) AList.delete_eq)
  then have "?d \<notin> fst ` set (pv_pending s2)" unfolding s2(1) by (rule shrinks_keys(1) [OF remove_expired_shrinks])
  then have "?d \<notin> fst ` set (pv_pending (remove_expired ev gone'' now'' (remove_expired ev gone' now' s2)))"
    by (intro shrinks_keys(1) [OF remove_expired_shrinks])
  then have "map_of (pv_pending (remove_expired ev gone'' now'' (remove_expired ev gone' now' s2))) ?d = None"
    by (simp add: map_of_eq_None_iff)
  then have "fst (activate ev gone'' token now'' ar' (remove_expired ev gone' now' s2)) = Inl ErrActivationNotFound"
    by (simp add: activate_def activate_take_def Let_def)
  with redo show ?thesis by blast
qed

theorem capacity_failure_leaves_dead_ticket_witness:
  "\<exists>s2 t s3. create ex_env (\<lambda>_. False) (Some (ex_token CHR ''D'')) (ex_second\<lparr>ci_request := ex_user, ci_now := 5\<rparr>) s2 = (Inr t, s3)
     \<and> fst (activate ex_env (\<lambda>_. False) (ex_digest CHR ''B'') 6 ex_random s3) = Inl ErrActivationNotFound"
proof -
  let ?t = "ticket_for ex_env ex_second (ex_digest CHR ''B'')"
  define s1 where "s1 = insert_pending ex_env ex_second (ex_digest CHR ''B'') ?t ex_activated"
  have c: "create ex_env (\<lambda>_. False) (Some (ex_token CHR ''B'')) ex_second ex_activated = (Inr ?t, s1)"
    by (simp add: ex_create_more reserve_def Let_def s1_def ex_keys counts_after_release_def)
  define p where "p = \<lparr>pe_input = ex_second, pe_expires = tk_expires ?t\<rparr>"
  note live = ex_ticket_def ticket_for_def ex_session_def session_for_def minute_def second_def context_ended_def
  have "remove_expired ex_env (\<lambda>_. False) 3 s1 = s1"
    by (rule nothing_expired) (simp_all add: s1_def insert_pending_def ex_keys live)
  then have take: "activate_take ex_env (\<lambda>_. False) (ex_digest CHR ''B'') 3 s1 = (Some p, s1\<lparr>pv_pending := []\<rparr>)"
    by (simp add: activate_take_def s1_def insert_pending_def p_def)
  have still: "remove_expired ex_env (\<lambda>_. False) 3 (s1\<lparr>pv_pending := []\<rparr>) = s1\<lparr>pv_pending := []\<rparr>"
    by (rule nothing_expired) (simp_all add: s1_def insert_pending_def ex_keys live)
  have res: "pv_reservations s1 (target ex_second)
      = Some \<lparr>rv_key = ex_digest CHR ''B'', rv_idempotency = idempotency_key_of ex_second, rv_active = False\<rparr>"
    and len: "length (pv_active s1) = 1" by (simp_all add: s1_def insert_pending_def)
  obtain d where chk: "activate_check ex_env p 3 ex_random = Inr d"
    by (simp add: activate_check_def p_def ex_random_def ex_revalidate ex_uuid second_def new_opaque_token_def ticket_for_def
        ex_second_def)
  obtain s2 where "activate_commit ex_env (\<lambda>_. False) p (ex_digest CHR ''B'') d 3 (s1\<lparr>pv_pending := []\<rparr>) = (Inl ErrCapacity, s2)"
    by (simp add: activate_commit_def Let_def still p_def res len)
  then have "activate ex_env (\<lambda>_. False) (ex_digest CHR ''B'') 3 ex_random s1 = (Inl ErrCapacity, s2)"
    by (simp add: activate_def take chk)
  from capacity_failure_leaves_dead_ticket [OF c this _ ex_ids_uuid(1), of 5 "\<lambda>_. False" "ex_token CHR ''D''"
      "\<lambda>_. False" 6 ex_random]
  have "\<exists>s3. create ex_env (\<lambda>_. False) (Some (ex_token CHR ''D'')) (ex_second\<lparr>ci_request := ex_user, ci_now := 5\<rparr>) s2 = (Inr ?t, s3)
     \<and> fst (activate ex_env (\<lambda>_. False) (ex_digest CHR ''B'') 6 ex_random s3) = Inl ErrActivationNotFound"
    by (simp add: ticket_for_def second_def zero_time_def)
  then show ?thesis by blast
qed

subsection \<open>The activation page and the byte counters\<close>

text \<open>
  Reading the page changes nothing. A GET of an activation address by a browser whose session is
  live answers the replacement page, neither ending the session nor spending the ticket.
\<close>

theorem get_keeps_session:
  assumes "resolve ev gone cookie now s = (Inr a, s1)" and "valid_opaque_token token"
  shows "serve_activation ev gone ''GET'' (activation_path_prefix @ token) cookie now r s = (ReplacementRequired, s)"
proof -
  have "s1 = s" "cookie \<noteq> []"
    using assms(1) by (auto simp: resolve_def Let_def valid_opaque_token_def raw_url_decode_def opaque_token_bytes_def
        split: if_splits option.splits)
  then show ?thesis using assms by (simp add: serve_activation_def)
qed

theorem get_keeps_session_witness:
  "serve_activation ex_env (\<lambda>_. False) ''GET'' (activation_path_prefix @ ex_digest CHR ''B'') (ex_digest CHR ''C'') 2 ex_random ex_activated
     = (ReplacementRequired, ex_activated)"
proof -
  have "resolve ex_env (\<lambda>_. False) (ex_digest CHR ''C'') 2 ex_activated = (Inr ex_session, ex_activated)"
    by (simp add: resolve_def Let_def) (simp add: ex_session_def session_for_def context_ended_def minute_def)
  then show ?thesis by (rule get_keeps_session) simp
qed

text \<open>The calls of one counter, in the order their compare-and-swap succeeds.\<close>

fun count_bytes :: "64 word \<Rightarrow> 64 word \<Rightarrow> 64 word list \<Rightarrow> bool list \<times> 64 word" where
  "count_bytes maximum c [] = ([], c)"
| "count_bytes maximum c (n # ns) =
     (case exceeds_limit c n maximum of (over, c') \<Rightarrow>
        (case count_bytes maximum c' ns of (overs, c'') \<Rightarrow> (over # overs, c'')))"

definition passed :: "64 word list \<Rightarrow> bool list \<Rightarrow> nat" where
  "passed ns overs = sum_list (map (\<lambda>(n, over). if over then 0 else unat n) (zip ns overs))"

lemma exceeds_limit_exact:
  assumes "c \<le> maximum" and "exceeds_limit c n maximum = (over, c')"
  shows "unat c' = unat c + (if over then 0 else unat n)" "c' \<le> maximum"
proof -
  have d: "unat (maximum - c) = unat maximum - unat c" using assms(1) by (rule unat_sub)
  have le: "unat c \<le> unat maximum" using assms(1) by (simp add: word_le_nat_alt)
  have ex: "unat (c + n) = unat c + unat n" if "\<not> maximum - c < n"
  proof -
    have "unat c + unat n \<le> unat maximum" using that d le by (simp add: word_less_nat_alt)
    moreover have "unat maximum < 2 ^ LENGTH(64)" by (rule unsigned_less)
    ultimately have "unat c + unat n < 2 ^ LENGTH(64)" by simp
    then show ?thesis by (simp add: unat_word_ariths)
  qed
  show "unat c' = unat c + (if over then 0 else unat n)" using assms(2) ex by (auto simp: exceeds_limit_def split: if_splits)
  show "c' \<le> maximum"
    using assms ex d le by (auto simp: exceeds_limit_def word_le_nat_alt word_less_nat_alt split: if_splits)
qed

text \<open>
  The byte counter counts. Whatever amounts arrive, the counter is the sum of those that were let
  through, without wrapping round, and never passes the maximum.
\<close>

theorem byte_counter_exact:
  assumes "c \<le> maximum"
  shows "unat (snd (count_bytes maximum c ns)) = unat c + passed ns (fst (count_bytes maximum c ns))
         \<and> snd (count_bytes maximum c ns) \<le> maximum"
  using assms
proof (induction ns arbitrary: c)
  case Nil
  then show ?case by (simp add: passed_def)
next
  case (Cons n ns)
  obtain over c' where e: "exceeds_limit c n maximum = (over, c')" by (cases "exceeds_limit c n maximum")
  note x = exceeds_limit_exact [OF Cons.prems e]
  obtain overs c'' where r: "count_bytes maximum c' ns = (overs, c'')" by (cases "count_bytes maximum c' ns")
  show ?case using Cons.IH [OF x(2)] x(1) e r by (simp add: passed_def)
qed

theorem byte_counter_exact_witness:
  "unat (snd (count_bytes 10 0 [4, 8, 6])) = 0 + passed [4, 8, 6] (fst (count_bytes 10 0 [4, 8, 6]))
     \<and> snd (count_bytes 10 0 [4, 8, 6]) \<le> 10"
  using byte_counter_exact [of 0 10 "[4, 8, 6]"] by simp

end
