(* ===== verification/AgentFrames.thy ===== *)
theory AgentFrames
  imports Prelude "HOL-Library.Word"
begin

section \<open>Frames of the Agent protocol\<close>

text \<open>
  \<open>pkg/shared/agentprotocol/frame.go\<close>: a message travels as four bytes of big-endian length and its
  protobuf encoding. The generated encoder and decoder are arguments. A reader is the list of bytes
  that will arrive and how the stream ends; a writer is a function from its state and the data to how
  much it took, an error or not, and its next state.
\<close>

type_synonym byte = "8 word"

datatype frame_error =
    ErrEmptyFrame | ErrFrameTooLarge | MarshalFailed string | UnmarshalFailed string
  | ReadFailed string | WriteFailed string

definition max_frame_size :: nat where "max_frame_size = 65536"

subsection \<open>Reading and writing bytes\<close>

text \<open>\<open>binary.BigEndian\<close>.\<close>

definition put_uint32 :: "32 word \<Rightarrow> byte list" where
  "put_uint32 v = [ucast (drop_bit 24 v), ucast (drop_bit 16 v), ucast (drop_bit 8 v), ucast v]"

fun get_uint32 :: "byte list \<Rightarrow> 32 word" where
  "get_uint32 [a, b, c, d] =
     or (ucast d) (or (push_bit 8 (ucast c)) (or (push_bit 16 (ucast b)) (push_bit 24 (ucast a))))"
| "get_uint32 _ = 0"

record byte_reader =
  br_bytes :: "byte list"
  br_end :: string

text \<open>\<open>io.ReadFull\<close>: all or an error; what was there is consumed either way.\<close>

definition read_full :: "nat \<Rightarrow> byte_reader \<Rightarrow> (string + byte list) \<times> byte_reader" where
  "read_full n r =
     (if n \<le> length (br_bytes r) then (Inr (take n (br_bytes r)), r\<lparr>br_bytes := drop n (br_bytes r)\<rparr>)
      else (Inl (if br_bytes r \<noteq> [] \<and> br_end r = ''EOF'' then ''unexpected EOF'' else br_end r), r\<lparr>br_bytes := []\<rparr>))"

type_synonym 'w byte_writer = "'w \<Rightarrow> byte list \<Rightarrow> (nat \<times> string option) \<times> 'w"

function write_all :: "'w byte_writer \<Rightarrow> 'w \<Rightarrow> byte list \<Rightarrow> string option \<times> 'w" where
  "write_all wr w data =
     (if data = [] then (None, w)
      else case wr w data of
             ((_, Some e), w') \<Rightarrow> (Some e, w')
           | ((n, None), w') \<Rightarrow> if n = 0 then (Some ''short write'', w') else write_all wr w' (drop n data))"
  by pat_completeness auto
termination by (relation "measure (\<lambda>(wr, w, data). length data)") auto

declare write_all.simps [simp del]

subsection \<open>Messages\<close>

record 'm codec =
  cd_marshal :: "'m \<Rightarrow> string + byte list"
  cd_unmarshal :: "byte list \<Rightarrow> string + 'm"

text \<open>A nil message is \<open>None\<close>.\<close>

definition write_message :: "'m codec \<Rightarrow> 'w byte_writer \<Rightarrow> 'm option \<Rightarrow> 'w \<Rightarrow> frame_error option \<times> 'w" where
  "write_message cd wr m w =
     (case m of
        None \<Rightarrow> (Some ErrEmptyFrame, w)
      | Some v \<Rightarrow>
          (case cd_marshal cd v of
             Inl e \<Rightarrow> (Some (MarshalFailed e), w)
           | Inr payload \<Rightarrow>
               if payload = [] then (Some ErrEmptyFrame, w)
               else if max_frame_size < length payload then (Some ErrFrameTooLarge, w)
               else case write_all wr w (put_uint32 (of_nat (length payload))) of
                      (Some e, w') \<Rightarrow> (Some (WriteFailed e), w')
                    | (None, w') \<Rightarrow>
                        (case write_all wr w' payload of
                           (Some e, w'') \<Rightarrow> (Some (WriteFailed e), w'')
                         | (None, w'') \<Rightarrow> (None, w''))))"

definition read_message :: "'m codec \<Rightarrow> byte_reader \<Rightarrow> (frame_error + 'm) \<times> byte_reader" where
  "read_message cd r =
     (case read_full 4 r of
        (Inl e, r') \<Rightarrow> (Inl (ReadFailed e), r')
      | (Inr prefix, r') \<Rightarrow>
          (let size = get_uint32 prefix in
           if size = 0 then (Inl ErrEmptyFrame, r')
           else if of_nat max_frame_size < size then (Inl ErrFrameTooLarge, r')
           else case read_full (unat size) r' of
                  (Inl e, r'') \<Rightarrow> (Inl (ReadFailed e), r'')
                | (Inr payload, r'') \<Rightarrow>
                    (case cd_unmarshal cd payload of
                       Inl e \<Rightarrow> (Inl (UnmarshalFailed e), r'') | Inr m \<Rightarrow> (Inr m, r''))))"

text \<open>A control frame must hold a message; \<open>filled\<close> says whether the oneof is set.\<close>

definition write_frame ::
    "('m \<Rightarrow> bool) \<Rightarrow> 'm codec \<Rightarrow> 'w byte_writer \<Rightarrow> 'm option \<Rightarrow> 'w \<Rightarrow> frame_error option \<times> 'w" where
  "write_frame filled cd wr m w =
     (case m of None \<Rightarrow> (Some ErrEmptyFrame, w)
      | Some v \<Rightarrow> if \<not> filled v then (Some ErrEmptyFrame, w) else write_message cd wr (Some v) w)"

definition read_frame :: "('m \<Rightarrow> bool) \<Rightarrow> 'm codec \<Rightarrow> byte_reader \<Rightarrow> (frame_error + 'm) \<times> byte_reader" where
  "read_frame filled cd r =
     (case read_message cd r of
        (Inl e, r') \<Rightarrow> (Inl e, r')
      | (Inr v, r') \<Rightarrow> if \<not> filled v then (Inl ErrEmptyFrame, r') else (Inr v, r'))"

definition protocol_version :: "32 word" where "protocol_version = 1"

definition go_away_is_permanent :: "string \<Rightarrow> bool" where
  "go_away_is_permanent reason \<longleftrightarrow> reason \<in> {''credential_revoked'', ''agent_revoked'', ''cluster_revoked''}"

subsection \<open>Facts about the parts\<close>

lemma length_put_uint32 [simp]: "length (put_uint32 v) = 4"
  by (simp add: put_uint32_def)

lemma get_put_uint32 [simp]: "get_uint32 (put_uint32 v) = v"
proof -
  have "or (ucast (ucast v :: byte) :: 32 word) (or (push_bit 8 (ucast (ucast (drop_bit 8 v) :: byte)))
      (or (push_bit 16 (ucast (ucast (drop_bit 16 v) :: byte))) (push_bit 24 (ucast (ucast (drop_bit 24 v) :: byte))))) = v"
  proof (rule bit_word_eqI)
    fix n assume "n < LENGTH(32)"
    then consider "n < 8" | "8 \<le> n" "n < 16" | "16 \<le> n" "n < 24" | "24 \<le> n" "n < 32" by fastforce
    then show "bit (or (ucast (ucast v :: byte) :: 32 word) (or (push_bit 8 (ucast (ucast (drop_bit 8 v) :: byte)))
        (or (push_bit 16 (ucast (ucast (drop_bit 16 v) :: byte))) (push_bit 24 (ucast (ucast (drop_bit 24 v) :: byte)))))) n
      \<longleftrightarrow> bit v n"
      by cases (auto simp: bit_simps less_diff_conv2)
  qed
  then show ?thesis by (simp add: put_uint32_def)
qed

lemma read_full_append:
  "n = length b \<Longrightarrow> read_full n (r\<lparr>br_bytes := b @ rest\<rparr>) = (Inr b, r\<lparr>br_bytes := rest\<rparr>)"
  by (simp add: read_full_def)

text \<open>
  What a writer must keep to: it takes a prefix of what it is given, which reaches the other side, and
  never claims more than there was.
\<close>

definition faithful_writer :: "'w byte_writer \<Rightarrow> ('w \<Rightarrow> byte list) \<Rightarrow> bool" where
  "faithful_writer wr sent \<longleftrightarrow>
     (\<forall>w d n e w'. wr w d = ((n, e), w') \<longrightarrow> n \<le> length d \<and> sent w' = sent w @ take n d)"

lemma write_all_sends:
  assumes f: "faithful_writer wr sent"
  shows "write_all wr w data = (e, w') \<Longrightarrow>
    \<exists>k \<le> length data. sent w' = sent w @ take k data \<and> (e = None \<longrightarrow> k = length data)"
proof (induction "length data" arbitrary: w data rule: less_induct)
  case less
  show ?case
  proof (cases "data = []")
    case True
    then show ?thesis using less.prems by (simp add: write_all.simps)
  next
    case False
    obtain n er w1 where w: "wr w data = ((n, er), w1)" by (metis prod.collapse)
    then have c: "n \<le> length data" "sent w1 = sent w @ take n data" using f unfolding faithful_writer_def by blast+
    show ?thesis
    proof (cases "er = None \<and> n \<noteq> 0")
      case True
      then have r: "write_all wr w1 (drop n data) = (e, w')"
        using less.prems False w by (simp add: write_all.simps [of wr w])
      have "length (drop n data) < length data" using True False by simp
      from less.hyps [OF this r] obtain k where k: "k \<le> length data - n" "sent w' = sent w1 @ take k (drop n data)"
        "e = None \<longrightarrow> k = length data - n" by auto
      have "sent w' = sent w @ take (n + k) data" using k(2) c(2) by (simp add: take_add)
      then show ?thesis using k(1,3) c(1) by (intro exI [of _ "n + k"]) auto
    next
      case stop: False
      then have "e \<noteq> None" "w' = w1"
        using less.prems False w by (auto simp: write_all.simps [of wr w] split: option.splits if_splits)
      then show ?thesis using c by auto
    qed
  qed
qed

definition framed :: "byte list \<Rightarrow> byte list" where
  "framed p = put_uint32 (of_nat (length p)) @ p"

lemma write_message_sends:
  assumes f: "faithful_writer wr sent" and w: "write_message cd wr m w = (None, w')"
  obtains v p where "m = Some v" "cd_marshal cd v = Inr p" "p \<noteq> []" "length p \<le> max_frame_size"
    "sent w' = sent w @ framed p"
proof -
  obtain v p where v: "m = Some v" "cd_marshal cd v = Inr p" "p \<noteq> []" "length p \<le> max_frame_size"
    using w by (auto simp: write_message_def split: option.splits sum.splits if_splits)
  obtain w1 where w1: "write_all wr w (put_uint32 (of_nat (length p))) = (None, w1)" "write_all wr w1 p = (None, w')"
    using w v by (auto simp: write_message_def split: option.splits prod.splits)
  have "sent w1 = sent w @ put_uint32 (of_nat (length p))" using write_all_sends [OF f w1(1)] by auto
  moreover have "sent w' = sent w1 @ p" using write_all_sends [OF f w1(2)] by auto
  ultimately show thesis using that [OF v] by (simp add: framed_def)
qed

lemma length_prefix:
  assumes "p \<noteq> []" and "length p \<le> max_frame_size"
  shows "of_nat (length p) \<noteq> (0 :: 32 word)" "\<not> of_nat max_frame_size < (of_nat (length p) :: 32 word)"
    "unat (of_nat (length p) :: 32 word) = length p"
proof -
  have l: "0 < length p" "length p < 2 ^ 32" using assms by (simp_all add: max_frame_size_def)
  then show u: "unat (of_nat (length p) :: 32 word) = length p" by (simp add: unat_of_nat take_bit_nat_eq_self)
  then show "of_nat (length p) \<noteq> (0 :: 32 word)" using l(1) by (metis less_not_refl unat_0)
  show "\<not> of_nat max_frame_size < (of_nat (length p) :: 32 word)"
    using assms(2) u by (simp add: word_less_nat_alt max_frame_size_def)
qed

lemma read_message_framed:
  assumes "p \<noteq> []" and "length p \<le> max_frame_size" and "cd_unmarshal cd p = Inr v"
  shows "read_message cd (r\<lparr>br_bytes := framed p @ rest\<rparr>) = (Inr v, r\<lparr>br_bytes := rest\<rparr>)"
  using length_prefix [OF assms(1,2)] assms(3)
  by (simp add: read_message_def framed_def Let_def read_full_append)

fun write_messages :: "'m codec \<Rightarrow> 'w byte_writer \<Rightarrow> 'm list \<Rightarrow> 'w \<Rightarrow> frame_error option \<times> 'w" where
  "write_messages cd wr [] w = (None, w)"
| "write_messages cd wr (m # ms) w =
     (case write_message cd wr (Some m) w of
        (Some e, w') \<Rightarrow> (Some e, w') | (None, w') \<Rightarrow> write_messages cd wr ms w')"

fun read_messages :: "'m codec \<Rightarrow> nat \<Rightarrow> byte_reader \<Rightarrow> (frame_error + 'm list) \<times> byte_reader" where
  "read_messages cd 0 r = (Inr [], r)"
| "read_messages cd (Suc n) r =
     (case read_message cd r of
        (Inl e, r') \<Rightarrow> (Inl e, r')
      | (Inr m, r') \<Rightarrow>
          (case read_messages cd n r' of (Inl e, r'') \<Rightarrow> (Inl e, r'') | (Inr ms, r'') \<Rightarrow> (Inr (m # ms), r'')))"

text \<open>
  C25: what is written is read. Messages written one after the other to a writer that may take them in
  pieces of any size are read back in order, and the reader stops exactly at the end of the last one.
\<close>

theorem frames_roundtrip:
  assumes f: "faithful_writer wr sent" and ms: "\<forall>m \<in> set ms. \<forall>p. cd_marshal cd m = Inr p \<longrightarrow> cd_unmarshal cd p = Inr m"
    and w: "write_messages cd wr ms w = (None, w')"
  shows "\<exists>b. sent w' = sent w @ b
           \<and> (\<forall>(r :: byte_reader) rest. read_messages cd (length ms) (r\<lparr>br_bytes := b @ rest\<rparr>) = (Inr ms, r\<lparr>br_bytes := rest\<rparr>))"
  using ms w
proof (induction ms arbitrary: w)
  case Nil
  then show ?case by auto
next
  case (Cons m ms)
  obtain w1 where w1: "write_message cd wr (Some m) w = (None, w1)" "write_messages cd wr ms w1 = (None, w')"
    using Cons.prems(2) by (auto split: prod.splits option.splits)
  obtain p where p: "cd_marshal cd m = Inr p" "p \<noteq> []" "length p \<le> max_frame_size" "sent w1 = sent w @ framed p"
    using write_message_sends [OF f w1(1)] by auto
  have u: "cd_unmarshal cd p = Inr m" using Cons.prems(1) p(1) by auto
  obtain b where b: "sent w' = sent w1 @ b"
    "\<forall>r rest. read_messages cd (length ms) (r\<lparr>br_bytes := b @ rest\<rparr>) = (Inr ms, r\<lparr>br_bytes := rest\<rparr>)"
    using Cons.IH [OF _ w1(2)] Cons.prems(1) by auto
  have "read_messages cd (length (m # ms)) (r\<lparr>br_bytes := (framed p @ b) @ rest\<rparr>) = (Inr (m # ms), r\<lparr>br_bytes := rest\<rparr>)"
    for r :: byte_reader and rest
    using b(2) read_message_framed [OF p(2,3) u, where r = r and rest = "b @ rest"] by simp
  then show ?case using b(1) p(4) by (intro exI [of _ "framed p @ b"]) simp
qed

text \<open>The example of the witness: messages are byte strings, and the writer takes three bytes at a time.\<close>

definition ex_codec :: "byte list codec" where
  "ex_codec = \<lparr>cd_marshal = Inr, cd_unmarshal = Inr\<rparr>"

definition ex_writer :: "byte list byte_writer" where
  "ex_writer w d = ((min 3 (length d), None), w @ take 3 d)"

lemma ex_writer_faithful: "faithful_writer ex_writer (\<lambda>w. w)"
  by (auto simp: faithful_writer_def ex_writer_def min_def)

theorem frames_roundtrip_witness:
  "\<exists>b. snd (write_messages ex_codec ex_writer [[1, 2, 3, 4], [5]] []) = [] @ b
     \<and> (\<forall>(r :: byte_reader) rest. read_messages ex_codec 2 (r\<lparr>br_bytes := b @ rest\<rparr>) = (Inr [[1, 2, 3, 4], [5]], r\<lparr>br_bytes := rest\<rparr>))"
proof -
  have "fst (write_messages ex_codec ex_writer [[1, 2, 3, 4], [5]] []) = None"
    by (simp add: write_message_def ex_codec_def ex_writer_def write_all.simps max_frame_size_def put_uint32_def)
  then have w: "write_messages ex_codec ex_writer [[1, 2, 3, 4], [5]] []
      = (None, snd (write_messages ex_codec ex_writer [[1, 2, 3, 4], [5]] []))"
    by (simp only: prod_eq_iff fst_conv snd_conv)
  have ms: "\<forall>m \<in> set [[1, 2, 3, 4], [5]]. \<forall>p. cd_marshal ex_codec m = Inr p \<longrightarrow> cd_unmarshal ex_codec p = Inr m"
    by (simp add: ex_codec_def)
  have "length [[1, 2, 3, 4], [5] :: byte list] = 2" by simp
  with frames_roundtrip [OF ex_writer_faithful ms w] show ?thesis by (simp only:)
qed

text \<open>
  A cut frame is no message. Reading any strict prefix of a frame fails, wherever the stream ended,
  so a lost connection cannot turn into a shorter message.
\<close>

theorem truncated_frame_refused:
  assumes "p \<noteq> []" and "length p \<le> max_frame_size" and "k < length (framed p)"
  shows "\<exists>e. fst (read_message cd \<lparr>br_bytes = take k (framed p), br_end = why\<rparr>) = Inl (ReadFailed e)"
proof (cases "k < 4")
  case True
  then show ?thesis by (simp add: read_message_def read_full_def framed_def)
next
  case False
  then have "take k (framed p) = put_uint32 (of_nat (length p)) @ take (k - 4) p" "k - 4 < length p"
    using assms(3) by (simp_all add: framed_def)
  then show ?thesis
    using length_prefix [OF assms(1,2)] False
    by (simp add: read_message_def Let_def) (simp add: read_full_def)
qed

theorem truncated_frame_refused_witness:
  "\<exists>e. fst (read_message ex_codec \<lparr>br_bytes = take 6 (framed [1, 2, 3]), br_end = ''EOF''\<rparr>) = Inl (ReadFailed e)"
  by (rule truncated_frame_refused) (simp_all add: framed_def max_frame_size_def)

text \<open>
  A frame costs at most its bound. Whatever the other side sends, reading one message takes no more
  than the prefix and \<open>MaxFrameSize\<close> bytes, and an announced length past the bound is refused before
  any of it is read.
\<close>

theorem read_message_bounded:
  "length (br_bytes r) \<le> length (br_bytes (snd (read_message cd r))) + 4 + max_frame_size"
proof (cases "length (br_bytes r) < 4")
  case True
  then show ?thesis by simp
next
  case False
  then obtain b rest where r: "br_bytes r = b @ rest" "length b = 4"
    by (metis append_take_drop_id length_take min.absorb2 not_less)
  have one: "read_full 4 r = (Inr b, r\<lparr>br_bytes := rest\<rparr>)" using r by (simp add: read_full_def)
  have "unat (get_uint32 b) \<le> max_frame_size" if "\<not> of_nat max_frame_size < get_uint32 b"
    using that by (simp add: word_less_nat_alt max_frame_size_def)
  then have "length rest \<le> length (br_bytes (snd (read_message cd r))) + max_frame_size"
    using one by (auto simp: read_message_def Let_def read_full_def split: sum.splits)
  then show ?thesis using r by simp
qed

end
