(* ===== verification/AgentStreams.thy ===== *)
theory AgentStreams
  imports AgentFrames Validation "HOL-Library.Multiset"
begin

section \<open>Business streams of the Agent protocol\<close>

text \<open>
  \<open>pkg/shared/agentprotocol/stream.go\<close>: an incoming stream is read up to its header, checked, admitted
  against the concurrency of its kind, given a deadline and handed to a handler whose error decides the
  code the stream is aborted with. \<open>pkg/shared/agentprotocol/compression.go\<close>: how a response body
  travels. The QUIC stream, the handlers and gzip are arguments.
\<close>

datatype stream_code =
  StreamErrorProtocol | StreamErrorUnsupported | StreamErrorResourceExhausted | StreamErrorCanceled
| StreamErrorTimeout | StreamErrorInternal | StreamErrorBodyTooLarge

definition default_header_timeout :: duration where "default_header_timeout = 5 * second"
definition default_max_timeout :: duration where "default_max_timeout = 2 * minute"
definition max_idempotency_key_length :: nat where "max_idempotency_key_length = 256"
definition kind_unspecified :: int where "kind_unspecified = 0"

subsection \<open>Configuration\<close>

record handler_config =
  hc_nil :: bool
  hc_max_concurrent :: int
  hc_max_timeout :: duration

record stream_server_config =
  sc_header_timeout :: duration
  sc_max_timeout :: duration
  sc_handlers :: "(int \<times> handler_config) list"

record stream_handler =
  sh_capacity :: int
  sh_max_timeout :: duration

record stream_server =
  ss_header_timeout :: duration
  ss_max_timeout :: duration
  ss_handlers :: "(int \<times> stream_handler) list"

datatype config_error =
  HeaderTimeoutTooLong | KindUnspecified | HandlerNil int | ConcurrencyNotPositive int
| HandlerTimeoutTooLong int | HandlerHeaderTimeoutTooLong int

definition configure_handler ::
    "duration \<Rightarrow> duration \<Rightarrow> int \<times> handler_config \<Rightarrow> config_error + (int \<times> stream_handler)" where
  "configure_handler header_timeout max_timeout kc =
     (case kc of (kind, c) \<Rightarrow>
        if kind = kind_unspecified then Inl KindUnspecified
        else if hc_nil c then Inl (HandlerNil kind)
        else if hc_max_concurrent c \<le> 0 then Inl (ConcurrencyNotPositive kind)
        else let t = (if hc_max_timeout c \<le> 0 then max_timeout else hc_max_timeout c)
        in if max_timeout < t then Inl (HandlerTimeoutTooLong kind)
        else if t < header_timeout then Inl (HandlerHeaderTimeoutTooLong kind)
        else Inr (kind, \<lparr>sh_capacity = hc_max_concurrent c, sh_max_timeout = t\<rparr>))"

fun configure_handlers ::
    "duration \<Rightarrow> duration \<Rightarrow> (int \<times> handler_config) list \<Rightarrow> config_error + (int \<times> stream_handler) list" where
  "configure_handlers h m [] = Inr []"
| "configure_handlers h m (c # cs) =
     and_then (configure_handler h m c) (\<lambda>x. and_then (configure_handlers h m cs) (\<lambda>xs. Inr (x # xs)))"

text \<open>The handlers are a map; its list order is the order Go's loop meets them in.\<close>

definition new_stream_server :: "stream_server_config \<Rightarrow> config_error + stream_server" where
  "new_stream_server c =
     (let h = (if sc_header_timeout c \<le> 0 then default_header_timeout else sc_header_timeout c);
          m = (if sc_max_timeout c \<le> 0 then default_max_timeout else sc_max_timeout c)
      in if m < h then Inl HeaderTimeoutTooLong
         else and_then (configure_handlers h m (sc_handlers c))
                (\<lambda>hs. Inr \<lparr>ss_header_timeout = h, ss_max_timeout = m, ss_handlers = hs\<rparr>))"

subsection \<open>Headers\<close>

record stream_header =
  hd_version :: "32 word"
  hd_kind :: int
  hd_request :: string
  hd_timeout_millis :: "64 word"
  hd_idempotency :: string

definition max_timeout_millis :: "64 word" where "max_timeout_millis = 9223372036854"

definition validate_stream_header :: "stream_header \<Rightarrow> bool" where
  "validate_stream_header h \<longleftrightarrow>
     hd_version h = protocol_version \<and> hd_kind h \<noteq> kind_unspecified \<and> is_uuid (hd_request h)
     \<and> hd_timeout_millis h \<noteq> 0 \<and> length (hd_idempotency h) \<le> max_idempotency_key_length
     \<and> trim_space (hd_idempotency h) = hd_idempotency h
     \<and> hd_timeout_millis h \<le> max_timeout_millis"

text \<open>\<open>time.Duration(millis) * time.Millisecond\<close>, in 64-bit arithmetic.\<close>

definition requested_timeout :: "stream_header \<Rightarrow> duration" where
  "requested_timeout h = sint (hd_timeout_millis h * 1000000)"

subsection \<open>Serving\<close>

text \<open>Which sentinels \<open>errors.As\<close> and \<open>errors.Is\<close> find in a handler's error, and the state of its context.\<close>

record handler_error =
  he_failure :: "stream_code option"
  he_deadline :: bool
  he_canceled :: bool
  he_body_too_large :: bool
  he_protocol :: bool

datatype context_state = ContextLive | ContextDeadline | ContextCanceled

definition stream_error_code :: "handler_error \<Rightarrow> context_state \<Rightarrow> stream_code" where
  "stream_error_code e c =
     (case he_failure e of
        Some code \<Rightarrow> code
      | None \<Rightarrow>
          if c = ContextDeadline \<or> he_deadline e then StreamErrorTimeout
          else if c = ContextCanceled \<or> he_canceled e then StreamErrorCanceled
          else if he_body_too_large e then StreamErrorBodyTooLarge
          else if he_protocol e then StreamErrorProtocol
          else StreamErrorInternal)"

text \<open>
  \<open>serveStream\<close> in two steps: up to the handler, which takes an admission or aborts, and the handler's
  end, which gives the admission back. \<open>in_use k\<close> counts the admissions of kind \<open>k\<close> taken.
\<close>

datatype stream_start = StreamAborted stream_code | StreamRunning int duration

definition start_stream ::
    "stream_server \<Rightarrow> bool \<Rightarrow> frame_error + stream_header \<Rightarrow> (int \<Rightarrow> int) \<Rightarrow> stream_start \<times> (int \<Rightarrow> int)" where
  "start_stream srv read_deadline_set header in_use =
     (if \<not> read_deadline_set then (StreamAborted StreamErrorInternal, in_use)
      else case header of
        Inl _ \<Rightarrow> (StreamAborted StreamErrorProtocol, in_use)
      | Inr h \<Rightarrow>
          if \<not> validate_stream_header h then (StreamAborted StreamErrorProtocol, in_use)
          else (case map_of (ss_handlers srv) (hd_kind h) of
                  None \<Rightarrow> (StreamAborted StreamErrorUnsupported, in_use)
                | Some c \<Rightarrow>
                    if sh_capacity c \<le> in_use (hd_kind h) then (StreamAborted StreamErrorResourceExhausted, in_use)
                    else (StreamRunning (hd_kind h) (min (requested_timeout h) (sh_max_timeout c)),
                          in_use(hd_kind h := in_use (hd_kind h) + 1))))"

datatype stream_finish = Closed | CloseFailed | AbortedWith stream_code

definition finish_stream ::
    "int \<Rightarrow> bool \<Rightarrow> handler_error option \<Rightarrow> context_state \<Rightarrow> bool \<Rightarrow> (int \<Rightarrow> int) \<Rightarrow> stream_finish \<times> (int \<Rightarrow> int)" where
  "finish_stream kind deadline_set err ctx close_ok in_use =
     ((if \<not> deadline_set then AbortedWith StreamErrorInternal
       else case err of
         Some e \<Rightarrow> AbortedWith (stream_error_code e ctx)
       | None \<Rightarrow>
           if ctx \<noteq> ContextLive
           then AbortedWith (stream_error_code \<lparr>he_failure = None, he_deadline = (ctx = ContextDeadline),
                  he_canceled = (ctx = ContextCanceled), he_body_too_large = False, he_protocol = False\<rparr> ctx)
           else if close_ok then Closed else CloseFailed),
      in_use(kind := in_use kind - 1))"

subsection \<open>Deadlines\<close>

lemma configure_handlers_ok:
  "configure_handlers h m cs = Inr hs \<Longrightarrow> (k, c) \<in> set hs \<Longrightarrow> 0 < sh_capacity c \<and> h \<le> sh_max_timeout c \<and> sh_max_timeout c \<le> m"
proof (induction cs arbitrary: hs)
  case Nil
  then show ?case by simp
next
  case (Cons x cs)
  obtain y ys where y: "configure_handler h m x = Inr y" "configure_handlers h m cs = Inr ys" "hs = y # ys"
    using Cons.prems(1) by (auto simp: and_then_eq_Inr)
  then show ?case
    using Cons.IH [OF y(2)] Cons.prems(2) by (auto simp: configure_handler_def Let_def split: prod.splits if_splits)
qed

lemma requested_timeout_exact:
  assumes "validate_stream_header h"
  shows "requested_timeout h = uint (hd_timeout_millis h) * 1000000" "0 < requested_timeout h"
proof -
  have "hd_timeout_millis h \<noteq> 0" "hd_timeout_millis h \<le> max_timeout_millis"
    using assms by (simp_all add: validate_stream_header_def)
  then have m: "uint (hd_timeout_millis h) \<le> 9223372036854" "0 < uint (hd_timeout_millis h)"
    using uint_0_iff [of "hd_timeout_millis h"] uint_ge_0 [of "hd_timeout_millis h"]
    by (simp_all add: word_le_def max_timeout_millis_def order_le_less)
  have "uint (hd_timeout_millis h * 1000000) = uint (hd_timeout_millis h) * 1000000"
    using m by (subst uint_mult_lem [THEN iffD1]) simp_all
  moreover from this have "sint (hd_timeout_millis h * 1000000) = uint (hd_timeout_millis h * 1000000)"
    using m by (simp add: sint_uint signed_take_bit_int_eq_self)
  ultimately show "requested_timeout h = uint (hd_timeout_millis h) * 1000000" "0 < requested_timeout h"
    using m by (simp_all add: requested_timeout_def)
qed

text \<open>
  Every running stream has a deadline. A stream that a configured server lets run gets a positive
  timeout, no longer than the header asked for - the multiplication of milliseconds does not wrap - and
  no longer than its handler and the server allow.
\<close>

theorem stream_deadline_bounded:
  assumes "new_stream_server c = Inr srv" and "start_stream srv rd (Inr h) in_use = (StreamRunning k t, in_use')"
  shows "0 < t \<and> t \<le> uint (hd_timeout_millis h) * 1000000 \<and> t \<le> ss_max_timeout srv
         \<and> (\<exists>hc. map_of (ss_handlers srv) k = Some hc \<and> t \<le> sh_max_timeout hc \<and> ss_header_timeout srv \<le> sh_max_timeout hc)"
proof -
  obtain hc where hc: "map_of (ss_handlers srv) k = Some hc" "k = hd_kind h" "t = min (requested_timeout h) (sh_max_timeout hc)"
    and v: "validate_stream_header h"
    using assms(2) by (auto simp: start_stream_def split: if_splits option.splits)
  obtain hs where hs: "configure_handlers (ss_header_timeout srv) (ss_max_timeout srv) (sc_handlers c) = Inr hs" "ss_handlers srv = hs"
      "0 < ss_header_timeout srv"
    using assms(1) by (auto simp: new_stream_server_def Let_def and_then_eq_Inr default_header_timeout_def second_def split: if_splits)
  have "ss_header_timeout srv \<le> sh_max_timeout hc \<and> sh_max_timeout hc \<le> ss_max_timeout srv"
    using configure_handlers_ok [OF hs(1)] map_of_SomeD [OF hc(1)] hs(2) by blast
  then show ?thesis using hc requested_timeout_exact [OF v] hs(3) by auto
qed

definition ex_streams :: stream_server_config where
  "ex_streams = \<lparr>sc_header_timeout = 0, sc_max_timeout = 0,
     sc_handlers = [(10, \<lparr>hc_nil = False, hc_max_concurrent = 1, hc_max_timeout = minute\<rparr>)]\<rparr>"

definition ex_stream_server :: stream_server where
  "ex_stream_server = \<lparr>ss_header_timeout = 5 * second, ss_max_timeout = 2 * minute,
     ss_handlers = [(10, \<lparr>sh_capacity = 1, sh_max_timeout = minute\<rparr>)]\<rparr>"

definition ex_header :: stream_header where
  "ex_header = \<lparr>hd_version = 1, hd_kind = 10, hd_request = ''00000000-0000-4000-8000-00000000000a'',
     hd_timeout_millis = 1500, hd_idempotency = []\<rparr>"

lemma ex_streams_ok: "new_stream_server ex_streams = Inr ex_stream_server"
  by code_simp

lemma ex_header_ok: "validate_stream_header ex_header"
proof -
  have "is_uuid (hd_request ex_header)" "trim_space (hd_idempotency ex_header) = hd_idempotency ex_header" by code_simp+
  then show ?thesis
    by (simp add: validate_stream_header_def) (simp add: ex_header_def protocol_version_def kind_unspecified_def
        max_idempotency_key_length_def max_timeout_millis_def)
qed

lemma ex_stream_starts:
  "start_stream ex_stream_server True (Inr ex_header) (\<lambda>_. 0) = (StreamRunning 10 1500000000, (\<lambda>_. 0)(10 := 1))"
proof -
  have "requested_timeout ex_header = 1500000000" by (simp add: requested_timeout_def ex_header_def)
  moreover have "hd_kind ex_header = 10" by (simp add: ex_header_def)
  ultimately show ?thesis
    by (simp add: start_stream_def ex_header_ok) (simp add: ex_stream_server_def minute_def)
qed

theorem stream_deadline_bounded_witness: "0 < (1500000000 :: duration) \<and> 1500000000 \<le> ss_max_timeout ex_stream_server"
  using stream_deadline_bounded [OF ex_streams_ok ex_stream_starts] by simp

subsection \<open>Admissions\<close>

text \<open>
  The streams of one connection: \<open>running\<close> counts per kind those whose handler has not returned.
\<close>

inductive stream_step ::
    "stream_server \<Rightarrow> (int \<Rightarrow> int) \<times> int multiset \<Rightarrow> (int \<Rightarrow> int) \<times> int multiset \<Rightarrow> bool" for srv where
  stream_refused: "start_stream srv rd header in_use = (StreamAborted code, in_use')
    \<Longrightarrow> stream_step srv (in_use, running) (in_use', running)"
| stream_admitted: "start_stream srv rd header in_use = (StreamRunning k t, in_use')
    \<Longrightarrow> stream_step srv (in_use, running) (in_use', add_mset k running)"
| stream_ended: "k \<in># running \<Longrightarrow> finish_stream k ds err ctx ok in_use = (f, in_use')
    \<Longrightarrow> stream_step srv (in_use, running) (in_use', running - {#k#})"

inductive stream_reach :: "stream_server \<Rightarrow> (int \<Rightarrow> int) \<times> int multiset \<Rightarrow> bool" for srv where
  stream_idle: "stream_reach srv ((\<lambda>_. 0), {#})"
| stream_more: "stream_reach srv x \<Longrightarrow> stream_step srv x y \<Longrightarrow> stream_reach srv y"

inductive_cases stream_stepE: "stream_step srv (in_use, running) y"

definition admissions_ok :: "stream_server \<Rightarrow> (int \<Rightarrow> int) \<times> int multiset \<Rightarrow> bool" where
  "admissions_ok srv x \<longleftrightarrow>
     (\<forall>k. fst x k = int (count (snd x) k)
        \<and> (fst x k = 0 \<or> (\<exists>hc. map_of (ss_handlers srv) k = Some hc \<and> fst x k \<le> sh_capacity hc)))"

lemma admissions_okD:
  "admissions_ok srv (in_use, running) \<Longrightarrow> in_use k = int (count running k)"
  "admissions_ok srv (in_use, running) \<Longrightarrow>
     in_use k = 0 \<or> (\<exists>hc. map_of (ss_handlers srv) k = Some hc \<and> in_use k \<le> sh_capacity hc)"
  unfolding admissions_ok_def by (simp, metis fst_conv)

lemma admissions_okI:
  assumes "\<And>k. in_use k = int (count running k)"
    and "\<And>k. in_use k = 0 \<or> (\<exists>hc. map_of (ss_handlers srv) k = Some hc \<and> in_use k \<le> sh_capacity hc)"
  shows "admissions_ok srv (in_use, running)"
  using assms unfolding admissions_ok_def fst_conv snd_conv by blast

lemma stream_step_ok: "stream_step srv x y \<Longrightarrow> admissions_ok srv x \<Longrightarrow> admissions_ok srv y"
proof (induction rule: stream_step.induct)
  case (stream_refused rd header in_use code in_use' running)
  then have "in_use' = in_use" by (auto simp: start_stream_def split: if_splits sum.splits option.splits)
  then show ?case using stream_refused(2) by simp
next
  case (stream_admitted rd header in_use k t in_use' running)
  then obtain hc where eq: "in_use' = in_use(k := in_use k + 1)" "map_of (ss_handlers srv) k = Some hc" "in_use k < sh_capacity hc"
    by (auto simp: start_stream_def split: if_splits sum.splits option.splits)
  note d = admissions_okD [OF stream_admitted(2)]
  show ?case
  proof (rule admissions_okI)
    fix j
    show "in_use' j = int (count (add_mset k running) j)" using eq(1) d(1) [of j] by (cases "j = k") auto
    show "in_use' j = 0 \<or> (\<exists>hc. map_of (ss_handlers srv) j = Some hc \<and> in_use' j \<le> sh_capacity hc)"
      using eq d(2) [of j] by (cases "j = k") auto
  qed
next
  case (stream_ended k running ds err ctx ok in_use f in_use')
  then have eq: "in_use' = in_use(k := in_use k - 1)" "0 < count running k" by (simp_all add: finish_stream_def)
  note d = admissions_okD [OF stream_ended(3)]
  show ?case
  proof (rule admissions_okI)
    fix j
    show "in_use' j = int (count (running - {#k#}) j)" using eq d(1) [of j] by (cases "j = k") auto
    show "in_use' j = 0 \<or> (\<exists>hc. map_of (ss_handlers srv) j = Some hc \<and> in_use' j \<le> sh_capacity hc)"
      using eq d(1,2) [of j] by (cases "j = k") (auto simp: count_eq_zero_iff)
  qed
qed

text \<open>
  Concurrency is bounded and given back. However streams start, are refused and end, the admissions
  taken of a kind are the handlers of that kind still running, and never more than configured; when none
  runs, none is taken.
\<close>

theorem stream_admissions_exact:
  assumes "stream_reach srv (in_use, running)"
  shows "in_use k = int (count running k)
         \<and> (in_use k = 0 \<or> (\<exists>hc. map_of (ss_handlers srv) k = Some hc \<and> in_use k \<le> sh_capacity hc))"
proof -
  have "admissions_ok srv (in_use, running)"
    using assms
  proof (induction rule: stream_reach.induct)
    case stream_idle
    then show ?case by (simp add: admissions_ok_def)
  next
    case (stream_more x y)
    then show ?case using stream_step_ok by blast
  qed
  from admissions_okD [OF this] show ?thesis by blast
qed

theorem stream_admissions_exact_witness: "((\<lambda>_. 0)(10 := 1)) 10 = int (count (add_mset 10 {#}) (10 :: int))"
  using stream_admissions_exact [OF stream_more [OF stream_idle stream_admitted [OF ex_stream_starts]], of 10] by simp

subsection \<open>Bodies\<close>

datatype content_encoding = EncodingUnspecified | EncodingGzip | EncodingUnknown int

datatype body_error = ErrResourceBodyEncoding string | BodyReadFailed string | ErrBodyProtocol | ErrBodyTooLarge

text \<open>
  gzip: compressing may fail; opening a compressed body may; inflating gives what was decoded and how
  the decoder ended, \<open>None\<close> for a clean end of all its input.
\<close>

record gzip =
  gz_deflate :: "byte list \<Rightarrow> (byte list) option"
  gz_open :: "byte list \<Rightarrow> string option"
  gz_inflate :: "byte list \<Rightarrow> byte list \<times> string option"

definition compression_threshold :: "64 word" where "compression_threshold = 65536"
definition max_compression_ratio :: "64 word" where "max_compression_ratio = 1000"
definition max_accepted_encodings :: nat where "max_accepted_encodings = 8"

record encoded_body =
  eb_encoding :: content_encoding
  eb_wire :: "byte list"
  eb_decoded_size :: "64 word"

definition encode_resource_body ::
    "gzip \<Rightarrow> content_encoding list \<Rightarrow> byte list \<Rightarrow> 64 word \<Rightarrow> encoded_body" where
  "encode_resource_body gz accepted body threshold =
     (let identity = \<lparr>eb_encoding = EncodingUnspecified, eb_wire = body, eb_decoded_size = 0\<rparr>;
          th = (if threshold = 0 then compression_threshold else threshold);
          size = of_nat (length body) :: 64 word
      in if size < th \<or> EncodingGzip \<notin> set accepted then identity
         else case gz_deflate gz body of
                None \<Rightarrow> identity
              | Some z \<Rightarrow>
                  if length body \<le> length z then identity
                  else if max_compression_ratio * of_nat (length z) < size then identity
                  else \<lparr>eb_encoding = EncodingGzip, eb_wire = z, eb_decoded_size = size\<rparr>)"

fun validate_encodings :: "content_encoding list \<Rightarrow> content_encoding list \<Rightarrow> bool" where
  "validate_encodings seen [] \<longleftrightarrow> True"
| "validate_encodings seen (e # es) \<longleftrightarrow> e = EncodingGzip \<and> e \<notin> set seen \<and> validate_encodings (e # seen) es"

definition validate_accepted_encodings :: "content_encoding list \<Rightarrow> bool" where
  "validate_accepted_encodings es \<longleftrightarrow> length es \<le> max_accepted_encodings \<and> validate_encodings [] es"

record body_declaration =
  bd_size :: "64 word"
  bd_encoding :: content_encoding
  bd_decoded_size :: "64 word"

definition validate_body_encoding :: "body_declaration \<Rightarrow> 64 word \<Rightarrow> body_error option" where
  "validate_body_encoding d max_body =
     (case bd_encoding d of
        EncodingUnspecified \<Rightarrow> if bd_decoded_size d \<noteq> 0 then Some ErrBodyProtocol else None
      | EncodingGzip \<Rightarrow>
          if bd_size d = 0 \<or> bd_decoded_size d = 0 then Some ErrBodyProtocol
          else if max_body < bd_decoded_size d then Some ErrBodyTooLarge
          else if max_compression_ratio * bd_size d < bd_decoded_size d then Some ErrBodyTooLarge
          else None
      | EncodingUnknown _ \<Rightarrow> Some ErrBodyProtocol)"

definition resource_body_decoded_size :: "body_declaration \<Rightarrow> 64 word" where
  "resource_body_decoded_size d = (if bd_encoding d = EncodingUnspecified then bd_size d else bd_decoded_size d)"

text \<open>
  \<open>io.CopyN\<close> with the count as a signed integer: a negative count copies nothing and succeeds. The limited
  reader over the stream leaves \<open>wire_left\<close> when the decoder has met its end.
\<close>

definition read_encoded_body :: "gzip \<Rightarrow> body_declaration \<Rightarrow> byte_reader \<Rightarrow> (body_error + byte list) \<times> byte_reader" where
  "read_encoded_body gz d r =
     (let n = sint (bd_size d); size = nat n;
          wire = take size (br_bytes r); rest = r\<lparr>br_bytes := drop size (br_bytes r)\<rparr>
      in if bd_encoding d = EncodingUnspecified then
           (if length wire < size then (Inl (BodyReadFailed (br_end r)), rest) else (Inr wire, rest))
         else case gz_open gz wire of
                Some e \<Rightarrow> (Inl (ErrResourceBodyEncoding e), rest)
              | None \<Rightarrow>
                  (case gz_inflate gz wire of
                     (out, ending) \<Rightarrow>
                       (let want = nat (sint (bd_decoded_size d)) in
                        if length out < want
                        then (Inl (ErrResourceBodyEncoding (case ending of Some e \<Rightarrow> e | None \<Rightarrow> ''EOF'')), rest)
                        else if want < length out
                        then (Inl (ErrResourceBodyEncoding ''exceeds its declared decoded size''), rest)
                        else case ending of
                               Some e \<Rightarrow> (Inl (ErrResourceBodyEncoding e), rest)
                             | None \<Rightarrow>
                                 if int (length wire) \<noteq> n
                                 then (Inl (ErrResourceBodyEncoding ''shorter than its declared wire size''), rest)
                                 else (Inr out, rest))))"

definition declaration_of :: "encoded_body \<Rightarrow> body_declaration" where
  "declaration_of e = \<lparr>bd_size = of_nat (length (eb_wire e)), bd_encoding = eb_encoding e, bd_decoded_size = eb_decoded_size e\<rparr>"

text \<open>What gzip promises: a compressed body opens and inflates to what was compressed, with a clean end.\<close>

definition gzip_inverts :: "gzip \<Rightarrow> bool" where
  "gzip_inverts gz \<longleftrightarrow>
     (\<forall>b z. gz_deflate gz b = Some z \<longrightarrow> z \<noteq> [] \<and> gz_open gz z = None \<and> gz_inflate gz z = (b, None))"

lemma sint_of_nat_small:
  assumes "int n < 2 ^ 63"
  shows "sint (of_nat n :: 64 word) = int n" "uint (of_nat n :: 64 word) = int n"
proof -
  show u: "uint (of_nat n :: 64 word) = int n" using assms by (simp add: unsigned_of_nat take_bit_nat_eq_self)
  show "sint (of_nat n :: 64 word) = int n" using assms by (simp add: sint_uint u signed_take_bit_int_eq_self)
qed

lemma of_nat_small_zero: "int n < 2 ^ 63 \<Longrightarrow> (of_nat n :: 64 word) = 0 \<longleftrightarrow> n = 0"
  using sint_of_nat_small(2) [of n] by (metis of_nat_0 of_nat_eq_0_iff uint_0_iff)

lemma encode_resource_body_cases:
  assumes "e = encode_resource_body gz accepted body threshold"
  obtains (identity) "e = \<lparr>eb_encoding = EncodingUnspecified, eb_wire = body, eb_decoded_size = 0\<rparr>"
  | (gzip) z where "gz_deflate gz body = Some z" "length z < length body"
      "\<not> max_compression_ratio * of_nat (length z) < of_nat (length body)"
      "e = \<lparr>eb_encoding = EncodingGzip, eb_wire = z, eb_decoded_size = of_nat (length body)\<rparr>"
  using assms by (auto simp: encode_resource_body_def Let_def not_le split: if_splits option.splits)

text \<open>
  A body arrives as it was sent. However the sender chose to encode a body the reader is willing to
  take, its declaration passes the check and reading it from the stream gives back the body and leaves
  the stream where it ended.
\<close>

theorem body_roundtrip:
  assumes gz: "gzip_inverts gz" and size: "int (length body) < 2 ^ 63" "of_nat (length body) \<le> max_body"
    and e: "e = encode_resource_body gz accepted body threshold"
  shows "validate_body_encoding (declaration_of e) max_body = None
     \<and> read_encoded_body gz (declaration_of e) (r\<lparr>br_bytes := eb_wire e @ rest\<rparr>) = (Inr body, r\<lparr>br_bytes := rest\<rparr>)"
  using e
proof (cases rule: encode_resource_body_cases)
  case identity
  then show ?thesis
    using sint_of_nat_small [OF size(1)]
    by (simp add: declaration_of_def validate_body_encoding_def read_encoded_body_def Let_def)
next
  case (gzip z)
  have z: "z \<noteq> []" "gz_open gz z = None" "gz_inflate gz z = (body, None)"
    using gz gzip(1) unfolding gzip_inverts_def by blast+
  have l: "int (length z) < 2 ^ 63" using gzip(2) size(1) by linarith
  have "length body \<noteq> 0" using gzip(2) by linarith
  then show ?thesis
    using gzip(3) z size sint_of_nat_small [OF size(1)] sint_of_nat_small [OF l] of_nat_small_zero [OF size(1)] of_nat_small_zero [OF l]
    by (simp add: gzip(4) declaration_of_def validate_body_encoding_def read_encoded_body_def Let_def not_less)
qed

text \<open>The example codec: a run of one byte is its length and the byte.\<close>

definition ex_gzip :: gzip where
  "ex_gzip = \<lparr>gz_deflate = (\<lambda>b. if b = replicate 200 7 then Some [200, 7] else None),
     gz_open = (\<lambda>z. if z = [] then Some ''EOF'' else None),
     gz_inflate = (\<lambda>z. if z = [200, 7] then (replicate 200 7, None) else ([], Some ''corrupt''))\<rparr>"

lemma ex_gzip_inverts: "gzip_inverts ex_gzip"
  by (simp add: gzip_inverts_def ex_gzip_def)

theorem body_roundtrip_witness:
  "read_encoded_body ex_gzip (declaration_of (encode_resource_body ex_gzip [EncodingGzip] (replicate 200 7) 100))
     \<lparr>br_bytes = eb_wire (encode_resource_body ex_gzip [EncodingGzip] (replicate 200 7) 100) @ [9], br_end = ''EOF''\<rparr>
   = (Inr (replicate 200 7), \<lparr>br_bytes = [9], br_end = ''EOF''\<rparr>)"
  using body_roundtrip [OF ex_gzip_inverts _ _ refl, where body = "replicate 200 7" and max_body = 1000
      and accepted = "[EncodingGzip]" and threshold = 100 and r = "\<lparr>br_bytes = [], br_end = ''EOF''\<rparr>" and rest = "[9]"]
  by (simp add: word_le_nat_alt)

text \<open>
  A body never outgrows its declaration. A compressed body that is accepted and read has exactly the
  declared decoded size, which the reader's limit and a thousand times the wire size bound, whatever the
  bytes on the wire say and although the product is computed modulo \<open>2 ^ 64\<close>.
\<close>

theorem body_stays_within_declaration:
  assumes "validate_body_encoding d max_body = None" and "bd_encoding d = EncodingGzip"
    and "read_encoded_body gz d r = (Inr out, r')"
  shows "length out = nat (sint (bd_decoded_size d)) \<and> length out \<le> unat max_body \<and> length out \<le> 1000 * unat (bd_size d)"
proof -
  have v: "bd_decoded_size d \<le> max_body" "bd_decoded_size d \<le> 1000 * bd_size d"
    using assms(1,2) by (auto simp: validate_body_encoding_def max_compression_ratio_def not_less split: if_splits)
  have out: "length out = nat (sint (bd_decoded_size d))"
    using assms(2,3) by (auto simp: read_encoded_body_def Let_def split: option.splits prod.splits if_splits)
  have "nat (sint w) \<le> unat w" for w :: "64 word"
  proof -
    have "- (2 ^ (LENGTH(64) - Suc 0)) \<le> uint w" by (rule order_trans [OF _ uint_ge_0]) simp
    then have "sint w \<le> uint w" unfolding sint_uint signed_take_bit_int_less_eq_self_iff .
    then show ?thesis by (simp add: nat_le_iff)
  qed
  then have le: "length out \<le> unat (bd_decoded_size d)" unfolding out .
  have "unat (1000 * bd_size d) = (1000 * unat (bd_size d)) mod 2 ^ 64" by (simp add: unat_word_ariths)
  then have "unat (1000 * bd_size d) \<le> 1000 * unat (bd_size d)" by (metis mod_less_eq_dividend)
  then have "unat (bd_decoded_size d) \<le> 1000 * unat (bd_size d)" using v(2) unfolding word_le_nat_alt by (rule order_trans [rotated])
  moreover have "unat (bd_decoded_size d) \<le> unat max_body" using v(1) unfolding word_le_nat_alt .
  ultimately show ?thesis using out le by linarith
qed

theorem body_stays_within_declaration_witness:
  "length (replicate 200 (7 :: byte)) \<le> unat (1000 :: 64 word)"
proof -
  let ?d = "\<lparr>bd_size = 2, bd_encoding = EncodingGzip, bd_decoded_size = 200\<rparr>"
  have "validate_body_encoding ?d 1000 = None"
    by (simp add: validate_body_encoding_def max_compression_ratio_def)
  moreover have "read_encoded_body ex_gzip ?d \<lparr>br_bytes = [200, 7], br_end = ''EOF''\<rparr>
      = (Inr (replicate 200 7), \<lparr>br_bytes = [], br_end = ''EOF''\<rparr>)"
    by (simp add: read_encoded_body_def ex_gzip_def Let_def)
  ultimately show ?thesis using body_stays_within_declaration [of ?d 1000 ex_gzip] by simp
qed

end
