(* ===== verification/MetricsReads.thy ===== *)
theory MetricsReads
  imports MetricsRewrite
begin

section \<open>What a rewritten batch says\<close>

text \<open>
  A reader of remote-write batches, independent of how the Server walks over them, and the facts that
  relate what the storage reads from the rewritten batch to what the collector sent: the laws of the wire
  format, the reading of fields, labels, samples, series and batches, and the four properties of
  \<open>rewriteBatch\<close>.
\<close>

subsection \<open>The wire format\<close>

text \<open>
  What \<open>protowire\<close> documents. Whatever is consumed is a non-empty (for tags) part of what there was and
  does not depend on what follows; tags and byte strings that were appended are consumed as they were.
\<close>

definition tags_ok :: "wire \<Rightarrow> bool" where
  "tags_ok w \<longleftrightarrow>
     (\<forall>s n k c. w_tag w s = Some (n, k, c) \<longrightarrow>
        0 < c \<and> c \<le> length s \<and> (\<forall>r. w_tag w (w_put_tag w n k @ r) = Some (n, k, length (w_put_tag w n k))))
     \<and> (\<forall>n r. n = 1 \<or> n = 2 \<longrightarrow> w_tag w (w_put_tag w n 2 @ r) = Some (n, 2, length (w_put_tag w n 2)))"

definition bytes_ok :: "wire \<Rightarrow> bool" where
  "bytes_ok w \<longleftrightarrow>
     (\<forall>s v z. w_bytes w s = Some (v, z) \<longrightarrow> z \<le> length s \<and> (\<forall>r. w_bytes w (take z s @ r) = Some (v, z)))
     \<and> (\<forall>v r. w_bytes w (w_put_bytes w v @ r) = Some (v, length (w_put_bytes w v)))
     \<and> (\<forall>n s. w_field w n 2 s = map_option snd (w_bytes w s))"

definition values_ok :: "wire \<Rightarrow> bool" where
  "values_ok w \<longleftrightarrow>
     (\<forall>n s. w_field w n 0 s = map_option snd (w_varint w s))
     \<and> (\<forall>s v z. w_varint w s = Some (v, z) \<longrightarrow> (\<forall>r. w_varint w (take z s @ r) = Some (v, z)))
     \<and> (\<forall>n k s z. w_field w n k s = Some z \<longrightarrow> z \<le> length s \<and> (\<forall>r. w_field w n k (take z s @ r) = Some z))"

definition wire_ok :: "wire \<Rightarrow> bool" where
  "wire_ok w \<longleftrightarrow> tags_ok w \<and> bytes_ok w \<and> values_ok w"

lemma tags_okD:
  assumes "wire_ok w"
  shows "w_tag w s = Some (n, k, c) \<Longrightarrow> 0 < c"
    "w_tag w s = Some (n, k, c) \<Longrightarrow> c \<le> length s"
    "w_tag w s = Some (n, k, c) \<Longrightarrow> w_tag w (w_put_tag w n k @ r) = Some (n, k, length (w_put_tag w n k))"
    "n = 1 \<or> n = 2 \<Longrightarrow> w_tag w (w_put_tag w n 2 @ r) = Some (n, 2, length (w_put_tag w n 2))"
  using assms unfolding wire_ok_def tags_ok_def by blast+

lemma bytes_okD:
  assumes "wire_ok w"
  shows "w_bytes w s = Some (v, z) \<Longrightarrow> z \<le> length s"
    "w_bytes w s = Some (v, z) \<Longrightarrow> w_bytes w (take z s @ r) = Some (v, z)"
    "w_bytes w (w_put_bytes w v @ r) = Some (v, length (w_put_bytes w v))"
    "w_field w n 2 s = map_option snd (w_bytes w s)"
  using assms unfolding wire_ok_def bytes_ok_def by blast+

lemma values_okD:
  assumes "wire_ok w"
  shows "w_field w n 0 s = map_option snd (w_varint w s)"
    "w_varint w s = Some (u, z) \<Longrightarrow> w_varint w (take z s @ r) = Some (u, z)"
    "w_field w n k s = Some z \<Longrightarrow> z \<le> length s"
    "w_field w n k s = Some z \<Longrightarrow> w_field w n k (take z s @ r) = Some z"
  using assms unfolding wire_ok_def values_ok_def by blast+

subsection \<open>Reading fields\<close>

text \<open>A field is its number, its wire type and, for bytes, the content, otherwise the encoded value.\<close>

type_synonym field = "int \<times> int \<times> string"

definition next_field :: "wire \<Rightarrow> string \<Rightarrow> (field \<times> string) option" where
  "next_field w s =
     (case w_tag w s of
        None \<Rightarrow> None
      | Some (n, k, c) \<Rightarrow>
          if k = 2 then map_option (\<lambda>(v, z). ((n, k, v), drop z (drop c s))) (w_bytes w (drop c s))
          else map_option (\<lambda>z. ((n, k, take z (drop c s)), drop z (drop c s))) (w_field w n k (drop c s)))"

inductive fields :: "wire \<Rightarrow> string \<Rightarrow> field list \<Rightarrow> bool" for w where
  no_fields: "fields w [] []"
| a_field: "s \<noteq> [] \<Longrightarrow> next_field w s = Some (f, r) \<Longrightarrow> fields w r fs \<Longrightarrow> fields w s (f # fs)"

inductive_cases fieldsE: "fields w s fs"

lemma fields_unique: "fields w s fs \<Longrightarrow> fields w s gs \<Longrightarrow> gs = fs"
proof (induction arbitrary: gs rule: fields.induct)
  case no_fields
  then show ?case by (cases rule: fieldsE) auto
next
  case (a_field s f r fs)
  from a_field.prems a_field.hyps obtain gs' where "gs = f # gs'" "fields w r gs'" by (cases rule: fieldsE) auto
  then show ?case using a_field.IH by simp
qed

lemma next_field_bytes:
  assumes "wire_ok w" and "w_tag w s = Some (n, 2, c)" and "w_bytes w (drop c s) = Some (v, z)"
  shows "next_field w s = Some ((n, 2, v), drop z (drop c s))"
  using assms by (simp add: next_field_def)

lemma next_field_put:
  assumes w: "wire_ok w" and "n = 1 \<or> n = 2 \<or> (\<exists>s c. w_tag w s = Some (n, 2, c))"
  shows "next_field w (w_put_tag w n 2 @ w_put_bytes w v @ r) = Some ((n, 2, v), r)"
proof -
  have "w_tag w (w_put_tag w n 2 @ x) = Some (n, 2, length (w_put_tag w n 2))" for x
    using assms tags_okD(3,4) [OF w] by blast
  then show ?thesis using bytes_okD(3) [OF w] by (simp add: next_field_def)
qed

text \<open>A field that is copied through - its tag appended anew, its value as it was - reads the same.\<close>

lemma next_field_copy:
  assumes w: "wire_ok w" and t: "w_tag w s = Some (n, k, c)" and z: "w_field w n k (drop c s) = Some z"
  obtains f where "fst f = n" "fst (snd f) = k" "next_field w s = Some (f, drop z (drop c s))"
    "next_field w (w_put_tag w n k @ take z (drop c s) @ r) = Some (f, r)"
proof (cases "k = 2")
  case True
  then obtain v where v: "w_bytes w (drop c s) = Some (v, z)"
    using z bytes_okD(4) [OF w] by auto
  have "next_field w (w_put_tag w n 2 @ take z (drop c s) @ r) = Some ((n, 2, v), r)"
    using tags_okD(3) [OF w t [unfolded True], of "take z (drop c s) @ r"] bytes_okD(1,2) [OF w v]
    by (simp add: next_field_def)
  then show thesis using that [of "(n, 2, v)"] next_field_bytes [OF w t [unfolded True] v] True by simp
next
  case False
  then show thesis
    using that [of "(n, k, take z (drop c s))"] t z values_okD(3,4) [OF w z] tags_okD(3) [OF w t]
    by (simp add: next_field_def)
qed

lemma next_field_shorter:
  assumes w: "wire_ok w" and "next_field w s = Some (f, r)"
  shows "length r < length s"
  using assms(2) tags_okD(1,2) [OF w] by (fastforce simp: next_field_def split: option.splits if_splits)

subsection \<open>Loops over fields\<close>

inductive scans :: "(string \<Rightarrow> 'a \<Rightarrow> ('e + string \<times> 'a) option) \<Rightarrow> string \<Rightarrow> 'a \<Rightarrow> 'a \<Rightarrow> bool" for step where
  scanned: "scans step [] a a"
| scan_step: "rest \<noteq> [] \<Longrightarrow> step rest a = Some (Inr (r, a')) \<Longrightarrow> scans step r a' b \<Longrightarrow> scans step rest a b"

lemma scan_fields_result:
  assumes "scan_fields step s a = Some y"
  shows "\<forall>b. y = Inr b \<longrightarrow> scans step s a b"
proof (rule scan_fields.raw_induct [where P = "\<lambda>step s a y. \<forall>b. y = Inr b \<longrightarrow> scans step s a b", OF _ assms])
  fix scan :: "(string \<Rightarrow> 'b \<Rightarrow> ('c + string \<times> 'b) option) \<Rightarrow> string \<Rightarrow> 'b \<Rightarrow> ('c + 'b) option" and step rest a y
  assume IH: "\<And>step rest a y. scan step rest a = Some y \<Longrightarrow> \<forall>b. y = Inr b \<longrightarrow> scans step rest a b"
    and "(if rest = [] then Some (Inr a)
          else Option.bind (step rest a) (\<lambda>r. case r of Inl e \<Rightarrow> Some (Inl e) | Inr x \<Rightarrow> scan step (fst x) (snd x))) = Some y"
  note body = this(2)
  show "\<forall>b. y = Inr b \<longrightarrow> scans step rest a b"
  proof (intro allI impI)
    fix b assume y: "y = Inr b"
    show "scans step rest a b"
    proof (cases "rest = []")
      case True
      then show ?thesis using body y by (simp add: scanned)
    next
      case False
      then obtain u where u: "step rest a = Some u" using body by (cases "step rest a") simp_all
      show ?thesis
      proof (cases u)
        case (Inl e)
        then show ?thesis using False body y u by simp
      next
        case (Inr x)
        then have "scans step (fst x) (snd x) b" using False body y u IH [of step "fst x" "snd x" "Inr b"] by simp
        then show ?thesis using False u Inr by (cases x) (auto intro: scan_step)
      qed
    qed
  qed
qed

lemma scan_fields_scans: "scan_fields step s a = Some (Inr b) \<Longrightarrow> scans step s a b"
  by (drule scan_fields_result) simp

text \<open>A loop whose steps return and leave less than there was returns.\<close>

lemma scan_fields_returns:
  assumes "\<And>rest a. rest \<noteq> [] \<Longrightarrow> length rest \<le> length s \<Longrightarrow>
             \<exists>r. step rest a = Some r \<and> (\<forall>t a'. r = Inr (t, a') \<longrightarrow> length t < length rest)"
  shows "\<exists>r. scan_fields step s a = Some r"
  using assms
proof (induction "length s" arbitrary: s a rule: less_induct)
  case less
  show ?case
  proof (cases "s = []")
    case True
    then show ?thesis by (simp add: scan_fields.simps)
  next
    case False
    then obtain r where r: "step s a = Some r" "\<forall>t a'. r = Inr (t, a') \<longrightarrow> length t < length s"
      using less.prems by blast
    show ?thesis
    proof (cases r)
      case (Inl e)
      then show ?thesis using False r(1) by (subst scan_fields.simps) simp
    next
      case (Inr x)
      then have l: "length (fst x) < length s" using r(2) by (cases x) simp
      have "\<exists>y. scan_fields step (fst x) (snd x) = Some y"
        by (intro less.hyps [OF l] less.prems) (use l in linarith)+
      then show ?thesis using False r(1) Inr by (subst scan_fields.simps) simp
    qed
  qed
qed

lemma scans_fold:
  assumes step: "\<And>rest a r a'. step rest a = Some (Inr (r, a')) \<Longrightarrow> \<exists>f. next_field w rest = Some (f, r) \<and> a' = g f a"
    and s: "scans step s a b"
  shows "\<exists>fs. fields w s fs \<and> b = fold g fs a"
  using s
proof (induction rule: scans.induct)
  case (scanned a)
  then show ?case by (auto intro: no_fields)
next
  case (scan_step rest a r a' b)
  then obtain f fs where "next_field w rest = Some (f, r)" "a' = g f a" "fields w r fs" "b = fold g fs a'"
    using step by blast
  then show ?case using scan_step.hyps(1) by (intro exI [of _ "f # fs"]) (auto intro: a_field)
qed

lemma next_field_Nil: "wire_ok w \<Longrightarrow> next_field w [] = None"
  using next_field_shorter [of w "[]"] by (cases "next_field w []") auto

lemma fields_chunk:
  assumes "wire_ok w" and "next_field w (c @ t) = Some (f, t)" and "fields w t fs"
  shows "fields w (c @ t) (f # fs)"
  using assms next_field_Nil by (cases "c @ t = []") (auto intro: a_field)

subsection \<open>Labels and samples\<close>

fun label_field :: "field \<Rightarrow> metric_label \<Rightarrow> metric_label" where
  "label_field (n, k, v) l =
     (if n = 1 \<and> k = 2 then l\<lparr>lb_name := v\<rparr> else if n = 2 \<and> k = 2 then l\<lparr>lb_value := v\<rparr> else l)"

definition reads_label :: "wire \<Rightarrow> string \<Rightarrow> metric_label \<Rightarrow> bool" where
  "reads_label w s l \<longleftrightarrow> (\<exists>fs. fields w s fs \<and> l = fold label_field fs no_label)"

lemma reads_label_unique: "reads_label w s l \<Longrightarrow> reads_label w s m \<Longrightarrow> m = l"
  unfolding reads_label_def using fields_unique by blast

lemma parse_label_step_reads:
  assumes w: "wire_ok w" and p: "parse_label_step w rest l = Some (Inr (r, l'))"
  shows "\<exists>f. next_field w rest = Some (f, r) \<and> l' = label_field f l"
proof -
  obtain n k c where t: "w_tag w rest = Some (n, k, c)"
    using p by (auto simp: parse_label_step_def split: option.splits)
  show ?thesis
  proof (cases "k = 2 \<and> (n = 1 \<or> n = 2)")
    case True
    then obtain v z where v: "w_bytes w (drop c rest) = Some (v, z)" "r = drop z (drop c rest)"
        "l' = (if n = 1 then l\<lparr>lb_name := v\<rparr> else l\<lparr>lb_value := v\<rparr>)"
      using p t by (auto simp: parse_label_step_def Let_def bytes_type_def split: option.splits prod.splits)
    show ?thesis
      using next_field_bytes [OF w _ v(1)] t True v(2,3) by (intro exI [of _ "(n, 2, v)"]) auto
  next
    case False
    then obtain z where z: "w_field w n k (drop c rest) = Some z" "r = drop z (drop c rest)" "l' = l"
      using p t by (auto simp: parse_label_step_def Let_def bytes_type_def split: option.splits)
    obtain f where "fst f = n" "fst (snd f) = k" "next_field w rest = Some (f, r)"
      using next_field_copy [OF w t z(1)] z(2) by metis
    then show ?thesis using False z(3) by (intro exI [of _ f]) (cases f; auto)
  qed
qed

lemma parse_label_reads:
  assumes w: "wire_ok w" and "parse_label w lim s = Some (Inr l)"
  shows "reads_label w s l" "check_label lim l = Inr l"
proof -
  obtain l0 where l0: "scan_fields (parse_label_step w) s no_label = Some (Inr l0)" "check_label lim l0 = Inr l"
    using assms(2) by (auto simp: parse_label_def Option.bind_eq_Some_conv and_then_eq_Inr)
  moreover have "l0 = l" using l0(2) by (auto simp: check_label_def split: if_splits)
  ultimately show "reads_label w s l" "check_label lim l = Inr l"
    using scans_fold [OF parse_label_step_reads [OF w] scan_fields_scans [OF l0(1)]]
    by (auto simp: reads_label_def)
qed

text \<open>The timestamp of a sample is the last varint numbered two.\<close>

fun time_field :: "wire \<Rightarrow> field \<Rightarrow> int option \<Rightarrow> int option" where
  "time_field w (n, k, v) ts =
     (if n = 2 \<and> k = 0 then (case w_varint w v of None \<Rightarrow> ts | Some (u, z) \<Rightarrow> Some (sint u)) else ts)"

definition sample_ok :: "wire \<Rightarrow> batch_limits \<Rightarrow> time \<Rightarrow> string \<Rightarrow> bool" where
  "sample_ok w lim now s \<longleftrightarrow>
     (\<exists>fs t. fields w s fs \<and> fold (time_field w) fs None = Some t \<and> 0 < t
        \<and> now - bl_max_age lim \<le> t * millisecond \<and> t * millisecond \<le> now + bl_max_future lim)"

lemma sample_step_reads:
  assumes w: "wire_ok w" and p: "sample_step w rest ts = Some (Inr (r, ts'))"
  shows "\<exists>f. next_field w rest = Some (f, r) \<and> ts' = time_field w f ts"
proof -
  obtain n k c where t: "w_tag w rest = Some (n, k, c)"
    using p by (auto simp: sample_step_def split: option.splits)
  show ?thesis
  proof (cases "n = 2 \<and> k = 0")
    case True
    then obtain u z where u: "w_varint w (drop c rest) = Some (u, z)" "r = drop z (drop c rest)" "ts' = Some (sint u)"
      using p t by (auto simp: sample_step_def Let_def varint_type_def split: option.splits)
    have "w_field w 2 0 (drop c rest) = Some z" using values_okD(1) [OF w] u(1) by simp
    moreover have "w_varint w (take z (drop c rest)) = Some (u, z)" using values_okD(2) [OF w u(1), of "[]"] by simp
    ultimately show ?thesis
      using t True u(2,3) by (intro exI [of _ "(2, 0, take z (drop c rest))"]) (simp add: next_field_def)
  next
    case False
    then obtain z where z: "w_field w n k (drop c rest) = Some z" "r = drop z (drop c rest)" "ts' = ts"
      using p t by (auto simp: sample_step_def Let_def varint_type_def split: option.splits)
    obtain f where "fst f = n" "fst (snd f) = k" "next_field w rest = Some (f, r)"
      using next_field_copy [OF w t z(1)] z(2) by metis
    then show ?thesis using False z(3) by (intro exI [of _ f]) (cases f; auto)
  qed
qed

lemma validate_sample_reads:
  assumes w: "wire_ok w" and "validate_sample w lim now s = Some (Inr u)"
  shows "sample_ok w lim now s"
proof -
  obtain ts where ts: "scan_fields (sample_step w) s None = Some (Inr ts)" "check_timestamp lim now ts = Inr u"
    using assms(2) by (auto simp: validate_sample_def Option.bind_eq_Some_conv and_then_eq_Inr)
  obtain fs where "fields w s fs" "ts = fold (time_field w) fs None"
    using scans_fold [where g = "time_field w", OF sample_step_reads [OF w] scan_fields_scans [OF ts(1)]] by blast
  then show ?thesis
    using ts(2) by (auto simp: check_timestamp_def sample_ok_def split: option.splits if_splits)
qed

subsection \<open>Series\<close>

lemma passed_on:
  "(case y of Inl e \<Rightarrow> Some (Inl e) | Inr x \<Rightarrow> g x) = Some (Inr b) \<longleftrightarrow> (\<exists>x. y = Inr x \<and> g x = Some (Inr b))"
  by (cases y) auto

definition is_sample :: "field \<Rightarrow> bool" where
  "is_sample f \<longleftrightarrow> fst f = 2 \<and> fst (snd f) = 2"

definition label_read :: "wire \<Rightarrow> field \<Rightarrow> metric_label \<Rightarrow> bool" where
  "label_read w f l \<longleftrightarrow> fst (snd f) = 2 \<and> reads_label w (snd (snd f)) l"

text \<open>The labels of a series and its other fields, both in their order.\<close>

definition series_reads :: "wire \<Rightarrow> string \<Rightarrow> metric_label list \<Rightarrow> field list \<Rightarrow> bool" where
  "series_reads w s ls os \<longleftrightarrow>
     (\<exists>fs. fields w s fs \<and> list_all2 (label_read w) (filter (\<lambda>f. fst f = 1) fs) ls \<and> os = filter (\<lambda>f. fst f \<noteq> 1) fs)"

definition series_effect ::
    "wire \<Rightarrow> batch_limits \<Rightarrow> time \<Rightarrow> field \<Rightarrow> series_scan \<Rightarrow> series_scan \<Rightarrow> bool" where
  "series_effect w lim now f s s' \<longleftrightarrow>
     (if fst f = 1
      then \<exists>l. label_read w f l \<and> s' = (if kept_label l then s\<lparr>sc_labels := sc_labels s @ [l]\<rparr> else s)
      else \<exists>c. (\<forall>x. next_field w (c @ x) = Some (f, x))
             \<and> sc_labels s' = sc_labels s \<and> sc_tail s' = sc_tail s @ c
             \<and> sc_stats s' = (if is_sample f then (sc_stats s)\<lparr>bs_samples := bs_samples (sc_stats s) + 1\<rparr> else sc_stats s)
             \<and> (is_sample f \<longrightarrow> bs_samples (sc_stats s') \<le> bl_max_samples lim \<and> sample_ok w lim now (snd (snd f))))"

lemma series_step_reads:
  assumes w: "wire_ok w" and p: "series_step w lim now rest s = Some (Inr (r, s'))"
  shows "\<exists>f. next_field w rest = Some (f, r) \<and> series_effect w lim now f s s'"
proof -
  obtain n k c where t: "w_tag w rest = Some (n, k, c)"
    using p by (auto simp: series_step_def split: option.splits)
  consider (label) "n = 1" "k = 2" | (sample) "n = 2" "k = 2" | (other) "n \<noteq> 1" "\<not> (n = 2 \<and> k = 2)"
    using p t by (auto simp: series_step_def Let_def bytes_type_def split: if_splits)
  then show ?thesis
  proof cases
    case label
    obtain v z where v: "w_bytes w (drop c rest) = Some (v, z)"
      using p t label by (auto simp: series_step_def Let_def bytes_type_def split: option.splits)
    then obtain l where l: "parse_label w lim v = Some (Inr l)" "r = drop z (drop c rest)"
        "s' = (if kept_label l then s\<lparr>sc_labels := sc_labels s @ [l]\<rparr> else s)"
      using p t label by (auto simp: series_step_def Let_def bytes_type_def Option.bind_eq_Some_conv passed_on)
    have "next_field w rest = Some ((1, 2, v), r)"
      using next_field_bytes [OF w _ v] t label l(2) by simp
    moreover have "series_effect w lim now (1, 2, v) s s'"
      using parse_label_reads(1) [OF w l(1)] l(3) by (auto simp: series_effect_def label_read_def)
    ultimately show ?thesis by blast
  next
    case sample
    obtain v z where v: "w_bytes w (drop c rest) = Some (v, z)"
      using p t sample by (auto simp: series_step_def Let_def bytes_type_def split: option.splits)
    then obtain u where u: "validate_sample w lim now v = Some (Inr u)"
      using p t sample by (auto simp: series_step_def Let_def bytes_type_def Option.bind_eq_Some_conv passed_on)
    define st where "st = (sc_stats s)\<lparr>bs_samples := bs_samples (sc_stats s) + 1\<rparr>"
    have st: "bs_samples st \<le> bl_max_samples lim" "r = drop z (drop c rest)"
        "s' = s\<lparr>sc_stats := st, sc_tail := sc_tail s @ w_put_tag w n k @ w_put_bytes w v\<rparr>"
      using p t sample v u
      by (auto simp: series_step_def Let_def bytes_type_def st_def split: if_splits)
    have "next_field w rest = Some ((2, 2, v), r)"
      using next_field_bytes [OF w _ v] t sample st(2) by simp
    moreover have "series_effect w lim now (2, 2, v) s s'"
      unfolding series_effect_def
      using st(1,3) sample validate_sample_reads [OF w u] next_field_put [OF w, of 2 v]
      by (auto simp: is_sample_def st_def intro!: exI [of _ "w_put_tag w 2 2 @ w_put_bytes w v"])
    ultimately show ?thesis by blast
  next
    case other
    then obtain z where z: "w_field w n k (drop c rest) = Some z" "r = drop z (drop c rest)"
        "s' = s\<lparr>sc_tail := sc_tail s @ w_put_tag w n k @ take z (drop c rest)\<rparr>"
      using p t by (auto simp: series_step_def Let_def bytes_type_def split: option.splits)
    have "\<exists>f. fst f = n \<and> fst (snd f) = k \<and> next_field w rest = Some (f, r)
        \<and> next_field w (w_put_tag w n k @ take z (drop c rest) @ x) = Some (f, x)" for x
      using next_field_copy [OF w t z(1), of x] z(2) by metis
    then obtain f where f: "fst f = n" "fst (snd f) = k" "next_field w rest = Some (f, r)"
        "\<And>x. next_field w ((w_put_tag w n k @ take z (drop c rest)) @ x) = Some (f, x)"
      by (metis append.assoc option.inject prod.inject)
    then have "series_effect w lim now f s s'"
      unfolding series_effect_def using other z(3)
      by (auto simp: is_sample_def intro!: exI [of _ "w_put_tag w n k @ take z (drop c rest)"])
    then show ?thesis using f(3) by blast
  qed
qed

definition series_run ::
    "wire \<Rightarrow> batch_limits \<Rightarrow> time \<Rightarrow> string \<Rightarrow> series_scan \<Rightarrow> series_scan \<Rightarrow> metric_label list \<Rightarrow> field list \<Rightarrow> string \<Rightarrow> bool" where
  "series_run w lim now s a b ls os t \<longleftrightarrow>
     series_reads w s ls os \<and> fields w t os
     \<and> sc_labels b = sc_labels a @ filter kept_label ls \<and> sc_tail b = sc_tail a @ t
     \<and> sc_stats b = (sc_stats a)\<lparr>bs_samples := bs_samples (sc_stats a) + int (length (filter is_sample os))\<rparr>
     \<and> (filter is_sample os \<noteq> [] \<longrightarrow> bs_samples (sc_stats b) \<le> bl_max_samples lim)
     \<and> (\<forall>f \<in> set os. is_sample f \<longrightarrow> sample_ok w lim now (snd (snd f)))"

lemma series_run_Nil: "series_run w lim now [] a a [] [] []"
  by (auto simp: series_run_def series_reads_def intro: no_fields exI [of _ "[]"])

lemma series_run_label:
  assumes "rest \<noteq> []" and "next_field w rest = Some (f, r)" and "fst f = 1" and "label_read w f l"
    and "a' = (if kept_label l then a\<lparr>sc_labels := sc_labels a @ [l]\<rparr> else a)"
    and "series_run w lim now r a' b ls os t"
  shows "series_run w lim now rest a b (l # ls) os t"
proof -
  obtain fs where fs: "fields w r fs" "list_all2 (label_read w) (filter (\<lambda>f. fst f = 1) fs) ls"
      "os = filter (\<lambda>f. fst f \<noteq> 1) fs"
    using assms(6) by (auto simp: series_run_def series_reads_def)
  have "fields w rest (f # fs)" using assms(1,2) fs(1) by (rule a_field)
  then have "series_reads w rest (l # ls) os"
    unfolding series_reads_def using fs(2,3) assms(3,4) by (intro exI [of _ "f # fs"]) simp
  then show ?thesis using assms(5,6) by (cases "kept_label l") (auto simp: series_run_def)
qed

lemma series_run_other:
  assumes w: "wire_ok w" and "rest \<noteq> []" and "next_field w rest = Some (f, r)" and "fst f \<noteq> 1"
    and c: "\<And>x. next_field w (c @ x) = Some (f, x)" and "sc_labels a' = sc_labels a" and "sc_tail a' = sc_tail a @ c"
    and "sc_stats a' = (if is_sample f then (sc_stats a)\<lparr>bs_samples := bs_samples (sc_stats a) + 1\<rparr> else sc_stats a)"
    and "is_sample f \<longrightarrow> bs_samples (sc_stats a') \<le> bl_max_samples lim \<and> sample_ok w lim now (snd (snd f))"
    and run: "series_run w lim now r a' b ls os t"
  shows "series_run w lim now rest a b ls (f # os) (c @ t)"
proof -
  obtain fs where fs: "fields w r fs" "list_all2 (label_read w) (filter (\<lambda>f. fst f = 1) fs) ls"
      "os = filter (\<lambda>f. fst f \<noteq> 1) fs"
    using run by (auto simp: series_run_def series_reads_def)
  have "fields w rest (f # fs)" using assms(2,3) fs(1) by (rule a_field)
  then have "series_reads w rest ls (f # os)"
    unfolding series_reads_def using fs(2,3) assms(4) by (intro exI [of _ "f # fs"]) simp
  moreover have "fields w (c @ t) (f # os)" using fields_chunk [OF w c] run by (simp add: series_run_def)
  moreover have "filter is_sample os = [] \<Longrightarrow> sc_stats b = sc_stats a'" using run by (simp add: series_run_def)
  ultimately show ?thesis
    using run assms(6-9) by (cases "filter is_sample os = []") (auto simp: series_run_def)
qed

lemma series_scans:
  assumes w: "wire_ok w" and "scans (series_step w lim now) s a b"
  shows "\<exists>ls os t. series_run w lim now s a b ls os t"
  using assms(2)
proof (induction rule: scans.induct)
  case (scanned a)
  then show ?case using series_run_Nil by blast
next
  case (scan_step rest a r a' b)
  obtain f where f: "next_field w rest = Some (f, r)" "series_effect w lim now f a a'"
    using series_step_reads [OF w scan_step.hyps(2)] by blast
  obtain ls os t where run: "series_run w lim now r a' b ls os t" using scan_step.IH by blast
  show ?case
  proof (cases "fst f = 1")
    case True
    then obtain l where "label_read w f l" "a' = (if kept_label l then a\<lparr>sc_labels := sc_labels a @ [l]\<rparr> else a)"
      using f(2) by (auto simp: series_effect_def)
    then show ?thesis using series_run_label [OF scan_step.hyps(1) f(1) True _ _ run] by blast
  next
    case False
    then obtain c where "\<And>x. next_field w (c @ x) = Some (f, x)" "sc_labels a' = sc_labels a" "sc_tail a' = sc_tail a @ c"
        "sc_stats a' = (if is_sample f then (sc_stats a)\<lparr>bs_samples := bs_samples (sc_stats a) + 1\<rparr> else sc_stats a)"
        "is_sample f \<longrightarrow> bs_samples (sc_stats a') \<le> bl_max_samples lim \<and> sample_ok w lim now (snd (snd f))"
      using f(2) unfolding series_effect_def if_not_P [OF False] by blast
    then show ?thesis using series_run_other [OF w scan_step.hyps(1) f(1) False _ _ _ _ _ run] by blast
  qed
qed

text \<open>The labels the Server writes read as the labels it meant.\<close>

definition label_field_of :: "wire \<Rightarrow> metric_label \<Rightarrow> field" where
  "label_field_of w l =
     (1, 2, w_put_tag w 1 2 @ w_put_bytes w (lb_name l) @ w_put_tag w 2 2 @ w_put_bytes w (lb_value l))"

lemma label_read_written:
  assumes w: "wire_ok w"
  shows "label_read w (label_field_of w l) l"
proof -
  let ?s = "w_put_tag w 2 2 @ w_put_bytes w (lb_value l)"
  have "fields w ?s [(2, 2, lb_value l)]"
    using fields_chunk [OF w _ no_fields, of ?s] next_field_put [OF w, of 2 "lb_value l" "[]"] by simp
  then have "fields w (w_put_tag w 1 2 @ w_put_bytes w (lb_name l) @ ?s) [(1, 2, lb_name l), (2, 2, lb_value l)]"
    using fields_chunk [OF w, of "w_put_tag w 1 2 @ w_put_bytes w (lb_name l)" ?s] next_field_put [OF w, of 1 "lb_name l" ?s] by simp
  then show ?thesis
    by (auto simp: label_read_def label_field_of_def reads_label_def no_label_def intro!: exI [of _ "[(1, 2, lb_name l), (2, 2, lb_value l)]"])
qed

lemma next_field_label:
  assumes w: "wire_ok w"
  shows "next_field w (encode_label w l @ t) = Some (label_field_of w l, t)"
  using next_field_put [OF w, of 1] by (simp add: encode_label_def label_field_of_def bytes_type_def)

lemma fields_labels:
  assumes w: "wire_ok w" and "fields w t os"
  shows "fields w (concat (map (encode_label w) ls) @ t) (map (label_field_of w) ls @ os)"
proof (induction ls)
  case Nil
  then show ?case using assms(2) by simp
next
  case (Cons l ls)
  then show ?case using fields_chunk [OF w next_field_label [OF w]] by simp
qed

lemma series_reads_written:
  assumes w: "wire_ok w" and "fields w t os" and "\<forall>f \<in> set os. fst f \<noteq> 1"
  shows "series_reads w (concat (map (encode_label w) ls) @ t) ls os"
proof -
  have "filter (\<lambda>f. fst f = 1) os = []" "filter (\<lambda>f. fst f \<noteq> 1) os = os" using assms(3) by (simp_all add: filter_empty_conv)
  moreover have "filter (\<lambda>f. fst f = 1) (map (label_field_of w) ls) = map (label_field_of w) ls"
    "filter (\<lambda>f. fst f \<noteq> 1) (map (label_field_of w) ls) = []"
    by (simp_all add: label_field_of_def filter_empty_conv filter_id_conv)
  moreover have "list_all2 (label_read w) (map (label_field_of w) ls) ls"
    using label_read_written [OF w] by (simp add: list_all2_conv_all_nth)
  ultimately show ?thesis
    unfolding series_reads_def using fields_labels [OF w assms(2)]
    by (intro exI [of _ "map (label_field_of w) ls @ os"]) simp
qed

lemma rewrite_time_series_reads:
  assumes w: "wire_ok w" and p: "rewrite_time_series w scope lim now s st = Some (Inr (b, st'))"
  obtains ls os where
    "series_reads w s ls os"
    "series_reads w b (sort_key lb_name (filter kept_label ls @ scope)) os"
    "int (length (filter kept_label ls @ scope)) \<le> bl_max_labels lim"
    "distinct (map lb_name (filter kept_label ls @ scope))"
    "''__name__'' \<in> lb_name ` set (filter kept_label ls @ scope)"
    "st' = st\<lparr>bs_samples := bs_samples st + int (length (filter is_sample os)),
              bs_hashes := bs_hashes st @ [hash_labels (sort_key lb_name (filter kept_label ls @ scope))]\<rparr>"
    "filter is_sample os \<noteq> [] \<Longrightarrow> bs_samples st' \<le> bl_max_samples lim"
    "\<forall>f \<in> set os. is_sample f \<longrightarrow> sample_ok w lim now (snd (snd f))"
proof -
  let ?a = "\<lparr>sc_labels = [], sc_tail = [], sc_stats = st\<rparr>"
  obtain sc where sc: "scan_fields (series_step w lim now) s ?a = Some (Inr sc)" "finish_series w scope lim sc = Inr (b, st')"
    using p by (auto simp: rewrite_time_series_def Option.bind_eq_Some_conv and_then_eq_Inr)
  obtain ls os t where run: "series_run w lim now s ?a sc ls os t"
    using series_scans [OF w scan_fields_scans [OF sc(1)]] by blast
  then have labels: "sc_labels sc = filter kept_label ls" "sc_tail sc = t" "series_reads w s ls os" "fields w t os"
      "\<forall>f \<in> set os. is_sample f \<longrightarrow> sample_ok w lim now (snd (snd f))"
      "sc_stats sc = st\<lparr>bs_samples := bs_samples st + int (length (filter is_sample os))\<rparr>"
      "filter is_sample os \<noteq> [] \<Longrightarrow> bs_samples (sc_stats sc) \<le> bl_max_samples lim"
    by (auto simp: series_run_def)
  let ?ls = "sort_key lb_name (filter kept_label ls @ scope)"
  have fin: "int (length (filter kept_label ls @ scope)) \<le> bl_max_labels lim" "distinct (map lb_name ?ls)"
      "''__name__'' \<in> set (map lb_name ?ls)" "b = concat (map (encode_label w) ?ls) @ t"
      "st' = (sc_stats sc)\<lparr>bs_hashes := bs_hashes (sc_stats sc) @ [hash_labels ?ls]\<rparr>"
    using sc(2) labels(1,2) by (simp_all add: finish_series_def Let_def split: if_splits)
  have os: "\<forall>f \<in> set os. fst f \<noteq> 1" using labels(3) by (auto simp: series_reads_def)
  have "mset (map lb_name ?ls) = mset (map lb_name (filter kept_label ls @ scope))" by (simp add: mset_map)
  then have "distinct (map lb_name (filter kept_label ls @ scope))" using fin(2) by (metis mset_eq_imp_distinct_iff)
  then show thesis
    using that [OF labels(3) _ fin(1) _ _ _ _ labels(5)] fin(3-5) labels(6,7) series_reads_written [OF w labels(4) os] by simp
qed

subsection \<open>Batches\<close>

datatype batch_item = SeriesItem (item_labels: "metric_label list") (item_fields: "field list") | OtherItem field

definition item_read :: "wire \<Rightarrow> field \<Rightarrow> batch_item \<Rightarrow> bool" where
  "item_read w f i \<longleftrightarrow>
     (case i of
        SeriesItem ls os \<Rightarrow> fst f = 1 \<and> fst (snd f) = 2 \<and> series_reads w (snd (snd f)) ls os
      | OtherItem g \<Rightarrow> fst f \<noteq> 1 \<and> g = f)"

definition batch_reads :: "wire \<Rightarrow> string \<Rightarrow> batch_item list \<Rightarrow> bool" where
  "batch_reads w s items \<longleftrightarrow> (\<exists>fs. fields w s fs \<and> list_all2 (item_read w) fs items)"

text \<open>What the rewriting means: the labels become the kept ones and the scope, in order; nothing else changes.\<close>

definition scoped :: "metric_label list \<Rightarrow> metric_label list \<Rightarrow> metric_label list" where
  "scoped scope ls = sort_key lb_name (filter kept_label ls @ scope)"

fun rewritten_item :: "metric_label list \<Rightarrow> batch_item \<Rightarrow> batch_item" where
  "rewritten_item scope (SeriesItem ls os) = SeriesItem (scoped scope ls) os"
| "rewritten_item scope (OtherItem f) = OtherItem f"

lemma rewritten_item_series:
  "rewritten_item scope i = SeriesItem ls os \<longleftrightarrow> (\<exists>ms. i = SeriesItem ms os \<and> ls = scoped scope ms)"
  by (cases i) auto

lemma rewritten_series_origin:
  assumes "SeriesItem ls os \<in> set (map (rewritten_item scope) js)"
  obtains ms where "SeriesItem ms os \<in> set js" "ls = scoped scope ms"
proof -
  obtain i where i: "i \<in> set js" "SeriesItem ls os = rewritten_item scope i"
    using assms unfolding set_map by (elim imageE)
  obtain ms where "i = SeriesItem ms os" "ls = scoped scope ms"
    using i(2) [symmetric] unfolding rewritten_item_series by blast
  then show thesis using that i(1) by simp
qed

fun is_series :: "batch_item \<Rightarrow> bool" where
  "is_series (SeriesItem ls os) = True"
| "is_series (OtherItem f) = False"

fun item_samples :: "batch_item \<Rightarrow> field list" where
  "item_samples (SeriesItem ls os) = filter is_sample os"
| "item_samples (OtherItem f) = []"

fun item_ok :: "wire \<Rightarrow> batch_limits \<Rightarrow> time \<Rightarrow> metric_label list \<Rightarrow> batch_item \<Rightarrow> bool" where
  "item_ok w lim now scope (SeriesItem ls os) \<longleftrightarrow>
     int (length (scoped scope ls)) \<le> bl_max_labels lim \<and> distinct (map lb_name (scoped scope ls))
     \<and> ''__name__'' \<in> lb_name ` set (scoped scope ls)
     \<and> (\<forall>f \<in> set os. is_sample f \<longrightarrow> sample_ok w lim now (snd (snd f)))"
| "item_ok w lim now scope (OtherItem f) = True"

lemma distinct_scoped: "distinct (map lb_name (scoped scope ls)) = distinct (map lb_name (filter kept_label ls @ scope))"
proof -
  have "mset (map lb_name (scoped scope ls)) = mset (map lb_name (filter kept_label ls @ scope))"
    by (simp add: scoped_def mset_map)
  then show ?thesis by (rule mset_eq_imp_distinct_iff)
qed

lemma batch_step_reads:
  assumes w: "wire_ok w" and p: "batch_step w scope lim now rest (out, st) = Some (Inr (r, (out', st')))"
  obtains f i c g where
    "next_field w rest = Some (f, r)" "item_read w f i" "out' = out @ c"
    "\<And>x. next_field w (c @ x) = Some (g, x)" "item_read w g (rewritten_item scope i)"
    "item_ok w lim now scope i"
    "bs_series st' = bs_series st + (if is_series i then 1 else 0)" "is_series i \<Longrightarrow> bs_series st' \<le> bl_max_series lim"
    "bs_samples st' = bs_samples st + int (length (item_samples i))"
    "item_samples i \<noteq> [] \<Longrightarrow> bs_samples st' \<le> bl_max_samples lim"
    "bs_hashes st' = bs_hashes st @ (if is_series i then [hash_labels (item_labels (rewritten_item scope i))] else [])"
proof -
  obtain n k c where t: "w_tag w rest = Some (n, k, c)"
    using p by (auto simp: batch_step_def split: option.splits)
  show thesis
  proof (cases "n = 1")
    case True
    then have k: "k = 2" using p t by (auto simp: batch_step_def Let_def bytes_type_def split: if_splits)
    then obtain v z where v: "w_bytes w (drop c rest) = Some (v, z)"
      using p t True by (auto simp: batch_step_def Let_def bytes_type_def split: option.splits)
    define st0 where "st0 = st\<lparr>bs_series := bs_series st + 1\<rparr>"
    obtain b where b: "rewrite_time_series w scope lim now v st0 = Some (Inr (b, st'))" "r = drop z (drop c rest)"
        "out' = out @ w_put_tag w 1 2 @ w_put_bytes w b" "bs_series st0 \<le> bl_max_series lim"
      using p t True k v
      by (auto simp: batch_step_def Let_def bytes_type_def st0_def Option.bind_eq_Some_conv passed_on split: if_splits prod.splits)
    obtain ls os where s: "series_reads w v ls os" "series_reads w b (scoped scope ls) os"
        "int (length (scoped scope ls)) \<le> bl_max_labels lim" "distinct (map lb_name (filter kept_label ls @ scope))"
        "''__name__'' \<in> lb_name ` set (filter kept_label ls @ scope)"
        "st' = st0\<lparr>bs_samples := bs_samples st0 + int (length (filter is_sample os)),
              bs_hashes := bs_hashes st0 @ [hash_labels (scoped scope ls)]\<rparr>"
        "filter is_sample os \<noteq> [] \<Longrightarrow> bs_samples st' \<le> bl_max_samples lim"
        "\<forall>f \<in> set os. is_sample f \<longrightarrow> sample_ok w lim now (snd (snd f))"
      using rewrite_time_series_reads [OF w b(1)] by (simp only: scoped_def length_sort) blast
    have "item_ok w lim now scope (SeriesItem ls os)" using s(3-5,8) distinct_scoped by (simp add: scoped_def)
    then show thesis
      using that [of "(1, 2, v)" "SeriesItem ls os" "w_put_tag w 1 2 @ w_put_bytes w b" "(1, 2, b)"]
        next_field_bytes [OF w _ v] t True k b(2-4) s(1,2,6,7) next_field_put [OF w, of 1 b]
      by (simp add: item_read_def st0_def)
  next
    case False
    then obtain z where z: "w_field w n k (drop c rest) = Some z" "r = drop z (drop c rest)"
        "out' = out @ w_put_tag w n k @ take z (drop c rest)" "st' = st"
      using p t by (auto simp: batch_step_def Let_def bytes_type_def split: option.splits)
    have "\<exists>f. fst f = n \<and> next_field w rest = Some (f, r)
        \<and> next_field w (w_put_tag w n k @ take z (drop c rest) @ x) = Some (f, x)" for x
      using next_field_copy [OF w t z(1), of x] z(2) by metis
    then obtain f where f: "fst f = n" "next_field w rest = Some (f, r)"
        "\<And>x. next_field w ((w_put_tag w n k @ take z (drop c rest)) @ x) = Some (f, x)"
      by (metis append.assoc option.inject prod.inject)
    show thesis
      by (rule that [OF f(2) _ z(3) f(3), of "OtherItem f"]) (use False f(1) z(4) in \<open>simp_all add: item_read_def\<close>)
  qed
qed

definition batch_run ::
    "wire \<Rightarrow> metric_label list \<Rightarrow> batch_limits \<Rightarrow> time \<Rightarrow> string \<Rightarrow> string \<times> batch_stats \<Rightarrow> string \<times> batch_stats
       \<Rightarrow> batch_item list \<Rightarrow> string \<Rightarrow> bool" where
  "batch_run w scope lim now s a b items t \<longleftrightarrow>
     batch_reads w s items \<and> fst b = fst a @ t \<and> batch_reads w t (map (rewritten_item scope) items)
     \<and> (\<forall>i \<in> set items. item_ok w lim now scope i)
     \<and> bs_series (snd b) = bs_series (snd a) + int (length (filter is_series items))
     \<and> (filter is_series items \<noteq> [] \<longrightarrow> bs_series (snd b) \<le> bl_max_series lim)
     \<and> bs_samples (snd b) = bs_samples (snd a) + int (length (concat (map item_samples items)))
     \<and> (concat (map item_samples items) \<noteq> [] \<longrightarrow> bs_samples (snd b) \<le> bl_max_samples lim)
     \<and> bs_hashes (snd b) = bs_hashes (snd a)
         @ map (\<lambda>i. hash_labels (item_labels (rewritten_item scope i))) (filter is_series items)"

lemma batch_reads_Nil: "batch_reads w [] []"
  by (auto simp: batch_reads_def intro: no_fields exI [of _ "[]"])

lemma batch_reads_Cons:
  assumes "s \<noteq> []" and "next_field w s = Some (f, r)" and "item_read w f i" and "batch_reads w r items"
  shows "batch_reads w s (i # items)"
proof -
  obtain fs where "fields w r fs" "list_all2 (item_read w) fs items" using assms(4) by (auto simp: batch_reads_def)
  then show ?thesis using a_field [OF assms(1,2)] assms(3) by (auto simp: batch_reads_def intro!: exI [of _ "f # fs"])
qed

lemma batch_scans:
  assumes w: "wire_ok w" and "scans (batch_step w scope lim now) s a b"
  shows "\<exists>items t. batch_run w scope lim now s a b items t"
  using assms(2)
proof (induction rule: scans.induct)
  case (scanned a)
  then show ?case by (intro exI [of _ "[]"]) (simp add: batch_run_def batch_reads_Nil)
next
  case (scan_step rest a r a' b)
  obtain out st out' st' where a: "a = (out, st)" "a' = (out', st')" by (cases a, cases a')
  obtain f i c g where i:
    "next_field w rest = Some (f, r)" "item_read w f i" "out' = out @ c"
    "\<And>x. next_field w (c @ x) = Some (g, x)" "item_read w g (rewritten_item scope i)"
    "item_ok w lim now scope i"
    "bs_series st' = bs_series st + (if is_series i then 1 else 0)" "is_series i \<Longrightarrow> bs_series st' \<le> bl_max_series lim"
    "bs_samples st' = bs_samples st + int (length (item_samples i))"
    "item_samples i \<noteq> [] \<Longrightarrow> bs_samples st' \<le> bl_max_samples lim"
    "bs_hashes st' = bs_hashes st @ (if is_series i then [hash_labels (item_labels (rewritten_item scope i))] else [])"
    using batch_step_reads [OF w scan_step.hyps(2) [unfolded a]] by blast
  obtain items t where run: "batch_run w scope lim now r a' b items t" using scan_step.IH by blast
  have c: "c @ t \<noteq> []" using i(4) [of t] next_field_Nil [OF w] by auto
  have ne: "filter is_series items = [] \<Longrightarrow> bs_series (snd b) = bs_series st'"
    "concat (map item_samples items) = [] \<Longrightarrow> bs_samples (snd b) = bs_samples st'"
    using run by (simp_all add: batch_run_def a)
  have "batch_reads w rest (i # items)"
    using batch_reads_Cons [OF scan_step.hyps(1) i(1,2)] run by (simp add: batch_run_def)
  moreover have "batch_reads w (c @ t) (map (rewritten_item scope) (i # items))"
    using batch_reads_Cons [OF c i(4,5)] run by (simp add: batch_run_def)
  moreover have "filter is_series (i # items) \<noteq> [] \<longrightarrow> bs_series (snd b) \<le> bl_max_series lim"
    using run i(8) ne(1) by (cases "filter is_series items = []") (auto simp: batch_run_def)
  moreover have "concat (map item_samples (i # items)) \<noteq> [] \<longrightarrow> bs_samples (snd b) \<le> bl_max_samples lim"
    using run i(10) ne(2) by (cases "concat (map item_samples items) = []") (auto simp: batch_run_def)
  ultimately have "batch_run w scope lim now rest a b (i # items) (c @ t)"
    using run i(3,6,7,9,11) unfolding batch_run_def a by simp
  then show ?case by blast
qed

lemma rewrite_batch_run:
  assumes "wire_ok w" and "rewrite_batch w scope lim now payload = Some (Inr (out, st))"
  obtains items where "batch_run w scope lim now payload ([], \<lparr>bs_series = 0, bs_samples = 0, bs_hashes = []\<rparr>) (out, st) items out"
proof -
  obtain items t where "batch_run w scope lim now payload ([], \<lparr>bs_series = 0, bs_samples = 0, bs_hashes = []\<rparr>) (out, st) items t"
    using batch_scans [OF assms(1) scan_fields_scans [OF assms(2) [unfolded rewrite_batch_def]]] by blast
  moreover from this have "t = out" by (simp add: batch_run_def)
  ultimately show thesis using that by blast
qed

lemma list_all2_unique:
  assumes u: "\<And>x y z. P x y \<Longrightarrow> P x z \<Longrightarrow> z = y"
  shows "list_all2 P xs ys \<Longrightarrow> list_all2 P xs zs \<Longrightarrow> zs = ys"
proof (induction xs arbitrary: ys zs)
  case Nil
  then show ?case by simp
next
  case (Cons x xs)
  obtain y yt z zt where "ys = y # yt" "zs = z # zt" "P x y" "P x z" "list_all2 P xs yt" "list_all2 P xs zt"
    using Cons.prems by (auto simp: list_all2_Cons1)
  then show ?case using u Cons.IH by metis
qed

lemma series_reads_unique:
  assumes "series_reads w s ls os" and "series_reads w s ms ps"
  shows "ms = ls \<and> ps = os"
proof -
  obtain fs gs where f: "fields w s fs" "list_all2 (label_read w) (filter (\<lambda>f. fst f = 1) fs) ls" "os = filter (\<lambda>f. fst f \<noteq> 1) fs"
    and g: "fields w s gs" "list_all2 (label_read w) (filter (\<lambda>f. fst f = 1) gs) ms" "ps = filter (\<lambda>f. fst f \<noteq> 1) gs"
    using assms by (auto simp: series_reads_def)
  have "gs = fs" using fields_unique [OF f(1) g(1)] .
  moreover have "label_read w x y \<Longrightarrow> label_read w x z \<Longrightarrow> z = y" for x y z
    unfolding label_read_def using reads_label_unique by blast
  ultimately show ?thesis using list_all2_unique [of "label_read w", OF _ f(2)] f(3) g(2,3) by blast
qed

lemma item_read_unique: "item_read w f i \<Longrightarrow> item_read w f j \<Longrightarrow> j = i"
  using series_reads_unique by (cases i; cases j) (auto simp: item_read_def)

lemma batch_reads_unique:
  assumes "batch_reads w s items" and "batch_reads w s js"
  shows "js = items"
proof -
  obtain fs gs where "fields w s fs" "list_all2 (item_read w) fs items" "fields w s gs" "list_all2 (item_read w) gs js"
    using assms by (auto simp: batch_reads_def)
  then show ?thesis using fields_unique list_all2_unique [of "item_read w"] item_read_unique [of w] by blast
qed

subsection \<open>The properties\<close>

text \<open>
  C23: a rewritten batch differs in the labels only. Whatever batch is accepted, it can be read, and what
  the storage reads from the forwarded bytes is the same sequence of series and other fields, every field
  with its content, where each series carries its own labels without the reserved and the empty ones,
  then the scope of the Server, in the order of their names.
\<close>

theorem rewrite_relabels_only:
  assumes "wire_ok w" and "rewrite_batch w scope lim now payload = Some (Inr (out, st))"
  shows "\<exists>items. (\<forall>js. batch_reads w payload js \<longleftrightarrow> js = items)
           \<and> (\<forall>js. batch_reads w out js \<longleftrightarrow> js = map (rewritten_item scope) items)"
proof -
  obtain items where "batch_run w scope lim now payload ([], \<lparr>bs_series = 0, bs_samples = 0, bs_hashes = []\<rparr>) (out, st) items out"
    using rewrite_batch_run [OF assms] .
  then have r: "batch_reads w payload items" "batch_reads w out (map (rewritten_item scope) items)"
    by (simp_all add: batch_run_def)
  have u: "batch_reads w s js \<Longrightarrow> batch_reads w s js' \<longleftrightarrow> js' = js" for s js js'
    using batch_reads_unique by blast
  show ?thesis using u [OF r(1)] u [OF r(2)] by blast
qed

text \<open>
  No cluster speaks for another. In whatever is read from a forwarded batch, the labels with the
  reserved prefix are exactly those of the scope the Server passed, in every series; names are not
  repeated, come sorted, and the metric is named.
\<close>

theorem scope_labels_are_the_servers:
  assumes "wire_ok w" and "rewrite_batch w scope lim now payload = Some (Inr (out, st))"
    and scope: "\<forall>l \<in> set scope. has_prefix (lb_name l) scope_label_prefix"
    and "batch_reads w out items" and "SeriesItem ls os \<in> set items"
  shows "mset (filter (\<lambda>l. has_prefix (lb_name l) scope_label_prefix) ls) = mset scope
         \<and> distinct (map lb_name ls) \<and> sorted (map lb_name ls) \<and> ''__name__'' \<in> lb_name ` set ls"
proof -
  obtain js where run: "batch_run w scope lim now payload ([], \<lparr>bs_series = 0, bs_samples = 0, bs_hashes = []\<rparr>) (out, st) js out"
    using rewrite_batch_run [OF assms(1,2)] .
  then have "batch_reads w out (map (rewritten_item scope) js)" by (simp add: batch_run_def)
  then have items: "items = map (rewritten_item scope) js" using batch_reads_unique assms(4) by blast
  obtain ms where ms: "SeriesItem ms os \<in> set js" "ls = scoped scope ms"
    by (rule rewritten_series_origin [OF assms(5) [unfolded items]])
  then have ok: "item_ok w lim now scope (SeriesItem ms os)" using run unfolding batch_run_def by blast
  have none: "filter (\<lambda>l. has_prefix (lb_name l) scope_label_prefix) (filter kept_label ms) = []"
    by (auto simp: filter_empty_conv kept_label_def)
  have all: "filter (\<lambda>l. has_prefix (lb_name l) scope_label_prefix) scope = scope"
    using scope by (simp add: filter_id_conv)
  have "mset (filter (\<lambda>l. has_prefix (lb_name l) scope_label_prefix) ls)
      = filter_mset (\<lambda>l. has_prefix (lb_name l) scope_label_prefix) (mset (filter kept_label ms @ scope))"
    unfolding ms(2) scoped_def mset_filter by simp
  also have "\<dots> = mset (filter (\<lambda>l. has_prefix (lb_name l) scope_label_prefix) (filter kept_label ms @ scope))"
    by (simp only: mset_filter)
  also have "\<dots> = mset scope" by (simp only: filter_append none all append_Nil)
  finally show ?thesis using ok ms(2) by (simp add: scoped_def)
qed

text \<open>
  An accepted batch is within its limits. The numbers of series and samples the Server counts are
  those that can be read from what it forwards; neither passes its limit, no series has more labels than
  allowed, and every sample has a positive timestamp inside the window around the time of arrival.
\<close>

theorem batch_within_limits:
  assumes "wire_ok w" and "rewrite_batch w scope lim now payload = Some (Inr (out, st))" and "batch_reads w out items"
  shows "bs_series st = int (length (filter is_series items)) \<and> bs_series st \<le> max 0 (bl_max_series lim)
         \<and> bs_samples st = int (length (concat (map item_samples items))) \<and> bs_samples st \<le> max 0 (bl_max_samples lim)
         \<and> bs_hashes st = map (\<lambda>i. hash_labels (item_labels i)) (filter is_series items)
         \<and> (\<forall>ls os. SeriesItem ls os \<in> set items \<longrightarrow>
              int (length ls) \<le> bl_max_labels lim
              \<and> (\<forall>f \<in> set os. is_sample f \<longrightarrow> sample_ok w lim now (snd (snd f))))"
proof -
  obtain js where run: "batch_run w scope lim now payload ([], \<lparr>bs_series = 0, bs_samples = 0, bs_hashes = []\<rparr>) (out, st) js out"
    using rewrite_batch_run [OF assms(1,2)] .
  then have items: "items = map (rewritten_item scope) js"
    using batch_reads_unique [OF _ assms(3)] by (simp add: batch_run_def)
  have ser: "is_series (rewritten_item scope i) = is_series i" for i by (cases i) simp_all
  have sam: "item_samples (rewritten_item scope i) = item_samples i" for i by (cases i) simp_all
  have f: "filter is_series items = map (rewritten_item scope) (filter is_series js)"
    unfolding items by (induction js) (simp_all add: ser)
  have s: "concat (map item_samples items) = concat (map item_samples js)"
    unfolding items by (induction js) (simp_all add: sam)
  have ok: "int (length ls) \<le> bl_max_labels lim \<and> (\<forall>f \<in> set os. is_sample f \<longrightarrow> sample_ok w lim now (snd (snd f)))"
    if m: "SeriesItem ls os \<in> set items" for ls os
  proof -
    obtain ms where ms: "SeriesItem ms os \<in> set js" "ls = scoped scope ms"
      by (rule rewritten_series_origin [OF m [unfolded items]])
    have "item_ok w lim now scope (SeriesItem ms os)" using run ms(1) unfolding batch_run_def by blast
    then show ?thesis unfolding ms by simp
  qed
  have counts: "bs_series st = int (length (filter is_series js))" "bs_samples st = int (length (concat (map item_samples js)))"
      "bs_hashes st = map (\<lambda>i. hash_labels (item_labels (rewritten_item scope i))) (filter is_series js)"
      "filter is_series js \<noteq> [] \<longrightarrow> bs_series st \<le> bl_max_series lim"
      "concat (map item_samples js) \<noteq> [] \<longrightarrow> bs_samples st \<le> bl_max_samples lim"
    using run unfolding batch_run_def fst_conv snd_conv batch_stats.select_convs add_0 append_Nil by blast+
  have m: "(xs \<noteq> [] \<longrightarrow> n \<le> k) \<Longrightarrow> n = int (length xs) \<Longrightarrow> n \<le> max 0 k" for xs :: "'b list" and n k
    by (cases "xs = []") simp_all
  have "bs_series st \<le> max 0 (bl_max_series lim)" "bs_samples st \<le> max 0 (bl_max_samples lim)"
    by (rule m [OF counts(4,1)], rule m [OF counts(5,2)])
  moreover have "bs_hashes st = map (\<lambda>i. hash_labels (item_labels i)) (filter is_series items)"
    unfolding f counts(3) by simp
  ultimately show ?thesis using counts(1,2) ok unfolding s by (simp add: f)
qed

subsection \<open>The loops end\<close>

lemma scan_ends:
  assumes w: "wire_ok w" and some: "\<And>rest a. step rest a \<noteq> None"
    and reads: "\<And>rest a r a'. step rest a = Some (Inr (r, a')) \<Longrightarrow> \<exists>f. next_field w rest = Some (f, r)"
  shows "scan_fields step s a \<noteq> None"
proof -
  have "\<exists>r. step rest a = Some r \<and> (\<forall>t a'. r = Inr (t, a') \<longrightarrow> length t < length rest)" for rest a
  proof -
    obtain r where r: "step rest a = Some r" using some [of rest a] by blast
    have "length t < length rest" if "r = Inr (t, a')" for t a'
      using reads [of rest a t a'] r that next_field_shorter [OF w] by blast
    then show ?thesis using r by blast
  qed
  then show ?thesis using scan_fields_returns [of s step a] by auto
qed

lemma parse_label_ends:
  assumes w: "wire_ok w"
  shows "parse_label w lim s \<noteq> None"
proof -
  have "scan_fields (parse_label_step w) s no_label \<noteq> None"
    by (rule scan_ends [OF w]) (simp add: parse_label_step_def, use parse_label_step_reads [OF w] in blast)
  then show ?thesis by (auto simp: parse_label_def)
qed

lemma validate_sample_ends:
  assumes w: "wire_ok w"
  shows "validate_sample w lim now s \<noteq> None"
proof -
  have "scan_fields (sample_step w) s None \<noteq> None"
    by (rule scan_ends [OF w]) (simp add: sample_step_def, use sample_step_reads [OF w] in blast)
  then show ?thesis by (auto simp: validate_sample_def)
qed

lemma series_step_ends:
  assumes w: "wire_ok w"
  shows "series_step w lim now rest s \<noteq> None"
proof -
  define P where "P v = the (parse_label w lim v)" for v
  have P: "parse_label w lim v = Some (P v)" for v
    using parse_label_ends [OF w, of lim v] unfolding P_def by (rule option.collapse [symmetric])
  define V where "V v = the (validate_sample w lim now v)" for v
  have V: "validate_sample w lim now v = Some (V v)" for v
    using validate_sample_ends [OF w, of lim now v] unfolding V_def by (rule option.collapse [symmetric])
  show ?thesis by (simp add: series_step_def Let_def P V split: option.split prod.split sum.split)
qed

lemma rewrite_time_series_ends:
  assumes w: "wire_ok w"
  shows "rewrite_time_series w scope lim now s st \<noteq> None"
proof -
  have "scan_fields (series_step w lim now) s \<lparr>sc_labels = [], sc_tail = [], sc_stats = st\<rparr> \<noteq> None"
    by (rule scan_ends [OF w series_step_ends [OF w]]) (use series_step_reads [OF w] in blast)
  then show ?thesis by (auto simp: rewrite_time_series_def)
qed

lemma batch_step_ends:
  assumes w: "wire_ok w"
  shows "batch_step w scope lim now rest a \<noteq> None"
proof -
  define R where "R v st = the (rewrite_time_series w scope lim now v st)" for v st
  have R: "rewrite_time_series w scope lim now v st = Some (R v st)" for v st
    using rewrite_time_series_ends [OF w, of scope lim now v st] unfolding R_def by (rule option.collapse [symmetric])
  show ?thesis by (simp add: batch_step_def Let_def R split: option.split prod.split sum.split)
qed

lemma batch_step_consumes:
  assumes w: "wire_ok w" and "batch_step w scope lim now rest a = Some (Inr (r, a'))"
  shows "\<exists>f. next_field w rest = Some (f, r)"
proof (rule batch_step_reads [OF w, of scope lim now rest "fst a" "snd a" r "fst a'" "snd a'"])
  show "batch_step w scope lim now rest (fst a, snd a) = Some (Inr (r, fst a', snd a'))" using assms(2) by simp
next
  fix f assume "next_field w rest = Some (f, r)"
  then show ?thesis by blast
qed

text \<open>
  C24: every payload gets an answer. Whatever bytes arrive, the four nested loops over fields end, and the
  rewriting returns a batch or an error.
\<close>

theorem rewrite_returns:
  assumes w: "wire_ok w"
  shows "\<exists>r. rewrite_batch w scope lim now payload = Some r"
proof -
  have "rewrite_batch w scope lim now payload \<noteq> None"
    unfolding rewrite_batch_def
    by (rule scan_ends [OF w batch_step_ends [OF w]]) (use batch_step_consumes [OF w] in blast)
  then show ?thesis by blast
qed

subsection \<open>The protobuf encoding\<close>

text \<open>
  The wire of the examples: base-128 varints, tags of number and type, length-delimited bytes and the two
  fixed widths, without groups and without the limit of ten bytes on a varint.
\<close>

fun put_varint :: "nat \<Rightarrow> string" where
  "put_varint n = (if n < 128 then [char_of n] else char_of (n mod 128 + 128) # put_varint (n div 128))"

declare put_varint.simps [simp del]

fun get_varint :: "string \<Rightarrow> (nat \<times> nat) option" where
  "get_varint [] = None"
| "get_varint (c # cs) =
     (if of_char c < (128 :: nat) then Some (of_char c, 1)
      else case get_varint cs of None \<Rightarrow> None | Some (v, k) \<Rightarrow> Some ((of_char c - 128) + 128 * v, Suc k))"

definition proto_bytes :: "string \<Rightarrow> (string \<times> nat) option" where
  "proto_bytes s =
     (case get_varint s of
        None \<Rightarrow> None | Some (n, c) \<Rightarrow> if c + n \<le> length s then Some (take n (drop c s), c + n) else None)"

definition proto_wire :: wire where
  "proto_wire = \<lparr>
     w_tag = (\<lambda>s. case get_varint s of
                None \<Rightarrow> None | Some (v, c) \<Rightarrow> if v < 8 then None else Some (int (v div 8), int (v mod 8), c)),
     w_bytes = proto_bytes,
     w_varint = (\<lambda>s. map_option (\<lambda>(v, c). (of_nat v, c)) (get_varint s)),
     w_field = (\<lambda>n k s.
       if k = 0 then map_option snd (get_varint s) else if k = 2 then map_option snd (proto_bytes s)
       else if k = 1 \<and> 8 \<le> length s then Some 8 else if k = 5 \<and> 4 \<le> length s then Some 4 else None),
     w_put_tag = (\<lambda>n k. put_varint (nat n * 8 + nat k)),
     w_put_bytes = (\<lambda>v. put_varint (length v) @ v)\<rparr>"

lemma get_varint_bounds: "get_varint s = Some (v, c) \<Longrightarrow> 0 < c \<and> c \<le> length s"
  by (induction s arbitrary: v c) (auto split: if_splits option.splits)

lemma get_varint_local: "get_varint s = Some (v, c) \<Longrightarrow> get_varint (take c s @ r) = Some (v, c)"
  by (induction s arbitrary: v c) (auto split: if_splits option.splits)

lemma get_put_varint: "get_varint (put_varint n @ r) = Some (n, length (put_varint n))"
proof (induction n rule: less_induct)
  case (less n)
  show ?case
  proof (cases "n < 128")
    case True
    then show ?thesis by (simp add: put_varint.simps [of n])
  next
    case False
    have m: "n mod 128 + 128 < 256" by simp
    have "n div 128 < n" using False by simp
    then have "get_varint (put_varint (n div 128) @ r) = Some (n div 128, length (put_varint (n div 128)))" by (rule less.IH)
    moreover have "n mod 128 + 128 * (n div 128) = n" by simp
    ultimately show ?thesis using False m by (simp add: put_varint.simps [of n])
  qed
qed

lemma proto_bytes_local:
  assumes "proto_bytes s = Some (v, z)"
  shows "z \<le> length s" "proto_bytes (take z s @ r) = Some (v, z)"
proof -
  obtain n c where n: "get_varint s = Some (n, c)" "c + n \<le> length s" "v = take n (drop c s)" "z = c + n"
    using assms by (auto simp: proto_bytes_def split: option.splits if_splits)
  show "z \<le> length s" using n by simp
  have "get_varint (take c s @ drop c (take z s) @ r) = Some (n, c)" by (rule get_varint_local [OF n(1)])
  moreover have "take c s @ drop c (take z s) @ r = take z s @ r"
    using n(4) by (metis append.assoc append_take_drop_id le_add1 min.absorb1 take_take)
  ultimately have "get_varint (take z s @ r) = Some (n, c)" by simp
  then show "proto_bytes (take z s @ r) = Some (v, z)"
    using n(2-4) by (simp add: proto_bytes_def take_drop)
qed

lemma proto_wire_ok: "wire_ok proto_wire"
  unfolding wire_ok_def
proof (intro conjI)
  show "tags_ok proto_wire"
    using get_varint_bounds get_put_varint
    by (auto simp: tags_ok_def proto_wire_def split: option.splits if_splits)
  show "bytes_ok proto_wire"
    using proto_bytes_local get_put_varint by (auto simp: bytes_ok_def proto_wire_def proto_bytes_def)
  show "values_ok proto_wire"
    using proto_bytes_local get_varint_bounds get_varint_local
    by (auto simp: values_ok_def proto_wire_def option.map_comp comp_def split_beta split: if_splits)
qed

subsection \<open>An example batch\<close>

text \<open>
  One series \<open>up\<close> that claims to be of cluster \<open>x\<close>, with one sample five milliseconds after the epoch,
  and what the Server makes of it for cluster \<open>c1\<close>.
\<close>

definition ex_limits :: batch_limits where
  "ex_limits = \<lparr>bl_max_series = 1, bl_max_samples = 1, bl_max_labels = 2, bl_max_name = 20, bl_max_value = 20,
     bl_max_age = hour, bl_max_future = minute\<rparr>"

definition ex_scope :: "metric_label list" where
  "ex_scope = [\<lparr>lb_name = ''zke_cluster_id'', lb_value = ''c1''\<rparr>]"

definition ex_sent :: string where
  "ex_sent = CHR 0x0A # CHR 0x29 # CHR 0x0A # CHR 0x0E # CHR 0x0A # CHR 0x08 # ''__name__'' @ CHR 0x12 # CHR 0x02 # ''up''
     @ CHR 0x0A # CHR 0x13 # CHR 0x0A # CHR 0x0E # ''zke_cluster_id'' @ CHR 0x12 # CHR 0x01 # ''x''
     @ [CHR 0x12, CHR 0x02, CHR 0x10, CHR 0x05]"

definition ex_series :: string where
  "ex_series = CHR 0x0A # CHR 0x0E # CHR 0x0A # CHR 0x08 # ''__name__'' @ CHR 0x12 # CHR 0x02 # ''up''
     @ CHR 0x0A # CHR 0x14 # CHR 0x0A # CHR 0x0E # ''zke_cluster_id'' @ CHR 0x12 # CHR 0x02 # ''c1''
     @ [CHR 0x12, CHR 0x02, CHR 0x10, CHR 0x05]"

definition ex_forwarded :: string where
  "ex_forwarded = CHR 0x0A # CHR 0x2A # ex_series"

definition ex_labels :: "metric_label list" where
  "ex_labels = [\<lparr>lb_name = ''__name__'', lb_value = ''up''\<rparr>, \<lparr>lb_name = ''zke_cluster_id'', lb_value = ''c1''\<rparr>]"

definition ex_sample :: field where
  "ex_sample = (2, 2, [CHR 0x10, CHR 0x05])"

definition ex_stats :: batch_stats where
  "ex_stats = \<lparr>bs_series = 1, bs_samples = 1, bs_hashes = [hash_labels ex_labels]\<rparr>"

lemma ex_rewritten:
  "rewrite_batch proto_wire ex_scope ex_limits 0 ex_sent = Some (Inr (ex_forwarded, ex_stats))"
  by code_simp

lemma ex_series_reads: "series_reads proto_wire ex_series ex_labels [ex_sample]"
proof -
  have "fields proto_wire [CHR 0x12, CHR 0x02, CHR 0x10, CHR 0x05] [ex_sample]"
    by (rule a_field [OF _ _ no_fields]) (simp, code_simp)
  then have "series_reads proto_wire (concat (map (encode_label proto_wire) ex_labels) @ [CHR 0x12, CHR 0x02, CHR 0x10, CHR 0x05])
      ex_labels [ex_sample]"
    by (rule series_reads_written [OF proto_wire_ok]) (simp add: ex_sample_def)
  moreover have "concat (map (encode_label proto_wire) ex_labels) @ [CHR 0x12, CHR 0x02, CHR 0x10, CHR 0x05] = ex_series"
    by code_simp
  ultimately show ?thesis by simp
qed

lemma ex_forwarded_reads: "batch_reads proto_wire ex_forwarded [SeriesItem ex_labels [ex_sample]]"
proof (rule batch_reads_Cons [OF _ _ _ batch_reads_Nil])
  show "ex_forwarded \<noteq> []" by (simp add: ex_forwarded_def)
  show "next_field proto_wire ex_forwarded = Some ((1, 2, ex_series), [])" by code_simp
  show "item_read proto_wire (1, 2, ex_series) (SeriesItem ex_labels [ex_sample])"
    by (simp add: item_read_def ex_series_reads)
qed

theorem rewrite_relabels_only_witness:
  "\<exists>items. batch_reads proto_wire ex_sent items \<and> map (rewritten_item ex_scope) items = [SeriesItem ex_labels [ex_sample]]"
  using rewrite_relabels_only [OF proto_wire_ok ex_rewritten] ex_forwarded_reads by metis

theorem scope_labels_are_the_servers_witness:
  "mset (filter (\<lambda>l. has_prefix (lb_name l) scope_label_prefix) ex_labels) = mset ex_scope"
proof -
  have "\<forall>l \<in> set ex_scope. has_prefix (lb_name l) scope_label_prefix" by code_simp
  from scope_labels_are_the_servers [OF proto_wire_ok ex_rewritten this ex_forwarded_reads] show ?thesis by simp
qed

theorem batch_within_limits_witness:
  "bs_series ex_stats = 1 \<and> sample_ok proto_wire ex_limits 0 [CHR 0x10, CHR 0x05]"
  using batch_within_limits [OF proto_wire_ok ex_rewritten ex_forwarded_reads]
  by (simp add: is_sample_def ex_sample_def)

theorem rewrite_returns_witness: "\<exists>r. rewrite_batch proto_wire ex_scope ex_limits 0 ''not a batch'' = Some r"
  by (rule rewrite_returns [OF proto_wire_ok])

end
