(* ===== verification/RequestGate.thy ===== *)
theory RequestGate
  imports Rbac
begin

section \<open>The authorization middleware\<close>

text \<open>
  \<open>pkg/server/httpapi/middleware\<close>: what stands between an authenticated request and its handler. A
  request is a \<open>gin_context\<close>: the parts of the HTTP request the gates read, what earlier handlers left in
  the context, the reply once one of them aborted, and the denials sent to the audit trail. The routes
  chain the gates as \<open>routes.go\<close> does. The JSON decoder is an argument.
\<close>

subsection \<open>Requests\<close>

text \<open>A body and whether reading it past its end fails; \<open>None\<close> is a request without one.\<close>

record request_body =
  bo_data :: string
  bo_broken :: bool

record denial =
  dn_actor :: string
  dn_scope_type :: string
  dn_scope_id :: string
  dn_action :: permission
  dn_target_type :: string
  dn_target_id :: string
  dn_requested :: "permission option"

record secret_grant =
  sg_read :: bool
  sg_manage :: bool

record manifest_grant =
  mg_resource_create :: bool
  mg_resource_update :: bool
  mg_resource_delete :: bool
  mg_namespace_manage :: bool
  mg_node_manage :: bool
  mg_secret_read :: bool
  mg_secret_manage :: bool
  mg_rbac_manage :: bool
  mg_system_namespace :: bool
  mg_agent_namespace :: bool

record namespace_grant =
  ng_system :: bool
  ng_agent :: bool

record gin_context =
  gc_method :: string
  gc_full_path :: string
  gc_params :: "(string \<times> string) list"
  gc_query :: "(string \<times> string) list"
  gc_body :: "request_body option"
  gc_identity :: "string option"
  gc_resolved :: "resolved_scope option"
  gc_target :: "string option"
  gc_secret :: "secret_grant option"
  gc_manifest :: "manifest_grant option"
  gc_namespace :: "namespace_grant option"
  gc_cache :: binding_cache
  gc_denials :: "denial list"
  gc_reply :: "(nat \<times> string) option"

record authorization =
  az_store :: rbac_store
  az_audits :: bool
  az_timed_out :: "string \<Rightarrow> bool"

definition param_of :: "gin_context \<Rightarrow> string \<Rightarrow> string" where
  "param_of c k = (case map_of (gc_params c) k of None \<Rightarrow> [] | Some v \<Rightarrow> v)"

definition query_of :: "gin_context \<Rightarrow> string \<Rightarrow> string" where
  "query_of c k = (case map_of (gc_query c) k of None \<Rightarrow> [] | Some v \<Rightarrow> v)"

definition aborted :: "nat \<Rightarrow> string \<Rightarrow> gin_context \<Rightarrow> gin_context" where
  "aborted status code c = c\<lparr>gc_reply := Some (status, code)\<rparr>"

text \<open>\<open>scope.go\<close>.\<close>

definition set_resolved_scope :: "resolved_scope \<Rightarrow> gin_context \<Rightarrow> gin_context" where
  "set_resolved_scope r c =
     (if resolved_tenant r = [] \<and> resolved_project r = [] then c else c\<lparr>gc_resolved := Some r\<rparr>)"

subsection \<open>Which namespace a request is about\<close>

definition resources_path :: string where "resources_path = ''/kubernetes/resources''"
definition namespaces_route :: string where "namespaces_route = ''/api/v1/clusters/:cluster_id/namespaces''"
definition resources_route :: string where
  "resources_route = ''/api/v1/clusters/:cluster_id/kubernetes/resources''"
definition namespace_route :: string where
  "namespace_route = ''/api/v1/clusters/:cluster_id/namespaces/:namespace_name''"

definition names_resource :: "gin_context \<Rightarrow> string \<Rightarrow> bool" where
  "names_resource c resource \<longleftrightarrow>
     query_of c ''group'' = [] \<and> query_of c ''version'' = ''v1'' \<and> query_of c ''resource'' = resource"

definition is_node_object_mutation :: "gin_context \<Rightarrow> bool" where
  "is_node_object_mutation c \<longleftrightarrow>
     gc_method c \<noteq> ''GET'' \<and> contains (gc_full_path c) resources_path \<and> names_resource c ''nodes''"

definition is_namespace_object_mutation :: "gin_context \<Rightarrow> bool" where
  "is_namespace_object_mutation c \<longleftrightarrow>
     gc_method c \<noteq> ''GET'' \<and> contains (gc_full_path c) resources_path \<and> names_resource c ''namespaces''"

definition is_namespace_lifecycle_route :: "gin_context \<Rightarrow> bool" where
  "is_namespace_lifecycle_route c \<longleftrightarrow> gc_full_path c = namespace_route \<and> gc_method c \<noteq> ''GET''"

text \<open>
  The decoder answers whether the body decodes, and the two names \<open>name\<close> and \<open>metadata.name\<close> it stored,
  empty when absent; what it stored under \<open>metadata\<close> before an error stays.
\<close>

type_synonym name_decoder = "string \<Rightarrow> bool \<times> string \<times> string"

definition look_ahead_limit :: nat where "look_ahead_limit = 65536"

definition namespace_create_target :: "name_decoder \<Rightarrow> gin_context \<Rightarrow> string \<times> gin_context" where
  "namespace_create_target decode c =
     (case gc_target c of
        Some v \<Rightarrow> (v, c)
      | None \<Rightarrow>
          (case gc_body c of
             None \<Rightarrow> ([], c\<lparr>gc_target := Some []\<rparr>)
           | Some b \<Rightarrow>
               (let body = take (look_ahead_limit + 1) (bo_data b);
                    failed = bo_broken b \<and> length (bo_data b) \<le> look_ahead_limit;
                    c1 = c\<lparr>gc_body := Some \<lparr>bo_data = body, bo_broken = False\<rparr>\<rparr>
                in if failed \<or> look_ahead_limit < length body then ([], c1\<lparr>gc_target := Some []\<rparr>)
                   else case decode body of
                          (decoded, name, meta) \<Rightarrow>
                            (let target = (if decoded \<and> name \<noteq> [] then name else meta)
                             in (target, c1\<lparr>gc_target := Some target\<rparr>)))))"

text \<open>The answer is the empty permission when the request is not about a protected namespace.\<close>

definition protected_namespace_permission ::
    "name_decoder \<Rightarrow> gin_context \<Rightarrow> string \<Rightarrow> permission \<times> gin_context" where
  "protected_namespace_permission decode c agent =
     (let named = (if param_of c ''namespace_name'' = [] then query_of c ''namespace'' else param_of c ''namespace_name'');
          by_name = named = [] \<and> param_of c ''resource_name'' \<noteq> [] \<and> names_resource c ''namespaces'';
          named' = (if by_name then param_of c ''resource_name'' else named);
          by_body = named' = [] \<and> gc_method c = ''POST''
                    \<and> (gc_full_path c = namespaces_route
                       \<or> gc_full_path c = resources_route \<and> names_resource c ''namespaces'');
          (namespace, c') = (if by_body then namespace_create_target decode c else (named', c))
      in if namespace = [] then ([], c')
         else if agent \<noteq> [] \<and> namespace = agent then (''cluster.agent_namespace.manage'', c')
         else if has_prefix namespace ''kube-''
                 \<or> namespace = ''default''
                   \<and> (by_name \<or> by_body \<or> is_namespace_lifecycle_route c
                      \<or> gc_method c = ''POST'' \<and> gc_full_path c = namespaces_route)
         then (''cluster.system_namespace.manage'', c')
         else ([], c'))"

definition ordinary_powers :: "permission list" where
  "ordinary_powers =
     [''cluster.namespace.manage'', ''cluster.resource.create'', ''cluster.resource.update'', ''cluster.resource.delete'']"

definition effective_cluster_permission ::
    "name_decoder \<Rightarrow> gin_context \<Rightarrow> permission \<Rightarrow> string \<Rightarrow> permission \<times> gin_context" where
  "effective_cluster_permission decode c p agent =
     (case protected_namespace_permission decode c agent of
        (protected, c') \<Rightarrow>
          ((if p \<in> set ordinary_powers
            then if is_node_object_mutation c' then ''cluster.node.manage''
                 else if protected \<noteq> [] then protected
                 else if is_namespace_object_mutation c' then ''cluster.namespace.manage''
                 else p
            else p), c'))"

definition needs_additional_gate :: "gin_context \<Rightarrow> bool" where
  "needs_additional_gate c \<longleftrightarrow>
     (if gc_method c \<noteq> ''GET''
      then contains (gc_full_path c) ''/secrets'' \<or> contains (gc_full_path c) ''/helm-releases''
           \<or> contains (gc_full_path c) ''/authorization'' \<or> contains (gc_full_path c) ''/terminal-sessions''
           \<or> contains (gc_full_path c) ''/access-sessions''
      else contains (gc_full_path c) ''/secrets'' \<or> contains (gc_full_path c) ''/helm-releases''
           \<or> contains (gc_full_path c) ''/terminal-sessions'')"

subsection \<open>Recording a denial\<close>

definition permission_target_type :: "permission \<Rightarrow> string" where
  "permission_target_type p =
     (if p \<in> {''tenant.create'', ''tenant.read'', ''tenant.manage''} then ''tenant''
      else if p \<in> {''project.create'', ''project.read'', ''project.manage''} then ''project''
      else if p = ''application.manage'' then ''custom_application''
      else if p \<in> {''cluster.read'', ''cluster.pod.logs.read'', ''cluster.pod.exec'',
                     ''cluster.pod.terminal_recording.create'', ''cluster.pod.terminal_recording.read'',
                     ''cluster.pod.port_forward'', ''cluster.event.read'', ''cluster.manage'',
                     ''cluster.connection.revoke''} then ''cluster''
      else if p \<in> {''cluster.namespace.manage'', ''cluster.system_namespace.manage'',
                     ''cluster.agent_namespace.manage'', ''cluster.node.manage'', ''cluster.node.drain'',
                     ''cluster.resource.create'', ''cluster.resource.update'', ''cluster.resource.delete''}
      then ''kubernetes_resource''
      else if p \<in> {''cluster.enrollment.create'', ''cluster.enrollment.read'', ''cluster.enrollment.revoke''}
      then ''enrollment''
      else if p \<in> {''user.read'', ''user.manage'', ''user.password.change''} then ''user''
      else if p \<in> {''rbac.read'', ''rbac.manage''} then ''role_binding''
      else if p = ''audit.read'' then ''audit_event''
      else ''user'')"

text \<open>Which audit call is made depends on the scope; an event of another scope is not written.\<close>

definition record_denied ::
    "authorization \<Rightarrow> string \<Rightarrow> permission \<Rightarrow> permission \<Rightarrow> string \<Rightarrow> string \<Rightarrow> gin_context \<Rightarrow> gin_context" where
  "record_denied az u p requested scope_ty scope_param c =
     (if \<not> az_audits az \<or> scope_ty \<notin> {''global'', ''tenant'', ''project'', ''cluster'', ''agent''} then c
      else c\<lparr>gc_denials := gc_denials c @
             [\<lparr>dn_actor = u, dn_scope_type = scope_ty,
               dn_scope_id = (if scope_ty = ''global'' then [] else param_of c scope_param), dn_action = p,
               dn_target_type = (if scope_ty = ''agent'' then [] else permission_target_type p),
               dn_target_id = (if scope_ty = ''agent'' then [] else param_of c (permission_target_type p @ ''_id'')),
               dn_requested = (if requested \<noteq> [] \<and> requested \<noteq> p then Some requested else None)\<rparr>]\<rparr>)"

subsection \<open>The gates\<close>

text \<open>A check answers an error or the resolved scope, the permission it checked, and the context.\<close>

type_synonym gate_check = "string \<Rightarrow> gin_context \<Rightarrow> (rbac_error + resolved_scope) \<times> permission \<times> gin_context"

definition require_gate ::
    "authorization \<Rightarrow> permission \<Rightarrow> string \<Rightarrow> string \<Rightarrow> gate_check \<Rightarrow> gin_context \<Rightarrow> gin_context" where
  "require_gate az p scope_ty scope_param check c =
     (case gc_identity c of
        None \<Rightarrow> aborted 401 ''unauthenticated'' c
      | Some u \<Rightarrow>
          (case check u c of
             (result, checked, c1) \<Rightarrow>
               (let q = (if checked = [] then p else checked) in
                case result of
                  Inr resolved \<Rightarrow> set_resolved_scope resolved c1
                | Inl ErrDenied \<Rightarrow> aborted 403 ''forbidden'' (record_denied az u q p scope_ty scope_param c1)
                | Inl ErrInvalidScope \<Rightarrow> aborted 400 ''invalid_request'' c1
                | Inl (ErrStore e) \<Rightarrow>
                    if az_timed_out az e then aborted 504 ''timeout'' c1 else aborted 500 ''internal_error'' c1
                | Inl (ErrUnknownPermission _) \<Rightarrow> aborted 500 ''internal_error'' c1)))"

text \<open>A decision of the service takes the memo of the request and leaves it behind.\<close>

definition decided :: "(binding_cache \<Rightarrow> 'a decision) \<Rightarrow> gin_context \<Rightarrow> (rbac_error + 'a) \<times> gin_context" where
  "decided d c = (case d (gc_cache c) of (r, m) \<Rightarrow> (r, c\<lparr>gc_cache := m\<rparr>))"

definition require_global :: "authorization \<Rightarrow> permission \<Rightarrow> gin_context \<Rightarrow> gin_context" where
  "require_global az p =
     require_gate az p ''global'' []
       (\<lambda>u c. case decided (\<lambda>m. authorize_global (az_store az) m u p) c of
                (r, c') \<Rightarrow> (and_then r (\<lambda>_. Inr no_resolved_scope), p, c'))"

definition require_tenant :: "authorization \<Rightarrow> permission \<Rightarrow> string \<Rightarrow> gin_context \<Rightarrow> gin_context" where
  "require_tenant az p tenant_param =
     require_gate az p ''tenant'' tenant_param
       (\<lambda>u c. let t = param_of c tenant_param in
              case decided (\<lambda>m. authorize_tenant (az_store az) m u p t) c of
                (r, c') \<Rightarrow> (and_then r (\<lambda>_. Inr (no_resolved_scope\<lparr>resolved_tenant := t\<rparr>)), p, c'))"

definition require_project :: "authorization \<Rightarrow> permission \<Rightarrow> string \<Rightarrow> gin_context \<Rightarrow> gin_context" where
  "require_project az p project_param =
     require_gate az p ''project'' project_param
       (\<lambda>u c. case decided (\<lambda>m. authorize_project (az_store az) m u p (param_of c project_param)) c of
                (r, c') \<Rightarrow> (r, p, c'))"

definition check_resolved ::
    "authorization \<Rightarrow> string \<Rightarrow> permission \<Rightarrow> resolved_scope \<Rightarrow> gin_context
       \<Rightarrow> (rbac_error + resolved_scope) \<times> permission \<times> gin_context" where
  "check_resolved az u q r c =
     (case decided (\<lambda>m. authorize_resolved_cluster (az_store az) m u q r) c of
        (d, c') \<Rightarrow> (and_then d (\<lambda>_. Inr r), q, c'))"

definition require_cluster ::
    "authorization \<Rightarrow> name_decoder \<Rightarrow> permission \<Rightarrow> string \<Rightarrow> gin_context \<Rightarrow> gin_context" where
  "require_cluster az decode p cluster_param =
     require_gate az p ''cluster'' cluster_param
       (\<lambda>u c. case (case gc_resolved c of
                       Some r \<Rightarrow> Inr r
                     | None \<Rightarrow> resolve_cluster_scope (az_store az) (param_of c cluster_param)) of
                Inl e \<Rightarrow> (Inl e, p, c)
              | Inr r \<Rightarrow>
                  (case effective_cluster_permission decode c p (resolved_agent_namespace r) of
                     (q, c') \<Rightarrow> check_resolved az u q r c'))"

definition require_protected_namespace_access ::
    "authorization \<Rightarrow> name_decoder \<Rightarrow> string \<Rightarrow> gin_context \<Rightarrow> gin_context" where
  "require_protected_namespace_access az decode cluster_param c =
     (if \<not> needs_additional_gate c then c
      else require_gate az ''cluster.read'' ''cluster'' cluster_param
             (\<lambda>u c. case resolve_cluster_scope (az_store az) (param_of c cluster_param) of
                      Inl e \<Rightarrow> (Inl e, ''cluster.read'', c)
                    | Inr r \<Rightarrow>
                        (case protected_namespace_permission decode c (resolved_agent_namespace r) of
                           (q, c') \<Rightarrow> if q = [] then (Inr r, [], c') else check_resolved az u q r c')) c)"

definition global_administrator_denied :: "string \<Rightarrow> denial" where
  "global_administrator_denied u =
     \<lparr>dn_actor = u, dn_scope_type = ''global'', dn_scope_id = [], dn_action = ''platform.settings.manage'',
      dn_target_type = ''platform_settings'', dn_target_id = [], dn_requested = None\<rparr>"

definition require_global_administrator :: "authorization \<Rightarrow> gin_context \<Rightarrow> gin_context" where
  "require_global_administrator az c =
     (case gc_identity c of
        None \<Rightarrow> aborted 401 ''unauthenticated'' c
      | Some u \<Rightarrow>
          (case decided (\<lambda>m. is_global_administrator (az_store az) m u) c of
             (Inl _, c') \<Rightarrow> aborted 500 ''internal_error'' c'
           | (Inr True, c') \<Rightarrow> c'
           | (Inr False, c') \<Rightarrow>
               aborted 403 ''global_admin_required''
                 (if az_audits az then c'\<lparr>gc_denials := gc_denials c' @ [global_administrator_denied u]\<rparr> else c')))"

subsection \<open>Grants resolved for the handler\<close>

definition holds_cluster ::
    "authorization \<Rightarrow> string \<Rightarrow> permission \<Rightarrow> string \<Rightarrow> gin_context \<Rightarrow> bool \<times> gin_context" where
  "holds_cluster az u p cluster c =
     (case decided (\<lambda>m. authorize_cluster (az_store az) m u p cluster) c of
        (Inr _, c') \<Rightarrow> (True, c') | (Inl _, c') \<Rightarrow> (False, c'))"

fun holds_each ::
    "authorization \<Rightarrow> string \<Rightarrow> permission list \<Rightarrow> string \<Rightarrow> gin_context \<Rightarrow> bool list \<times> gin_context" where
  "holds_each az u [] cluster c = ([], c)"
| "holds_each az u (p # ps) cluster c =
     (case holds_cluster az u p cluster c of
        (b, c1) \<Rightarrow> (case holds_each az u ps cluster c1 of (bs, c2) \<Rightarrow> (b # bs, c2)))"

definition resolve_cluster_secret_grant :: "authorization \<Rightarrow> string \<Rightarrow> gin_context \<Rightarrow> gin_context" where
  "resolve_cluster_secret_grant az cluster_param c =
     (case gc_identity c of
        None \<Rightarrow> c
      | Some u \<Rightarrow>
          (case holds_each az u [''cluster.secret.read'', ''cluster.secret.manage''] (param_of c cluster_param) c of
             (bs, c') \<Rightarrow> c'\<lparr>gc_secret := Some \<lparr>sg_read = bs ! 0, sg_manage = bs ! 1\<rparr>\<rparr>))"

definition manifest_permissions :: "permission list" where
  "manifest_permissions =
     [''cluster.resource.create'', ''cluster.resource.update'', ''cluster.resource.delete'',
      ''cluster.namespace.manage'', ''cluster.node.manage'', ''cluster.secret.read'', ''cluster.secret.manage'',
      ''cluster.rbac.manage'', ''cluster.system_namespace.manage'', ''cluster.agent_namespace.manage'']"

definition resolve_cluster_manifest_grant :: "authorization \<Rightarrow> string \<Rightarrow> gin_context \<Rightarrow> gin_context" where
  "resolve_cluster_manifest_grant az cluster_param c =
     (case gc_identity c of
        None \<Rightarrow> c
      | Some u \<Rightarrow>
          (case holds_each az u manifest_permissions (param_of c cluster_param) c of
             (bs, c') \<Rightarrow> c'\<lparr>gc_manifest := Some
               \<lparr>mg_resource_create = bs ! 0, mg_resource_update = bs ! 1, mg_resource_delete = bs ! 2,
                mg_namespace_manage = bs ! 3, mg_node_manage = bs ! 4, mg_secret_read = bs ! 5,
                mg_secret_manage = bs ! 6, mg_rbac_manage = bs ! 7, mg_system_namespace = bs ! 8,
                mg_agent_namespace = bs ! 9\<rparr>\<rparr>))"

definition resolve_cluster_namespace_grant :: "authorization \<Rightarrow> string \<Rightarrow> gin_context \<Rightarrow> gin_context" where
  "resolve_cluster_namespace_grant az cluster_param c =
     (case gc_identity c of
        None \<Rightarrow> c
      | Some u \<Rightarrow>
          (case holds_each az u [''cluster.system_namespace.manage'', ''cluster.agent_namespace.manage'']
                  (param_of c cluster_param) c of
             (bs, c') \<Rightarrow> c'\<lparr>gc_namespace := Some \<lparr>ng_system = bs ! 0, ng_agent = bs ! 1\<rparr>\<rparr>))"

definition cluster_secret_grant :: "gin_context \<Rightarrow> secret_grant" where
  "cluster_secret_grant c =
     (case gc_secret c of None \<Rightarrow> \<lparr>sg_read = False, sg_manage = False\<rparr> | Some g \<Rightarrow> g)"

definition no_manifest_grant :: manifest_grant where
  "no_manifest_grant =
     \<lparr>mg_resource_create = False, mg_resource_update = False, mg_resource_delete = False,
      mg_namespace_manage = False, mg_node_manage = False, mg_secret_read = False, mg_secret_manage = False,
      mg_rbac_manage = False, mg_system_namespace = False, mg_agent_namespace = False\<rparr>"

definition cluster_manifest_grant :: "gin_context \<Rightarrow> manifest_grant" where
  "cluster_manifest_grant c = (case gc_manifest c of None \<Rightarrow> no_manifest_grant | Some g \<Rightarrow> g)"

definition cluster_namespace_grant :: "gin_context \<Rightarrow> namespace_grant" where
  "cluster_namespace_grant c =
     (case gc_namespace c of None \<Rightarrow> \<lparr>ng_system = False, ng_agent = False\<rparr> | Some g \<Rightarrow> g)"

subsection \<open>A cluster route\<close>

text \<open>The gates of \<open>clusterRoutes\<close>, in their order; an aborted request goes no further.\<close>

definition cluster_route :: "authorization \<Rightarrow> name_decoder \<Rightarrow> permission \<Rightarrow> gin_context \<Rightarrow> gin_context" where
  "cluster_route az decode p c =
     (let c1 = require_protected_namespace_access az decode ''cluster_id'' c in
      if gc_reply c1 \<noteq> None then c1 else require_cluster az decode p ''cluster_id'' c1)"

end
