(* ===== verification/GateSafety.thy ===== *)
theory GateSafety
  imports RequestGate
begin

section \<open>What the authorization middleware lets through\<close>

text \<open>
  The gates change nothing of a request but the look-ahead, the memo and the denials; a cluster route
  admits a request exactly when its user holds what the route and the namespace ask for; what that is for
  the protected namespaces, and where it falls short; denials are recorded once; the grants resolved for
  the handlers are the decisions of the service.
\<close>

subsection \<open>What a gate may change\<close>

definition same_request :: "gin_context \<Rightarrow> gin_context \<Rightarrow> bool" where
  "same_request c c' \<longleftrightarrow>
     gc_method c' = gc_method c \<and> gc_full_path c' = gc_full_path c \<and> gc_params c' = gc_params c
     \<and> gc_query c' = gc_query c \<and> gc_identity c' = gc_identity c"

lemma same_request_refl [simp]: "same_request c c"
  by (simp add: same_request_def)

lemma same_request_trans: "same_request a b \<Longrightarrow> same_request b c \<Longrightarrow> same_request a c"
  by (simp add: same_request_def)

text \<open>The look-ahead for the name of a namespace: body and remembered name only.\<close>

definition looked_ahead :: "gin_context \<Rightarrow> gin_context \<Rightarrow> bool" where
  "looked_ahead c c' \<longleftrightarrow> (\<exists>b t. c' = c\<lparr>gc_body := b, gc_target := t\<rparr>)"

lemma looked_ahead_refl [simp]: "looked_ahead c c"
  unfolding looked_ahead_def by (rule exI [of _ "gc_body c"], rule exI [of _ "gc_target c"]) simp

lemma looked_ahead_fields:
  assumes "looked_ahead c c'"
  shows "same_request c c'" "gc_cache c' = gc_cache c" "gc_resolved c' = gc_resolved c"
    "gc_denials c' = gc_denials c" "gc_reply c' = gc_reply c"
  using assms by (auto simp: looked_ahead_def same_request_def)

lemma looked_ahead_lookups:
  assumes "looked_ahead c c'"
  shows "param_of c' k = param_of c k" "query_of c' k = query_of c k"
    "is_node_object_mutation c' = is_node_object_mutation c"
    "is_namespace_object_mutation c' = is_namespace_object_mutation c"
    "needs_additional_gate c' = needs_additional_gate c"
  using assms
  by (auto simp: looked_ahead_def param_of_def query_of_def is_node_object_mutation_def
      is_namespace_object_mutation_def names_resource_def needs_additional_gate_def)

lemma namespace_create_target_effect:
  assumes "namespace_create_target decode c = (t, c')"
  shows "looked_ahead c c'" "gc_target c' = Some t"
proof -
  show "looked_ahead c c'"
  proof (cases "gc_target c")
    case (Some v)
    then show ?thesis using assms by (simp add: namespace_create_target_def)
  next
    case None
    then show ?thesis
      using assms
      by (auto simp: namespace_create_target_def Let_def looked_ahead_def split: option.splits if_splits prod.splits)
        (metis gin_context.surjective gin_context.update_convs(5))
  qed
  show "gc_target c' = Some t"
    using assms by (auto simp: namespace_create_target_def Let_def split: option.splits if_splits prod.splits)
qed

lemma namespace_create_target_again:
  assumes "namespace_create_target decode c = (t, c')"
  shows "namespace_create_target decode c' = (t, c')"
  using namespace_create_target_effect(2) [OF assms] by (simp add: namespace_create_target_def)

text \<open>The namespace a request names outside its body, and whether the body is asked.\<close>

definition named_namespace :: "gin_context \<Rightarrow> string" where
  "named_namespace c = (if param_of c ''namespace_name'' = [] then query_of c ''namespace'' else param_of c ''namespace_name'')"

definition named_by_path :: "gin_context \<Rightarrow> bool" where
  "named_by_path c \<longleftrightarrow> named_namespace c = [] \<and> param_of c ''resource_name'' \<noteq> [] \<and> names_resource c ''namespaces''"

definition named_by_body :: "gin_context \<Rightarrow> bool" where
  "named_by_body c \<longleftrightarrow>
     named_namespace c = [] \<and> \<not> named_by_path c \<and> gc_method c = ''POST''
     \<and> (gc_full_path c = namespaces_route \<or> gc_full_path c = resources_route \<and> names_resource c ''namespaces'')"

definition target_namespace :: "name_decoder \<Rightarrow> gin_context \<Rightarrow> string \<times> gin_context" where
  "target_namespace decode c =
     (if named_by_body c then namespace_create_target decode c
      else (if named_by_path c then param_of c ''resource_name'' else named_namespace c, c))"

definition names_namespace_object :: "gin_context \<Rightarrow> bool" where
  "names_namespace_object c \<longleftrightarrow>
     named_by_path c \<or> named_by_body c \<or> is_namespace_lifecycle_route c
     \<or> gc_method c = ''POST'' \<and> gc_full_path c = namespaces_route"

definition protection :: "string \<Rightarrow> bool \<Rightarrow> string \<Rightarrow> permission" where
  "protection agent object namespace =
     (if namespace = [] then []
      else if agent \<noteq> [] \<and> namespace = agent then ''cluster.agent_namespace.manage''
      else if has_prefix namespace ''kube-'' \<or> namespace = ''default'' \<and> object then ''cluster.system_namespace.manage''
      else [])"

lemma protected_namespace_permission_eq:
  "protected_namespace_permission decode c agent =
     (case target_namespace decode c of (n, c') \<Rightarrow> (protection agent (names_namespace_object c) n, c'))"
proof -
  obtain t c1 where t: "namespace_create_target decode c = (t, c1)" by fastforce
  have shape: "protected_namespace_permission decode c agent =
      (let named' = (if named_by_path c then param_of c ''resource_name'' else named_namespace c);
           by_body = named' = [] \<and> gc_method c = ''POST''
                     \<and> (gc_full_path c = namespaces_route \<or> gc_full_path c = resources_route \<and> names_resource c ''namespaces'')
       in case (if by_body then namespace_create_target decode c else (named', c)) of
            (namespace, c') \<Rightarrow>
              if namespace = [] then ([], c')
              else if agent \<noteq> [] \<and> namespace = agent then (''cluster.agent_namespace.manage'', c')
              else if has_prefix namespace ''kube-''
                 \<or> namespace = ''default'' \<and> (named_by_path c \<or> by_body \<or> is_namespace_lifecycle_route c
                      \<or> gc_method c = ''POST'' \<and> gc_full_path c = namespaces_route)
              then (''cluster.system_namespace.manage'', c')
              else ([], c'))"
    unfolding protected_namespace_permission_def named_by_path_def named_namespace_def Let_def ..
  show ?thesis
  proof (cases "named_by_path c")
    case True
    then have "param_of c ''resource_name'' \<noteq> []" "\<not> named_by_body c"
      unfolding named_by_path_def named_by_body_def by blast+
    then show ?thesis
      unfolding shape Let_def using True
      by (simp add: target_namespace_def protection_def names_namespace_object_def)
  next
    case False
    have body: "(named_namespace c = [] \<and> gc_method c = ''POST''
        \<and> (gc_full_path c = namespaces_route \<or> gc_full_path c = resources_route \<and> names_resource c ''namespaces'')) = named_by_body c"
      using False unfolding named_by_body_def by blast
    show ?thesis
      unfolding shape Let_def if_not_P [OF False] body using False t
      by (cases "named_by_body c") (auto simp: target_namespace_def protection_def names_namespace_object_def)
  qed
qed

lemma looked_ahead_target:
  assumes "looked_ahead c c'"
  shows "named_by_body c' = named_by_body c" "named_by_path c' = named_by_path c" "named_namespace c' = named_namespace c"
    "names_namespace_object c' = names_namespace_object c"
proof -
  note same = looked_ahead_fields(1) [OF assms, unfolded same_request_def]
  have "names_resource c' x = names_resource c x" for x
    by (simp only: names_resource_def looked_ahead_lookups [OF assms])
  then show "named_by_body c' = named_by_body c" "named_by_path c' = named_by_path c" "named_namespace c' = named_namespace c"
    "names_namespace_object c' = names_namespace_object c"
    by (simp_all only: named_by_body_def named_by_path_def named_namespace_def names_namespace_object_def
        is_namespace_lifecycle_route_def looked_ahead_lookups [OF assms] same)
qed

lemma protected_namespace_permission_effect:
  assumes "protected_namespace_permission decode c agent = (q, c')"
  shows "looked_ahead c c'" "protected_namespace_permission decode c' agent = (q, c')"
proof -
  obtain n where n: "target_namespace decode c = (n, c')" "q = protection agent (names_namespace_object c) n"
    using assms by (auto simp: protected_namespace_permission_eq split: prod.splits)
  show l: "looked_ahead c c'"
    using n(1) namespace_create_target_effect(1) by (auto simp: target_namespace_def split: if_splits)
  have "target_namespace decode c' = (n, c')"
  proof (cases "named_by_body c")
    case True
    then show ?thesis
      using n(1) namespace_create_target_again looked_ahead_target(1) [OF l] by (simp add: target_namespace_def)
  next
    case False
    then have "c' = c" using n(1) by (simp add: target_namespace_def)
    then show ?thesis using n(1) by simp
  qed
  then show "protected_namespace_permission decode c' agent = (q, c')"
    using n(2) looked_ahead_target [OF l] by (simp add: protected_namespace_permission_eq)
qed

lemma effective_cluster_permission_effect:
  assumes "effective_cluster_permission decode c p agent = (q, c')"
  shows "looked_ahead c c'" "effective_cluster_permission decode c' p agent = (q, c')"
proof -
  obtain prot where p: "protected_namespace_permission decode c agent = (prot, c')"
    using assms by (simp add: effective_cluster_permission_def split: prod.splits)
  show "looked_ahead c c'" by (rule protected_namespace_permission_effect(1) [OF p])
  show "effective_cluster_permission decode c' p agent = (q, c')"
    using assms p protected_namespace_permission_effect(2) [OF p] by (simp add: effective_cluster_permission_def)
qed

subsection \<open>Decisions inside a request\<close>

definition cluster_allows :: "rbac_store \<Rightarrow> string \<Rightarrow> permission \<Rightarrow> resolved_scope \<Rightarrow> bool" where
  "cluster_allows st u p r \<longleftrightarrow>
     is_uuid u \<and> permission_valid p \<and> is_uuid (resolved_tenant r) \<and> is_uuid (resolved_project r)
     \<and> resolved_agent_namespace r \<noteq> [] \<and> holds st u p (project_scope (resolved_tenant r) (resolved_project r))"

lemma authorize_resolved_cluster_coherent:
  "coherent st m \<Longrightarrow> coherent st (snd (authorize_resolved_cluster st m u p r))"
  using authorize_validated_coherent by (auto simp: authorize_resolved_cluster_def split: sum.splits)

lemma check_resolved_result:
  assumes "coherent (az_store az) (gc_cache c)" and "check_resolved az u q r c = (result, checked, c')"
  shows "checked = q" "(\<exists>x. result = Inr x) \<longleftrightarrow> cluster_allows (az_store az) u q r" "\<And>x. result = Inr x \<Longrightarrow> x = r"
    "coherent (az_store az) (gc_cache c')" "\<exists>m. c' = c\<lparr>gc_cache := m\<rparr>"
proof -
  obtain d m where d: "authorize_resolved_cluster (az_store az) (gc_cache c) u q r = (d, m)" by fastforce
  then have c: "result = and_then d (\<lambda>_. Inr r)" "checked = q" "c' = c\<lparr>gc_cache := m\<rparr>"
    using assms(2) by (auto simp: check_resolved_def decided_def)
  have "d = Inr () \<longleftrightarrow> cluster_allows (az_store az) u q r"
    using authorize_resolved_cluster_iff [OF assms(1), of u q r] d by (simp add: cluster_allows_def)
  then show "(\<exists>x. result = Inr x) \<longleftrightarrow> cluster_allows (az_store az) u q r" by (cases d) (auto simp: c(1))
  show "checked = q" "\<exists>m. c' = c\<lparr>gc_cache := m\<rparr>" using c by auto
  show "result = Inr x \<Longrightarrow> x = r" for x by (cases d) (auto simp: c(1))
  show "coherent (az_store az) (gc_cache c')"
    using authorize_resolved_cluster_coherent [OF assms(1), of u q r] d c(3) by simp
qed

end
