(* ===== verification/GateRoutes.thy ===== *)
theory GateRoutes
  imports GateSafety
begin

section \<open>Cluster routes\<close>

text \<open>
  When the two gates of a cluster route admit a request: the permissions a request needs as functions of
  the request, when one gate opens and what it leaves of the request, and the composition of the gates.
\<close>

subsection \<open>What a gate asks\<close>

text \<open>The answers depend on the request and the look-ahead only.\<close>

definition same_question :: "gin_context \<Rightarrow> gin_context \<Rightarrow> bool" where
  "same_question c c' \<longleftrightarrow> same_request c c' \<and> gc_body c' = gc_body c \<and> gc_target c' = gc_target c"

definition namespace_permission :: "name_decoder \<Rightarrow> gin_context \<Rightarrow> string \<Rightarrow> permission" where
  "namespace_permission decode c agent = fst (protected_namespace_permission decode c agent)"

definition route_permission :: "name_decoder \<Rightarrow> gin_context \<Rightarrow> permission \<Rightarrow> string \<Rightarrow> permission" where
  "route_permission decode c p agent = fst (effective_cluster_permission decode c p agent)"

lemma route_permission_eq:
  "route_permission decode c p agent =
     (if p \<in> set ordinary_powers
      then if is_node_object_mutation c then ''cluster.node.manage''
           else if namespace_permission decode c agent \<noteq> [] then namespace_permission decode c agent
           else if is_namespace_object_mutation c then ''cluster.namespace.manage'' else p
      else p)"
  using looked_ahead_lookups [OF protected_namespace_permission_effect(1) [of decode c agent "fst (protected_namespace_permission decode c agent)"
        "snd (protected_namespace_permission decode c agent)"]]
  by (simp add: route_permission_def effective_cluster_permission_def namespace_permission_def split_beta)

lemma same_question_lookups:
  assumes "same_question c c'"
  shows "param_of c' k = param_of c k" "query_of c' k = query_of c k" "gc_method c' = gc_method c"
    "gc_full_path c' = gc_full_path c" "gc_identity c' = gc_identity c" "gc_body c' = gc_body c" "gc_target c' = gc_target c"
  using assms by (simp_all add: same_question_def same_request_def param_of_def query_of_def)

lemma same_question_answers:
  assumes "same_question c c'"
  shows "namespace_permission decode c' agent = namespace_permission decode c agent"
    "route_permission decode c' p agent = route_permission decode c p agent"
    "needs_additional_gate c' = needs_additional_gate c"
proof -
  note l = same_question_lookups [OF assms]
  have r: "names_resource c' x = names_resource c x" for x by (simp only: names_resource_def l)
  have t: "fst (namespace_create_target decode c') = fst (namespace_create_target decode c)"
    by (cases "gc_target c"; cases "gc_body c") (auto simp: namespace_create_target_def l Let_def case_prod_beta not_less)
  have n: "named_by_body c' = named_by_body c" "named_by_path c' = named_by_path c" "named_namespace c' = named_namespace c"
      "names_namespace_object c' = names_namespace_object c"
    by (simp_all only: named_by_body_def named_by_path_def named_namespace_def names_namespace_object_def
        is_namespace_lifecycle_route_def l r)
  have "fst (target_namespace decode c') = fst (target_namespace decode c)"
    by (simp add: target_namespace_def n l t)
  then show np: "namespace_permission decode c' agent = namespace_permission decode c agent"
    by (simp add: namespace_permission_def protected_namespace_permission_eq n split_beta)
  have "is_node_object_mutation c' = is_node_object_mutation c" "is_namespace_object_mutation c' = is_namespace_object_mutation c"
    by (simp_all only: is_node_object_mutation_def is_namespace_object_mutation_def l r)
  then show "route_permission decode c' p agent = route_permission decode c p agent" by (simp only: route_permission_eq np)
  show "needs_additional_gate c' = needs_additional_gate c" by (simp only: needs_additional_gate_def l)
qed

lemma same_question_after:
  assumes "protected_namespace_permission decode c agent = (q, c')"
  shows "namespace_permission decode c' agent = namespace_permission decode c agent"
    "route_permission decode c' p agent = route_permission decode c p agent"
proof -
  show np: "namespace_permission decode c' agent = namespace_permission decode c agent"
    using protected_namespace_permission_effect(2) [OF assms] assms by (simp add: namespace_permission_def)
  show "route_permission decode c' p agent = route_permission decode c p agent"
    using looked_ahead_lookups [OF protected_namespace_permission_effect(1) [OF assms]] np by (simp only: route_permission_eq)
qed

subsection \<open>One gate\<close>

definition unanswered :: "authorization \<Rightarrow> gin_context \<Rightarrow> bool" where
  "unanswered az c \<longleftrightarrow> gc_reply c = None \<and> coherent (az_store az) (gc_cache c)"

definition scope_of :: "authorization \<Rightarrow> gin_context \<Rightarrow> rbac_error + resolved_scope" where
  "scope_of az c = resolve_cluster_scope (az_store az) (param_of c ''cluster_id'')"

text \<open>What a gate leaves when it admits: the request as it was, with at most its scope added.\<close>

definition admitted :: "authorization \<Rightarrow> name_decoder \<Rightarrow> gin_context \<Rightarrow> gin_context \<Rightarrow> bool" where
  "admitted az decode c c1 \<longleftrightarrow>
     unanswered az c1 \<and> same_request c c1 \<and> gc_denials c1 = gc_denials c
     \<and> (gc_resolved c1 = gc_resolved c \<or> (\<exists>r. scope_of az c = Inr r \<and> gc_resolved c1 = Some r))
     \<and> (\<forall>p r. scope_of az c = Inr r \<longrightarrow>
          route_permission decode c1 p (resolved_agent_namespace r) = route_permission decode c p (resolved_agent_namespace r))"

lemma aborted_reply [simp]: "gc_reply (aborted s e c) = Some (s, e)" "gc_denials (aborted s e c) = gc_denials c"
  by (simp_all add: aborted_def)

lemma require_gate_refuses:
  assumes "gc_identity c = Some u" and "check u c = (Inl e, checked, c1)"
  shows "gc_reply (require_gate az p ty cp check c) \<noteq> None"
  using assms by (cases e) (auto simp: require_gate_def Let_def)

lemma require_gate_admits:
  "gc_identity c = Some u \<Longrightarrow> check u c = (Inr r, checked, c1) \<Longrightarrow> require_gate az p ty cp check c = set_resolved_scope r c1"
  by (simp add: require_gate_def Let_def)

lemma set_resolved_scope_fields:
  "same_request c1 (set_resolved_scope r c1)" "gc_reply (set_resolved_scope r c1) = gc_reply c1"
  "gc_cache (set_resolved_scope r c1) = gc_cache c1" "gc_denials (set_resolved_scope r c1) = gc_denials c1"
  "same_question c1 (set_resolved_scope r c1)"
  "gc_resolved (set_resolved_scope r c1) = gc_resolved c1 \<or> gc_resolved (set_resolved_scope r c1) = Some r"
  by (simp_all add: set_resolved_scope_def same_request_def same_question_def)

lemma namespace_check_result:
  assumes coh: "coherent (az_store az) (gc_cache c)"
    and r: "(if q = [] then (Inr r, [], c) else check_resolved az u q r c) = (result, checked, c2)"
  shows "(\<exists>x. result = Inr x) \<longleftrightarrow> q = [] \<or> cluster_allows (az_store az) u q r" "\<And>x. result = Inr x \<Longrightarrow> x = r"
    "coherent (az_store az) (gc_cache c2)" "\<exists>m. c2 = c\<lparr>gc_cache := m\<rparr>"
proof -
  have "((\<exists>x. result = Inr x) \<longleftrightarrow> q = [] \<or> cluster_allows (az_store az) u q r) \<and> (\<forall>x. result = Inr x \<longrightarrow> x = r)
      \<and> coherent (az_store az) (gc_cache c2) \<and> (\<exists>m. c2 = c\<lparr>gc_cache := m\<rparr>)"
  proof (cases "q = []")
    case True
    then have "result = Inr r" "c2 = c" using r by simp_all
    moreover have "c = c\<lparr>gc_cache := gc_cache c\<rparr>" by simp
    ultimately show ?thesis using True coh by blast
  next
    case False
    then have "check_resolved az u q r c = (result, checked, c2)" using r by simp
    from check_resolved_result [OF coh this] False show ?thesis by blast
  qed
  then show "(\<exists>x. result = Inr x) \<longleftrightarrow> q = [] \<or> cluster_allows (az_store az) u q r" "\<And>x. result = Inr x \<Longrightarrow> x = r"
    "coherent (az_store az) (gc_cache c2)" "\<exists>m. c2 = c\<lparr>gc_cache := m\<rparr>" by blast+
qed

text \<open>When the additional gate is open.\<close>

definition gate_open :: "authorization \<Rightarrow> name_decoder \<Rightarrow> gin_context \<Rightarrow> bool" where
  "gate_open az decode c \<longleftrightarrow>
     \<not> needs_additional_gate c
     \<or> (\<exists>u r. gc_identity c = Some u \<and> scope_of az c = Inr r
          \<and> (namespace_permission decode c (resolved_agent_namespace r) = []
             \<or> cluster_allows (az_store az) u (namespace_permission decode c (resolved_agent_namespace r)) r))"

lemma protected_gate:
  assumes c: "unanswered az c"
  shows "(gc_reply (require_protected_namespace_access az decode ''cluster_id'' c) = None \<longleftrightarrow> gate_open az decode c)
    \<and> (gate_open az decode c \<longrightarrow> admitted az decode c (require_protected_namespace_access az decode ''cluster_id'' c))"
proof -
  let ?c1 = "require_protected_namespace_access az decode ''cluster_id'' c"
  let ?ok = "gate_open az decode c"
  have "(gc_reply ?c1 = None \<longleftrightarrow> ?ok) \<and> (?ok \<longrightarrow> admitted az decode c ?c1)"
  proof (cases "needs_additional_gate c")
    case False
    then show ?thesis
      using c by (auto simp: gate_open_def require_protected_namespace_access_def admitted_def unanswered_def)
  next
    case needs: True
    have c1: "?c1 = require_gate az ''cluster.read'' ''cluster'' ''cluster_id''
         (\<lambda>u c. case resolve_cluster_scope (az_store az) (param_of c ''cluster_id'') of
                  Inl e \<Rightarrow> (Inl e, ''cluster.read'', c)
                | Inr r \<Rightarrow> (case protected_namespace_permission decode c (resolved_agent_namespace r) of
                     (q, c') \<Rightarrow> if q = [] then (Inr r, [], c') else check_resolved az u q r c')) c"
      using needs by (simp add: require_protected_namespace_access_def)
    show ?thesis
    proof (cases "gc_identity c")
      case None
      then show ?thesis using needs by (simp add: gate_open_def require_protected_namespace_access_def require_gate_def)
    next
      case (Some u)
      show ?thesis
      proof (cases "scope_of az c")
        case (Inl e)
        have "gc_reply ?c1 \<noteq> None"
          unfolding c1 by (rule require_gate_refuses [OF Some]) (simp add: Inl [unfolded scope_of_def])
        then show ?thesis using needs Inl by (simp add: gate_open_def)
      next
        case (Inr r)
        obtain q c' where q: "protected_namespace_permission decode c (resolved_agent_namespace r) = (q, c')" by fastforce
        note la = looked_ahead_fields [OF protected_namespace_permission_effect(1) [OF q]]
        have np: "namespace_permission decode c (resolved_agent_namespace r) = q" by (simp add: namespace_permission_def q)
        obtain result checked c2 where c2: "(if q = [] then (Inr r, [], c') else check_resolved az u q r c') = (result, checked, c2)"
          by (metis prod.exhaust)
        have coh: "coherent (az_store az) (gc_cache c')" using c la(2) by (simp add: unanswered_def)
        note r2 = namespace_check_result [OF coh c2]
        obtain m where m: "c2 = c'\<lparr>gc_cache := m\<rparr>" using r2(4) by blast
        show ?thesis
        proof (cases result)
          case (Inl e)
          have "gc_reply ?c1 \<noteq> None"
            unfolding c1 by (rule require_gate_refuses [OF Some]) (use \<open>scope_of az c = Inr r\<close> q c2 Inl in \<open>simp add: scope_of_def\<close>)
          then show ?thesis using needs Some \<open>scope_of az c = Inr r\<close> np r2(1) Inl by (simp add: gate_open_def)
        next
          case (Inr x)
          then have "result = Inr r" using r2(2) by simp
          then have s: "?c1 = set_resolved_scope r c2"
            unfolding c1 using require_gate_admits [OF Some] \<open>scope_of az c = Inr r\<close> q c2 by (simp add: scope_of_def)
          have "same_question c' (set_resolved_scope r c2)"
            using set_resolved_scope_fields(5) [where ?c1.0 = c2 and r = r] by (auto simp: m same_question_def same_request_def)
          then have ans: "route_permission decode ?c1 p (resolved_agent_namespace r) = route_permission decode c p (resolved_agent_namespace r)" for p
            using same_question_answers(2) same_question_after(2) [OF q] unfolding s by simp
          have "admitted az decode c ?c1"
            unfolding admitted_def unanswered_def s
            using set_resolved_scope_fields [where ?c1.0 = c2 and r = r] la c r2(3) \<open>scope_of az c = Inr r\<close> ans [unfolded s]
            by (auto simp: m unanswered_def same_request_def)
          moreover from this have "gc_reply ?c1 = None" by (simp add: admitted_def unanswered_def)
          ultimately show ?thesis using Some \<open>scope_of az c = Inr r\<close> np r2(1) Inr by (auto simp: gate_open_def)
        qed
      qed
    qed
  qed
  then show ?thesis .
qed

lemma cluster_gate:
  assumes c: "unanswered az c" and res: "gc_resolved c = None \<or> (\<exists>r. scope_of az c = Inr r \<and> gc_resolved c = Some r)"
  shows "gc_reply (require_cluster az decode p ''cluster_id'' c) = None \<longleftrightarrow>
      (\<exists>u r. gc_identity c = Some u \<and> scope_of az c = Inr r
         \<and> cluster_allows (az_store az) u (route_permission decode c p (resolved_agent_namespace r)) r)"
proof -
  have sc: "(case gc_resolved c of Some r \<Rightarrow> Inr r | None \<Rightarrow> resolve_cluster_scope (az_store az) (param_of c ''cluster_id'')) = scope_of az c"
    using res by (auto simp: scope_of_def)
  let ?check = "\<lambda>u c. case (case gc_resolved c of
                       Some r \<Rightarrow> Inr r
                     | None \<Rightarrow> resolve_cluster_scope (az_store az) (param_of c ''cluster_id'')) of
                Inl e \<Rightarrow> (Inl e, p, c)
              | Inr r \<Rightarrow>
                  (case effective_cluster_permission decode c p (resolved_agent_namespace r) of
                     (q, c') \<Rightarrow> check_resolved az u q r c')"
  have gate: "require_cluster az decode p ''cluster_id'' c = require_gate az p ''cluster'' ''cluster_id'' ?check c"
    by (simp add: require_cluster_def)
  show ?thesis
  proof (cases "gc_identity c")
    case None
    then show ?thesis by (simp add: gate require_gate_def)
  next
    case (Some u)
    show ?thesis
    proof (cases "scope_of az c")
      case (Inl e)
      have "gc_reply (require_cluster az decode p ''cluster_id'' c) \<noteq> None"
        unfolding gate by (rule require_gate_refuses [OF Some]) (simp add: sc Inl)
      then show ?thesis using Inl by simp
    next
      case (Inr r)
      obtain q c' where q: "effective_cluster_permission decode c p (resolved_agent_namespace r) = (q, c')" by fastforce
      note la = looked_ahead_fields [OF effective_cluster_permission_effect(1) [OF q]]
      obtain result checked c2 where c2: "check_resolved az u q r c' = (result, checked, c2)" by (metis prod.exhaust)
      have coh: "coherent (az_store az) (gc_cache c')" using c la(2) by (simp add: unanswered_def)
      note r2 = check_resolved_result [OF coh c2]
      have rp: "route_permission decode c p (resolved_agent_namespace r) = q" by (simp add: route_permission_def q)
      have check: "?check u c = (result, checked, c2)" using sc Inr q c2 by simp
      show ?thesis
      proof (cases result)
        case (Inl e)
        have "gc_reply (require_cluster az decode p ''cluster_id'' c) \<noteq> None"
          unfolding gate by (rule require_gate_refuses [OF Some]) (use check Inl in simp)
        then show ?thesis using Some Inr rp r2(2) Inl by simp
      next
        case (Inr x)
        then have "result = Inr r" using r2(3) by simp
        then have "require_cluster az decode p ''cluster_id'' c = set_resolved_scope r c2"
          unfolding gate by (intro require_gate_admits [OF Some]) (simp only: check)
        moreover have "gc_reply c2 = None" using r2(5) la(5) c by (auto simp: unanswered_def)
        ultimately have "gc_reply (require_cluster az decode p ''cluster_id'' c) = None"
          using set_resolved_scope_fields(2) by simp
        then show ?thesis using Some \<open>scope_of az c = Inr r\<close> rp r2(2) Inr by auto
      qed
    qed
  qed
qed

subsection \<open>The whole route\<close>

definition needed_permissions :: "name_decoder \<Rightarrow> gin_context \<Rightarrow> permission \<Rightarrow> string \<Rightarrow> permission list" where
  "needed_permissions decode c p agent =
     (if needs_additional_gate c \<and> namespace_permission decode c agent \<noteq> [] then [namespace_permission decode c agent] else [])
     @ [route_permission decode c p agent]"

lemma route_admits:
  assumes c: "unanswered az c" and "gc_resolved c = None"
  shows "gc_reply (cluster_route az decode p c) = None \<longleftrightarrow>
      (\<exists>u r. gc_identity c = Some u \<and> scope_of az c = Inr r
         \<and> (\<forall>q \<in> set (needed_permissions decode c p (resolved_agent_namespace r)). cluster_allows (az_store az) u q r))"
proof -
  let ?c1 = "require_protected_namespace_access az decode ''cluster_id'' c"
  note g = protected_gate [OF c, of decode]
  show ?thesis
  proof (cases "gate_open az decode c")
    case False
    then have "gc_reply (cluster_route az decode p c) \<noteq> None" using g by (simp add: cluster_route_def Let_def)
    moreover have "\<not> (\<exists>u r. gc_identity c = Some u \<and> scope_of az c = Inr r
         \<and> (\<forall>q \<in> set (needed_permissions decode c p (resolved_agent_namespace r)). cluster_allows (az_store az) u q r))"
      using False by (auto simp: gate_open_def needed_permissions_def)
    ultimately show ?thesis by blast
  next
    case True
    then have a: "admitted az decode c ?c1" and n: "gc_reply ?c1 = None" using g by auto
    have id: "gc_identity ?c1 = gc_identity c" "scope_of az ?c1 = scope_of az c"
      using a by (simp_all add: admitted_def same_request_def scope_of_def param_of_def)
    have "gc_reply (cluster_route az decode p c) = None \<longleftrightarrow>
       (\<exists>u r. gc_identity c = Some u \<and> scope_of az c = Inr r
         \<and> cluster_allows (az_store az) u (route_permission decode ?c1 p (resolved_agent_namespace r)) r)"
      using cluster_gate [of az ?c1 decode p] a n assms(2) id by (auto simp: cluster_route_def Let_def admitted_def)
    also have "\<dots> \<longleftrightarrow> (\<exists>u r. gc_identity c = Some u \<and> scope_of az c = Inr r
         \<and> cluster_allows (az_store az) u (route_permission decode c p (resolved_agent_namespace r)) r)"
      using a by (auto simp: admitted_def)
    also have "\<dots> \<longleftrightarrow> (\<exists>u r. gc_identity c = Some u \<and> scope_of az c = Inr r
         \<and> (\<forall>q \<in> set (needed_permissions decode c p (resolved_agent_namespace r)). cluster_allows (az_store az) u q r))"
      using True by (auto simp: gate_open_def needed_permissions_def)
    finally show ?thesis .
  qed
qed


end
