(* ===== verification/GateGrants.thy ===== *)
theory GateGrants
  imports GateRoutes
begin

section \<open>Refusals on record, grants for the handlers\<close>

text \<open>
  An example of a route at work, the generic creation of namespaces, what a refusal leaves in the audit
  trail, and what the grants resolved for the manifest handler say.
\<close>

subsection \<open>An example request\<close>

definition ex_authorization :: "permission list \<Rightarrow> authorization" where
  "ex_authorization ps =
     \<lparr>az_store = ex_store [ex_binding ''tenant'' ps], az_audits = True, az_timed_out = (\<lambda>_. False)\<rparr>"

definition ex_context :: "string \<Rightarrow> string \<Rightarrow> (string \<times> string) list \<Rightarrow> (string \<times> string) list \<Rightarrow> request_body option \<Rightarrow> gin_context" where
  "ex_context method path params query body =
     \<lparr>gc_method = method, gc_full_path = path, gc_params = (''cluster_id'', ex_cluster) # params, gc_query = query,
      gc_body = body, gc_identity = Some ex_user, gc_resolved = None, gc_target = None, gc_secret = None,
      gc_manifest = None, gc_namespace = None, gc_cache = with_binding_cache, gc_denials = [], gc_reply = None\<rparr>"

definition ex_write :: gin_context where
  "ex_write = ex_context ''PUT'' ''/api/v1/clusters/:cluster_id/namespaces/:namespace_name/configmaps/:name''
     [(''namespace_name'', ''kube-system'')] [] None"

lemma ex_unanswered: "unanswered az (ex_context m f ps q b)"
  by (simp add: unanswered_def ex_context_def)


subsection \<open>Creating a namespace over the generic route\<close>

text \<open>
  The generic route creates protected namespaces with the ordinary permission. The look-ahead reads
  \<open>name\<close> and \<open>metadata.name\<close> at the top of the body, where the bodies the handler decodes (\<open>object\<close>,
  \<open>options\<close>, \<open>confirm\<close>, nothing else) have neither; whatever the object is called, a user with
  \<open>cluster.namespace.manage\<close> alone is admitted.
\<close>

theorem generic_namespace_creation_unguarded:
  assumes "unanswered az c" and "gc_resolved c = None"
    and "gc_method c = ''POST''" and "gc_full_path c = resources_route" and "names_resource c ''namespaces''"
    and "named_namespace c = []" and "param_of c ''resource_name'' = []"
    and body: "gc_target c = None" "gc_body c = Some b" "decode (bo_data b) = (True, [], [])"
      "\<not> bo_broken b" "length (bo_data b) \<le> look_ahead_limit"
    and user: "gc_identity c = Some u" "scope_of az c = Inr r" "cluster_allows (az_store az) u ''cluster.namespace.manage'' r"
  shows "gc_reply (cluster_route az decode ''cluster.resource.create'' c) = None"
proof -
  have "named_by_body c" "\<not> named_by_path c" using assms(3-7) by (simp_all add: named_by_body_def named_by_path_def)
  moreover have "fst (namespace_create_target decode c) = []"
    using body by (simp add: namespace_create_target_def Let_def)
  ultimately have np: "namespace_permission decode c a = []" for a
    by (simp add: namespace_permission_def protected_namespace_permission_eq target_namespace_def protection_def split_beta)
  have path: "contains resources_route resources_path" by code_simp
  have "\<not> is_node_object_mutation c" using assms(5) by (simp add: is_node_object_mutation_def names_resource_def)
  moreover have "is_namespace_object_mutation c" using assms(3,4,5) path by (simp add: is_namespace_object_mutation_def)
  ultimately have "needed_permissions decode c ''cluster.resource.create'' a = [''cluster.namespace.manage'']" for a
    by (simp add: needed_permissions_def np route_permission_eq ordinary_powers_def)
  then show ?thesis unfolding route_admits [OF assms(1,2)] using user by auto
qed

definition ex_create :: gin_context where
  "ex_create = ex_context ''POST'' resources_route [] [(''version'', ''v1''), (''resource'', ''namespaces'')]
     (Some \<lparr>bo_data = ''{object:{metadata:{name:kube-public}}}'', bo_broken = False\<rparr>)"

theorem generic_namespace_creation_unguarded_witness:
  "gc_reply (cluster_route (ex_authorization [''cluster.namespace.manage'']) (\<lambda>_. (True, [], [])) ''cluster.resource.create'' ex_create)
     = None"
proof (rule generic_namespace_creation_unguarded)
  show "unanswered (ex_authorization [''cluster.namespace.manage'']) ex_create" by (simp add: ex_create_def ex_unanswered)
  show "gc_resolved ex_create = None" "gc_method ex_create = ''POST''" "gc_full_path ex_create = resources_route"
    "gc_target ex_create = None" "gc_identity ex_create = Some ex_user"
    "gc_body ex_create = Some \<lparr>bo_data = ''{object:{metadata:{name:kube-public}}}'', bo_broken = False\<rparr>"
    by (simp_all add: ex_create_def ex_context_def)
  show "names_resource ex_create ''namespaces''" "named_namespace ex_create = []" "param_of ex_create ''resource_name'' = []"
    by code_simp+
  show "scope_of (ex_authorization [''cluster.namespace.manage'']) ex_create
      = Inr \<lparr>resolved_tenant = ex_tenant, resolved_project = ex_project, resolved_agent_namespace = ''zke-system''\<rparr>"
    by code_simp
  show "cluster_allows (az_store (ex_authorization [''cluster.namespace.manage''])) ex_user ''cluster.namespace.manage''
      \<lparr>resolved_tenant = ex_tenant, resolved_project = ex_project, resolved_agent_namespace = ''zke-system''\<rparr>"
  proof -
    have "permission_valid ''cluster.namespace.manage''" by code_simp
    then show ?thesis
      by (simp add: cluster_allows_def ex_authorization_def holds_def ex_store_def ex_binding_def binding_grants_def
          binding_applies_def project_scope_def)
  qed
qed (simp_all add: look_ahead_limit_def)

subsection \<open>Denials\<close>

lemma check_resolved_keeps:
  assumes "check_resolved az u q r c = (result, checked, c')"
  shows "same_request c c'" "gc_denials c' = gc_denials c" "gc_reply c' = gc_reply c" "checked = q"
  using assms by (auto simp: check_resolved_def decided_def same_request_def split: prod.splits)

definition denial_of :: "gin_context \<Rightarrow> string \<Rightarrow> permission \<Rightarrow> permission \<Rightarrow> denial" where
  "denial_of c u q requested =
     \<lparr>dn_actor = u, dn_scope_type = ''cluster'', dn_scope_id = param_of c ''cluster_id'', dn_action = q,
      dn_target_type = permission_target_type q, dn_target_id = param_of c (permission_target_type q @ ''_id''),
      dn_requested = (if requested \<noteq> [] \<and> requested \<noteq> q then Some requested else None)\<rparr>"

text \<open>A gate of a cluster adds one denial when it answers 403, none otherwise.\<close>

definition recorded :: "authorization \<Rightarrow> permission \<Rightarrow> gin_context \<Rightarrow> gin_context \<Rightarrow> bool" where
  "recorded az p c c' \<longleftrightarrow>
     (if gc_reply c' = Some (403, ''forbidden'') \<and> az_audits az
      then \<exists>u q. gc_identity c = Some u \<and> q \<noteq> [] \<and> gc_denials c' = gc_denials c @ [denial_of c u q p]
      else gc_denials c' = gc_denials c)"

lemma require_gate_recorded:
  assumes "gc_reply c = None" and "p \<noteq> []"
    and keeps: "\<And>u result checked c1. check u c = (result, checked, c1) \<Longrightarrow>
      same_request c c1 \<and> gc_denials c1 = gc_denials c \<and> gc_reply c1 = gc_reply c"
  shows "recorded az p c (require_gate az p ''cluster'' ''cluster_id'' check c)"
proof (cases "gc_identity c")
  case None
  then show ?thesis by (simp add: recorded_def require_gate_def)
next
  case (Some u)
  obtain result checked c1 where ch: "check u c = (result, checked, c1)" by (metis prod.exhaust)
  note k = keeps [OF ch]
  have par: "param_of c1 x = param_of c x" for x using k by (simp add: param_of_def same_request_def)
  let ?q = "if checked = [] then p else checked"
  show ?thesis
  proof (cases result)
    case (Inr r)
    then show ?thesis
      using Some ch k assms(1) set_resolved_scope_fields(2,4) [where ?c1.0 = c1 and r = r]
      by (simp add: recorded_def require_gate_def)
  next
    case (Inl e)
    show ?thesis
    proof (cases e)
      case ErrDenied
      have "gc_denials (record_denied az u ?q p ''cluster'' ''cluster_id'' c1)
          = gc_denials c @ (if az_audits az then [denial_of c u ?q p] else [])"
        using k by (simp add: record_denied_def denial_of_def par)
      then show ?thesis
        using Some ch Inl ErrDenied assms(2) by (auto simp: recorded_def require_gate_def Let_def)
    qed (use Some ch Inl k in \<open>simp_all add: recorded_def require_gate_def Let_def\<close>)
  qed
qed

lemma require_protected_recorded:
  assumes "gc_reply c = None"
  shows "recorded az ''cluster.read'' c (require_protected_namespace_access az decode ''cluster_id'' c)"
proof (cases "needs_additional_gate c")
  case False
  then show ?thesis using assms by (simp add: require_protected_namespace_access_def recorded_def)
next
  case True
  show ?thesis
    unfolding require_protected_namespace_access_def if_not_P [of "\<not> needs_additional_gate c"] using True
  proof (simp only: not_True_eq_False if_False, intro require_gate_recorded [OF assms])
    fix u result checked c1
    assume a: "(case resolve_cluster_scope (az_store az) (param_of c ''cluster_id'') of
         Inl e \<Rightarrow> (Inl e, ''cluster.read'', c)
       | Inr r \<Rightarrow> (case protected_namespace_permission decode c (resolved_agent_namespace r) of
            (q, c') \<Rightarrow> if q = [] then (Inr r, [], c') else check_resolved az u q r c')) = (result, checked, c1)"
    show "same_request c c1 \<and> gc_denials c1 = gc_denials c \<and> gc_reply c1 = gc_reply c"
    proof (cases "resolve_cluster_scope (az_store az) (param_of c ''cluster_id'')")
      case (Inl e)
      then show ?thesis using a by simp
    next
      case (Inr r)
      obtain q c' where q: "protected_namespace_permission decode c (resolved_agent_namespace r) = (q, c')" by fastforce
      note la = looked_ahead_fields [OF protected_namespace_permission_effect(1) [OF q]]
      show ?thesis
      proof (cases "q = []")
        case True
        then show ?thesis using a Inr q la by simp
      next
        case False
        then have "check_resolved az u q r c' = (result, checked, c1)" using a Inr q by simp
        from check_resolved_keeps [OF this] la show ?thesis using same_request_trans by simp
      qed
    qed
  qed simp
qed

lemma require_cluster_recorded:
  assumes "gc_reply c = None" and "p \<noteq> []"
  shows "recorded az p c (require_cluster az decode p ''cluster_id'' c)"
  unfolding require_cluster_def
proof (rule require_gate_recorded [OF assms])
  fix u result checked c1
  assume a: "(case (case gc_resolved c of Some r \<Rightarrow> Inr r
                     | None \<Rightarrow> resolve_cluster_scope (az_store az) (param_of c ''cluster_id'')) of
       Inl e \<Rightarrow> (Inl e, p, c)
     | Inr r \<Rightarrow> (case effective_cluster_permission decode c p (resolved_agent_namespace r) of
          (q, c') \<Rightarrow> check_resolved az u q r c')) = (result, checked, c1)"
  show "same_request c c1 \<and> gc_denials c1 = gc_denials c \<and> gc_reply c1 = gc_reply c"
  proof (cases "case gc_resolved c of Some r \<Rightarrow> Inr r
                     | None \<Rightarrow> resolve_cluster_scope (az_store az) (param_of c ''cluster_id'')")
    case (Inl e)
    then show ?thesis using a by simp
  next
    case (Inr r)
    obtain q c' where q: "effective_cluster_permission decode c p (resolved_agent_namespace r) = (q, c')" by fastforce
    note la = looked_ahead_fields [OF effective_cluster_permission_effect(1) [OF q]]
    have "check_resolved az u q r c' = (result, checked, c1)" using a Inr q by simp
    from check_resolved_keeps [OF this] la show ?thesis using same_request_trans by simp
  qed
qed

text \<open>
  A refusal is recorded once, and only a refusal. When a cluster route answers that the permission is
  denied, exactly one denial has been sent to the audit trail, naming the user, the cluster and the
  permission that was checked, beside the one the gate declared where they differ; any other answer, and
  an admitted request, leaves no denial.
\<close>

theorem refusals_are_recorded:
  assumes "unanswered az c" and "p \<noteq> []" and "cluster_route az decode p c = c'"
  shows "if gc_reply c' = Some (403, ''forbidden'') \<and> az_audits az
         then \<exists>u q requested. gc_identity c = Some u \<and> q \<noteq> [] \<and> requested \<in> {p, ''cluster.read''}
                \<and> gc_denials c' = gc_denials c @ [denial_of c u q requested]
         else gc_denials c' = gc_denials c"
proof -
  let ?c1 = "require_protected_namespace_access az decode ''cluster_id'' c"
  have n: "gc_reply c = None" using assms(1) by (simp add: unanswered_def)
  note one = require_protected_recorded [OF n, of az decode]
  show ?thesis
  proof (cases "gc_reply ?c1 = None")
    case False
    then have "c' = ?c1" using assms(3) by (simp add: cluster_route_def Let_def)
    then show ?thesis using one unfolding recorded_def by (auto split: if_splits)
  next
    case True
    then have c': "c' = require_cluster az decode p ''cluster_id'' ?c1" using assms(3) by (simp add: cluster_route_def Let_def)
    have adm: "admitted az decode c ?c1" using protected_gate [OF assms(1), of decode] True by blast
    then have same: "gc_identity ?c1 = gc_identity c" "gc_denials ?c1 = gc_denials c" "\<And>u q x. denial_of ?c1 u q x = denial_of c u q x"
      by (simp_all add: admitted_def same_request_def denial_of_def param_of_def)
    show ?thesis
      using require_cluster_recorded [OF True assms(2), of az decode]
      unfolding c' [symmetric] recorded_def same by (auto split: if_splits)
  qed
qed

definition ex_refused :: gin_context where
  "ex_refused = cluster_route (ex_authorization [''cluster.resource.update'']) (\<lambda>_. (True, [], [])) ''cluster.resource.update'' ex_write"

theorem refusals_are_recorded_witness: "\<exists>d. gc_denials ex_refused = [d] \<and> dn_actor d = ex_user"
proof -
  let ?az = "ex_authorization [''cluster.resource.update'']"
  have "unanswered ?az ex_write" by (simp add: ex_write_def ex_unanswered)
  moreover have "gc_reply ex_refused = Some (403, ''forbidden'')" by code_simp
  moreover have "az_audits ?az" "gc_denials ex_write = []" "gc_identity ex_write = Some ex_user"
    by (simp_all add: ex_authorization_def ex_write_def ex_context_def)
  ultimately show ?thesis
    using refusals_are_recorded [of ?az ex_write "''cluster.resource.update''" "\<lambda>_. (True, [], [])" ex_refused]
    by (auto simp: ex_refused_def denial_of_def)
qed

subsection \<open>Grants\<close>

lemma authorize_cluster_coherent:
  assumes "coherent st m"
  shows "coherent st (snd (authorize_cluster st m u p cl))"
proof -
  have "coherent st m'" if "authorize_resolved_cluster st m u p r = (d, m')" for r d m'
    using authorize_resolved_cluster_coherent [OF assms, of u p r] that by simp
  then show ?thesis
    using assms by (auto simp: authorize_cluster_def split: sum.split prod.split)
qed

lemma holds_cluster_result:
  assumes "coherent (az_store az) (gc_cache c)" and "holds_cluster az u p cl c = (b, c')"
  shows "b \<longleftrightarrow> (\<exists>r. resolve_cluster_scope (az_store az) cl = Inr r \<and> cluster_allows (az_store az) u p r)"
    "coherent (az_store az) (gc_cache c')"
proof -
  obtain d m where d: "authorize_cluster (az_store az) (gc_cache c) u p cl = (d, m)" by fastforce
  have b: "b = (\<exists>r. d = Inr r)" "c' = c\<lparr>gc_cache := m\<rparr>"
    using assms(2) d by (auto simp: holds_cluster_def decided_def split: sum.splits)
  have "(\<exists>r. d = Inr r) \<longleftrightarrow> (\<exists>r. resolve_cluster_scope (az_store az) cl = Inr r \<and> cluster_allows (az_store az) u p r)"
    using authorize_cluster_iff [OF assms(1), of u p cl] d
    by (simp add: authorize_resolved_cluster_iff [OF assms(1)] cluster_allows_def resolve_cluster_scope_iff)
  then show "b \<longleftrightarrow> (\<exists>r. resolve_cluster_scope (az_store az) cl = Inr r \<and> cluster_allows (az_store az) u p r)" by (simp add: b(1))
  show "coherent (az_store az) (gc_cache c')" using authorize_cluster_coherent [OF assms(1), of u p cl] d b(2) by simp
qed

lemma holds_each_result:
  assumes "coherent (az_store az) (gc_cache c)" and "holds_each az u ps cl c = (bs, c')"
  shows "bs = map (\<lambda>p. \<exists>r. resolve_cluster_scope (az_store az) cl = Inr r \<and> cluster_allows (az_store az) u p r) ps"
  using assms
proof (induction ps arbitrary: c bs)
  case Nil
  then show ?case by simp
next
  case (Cons p ps)
  obtain b c1 where b: "holds_cluster az u p cl c = (b, c1)" by fastforce
  obtain bs' where bs': "holds_each az u ps cl c1 = (bs', c')" "bs = b # bs'"
    using Cons.prems(2) b by (auto split: prod.splits)
  show ?case using holds_cluster_result [OF Cons.prems(1) b] Cons.IH [OF _ bs'(1)] bs'(2) by simp
qed

definition may_hold :: "authorization \<Rightarrow> gin_context \<Rightarrow> permission \<Rightarrow> bool" where
  "may_hold az c p \<longleftrightarrow> (\<exists>u r. gc_identity c = Some u \<and> scope_of az c = Inr r \<and> cluster_allows (az_store az) u p r)"

lemma resolved_grant:
  assumes "coherent (az_store az) (gc_cache c)" and "gc_manifest c = None"
  shows "cluster_manifest_grant (resolve_cluster_manifest_grant az ''cluster_id'' c) =
           \<lparr>mg_resource_create = may_hold az c ''cluster.resource.create'', mg_resource_update = may_hold az c ''cluster.resource.update'',
            mg_resource_delete = may_hold az c ''cluster.resource.delete'', mg_namespace_manage = may_hold az c ''cluster.namespace.manage'',
            mg_node_manage = may_hold az c ''cluster.node.manage'', mg_secret_read = may_hold az c ''cluster.secret.read'',
            mg_secret_manage = may_hold az c ''cluster.secret.manage'', mg_rbac_manage = may_hold az c ''cluster.rbac.manage'',
            mg_system_namespace = may_hold az c ''cluster.system_namespace.manage'',
            mg_agent_namespace = may_hold az c ''cluster.agent_namespace.manage''\<rparr>"
proof (cases "gc_identity c")
  case None
  then show ?thesis
    using assms(2) by (simp add: resolve_cluster_manifest_grant_def cluster_manifest_grant_def no_manifest_grant_def may_hold_def)
next
  case (Some u)
  obtain bs c' where bs: "holds_each az u manifest_permissions (param_of c ''cluster_id'') c = (bs, c')" by fastforce
  have "bs = map (may_hold az c) manifest_permissions"
    using holds_each_result [OF assms(1) bs] Some by (simp add: scope_of_def may_hold_def)
  then show ?thesis
    unfolding resolve_cluster_manifest_grant_def cluster_manifest_grant_def Some option.case bs prod.case
    by (simp add: manifest_permissions_def)
qed

end
