(* ===== verification/ManifestGate.thy ===== *)
theory ManifestGate
  imports GateGrants
begin

section \<open>What a manifest document answers to\<close>

text \<open>
  \<open>pkg/server/kubernetesresource/manifest_access.go\<close> and the rules of \<open>authorization.go\<close> and \<open>secret.go\<close> it
  reaches: the family of a resource, the permission a document needs for an apply or a delete, the guards
  on Secrets, roles and bindings, and the three operations over the resource service. A Kubernetes object
  is a record of the parts these rules read, as the JSON decoders answer them; the name rules of
  Kubernetes and the resource service itself are arguments.
\<close>

subsection \<open>Resources, objects and errors\<close>

record resource_identity =
  ri_group :: string
  ri_version :: string
  ri_resource :: string

record policy_rule =
  pr_verbs :: "string list"
  pr_api_groups :: "string list"
  pr_resources :: "string list"
  pr_resource_names :: "string list"
  pr_non_resource_urls :: "string list"

record role_subject =
  rs_api_group :: string
  rs_kind :: string
  rs_name :: string
  rs_namespace :: string

record role_ref =
  rr_api_group :: string
  rr_kind :: string
  rr_name :: string

text \<open>\<open>ko_secret\<close>, \<open>ko_rules\<close> and \<open>ko_binding\<close> are \<open>None\<close> when the object does not decode as such.\<close>

record kube_object =
  ko_api_version :: string
  ko_kind :: string
  ko_namespace :: string
  ko_name :: string
  ko_generate_name :: string
  ko_uid :: string
  ko_resource_version :: string
  ko_labels :: "(string \<times> string) list"
  ko_secret :: "(string \<times> bool option) option"
  ko_rules :: "policy_rule list option"
  ko_binding :: "(role_subject list \<times> role_ref) option"

datatype manifest_error =
    ErrInvalidInput | ErrInvalidResponse | ErrAgentUnsupported | ErrResourceNotFound
  | ErrManifestForbidden | ErrManifestResourceRefused | ErrPlatformLabelClaimed | ErrManagedResource
  | ErrRoleRefImmutable | ErrSecretRuleForbidden | ErrSecretImmutable | ErrSecretTypeImmutable
  | ErrDocumentInvalid | ErrDuplicateDocument | ErrUnknownKind | ErrVerbUnsupported
  | ErrUpstream string

record name_rules =
  nr_label :: "string \<Rightarrow> bool"
  nr_subdomain :: "string \<Rightarrow> bool"
  nr_path_segment :: "string \<Rightarrow> bool"

subsection \<open>Families and permissions\<close>

datatype manifest_family =
  FamilyGeneric | FamilyNamespace | FamilyNode | FamilySecret | FamilyAuthorization | FamilyRefused

datatype manifest_requirement =
    NeedResourceCreate | NeedResourceUpdate | NeedResourceDelete | NeedNamespaceManage | NeedNodeManage
  | NeedSecretManage | NeedRBACManage | NeedSystemNamespaceManage | NeedAgentNamespaceManage

record manifest_rights = manifest_grant +
  mr_agent_namespace :: string

definition manifest_rights_of :: "manifest_grant \<Rightarrow> string \<Rightarrow> manifest_rights" where
  "manifest_rights_of g agent = manifest_grant.extend g (manifest_rights.fields agent)"

definition rbac_group :: string where "rbac_group = ''rbac.authorization.k8s.io''"

definition authorization_resource_identities :: "resource_identity list" where
  "authorization_resource_identities =
     \<lparr>ri_group = [], ri_version = ''v1'', ri_resource = ''serviceaccounts''\<rparr>
     # map (\<lambda>r. \<lparr>ri_group = rbac_group, ri_version = ''v1'', ri_resource = r\<rparr>)
         [''roles'', ''clusterroles'', ''rolebindings'', ''clusterrolebindings'']"

definition is_authorization_resource_identity :: "resource_identity \<Rightarrow> bool" where
  "is_authorization_resource_identity r \<longleftrightarrow> r \<in> set authorization_resource_identities"

definition manifest_family_for :: "resource_identity \<Rightarrow> manifest_family" where
  "manifest_family_for r =
     (if ri_group r = [] \<and> ri_resource r = ''secrets'' then FamilySecret
      else if is_authorization_resource_identity r then FamilyAuthorization
      else if ri_resource r = ''events'' \<and> (ri_group r = [] \<or> ri_group r = ''events.k8s.io'') then FamilyRefused
      else if ri_group r = [] \<and> ri_resource r = ''namespaces'' then FamilyNamespace
      else if ri_group r = [] \<and> ri_resource r = ''nodes'' then FamilyNode
      else FamilyGeneric)"

record manifest_target =
  mt_namespace :: string
  mt_name :: string

text \<open>Only the first of the targets is read. \<open>None\<close> is a target that is not protected.\<close>

definition protected_namespace_requirement ::
    "manifest_rights \<Rightarrow> resource_identity \<Rightarrow> manifest_target list \<Rightarrow> (manifest_requirement \<times> bool) option" where
  "protected_namespace_requirement g r targets =
     (case targets of
        [] \<Rightarrow> None
      | t # _ \<Rightarrow>
          (let namespace = (if ri_group r = [] \<and> ri_version r = ''v1'' \<and> ri_resource r = ''namespaces''
                            then mt_name t else mt_namespace t)
           in if mr_agent_namespace g \<noteq> [] \<and> namespace = mr_agent_namespace g
              then Some (NeedAgentNamespaceManage, mg_agent_namespace g)
              else if has_prefix namespace ''kube-''
                      \<or> ri_group r = [] \<and> ri_resource r = ''namespaces'' \<and> namespace = ''default''
              then Some (NeedSystemNamespaceManage, mg_system_namespace g)
              else None))"

definition family_requirement ::
    "manifest_rights \<Rightarrow> manifest_family \<Rightarrow> manifest_requirement \<times> bool \<Rightarrow> manifest_error + manifest_requirement \<times> bool" where
  "family_requirement g f generic =
     (case f of
        FamilyRefused \<Rightarrow> Inl ErrManifestResourceRefused
      | FamilySecret \<Rightarrow> Inr (NeedSecretManage, mg_secret_manage g)
      | FamilyAuthorization \<Rightarrow> Inr (NeedRBACManage, mg_rbac_manage g)
      | FamilyNamespace \<Rightarrow> Inr (NeedNamespaceManage, mg_namespace_manage g)
      | FamilyNode \<Rightarrow> Inr (NeedNodeManage, mg_node_manage g)
      | FamilyGeneric \<Rightarrow> Inr generic)"

text \<open>The two requirement functions differ in what the generic family needs.\<close>

definition requirement_with ::
    "manifest_requirement \<times> bool \<Rightarrow> manifest_rights \<Rightarrow> resource_identity \<Rightarrow> manifest_target list
       \<Rightarrow> manifest_error + manifest_requirement \<times> bool" where
  "requirement_with generic g r targets =
     (let f = manifest_family_for r in
      case protected_namespace_requirement g r targets of
        None \<Rightarrow> family_requirement g f generic
      | Some (q, allowed) \<Rightarrow>
          if f = FamilyRefused then Inl ErrManifestResourceRefused
          else if \<not> allowed then Inr (q, False)
          else if f \<noteq> FamilySecret \<and> f \<noteq> FamilyAuthorization then Inr (q, True)
          else family_requirement g f generic)"

definition requirement_for_apply ::
    "manifest_rights \<Rightarrow> resource_identity \<Rightarrow> bool \<Rightarrow> manifest_target list
       \<Rightarrow> manifest_error + manifest_requirement \<times> bool" where
  "requirement_for_apply g r creating targets =
     requirement_with (if creating then (NeedResourceCreate, mg_resource_create g)
                       else (NeedResourceUpdate, mg_resource_update g)) g r targets"

definition requirement_for_delete ::
    "manifest_rights \<Rightarrow> resource_identity \<Rightarrow> manifest_target list \<Rightarrow> manifest_error + manifest_requirement \<times> bool" where
  "requirement_for_delete g r targets = requirement_with (NeedResourceDelete, mg_resource_delete g) g r targets"

fun manifest_requirement_permission :: "manifest_requirement \<Rightarrow> permission" where
  "manifest_requirement_permission NeedResourceCreate = ''cluster.resource.create''"
| "manifest_requirement_permission NeedResourceUpdate = ''cluster.resource.update''"
| "manifest_requirement_permission NeedResourceDelete = ''cluster.resource.delete''"
| "manifest_requirement_permission NeedNamespaceManage = ''cluster.namespace.manage''"
| "manifest_requirement_permission NeedNodeManage = ''cluster.node.manage''"
| "manifest_requirement_permission NeedSecretManage = ''cluster.secret.manage''"
| "manifest_requirement_permission NeedRBACManage = ''cluster.rbac.manage''"
| "manifest_requirement_permission NeedSystemNamespaceManage = ''cluster.system_namespace.manage''"
| "manifest_requirement_permission NeedAgentNamespaceManage = ''cluster.agent_namespace.manage''"

subsection \<open>Rules about access to Secrets\<close>

definition max_authorization_rules :: nat where "max_authorization_rules = 128"
definition max_authorization_subjects :: nat where "max_authorization_subjects = 256"
definition max_authorization_rule_values :: nat where "max_authorization_rule_values = 64"

definition secret_rule_within_grant :: "string list \<Rightarrow> secret_grant \<Rightarrow> bool" where
  "secret_rule_within_grant verbs g \<longleftrightarrow>
     (if sg_manage g then True
      else if \<not> sg_read g then False
      else list_all (\<lambda>v. v \<in> {''get'', ''list'', ''watch''}) verbs)"

definition forbidden_authorization_rule :: "policy_rule \<Rightarrow> secret_grant \<Rightarrow> bool" where
  "forbidden_authorization_rule r g \<longleftrightarrow>
     list_ex (\<lambda>v. v = ''escalate'' \<or> v = ''bind'' \<or> v = ''impersonate'') (pr_verbs r)
     \<or> list_ex (\<lambda>x. x = ''serviceaccounts/token''
          \<or> (x = ''secrets'' \<or> x = ''*'') \<and> \<not> secret_rule_within_grant (pr_verbs r) g) (pr_resources r)"

definition mentions_secrets :: "policy_rule \<Rightarrow> bool" where
  "mentions_secrets r \<longleftrightarrow> list_ex (\<lambda>x. x = ''secrets'' \<or> x = ''*'') (pr_resources r)"

definition valid_rule_values :: "string list \<Rightarrow> bool \<Rightarrow> bool" where
  "valid_rule_values vs allow_empty \<longleftrightarrow>
     length vs \<le> max_authorization_rule_values
     \<and> list_all (\<lambda>v. length v \<le> 1024 \<and> trim_space v = v \<and> (allow_empty \<or> v \<noteq> [])) vs"

definition validate_rule :: "bool \<Rightarrow> secret_grant \<Rightarrow> policy_rule \<Rightarrow> manifest_error + unit" where
  "validate_rule allow_non_resource g r =
     (let resource_rule = pr_resources r \<noteq> []; non_resource_rule = pr_non_resource_urls r \<noteq> [] in
      if pr_verbs r = [] \<or> \<not> valid_rule_values (pr_verbs r) False \<or> \<not> valid_rule_values (pr_api_groups r) True
         \<or> \<not> valid_rule_values (pr_resources r) False \<or> \<not> valid_rule_values (pr_resource_names r) False
         \<or> \<not> valid_rule_values (pr_non_resource_urls r) False
      then Inl ErrInvalidInput
      else if resource_rule = non_resource_rule
              \<or> non_resource_rule \<and> (\<not> allow_non_resource \<or> pr_api_groups r \<noteq> [] \<or> pr_resource_names r \<noteq> [])
      then Inl ErrInvalidInput
      else if forbidden_authorization_rule r g
      then Inl (if mentions_secrets r \<and> \<not> secret_rule_within_grant (pr_verbs r) g
                then ErrSecretRuleForbidden else ErrInvalidInput)
      else Inr ())"

fun validate_each :: "bool \<Rightarrow> secret_grant \<Rightarrow> policy_rule list \<Rightarrow> manifest_error + unit" where
  "validate_each n g [] = Inr ()"
| "validate_each n g (r # rs) = and_then (validate_rule n g r) (\<lambda>_. validate_each n g rs)"

definition validate_authorization_rules :: "policy_rule list \<Rightarrow> bool \<Rightarrow> secret_grant \<Rightarrow> manifest_error + unit" where
  "validate_authorization_rules rs allow_non_resource g =
     (if max_authorization_rules < length rs then Inl ErrInvalidInput else validate_each allow_non_resource g rs)"

subsection \<open>Bindings\<close>

definition valid_subject :: "name_rules \<Rightarrow> role_subject \<Rightarrow> bool" where
  "valid_subject nr s \<longleftrightarrow>
     (if rs_kind s = ''ServiceAccount''
      then rs_api_group s = [] \<and> nr_subdomain nr (rs_name s) \<and> nr_label nr (rs_namespace s)
      else if rs_kind s = ''User'' \<or> rs_kind s = ''Group''
      then rs_api_group s = rbac_group \<and> rs_name s \<noteq> [] \<and> length (rs_name s) \<le> 253 \<and> rs_namespace s = []
           \<and> trim_space (rs_name s) = rs_name s
      else False)"

definition valid_authorization_subjects :: "name_rules \<Rightarrow> role_subject list \<Rightarrow> bool" where
  "valid_authorization_subjects nr ss \<longleftrightarrow>
     ss \<noteq> [] \<and> length ss \<le> max_authorization_subjects \<and> list_all (valid_subject nr) ss"

definition valid_rbac_name :: "name_rules \<Rightarrow> string \<Rightarrow> bool" where
  "valid_rbac_name nr n \<longleftrightarrow> n \<noteq> [] \<and> length n \<le> 253 \<and> trim_space n = n \<and> nr_path_segment nr n"

definition agent_service_account :: string where "agent_service_account = ''zke-agent''"
definition agent_base_cluster_role :: string where "agent_base_cluster_role = agent_service_account @ ''-base''"

definition valid_authorization_role_ref :: "name_rules \<Rightarrow> string \<Rightarrow> role_ref \<Rightarrow> bool" where
  "valid_authorization_role_ref nr resource r \<longleftrightarrow>
     rr_api_group r = rbac_group \<and> rr_name r \<noteq> agent_service_account \<and> valid_rbac_name nr (rr_name r)
     \<and> (if resource = ''rolebindings'' then rr_kind r = ''Role'' \<or> rr_kind r = ''ClusterRole''
        else resource = ''clusterrolebindings'' \<and> rr_kind r = ''ClusterRole'')"

subsection \<open>The guards\<close>

definition managed_labels :: "(string \<times> string) list \<Rightarrow> bool" where
  "managed_labels ls \<longleftrightarrow> map_of ls ''app.kubernetes.io/managed-by'' = Some ''zke-server''"

text \<open>A nil object has no namespace and no labels.\<close>

definition live_namespace :: "kube_object option \<Rightarrow> string" where
  "live_namespace x = (case x of None \<Rightarrow> [] | Some y \<Rightarrow> ko_namespace y)"

definition live_labels :: "kube_object option \<Rightarrow> (string \<times> string) list" where
  "live_labels x = (case x of None \<Rightarrow> [] | Some y \<Rightarrow> ko_labels y)"

definition authorization_resource_for_kind :: "string \<Rightarrow> string option" where
  "authorization_resource_for_kind kind =
     map_of [(''ServiceAccount'', ''serviceaccounts''), (''Role'', ''roles''), (''ClusterRole'', ''clusterroles''),
             (''RoleBinding'', ''rolebindings''), (''ClusterRoleBinding'', ''clusterrolebindings'')] kind"

definition authorization_manifest_guard ::
    "name_rules \<Rightarrow> kube_object option \<Rightarrow> kube_object \<Rightarrow> secret_grant \<Rightarrow> manifest_error + unit" where
  "authorization_manifest_guard nr current submitted g =
     (if live_namespace current = [] \<and> managed_labels (live_labels current) then Inl ErrManagedResource
      else if managed_labels (ko_labels submitted) \<and> \<not> managed_labels (live_labels current)
      then Inl ErrPlatformLabelClaimed
      else case authorization_resource_for_kind (ko_kind submitted) of
        None \<Rightarrow> Inl ErrInvalidInput
      | Some resource \<Rightarrow>
          if resource = ''serviceaccounts'' then Inr ()
          else if resource = ''roles'' \<or> resource = ''clusterroles''
          then (case ko_rules submitted of
                  None \<Rightarrow> Inl ErrInvalidInput
                | Some rs \<Rightarrow> validate_authorization_rules rs (resource = ''clusterroles'') g)
          else (case ko_binding submitted of
                  None \<Rightarrow> Inl ErrInvalidInput
                | Some (subjects, ref) \<Rightarrow>
                    if \<not> valid_authorization_subjects nr subjects \<or> \<not> valid_authorization_role_ref nr resource ref
                    then Inl ErrInvalidInput
                    else (case current of
                            None \<Rightarrow> Inr ()
                          | Some live \<Rightarrow>
                              (case ko_binding live of
                                 None \<Rightarrow> Inl ErrInvalidResponse
                               | Some (_, live_ref) \<Rightarrow> if live_ref \<noteq> ref then Inl ErrRoleRefImmutable else Inr ()))))"

definition secret_manifest_guard :: "kube_object \<Rightarrow> kube_object \<Rightarrow> manifest_error + unit" where
  "secret_manifest_guard current submitted =
     (case ko_secret current of
        None \<Rightarrow> Inl ErrInvalidResponse
      | Some (live_type, immutable) \<Rightarrow>
          (case ko_secret submitted of
             None \<Rightarrow> Inl ErrInvalidInput
           | Some (wanted_type, _) \<Rightarrow>
               if managed_labels (ko_labels submitted) \<and> \<not> managed_labels (ko_labels current)
               then Inl ErrPlatformLabelClaimed
               else if immutable = Some True then Inl ErrSecretImmutable
               else if wanted_type \<noteq> live_type then Inl ErrSecretTypeImmutable
               else Inr ()))"

definition guard_apply ::
    "name_rules \<Rightarrow> manifest_rights \<Rightarrow> manifest_family \<Rightarrow> kube_object option \<Rightarrow> kube_object \<Rightarrow> manifest_error + unit" where
  "guard_apply nr g f current submitted =
     (case f of
        FamilySecret \<Rightarrow>
          (case ko_secret submitted of
             None \<Rightarrow> Inl ErrInvalidInput
           | Some _ \<Rightarrow>
               (case current of
                  None \<Rightarrow> if managed_labels (ko_labels submitted) then Inl ErrPlatformLabelClaimed else Inr ()
                | Some live \<Rightarrow>
                    (case ko_secret live of
                       None \<Rightarrow> Inl ErrInvalidResponse
                     | Some _ \<Rightarrow>
                         if managed_labels (ko_labels submitted) \<and> \<not> managed_labels (ko_labels live)
                         then Inl ErrPlatformLabelClaimed
                         else secret_manifest_guard live submitted)))
      | FamilyAuthorization \<Rightarrow>
          authorization_manifest_guard nr current submitted \<lparr>sg_read = mg_secret_read g, sg_manage = mg_secret_manage g\<rparr>
      | _ \<Rightarrow> Inr ())"

definition guard_delete :: "manifest_family \<Rightarrow> kube_object \<Rightarrow> manifest_error + unit" where
  "guard_delete f current =
     (if f = FamilyAuthorization \<and> ko_namespace current = [] \<and> managed_labels (ko_labels current)
      then Inl ErrManagedResource else Inr ())"

end
