(* ===== verification/ManifestDocs.thy ===== *)
theory ManifestDocs
  imports ManifestGate
begin

section \<open>Reading, applying and deleting documents\<close>

text \<open>
  The three operations of \<open>ManifestAccess\<close> over the resource service, what a document needs compared with
  what the generic route needs, and what the rules let a Role hand out.
\<close>

subsection \<open>The operations\<close>

record patch_request =
  pq_cluster :: string
  pq_resource :: resource_identity
  pq_namespace :: string
  pq_name :: string
  pq_object :: kube_object
  pq_dry_run :: bool
  pq_field_manager :: string
  pq_force :: bool
  pq_confirm :: bool
  pq_key :: string
  pq_secret :: bool

record delete_request =
  dq_cluster :: string
  dq_resource :: resource_identity
  dq_namespace :: string
  dq_name :: string
  dq_dry_run :: bool
  dq_confirm :: bool
  dq_uid :: string
  dq_resource_version :: string
  dq_key :: string
  dq_secret :: bool

record get_request =
  gq_cluster :: string
  gq_resource :: resource_identity
  gq_namespace :: string
  gq_name :: string
  gq_secret :: bool

record discovered_resource =
  dr_group :: string
  dr_version :: string
  dr_resource :: string
  dr_kind :: string
  dr_namespaced :: bool
  dr_verbs :: "string list"

record 'w kube_service =
  ks_discover :: "string \<Rightarrow> 'w \<Rightarrow> (manifest_error + discovered_resource list \<times> bool) \<times> 'w"
  ks_get :: "get_request \<Rightarrow> 'w \<Rightarrow> (manifest_error + kube_object) \<times> 'w"
  ks_patch :: "patch_request \<Rightarrow> 'w \<Rightarrow> (manifest_error + kube_object) \<times> 'w"
  ks_delete :: "delete_request \<Rightarrow> 'w \<Rightarrow> (manifest_error + unit) \<times> 'w"

record manifest_apply_input =
  ai_cluster :: string
  ai_resource :: resource_identity
  ai_namespace :: string
  ai_name :: string
  ai_object :: kube_object
  ai_current :: "kube_object option"
  ai_dry_run :: bool
  ai_force :: bool
  ai_confirm :: bool
  ai_field_manager :: string
  ai_key :: string

record manifest_delete_input =
  di_cluster :: string
  di_resource :: resource_identity
  di_namespace :: string
  di_name :: string
  di_current :: kube_object
  di_dry_run :: bool
  di_confirm :: bool
  di_key :: string

definition document_target :: "string \<Rightarrow> string \<Rightarrow> manifest_target" where
  "document_target namespace name = \<lparr>mt_namespace = namespace, mt_name = name\<rparr>"

definition manifest_get ::
    "'w kube_service option \<Rightarrow> manifest_rights \<Rightarrow> string \<Rightarrow> resource_identity \<Rightarrow> string \<Rightarrow> string \<Rightarrow> 'w
       \<Rightarrow> (manifest_error + kube_object) \<times> 'w" where
  "manifest_get svc g cluster r namespace name w =
     (case svc of
        None \<Rightarrow> (Inl ErrAgentUnsupported, w)
      | Some s \<Rightarrow>
          (let f = manifest_family_for r in
           if f = FamilyRefused then (Inl ErrManifestResourceRefused, w)
           else if (case protected_namespace_requirement g r [document_target namespace name] of
                      Some (_, allowed) \<Rightarrow> \<not> allowed | None \<Rightarrow> False)
           then (Inl ErrManifestForbidden, w)
           else if f = FamilySecret \<and> \<not> mg_secret_read g \<and> \<not> mg_secret_manage g then (Inl ErrManifestForbidden, w)
           else ks_get s \<lparr>gq_cluster = cluster, gq_resource = r, gq_namespace = namespace, gq_name = name,
                          gq_secret = (f = FamilySecret)\<rparr> w))"

definition apply_request :: "manifest_apply_input \<Rightarrow> patch_request" where
  "apply_request i =
     \<lparr>pq_cluster = ai_cluster i, pq_resource = ai_resource i, pq_namespace = ai_namespace i, pq_name = ai_name i,
      pq_object = ai_object i, pq_dry_run = ai_dry_run i, pq_field_manager = ai_field_manager i, pq_force = ai_force i,
      pq_confirm = ai_confirm i, pq_key = ai_key i, pq_secret = (manifest_family_for (ai_resource i) = FamilySecret)\<rparr>"

definition delete_request_of :: "manifest_delete_input \<Rightarrow> delete_request" where
  "delete_request_of i =
     \<lparr>dq_cluster = di_cluster i, dq_resource = di_resource i, dq_namespace = di_namespace i, dq_name = di_name i,
      dq_dry_run = di_dry_run i, dq_confirm = di_confirm i, dq_uid = ko_uid (di_current i),
      dq_resource_version = ko_resource_version (di_current i), dq_key = di_key i,
      dq_secret = (manifest_family_for (di_resource i) = FamilySecret)\<rparr>"

definition manifest_apply ::
    "name_rules \<Rightarrow> 'w kube_service option \<Rightarrow> manifest_rights \<Rightarrow> manifest_apply_input \<Rightarrow> 'w
       \<Rightarrow> (manifest_error + kube_object) \<times> 'w" where
  "manifest_apply nr svc g i w =
     (case svc of
        None \<Rightarrow> (Inl ErrAgentUnsupported, w)
      | Some s \<Rightarrow>
          (let f = manifest_family_for (ai_resource i) in
           case requirement_for_apply g (ai_resource i) (ai_current i = None) [document_target (ai_namespace i) (ai_name i)] of
             Inl e \<Rightarrow> (Inl e, w)
           | Inr (_, allowed) \<Rightarrow>
               if \<not> allowed then (Inl ErrManifestForbidden, w)
               else case guard_apply nr g f (ai_current i) (ai_object i) of
                      Inl e \<Rightarrow> (Inl e, w)
                    | Inr _ \<Rightarrow>
                        ks_patch s (apply_request i) w))"

definition manifest_delete ::
    "'w kube_service option \<Rightarrow> manifest_rights \<Rightarrow> manifest_delete_input \<Rightarrow> 'w \<Rightarrow> (manifest_error + unit) \<times> 'w" where
  "manifest_delete svc g i w =
     (case svc of
        None \<Rightarrow> (Inl ErrAgentUnsupported, w)
      | Some s \<Rightarrow>
          (let f = manifest_family_for (di_resource i) in
           case requirement_for_delete g (di_resource i) [document_target (di_namespace i) (di_name i)] of
             Inl e \<Rightarrow> (Inl e, w)
           | Inr (_, allowed) \<Rightarrow>
               if \<not> allowed then (Inl ErrManifestForbidden, w)
               else case guard_delete f (di_current i) of
                      Inl e \<Rightarrow> (Inl e, w)
                    | Inr _ \<Rightarrow>
                        if ko_uid (di_current i) = [] \<or> ko_resource_version (di_current i) = [] then (Inl ErrInvalidInput, w)
                        else ks_delete s (delete_request_of i) w))"

subsection \<open>A document and a route ask the same\<close>

text \<open>The generic item route for one object: \<open>/kubernetes/resources/:resource_name\<close> with the resource in the query.\<close>

definition item_request :: "gin_context \<Rightarrow> resource_identity \<Rightarrow> string \<Rightarrow> string \<Rightarrow> bool" where
  "item_request c r namespace name \<longleftrightarrow>
     gc_method c \<noteq> ''GET'' \<and> gc_full_path c = resources_route @ ''/:resource_name''
     \<and> query_of c ''group'' = ri_group r \<and> query_of c ''version'' = ri_version r \<and> query_of c ''resource'' = ri_resource r
     \<and> query_of c ''namespace'' = namespace \<and> param_of c ''namespace_name'' = []
     \<and> param_of c ''resource_name'' = name \<and> name \<noteq> []"

text \<open>The families without a permission of their own; what the cluster scopes has no namespace.\<close>

definition ordinary_document :: "resource_identity \<Rightarrow> string \<Rightarrow> bool" where
  "ordinary_document r namespace \<longleftrightarrow>
     manifest_family_for r \<in> {FamilyGeneric, FamilyNamespace, FamilyNode}
     \<and> (manifest_family_for r \<noteq> FamilyGeneric \<longrightarrow> ri_version r = ''v1'' \<and> namespace = [])"

lemma item_request_paths:
  assumes "item_request c r namespace name"
  shows "contains (gc_full_path c) resources_path" "\<not> needs_additional_gate c" "\<not> is_namespace_lifecycle_route c"
    "\<not> named_by_body c" "gc_full_path c \<noteq> namespaces_route"
proof -
  have p: "gc_full_path c = resources_route @ ''/:resource_name''" "gc_method c \<noteq> ''GET''"
    using assms by (simp_all add: item_request_def)
  have "contains (resources_route @ ''/:resource_name'') resources_path"
    "\<not> contains (resources_route @ ''/:resource_name'') ''/secrets''"
    "\<not> contains (resources_route @ ''/:resource_name'') ''/helm-releases''"
    "\<not> contains (resources_route @ ''/:resource_name'') ''/authorization''"
    "\<not> contains (resources_route @ ''/:resource_name'') ''/terminal-sessions''"
    "\<not> contains (resources_route @ ''/:resource_name'') ''/access-sessions''"
    "resources_route @ ''/:resource_name'' \<noteq> namespace_route" "resources_route @ ''/:resource_name'' \<noteq> namespaces_route"
    "resources_route @ ''/:resource_name'' \<noteq> resources_route"
    by code_simp+
  then show "contains (gc_full_path c) resources_path" "\<not> needs_additional_gate c" "\<not> is_namespace_lifecycle_route c"
    "\<not> named_by_body c" "gc_full_path c \<noteq> namespaces_route"
    using p by (simp_all add: needs_additional_gate_def is_namespace_lifecycle_route_def named_by_body_def)
qed

definition permission_of :: "manifest_error + manifest_requirement \<times> bool \<Rightarrow> permission option" where
  "permission_of x = (case x of Inl _ \<Rightarrow> None | Inr (q, _) \<Rightarrow> Some (manifest_requirement_permission q))"

text \<open>For a family without a permission of its own the answer is protection, then family, then the generic need.\<close>

lemma requirement_with_ordinary:
  assumes "manifest_family_for r \<in> {FamilyGeneric, FamilyNamespace, FamilyNode}"
  shows "requirement_with x g r ts =
    (case protected_namespace_requirement g r ts of
       Some y \<Rightarrow> Inr y | None \<Rightarrow> family_requirement g (manifest_family_for r) x)"
  using assms by (auto simp: requirement_with_def Let_def split: option.split prod.split)

lemma document_namespace_permission:
  assumes i: "item_request c r namespace name" and o': "ordinary_document r namespace" and a: "mr_agent_namespace g \<noteq> []"
  shows "namespace_permission decode c (mr_agent_namespace g) =
    (case protected_namespace_requirement g r [document_target namespace name] of
       None \<Rightarrow> [] | Some (q, _) \<Rightarrow> manifest_requirement_permission q)"
proof -
  note paths = item_request_paths [OF i]
  have nr: "names_resource c x \<longleftrightarrow> ri_group r = [] \<and> ri_version r = ''v1'' \<and> ri_resource r = x" for x
    using i by (simp add: names_resource_def item_request_def)
  have nn: "named_namespace c = namespace" using i by (simp add: named_namespace_def item_request_def)
  have eq: "namespace_permission decode c (mr_agent_namespace g) =
      protection (mr_agent_namespace g) (names_namespace_object c) (if named_by_path c then name else namespace)"
    using paths(4) i by (simp add: namespace_permission_def protected_namespace_permission_eq target_namespace_def nn item_request_def)
  have object: "names_namespace_object c = named_by_path c"
    using paths by (simp add: names_namespace_object_def)
  show ?thesis
  proof (cases "ri_group r = [] \<and> ri_resource r = ''namespaces''")
    case True
    then have f: "manifest_family_for r = FamilyNamespace"
      using o' by (auto simp: ordinary_document_def manifest_family_for_def split: if_splits)
    then have v: "ri_version r = ''v1''" "namespace = []" using o' by (simp_all add: ordinary_document_def)
    then have p: "named_by_path c" using True nr nn i by (simp add: named_by_path_def item_request_def)
    show ?thesis
      unfolding eq object using True v p a i
      by (auto simp: protection_def protected_namespace_requirement_def document_target_def item_request_def)
  next
    case False
    then have p: "\<not> named_by_path c" using nr by (auto simp: named_by_path_def)
    have "namespace = [] \<Longrightarrow> \<not> has_prefix namespace ''kube-''" by simp
    then show ?thesis
      unfolding eq object using False p a
      by (auto simp: protection_def protected_namespace_requirement_def document_target_def)
  qed
qed

lemma document_permission:
  assumes i: "item_request c r namespace name" and o': "ordinary_document r namespace" and a: "mr_agent_namespace g \<noteq> []"
    and p: "p \<in> set ordinary_powers" "manifest_requirement_permission (fst x) = p" "p \<noteq> ''cluster.namespace.manage''"
  shows "permission_of (requirement_with x g r [document_target namespace name]) = Some (route_permission decode c p (mr_agent_namespace g))"
proof -
  have fam: "manifest_family_for r \<in> {FamilyGeneric, FamilyNamespace, FamilyNode}" using o' by (simp add: ordinary_document_def)
  note np = document_namespace_permission [OF i o' a, of decode]
  note paths = item_request_paths [OF i]
  have nr: "names_resource c x \<longleftrightarrow> ri_group r = [] \<and> ri_version r = ''v1'' \<and> ri_resource r = x" for x
    using i by (simp add: names_resource_def item_request_def)
  have get: "gc_method c \<noteq> ''GET''" using i by (simp add: item_request_def)
  have node: "is_node_object_mutation c \<longleftrightarrow> manifest_family_for r = FamilyNode"
    using o' get paths(1) nr by (auto simp: is_node_object_mutation_def ordinary_document_def manifest_family_for_def split: if_splits)
  have nsp: "is_namespace_object_mutation c \<longleftrightarrow> manifest_family_for r = FamilyNamespace"
    using o' get paths(1) nr by (auto simp: is_namespace_object_mutation_def ordinary_document_def manifest_family_for_def split: if_splits)
  have nodeless: "manifest_family_for r = FamilyNode \<Longrightarrow> protected_namespace_requirement g r [document_target namespace name] = None"
    using o' a by (auto simp: ordinary_document_def protected_namespace_requirement_def document_target_def manifest_family_for_def split: if_splits)
  have perm: "manifest_requirement_permission q \<noteq> []" for q by (cases q) simp_all
  show ?thesis
    using fam p nodeless perm
    by (cases x; cases "protected_namespace_requirement g r [document_target namespace name]")
      (auto simp: requirement_with_ordinary permission_of_def route_permission_eq np node nsp family_requirement_def)
qed

subsection \<open>Documents and routes admit the same writes\<close>

definition request_rights :: "authorization \<Rightarrow> gin_context \<Rightarrow> resolved_scope \<Rightarrow> manifest_rights" where
  "request_rights az c sc =
     manifest_rights_of (cluster_manifest_grant (resolve_cluster_manifest_grant az ''cluster_id'' c)) (resolved_agent_namespace sc)"

text \<open>An answer carries the grant's word on the permission it names.\<close>

lemma requirement_decided:
  assumes "coherent (az_store az) (gc_cache c)" and "gc_manifest c = None" and g: "g = request_rights az c sc"
    and x: "snd x = may_hold az c (manifest_requirement_permission (fst x))"
    and r: "requirement_with x g r ts = Inr (q, b)"
  shows "b = may_hold az c (manifest_requirement_permission q)"
  using r x unfolding g request_rights_def resolved_grant [OF assms(1,2)]
  by (cases x) (auto simp: requirement_with_def family_requirement_def protected_namespace_requirement_def
      manifest_rights_of_def manifest_grant.defs manifest_rights.defs Let_def
      split: manifest_family.splits if_splits list.splits option.splits)

lemma document_admitted:
  assumes c: "unanswered az c" "gc_resolved c = None" "gc_manifest c = None" and sc: "scope_of az c = Inr sc"
    and i: "item_request c r namespace name" and o': "ordinary_document r namespace"
    and p: "p \<in> set ordinary_powers" "manifest_requirement_permission q0 = p" "p \<noteq> ''cluster.namespace.manage''"
    and g: "g = request_rights az c sc" and x: "x = (q0, may_hold az c p)"
  shows "(\<exists>q. requirement_with x g r [document_target namespace name] = Inr (q, True))
           \<longleftrightarrow> gc_reply (cluster_route az decode p c) = None"
proof -
  let ?a = "resolved_agent_namespace sc"
  have coh: "coherent (az_store az) (gc_cache c)" using c(1) by (simp add: unanswered_def)
  have agent: "mr_agent_namespace g = ?a" by (simp add: g request_rights_def manifest_rights_of_def manifest_grant.defs manifest_rights.defs)
  have needed: "needed_permissions decode c p ?a = [route_permission decode c p ?a]"
    using item_request_paths(2) [OF i] by (simp add: needed_permissions_def)
  have route: "gc_reply (cluster_route az decode p c) = None \<longleftrightarrow> may_hold az c (route_permission decode c p ?a)"
    unfolding route_admits [OF c(1,2)] using sc needed by (auto simp: may_hold_def)
  have fam: "manifest_family_for r \<in> {FamilyGeneric, FamilyNamespace, FamilyNode}" using o' by (simp add: ordinary_document_def)
  obtain q b where qb: "requirement_with x g r [document_target namespace name] = Inr (q, b)"
    using fam unfolding requirement_with_ordinary [OF fam] family_requirement_def
    by (cases "protected_namespace_requirement g r [document_target namespace name]"; cases x) auto
  have b: "b = may_hold az c (manifest_requirement_permission q)"
    using requirement_decided [OF coh c(3) g _ qb] p(2) x by simp
  show ?thesis
  proof (cases "?a = []")
    case True
    then have "\<not> may_hold az c q'" for q' using sc by (simp add: may_hold_def cluster_allows_def)
    then show ?thesis using route qb b by simp
  next
    case False
    then have "manifest_requirement_permission q = route_permission decode c p ?a"
      using document_permission [OF i o', of g p x decode] p x qb agent by (simp add: permission_of_def)
    then show ?thesis using route qb b by auto
  qed
qed


definition ex_item :: gin_context where
  "ex_item = ex_context ''PUT'' (resources_route @ ''/:resource_name'') [(''resource_name'', ''kube-public'')]
     [(''version'', ''v1''), (''resource'', ''namespaces'')] None"

definition ex_namespaces :: resource_identity where
  "ex_namespaces = \<lparr>ri_group = [], ri_version = ''v1'', ri_resource = ''namespaces''\<rparr>"

definition ex_scope :: resolved_scope where
  "ex_scope = \<lparr>resolved_tenant = ex_tenant, resolved_project = ex_project, resolved_agent_namespace = ''zke-system''\<rparr>"


subsection \<open>What a rule hands out\<close>

text \<open>Kubernetes' own reading of a rule: a star names every verb or resource, \<open>*/x\<close> the subresource \<open>x\<close> of every resource.\<close>

definition verb_covered :: "string \<Rightarrow> string list \<Rightarrow> bool" where
  "verb_covered verb vs \<longleftrightarrow> list_ex (\<lambda>v. v = ''*'' \<or> v = verb) vs"

definition resource_covered :: "string \<Rightarrow> string \<Rightarrow> string list \<Rightarrow> bool" where
  "resource_covered resource sub rs \<longleftrightarrow>
     list_ex (\<lambda>r. r = ''*'' \<or> r = (if sub = [] then resource else resource @ ''/'' @ sub)
                  \<or> sub \<noteq> [] \<and> r = ''*/'' @ sub) rs"

definition rule_covers :: "policy_rule \<Rightarrow> string \<Rightarrow> string \<Rightarrow> string \<Rightarrow> bool" where
  "rule_covers r verb resource sub \<longleftrightarrow> verb_covered verb (pr_verbs r) \<and> resource_covered resource sub (pr_resources r)"

lemma validate_each_ok: "validate_each n g rs = Inr () \<longleftrightarrow> (\<forall>r \<in> set rs. validate_rule n g r = Inr ())"
  by (induction rs) (auto simp: and_then_def split: sum.splits)

lemma validated_rule_allowed: "validate_rule n g r = Inr () \<Longrightarrow> \<not> forbidden_authorization_rule r g"
  by (simp add: validate_rule_def Let_def split: if_splits)

text \<open>
  C30: no role hands out more of the Secrets than its author holds. A role document of a manifest that
  the guard lets through contains a rule covering a verb on Secrets only when the author holds
  \<open>cluster.secret.manage\<close>, or holds \<open>cluster.secret.read\<close> and the verb only reads.
\<close>

theorem secret_rules_within_grant:
  assumes "guard_apply nr g FamilyAuthorization current submitted = Inr ()"
    and "ko_kind submitted = ''Role'' \<or> ko_kind submitted = ''ClusterRole''"
    and "ko_rules submitted = Some rs" and "r \<in> set rs" and cov: "rule_covers r verb ''secrets'' []"
  shows "mg_secret_manage g \<or> mg_secret_read g \<and> verb \<in> {''get'', ''list'', ''watch''}"
proof -
  let ?sg = "\<lparr>sg_read = mg_secret_read g, sg_manage = mg_secret_manage g\<rparr>"
  have "validate_authorization_rules rs (ko_kind submitted = ''ClusterRole'') ?sg = Inr ()"
    using assms(1-3)
    by (auto simp: guard_apply_def authorization_manifest_guard_def authorization_resource_for_kind_def split: if_splits)
  then have "validate_rule (ko_kind submitted = ''ClusterRole'') ?sg r = Inr ()"
    using assms(4) by (auto simp: validate_authorization_rules_def validate_each_ok split: if_splits)
  then have "\<not> forbidden_authorization_rule r ?sg" by (rule validated_rule_allowed)
  moreover have "list_ex (\<lambda>x. x = ''secrets'' \<or> x = ''*'') (pr_resources r)"
    using cov by (auto simp: rule_covers_def resource_covered_def list_ex_iff)
  ultimately have "secret_rule_within_grant (pr_verbs r) ?sg"
    by (auto simp: forbidden_authorization_rule_def list_ex_iff)
  then have within: "mg_secret_manage g \<or> mg_secret_read g \<and> set (pr_verbs r) \<subseteq> {''get'', ''list'', ''watch''}"
    by (simp add: secret_rule_within_grant_def list_all_iff subset_iff split: if_splits)
  have "''*'' \<in> set (pr_verbs r) \<or> verb \<in> set (pr_verbs r)"
    using cov unfolding rule_covers_def verb_covered_def list_ex_iff by blast
  moreover have "''*'' \<notin> {''get'', ''list'', ''watch''}" by simp
  ultimately show ?thesis using within by blast
qed

definition ex_rights :: "bool \<Rightarrow> bool \<Rightarrow> manifest_rights" where
  "ex_rights reads manages = manifest_rights_of (no_manifest_grant\<lparr>mg_rbac_manage := True, mg_secret_read := reads,
     mg_secret_manage := manages\<rparr>) ''zke-system''"

definition ex_rule :: "string \<Rightarrow> string \<Rightarrow> policy_rule" where
  "ex_rule verb resource = \<lparr>pr_verbs = [verb], pr_api_groups = [[]], pr_resources = [resource], pr_resource_names = [],
     pr_non_resource_urls = []\<rparr>"

definition ex_role :: "policy_rule list \<Rightarrow> kube_object" where
  "ex_role rs = \<lparr>ko_api_version = rbac_group @ ''/v1'', ko_kind = ''Role'', ko_namespace = ''default'', ko_name = ''reader'',
     ko_generate_name = [], ko_uid = [], ko_resource_version = [], ko_labels = [], ko_secret = None, ko_rules = Some rs,
     ko_binding = None\<rparr>"

definition ex_names :: name_rules where
  "ex_names = \<lparr>nr_label = (\<lambda>_. True), nr_subdomain = (\<lambda>_. True), nr_path_segment = (\<lambda>_. True)\<rparr>"

lemma valid_values: "valid_rule_values [] e" "valid_rule_values [[]] True" "valid_rule_values [''*''] False"
    "valid_rule_values [''*/token''] False" "valid_rule_values [''list''] False" "valid_rule_values [''secrets''] False"
  by (simp_all add: valid_rule_values_def max_authorization_rule_values_def) code_simp+

theorem secret_rules_within_grant_witness:
  "mg_secret_manage (ex_rights True False) \<or> mg_secret_read (ex_rights True False) \<and> ''list'' \<in> {''get'', ''list'', ''watch''}"
proof (rule secret_rules_within_grant)
  show "guard_apply ex_names (ex_rights True False) FamilyAuthorization None (ex_role [ex_rule ''list'' ''secrets'']) = Inr ()"
    by (simp add: guard_apply_def authorization_manifest_guard_def authorization_resource_for_kind_def live_namespace_def
        live_labels_def managed_labels_def ex_role_def ex_rule_def ex_rights_def manifest_rights_of_def manifest_grant.defs
        manifest_rights.defs no_manifest_grant_def validate_authorization_rules_def max_authorization_rules_def and_then_def
        validate_rule_def valid_values forbidden_authorization_rule_def secret_rule_within_grant_def)
  show "ko_kind (ex_role [ex_rule ''list'' ''secrets'']) = ''Role'' \<or> ko_kind (ex_role [ex_rule ''list'' ''secrets'']) = ''ClusterRole''"
    "ko_rules (ex_role [ex_rule ''list'' ''secrets'']) = Some [ex_rule ''list'' ''secrets'']"
    "ex_rule ''list'' ''secrets'' \<in> set [ex_rule ''list'' ''secrets'']" by (simp_all add: ex_role_def)
  show "rule_covers (ex_rule ''list'' ''secrets'') ''list'' ''secrets'' []" by code_simp
qed

definition star_rule :: policy_rule where
  "star_rule = ex_rule ''*'' ''*/token''"

definition agent_base_ref :: role_ref where
  "agent_base_ref = \<lparr>rr_api_group = rbac_group, rr_kind = ''ClusterRole'', rr_name = agent_base_cluster_role\<rparr>"

text \<open>
  What the outright refusals miss. The verbs \<open>escalate\<close>, \<open>bind\<close> and \<open>impersonate\<close>, the resource
  \<open>serviceaccounts/token\<close> and the Agent's own role are compared by their names only: whatever the
  author holds, a rule passes that covers all three verbs and that resource through stars, and so does a
  binding to the Agent's base ClusterRole, as long as its name is one Kubernetes accepts.
\<close>

theorem refusals_compare_names_only:
  assumes "nr_path_segment nr agent_base_cluster_role"
  shows "validate_authorization_rules [star_rule] clusterwide g = Inr () \<and> rule_covers star_rule ''create'' ''serviceaccounts'' ''token''
    \<and> (\<forall>v \<in> {''escalate'', ''bind'', ''impersonate''}. verb_covered v (pr_verbs star_rule))
    \<and> valid_authorization_role_ref nr ''clusterrolebindings'' agent_base_ref"
proof (intro conjI)
  show "validate_authorization_rules [star_rule] clusterwide g = Inr ()"
    by (simp add: star_rule_def ex_rule_def validate_authorization_rules_def max_authorization_rules_def and_then_def validate_rule_def
        valid_values forbidden_authorization_rule_def)
  show "rule_covers star_rule ''create'' ''serviceaccounts'' ''token''"
    by (simp add: star_rule_def ex_rule_def rule_covers_def verb_covered_def resource_covered_def)
  show "\<forall>v \<in> {''escalate'', ''bind'', ''impersonate''}. verb_covered v (pr_verbs star_rule)"
    by (simp add: star_rule_def ex_rule_def verb_covered_def)
  have "trim_space agent_base_cluster_role = agent_base_cluster_role" "length agent_base_cluster_role \<le> 253"
    "agent_base_cluster_role \<noteq> agent_service_account" "agent_base_cluster_role \<noteq> []" by code_simp+
  then show "valid_authorization_role_ref nr ''clusterrolebindings'' agent_base_ref"
    using assms by (simp add: agent_base_ref_def valid_authorization_role_ref_def valid_rbac_name_def)
qed

theorem refusals_compare_names_only_witness:
  "validate_authorization_rules [star_rule] False \<lparr>sg_read = False, sg_manage = False\<rparr> = Inr ()"
  using refusals_compare_names_only [of ex_names False "\<lparr>sg_read = False, sg_manage = False\<rparr>"] by (simp add: ex_names_def)

end
