(* ===== verification/ManifestRun.thy ===== *)
theory ManifestRun
  imports ManifestDocs
begin

section \<open>Planning and executing a manifest\<close>

text \<open>
  \<open>pkg/server/kubernetesmanifest/service.go\<close>: a manifest is planned document by document, refused whole
  when one document cannot be written, and otherwise executed in the order of the operation until the
  first failure. The layer below is an argument, a record of its six operations; the production instance
  is \<open>ManifestAccess\<close> over the resource service.
\<close>

subsection \<open>Discovery\<close>

record catalog_entry =
  ce_resource :: resource_identity
  ce_namespaced :: bool
  ce_verbs :: "string list"

type_synonym manifest_kind = "string \<times> string \<times> string"

record manifest_catalog =
  mc_entries :: "manifest_kind \<Rightarrow> catalog_entry option"
  mc_partial :: bool

definition implemented_verbs :: "string list" where
  "implemented_verbs = [''get'', ''list'', ''create'', ''update'', ''patch'', ''delete'']"

definition supported_verbs :: "string list \<Rightarrow> string list" where
  "supported_verbs verbs = filter (\<lambda>v. v \<in> set verbs) implemented_verbs"

definition valid_resource_identity :: "name_rules \<Rightarrow> resource_identity \<Rightarrow> bool" where
  "valid_resource_identity nr r \<longleftrightarrow>
     (ri_group r = [] \<or> nr_subdomain nr (ri_group r)) \<and> nr_subdomain nr (ri_version r) \<and> nr_subdomain nr (ri_resource r)"

definition discovered_identity :: "discovered_resource \<Rightarrow> resource_identity" where
  "discovered_identity d = \<lparr>ri_group = dr_group d, ri_version = dr_version d, ri_resource = dr_resource d\<rparr>"

definition add_discovered ::
    "name_rules \<Rightarrow> discovered_resource \<Rightarrow> (manifest_kind \<Rightarrow> catalog_entry option) \<Rightarrow> (manifest_kind \<Rightarrow> catalog_entry option)" where
  "add_discovered nr d entries =
     (let key = (dr_group d, dr_version d, dr_kind d) in
      if \<not> valid_resource_identity nr (discovered_identity d) \<or> dr_kind d = [] \<or> 253 < length (dr_kind d) then entries
      else if entries key \<noteq> None then entries
      else entries(key \<mapsto> \<lparr>ce_resource = discovered_identity d, ce_namespaced = dr_namespaced d,
                            ce_verbs = supported_verbs (dr_verbs d)\<rparr>))"

definition secret_entry :: catalog_entry where
  "secret_entry = \<lparr>ce_resource = \<lparr>ri_group = [], ri_version = ''v1'', ri_resource = ''secrets''\<rparr>, ce_namespaced = True,
                   ce_verbs = implemented_verbs\<rparr>"

definition discover_manifest_catalog ::
    "name_rules \<Rightarrow> 'w kube_service \<Rightarrow> string \<Rightarrow> 'w \<Rightarrow> (manifest_error + manifest_catalog) \<times> 'w" where
  "discover_manifest_catalog nr s cluster w =
     (case ks_discover s cluster w of
        (Inl e, w') \<Rightarrow> (Inl e, w')
      | (Inr (ds, missing), w') \<Rightarrow>
          (Inr \<lparr>mc_entries = (fold (add_discovered nr) ds (\<lambda>_. None))(([], ''v1'', ''Secret'') \<mapsto> secret_entry),
                mc_partial = missing\<rparr>, w'))"

definition catalog_lookup :: "manifest_catalog \<Rightarrow> manifest_kind \<Rightarrow> catalog_entry option" where
  "catalog_lookup c k = mc_entries c k"

subsection \<open>The layer below\<close>

record 'w resource_access =
  ra_discover :: "string \<Rightarrow> 'w \<Rightarrow> (manifest_error + manifest_catalog) \<times> 'w"
  ra_get :: "string \<Rightarrow> resource_identity \<Rightarrow> string \<Rightarrow> string \<Rightarrow> 'w \<Rightarrow> (manifest_error + kube_object) \<times> 'w"
  ra_apply :: "manifest_apply_input \<Rightarrow> 'w \<Rightarrow> (manifest_error + kube_object) \<times> 'w"
  ra_delete :: "manifest_delete_input \<Rightarrow> 'w \<Rightarrow> (manifest_error + unit) \<times> 'w"
  ra_for_apply :: "resource_identity \<Rightarrow> bool \<Rightarrow> manifest_target list \<Rightarrow> manifest_error + manifest_requirement \<times> bool"
  ra_for_delete :: "resource_identity \<Rightarrow> manifest_target list \<Rightarrow> manifest_error + manifest_requirement \<times> bool"

definition manifest_access :: "name_rules \<Rightarrow> 'w kube_service option \<Rightarrow> manifest_rights \<Rightarrow> 'w resource_access" where
  "manifest_access nr svc g =
     \<lparr>ra_discover = (\<lambda>cluster w. case svc of None \<Rightarrow> (Inl ErrAgentUnsupported, w)
                                  | Some s \<Rightarrow> discover_manifest_catalog nr s cluster w),
      ra_get = manifest_get svc g, ra_apply = manifest_apply nr svc g, ra_delete = manifest_delete svc g,
      ra_for_apply = requirement_for_apply g, ra_for_delete = requirement_for_delete g\<rparr>"

subsection \<open>Requests, documents, results\<close>

datatype manifest_operation = OperationApply | OperationDelete | OperationOther string

datatype manifest_action = ActionCreate | ActionUpdate | ActionDelete | ActionAbsent | ActionUnknown

datatype manifest_status =
  StatusPlanned | StatusRefused | StatusInvalid | StatusSucceeded | StatusSkipped | StatusFailed | StatusNotAttempted

record manifest_document =
  md_index :: nat
  md_api_version :: string
  md_kind :: string
  md_namespace :: string
  md_name :: string
  md_action :: manifest_action
  md_status :: manifest_status
  md_requirement :: "manifest_requirement option"
  md_previewed :: bool
  md_uid :: string
  md_resource_version :: string
  md_before :: "kube_object option"
  md_after :: "kube_object option"
  md_err :: "manifest_error option"

record planned_document =
  pd_document :: manifest_document
  pd_resource :: resource_identity
  pd_verbs :: "string list"
  pd_object :: kube_object
  pd_current :: "kube_object option"

record manifest_result =
  mx_dry_run :: bool
  mx_allowed :: bool
  mx_valid :: bool
  mx_failed :: bool
  mx_catalog_partial :: bool
  mx_documents :: "manifest_document list"

definition executable_result :: "manifest_result \<Rightarrow> bool" where
  "executable_result r \<longleftrightarrow> mx_allowed r \<and> mx_valid r"

record manifest_input =
  mi_cluster :: string
  mi_manifest :: string
  mi_namespace :: string
  mi_operation :: manifest_operation
  mi_dry_run :: bool
  mi_force :: bool
  mi_confirm :: bool
  mi_key :: string

text \<open>The configuration, and what the packages below answer: the documents of a file, a group and version, a digest.\<close>

record manifest_service =
  ms_max_documents :: int
  ms_field_manager :: string
  ms_decode :: "string \<Rightarrow> int \<Rightarrow> manifest_error + kube_object list"
  ms_group_version :: "string \<Rightarrow> (string \<times> string) option"
  ms_digest :: "string \<Rightarrow> string"

subsection \<open>Which request a document names\<close>

text \<open>The loop accepts lower case letters and digits anywhere, a dash between the first and the last character.\<close>

definition valid_namespace_name :: "string \<Rightarrow> bool" where
  "valid_namespace_name v \<longleftrightarrow>
     0 < length v \<and> length v \<le> 63
     \<and> list_all (\<lambda>(i, c). CHR ''a'' \<le> c \<and> c \<le> CHR ''z'' \<or> CHR ''0'' \<le> c \<and> c \<le> CHR ''9''
                            \<or> c = CHR ''-'' \<and> i \<noteq> 0 \<and> i \<noteq> length v - 1) (enumerate 0 v)"

definition document_identity :: "resource_identity \<Rightarrow> string \<Rightarrow> string \<Rightarrow> string" where
  "document_identity r namespace name =
     join_with ''/'' [ri_group r, ri_version r, ri_resource r, namespace, name]"

definition has_verb :: "planned_document \<Rightarrow> string \<Rightarrow> bool" where
  "has_verb e v \<longleftrightarrow> v \<in> set (pd_verbs e)"

definition resolve_document ::
    "manifest_service \<Rightarrow> manifest_catalog \<Rightarrow> manifest_input \<Rightarrow> kube_object \<Rightarrow> manifest_error + catalog_entry \<times> string" where
  "resolve_document ms catalog input value =
     (if ko_api_version value = [] \<or> ko_kind value = [] \<or> ko_name value = [] then Inl ErrDocumentInvalid
      else if ko_generate_name value \<noteq> [] then Inl ErrDocumentInvalid
      else case ms_group_version ms (ko_api_version value) of
        None \<Rightarrow> Inl ErrDocumentInvalid
      | Some (g, version) \<Rightarrow>
          if version = [] then Inl ErrDocumentInvalid
          else case catalog_lookup catalog (g, version, ko_kind value) of
            None \<Rightarrow> Inl ErrUnknownKind
          | Some entry \<Rightarrow>
              (let namespace = ko_namespace value;
                   checked = (\<lambda>n. if n \<noteq> [] \<and> \<not> valid_namespace_name n then Inl ErrDocumentInvalid else Inr (entry, n)) in
               if \<not> ce_namespaced entry
               then if namespace \<noteq> [] then Inl ErrDocumentInvalid else checked namespace
               else if namespace = []
               then if mi_namespace input = [] then Inl ErrDocumentInvalid else checked (mi_namespace input)
               else if mi_namespace input \<noteq> [] \<and> namespace \<noteq> mi_namespace input then Inl ErrDocumentInvalid
               else checked namespace))"

subsection \<open>Planning\<close>

definition with_document :: "(manifest_document \<Rightarrow> manifest_document) \<Rightarrow> planned_document \<Rightarrow> planned_document" where
  "with_document f e = e\<lparr>pd_document := f (pd_document e)\<rparr>"

definition set_status :: "manifest_status \<Rightarrow> planned_document \<Rightarrow> planned_document" where
  "set_status st = with_document (\<lambda>d. d\<lparr>md_status := st\<rparr>)"

definition set_failure :: "manifest_status \<Rightarrow> manifest_error \<Rightarrow> planned_document \<Rightarrow> planned_document" where
  "set_failure st e = with_document (\<lambda>d. d\<lparr>md_status := st, md_err := Some e\<rparr>)"

definition set_action :: "manifest_action \<Rightarrow> planned_document \<Rightarrow> planned_document" where
  "set_action a = with_document (\<lambda>d. d\<lparr>md_action := a\<rparr>)"

definition set_requirement :: "manifest_requirement option \<Rightarrow> planned_document \<Rightarrow> planned_document" where
  "set_requirement q = with_document (\<lambda>d. d\<lparr>md_requirement := q\<rparr>)"

definition set_live :: "kube_object \<Rightarrow> planned_document \<Rightarrow> planned_document" where
  "set_live live e = (with_document (\<lambda>d. d\<lparr>md_before := Some live, md_uid := ko_uid live,
                                        md_resource_version := ko_resource_version live\<rparr>) e)\<lparr>pd_current := Some live\<rparr>"

definition entry_target :: "planned_document \<Rightarrow> manifest_target" where
  "entry_target e = document_target (md_namespace (pd_document e)) (md_name (pd_document e))"

text \<open>The second requirement is read without its error: an error leaves none, not allowed.\<close>

definition requirement_or_none :: "manifest_error + manifest_requirement \<times> bool \<Rightarrow> manifest_requirement option \<times> bool" where
  "requirement_or_none x = (case x of Inl _ \<Rightarrow> (None, False) | Inr (q, b) \<Rightarrow> (Some q, b))"

definition require_verb :: "string \<Rightarrow> planned_document \<Rightarrow> planned_document" where
  "require_verb v e = (if has_verb e v then set_status StatusPlanned e else set_failure StatusInvalid ErrVerbUnsupported e)"

definition plan_apply ::
    "'w resource_access \<Rightarrow> manifest_input \<Rightarrow> planned_document \<Rightarrow> 'w \<Rightarrow> planned_document \<times> 'w" where
  "plan_apply acc input e w =
     (case ra_for_apply acc (pd_resource e) True [entry_target e] of
        Inl err \<Rightarrow> (set_failure StatusInvalid err e, w)
      | Inr (create_requirement, create_allowed) \<Rightarrow>
          (let (update_requirement, update_allowed) =
                 requirement_or_none (ra_for_apply acc (pd_resource e) False [entry_target e]) in
           if Some create_requirement = update_requirement \<and> \<not> create_allowed
           then (set_failure StatusRefused ErrManifestForbidden (set_requirement (Some create_requirement) e), w)
           else case ra_get acc (mi_cluster input) (pd_resource e) (md_namespace (pd_document e)) (md_name (pd_document e)) w of
             (Inr live, w') \<Rightarrow>
               (let e1 = set_requirement update_requirement (set_action ActionUpdate (set_live live e)) in
                (if \<not> update_allowed then set_failure StatusRefused ErrManifestForbidden e1 else require_verb ''patch'' e1, w'))
           | (Inl ErrResourceNotFound, w') \<Rightarrow>
               (let e1 = set_requirement (Some create_requirement) (set_action ActionCreate e) in
                (if \<not> create_allowed then set_failure StatusRefused ErrManifestForbidden e1 else require_verb ''patch'' e1, w'))
           | (Inl err, w') \<Rightarrow> (set_failure StatusFailed err e, w')))"

definition plan_delete ::
    "'w resource_access \<Rightarrow> manifest_input \<Rightarrow> planned_document \<Rightarrow> 'w \<Rightarrow> planned_document \<times> 'w" where
  "plan_delete acc input e w =
     (case ra_for_delete acc (pd_resource e) [entry_target e] of
        Inl err \<Rightarrow> (set_failure StatusInvalid err e, w)
      | Inr (requirement, allowed) \<Rightarrow>
          (let e1 = set_requirement (Some requirement) e in
           if \<not> allowed then (set_failure StatusRefused ErrManifestForbidden e1, w)
           else case ra_get acc (mi_cluster input) (pd_resource e) (md_namespace (pd_document e)) (md_name (pd_document e)) w of
             (Inl ErrResourceNotFound, w') \<Rightarrow> (set_status StatusSkipped (set_action ActionAbsent e1), w')
           | (Inl err, w') \<Rightarrow> (set_failure StatusFailed err e1, w')
           | (Inr live, w') \<Rightarrow> (require_verb ''delete'' (set_action ActionDelete (set_live live e1)), w')))"

definition new_document :: "nat \<Rightarrow> kube_object \<Rightarrow> planned_document" where
  "new_document i value =
     \<lparr>pd_document = \<lparr>md_index = i, md_api_version = ko_api_version value, md_kind = ko_kind value,
        md_namespace = ko_namespace value, md_name = ko_name value, md_action = ActionUnknown, md_status = StatusInvalid,
        md_requirement = None, md_previewed = False, md_uid = [], md_resource_version = [], md_before = None,
        md_after = None, md_err = None\<rparr>,
      pd_resource = \<lparr>ri_group = [], ri_version = [], ri_resource = []\<rparr>, pd_verbs = [], pd_object = value, pd_current = None\<rparr>"

definition resolved_entry :: "nat \<Rightarrow> kube_object \<Rightarrow> catalog_entry \<Rightarrow> string \<Rightarrow> planned_document" where
  "resolved_entry i value ce namespace =
     (with_document (\<lambda>d. d\<lparr>md_namespace := namespace\<rparr>) (new_document i value))
       \<lparr>pd_resource := ce_resource ce, pd_verbs := ce_verbs ce,
        pd_object := (if namespace \<noteq> [] \<and> ko_namespace value \<noteq> namespace then value\<lparr>ko_namespace := namespace\<rparr> else value)\<rparr>"

definition plan_document ::
    "manifest_service \<Rightarrow> 'w resource_access \<Rightarrow> manifest_input \<Rightarrow> manifest_catalog \<Rightarrow> nat \<Rightarrow> kube_object \<Rightarrow> string set \<Rightarrow> 'w
       \<Rightarrow> planned_document \<times> string set \<times> 'w" where
  "plan_document ms acc input catalog i value seen w =
     (case resolve_document ms catalog input value of
        Inl err \<Rightarrow> (with_document (\<lambda>d. d\<lparr>md_err := Some err\<rparr>) (new_document i value), seen, w)
      | Inr (ce, namespace) \<Rightarrow>
          (let e = resolved_entry i value ce namespace;
               identity = document_identity (ce_resource ce) namespace (ko_name value) in
           if identity \<in> seen
           then (with_document (\<lambda>d. d\<lparr>md_err := Some ErrDuplicateDocument\<rparr>) e, seen, w)
           else case (if mi_operation input = OperationDelete then plan_delete acc input e w else plan_apply acc input e w) of
             (e', w') \<Rightarrow> (e', insert identity seen, w')))"

fun plan ::
    "manifest_service \<Rightarrow> 'w resource_access \<Rightarrow> manifest_input \<Rightarrow> manifest_catalog \<Rightarrow> nat \<Rightarrow> kube_object list \<Rightarrow> string set \<Rightarrow> 'w
       \<Rightarrow> planned_document list \<times> 'w" where
  "plan ms acc input catalog i [] seen w = ([], w)"
| "plan ms acc input catalog i (v # vs) seen w =
     (case plan_document ms acc input catalog i v seen w of
        (e, seen', w1) \<Rightarrow> (case plan ms acc input catalog (Suc i) vs seen' w1 of (es, w2) \<Rightarrow> (e # es, w2)))"

subsection \<open>Executing\<close>

definition unpreviewable_namespaces :: "manifest_input \<Rightarrow> planned_document list \<Rightarrow> string set" where
  "unpreviewable_namespaces input entries =
     (if \<not> mi_dry_run input \<or> mi_operation input \<noteq> OperationApply then {}
      else set (map (\<lambda>e. md_name (pd_document e))
        (filter (\<lambda>e. ri_group (pd_resource e) = [] \<and> ri_resource (pd_resource e) = ''namespaces''
                       \<and> md_action (pd_document e) = ActionCreate \<and> md_status (pd_document e) = StatusPlanned) entries)))"

definition operation_name :: "manifest_operation \<Rightarrow> string" where
  "operation_name x = (case x of OperationApply \<Rightarrow> ''apply'' | OperationDelete \<Rightarrow> ''delete'' | OperationOther s \<Rightarrow> s)"

definition document_idempotency_key :: "manifest_service \<Rightarrow> manifest_input \<Rightarrow> planned_document \<Rightarrow> string" where
  "document_idempotency_key ms input e =
     ms_digest ms (join_with nul
       [mi_key input, operation_name (mi_operation input), (if mi_dry_run input then ''dry-run'' else ''execute''),
        document_identity (pd_resource e) (md_namespace (pd_document e)) (md_name (pd_document e))])"

definition delete_input_of :: "manifest_service \<Rightarrow> manifest_input \<Rightarrow> planned_document \<Rightarrow> kube_object \<Rightarrow> manifest_delete_input" where
  "delete_input_of ms input e current =
     \<lparr>di_cluster = mi_cluster input, di_resource = pd_resource e, di_namespace = md_namespace (pd_document e),
      di_name = md_name (pd_document e), di_current = current, di_dry_run = mi_dry_run input,
      di_confirm = mi_confirm input, di_key = document_idempotency_key ms input e\<rparr>"

definition apply_input_of :: "manifest_service \<Rightarrow> manifest_input \<Rightarrow> planned_document \<Rightarrow> manifest_apply_input" where
  "apply_input_of ms input e =
     \<lparr>ai_cluster = mi_cluster input, ai_resource = pd_resource e, ai_namespace = md_namespace (pd_document e),
      ai_name = md_name (pd_document e), ai_object = pd_object e, ai_current = pd_current e,
      ai_dry_run = mi_dry_run input, ai_force = mi_force input, ai_confirm = mi_confirm input,
      ai_field_manager = ms_field_manager ms, ai_key = document_idempotency_key ms input e\<rparr>"

text \<open>A delete is executed on an entry with a live object: the model's \<open>Some\<close> is what the plan read.\<close>

definition execute_document ::
    "manifest_service \<Rightarrow> 'w resource_access \<Rightarrow> manifest_input \<Rightarrow> planned_document \<Rightarrow> 'w
       \<Rightarrow> (manifest_error + planned_document) \<times> 'w" where
  "execute_document ms acc input e w =
     (if mi_operation input = OperationDelete
      then (case pd_current e of
              None \<Rightarrow> (Inl ErrInvalidInput, w)
            | Some live \<Rightarrow>
                (case ra_delete acc (delete_input_of ms input e live) w of
                   (Inl err, w') \<Rightarrow> (Inl err, w') | (Inr _, w') \<Rightarrow> (Inr e, w')))
      else (case ra_apply acc (apply_input_of ms input e) w of
              (Inl err, w') \<Rightarrow> (Inl err, w')
            | (Inr applied, w') \<Rightarrow>
                (Inr (with_document (\<lambda>d. d\<lparr>md_after := Some applied, md_uid := ko_uid applied,
                                          md_resource_version := ko_resource_version applied\<rparr>) e), w')))"

definition executed :: "manifest_input \<Rightarrow> planned_document \<Rightarrow> planned_document" where
  "executed input = with_document (\<lambda>d. d\<lparr>md_previewed := True,
     md_status := (if mi_dry_run input then StatusPlanned else StatusSucceeded)\<rparr>)"

definition execute_one ::
    "manifest_service \<Rightarrow> 'w resource_access \<Rightarrow> manifest_input \<Rightarrow> string set \<Rightarrow> bool \<Rightarrow> planned_document \<Rightarrow> 'w
       \<Rightarrow> planned_document \<times> bool \<times> 'w" where
  "execute_one ms acc input pending stopped e w =
     (if md_status (pd_document e) \<noteq> StatusPlanned then (e, stopped, w)
      else if stopped then (set_status StatusNotAttempted e, stopped, w)
      else if md_namespace (pd_document e) \<in> pending
      then (with_document (\<lambda>d. d\<lparr>md_status := StatusPlanned, md_previewed := False\<rparr>) e, stopped, w)
      else case execute_document ms acc input e w of
        (Inl err, w1) \<Rightarrow> (set_failure StatusFailed err e, True, w1)
      | (Inr e1, w1) \<Rightarrow> (executed input e1, stopped, w1))"

fun execute_each ::
    "manifest_service \<Rightarrow> 'w resource_access \<Rightarrow> manifest_input \<Rightarrow> string set \<Rightarrow> bool \<Rightarrow> planned_document list \<Rightarrow> 'w
       \<Rightarrow> planned_document list \<times> 'w" where
  "execute_each ms acc input pending stopped [] w = ([], w)"
| "execute_each ms acc input pending stopped (e # es) w =
     (case execute_one ms acc input pending stopped e w of
        (e', stopped', w1) \<Rightarrow>
          (case execute_each ms acc input pending stopped' es w1 of (es', w2) \<Rightarrow> (e' # es', w2)))"

text \<open>The entries are shared between the order and the plan; reversing back reads the plan in submitted order.\<close>

definition in_order :: "manifest_input \<Rightarrow> 'a list \<Rightarrow> 'a list" where
  "in_order input xs = (if mi_operation input = OperationDelete then rev xs else xs)"

definition execute ::
    "manifest_service \<Rightarrow> 'w resource_access \<Rightarrow> manifest_input \<Rightarrow> planned_document list \<Rightarrow> 'w
       \<Rightarrow> planned_document list \<times> 'w" where
  "execute ms acc input entries w =
     (case execute_each ms acc input (unpreviewable_namespaces input entries) False (in_order input entries) w of
        (es, w') \<Rightarrow> (in_order input es, w'))"

definition has_status :: "manifest_status \<Rightarrow> planned_document \<Rightarrow> bool" where
  "has_status st e \<longleftrightarrow> md_status (pd_document e) = st"

definition planned_result :: "manifest_input \<Rightarrow> manifest_catalog \<Rightarrow> planned_document list \<Rightarrow> manifest_result" where
  "planned_result input catalog entries =
     \<lparr>mx_dry_run = mi_dry_run input, mx_allowed = (\<not> list_ex (has_status StatusRefused) entries),
      mx_valid = (\<not> list_ex (has_status StatusInvalid) entries), mx_failed = False,
      mx_catalog_partial = mc_partial catalog, mx_documents = map pd_document entries\<rparr>"

definition run_manifest ::
    "manifest_service \<Rightarrow> 'w resource_access option \<Rightarrow> manifest_input \<Rightarrow> 'w \<Rightarrow> (manifest_error + manifest_result) \<times> 'w" where
  "run_manifest ms access input w =
     (case access of
        None \<Rightarrow> (Inl ErrAgentUnsupported, w)
      | Some acc \<Rightarrow>
          if mi_operation input \<noteq> OperationApply \<and> mi_operation input \<noteq> OperationDelete then (Inl ErrInvalidInput, w)
          else if mi_namespace input \<noteq> [] \<and> \<not> valid_namespace_name (mi_namespace input) then (Inl ErrInvalidInput, w)
          else case ms_decode ms (mi_manifest input) (ms_max_documents ms) of
            Inl err \<Rightarrow> (Inl err, w)
          | Inr objects \<Rightarrow>
              (case ra_discover acc (mi_cluster input) w of
                 (Inl err, w1) \<Rightarrow> (Inl err, w1)
               | (Inr catalog, w1) \<Rightarrow>
                   (case plan ms acc input catalog 0 objects {} w1 of
                      (entries, w2) \<Rightarrow>
                        (let result = planned_result input catalog entries in
                         if \<not> executable_result result then (Inr result, w2)
                         else case execute ms acc input entries w2 of
                           (entries', w3) \<Rightarrow>
                             (Inr (result\<lparr>mx_documents := map pd_document entries',
                                          mx_failed := list_ex (has_status StatusFailed) entries'\<rparr>), w3)))))"

end
