(* ===== verification/ManifestSends.thy ===== *)
theory ManifestSends
  imports ManifestRun
begin

section \<open>What a manifest sends\<close>

text \<open>
  A resource service that keeps the writes it was asked for, the contract of the layer below a manifest
  over that list, and what planning and executing add to it.
\<close>

subsection \<open>Writes on record\<close>

datatype manifest_write = PatchSent patch_request | DeleteSent delete_request

definition logged :: "'w kube_service \<Rightarrow> ('w \<times> manifest_write list) kube_service" where
  "logged s =
     \<lparr>ks_discover = (\<lambda>c (w, l). case ks_discover s c w of (x, w') \<Rightarrow> (x, (w', l))),
      ks_get = (\<lambda>q (w, l). case ks_get s q w of (x, w') \<Rightarrow> (x, (w', l))),
      ks_patch = (\<lambda>q (w, l). case ks_patch s q w of (x, w') \<Rightarrow> (x, (w', l @ [PatchSent q]))),
      ks_delete = (\<lambda>q (w, l). case ks_delete s q w of (x, w') \<Rightarrow> (x, (w', l @ [DeleteSent q])))\<rparr>"

definition covered :: "manifest_rights \<Rightarrow> manifest_write \<Rightarrow> bool" where
  "covered g m \<longleftrightarrow>
     (case m of
        PatchSent p \<Rightarrow> \<exists>creating q. requirement_for_apply g (pq_resource p) creating
                          [document_target (pq_namespace p) (pq_name p)] = Inr (q, True)
      | DeleteSent d \<Rightarrow> (\<exists>q. requirement_for_delete g (dq_resource d)
                            [document_target (dq_namespace d) (dq_name d)] = Inr (q, True))
                         \<and> dq_uid d \<noteq> [] \<and> dq_resource_version d \<noteq> [])"

text \<open>The write of an entry, under the request it belongs to.\<close>

definition document_write :: "manifest_service \<Rightarrow> manifest_input \<Rightarrow> planned_document \<Rightarrow> manifest_write" where
  "document_write ms input e =
     (if mi_operation input = OperationDelete
      then DeleteSent (delete_request_of (delete_input_of ms input e (the (pd_current e))))
      else PatchSent (apply_request (apply_input_of ms input e)))"

subsection \<open>The contract of the layer below\<close>

locale manifest_layer =
  fixes acc :: "'w resource_access" and sent :: "'w \<Rightarrow> manifest_write list" and allowed :: "manifest_write \<Rightarrow> bool"
  assumes discover_reads: "ra_discover acc c w = (catalog, w') \<Longrightarrow> sent w' = sent w"
    and get_reads: "ra_get acc c r n m w = (live, w') \<Longrightarrow> sent w' = sent w"
    and apply_sends: "ra_apply acc i w = (x, w') \<Longrightarrow>
      sent w' = sent w \<and> isl x \<or> sent w' = sent w @ [PatchSent (apply_request i)] \<and> allowed (PatchSent (apply_request i))"
    and delete_sends: "ra_delete acc j w = (y, w') \<Longrightarrow>
      sent w' = sent w \<and> isl y \<or> sent w' = sent w @ [DeleteSent (delete_request_of j)] \<and> allowed (DeleteSent (delete_request_of j))"
begin

lemma plan_apply_reads: "plan_apply acc input e w = (e', w') \<Longrightarrow> sent w' = sent w"
  using get_reads [of "mi_cluster input" "pd_resource e" "md_namespace (pd_document e)" "md_name (pd_document e)" w]
  by (auto simp: plan_apply_def Let_def split: sum.splits prod.splits if_splits manifest_error.splits)

lemma plan_delete_reads: "plan_delete acc input e w = (e', w') \<Longrightarrow> sent w' = sent w"
  using get_reads [of "mi_cluster input" "pd_resource e" "md_namespace (pd_document e)" "md_name (pd_document e)" w]
  by (auto simp: plan_delete_def Let_def split: sum.splits prod.splits if_splits manifest_error.splits)

lemma plan_document_reads: "plan_document ms acc input catalog i v seen w = (e, seen', w') \<Longrightarrow> sent w' = sent w"
  using plan_apply_reads plan_delete_reads
  by (auto simp: plan_document_def Let_def split: sum.splits prod.splits if_splits)

lemma plan_reads: "plan ms acc input catalog i vs seen w = (es, w') \<Longrightarrow> sent w' = sent w"
proof (induction vs arbitrary: i seen w es)
  case Nil
  then show ?case by simp
next
  case (Cons v vs)
  then show ?case
    using plan_document_reads by (fastforce split: prod.splits)
qed

lemma execute_document_sends:
  assumes "execute_document ms acc input e w = (x, w')"
  shows "sent w' = sent w \<and> isl x \<or> sent w' = sent w @ [document_write ms input e] \<and> allowed (document_write ms input e)"
proof (cases "mi_operation input = OperationDelete")
  case del: True
  show ?thesis
  proof (cases "pd_current e")
    case None
    then show ?thesis using assms del by (auto simp: execute_document_def)
  next
    case (Some live)
    obtain y w1 where d: "ra_delete acc (delete_input_of ms input e live) w = (y, w1)" by fastforce
    then have "w' = w1" "isl y \<Longrightarrow> isl x"
      using assms del Some by (auto simp: execute_document_def split: sum.splits)
    then show ?thesis using delete_sends [OF d] del Some by (auto simp: document_write_def)
  qed
next
  case app: False
  obtain y w1 where d: "ra_apply acc (apply_input_of ms input e) w = (y, w1)" by fastforce
  then have "w' = w1" "isl y \<Longrightarrow> isl x"
    using assms app by (auto simp: execute_document_def split: sum.splits)
  then show ?thesis using apply_sends [OF d] app by (auto simp: document_write_def)
qed

text \<open>
  An execution in order: \<open>done\<close> went through, then at most one entry failed, and what was still planned
  after it was not attempted. An entry that is not planned, or lies in a namespace still to come, is passed over.
\<close>

lemma execute_each_stopped:
  "execute_each ms acc input pending True es w =
     (map (\<lambda>e. if has_status StatusPlanned e then set_status StatusNotAttempted e else e) es, w)"
  by (induction es) (simp_all add: has_status_def execute_one_def)

end

definition sendable :: "string set \<Rightarrow> planned_document \<Rightarrow> bool" where
  "sendable pending e \<longleftrightarrow> has_status StatusPlanned e \<and> md_namespace (pd_document e) \<notin> pending"

text \<open>What an entry that did not fail looks like afterwards.\<close>

definition went_through :: "manifest_input \<Rightarrow> string set \<Rightarrow> planned_document \<Rightarrow> planned_document \<Rightarrow> bool" where
  "went_through input pending e e' \<longleftrightarrow>
     (if \<not> has_status StatusPlanned e then e' = e
      else if \<not> sendable pending e then has_status StatusPlanned e' \<and> \<not> md_previewed (pd_document e')
      else has_status (if mi_dry_run input then StatusPlanned else StatusSucceeded) e' \<and> md_previewed (pd_document e'))"

definition not_attempted :: "planned_document \<Rightarrow> planned_document" where
  "not_attempted e = (if has_status StatusPlanned e then set_status StatusNotAttempted e else e)"

text \<open>The writes of an execution, entry by entry: all of those that went through, perhaps that of the one that failed.\<close>

definition ran :: "(planned_document \<Rightarrow> manifest_write) \<Rightarrow> manifest_input \<Rightarrow> string set
    \<Rightarrow> planned_document list \<Rightarrow> planned_document list \<Rightarrow> manifest_write list \<Rightarrow> bool" where
  "ran write_of input pending es es' writes \<longleftrightarrow>
     (\<exists>first first'. list_all2 (went_through input pending) first first'
        \<and> (es = first \<and> es' = first' \<and> writes = map write_of (filter (sendable pending) first)
           \<or> (\<exists>e rest err. es = first @ e # rest \<and> es' = first' @ set_failure StatusFailed err e # map not_attempted rest
                \<and> sendable pending e
                \<and> writes \<in> {map write_of (filter (sendable pending) first), map write_of (filter (sendable pending) first @ [e])})))"

lemma ran_Nil: "ran f input pending [] [] []"
  unfolding ran_def by (rule exI [of _ "[]"], rule exI [of _ "[]"]) simp

lemma ran_Cons:
  assumes "went_through input pending e e'" and "ran f input pending es es' writes"
  shows "ran f input pending (e # es) (e' # es') ((if sendable pending e then [f e] else []) @ writes)"
proof -
  obtain first first' where l: "list_all2 (went_through input pending) first first'" and
    c: "es = first \<and> es' = first' \<and> writes = map f (filter (sendable pending) first)
        \<or> (\<exists>x rest err. es = first @ x # rest \<and> es' = first' @ set_failure StatusFailed err x # map not_attempted rest
             \<and> sendable pending x
             \<and> writes \<in> {map f (filter (sendable pending) first), map f (filter (sendable pending) first @ [x])})"
    using assms(2) unfolding ran_def by blast
  have "list_all2 (went_through input pending) (e # first) (e' # first')" using assms(1) l by simp
  moreover from c have "e # es = e # first \<and> e' # es' = e' # first'
        \<and> (if sendable pending e then [f e] else []) @ writes = map f (filter (sendable pending) (e # first))
        \<or> (\<exists>x rest err. e # es = (e # first) @ x # rest
             \<and> e' # es' = (e' # first') @ set_failure StatusFailed err x # map not_attempted rest
             \<and> sendable pending x
             \<and> (if sendable pending e then [f e] else []) @ writes
                 \<in> {map f (filter (sendable pending) (e # first)), map f (filter (sendable pending) (e # first) @ [x])})"
    by (cases "sendable pending e") auto
  ultimately show ?thesis unfolding ran_def by blast
qed

context manifest_layer begin

lemma execute_each_ran:
  assumes "execute_each ms acc input pending False es w = (es', w')"
  shows "\<exists>writes. sent w' = sent w @ writes \<and> ran (document_write ms input) input pending es es' writes
           \<and> list_all allowed writes"
  using assms
proof (induction es arbitrary: w es')
  case Nil
  then show ?case using ran_Nil by simp
next
  case (Cons e es)
  have through: ?case
    if g: "went_through input pending e e1" and r: "execute_each ms acc input pending False es w1 = (es1, w')"
      and eq: "es' = e1 # es1"
      and s: "sent w1 = sent w @ (if sendable pending e then [document_write ms input e] else [])"
      and a: "sendable pending e \<Longrightarrow> allowed (document_write ms input e)" for e1 es1 w1
  proof -
    obtain writes where w: "sent w' = sent w1 @ writes" "ran (document_write ms input) input pending es es1 writes"
        "list_all allowed writes" using Cons.IH [OF r] by blast
    from ran_Cons [OF g w(2)] show ?thesis using w s a unfolding eq
      by (intro exI [of _ "(if sendable pending e then [document_write ms input e] else []) @ writes"]) auto
  qed
  show ?case
  proof (cases "has_status StatusPlanned e")
    case False
    then obtain es1 where "execute_each ms acc input pending False es w = (es1, w')" "es' = e # es1"
      using Cons.prems by (auto simp: execute_one_def has_status_def split: prod.splits)
    then show ?thesis using through [of e w es1] False by (simp add: went_through_def sendable_def)
  next
    case planned: True
    show ?thesis
    proof (cases "sendable pending e")
      case False
      let ?e1 = "with_document (\<lambda>d. d\<lparr>md_status := StatusPlanned, md_previewed := False\<rparr>) e"
      obtain es1 where "execute_each ms acc input pending False es w = (es1, w')" "es' = ?e1 # es1"
        using Cons.prems False planned by (auto simp: execute_one_def has_status_def sendable_def split: prod.splits)
      then show ?thesis
        using through [of ?e1 w es1] False planned by (simp add: went_through_def has_status_def with_document_def)
    next
      case send: True
      obtain x w1 where x: "execute_document ms acc input e w = (x, w1)" by fastforce
      note xs = execute_document_sends [OF x]
      show ?thesis
      proof (cases x)
        case (Inr e1)
        then obtain es1 where "execute_each ms acc input pending False es w1 = (es1, w')" "es' = executed input e1 # es1"
          using Cons.prems send x by (auto simp: execute_one_def has_status_def sendable_def split: prod.splits)
        moreover have "went_through input pending e (executed input e1)"
          using planned send by (simp add: went_through_def executed_def has_status_def with_document_def)
        ultimately show ?thesis using through [of "executed input e1" w1 es1] xs Inr send by simp
      next
        case (Inl err)
        then have r: "es' = set_failure StatusFailed err e # map not_attempted es" "w' = w1"
          using Cons.prems send x by (auto simp: execute_one_def has_status_def sendable_def execute_each_stopped not_attempted_def
              split: prod.splits)
        obtain writes where w: "sent w' = sent w @ writes" "writes = [] \<or> writes = [document_write ms input e]"
            "list_all allowed writes" using xs r(2) by (metis append_Nil2 list.pred_inject)
        have "ran (document_write ms input) input pending (e # es) es' writes"
          unfolding ran_def r(1) using send w(2)
          by (intro exI [of _ "[]"]) (auto intro!: exI [of _ e] exI [of _ es])
        then show ?thesis using w by blast
      qed
    qed
  qed
qed

lemma execute_ran:
  assumes "execute ms acc input entries w = (entries', w')"
  shows "\<exists>writes. sent w' = sent w @ writes \<and> list_all allowed writes
           \<and> ran (document_write ms input) input (unpreviewable_namespaces input entries)
                (in_order input entries) (in_order input entries') writes"
proof -
  obtain es where e: "execute_each ms acc input (unpreviewable_namespaces input entries) False (in_order input entries) w = (es, w')"
      "entries' = in_order input es"
    using assms by (auto simp: execute_def split: prod.splits)
  have "in_order input entries' = es" by (simp add: e(2) in_order_def)
  then show ?thesis using execute_each_ran [OF e(1)] by auto
qed

text \<open>A whole request: nothing is sent before the plan is executable, and then what the execution sends.\<close>

lemma run_manifest_ran:
  assumes "run_manifest ms (Some acc) input w = (x, w')"
  shows "sent w' = sent w \<and> (\<forall>r. x = Inr r \<longrightarrow> \<not> executable_result r)
    \<or> (\<exists>r catalog w1 objects entries w2 entries' writes. x = Inr r \<and> executable_result r
         \<and> ra_discover acc (mi_cluster input) w = (Inr catalog, w1)
         \<and> ms_decode ms (mi_manifest input) (ms_max_documents ms) = Inr objects
         \<and> plan ms acc input catalog 0 objects {} w1 = (entries, w2)
         \<and> executable_result (planned_result input catalog entries)
         \<and> mx_documents r = map pd_document entries' \<and> sent w' = sent w @ writes \<and> list_all allowed writes
         \<and> ran (document_write ms input) input (unpreviewable_namespaces input entries)
              (in_order input entries) (in_order input entries') writes)"
proof (cases "(mi_operation input = OperationApply \<or> mi_operation input = OperationDelete)
    \<and> (mi_namespace input = [] \<or> valid_namespace_name (mi_namespace input))")
  case False
  then show ?thesis using assms by (auto simp: run_manifest_def split: if_splits)
next
  case ok: True
  show ?thesis
  proof (cases "ms_decode ms (mi_manifest input) (ms_max_documents ms)")
    case (Inl e)
    then show ?thesis using assms ok by (auto simp: run_manifest_def split: if_splits)
  next
    case objects: (Inr objects)
    obtain y w1 where y: "ra_discover acc (mi_cluster input) w = (y, w1)" by fastforce
    show ?thesis
    proof (cases y)
      case (Inl e)
      then show ?thesis using assms ok objects y discover_reads [OF y] by (auto simp: run_manifest_def split: if_splits)
    next
      case (Inr catalog)
      obtain entries w2 where p: "plan ms acc input catalog 0 objects {} w1 = (entries, w2)" by fastforce
      have reads: "sent w2 = sent w" using plan_reads [OF p] discover_reads [OF y] by simp
      let ?r = "planned_result input catalog entries"
      show ?thesis
      proof (cases "executable_result ?r")
        case False
        then have "w' = w2" "x = Inr ?r" using assms ok objects y Inr p by (auto simp: run_manifest_def split: if_splits)
        then show ?thesis using reads False by simp
      next
        case True
        obtain entries' w3 where e: "execute ms acc input entries w2 = (entries', w3)" by fastforce
        have r: "x = Inr (?r\<lparr>mx_documents := map pd_document entries', mx_failed := list_ex (has_status StatusFailed) entries'\<rparr>)"
            "w' = w3"
          using assms ok objects y Inr p True e by (auto simp: run_manifest_def split: if_splits)
        have "executable_result (?r\<lparr>mx_documents := map pd_document entries', mx_failed := list_ex (has_status StatusFailed) entries'\<rparr>)"
          using True by (simp add: executable_result_def)
        then show ?thesis using execute_ran [OF e] r y Inr p objects True reads
          by (intro disjI2) (fastforce intro!: exI [of _ catalog])
      qed
    qed
  qed
qed

end

subsection \<open>The production layer\<close>

lemma logged_simps [simp]:
  "ks_discover (logged s) c wl = (fst (ks_discover s c (fst wl)), (snd (ks_discover s c (fst wl)), snd wl))"
  "ks_get (logged s) q wl = (fst (ks_get s q (fst wl)), (snd (ks_get s q (fst wl)), snd wl))"
  "ks_patch (logged s) a wl = (fst (ks_patch s a (fst wl)), (snd (ks_patch s a (fst wl)), snd wl @ [PatchSent a]))"
  "ks_delete (logged s) d wl = (fst (ks_delete s d (fst wl)), (snd (ks_delete s d (fst wl)), snd wl @ [DeleteSent d]))"
  by (simp_all add: logged_def split_beta)

interpretation ml: manifest_layer "manifest_access nr (Some (logged s)) g" snd "covered g" for nr s g
proof
  show "snd w' = snd w" if "ra_discover (manifest_access nr (Some (logged s)) g) c w = (x, w')" for c w x w'
    using that by (auto simp: manifest_access_def discover_manifest_catalog_def split: sum.splits prod.splits)
  show "snd w' = snd w" if "ra_get (manifest_access nr (Some (logged s)) g) c r n m w = (x, w')" for c r n m w x w'
    using that by (auto simp: manifest_access_def manifest_get_def Let_def split: if_splits)
next
  fix i w x w' assume a: "ra_apply (manifest_access nr (Some (logged s)) g) i w = (x, w')"
  show "snd w' = snd w \<and> isl x \<or> snd w' = snd w @ [PatchSent (apply_request i)] \<and> covered g (PatchSent (apply_request i))"
  proof (cases "requirement_for_apply g (ai_resource i) (ai_current i = None) [document_target (ai_namespace i) (ai_name i)]")
    case (Inl e)
    then show ?thesis using a by (auto simp: manifest_access_def manifest_apply_def)
  next
    case (Inr qb)
    obtain q b where qb: "qb = (q, b)" by fastforce
    show ?thesis
    proof (cases b)
      case False
      then show ?thesis using a Inr qb by (auto simp: manifest_access_def manifest_apply_def)
    next
      case True
      then have "covered g (PatchSent (apply_request i))"
        using Inr qb by (auto simp: covered_def apply_request_def)
      then show ?thesis using a Inr qb True
        by (cases "guard_apply nr g (manifest_family_for (ai_resource i)) (ai_current i) (ai_object i)")
          (auto simp: manifest_access_def manifest_apply_def)
    qed
  qed
next
  fix j w x w' assume a: "ra_delete (manifest_access nr (Some (logged s)) g) j w = (x, w')"
  show "snd w' = snd w \<and> isl x
      \<or> snd w' = snd w @ [DeleteSent (delete_request_of j)] \<and> covered g (DeleteSent (delete_request_of j))"
  proof (cases "requirement_for_delete g (di_resource j) [document_target (di_namespace j) (di_name j)]")
    case (Inl e)
    then show ?thesis using a by (auto simp: manifest_access_def manifest_delete_def)
  next
    case (Inr qb)
    obtain q b where qb: "qb = (q, b)" by fastforce
    show ?thesis
    proof (cases b)
      case False
      then show ?thesis using a Inr qb by (auto simp: manifest_access_def manifest_delete_def)
    next
      case True
      have Inr_req: "requirement_for_delete g (di_resource j) [document_target (di_namespace j) (di_name j)] = Inr (q, b)"
        using Inr qb by simp
      show ?thesis
      proof (cases "guard_delete (manifest_family_for (di_resource j)) (di_current j)")
        case (Inl e)
        then have "x = Inl e \<and> w' = w" using a Inr_req True by (simp add: manifest_access_def manifest_delete_def)
        then show ?thesis by simp
      next
        case (Inr u)
        then show ?thesis using a Inr_req True
          by (auto simp: manifest_access_def manifest_delete_def covered_def delete_request_of_def split: if_splits)
      qed
    qed
  qed
qed

end
