(* ===== verification/ManifestSafety.thy ===== *)
theory ManifestSafety
  imports ManifestSends
begin

section \<open>A manifest is written whole, once, and only as far as it went\<close>

subsection \<open>Every object once\<close>

definition entry_identity :: "planned_document \<Rightarrow> string" where
  "entry_identity e = document_identity (pd_resource e) (md_namespace (pd_document e)) (md_name (pd_document e))"

fun write_identity :: "manifest_write \<Rightarrow> string" where
  "write_identity (PatchSent p) = document_identity (pq_resource p) (pq_namespace p) (pq_name p)"
| "write_identity (DeleteSent d) = document_identity (dq_resource d) (dq_namespace d) (dq_name d)"

fun write_cluster :: "manifest_write \<Rightarrow> string" where
  "write_cluster (PatchSent p) = pq_cluster p"
| "write_cluster (DeleteSent d) = dq_cluster d"

fun write_dry_run :: "manifest_write \<Rightarrow> bool" where
  "write_dry_run (PatchSent p) = pq_dry_run p"
| "write_dry_run (DeleteSent d) = dq_dry_run d"

lemmas entry_updates = with_document_def set_status_def set_failure_def set_action_def set_requirement_def set_live_def
  require_verb_def has_status_def

lemma document_write_fields [simp]:
  "write_identity (document_write ms input e) = entry_identity e"
  "write_cluster (document_write ms input e) = mi_cluster input"
  "write_dry_run (document_write ms input e) = mi_dry_run input"
  by (simp_all add: document_write_def entry_identity_def apply_request_def apply_input_of_def delete_request_of_def delete_input_of_def)

lemma identity_kept [simp]:
  "entry_identity (set_status st e) = entry_identity e" "entry_identity (set_failure st err e) = entry_identity e"
  "entry_identity (set_action a e) = entry_identity e" "entry_identity (set_requirement q e) = entry_identity e"
  "entry_identity (set_live live e) = entry_identity e" "entry_identity (require_verb v e) = entry_identity e"
  by (simp_all add: entry_identity_def entry_updates)

lemma plan_apply_identity: "plan_apply acc input e w = (e', w') \<Longrightarrow> entry_identity e' = entry_identity e"
  by (auto simp: plan_apply_def Let_def split: sum.splits prod.splits if_splits manifest_error.splits)

lemma plan_delete_identity: "plan_delete acc input e w = (e', w') \<Longrightarrow> entry_identity e' = entry_identity e"
  by (auto simp: plan_delete_def Let_def split: sum.splits prod.splits if_splits manifest_error.splits)

lemma plan_document_identity:
  assumes "plan_document ms acc input catalog i v seen w = (e, seen', w')"
  shows "has_status StatusInvalid e \<and> seen' = seen \<or> entry_identity e \<notin> seen \<and> seen' = insert (entry_identity e) seen"
proof (cases "resolve_document ms catalog input v")
  case (Inl err)
  then show ?thesis using assms by (auto simp: plan_document_def entry_updates new_document_def)
next
  case (Inr cn)
  obtain ce n where cn: "cn = (ce, n)" by fastforce
  have id: "entry_identity (resolved_entry i v ce n) = document_identity (ce_resource ce) n (ko_name v)"
    by (simp add: entry_identity_def resolved_entry_def new_document_def entry_updates)
  show ?thesis
  proof (cases "document_identity (ce_resource ce) n (ko_name v) \<in> seen")
    case True
    then show ?thesis using assms Inr cn
      by (auto simp: plan_document_def entry_updates resolved_entry_def new_document_def)
  next
    case False
    obtain e' w1 where p: "(if mi_operation input = OperationDelete then plan_delete acc input (resolved_entry i v ce n) w
        else plan_apply acc input (resolved_entry i v ce n) w) = (e', w1)" by fastforce
    then have "entry_identity e' = document_identity (ce_resource ce) n (ko_name v)"
      using plan_apply_identity plan_delete_identity id by (metis (full_types))
    moreover have "e = e'" "seen' = insert (document_identity (ce_resource ce) n (ko_name v)) seen"
      using assms Inr cn False p by (auto simp: plan_document_def Let_def)
    ultimately show ?thesis using False by simp
  qed
qed

lemma plan_identities:
  assumes "plan ms acc input catalog i vs seen w = (es, w')"
  shows "distinct (map entry_identity (filter (\<lambda>e. \<not> has_status StatusInvalid e) es))
    \<and> (\<forall>e \<in> set es. \<not> has_status StatusInvalid e \<longrightarrow> entry_identity e \<notin> seen)"
  using assms
proof (induction vs arbitrary: i seen w es)
  case Nil
  then show ?case by simp
next
  case (Cons v vs)
  obtain e seen' w1 where e: "plan_document ms acc input catalog i v seen w = (e, seen', w1)" by (metis prod.exhaust)
  obtain es' where es': "plan ms acc input catalog (Suc i) vs seen' w1 = (es', w')" "es = e # es'"
    using Cons.prems e by (auto split: prod.splits)
  show ?case using plan_document_identity [OF e] Cons.IH [OF es'(1)] es'(2) by auto
qed

lemma executable_plan:
  "executable_result (planned_result input catalog es) \<longleftrightarrow>
     (\<forall>e \<in> set es. \<not> has_status StatusInvalid e \<and> \<not> has_status StatusRefused e)"
  by (auto simp: executable_result_def planned_result_def list_ex_iff)

lemma distinct_filter_append:
  assumes "distinct (map f (xs @ e # ys))"
  shows "distinct (map f (filter P xs))" "distinct (map f (filter P xs @ [e]))"
  using assms by (auto simp: distinct_map inj_on_def)

lemma ran_writes:
  assumes "ran h input pending es es' writes" and "\<And>e. k (h e) = f e" and "distinct (map f es)"
  shows "distinct (map k writes)" "\<forall>m \<in> set writes. \<exists>e \<in> set es. sendable pending e \<and> m = h e"
proof -
  have "\<exists>zs. writes = map h zs \<and> distinct (map f zs) \<and> (\<forall>e \<in> set zs. e \<in> set es \<and> sendable pending e)"
    using assms(1) unfolding ran_def
  proof (elim exE conjE disjE)
    fix first first' assume "es = first" "writes = map h (filter (sendable pending) first)"
    then show ?thesis using assms(3) by (intro exI [of _ "filter (sendable pending) es"]) (simp add: distinct_map inj_on_def)
  next
    fix first first' e rest err
    assume es: "es = first @ e # rest" and e: "sendable pending e"
      and w: "writes \<in> {map h (filter (sendable pending) first), map h (filter (sendable pending) first @ [e])}"
    note d = distinct_filter_append [OF assms(3) [unfolded es], of "sendable pending"]
    from w consider "writes = map h (filter (sendable pending) first)" | "writes = map h (filter (sendable pending) first @ [e])"
      by blast
    then show ?thesis
    proof cases
      case 1
      then show ?thesis using d(1) es by (intro exI [of _ "filter (sendable pending) first"]) simp
    next
      case 2
      then show ?thesis using d(2) es e by (intro exI [of _ "filter (sendable pending) first @ [e]"]) auto
    qed
  qed
  then obtain zs where z: "writes = map h zs" "distinct (map f zs)" "\<forall>e \<in> set zs. e \<in> set es \<and> sendable pending e" by blast
  have "k \<circ> h = f" using assms(2) by auto
  then show "distinct (map k writes)" using z(1,2) by simp
  show "\<forall>m \<in> set writes. \<exists>e \<in> set es. sendable pending e \<and> m = h e" using z(1,3) by auto
qed

subsection \<open>Properties of a request\<close>

text \<open>
  A refused manifest sends nothing. When a manifest request fails, or its result is not executable
  because a document is refused or invalid, no write has left for the cluster; the reads of the plan are
  all that happened.
\<close>

theorem refused_manifest_sends_nothing:
  assumes "run_manifest ms (Some (manifest_access nr (Some (logged s)) g)) input (w, log) = (x, (w', log'))"
  shows "log' = log \<or> (\<exists>r. x = Inr r \<and> executable_result r)"
  using ml.run_manifest_ran [OF assms] by auto



subsection \<open>Documents that could not be read\<close>

lemma execute_each_passes:
  assumes "\<not> has_status StatusPlanned e"
  shows "\<exists>pre' post' w'. execute_each ms acc input pending st (pre @ post) w = (pre' @ post', w') \<and> length pre' = length pre
           \<and> execute_each ms acc input pending st (pre @ e # post) w = (pre' @ e # post', w')"
proof (induction pre arbitrary: st w)
  case Nil
  obtain es w' where "execute_each ms acc input pending st post w = (es, w')" by fastforce
  then show ?case using assms by (intro exI [of _ "[]"] exI [of _ es] exI [of _ w']) (simp add: has_status_def execute_one_def)
next
  case (Cons x pre)
  obtain x' st' w1 where x: "execute_one ms acc input pending st x w = (x', st', w1)" by (metis prod.exhaust)
  obtain pre' post' w' where r: "execute_each ms acc input pending st' (pre @ post) w1 = (pre' @ post', w')"
      "length pre' = length pre" "execute_each ms acc input pending st' (pre @ e # post) w1 = (pre' @ e # post', w')"
    using Cons.IH [of st' w1] by blast
  show ?case
    by (intro exI [of _ "x' # pre'"] exI [of _ post'] exI [of _ w'])
      (simp add: x r)
qed

text \<open>
  A document whose object could not be read does not stop the manifest. Its plan has failed, the result
  reports a failure, and the other documents are executed exactly as if the file did not contain it.
\<close>

theorem unread_documents_do_not_stop:
  assumes "has_status StatusFailed e"
  shows "\<exists>pre' post' w'. execute ms acc input (pre @ post) w = (pre' @ post', w') \<and> length pre' = length pre
           \<and> execute ms acc input (pre @ e # post) w = (pre' @ e # post', w')"
proof -
  have n: "\<not> has_status StatusPlanned e" using assms by (simp add: has_status_def)
  have pending: "unpreviewable_namespaces input (pre @ e # post) = unpreviewable_namespaces input (pre @ post)"
    using n by (simp add: unpreviewable_namespaces_def has_status_def)
  let ?p = "unpreviewable_namespaces input (pre @ post)"
  show ?thesis
  proof (cases "mi_operation input = OperationDelete")
    case False
    then show ?thesis
      using execute_each_passes [OF n, of ms acc input ?p False pre post w] by (auto simp: execute_def in_order_def pending)
  next
    case True
    obtain post' pre' w' where r: "execute_each ms acc input ?p False (rev post @ rev pre) w = (post' @ pre', w')"
        "length post' = length post" "execute_each ms acc input ?p False (rev post @ e # rev pre) w = (post' @ e # pre', w')"
      using execute_each_passes [OF n, of ms acc input ?p False "rev post" "rev pre" w] by auto
    have "length (fst (execute_each ms acc input ?p False es w)) = length es" for es
    proof -
      have "length (fst (execute_each ms acc input q b es v)) = length es" for q b v
        by (induction es arbitrary: b v) (simp_all add: split_beta)
      then show ?thesis .
    qed
    from this [of "rev post @ rev pre"] have "length pre' = length pre" using r(1,2) by simp
    then show ?thesis using r True
      by (intro exI [of _ "rev pre'"] exI [of _ "rev post'"] exI [of _ w']) (simp add: execute_def in_order_def pending)
  qed
qed

subsection \<open>An example manifest\<close>

definition ex_kube :: "unit kube_service" where
  "ex_kube =
     \<lparr>ks_discover = (\<lambda>_ w. (Inr ([\<lparr>dr_group = [], dr_version = ''v1'', dr_resource = ''configmaps'', dr_kind = ''ConfigMap'',
        dr_namespaced = True, dr_verbs = [''get'', ''patch'', ''delete'']\<rparr>], False), w)),
      ks_get = (\<lambda>q w. (Inl (if gq_name q = ''unread'' then ErrUpstream ''timeout'' else ErrResourceNotFound), w)),
      ks_patch = (\<lambda>p w. (if pq_name p = ''broken'' then Inl (ErrUpstream ''rejected'') else Inr (pq_object p), w)),
      ks_delete = (\<lambda>_ w. (Inr (), w))\<rparr>"

definition ex_config_map :: "string \<Rightarrow> kube_object" where
  "ex_config_map name = \<lparr>ko_api_version = ''v1'', ko_kind = ''ConfigMap'', ko_namespace = [], ko_name = name,
     ko_generate_name = [], ko_uid = [], ko_resource_version = [], ko_labels = [], ko_secret = None, ko_rules = None,
     ko_binding = None\<rparr>"

definition ex_manifest_service :: "string list \<Rightarrow> manifest_service" where
  "ex_manifest_service names = \<lparr>ms_max_documents = 10, ms_field_manager = ''zke'',
     ms_decode = (\<lambda>_ _. Inr (map ex_config_map names)), ms_group_version = (\<lambda>v. Some ([], v)), ms_digest = (\<lambda>s. s)\<rparr>"

definition ex_manifest_input :: manifest_input where
  "ex_manifest_input = \<lparr>mi_cluster = ex_cluster, mi_manifest = [], mi_namespace = ''default'', mi_operation = OperationApply,
     mi_dry_run = False, mi_force = False, mi_confirm = True, mi_key = ''request''\<rparr>"

definition ex_run :: "bool \<Rightarrow> string list \<Rightarrow> (manifest_error + manifest_result) \<times> unit \<times> manifest_write list" where
  "ex_run may names = run_manifest (ex_manifest_service names)
     (Some (manifest_access ex_names (Some (logged ex_kube)) (manifest_rights_of (no_manifest_grant\<lparr>mg_resource_create := may\<rparr>) ''zke-system'')))
     ex_manifest_input ((), [])"

definition statuses_of :: "manifest_error + manifest_result \<Rightarrow> manifest_status list" where
  "statuses_of x = (case x of Inl _ \<Rightarrow> [] | Inr r \<Rightarrow> map md_status (mx_documents r))"

lemma ex_runs:
  "statuses_of (fst (ex_run False [''one''])) = [StatusRefused]"
  "statuses_of (fst (ex_run True [''one'', ''broken'', ''two''])) = [StatusSucceeded, StatusFailed, StatusNotAttempted]"
  "statuses_of (fst (ex_run True [''unread'', ''two''])) = [StatusFailed, StatusSucceeded]"
  by code_simp+

lemma ex_run_eq:
  "ex_run may names = run_manifest (ex_manifest_service names)
     (Some (manifest_access ex_names (Some (logged ex_kube)) (manifest_rights_of (no_manifest_grant\<lparr>mg_resource_create := may\<rparr>) ''zke-system'')))
     ex_manifest_input ((), [])"
  by (simp add: ex_run_def)

lemma ex_results:
  "case fst (ex_run False [''one'']) of Inr r \<Rightarrow> \<not> executable_result r | Inl _ \<Rightarrow> False"
  "case fst (ex_run True [''one'', ''broken'', ''two'']) of Inr r \<Rightarrow> executable_result r | Inl _ \<Rightarrow> False"
  by code_simp+

theorem refused_manifest_sends_nothing_witness: "snd (snd (ex_run False [''one''])) = []"
proof -
  obtain x u log where r: "ex_run False [''one''] = (x, (u, log))" by (metis prod.exhaust)
  from refused_manifest_sends_nothing [OF r [unfolded ex_run_eq]] ex_results(1) r show ?thesis
    by (auto split: sum.splits)
qed



definition ex_unread :: planned_document where
  "ex_unread = set_failure StatusFailed (ErrUpstream ''timeout'') (new_document 0 (ex_config_map ''unread''))"

theorem unread_documents_do_not_stop_witness:
  "\<exists>post' w'. execute (ex_manifest_service []) (manifest_access ex_names (Some ex_kube) (manifest_rights_of no_manifest_grant []))
     ex_manifest_input [ex_unread, set_status StatusPlanned (new_document 1 (ex_config_map ''two''))] ()
     = (ex_unread # post', w')"
proof -
  have "has_status StatusFailed ex_unread" by (simp add: ex_unread_def entry_updates)
  from unread_documents_do_not_stop [OF this, of "ex_manifest_service []"
      "manifest_access ex_names (Some ex_kube) (manifest_rights_of no_manifest_grant [])" ex_manifest_input "[]"
      "[set_status StatusPlanned (new_document 1 (ex_config_map ''two''))]" "()"]
  show ?thesis by auto
qed

end
