(* ===== verification/AgentSessions.thy ===== *)
theory AgentSessions
  imports Tables Validation AgentFrames
begin

section \<open>Agent connections\<close>

text \<open>
  \<open>pkg/server/agentconn/manager.go\<close>: who an Agent's certificate says it is, what its hello may claim and
  which capabilities are agreed on; the sessions of connected Agents with their drain and their reason of
  disconnection; the registry that finds the session of a Cluster; the requests that take a slot of the
  Server and one of the Agent; the control loop with its heartbeats. A session is a Go pointer: the
  sessions live in a heap from pointers (numbers) to records. Certificates and URLs are parsed by the
  standard library; the model starts at their fields.
\<close>

subsection \<open>Who connects\<close>

record agent_identity =
  an_tenant :: string
  an_project :: string
  an_cluster :: string
  an_agent :: string

record certificate_identity = agent_identity +
  an_serial :: string
  an_expires :: time

text \<open>The parts of a certificate: the serial number, the one URI, the common name, the end of validity.\<close>

record identity_url =
  iu_scheme :: string
  iu_host :: string
  iu_plain :: bool
  iu_path :: string
  iu_text :: string

record agent_certificate =
  ax_serial :: int
  ax_uris :: "identity_url list"
  ax_common_name :: string
  ax_not_after :: time

definition trim_char :: "char \<Rightarrow> string \<Rightarrow> string" where
  "trim_char c s = rev (dropWhile (\<lambda>x. x = c) (rev (dropWhile (\<lambda>x. x = c) s)))"

datatype connect_error =
  ErrCertificateIdentity | ErrCertificateURI | ErrCertificatePath | ErrCertificateIdentifier | ErrCertificateCanonical

text \<open>\<open>render\<close> is \<open>(&url.URL{Scheme: "zke", Host: "agent", Path: path}).String()\<close>, \<open>decimal\<close> the serial number's text.\<close>

definition identity_from_certificate ::
    "(string \<Rightarrow> string) \<Rightarrow> (int \<Rightarrow> string) \<Rightarrow> agent_certificate option \<Rightarrow> connect_error + certificate_identity" where
  "identity_from_certificate render decimal cert =
     (case cert of
        None \<Rightarrow> Inl ErrCertificateIdentity
      | Some x \<Rightarrow>
          (case ax_uris x of
             [u] \<Rightarrow>
               if ax_serial x \<le> 0 then Inl ErrCertificateIdentity
               else if iu_scheme u \<noteq> ''zke'' \<or> iu_host u \<noteq> ''agent'' \<or> \<not> iu_plain u then Inl ErrCertificateURI
               else (case split_on (CHR ''/'') (trim_char (CHR ''/'') (iu_path u)) of
                       [a, t, b, p, c, l, d, g] \<Rightarrow>
                         if a \<noteq> ''tenants'' \<or> b \<noteq> ''projects'' \<or> c \<noteq> ''clusters'' \<or> d \<noteq> ''agents'' then Inl ErrCertificatePath
                         else if \<not> list_all is_uuid [t, p, l, g] then Inl ErrCertificateIdentifier
                         else if iu_text u \<noteq> render (join_with ''/'' [''/tenants'', t, ''projects'', p, ''clusters'', l, ''agents'', g])
                                 \<or> ax_common_name x \<noteq> g
                         then Inl ErrCertificateCanonical
                         else Inr \<lparr>an_tenant = t, an_project = p, an_cluster = l, an_agent = g,
                                   an_serial = decimal (ax_serial x), an_expires = ax_not_after x\<rparr>
                     | _ \<Rightarrow> Inl ErrCertificatePath)
           | _ \<Rightarrow> Inl ErrCertificateIdentity))"

record client_hello =
  ch_agent :: string
  ch_cluster :: string
  ch_startup :: string
  ch_version :: string
  ch_capabilities :: "string list"

datatype hello_error = HelloVersion | HelloIdentity | HelloAgentVersion | HelloTooManyCapabilities | HelloCapability

definition validate_client_hello ::
    "32 word \<Rightarrow> client_hello option \<Rightarrow> certificate_identity \<Rightarrow> hello_error + unit" where
  "validate_client_hello version hello i =
     (if version \<noteq> protocol_version then Inl HelloVersion
      else case hello of
        None \<Rightarrow> Inl HelloIdentity
      | Some h \<Rightarrow>
          if ch_agent h \<noteq> an_agent i \<or> ch_cluster h \<noteq> an_cluster i \<or> \<not> is_uuid (ch_startup h) then Inl HelloIdentity
          else if trim_space (ch_version h) = [] \<or> trim_space (ch_version h) \<noteq> ch_version h \<or> 128 < length (ch_version h)
          then Inl HelloAgentVersion
          else if 64 < length (ch_capabilities h) then Inl HelloTooManyCapabilities
          else if list_ex (\<lambda>c. c = [] \<or> trim_space c \<noteq> c \<or> 128 < length c) (ch_capabilities h) then Inl HelloCapability
          else Inr ())"

subsection \<open>Capabilities\<close>

definition cap_renewal :: string where "cap_renewal = ''certificate-renewal-v1''"
definition cap_resource :: string where "cap_resource = ''resource.v1''"
definition cap_discovery :: string where "cap_discovery = ''resource-discovery.v1''"
definition cap_write :: string where "cap_write = ''resource-write.v1''"
definition cap_pod_logs :: string where "cap_pod_logs = ''pod-logs.v1''"
definition cap_pod_exec :: string where "cap_pod_exec = ''pod-exec.v1''"
definition cap_terminal_command :: string where "cap_terminal_command = ''terminal-command.v1''"
definition cap_port_forward :: string where "cap_port_forward = ''pod-port-forward.v1''"
definition cap_watch :: string where "cap_watch = ''resource-watch.v1''"
definition cap_overview :: string where "cap_overview = ''overview-snapshot.v1''"
definition cap_summary :: string where "cap_summary = ''resource-summary.v1''"
definition cap_terminal_session :: string where "cap_terminal_session = ''terminal-session.v1''"
definition cap_metrics_ingest :: string where "cap_metrics_ingest = ''metrics-ingest.v1''"
definition cap_metrics_collector :: string where "cap_metrics_collector = ''metrics-collector.v1''"
definition cap_helm :: string where "cap_helm = ''helm.v1''"
definition cap_helm_progress :: string where "cap_helm_progress = ''helm-progress.v1''"

lemmas capability_names = cap_renewal_def cap_resource_def cap_discovery_def cap_write_def cap_pod_logs_def cap_pod_exec_def
  cap_terminal_command_def cap_port_forward_def cap_watch_def cap_overview_def cap_summary_def cap_terminal_session_def
  cap_metrics_ingest_def cap_metrics_collector_def cap_helm_def cap_helm_progress_def

text \<open>What the session keeps, in the order the capabilities are answered; \<open>sink\<close>: this Server stores metrics.\<close>

definition agreed_capabilities :: "bool \<Rightarrow> string list \<Rightarrow> string list" where
  "agreed_capabilities sink hello =
     (let has = (\<lambda>c. c \<in> set hello); one = (\<lambda>c. if has c then [c] else []) in
      (if has cap_resource then cap_resource # one cap_discovery @ one cap_write else [])
      @ one cap_pod_logs @ one cap_pod_exec @ one cap_port_forward @ one cap_watch
      @ (if has cap_overview then cap_overview # one cap_summary else [])
      @ one cap_terminal_session @ one cap_terminal_command @ one cap_helm @ one cap_helm_progress
      @ (if sink then one cap_metrics_collector @ one cap_metrics_ingest else []))"

definition answered_capabilities :: "bool \<Rightarrow> string list \<Rightarrow> string list" where
  "answered_capabilities sink hello = cap_renewal # agreed_capabilities sink hello"

subsection \<open>A session\<close>

text \<open>The seven allowances; several kinds of request share the one for resources.\<close>

datatype allowance =
  ForResources | ForCache | ForPodLogs | ForPodExec | ForPortForward | ForWatch | ForHelm

record agent_session =
  as_id :: string
  as_identity :: agent_identity
  as_serial :: string
  as_expires :: time
  as_connected_at :: time
  as_heartbeat :: time
  as_reason :: string
  as_capabilities :: "string list"
  as_taken :: "allowance \<Rightarrow> nat"
  as_in_flight :: nat
  as_draining :: bool
  as_drain_finish :: bool
  as_timer :: bool
  as_drain_done :: bool
  as_go_aways :: "string list"
  as_closed :: "string option"

definition new_session :: "string \<Rightarrow> certificate_identity \<Rightarrow> time \<Rightarrow> string list \<Rightarrow> agent_session" where
  "new_session i c now caps =
     \<lparr>as_id = i, as_identity = agent_identity.truncate c, as_serial = an_serial c, as_expires = an_expires c,
      as_connected_at = now, as_heartbeat = zero_time, as_reason = ''connection_closed'', as_capabilities = caps,
      as_taken = (\<lambda>_. 0), as_in_flight = 0, as_draining = False, as_drain_finish = False, as_timer = False,
      as_drain_done = False, as_go_aways = [], as_closed = None\<rparr>"

definition disconnect_reason_priority :: "string \<Rightarrow> nat" where
  "disconnect_reason_priority r =
     (if r \<in> {''agent_revoked'', ''cluster_revoked''} then 4
      else if r \<in> {''credential_revoked'', ''credential_rejected'', ''scope_suspended'', ''certificate_expired''} then 3
      else if r \<in> {''connection_replaced'', ''server_shutdown'', ''client_goodbye''} then 2
      else if r = [] then 0 else 1)"

definition set_disconnect_reason :: "string \<Rightarrow> agent_session \<Rightarrow> agent_session" where
  "set_disconnect_reason r s =
     (if disconnect_reason_priority r < disconnect_reason_priority (as_reason s) then s else s\<lparr>as_reason := r\<rparr>)"

definition write_go_away :: "string \<Rightarrow> agent_session \<Rightarrow> agent_session" where
  "write_go_away r s = s\<lparr>as_go_aways := as_go_aways s @ [r]\<rparr>"

text \<open>A connection is closed once; closing it again changes nothing.\<close>

definition close_with :: "string \<Rightarrow> agent_session \<Rightarrow> agent_session" where
  "close_with message s = s\<lparr>as_closed := (case as_closed s of None \<Rightarrow> Some message | x \<Rightarrow> x)\<rparr>"

definition begin_business :: "agent_session \<Rightarrow> bool \<times> agent_session" where
  "begin_business s = (if as_draining s then (False, s) else (True, s\<lparr>as_in_flight := as_in_flight s + 1\<rparr>))"

text \<open>The flags say whether \<open>finishDrain\<close> is called next.\<close>

definition end_business :: "agent_session \<Rightarrow> bool \<times> agent_session" where
  "end_business s = (let s' = s\<lparr>as_in_flight := as_in_flight s - 1\<rparr> in (as_draining s' \<and> as_in_flight s' = 0, s'))"

definition start_drain :: "agent_session \<Rightarrow> bool \<times> agent_session" where
  "start_drain s =
     (if as_draining s then (False, s)
      else let drained = as_in_flight s = 0 in
           (drained, s\<lparr>as_draining := True, as_drain_finish := True, as_timer := \<not> drained\<rparr>))"

definition replaced_finish :: "agent_session \<Rightarrow> agent_session" where
  "replaced_finish s =
     close_with ''connection replaced'' (write_go_away ''connection_replaced'' (set_disconnect_reason ''connection_replaced'' s))"

definition finish_drain :: "agent_session \<Rightarrow> agent_session" where
  "finish_drain s =
     (if as_drain_done s then s
      else let s' = s\<lparr>as_drain_done := True, as_timer := False\<rparr> in if as_drain_finish s' then replaced_finish s' else s')"

definition record_heartbeat :: "time \<Rightarrow> agent_session \<Rightarrow> agent_session" where
  "record_heartbeat at s = s\<lparr>as_heartbeat := at\<rparr>"

record connection_status =
  ct_state :: string
  ct_id :: string
  ct_connected_at :: time
  ct_heartbeat :: time
  ct_disconnected_at :: time
  ct_reason :: string

definition online_status :: "agent_session \<Rightarrow> connection_status" where
  "online_status s =
     \<lparr>ct_state = ''online'', ct_id = as_id s, ct_connected_at = as_connected_at s, ct_heartbeat = as_heartbeat s,
      ct_disconnected_at = zero_time, ct_reason = []\<rparr>"

definition disconnected_status :: "time \<Rightarrow> agent_session \<Rightarrow> connection_status" where
  "disconnected_status at s =
     \<lparr>ct_state = ''offline'', ct_id = [], ct_connected_at = zero_time, ct_heartbeat = as_heartbeat s,
      ct_disconnected_at = at,
      ct_reason = (if trim_space (as_reason s) = [] then ''connection_closed'' else as_reason s)\<rparr>"

definition offline_status :: connection_status where
  "offline_status =
     \<lparr>ct_state = ''offline'', ct_id = [], ct_connected_at = zero_time, ct_heartbeat = zero_time,
      ct_disconnected_at = zero_time, ct_reason = []\<rparr>"

subsection \<open>The registry\<close>

record connection_event =
  cv_id :: string
  cv_identity :: agent_identity
  cv_state :: string
  cv_at :: time

record subscriber =
  sb_id :: "64 word"
  sb_queue :: "connection_event list"

record agent_manager =
  am_heap :: "nat \<Rightarrow> agent_session option"
  am_connections :: "nat table"
  am_by_cluster :: "nat table"
  am_last :: "connection_status table"
  am_order :: "string list"
  am_subscribers :: "subscriber list"
  am_next_subscriber :: "64 word"
  am_taken :: "allowance \<Rightarrow> nat"

record manager_limits =
  kl_remembered :: int
  kl_server :: "allowance \<Rightarrow> nat"
  kl_session :: "allowance \<Rightarrow> nat"
  kl_interval :: duration

definition subscriber_capacity :: nat where "subscriber_capacity = 128"

definition deliver :: "connection_event \<Rightarrow> subscriber \<Rightarrow> subscriber" where
  "deliver e b = (if length (sb_queue b) < subscriber_capacity then b\<lparr>sb_queue := sb_queue b @ [e]\<rparr> else b)"

text \<open>\<open>fresh\<close> is the new event identifier, absent when the random source fails.\<close>

definition publish_identity ::
    "string option \<Rightarrow> agent_identity \<Rightarrow> string \<Rightarrow> time \<Rightarrow> agent_manager \<Rightarrow> agent_manager" where
  "publish_identity fresh i state at m =
     (case fresh of
        None \<Rightarrow> m
      | Some e \<Rightarrow> m\<lparr>am_subscribers := map (deliver \<lparr>cv_id = e, cv_identity = i, cv_state = state, cv_at = at\<rparr>) (am_subscribers m)\<rparr>)"

definition change_session :: "nat \<Rightarrow> (agent_session \<Rightarrow> agent_session) \<Rightarrow> agent_manager \<Rightarrow> agent_manager" where
  "change_session p f m = m\<lparr>am_heap := (am_heap m)(p := map_option f (am_heap m p))\<rparr>"

definition register_session :: "string option \<Rightarrow> nat \<Rightarrow> agent_session \<Rightarrow> agent_manager \<Rightarrow> nat option \<times> agent_manager" where
  "register_session fresh p s m =
     (map_of (am_connections m) (an_agent (as_identity s)),
      publish_identity fresh (as_identity s) ''online'' (as_connected_at s)
        (m\<lparr>am_connections := AList.update (an_agent (as_identity s)) p (am_connections m),
           am_by_cluster := AList.update (an_cluster (as_identity s)) p (am_by_cluster m)\<rparr>))"

text \<open>The loop over the order, from its oldest entry.\<close>

fun trim_order :: "nat \<Rightarrow> nat table \<Rightarrow> string list \<Rightarrow> connection_status table \<Rightarrow> string list \<times> connection_status table" where
  "trim_order limit connections [] seen = ([], seen)"
| "trim_order limit connections (a # as) seen =
     (if limit < length (a # as)
      then trim_order limit connections as (if map_of connections a = None then AList.delete a seen else seen)
      else (a # as, seen))"

definition remembered_limit :: "manager_limits \<Rightarrow> nat" where
  "remembered_limit k = nat (if kl_remembered k \<le> 0 then 4096 else kl_remembered k)"

definition remember_disconnect :: "manager_limits \<Rightarrow> string \<Rightarrow> connection_status \<Rightarrow> agent_manager \<Rightarrow> agent_manager" where
  "remember_disconnect k agent st m =
     (case trim_order (remembered_limit k) (am_connections m)
             (if map_of (am_last m) agent = None then am_order m @ [agent] else am_order m)
             (AList.update agent st (am_last m)) of
        (order, seen) \<Rightarrow> m\<lparr>am_order := order, am_last := seen\<rparr>)"

text \<open>The event carries the time found in the map, the zero time when the loop has just removed the entry.\<close>

definition unregister_session ::
    "manager_limits \<Rightarrow> string option \<Rightarrow> time \<Rightarrow> nat \<Rightarrow> agent_session \<Rightarrow> agent_manager \<Rightarrow> agent_manager" where
  "unregister_session k fresh now p s m =
     (let agent = an_agent (as_identity s); cluster = an_cluster (as_identity s) in
      if map_of (am_connections m) agent \<noteq> Some p then m
      else let m1 = m\<lparr>am_connections := AList.delete agent (am_connections m),
                      am_by_cluster := (if map_of (am_by_cluster m) cluster = Some p
                                        then AList.delete cluster (am_by_cluster m) else am_by_cluster m)\<rparr>;
               m2 = remember_disconnect k agent (disconnected_status now s) m1
           in publish_identity fresh (as_identity s) ''offline''
                (case map_of (am_last m2) agent of None \<Rightarrow> zero_time | Some st \<Rightarrow> ct_disconnected_at st) m2)"

definition subscribe :: "agent_manager \<Rightarrow> 64 word \<times> agent_manager" where
  "subscribe m =
     (let i = am_next_subscriber m + 1 in
      (i, m\<lparr>am_next_subscriber := i,
            am_subscribers := filter (\<lambda>b. sb_id b \<noteq> i) (am_subscribers m) @ [\<lparr>sb_id = i, sb_queue = []\<rparr>]\<rparr>))"

definition unsubscribe :: "64 word \<Rightarrow> agent_manager \<Rightarrow> agent_manager" where
  "unsubscribe i m = m\<lparr>am_subscribers := filter (\<lambda>b. sb_id b \<noteq> i) (am_subscribers m)\<rparr>"

definition publish_agent_status_change ::
    "string option \<Rightarrow> agent_identity \<Rightarrow> time \<Rightarrow> agent_manager \<Rightarrow> agent_manager" where
  "publish_agent_status_change fresh i now m =
     publish_identity fresh i (if map_of (am_connections m) (an_agent i) \<noteq> None then ''online'' else ''offline'') now m"

definition snapshot :: "string list \<Rightarrow> agent_manager \<Rightarrow> connection_status table" where
  "snapshot agents m =
     map (\<lambda>a. (a, case Option.bind (map_of (am_connections m) a) (am_heap m) of
                    Some s \<Rightarrow> online_status s
                  | None \<Rightarrow> (case map_of (am_last m) a of Some st \<Rightarrow> st | None \<Rightarrow> offline_status)))
       (remdups agents)"

text \<open>Every session of the registry, with a function applied to it.\<close>

definition each_connected :: "(agent_session \<Rightarrow> bool) \<Rightarrow> (agent_session \<Rightarrow> agent_session) \<Rightarrow> agent_manager \<Rightarrow> agent_manager" where
  "each_connected sel f m =
     fold (\<lambda>(a, p) m'. case am_heap m p of Some s \<Rightarrow> if sel s then change_session p f m' else m' | None \<Rightarrow> m')
       (am_connections m) m"

definition close_all :: "agent_manager \<Rightarrow> agent_manager" where
  "close_all =
     each_connected (\<lambda>_. True)
       (\<lambda>s. close_with ''server shutdown'' (write_go_away ''server_shutdown'' (set_disconnect_reason ''server_shutdown'' s)))"

record revocation =
  rv_tenant :: string
  rv_project :: string
  rv_cluster :: string
  rv_agent :: string
  rv_serial :: string
  rv_reason :: string

definition revocation_matches :: "revocation \<Rightarrow> agent_session \<Rightarrow> bool" where
  "revocation_matches e s \<longleftrightarrow>
     (rv_tenant e \<noteq> [] \<longrightarrow> an_tenant (as_identity s) = rv_tenant e)
     \<and> (rv_project e \<noteq> [] \<longrightarrow> an_project (as_identity s) = rv_project e)
     \<and> (rv_agent e \<noteq> [] \<longrightarrow> an_agent (as_identity s) = rv_agent e)
     \<and> (rv_cluster e \<noteq> [] \<longrightarrow> an_cluster (as_identity s) = rv_cluster e)
     \<and> (rv_serial e \<noteq> [] \<longrightarrow> as_serial s = rv_serial e)"

definition revocation_reason :: "revocation \<Rightarrow> string" where
  "revocation_reason e =
     (if rv_reason e = ''scope_suspended'' then ''scope_suspended''
      else if rv_agent e \<noteq> [] \<and> rv_serial e = [] then ''agent_revoked''
      else if rv_cluster e \<noteq> [] then ''cluster_revoked''
      else ''credential_revoked'')"

definition revoke_session :: "revocation \<Rightarrow> agent_session \<Rightarrow> agent_session" where
  "revoke_session e s =
     close_with (if revocation_reason e = ''scope_suspended'' then ''Agent scope suspended'' else ''Agent access revoked'')
       (write_go_away (revocation_reason e) (set_disconnect_reason (revocation_reason e) s))"

definition handle_revocation :: "revocation \<Rightarrow> agent_manager \<Rightarrow> agent_manager" where
  "handle_revocation e = each_connected (revocation_matches e) (revoke_session e)"

subsection \<open>Requests\<close>

text \<open>What a request may be, with the capabilities it needs and the allowance it takes a slot of.\<close>

datatype agent_request =
    ResourceRead | ResourceDiscover | ResourceWrite | OverviewSnapshot | ResourceSummaries
  | TerminalSession bool | MetricsCollector | Helm | PodLogs | PodExec | TerminalCommand | PodPortForward | ResourceWatch

datatype request_error =
    ErrAgentNotConnected | ErrResourceCapabilityMissing | ErrResourceCacheCapabilityMissing
  | ErrTerminalSessionCapabilityMissing | ErrTerminalCommandCapabilityMissing | ErrMetricsCollectorCapabilityMissing
  | ErrHelmCapabilityMissing | ErrPodLogsCapabilityMissing | ErrPodExecCapabilityMissing
  | ErrPodPortForwardCapabilityMissing | ErrResourceWatchCapabilityMissing
  | ErrResourceRequestExhausted | ErrHelmRequestExhausted | ErrPodLogsRequestExhausted | ErrPodExecRequestExhausted
  | ErrPodPortForwardRequestExhausted | ErrResourceWatchRequestExhausted

fun needed_capabilities :: "agent_request \<Rightarrow> (string \<times> request_error) list" where
  "needed_capabilities ResourceRead = [(cap_resource, ErrResourceCapabilityMissing)]"
| "needed_capabilities ResourceDiscover =
     [(cap_resource, ErrResourceCapabilityMissing), (cap_discovery, ErrResourceCapabilityMissing)]"
| "needed_capabilities ResourceWrite =
     [(cap_resource, ErrResourceCapabilityMissing), (cap_write, ErrResourceCapabilityMissing)]"
| "needed_capabilities OverviewSnapshot = [(cap_overview, ErrResourceCacheCapabilityMissing)]"
| "needed_capabilities ResourceSummaries = [(cap_summary, ErrResourceCacheCapabilityMissing)]"
| "needed_capabilities (TerminalSession proxied) =
     (cap_terminal_session, ErrTerminalSessionCapabilityMissing)
     # (if proxied then [(cap_terminal_command, ErrTerminalCommandCapabilityMissing)] else [])"
| "needed_capabilities MetricsCollector = [(cap_metrics_collector, ErrMetricsCollectorCapabilityMissing)]"
| "needed_capabilities Helm = [(cap_helm, ErrHelmCapabilityMissing)]"
| "needed_capabilities PodLogs = [(cap_pod_logs, ErrPodLogsCapabilityMissing)]"
| "needed_capabilities PodExec = [(cap_pod_exec, ErrPodExecCapabilityMissing)]"
| "needed_capabilities TerminalCommand = [(cap_terminal_command, ErrTerminalCommandCapabilityMissing)]"
| "needed_capabilities PodPortForward = [(cap_port_forward, ErrPodPortForwardCapabilityMissing)]"
| "needed_capabilities ResourceWatch = [(cap_watch, ErrResourceWatchCapabilityMissing)]"

fun allowance_of :: "agent_request \<Rightarrow> allowance" where
  "allowance_of OverviewSnapshot = ForCache"
| "allowance_of ResourceSummaries = ForCache"
| "allowance_of Helm = ForHelm"
| "allowance_of PodLogs = ForPodLogs"
| "allowance_of PodExec = ForPodExec"
| "allowance_of TerminalCommand = ForPodExec"
| "allowance_of PodPortForward = ForPortForward"
| "allowance_of ResourceWatch = ForWatch"
| "allowance_of ResourceRead = ForResources"
| "allowance_of ResourceDiscover = ForResources"
| "allowance_of ResourceWrite = ForResources"
| "allowance_of (TerminalSession _) = ForResources"
| "allowance_of MetricsCollector = ForResources"

fun exhausted_error :: "allowance \<Rightarrow> request_error" where
  "exhausted_error ForResources = ErrResourceRequestExhausted"
| "exhausted_error ForCache = ErrResourceRequestExhausted"
| "exhausted_error ForHelm = ErrHelmRequestExhausted"
| "exhausted_error ForPodLogs = ErrPodLogsRequestExhausted"
| "exhausted_error ForPodExec = ErrPodExecRequestExhausted"
| "exhausted_error ForPortForward = ErrPodPortForwardRequestExhausted"
| "exhausted_error ForWatch = ErrResourceWatchRequestExhausted"

fun missing_capability :: "string list \<Rightarrow> (string \<times> request_error) list \<Rightarrow> request_error option" where
  "missing_capability caps [] = None"
| "missing_capability caps ((c, e) # cs) = (if c \<in> set caps then missing_capability caps cs else Some e)"

text \<open>
  Every request runs through the same stations, one atomic step from each to the next: it has looked up the
  session, has begun business there, has a slot of the Server, has a slot of the session and runs; on its
  way out it gives back what it holds in reverse order. \<open>HasSession\<close> is the running request.
\<close>

datatype station = LookedUp | HasBusiness | HasServer | HasSession | LeavesSession | LeavesServer | LeavesBusiness

datatype agent_thread =
    Request agent_request nat station
  | Handler nat
  | Supersede nat
  | FinishDrain nat

text \<open>\<open>try_acquire\<close> on an allowance with \<open>limit\<close> slots.\<close>

definition try_acquire :: "allowance \<Rightarrow> nat \<Rightarrow> (allowance \<Rightarrow> nat) \<Rightarrow> (allowance \<Rightarrow> nat) option" where
  "try_acquire a limit taken = (if taken a < limit then Some (taken(a := taken a + 1)) else None)"

definition release_slot :: "allowance \<Rightarrow> (allowance \<Rightarrow> nat) \<Rightarrow> (allowance \<Rightarrow> nat)" where
  "release_slot a taken = taken(a := taken a - 1)"

text \<open>
  The next step of a request: the manager after it, what the request goes on as, the error it was answered.
\<close>

fun request_step ::
    "manager_limits \<Rightarrow> agent_request \<Rightarrow> nat \<Rightarrow> station \<Rightarrow> agent_session \<Rightarrow> agent_manager
       \<Rightarrow> agent_manager \<times> agent_thread list \<times> request_error option" where
  "request_step k r p LookedUp s m =
     (case begin_business s of
        (True, s') \<Rightarrow> (change_session p (\<lambda>_. s') m, [Request r p HasBusiness], None)
      | (False, _) \<Rightarrow> (m, [], Some ErrAgentNotConnected))"
| "request_step k r p HasBusiness s m =
     (case missing_capability (as_capabilities s) (needed_capabilities r) of
        Some e \<Rightarrow> (m, [Request r p LeavesBusiness], Some e)
      | None \<Rightarrow>
          (case try_acquire (allowance_of r) (kl_server k (allowance_of r)) (am_taken m) of
             None \<Rightarrow> (m, [Request r p LeavesBusiness], Some (exhausted_error (allowance_of r)))
           | Some t \<Rightarrow> (m\<lparr>am_taken := t\<rparr>, [Request r p HasServer], None)))"
| "request_step k r p HasServer s m =
     (case try_acquire (allowance_of r) (kl_session k (allowance_of r)) (as_taken s) of
        None \<Rightarrow> (m, [Request r p LeavesServer], Some (exhausted_error (allowance_of r)))
      | Some t \<Rightarrow> (change_session p (\<lambda>s. s\<lparr>as_taken := t\<rparr>) m, [Request r p HasSession], None))"
| "request_step k r p HasSession s m = (m, [Request r p LeavesSession], None)"
| "request_step k r p LeavesSession s m =
     (change_session p (\<lambda>s. s\<lparr>as_taken := release_slot (allowance_of r) (as_taken s)\<rparr>) m, [Request r p LeavesServer], None)"
| "request_step k r p LeavesServer s m =
     (m\<lparr>am_taken := release_slot (allowance_of r) (am_taken m)\<rparr>, [Request r p LeavesBusiness], None)"
| "request_step k r p LeavesBusiness s m =
     (case end_business s of
        (drained, s') \<Rightarrow> (change_session p (\<lambda>_. s') m, if drained then [FinishDrain p] else [], None))"

definition look_up :: "agent_request \<Rightarrow> string \<Rightarrow> agent_manager \<Rightarrow> request_error + agent_thread" where
  "look_up r cluster m =
     (case map_of (am_by_cluster m) cluster of
        None \<Rightarrow> Inl ErrAgentNotConnected
      | Some p \<Rightarrow> Inr (Request r p LookedUp))"

end
