(* ===== verification/AgentRegistry.thy ===== *)
theory AgentRegistry
  imports AgentSessions "HOL-Library.Multiset"
begin

section \<open>Every interleaving of Agent connections\<close>

text \<open>
  The threads of the connection manager: the handler of each connection, a handler about to drain the
  session it replaced, callers about to finish a drain, and the requests at their stations. A step is one
  critical section of one of them. The invariant says what the counters count, that a drain that began
  has something left that ends it, and that a session that lost its place in the registry drains.
\<close>

type_synonym agent_world = "agent_manager \<times> agent_thread multiset"

inductive agent_step :: "manager_limits \<Rightarrow> agent_world \<Rightarrow> agent_world \<Rightarrow> bool" for k where
  step_connect: "am_heap m p = None \<Longrightarrow>
    register_session fresh p (new_session i c now (agreed_capabilities sink hello))
      (m\<lparr>am_heap := (am_heap m)(p \<mapsto> new_session i c now (agreed_capabilities sink hello))\<rparr>) = (prev, m') \<Longrightarrow>
    agent_step k (m, T)
      (m', add_mset (Handler p) (case prev of None \<Rightarrow> T | Some q \<Rightarrow> add_mset (Supersede q) T))"
| step_supersede: "Supersede q \<in># T \<Longrightarrow> am_heap m q = Some s \<Longrightarrow> start_drain s = (drained, s') \<Longrightarrow>
    agent_step k (m, T)
      (change_session q (\<lambda>_. s') m, T - {#Supersede q#} + (if drained then {#FinishDrain q#} else {#}))"
| step_timer: "am_heap m q = Some s \<Longrightarrow> as_timer s \<Longrightarrow>
    agent_step k (m, T) (change_session q (\<lambda>s. s\<lparr>as_timer := False\<rparr>) m, add_mset (FinishDrain q) T)"
| step_finish: "FinishDrain q \<in># T \<Longrightarrow>
    agent_step k (m, T) (change_session q finish_drain m, T - {#FinishDrain q#})"
| step_unregister: "Handler p \<in># T \<Longrightarrow> am_heap m p = Some s \<Longrightarrow>
    agent_step k (m, T) (unregister_session k fresh now p s m, T - {#Handler p#})"
| step_look_up: "look_up r cluster m = Inr t \<Longrightarrow> agent_step k (m, T) (m, add_mset t T)"
| step_request: "Request r p st \<in># T \<Longrightarrow> am_heap m p = Some s \<Longrightarrow> request_step k r p st s m = (m', ts, e) \<Longrightarrow>
    agent_step k (m, T) (m', T - {#Request r p st#} + mset ts)"
| step_reason: "Handler p \<in># T \<Longrightarrow> agent_step k (m, T) (change_session p (set_disconnect_reason reason) m, T)"
| step_heartbeat: "Handler p \<in># T \<Longrightarrow> agent_step k (m, T) (change_session p (record_heartbeat at) m, T)"
| step_close: "Handler p \<in># T \<Longrightarrow> agent_step k (m, T) (change_session p (close_with message) m, T)"
| step_revoke: "agent_step k (m, T) (handle_revocation e m, T)"
| step_close_all: "agent_step k (m, T) (close_all m, T)"
| step_subscribe: "agent_step k (m, T) (snd (subscribe m), T)"
| step_unsubscribe: "agent_step k (m, T) (unsubscribe i m, T)"
| step_status: "agent_step k (m, T) (publish_agent_status_change fresh identity now m, T)"

definition new_manager :: agent_manager where
  "new_manager =
     \<lparr>am_heap = (\<lambda>_. None), am_connections = [], am_by_cluster = [], am_last = [], am_order = [], am_subscribers = [],
      am_next_subscriber = 0, am_taken = (\<lambda>_. 0)\<rparr>"

inductive agent_reach :: "manager_limits \<Rightarrow> agent_world \<Rightarrow> bool" for k where
  reach_start: "agent_reach k (new_manager, {#})"
| reach_step: "agent_reach k w \<Longrightarrow> agent_step k w w' \<Longrightarrow> agent_reach k w'"

subsection \<open>Counting threads\<close>

definition held :: "(agent_thread \<Rightarrow> bool) \<Rightarrow> agent_thread multiset \<Rightarrow> nat" where
  "held P T = size (filter_mset P T)"

lemma held_simps [simp]:
  "held P {#} = 0" "held P (add_mset t T) = held P T + (if P t then 1 else 0)" "held P (T + T') = held P T + held P T'"
  by (simp_all add: held_def)

lemma held_mset [simp]: "held P (mset ts) = length (filter P ts)"
  by (simp add: held_def mset_filter [symmetric] del: mset_filter)

lemma held_remove: "t \<in># T \<Longrightarrow> held P T = held P (T - {#t#}) + (if P t then 1 else 0)"
  by (metis held_simps(2) insert_DiffM)

lemma held_positive: "t \<in># T \<Longrightarrow> P t \<Longrightarrow> 0 < held P T"
  by (simp add: held_remove)

fun in_business :: "nat \<Rightarrow> agent_thread \<Rightarrow> bool" where
  "in_business p (Request r q st) \<longleftrightarrow> q = p \<and> st \<noteq> LookedUp"
| "in_business p _ \<longleftrightarrow> False"

fun on_server :: "allowance \<Rightarrow> agent_thread \<Rightarrow> bool" where
  "on_server a (Request r q st) \<longleftrightarrow> allowance_of r = a \<and> st \<in> {HasServer, HasSession, LeavesSession, LeavesServer}"
| "on_server a _ \<longleftrightarrow> False"

fun on_session :: "allowance \<Rightarrow> nat \<Rightarrow> agent_thread \<Rightarrow> bool" where
  "on_session a p (Request r q st) \<longleftrightarrow> q = p \<and> allowance_of r = a \<and> st \<in> {HasSession, LeavesSession}"
| "on_session a p _ \<longleftrightarrow> False"

fun about :: "agent_thread \<Rightarrow> nat" where
  "about (Request r p st) = p" | "about (Handler p) = p" | "about (Supersede p) = p" | "about (FinishDrain p) = p"

subsection \<open>The invariant\<close>

text \<open>The ledger: a replaced thread moves the count by what it and its successors hold.\<close>

lemma ledger:
  assumes "c = held P T" and "t \<in># T" and "c' + (if P t then 1 else 0) = c + length (filter P ts)"
  shows "c' = held P (T - {#t#} + mset ts)"
proof -
  have "held P (T - {#t#} + mset ts) = held P (T - {#t#}) + length (filter P ts)" by (simp only: held_simps held_mset)
  then show ?thesis using assms(1,3) held_remove [OF assms(2), of P] by simp
qed

definition session_ok :: "manager_limits \<Rightarrow> agent_manager \<Rightarrow> agent_thread multiset \<Rightarrow> nat \<Rightarrow> agent_session \<Rightarrow> bool" where
  "session_ok k m T p s \<longleftrightarrow>
     as_in_flight s = held (in_business p) T \<and> held ((=) (Handler p)) T \<le> 1
     \<and> (\<forall>a. as_taken s a = held (on_session a p) T \<and> as_taken s a \<le> kl_session k a)
     \<and> (as_draining s \<longrightarrow> as_drain_finish s
          \<and> (as_drain_done s \<or> FinishDrain p \<in># T \<or> as_timer s \<and> 0 < as_in_flight s))
     \<and> (as_drain_done s \<or> as_timer s \<or> FinishDrain p \<in># T \<longrightarrow> as_draining s)
     \<and> (as_drain_done s \<longrightarrow> as_closed s \<noteq> None)
     \<and> (Handler p \<in># T \<longrightarrow> map_of (am_connections m) (an_agent (as_identity s)) = Some p \<or> as_draining s \<or> Supersede p \<in># T)"

definition world_ok :: "manager_limits \<Rightarrow> agent_world \<Rightarrow> bool" where
  "world_ok k w \<longleftrightarrow> (case w of (m, T) \<Rightarrow>
     (\<forall>p s. am_heap m p = Some s \<longrightarrow> session_ok k m T p s)
     \<and> (\<forall>t \<in># T. am_heap m (about t) \<noteq> None)
     \<and> (\<forall>a p. map_of (am_connections m) a = Some p \<longrightarrow> (\<exists>s. am_heap m p = Some s \<and> an_agent (as_identity s) = a))
     \<and> (\<forall>c p. map_of (am_by_cluster m) c = Some p \<longrightarrow> am_heap m p \<noteq> None)
     \<and> (\<forall>a. am_taken m a = held (on_server a) T \<and> am_taken m a \<le> kl_server k a))"

lemma world_okI:
  assumes "\<And>p s. am_heap m p = Some s \<Longrightarrow> session_ok k m T p s"
    and "\<And>t. t \<in># T \<Longrightarrow> am_heap m (about t) \<noteq> None"
    and "\<And>a p. map_of (am_connections m) a = Some p \<Longrightarrow> \<exists>s. am_heap m p = Some s \<and> an_agent (as_identity s) = a"
    and "\<And>c p. map_of (am_by_cluster m) c = Some p \<Longrightarrow> am_heap m p \<noteq> None"
    and "\<And>a. am_taken m a = held (on_server a) T \<and> am_taken m a \<le> kl_server k a"
  shows "world_ok k (m, T)"
  unfolding world_ok_def prod.case using assms by blast

lemma world_okD:
  assumes "world_ok k (m, T)"
  shows "\<And>p s. am_heap m p = Some s \<Longrightarrow> session_ok k m T p s"
    and "\<And>t. t \<in># T \<Longrightarrow> am_heap m (about t) \<noteq> None"
    and "\<And>a p. map_of (am_connections m) a = Some p \<Longrightarrow> \<exists>s. am_heap m p = Some s \<and> an_agent (as_identity s) = a"
    and "\<And>c p. map_of (am_by_cluster m) c = Some p \<Longrightarrow> am_heap m p \<noteq> None"
    and "\<And>a. am_taken m a = held (on_server a) T" and "\<And>a. am_taken m a \<le> kl_server k a"
proof -
  note a = assms [unfolded world_ok_def prod.case]
  show "\<And>p s. am_heap m p = Some s \<Longrightarrow> session_ok k m T p s" using a by blast
  show "\<And>t. t \<in># T \<Longrightarrow> am_heap m (about t) \<noteq> None" using a by blast
  show "\<And>a p. map_of (am_connections m) a = Some p \<Longrightarrow> \<exists>s. am_heap m p = Some s \<and> an_agent (as_identity s) = a"
    using a by blast
  show "\<And>c p. map_of (am_by_cluster m) c = Some p \<Longrightarrow> am_heap m p \<noteq> None" using a by blast
  show "\<And>a. am_taken m a = held (on_server a) T" "\<And>a. am_taken m a \<le> kl_server k a" using a by blast+
qed

subsection \<open>Steps that count nothing\<close>

definition harmless :: "(agent_session \<Rightarrow> agent_session) \<Rightarrow> bool" where
  "harmless f \<longleftrightarrow>
     (\<forall>s. as_identity (f s) = as_identity s \<and> as_in_flight (f s) = as_in_flight s \<and> as_taken (f s) = as_taken s
        \<and> as_draining (f s) = as_draining s \<and> as_drain_finish (f s) = as_drain_finish s \<and> as_timer (f s) = as_timer s
        \<and> as_drain_done (f s) = as_drain_done s \<and> as_capabilities (f s) = as_capabilities s \<and> (as_closed s \<noteq> None \<longrightarrow> as_closed (f s) \<noteq> None))"

lemma harmless_id [simp]: "harmless (\<lambda>s. s)" "harmless id"
  by (simp_all add: harmless_def)

lemma harmless_comp: "harmless f \<Longrightarrow> harmless g \<Longrightarrow> harmless (f \<circ> g)"
  by (simp add: harmless_def)

lemma harmless_power: "harmless f \<Longrightarrow> harmless (f ^^ n)"
  by (induction n) (simp_all add: harmless_comp)

lemma harmless_changes [simp]:
  "harmless (set_disconnect_reason r)" "harmless (record_heartbeat at)" "harmless (close_with x)" "harmless (write_go_away g)"
  by (simp_all add: harmless_def set_disconnect_reason_def record_heartbeat_def close_with_def write_go_away_def split: option.split)

lemma harmless_revoke [simp]: "harmless (revoke_session e)"
proof -
  have "revoke_session e = close_with (if revocation_reason e = ''scope_suspended'' then ''Agent scope suspended'' else ''Agent access revoked'')
      \<circ> write_go_away (revocation_reason e) \<circ> set_disconnect_reason (revocation_reason e)"
    by (simp add: revoke_session_def fun_eq_iff)
  then show ?thesis by (simp add: harmless_comp)
qed

lemma session_ok_harmless: "harmless f \<Longrightarrow> session_ok k m T p s \<Longrightarrow> session_ok k m T p (f s)"
  unfolding harmless_def session_ok_def by metis

definition counts_alike :: "agent_manager \<Rightarrow> agent_manager \<Rightarrow> bool" where
  "counts_alike m m' \<longleftrightarrow>
     am_connections m' = am_connections m \<and> am_by_cluster m' = am_by_cluster m \<and> am_taken m' = am_taken m
     \<and> (\<forall>q. \<exists>f. harmless f \<and> am_heap m' q = map_option f (am_heap m q))"

lemma session_ok_registry: "am_connections m' = am_connections m \<Longrightarrow> session_ok k m' T p s = session_ok k m T p s"
  by (simp add: session_ok_def)

lemma counts_alike_ok:
  assumes ok: "world_ok k (m, T)" and alike: "counts_alike m m'"
  shows "world_ok k (m', T)"
proof (rule world_okI)
  have reg: "am_connections m' = am_connections m" "am_by_cluster m' = am_by_cluster m" "am_taken m' = am_taken m"
    using alike by (simp_all add: counts_alike_def)
  have heap: "\<exists>f. harmless f \<and> am_heap m' q = map_option f (am_heap m q)" for q
    using alike by (simp add: counts_alike_def)
  have none: "am_heap m' q = None \<longleftrightarrow> am_heap m q = None" for q using heap [of q] by auto
  show "session_ok k m' T p s'" if "am_heap m' p = Some s'" for p s'
  proof -
    obtain f where f: "harmless f" "am_heap m' p = map_option f (am_heap m p)" using heap by blast
    have "\<exists>s. am_heap m p = Some s \<and> s' = f s" using f(2) that by (cases "am_heap m p") auto
    then obtain s where s: "am_heap m p = Some s" "s' = f s" by blast
    show ?thesis
      using session_ok_harmless [OF f(1) world_okD(1) [OF ok s(1)]] s(2) session_ok_registry [OF reg(1)] by simp
  qed
  show "am_heap m' (about t) \<noteq> None" if "t \<in># T" for t using world_okD(2) [OF ok that] none by simp
  show "\<exists>s'. am_heap m' p = Some s' \<and> an_agent (as_identity s') = a" if c: "map_of (am_connections m') a = Some p" for a p
  proof -
    obtain s where s: "am_heap m p = Some s" "an_agent (as_identity s) = a"
      using world_okD(3) [OF ok c [unfolded reg]] by blast
    obtain f where "harmless f" "am_heap m' p = map_option f (am_heap m p)" using heap by blast
    then show ?thesis using s by (simp add: harmless_def)
  qed
  show "am_heap m' p \<noteq> None" if c: "map_of (am_by_cluster m') c = Some p" for c p
    using world_okD(4) [OF ok c [unfolded reg]] none by simp
  show "am_taken m' a = held (on_server a) T \<and> am_taken m' a \<le> kl_server k a" for a
    using world_okD(5,6) [OF ok] reg by simp
qed

lemma change_session_fields [simp]:
  "am_connections (change_session p f m) = am_connections m" "am_by_cluster (change_session p f m) = am_by_cluster m"
  "am_taken (change_session p f m) = am_taken m"
  "am_heap (change_session p f m) q = (if q = p then map_option f (am_heap m p) else am_heap m q)"
  by (simp_all add: change_session_def)

lemma counts_alike_change: "harmless f \<Longrightarrow> counts_alike m (change_session p f m)"
  unfolding counts_alike_def by (auto intro: exI [of _ f] exI [of _ id] simp: option.map_id0)

lemma counts_alike_trans: "counts_alike m m' \<Longrightarrow> counts_alike m' m'' \<Longrightarrow> counts_alike m m''"
  unfolding counts_alike_def by (metis (no_types, lifting) harmless_comp option.map_comp)

lemma counts_alike_refl [simp]: "counts_alike m m"
  unfolding counts_alike_def by (auto intro: exI [of _ id] simp: option.map_id0)

lemma counts_alike_each:
  assumes "harmless f" shows "counts_alike m (each_connected sel f m)"
proof -
  have "counts_alike m' (fold (\<lambda>(a, p) m'. case am_heap m p of Some s \<Rightarrow> if sel s then change_session p f m' else m' | None \<Rightarrow> m') xs m')"
    for xs m'
  proof (induction xs arbitrary: m')
    case Nil
    then show ?case by simp
  next
    case (Cons x xs)
    have "counts_alike m' (case x of (a, p) \<Rightarrow> case am_heap m p of Some s \<Rightarrow> if sel s then change_session p f m' else m' | None \<Rightarrow> m')"
      using counts_alike_change [OF assms] by (simp split: prod.split option.split)
    then show ?case using Cons.IH counts_alike_trans by (simp add: split_beta)
  qed
  then show ?thesis by (simp add: each_connected_def)
qed

lemma counts_alike_publish [simp]: "counts_alike m (publish_identity fresh i state at m)"
  by (auto simp: counts_alike_def publish_identity_def split: option.split intro: exI [of _ id] simp: option.map_id0)

lemma counts_alike_subscribers [simp]:
  "counts_alike m (snd (subscribe m))" "counts_alike m (unsubscribe i m)" "counts_alike m (publish_agent_status_change fresh j now m)"
  by (auto simp: counts_alike_def subscribe_def unsubscribe_def publish_agent_status_change_def publish_identity_def Let_def
      split: option.split intro: exI [of _ id] simp: option.map_id0)

subsection \<open>Steps that exchange threads of one session\<close>

lemma counted_about:
  "in_business p t \<Longrightarrow> about t = p" "on_session a p t \<Longrightarrow> about t = p" "t = Handler p \<Longrightarrow> about t = p"
  by (cases t; simp)+

lemma held_none: "(\<And>t. t \<in># T \<Longrightarrow> \<not> P t) \<Longrightarrow> held P T = 0"
  by (induction T) auto

lemma held_elsewhere:
  assumes "\<And>t. t \<in># R + N \<Longrightarrow> about t = p" and "q \<noteq> p" and "\<And>t. P t \<Longrightarrow> about t = q"
  shows "held P (U + N) = held P (U + R)"
proof -
  have "\<not> P t" if "t \<in># R + N" for t using assms(1) [OF that] assms(2,3) by blast
  then have "held P R = 0" "held P N = 0" by (auto intro!: held_none)
  then show ?thesis by simp
qed

lemma member_elsewhere:
  assumes "\<And>t. t \<in># R + N \<Longrightarrow> about t = p" and "about x \<noteq> p"
  shows "x \<in># U + N \<longleftrightarrow> x \<in># U + R"
  using assms(1) [of x] assms(2) by auto

lemma exchange:
  assumes ok: "world_ok k (m, U + R)" and at: "\<And>t. t \<in># R + N \<Longrightarrow> about t = p"
    and s: "am_heap m p = Some s" and heap: "am_heap m' = (am_heap m)(p \<mapsto> s')" and id: "as_identity s' = as_identity s"
    and conn: "\<And>a q. map_of (am_connections m') a = Some q \<Longrightarrow> map_of (am_connections m) a = Some q"
      "\<And>a q. map_of (am_connections m) a = Some q \<Longrightarrow> q \<noteq> p \<Longrightarrow> map_of (am_connections m') a = Some q"
      "\<And>c q. map_of (am_by_cluster m') c = Some q \<Longrightarrow> map_of (am_by_cluster m) c = Some q"
    and flight: "as_in_flight s' + held (in_business p) R = as_in_flight s + held (in_business p) N"
    and slots: "\<And>a. as_taken s' a + held (on_session a p) R = as_taken s a + held (on_session a p) N"
      "\<And>a. as_taken s' a \<le> kl_session k a"
    and server: "\<And>a. am_taken m' a + held (on_server a) R = am_taken m a + held (on_server a) N"
      "\<And>a. am_taken m' a \<le> kl_server k a"
    and rest: "held ((=) (Handler p)) (U + N) \<le> 1"
      "as_draining s' \<Longrightarrow> as_drain_finish s'
        \<and> (as_drain_done s' \<or> FinishDrain p \<in># U + N \<or> as_timer s' \<and> 0 < as_in_flight s')"
      "as_drain_done s' \<or> as_timer s' \<or> FinishDrain p \<in># U + N \<Longrightarrow> as_draining s'"
      "as_drain_done s' \<Longrightarrow> as_closed s' \<noteq> None"
      "Handler p \<in># U + N \<Longrightarrow> map_of (am_connections m') (an_agent (as_identity s)) = Some p \<or> as_draining s' \<or> Supersede p \<in># U + N"
  shows "world_ok k (m', U + N)"
proof (rule world_okI)
  note sp = world_okD(1) [OF ok s, unfolded session_ok_def]
  fix q x assume x: "am_heap m' q = Some x"
  show "session_ok k m' (U + N) q x"
  proof (cases "q = p")
    case True
    then have x': "x = s'" using x heap by simp
    have "as_in_flight s' = held (in_business p) (U + N)" using sp flight by simp
    moreover have "as_taken s' a = held (on_session a p) (U + N)" for a
    proof -
      have "as_taken s a = held (on_session a p) (U + R)" using sp by blast
      then show ?thesis using slots(1) [of a] by simp
    qed
    ultimately show ?thesis using rest slots(2) id True unfolding session_ok_def x' by metis
  next
    case False
    then have xm: "am_heap m q = Some x" using x heap by simp
    note ox = world_okD(1) [OF ok xm]
    have h: "held (in_business q) (U + N) = held (in_business q) (U + R)"
      "held ((=) (Handler q)) (U + N) = held ((=) (Handler q)) (U + R)"
      "\<And>a. held (on_session a q) (U + N) = held (on_session a q) (U + R)"
      by (rule held_elsewhere [OF at False]; auto dest: counted_about)+
    have mem: "FinishDrain q \<in># U + N \<longleftrightarrow> FinishDrain q \<in># U + R" "Handler q \<in># U + N \<longleftrightarrow> Handler q \<in># U + R"
      "Supersede q \<in># U + N \<longleftrightarrow> Supersede q \<in># U + R"
      by (rule member_elsewhere [OF at]; simp add: False)+
    have "map_of (am_connections m) a = Some q \<Longrightarrow> map_of (am_connections m') a = Some q" for a using conn(2) False by blast
    then show ?thesis using ox unfolding session_ok_def h mem by metis
  qed
next
  fix t assume "t \<in># U + N"
  then have "t \<in># U + R \<or> about t = p" using at by auto
  then show "am_heap m' (about t) \<noteq> None" using world_okD(2) [OF ok] heap by auto
next
  fix a q assume "map_of (am_connections m') a = Some q"
  from world_okD(3) [OF ok conn(1) [OF this]] show "\<exists>x. am_heap m' q = Some x \<and> an_agent (as_identity x) = a"
    using heap s id by auto
next
  fix c q assume "map_of (am_by_cluster m') c = Some q"
  from world_okD(4) [OF ok conn(3) [OF this]] show "am_heap m' q \<noteq> None" using heap by auto
next
  fix a show "am_taken m' a = held (on_server a) (U + N) \<and> am_taken m' a \<le> kl_server k a"
    using world_okD(5) [OF ok, of a] server [of a] by simp
qed

lemma heap_change: "am_heap m p = Some s \<Longrightarrow> am_heap (change_session p f m) = (am_heap m)(p \<mapsto> f s)"
  by (simp add: fun_eq_iff)

lemma take_out: "t \<in># T \<Longrightarrow> T = T - {#t#} + {#t#}"
  by simp

text \<open>The parts of a session that the drain and the handler look at, before and after.\<close>

lemma session_drain:
  assumes "world_ok k (m, T)" and "am_heap m p = Some s"
  shows "held ((=) (Handler p)) T \<le> 1" "as_draining s \<Longrightarrow> as_drain_finish s"
    "as_draining s \<Longrightarrow> as_drain_done s \<or> FinishDrain p \<in># T \<or> as_timer s \<and> 0 < as_in_flight s"
    "as_drain_done s \<Longrightarrow> as_closed s \<noteq> None"
    "as_drain_done s \<or> as_timer s \<or> FinishDrain p \<in># T \<Longrightarrow> as_draining s"
    "Handler p \<in># T \<Longrightarrow> map_of (am_connections m) (an_agent (as_identity s)) = Some p \<or> as_draining s \<or> Supersede p \<in># T"
    "\<And>a. as_taken s a \<le> kl_session k a" "as_in_flight s = held (in_business p) T" "\<And>a. as_taken s a = held (on_session a p) T"
  using world_okD(1) [OF assms] unfolding session_ok_def by blast+

lemma supersede_ok:
  assumes ok: "world_ok k (m, T)" and t: "Supersede q \<in># T" and s: "am_heap m q = Some s" and d: "start_drain s = (drained, s')"
  shows "world_ok k (change_session q (\<lambda>_. s') m, T - {#Supersede q#} + (if drained then {#FinishDrain q#} else {#}))"
proof -
  define U N where "U = T - {#Supersede q#}" and "N = (if drained then {#FinishDrain q#} else {#})"
  have T: "T = U + {#Supersede q#}" using take_out [OF t] by (simp add: U_def)
  note old = session_drain [OF ok [unfolded T] s]
  have same: "as_identity s' = as_identity s" "as_in_flight s' = as_in_flight s" "as_taken s' = as_taken s" "as_draining s'"
    "as_drain_done s' = as_drain_done s" "as_closed s' = as_closed s"
    using d by (auto simp: start_drain_def Let_def split: if_splits)
  have drains: "as_drain_finish s' \<and> (as_drain_done s' \<or> FinishDrain q \<in># U + N \<or> as_timer s' \<and> 0 < as_in_flight s')"
    using d old(2,3) by (cases "as_draining s") (auto simp: start_drain_def Let_def N_def)
  have "world_ok k (change_session q (\<lambda>_. s') m, U + N)"
  proof (rule exchange [OF ok [unfolded T] _ s heap_change [OF s]])
    show "about t = q" if "t \<in># {#Supersede q#} + N" for t using that by (auto simp: N_def split: if_splits)
    show "held ((=) (Handler q)) (U + N) \<le> 1" using old(1) by (simp add: N_def)
  qed (use world_okD(5,6) [OF ok] old same drains in \<open>auto simp: N_def\<close>)
  then show ?thesis by (simp add: U_def N_def)
qed

lemma finish_drain_keeps:
  "as_identity (finish_drain s) = as_identity s" "as_in_flight (finish_drain s) = as_in_flight s"
  "as_taken (finish_drain s) = as_taken s" "as_draining (finish_drain s) = as_draining s"
  "as_drain_finish (finish_drain s) = as_drain_finish s" "as_drain_done (finish_drain s)"
  "as_drain_finish s \<Longrightarrow> \<not> as_drain_done s \<Longrightarrow> as_closed (finish_drain s) \<noteq> None"
  "as_drain_done s \<Longrightarrow> finish_drain s = s"
  by (simp_all add: finish_drain_def Let_def replaced_finish_def set_disconnect_reason_def write_go_away_def close_with_def
      split: option.split)

lemma finish_ok:
  assumes ok: "world_ok k (m, T)" and t: "FinishDrain q \<in># T"
  shows "world_ok k (change_session q finish_drain m, T - {#FinishDrain q#})"
proof -
  define U where "U = T - {#FinishDrain q#}"
  have T: "T = U + {#FinishDrain q#}" using take_out [OF t] by (simp add: U_def)
  obtain s where s: "am_heap m q = Some s" using world_okD(2) [OF ok t] by auto
  note old = session_drain [OF ok [unfolded T] s]
  have d: "as_draining s" "as_drain_finish s" using old(2,5) by simp_all
  have closed: "as_closed (finish_drain s) \<noteq> None"
    using finish_drain_keeps(7,8) [of s] old(4) d(2) by (cases "as_drain_done s") simp_all
  have "world_ok k (change_session q finish_drain m, U + {#})"
  proof (rule exchange [OF ok [unfolded T] _ s heap_change [OF s]])
    show "held ((=) (Handler q)) (U + {#}) \<le> 1" using old(1) by simp
  qed (use world_okD(5,6) [OF ok] old d closed in \<open>auto simp: finish_drain_keeps\<close>)
  then show ?thesis by (simp add: U_def)
qed

lemma timer_ok:
  assumes ok: "world_ok k (m, T)" and s: "am_heap m q = Some s" and t: "as_timer s"
  shows "world_ok k (change_session q (\<lambda>s. s\<lparr>as_timer := False\<rparr>) m, add_mset (FinishDrain q) T)"
proof -
  have ok0: "world_ok k (m, T + {#})" using ok by simp
  note old = session_drain [OF ok s]
  have "world_ok k (change_session q (\<lambda>s. s\<lparr>as_timer := False\<rparr>) m, T + {#FinishDrain q#})"
  proof (rule exchange [OF ok0 _ s heap_change [OF s]])
    show "held ((=) (Handler q)) (T + {#FinishDrain q#}) \<le> 1" using old(1) by simp
  qed (use world_okD(5,6) [OF ok] old t in auto)
  then show ?thesis by simp
qed

lemma look_up_ok:
  assumes ok: "world_ok k (m, T)" and l: "look_up r cluster m = Inr t"
  shows "world_ok k (m, add_mset t T)"
proof -
  obtain p where p: "map_of (am_by_cluster m) cluster = Some p" "t = Request r p LookedUp"
    using l by (auto simp: look_up_def split: option.splits)
  obtain s where s: "am_heap m p = Some s" using world_okD(4) [OF ok p(1)] by auto
  have ok0: "world_ok k (m, T + {#})" using ok by simp
  note old = session_drain [OF ok s]
  have "world_ok k (m, T + {#Request r p LookedUp#})"
  proof (rule exchange [OF ok0 _ s])
    show "am_heap m = (am_heap m)(p \<mapsto> s)" using s by (simp add: fun_upd_idem)
    show "held ((=) (Handler p)) (T + {#Request r p LookedUp#}) \<le> 1" using old(1) by simp
  qed (use world_okD(5,6) [OF ok] old in auto)
  then show ?thesis by (simp add: p(2))
qed

text \<open>A request keeps the session's drain; what it counts is given per station.\<close>

lemma request_exchange:
  assumes ok: "world_ok k (m, T)" and t: "Request r p st \<in># T" and s: "am_heap m p = Some s"
    and heap: "am_heap m' = (am_heap m)(p \<mapsto> s')"
    and reg: "am_connections m' = am_connections m" "am_by_cluster m' = am_by_cluster m"
    and same: "as_identity s' = as_identity s" "as_draining s' = as_draining s" "as_drain_finish s' = as_drain_finish s"
      "as_timer s' = as_timer s" "as_drain_done s' = as_drain_done s" "as_closed s' = as_closed s"
    and ts: "\<forall>x \<in> set ts. (\<exists>st'. x = Request r p st') \<or> x = FinishDrain p \<and> as_draining s"
    and flight: "as_in_flight s' + (if in_business p (Request r p st) then 1 else 0) = as_in_flight s + length (filter (in_business p) ts)"
    and last: "as_draining s \<Longrightarrow> as_in_flight s' = 0 \<Longrightarrow> as_in_flight s = 0 \<or> FinishDrain p \<in> set ts"
    and slots: "\<And>a. as_taken s' a + (if on_session a p (Request r p st) then 1 else 0) = as_taken s a + length (filter (on_session a p) ts)"
      "\<And>a. as_taken s' a \<le> kl_session k a"
    and server: "\<And>a. am_taken m' a + (if on_server a (Request r p st) then 1 else 0) = am_taken m a + length (filter (on_server a) ts)"
      "\<And>a. am_taken m' a \<le> kl_server k a"
  shows "world_ok k (m', T - {#Request r p st#} + mset ts)"
proof -
  define U where "U = T - {#Request r p st#}"
  have T: "T = U + {#Request r p st#}" using take_out [OF t] by (simp add: U_def)
  note old = session_drain [OF ok [unfolded T] s]
  have no_handler: "filter ((=) (Handler p)) ts = []" using ts by (fastforce simp: filter_empty_conv)
  have mem: "Handler p \<in># U + mset ts \<longleftrightarrow> Handler p \<in># U" "Supersede p \<in># U + mset ts \<longleftrightarrow> Supersede p \<in># U"
    "FinishDrain p \<in># U \<Longrightarrow> FinishDrain p \<in># U + mset ts" "FinishDrain p \<in># U + mset ts \<Longrightarrow> FinishDrain p \<in># U \<or> as_draining s"
    using ts by auto
  have "world_ok k (m', U + mset ts)"
  proof (rule exchange [OF ok [unfolded T] _ s heap same(1)])
    show "about x = p" if "x \<in># {#Request r p st#} + mset ts" for x using that ts by auto
    show "held ((=) (Handler p)) (U + mset ts) \<le> 1" using old(1) no_handler by simp
    show "as_in_flight s' + held (in_business p) {#Request r p st#} = as_in_flight s + held (in_business p) (mset ts)"
      using flight by simp
    show "as_taken s' a + held (on_session a p) {#Request r p st#} = as_taken s a + held (on_session a p) (mset ts)" for a
      using slots(1) [of a] by simp
    show "am_taken m' a + held (on_server a) {#Request r p st#} = am_taken m a + held (on_server a) (mset ts)" for a
      using server(1) [of a] by simp
    show "as_drain_finish s' \<and> (as_drain_done s' \<or> FinishDrain p \<in># U + mset ts \<or> as_timer s' \<and> 0 < as_in_flight s')"
      if "as_draining s'"
      using old(2,3) that same mem(3) last by (cases "as_in_flight s' = 0") auto
    show "as_draining s'" if "as_drain_done s' \<or> as_timer s' \<or> FinishDrain p \<in># U + mset ts"
      using old(5) that same mem(4) by auto
    show "as_closed s' \<noteq> None" if "as_drain_done s'" using old(4) that same by simp
    show "map_of (am_connections m') (an_agent (as_identity s)) = Some p \<or> as_draining s' \<or> Supersede p \<in># U + mset ts"
      if "Handler p \<in># U + mset ts" using old(6) that same reg mem by auto
  qed (use reg slots(2) server(2) in simp_all)
  then show ?thesis by (simp add: U_def)
qed

lemma request_ok:
  assumes ok: "world_ok k (m, T)" and t: "Request r p st \<in># T" and s: "am_heap m p = Some s"
    and step: "request_step k r p st s m = (m', ts, e)"
  shows "world_ok k (m', T - {#Request r p st#} + mset ts)"
proof -
  note old = session_drain [OF ok s]
  note srv = world_okD(5,6) [OF ok]
  have same_heap: "am_heap m = (am_heap m)(p \<mapsto> s)" using s by (simp add: fun_upd_idem)
  note stay = request_exchange [OF ok t s same_heap refl refl refl refl refl refl refl refl]
  have positive: "0 < as_in_flight s" if "st \<noteq> LookedUp"
    using held_positive [OF t, of "in_business p"] old(8) that by simp
  have positive_slot: "0 < as_taken s (allowance_of r)" if "st \<in> {HasSession, LeavesSession}"
    using held_positive [OF t, of "on_session (allowance_of r) p"] old(9) that by simp
  have positive_server: "0 < am_taken m (allowance_of r)" if "st \<in> {HasServer, HasSession, LeavesSession, LeavesServer}"
    using held_positive [OF t, of "on_server (allowance_of r)"] srv(1) that by simp
  show ?thesis
  proof (cases st)
    case LookedUp
    show ?thesis
    proof (cases "as_draining s")
      case True
      then have r: "m' = m" "ts = []" using step LookedUp by (simp_all add: begin_business_def)
      show ?thesis unfolding r using old srv LookedUp by (intro stay) simp_all
    next
      case False
      then have r: "m' = change_session p (\<lambda>_. s\<lparr>as_in_flight := as_in_flight s + 1\<rparr>) m" "ts = [Request r p HasBusiness]"
        using step LookedUp by (simp_all add: begin_business_def)
      show ?thesis unfolding r(2)
        using old srv LookedUp r(1)
        by (intro request_exchange [OF ok t s, where s' = "s\<lparr>as_in_flight := as_in_flight s + 1\<rparr>"])
          (simp_all add: heap_change [OF s])
    qed
  next
    case HasBusiness
    then consider (gone) "m' = m" "ts = [Request r p LeavesBusiness]"
      | (slot) "m' = m\<lparr>am_taken := (am_taken m)(allowance_of r := am_taken m (allowance_of r) + 1)\<rparr>"
          "ts = [Request r p HasServer]" "am_taken m (allowance_of r) < kl_server k (allowance_of r)"
      using step by (auto simp: try_acquire_def split: option.splits if_splits)
    then show ?thesis
    proof cases
      case gone
      show ?thesis unfolding gone using old srv HasBusiness by (intro stay) simp_all
    next
      case slot
      show ?thesis unfolding slot(2)
        by (rule request_exchange [OF ok t s, where s' = s]) (use old srv HasBusiness slot same_heap in auto)
    qed
  next
    case HasServer
    then consider (gone) "m' = m" "ts = [Request r p LeavesServer]"
      | (slot) "m' = change_session p (\<lambda>s'. s'\<lparr>as_taken := (as_taken s)(allowance_of r := as_taken s (allowance_of r) + 1)\<rparr>) m"
          "ts = [Request r p HasSession]" "as_taken s (allowance_of r) < kl_session k (allowance_of r)"
      using step by (auto simp: try_acquire_def split: option.splits if_splits)
    then show ?thesis
    proof cases
      case gone
      show ?thesis unfolding gone using old srv HasServer by (intro stay) simp_all
    next
      case slot
      show ?thesis unfolding slot(2)
        by (rule request_exchange [OF ok t s, where s' = "s\<lparr>as_taken := (as_taken s)(allowance_of r := as_taken s (allowance_of r) + 1)\<rparr>"])
          (use old srv HasServer slot heap_change [OF s] in auto)
    qed
  next
    case HasSession
    then have r: "m' = m" "ts = [Request r p LeavesSession]" using step by simp_all
    show ?thesis unfolding r using old srv HasSession by (intro stay) simp_all
  next
    case LeavesSession
    then have r: "m' = change_session p (\<lambda>s. s\<lparr>as_taken := release_slot (allowance_of r) (as_taken s)\<rparr>) m"
        "ts = [Request r p LeavesServer]" using step by simp_all
    show ?thesis unfolding r(2)
      by (rule request_exchange [OF ok t s, where s' = "s\<lparr>as_taken := release_slot (allowance_of r) (as_taken s)\<rparr>"])
        (use old srv LeavesSession r positive_slot heap_change [OF s] in \<open>auto simp: release_slot_def intro: le_trans [OF diff_le_self]\<close>)
  next
    case LeavesServer
    then have r: "m' = m\<lparr>am_taken := release_slot (allowance_of r) (am_taken m)\<rparr>" "ts = [Request r p LeavesBusiness]"
      using step by simp_all
    show ?thesis unfolding r(2)
      by (rule request_exchange [OF ok t s, where s' = s])
        (use old srv LeavesServer r positive_server same_heap in \<open>auto simp: release_slot_def intro: le_trans [OF diff_le_self]\<close>)
  next
    case LeavesBusiness
    let ?s' = "s\<lparr>as_in_flight := as_in_flight s - 1\<rparr>"
    have r: "m' = change_session p (\<lambda>_. ?s') m"
        "ts = (if as_draining s \<and> as_in_flight ?s' = 0 then [FinishDrain p] else [])"
      using step LeavesBusiness by (simp_all add: end_business_def Let_def)
    show ?thesis
      by (rule request_exchange [OF ok t s, where s' = ?s'])
        (use old srv LeavesBusiness r positive heap_change [OF s] in auto)
  qed
qed

lemma publish_fields [simp]:
  "am_heap (publish_identity fresh i st at m) = am_heap m" "am_connections (publish_identity fresh i st at m) = am_connections m"
  "am_by_cluster (publish_identity fresh i st at m) = am_by_cluster m" "am_taken (publish_identity fresh i st at m) = am_taken m"
  "am_last (publish_identity fresh i st at m) = am_last m" "am_order (publish_identity fresh i st at m) = am_order m"
  by (simp_all add: publish_identity_def split: option.split)

lemma remember_fields [simp]:
  "am_heap (remember_disconnect k a st m) = am_heap m" "am_connections (remember_disconnect k a st m) = am_connections m"
  "am_by_cluster (remember_disconnect k a st m) = am_by_cluster m" "am_taken (remember_disconnect k a st m) = am_taken m"
  by (simp_all add: remember_disconnect_def split: prod.split)

lemma unregister_fields:
  "am_heap (unregister_session k fresh now p s m) = am_heap m" "am_taken (unregister_session k fresh now p s m) = am_taken m"
  "map_of (am_connections (unregister_session k fresh now p s m)) =
     (if map_of (am_connections m) (an_agent (as_identity s)) = Some p
      then (map_of (am_connections m))(an_agent (as_identity s) := None) else map_of (am_connections m))"
  "map_of (am_by_cluster (unregister_session k fresh now p s m)) =
     (if map_of (am_connections m) (an_agent (as_identity s)) = Some p
         \<and> map_of (am_by_cluster m) (an_cluster (as_identity s)) = Some p
      then (map_of (am_by_cluster m))(an_cluster (as_identity s) := None) else map_of (am_by_cluster m))"
  by (simp_all add: unregister_session_def Let_def AList.delete_conv')

lemma unregister_ok:
  assumes ok: "world_ok k (m, T)" and t: "Handler p \<in># T" and s: "am_heap m p = Some s"
  shows "world_ok k (unregister_session k fresh now p s m, T - {#Handler p#})"
proof -
  define U where "U = T - {#Handler p#}"
  have T: "T = U + {#Handler p#}" using take_out [OF t] by (simp add: U_def)
  note old = session_drain [OF ok [unfolded T] s]
  have gone: "Handler p \<notin># U"
  proof
    assume "Handler p \<in># U"
    then have "0 < held ((=) (Handler p)) U" by (rule held_positive) simp
    then show False using old(1) by simp
  qed
  let ?m = "unregister_session k fresh now p s m"
  have "world_ok k (?m, U + {#})"
  proof (rule exchange [OF ok [unfolded T] _ s])
    show "am_heap ?m = (am_heap m)(p \<mapsto> s)" using s by (simp add: unregister_fields fun_upd_idem)
    show "map_of (am_connections m) a = Some q" if "map_of (am_connections ?m) a = Some q" for a q
      using that by (auto simp: unregister_fields split: if_splits)
    show "map_of (am_connections ?m) a = Some q" if "map_of (am_connections m) a = Some q" "q \<noteq> p" for a q
      using that by (auto simp: unregister_fields)
    show "map_of (am_by_cluster m) c = Some q" if "map_of (am_by_cluster ?m) c = Some q" for c q
      using that by (auto simp: unregister_fields split: if_splits)
    show "held ((=) (Handler p)) (U + {#}) \<le> 1" using old(1) by simp
  qed (use world_okD(5,6) [OF ok] old gone in \<open>auto simp: unregister_fields\<close>)
  then show ?thesis by (simp add: U_def)
qed

lemma connect_ok:
  assumes ok: "world_ok k (m, T)" and free: "am_heap m p = None" and s: "s = new_session i c now caps"
    and reg: "register_session fresh p s (m\<lparr>am_heap := (am_heap m)(p \<mapsto> s)\<rparr>) = (prev, m')"
  shows "world_ok k (m', add_mset (Handler p) (case prev of None \<Rightarrow> T | Some q \<Rightarrow> add_mset (Supersede q) T))"
proof -
  let ?a = "an_agent (as_identity s)" and ?T = "case prev of None \<Rightarrow> T | Some q \<Rightarrow> add_mset (Supersede q) T"
  have none: "about t \<noteq> p" if "t \<in># T" for t using world_okD(2) [OF ok that] free by auto
  have zero: "held P T = 0" if "\<And>t. P t \<Longrightarrow> about t = p" for P using none that by (intro held_none) blast
  have m': "am_heap m' = (am_heap m)(p \<mapsto> s)" "map_of (am_connections m') = (map_of (am_connections m))(?a \<mapsto> p)"
    "map_of (am_by_cluster m') = (map_of (am_by_cluster m))(an_cluster (as_identity s) \<mapsto> p)" "am_taken m' = am_taken m"
    "prev = map_of (am_connections m) ?a"
    using reg by (auto simp: register_session_def AList.update_conv')
  have prev: "q \<noteq> p" if "prev = Some q" for q using world_okD(3) [OF ok that [unfolded m'(5)]] free by auto
  have same: "held P (add_mset (Handler p) ?T) = held P T + (if P (Handler p) then 1 else 0)" if "\<And>q. \<not> P (Supersede q)" for P
    using that by (simp split: option.split)
  have counts: "held (in_business q) (add_mset (Handler p) ?T) = held (in_business q) T"
    "held (on_session a q) (add_mset (Handler p) ?T) = held (on_session a q) T"
    "held (on_server a) (add_mset (Handler p) ?T) = held (on_server a) T" for a q
    by (subst same; simp)+
  show ?thesis
  proof (rule world_okI)
    fix q x assume x: "am_heap m' q = Some x"
    show "session_ok k m' (add_mset (Handler p) ?T) q x"
    proof (cases "q = p")
      case True
      then have "x = s" using x m'(1) by simp
      moreover have "FinishDrain p \<notin># add_mset (Handler p) ?T" using none [of "FinishDrain p"] by (auto split: option.splits)
      moreover have "held (in_business p) T = 0" "\<And>a. held (on_session a p) T = 0" "held ((=) (Handler p)) T = 0"
        using zero counted_about by metis+
      moreover have "held ((=) (Handler p)) (add_mset (Handler p) ?T) = held ((=) (Handler p)) T + 1" by (subst same) simp_all
      moreover have "an_agent (as_identity s) = an_agent (agent_identity.truncate c)" by (simp add: s new_session_def)
      ultimately show ?thesis
        unfolding session_ok_def True counts using m'(2) by (simp add: s new_session_def)
    next
      case False
      then have xm: "am_heap m q = Some x" using x m'(1) by simp
      note old = session_drain [OF ok xm]
      have "held ((=) (Handler q)) (add_mset (Handler p) ?T) = held ((=) (Handler q)) T" using False by (subst same) auto
      moreover have "FinishDrain q \<in># add_mset (Handler p) ?T \<longleftrightarrow> FinishDrain q \<in># T" "Handler q \<in># add_mset (Handler p) ?T \<longleftrightarrow> Handler q \<in># T"
        using False by (auto split: option.splits)
      moreover have "Supersede q \<in># T \<Longrightarrow> Supersede q \<in># add_mset (Handler p) ?T" by (auto split: option.splits)
      moreover have "Supersede q \<in># add_mset (Handler p) ?T"
        if "map_of (am_connections m) (an_agent (as_identity x)) = Some q" "map_of (am_connections m') (an_agent (as_identity x)) \<noteq> Some q"
        using that m'(2,5) by (auto split: if_splits)
      ultimately show ?thesis
        unfolding session_ok_def counts using old by auto
    qed
  next
    fix t assume "t \<in># add_mset (Handler p) ?T"
    then have "about t = p \<or> t \<in># T \<or> (\<exists>q. prev = Some q \<and> t = Supersede q)" by (auto split: option.splits)
    moreover have "am_heap m q \<noteq> None" if "prev = Some q" for q using world_okD(3) [OF ok that [unfolded m'(5)]] by auto
    ultimately show "am_heap m' (about t) \<noteq> None" using world_okD(2) [OF ok] m'(1) by auto
  next
    fix a q assume "map_of (am_connections m') a = Some q"
    then show "\<exists>x. am_heap m' q = Some x \<and> an_agent (as_identity x) = a"
      using world_okD(3) [OF ok, of a q] m'(1,2) free by (auto split: if_splits)
  next
    fix d q assume "map_of (am_by_cluster m') d = Some q"
    then show "am_heap m' q \<noteq> None" using world_okD(4) [OF ok, of d q] m'(1,3) by (auto split: if_splits)
  next
    fix a show "am_taken m' a = held (on_server a) (add_mset (Handler p) ?T) \<and> am_taken m' a \<le> kl_server k a"
      using world_okD(5,6) [OF ok] m'(4) counts by simp
  qed
qed

lemma step_ok: "agent_step k w w' \<Longrightarrow> world_ok k w \<Longrightarrow> world_ok k w'"
proof (induction rule: agent_step.induct)
  case (step_connect m p fresh i c now sink hello prev m' T)
  from connect_ok [OF step_connect.prems step_connect.hyps(1) refl step_connect.hyps(2)] show ?case .
next
  case (step_supersede q T m s drained s')
  from supersede_ok [OF step_supersede.prems step_supersede.hyps] show ?case .
next
  case (step_timer m q s T)
  from timer_ok [OF step_timer.prems step_timer.hyps] show ?case .
next
  case (step_finish q T m)
  from finish_ok [OF step_finish.prems step_finish.hyps] show ?case .
next
  case (step_unregister p T m s fresh now)
  from unregister_ok [OF step_unregister.prems step_unregister.hyps] show ?case .
next
  case (step_look_up r cluster m t T)
  from look_up_ok [OF step_look_up.prems step_look_up.hyps] show ?case .
next
  case (step_request r p st T m s m' ts e)
  from request_ok [OF step_request.prems step_request.hyps] show ?case .
next
  case (step_revoke m T e)
  from counts_alike_ok [OF step_revoke.prems counts_alike_each [OF harmless_revoke]] show ?case by (simp add: handle_revocation_def)
next
  case (step_close_all m T)
  have "harmless (close_with ''server shutdown'' \<circ> write_go_away ''server_shutdown'' \<circ> set_disconnect_reason ''server_shutdown'')"
    by (simp add: harmless_comp)
  from counts_alike_ok [OF step_close_all.prems counts_alike_each [OF this]] show ?case by (simp add: close_all_def comp_def)
qed (erule counts_alike_ok; simp add: counts_alike_change)+

lemma reachable_ok: "agent_reach k w \<Longrightarrow> world_ok k w"
proof (induction rule: agent_reach.induct)
  case reach_start
  show ?case by (rule world_okI) (simp_all add: new_manager_def)
next
  case (reach_step w w')
  then show ?case using step_ok by blast
qed

end
