(* ===== verification/AgentDrains.thy ===== *)
theory AgentDrains
  imports AgentRegistry
begin

section \<open>Replaced connections, running requests, remembered disconnections\<close>

text \<open>
  What follows from the invariant for the connections and the requests of an Agent: a session only moves
  forward, requests run where they are supported and within the allowances, a replaced connection is
  closed. The last part is a run that makes the table of disconnections grow past its limit.
\<close>

subsection \<open>A session moves forward\<close>

definition moves_on :: "agent_session \<Rightarrow> agent_session \<Rightarrow> bool" where
  "moves_on s s' \<longleftrightarrow>
     as_capabilities s' = as_capabilities s \<and> as_identity s' = as_identity s
     \<and> (as_draining s \<longrightarrow> as_draining s') \<and> (as_closed s \<noteq> None \<longrightarrow> as_closed s' \<noteq> None)"

lemma moves_on_refl [simp]: "moves_on s s" by (simp add: moves_on_def)

lemma harmless_moves_on: "harmless f \<Longrightarrow> moves_on s (f s)"
  unfolding harmless_def moves_on_def by metis

lemma alike_moves_on:
  assumes "counts_alike m m'" and "am_heap m p = Some s"
  shows "\<exists>s'. am_heap m' p = Some s' \<and> moves_on s s'"
proof -
  obtain f where "harmless f" "am_heap m' p = map_option f (am_heap m p)" using assms(1) by (auto simp: counts_alike_def)
  then show ?thesis using assms(2) harmless_moves_on by simp
qed

lemma changed_moves_on:
  assumes "am_heap m p = Some s" and "\<And>x. am_heap m q = Some x \<Longrightarrow> moves_on x (f x)"
  shows "\<exists>s'. am_heap (change_session q f m) p = Some s' \<and> moves_on s s'"
  using assms(1) assms(2) [of s] by auto

lemma finish_moves_on: "moves_on s (finish_drain s)"
  by (simp add: moves_on_def finish_drain_def Let_def replaced_finish_def set_disconnect_reason_def write_go_away_def
      close_with_def split: option.split)

lemma request_moves_on:
  assumes "request_step k r q st x m = (m', ts, e)" and "am_heap m q = Some x" and "am_heap m p = Some s"
  shows "\<exists>s'. am_heap m' p = Some s' \<and> moves_on s s'"
  using assms
  by (cases st)
    (auto simp: begin_business_def end_business_def Let_def moves_on_def split: if_splits option.splits)

lemma step_moves_on:
  "agent_step k w w' \<Longrightarrow> am_heap (fst w) p = Some s \<Longrightarrow> \<exists>s'. am_heap (fst w') p = Some s' \<and> moves_on s s'"
proof (induction rule: agent_step.induct)
  case (step_connect m q fresh i c now sink hello prev m' T)
  then have "p \<noteq> q" by auto
  moreover have "am_heap m' = (am_heap m)(q \<mapsto> new_session i c now (agreed_capabilities sink hello))"
    using step_connect.hyps(2) by (auto simp: register_session_def)
  ultimately show ?case using step_connect.prems by simp
next
  case (step_supersede q T m x drained x')
  then show ?case by (auto simp: start_drain_def Let_def moves_on_def split: if_splits)
next
  case (step_timer m q x T)
  then show ?case by (auto simp: moves_on_def)
next
  case (step_finish q T m)
  then show ?case using changed_moves_on [where f = finish_drain, OF _ finish_moves_on] by (simp only: fst_conv)
next
  case (step_unregister q T m x fresh now)
  then show ?case by (simp add: unregister_fields)
next
  case (step_request r q st T m x m' ts e)
  then show ?case using request_moves_on [of k r q st x m m' ts e p s] by simp
next
  case (step_revoke m T e)
  then show ?case using alike_moves_on [OF counts_alike_each [OF harmless_revoke]] by (simp add: handle_revocation_def)
next
  case (step_close_all m T)
  have "harmless (close_with ''server shutdown'' \<circ> write_go_away ''server_shutdown'' \<circ> set_disconnect_reason ''server_shutdown'')"
    by (simp add: harmless_comp)
  from alike_moves_on [OF counts_alike_each [OF this]] show ?case using step_close_all by (simp add: close_all_def comp_def)
next
  case (step_look_up r cluster m t T)
  then show ?case by simp
qed (simp only: fst_conv, erule alike_moves_on [rotated], simp add: counts_alike_change)+

subsection \<open>Capabilities\<close>

lemma agreed_offered: "c \<in> set (agreed_capabilities sink hello) \<Longrightarrow> c \<in> set hello"
  by (auto simp: agreed_capabilities_def Let_def split: if_splits)

lemma missing_none: "missing_capability caps cs = None \<longleftrightarrow> fst ` set cs \<subseteq> set caps"
  by (induction cs) (auto split: if_splits)

definition supported_ok :: "agent_world \<Rightarrow> bool" where
  "supported_ok w \<longleftrightarrow> (case w of (m, T) \<Rightarrow>
     (\<forall>p s. am_heap m p = Some s \<longrightarrow> (\<exists>sink hello. as_capabilities s = agreed_capabilities sink hello))
     \<and> (\<forall>r p st. Request r p st \<in># T \<longrightarrow> st \<in> {HasServer, HasSession, LeavesSession, LeavesServer} \<longrightarrow>
          (\<exists>s. am_heap m p = Some s \<and> missing_capability (as_capabilities s) (needed_capabilities r) = None)))"

text \<open>Threads that appear in a step: only a request that stood at business gets a slot.\<close>

lemma request_step_supported:
  assumes "request_step k r p st s m = (m', ts, e)" and "Request r' p' st' \<in> set ts"
    and "st' \<in> {HasServer, HasSession, LeavesSession, LeavesServer}"
  shows "r' = r \<and> p' = p
    \<and> (st \<in> {HasServer, HasSession, LeavesSession, LeavesServer}
       \<or> st = HasBusiness \<and> missing_capability (as_capabilities s) (needed_capabilities r) = None)"
  using assms
  by (cases st) (auto simp: begin_business_def end_business_def Let_def split: if_splits option.splits)

lemma new_requests:
  assumes "agent_step k (m, T) (m', T')" and "Request r p st \<in># T'" and "Request r p st \<notin># T"
    and "st \<in> {HasServer, HasSession, LeavesSession, LeavesServer}"
  shows "\<exists>st0 s. Request r p st0 \<in># T \<and> am_heap m p = Some s
    \<and> (st0 \<in> {HasServer, HasSession, LeavesSession, LeavesServer}
       \<or> missing_capability (as_capabilities s) (needed_capabilities r) = None)"
  using assms(1)
proof (cases rule: agent_step.cases)
  case (step_request r' p' st' s ts e)
  then have "Request r p st \<in> set ts" using assms(2,3) by (auto dest: in_diffD)
  from request_step_supported [OF step_request(4) this assms(4)] step_request show ?thesis by blast
qed (use assms(2-4) in \<open>auto simp: look_up_def split: option.splits if_splits dest: in_diffD\<close>)

lemma each_none: "harmless f \<Longrightarrow> am_heap m p = None \<Longrightarrow> am_heap (each_connected sel f m) p = None"
proof -
  assume f: "harmless f" and n: "am_heap m p = None"
  obtain g where "am_heap (each_connected sel f m) p = map_option g (am_heap m p)"
    using counts_alike_each [OF f, of m sel] unfolding counts_alike_def by blast
  then show ?thesis using n by simp
qed

lemma step_supported: "agent_step k w w' \<Longrightarrow> supported_ok w \<Longrightarrow> supported_ok w'"
proof -
  assume st: "agent_step k w w'" and ok: "supported_ok w"
  obtain m T m' T' where w: "w = (m, T)" "w' = (m', T')" by fastforce
  have go: "\<exists>s'. am_heap m' p = Some s' \<and> moves_on s s'" if "am_heap m p = Some s" for p s
    using step_moves_on [OF st, of p s] that by (simp add: w)
  have caps: "\<exists>sink hello. as_capabilities s' = agreed_capabilities sink hello" if s': "am_heap m' p = Some s'" for p s'
  proof (cases "am_heap m p")
    case (Some s)
    obtain sink hello where "as_capabilities s = agreed_capabilities sink hello"
      using ok Some unfolding supported_ok_def w prod.case by blast
    then show ?thesis using go [OF Some] s' by (auto simp: moves_on_def)
  next
    case None
    show ?thesis using st [unfolded w] None s'
    proof (cases rule: agent_step.cases)
      case (step_connect q fresh i c now sink hello prev)
      then have "am_heap m' = (am_heap m)(q \<mapsto> new_session i c now (agreed_capabilities sink hello))"
        by (auto simp: register_session_def)
      then have "as_capabilities s' = agreed_capabilities sink hello"
        using None s' by (auto simp: new_session_def split: if_splits)
      then show ?thesis by blast
    next
      case (step_request r q st s ts e)
      then show ?thesis using None s'
        by (cases st) (auto simp: begin_business_def end_business_def Let_def split: if_splits option.splits)
    next
      case (step_revoke e)
      then show ?thesis using None s' each_none [OF harmless_revoke] by (simp add: handle_revocation_def)
    next
      case step_close_all
      have "harmless (close_with ''server shutdown'' \<circ> write_go_away ''server_shutdown'' \<circ> set_disconnect_reason ''server_shutdown'')"
        by (simp add: harmless_comp)
      then show ?thesis using step_close_all None s' each_none by (simp add: close_all_def comp_def)
    qed (use None s' in \<open>auto simp: unregister_fields subscribe_def unsubscribe_def publish_agent_status_change_def Let_def split: if_splits\<close>)
  qed
  have "\<exists>s'. am_heap m' p = Some s' \<and> missing_capability (as_capabilities s') (needed_capabilities r) = None"
    if r: "Request r p x \<in># T'" and x: "x \<in> {HasServer, HasSession, LeavesSession, LeavesServer}" for r p x
  proof -
    have "\<exists>s. am_heap m p = Some s \<and> missing_capability (as_capabilities s) (needed_capabilities r) = None"
    proof (cases "Request r p x \<in># T")
      case True
      then show ?thesis using ok x unfolding supported_ok_def w prod.case by blast
    next
      case False
      from new_requests [OF st [unfolded w] r False x] show ?thesis using ok unfolding supported_ok_def w prod.case by blast
    qed
    then obtain s where s: "am_heap m p = Some s" "missing_capability (as_capabilities s) (needed_capabilities r) = None" by blast
    from go [OF s(1)] obtain s' where "am_heap m' p = Some s'" "as_capabilities s' = as_capabilities s"
      unfolding moves_on_def by blast
    then show ?thesis using s(2) by simp
  qed
  then show ?thesis using caps unfolding supported_ok_def w prod.case by blast
qed

lemma reachable_supported: "agent_reach k w \<Longrightarrow> supported_ok w"
proof (induction rule: agent_reach.induct)
  case reach_start
  show ?case by (simp add: supported_ok_def new_manager_def)
next
  case (reach_step w w')
  then show ?case using step_supported by blast
qed

subsection \<open>Runs\<close>

text \<open>Steps of a run, with the world each leads to.\<close>

definition guest :: "string \<Rightarrow> certificate_identity" where
  "guest agent = \<lparr>an_tenant = ''t'', an_project = ''p'', an_cluster = ''c'', an_agent = agent, an_serial = ''1'', an_expires = 1000\<rparr>"

definition connected :: "string \<Rightarrow> nat \<Rightarrow> string list \<Rightarrow> agent_manager \<Rightarrow> agent_manager" where
  "connected agent p hello m =
     snd (register_session None p (new_session ''i'' (guest agent) 0 (agreed_capabilities False hello))
       (m\<lparr>am_heap := (am_heap m)(p \<mapsto> new_session ''i'' (guest agent) 0 (agreed_capabilities False hello))\<rparr>))"

lemma connected_fields [simp]:
  "am_heap (connected agent p hello m) = (am_heap m)(p \<mapsto> new_session ''i'' (guest agent) 0 (agreed_capabilities False hello))"
  "am_connections (connected agent p hello m) = AList.update agent p (am_connections m)"
  "am_by_cluster (connected agent p hello m) = AList.update ''c'' p (am_by_cluster m)"
  "am_last (connected agent p hello m) = am_last m" "am_order (connected agent p hello m) = am_order m"
  "am_taken (connected agent p hello m) = am_taken m"
  by (simp_all add: connected_def register_session_def publish_identity_def new_session_def guest_def agent_identity.truncate_def)

lemma guest_fields [simp]:
  "an_agent (as_identity (new_session i (guest agent) now caps)) = agent"
  "an_cluster (as_identity (new_session i (guest agent) now caps)) = ''c''"
  by (simp_all add: new_session_def guest_def agent_identity.truncate_def)

lemma run_connect:
  assumes "agent_reach k (m, T)" and "am_heap m p = None"
  shows "agent_reach k (connected agent p hello m,
    add_mset (Handler p) (case map_of (am_connections m) agent of None \<Rightarrow> T | Some q \<Rightarrow> add_mset (Supersede q) T))"
proof (rule reach_step [OF assms(1)])
  show "agent_step k (m, T) (connected agent p hello m,
    add_mset (Handler p) (case map_of (am_connections m) agent of None \<Rightarrow> T | Some q \<Rightarrow> add_mset (Supersede q) T))"
    by (rule step_connect [where p = p and c = "guest agent" and fresh = None and i = "''i''" and now = 0 and sink = False and hello = hello])
      (simp_all add: assms(2) connected_def register_session_def prod_eq_iff)
qed

lemma run_request:
  assumes "agent_reach k (m, add_mset (Request r p st) T)" and "am_heap m p \<noteq> None"
    and "fst (snd (request_step k r p st (the (am_heap m p)) m)) = ts"
  shows "agent_reach k (fst (request_step k r p st (the (am_heap m p)) m), T + mset ts)"
proof -
  obtain s where s: "am_heap m p = Some s" using assms(2) by blast
  obtain m' ts' e where "request_step k r p st s m = (m', ts', e)" by (cases "request_step k r p st s m")
  moreover from this have "agent_reach k (m', add_mset (Request r p st) T - {#Request r p st#} + mset ts')"
    by (intro reach_step [OF assms(1) step_request [OF _ s]]) auto
  ultimately show ?thesis using assms(3) s by simp
qed

lemma run_look_up:
  assumes "agent_reach k (m, T)" and "map_of (am_by_cluster m) cluster = Some p"
  shows "agent_reach k (m, add_mset (Request r p LookedUp) T)"
  by (rule reach_step [OF assms(1)], rule step_look_up [where r = r and cluster = cluster]) (simp add: look_up_def assms(2))

lemma run_unregister:
  assumes "agent_reach k (m, add_mset (Handler p) T)" and "am_heap m p = Some s"
  shows "agent_reach k (unregister_session k None now p s m, T)"
  using reach_step [OF assms(1) step_unregister [OF _ assms(2), where fresh = None and now = now]] by simp


subsection \<open>Slots and requests\<close>

text \<open>C17: In every reachable world of the connection manager the slots taken of the Server's allowances and of
each session's allowances are exactly the requests that hold one, they never exceed the configured limits,
and a session counts in flight exactly the requests that began business on it: nothing is leaked on any of
the error paths and nothing is given back twice.\<close>

theorem slots_are_the_requests:
  assumes "agent_reach k (m, T)"
  shows "am_taken m a = held (on_server a) T \<and> am_taken m a \<le> kl_server k a
    \<and> (\<forall>p s. am_heap m p = Some s \<longrightarrow>
         as_in_flight s = held (in_business p) T \<and> as_taken s a = held (on_session a p) T
         \<and> as_taken s a \<le> kl_session k a)"
  using world_okD(5,6) [OF reachable_ok [OF assms]] session_drain(7-9) [OF reachable_ok [OF assms]] by metis

definition one_slot :: manager_limits where
  "one_slot = \<lparr>kl_remembered = 1, kl_server = (\<lambda>_. 1), kl_session = (\<lambda>_. 1), kl_interval = 60\<rparr>"

definition logs_hello :: "string list" where "logs_hello = [cap_pod_logs]"

definition advance :: "station \<Rightarrow> agent_manager \<Rightarrow> agent_manager" where
  "advance st m = fst (request_step one_slot PodLogs 0 st (the (am_heap m 0)) m)"

definition with_running :: agent_manager where
  "with_running = advance HasServer (advance HasBusiness (advance LookedUp (connected ''a'' 0 logs_hello new_manager)))"

lemma advance_simps [simp]:
  "am_heap (connected ''a'' 0 logs_hello new_manager) 0 = Some (new_session ''i'' (guest ''a'') 0 [cap_pod_logs])"
  "advance LookedUp (connected ''a'' 0 logs_hello new_manager)
   = change_session 0 (\<lambda>_. (new_session ''i'' (guest ''a'') 0 [cap_pod_logs])\<lparr>as_in_flight := 1\<rparr>)
       (connected ''a'' 0 logs_hello new_manager)"
  by (simp_all add: advance_def begin_business_def new_session_def agreed_capabilities_def logs_hello_def capability_names)

lemma empty_taken: "am_taken new_manager = (\<lambda>_. 0)" "kl_server one_slot = (\<lambda>_. 1)" "kl_session one_slot = (\<lambda>_. 1)"
  by (simp_all add: new_manager_def one_slot_def)

lemma with_running_reached: "agent_reach one_slot (with_running, {#Handler 0#} + mset [Request PodLogs 0 HasSession])"
proof -
  let ?m = "connected ''a'' 0 logs_hello new_manager"
  have "agent_reach one_slot (?m, {#Handler 0#})"
    using run_connect [OF reach_start, of 0 one_slot "''a''" logs_hello] by (simp add: new_manager_def)
  then have "agent_reach one_slot (?m, {#Request PodLogs 0 LookedUp, Handler 0#})"
    by (rule run_look_up [where cluster = "''c''"]) (simp add: new_manager_def)
  then have 1: "agent_reach one_slot (advance LookedUp ?m, {#Handler 0#} + mset [Request PodLogs 0 HasBusiness])"
    unfolding advance_def by (rule run_request) (simp_all add: begin_business_def new_session_def)
  have 2: "agent_reach one_slot (advance HasBusiness (advance LookedUp ?m), {#Handler 0#} + mset [Request PodLogs 0 HasServer])"
    unfolding advance_def [of HasBusiness]
    by (rule run_request) (use 1 in \<open>simp_all add: new_session_def try_acquire_def empty_taken\<close>)
  show ?thesis
    unfolding with_running_def advance_def [of HasServer]
    by (rule run_request)
      (use 2 in \<open>simp_all add: advance_def [of HasBusiness] new_session_def try_acquire_def empty_taken\<close>)
qed

theorem slots_are_the_requests_witness:
  "am_taken with_running ForPodLogs = 1 \<and> am_taken with_running ForHelm = 0"
  using slots_are_the_requests [OF with_running_reached, of ForPodLogs] slots_are_the_requests [OF with_running_reached, of ForHelm]
  by simp

text \<open>C21: A request that runs against an Agent runs on a session whose hello offered every capability the
request needs; the session's capabilities are what was agreed on at its hello, whatever happened since.\<close>

theorem requests_run_where_supported:
  assumes "agent_reach k (m, T)" and "Request r p HasSession \<in># T"
  shows "\<exists>s sink hello. am_heap m p = Some s \<and> as_capabilities s = agreed_capabilities sink hello
    \<and> fst ` set (needed_capabilities r) \<subseteq> set hello"
proof -
  note ok = reachable_supported [OF assms(1), unfolded supported_ok_def prod.case]
  obtain s where s: "am_heap m p = Some s" "missing_capability (as_capabilities s) (needed_capabilities r) = None"
    using ok assms(2) by blast
  moreover obtain sink hello where "as_capabilities s = agreed_capabilities sink hello" using ok s(1) by blast
  ultimately show ?thesis using missing_none [of "as_capabilities s" "needed_capabilities r"] agreed_offered by (metis subset_iff)
qed

theorem requests_run_where_supported_witness:
  "\<exists>s sink hello. am_heap with_running 0 = Some s \<and> as_capabilities s = agreed_capabilities sink hello \<and> cap_pod_logs \<in> set hello"
  using requests_run_where_supported [OF with_running_reached, of PodLogs 0] by simp

subsection \<open>Replaced connections\<close>

text \<open>C18: A connection whose place in the registry was taken by a newer one, while its handler still runs, is
closed already or something that closes it is under way: the newcomer is about to drain it, the call that
ends its drain is about to run, or its timer runs and requests still use it. When none of these is left the
connection is closed.\<close>

theorem replaced_sessions_are_closed:
  assumes "agent_reach k (m, T)" and "Handler p \<in># T" and "am_heap m p = Some s"
    and "map_of (am_connections m) (an_agent (as_identity s)) \<noteq> Some p"
  shows "as_closed s \<noteq> None \<or> Supersede p \<in># T
    \<or> as_draining s \<and> (FinishDrain p \<in># T \<or> as_timer s \<and> (\<exists>r st. Request r p st \<in># T \<and> st \<noteq> LookedUp))"
proof -
  note old = session_drain [OF reachable_ok [OF assms(1)] assms(3)]
  have "\<exists>r st. Request r p st \<in># T \<and> st \<noteq> LookedUp" if n: "0 < as_in_flight s"
  proof -
    obtain t where "t \<in># T" "in_business p t" using n old(8) by (auto simp: held_def nonempty_has_size [symmetric])
    then show ?thesis by (cases t) auto
  qed
  moreover have "as_draining s \<or> Supersede p \<in># T" using old(6) assms(2,4) by simp
  ultimately show ?thesis using old(3,4) by metis
qed

definition with_replaced :: agent_manager where
  "with_replaced = connected ''a'' 1 [] (connected ''a'' 0 [] new_manager)"

lemma with_replaced_reached: "agent_reach one_slot (with_replaced, {#Handler 1, Supersede 0, Handler 0#})"
proof -
  have "agent_reach one_slot (connected ''a'' 0 [] new_manager, {#Handler 0#})"
    using run_connect [OF reach_start, of 0 one_slot "''a''" "[]"] by (simp add: new_manager_def)
  from run_connect [OF this, of 1 "''a''" "[]"] show ?thesis by (simp add: new_manager_def with_replaced_def)
qed

theorem replaced_sessions_are_closed_witness:
  "map_of (am_connections with_replaced) ''a'' = Some 1 \<and> as_closed (new_session ''i'' (guest ''a'') 0 (agreed_capabilities False [])) = None
   \<and> Supersede 0 \<in># {#Handler 1, Supersede 0, Handler (0::nat)#}"
  using replaced_sessions_are_closed [OF with_replaced_reached, of 0 "new_session ''i'' (guest ''a'') 0 (agreed_capabilities False [])"]
  by (simp add: with_replaced_def update_conv' new_session_def guest_def)

subsection \<open>Remembered disconnections\<close>

lemma trim_within: "length os \<le> limit \<Longrightarrow> trim_order limit c os seen = (os, seen)"
  by (cases os) auto

text \<open>Worlds without connections that remember the Agents \<open>xs\<close>, the last of them in the order of eviction.\<close>

definition quiet :: "manager_limits \<Rightarrow> string list \<Rightarrow> agent_manager \<Rightarrow> bool" where
  "quiet k xs m \<longleftrightarrow>
     agent_reach k (m, {#}) \<and> am_connections m = [] \<and> fst ` set (am_last m) = set xs
     \<and> am_order m = drop (length xs - remembered_limit k) xs \<and> (\<exists>b. \<forall>p \<ge> b. am_heap m p = None)"

lemma limit_positive: "0 < remembered_limit k"
  by (simp add: remembered_limit_def)

lemma unregister_eq:
  assumes "map_of (am_connections m) (an_agent (as_identity s)) = Some p"
  shows "am_connections (unregister_session k None now p s m) = AList.delete (an_agent (as_identity s)) (am_connections m)"
    and "(am_order (unregister_session k None now p s m), am_last (unregister_session k None now p s m)) =
      trim_order (remembered_limit k) (AList.delete (an_agent (as_identity s)) (am_connections m))
        (if map_of (am_last m) (an_agent (as_identity s)) = None then am_order m @ [an_agent (as_identity s)] else am_order m)
        (AList.update (an_agent (as_identity s)) (disconnected_status now s) (am_last m))"
  using assms
  by (simp_all add: unregister_session_def Let_def remember_disconnect_def publish_identity_def split: prod.split)

lemma remembers_first:
  assumes q: "quiet k xs m" and x: "x \<notin> set xs" and short: "length xs < remembered_limit k"
  shows "\<exists>m'. quiet k (xs @ [x]) m'"
proof -
  obtain b where b: "\<And>p. b \<le> p \<Longrightarrow> am_heap m p = None" using q by (auto simp: quiet_def)
  let ?s = "new_session ''i'' (guest x) 0 (agreed_capabilities False [])" and ?m = "connected x b [] m"
  have m: "agent_reach k (m, {#})" "am_connections m = []" "fst ` set (am_last m) = set xs" "am_order m = xs"
    using q short by (simp_all add: quiet_def)
  have new: "map_of (am_last m) x = None" using m(3) x by (simp add: map_of_eq_None_iff)
  have "agent_reach k (?m, {#Handler b#})" using run_connect [OF m(1) b, of b x "[]"] m(2) by simp
  then have r: "agent_reach k (unregister_session k None 0 b ?s ?m, {#})" using run_unregister [of k ?m b "{#}" ?s 0] by simp
  have at: "map_of (am_connections ?m) (an_agent (as_identity ?s)) = Some b" by (simp add: m(2))
  note e = unregister_eq [OF at, of k 0]
  have "(am_order (unregister_session k None 0 b ?s ?m), am_last (unregister_session k None 0 b ?s ?m))
      = (xs @ [x], AList.update x (disconnected_status 0 ?s) (am_last m))"
    unfolding e(2) using short new m by (simp add: trim_within)
  then have "quiet k (xs @ [x]) (unregister_session k None 0 b ?s ?m)"
    unfolding quiet_def using r e(1) m b short
    by (auto simp: unregister_fields AList.dom_update image_Un intro!: exI [of _ "Suc b"])
  then show ?thesis by blast
qed

text \<open>At the limit the oldest of the order, \<open>y\<close>, is connected while \<open>x\<close> goes: it leaves the order and keeps its entry.\<close>

lemma remembers_more:
  assumes q: "quiet k xs m" and x: "x \<notin> set xs" and d: "distinct xs" and full: "remembered_limit k \<le> length xs"
  shows "\<exists>m'. quiet k (xs @ [x]) m'"
proof -
  define L where "L = remembered_limit k"
  obtain b where b: "\<And>p. b \<le> p \<Longrightarrow> am_heap m p = None" using q by (auto simp: quiet_def)
  have m: "agent_reach k (m, {#})" "am_connections m = []" "fst ` set (am_last m) = set xs" "am_order m = drop (length xs - L) xs"
    using q by (simp_all add: quiet_def L_def)
  have "am_order m \<noteq> []" using m(4) full limit_positive [of k] by (simp add: L_def)
  then obtain y os where y: "am_order m = y # os" by (cases "am_order m") blast+
  have len: "length (y # os) = L" using m(4) full by (simp add: y [symmetric] L_def)
  have yx: "y \<in> set xs" using m(4) by (metis in_set_dropD list.set_intros(1) y)
  then have ne: "x \<noteq> y" "y \<noteq> x" using x by auto
  have known: "map_of (am_last m) x = None" "map_of (am_last m) y \<noteq> None"
    using m(3) x yx by (simp_all add: map_of_eq_None_iff)
  let ?y = "new_session ''i'' (guest y) 0 (agreed_capabilities False [])"
  let ?x = "new_session ''i'' (guest x) 0 (agreed_capabilities False [])"
  let ?m1 = "connected y b [] m" and ?m2 = "connected x (Suc b) [] (connected y b [] m)"
  let ?m3 = "unregister_session k None 0 (Suc b) ?x ?m2"
  let ?m4 = "unregister_session k None 0 b ?y ?m3"
  have "agent_reach k (?m1, {#Handler b#})" using run_connect [OF m(1) b, of b y "[]"] m(2) by simp
  then have "agent_reach k (?m2, {#Handler (Suc b), Handler b#})"
    using run_connect [of k ?m1 "{#Handler b#}" "Suc b" x "[]"] b m(2) ne by simp
  then have "agent_reach k (?m3, {#Handler b#})" using run_unregister [of k ?m2 "Suc b" "{#Handler b#}" ?x 0] by simp
  then have r: "agent_reach k (?m4, {#})" using run_unregister [of k ?m3 b "{#}" ?y 0] by (simp add: unregister_fields)
  have c2: "am_connections ?m2 = [(y, b), (x, Suc b)]" using m(2) ne by simp
  have 3: "am_connections ?m3 = [(y, b)]" "am_order ?m3 = os @ [x]"
      "am_last ?m3 = AList.update x (disconnected_status 0 ?x) (am_last m)"
    using unregister_eq [of ?m2 ?x "Suc b" k 0] c2 ne known(1) y len by (auto simp: L_def trim_within)
  have 4: "am_connections ?m4 = []" "am_order ?m4 = os @ [x]"
      "am_last ?m4 = AList.update y (disconnected_status 0 ?y) (am_last ?m3)"
    using unregister_eq [of ?m3 ?y b k 0] 3 ne known(2) len by (auto simp: L_def trim_within update_conv')
  have "os @ [x] = drop (length (xs @ [x]) - L) (xs @ [x])"
  proof -
    have "drop (length (xs @ [x]) - L) (xs @ [x]) = drop (Suc (length xs - L)) xs @ [x]" using full len by (simp add: L_def Suc_diff_le)
    also have "drop (Suc (length xs - L)) xs = os" using m(4) y by (metis drop_Suc drop_tl list.sel(3))
    finally show ?thesis by simp
  qed
  then have "quiet k (xs @ [x]) ?m4"
    unfolding quiet_def using r 3 4 m b yx
    by (auto simp: unregister_fields AList.dom_update image_Un L_def intro!: exI [of _ "Suc (Suc b)"])
  then show ?thesis by blast
qed

lemma remembers_all: "distinct xs \<Longrightarrow> \<exists>m. quiet k xs m"
proof (induction xs rule: rev_induct)
  case Nil
  show ?case by (rule exI [of _ new_manager]) (auto simp: quiet_def new_manager_def intro: reach_start [unfolded new_manager_def])
next
  case (snoc x xs)
  then obtain m where "quiet k xs m" by auto
  then show ?case using remembers_first remembers_more snoc.prems by (cases "length xs < remembered_limit k") auto
qed

text \<open>The table of the last disconnections is not bounded by its configured limit: for every limit and any
number of Agents there is a run after which nobody is connected, the order of eviction keeps within the
limit and the table remembers every one of the Agents. An Agent that is connected when its turn to be
evicted comes leaves the order but keeps its entry, and no later disconnection ever puts it back, contrary
to the comment on \<open>rememberDisconnectLocked\<close> that churn cannot grow the map without bound.\<close>

theorem remembered_disconnects_unbounded:
  assumes "distinct agents"
  shows "\<exists>m. agent_reach k (m, {#}) \<and> am_connections m = [] \<and> length (am_order m) \<le> remembered_limit k
    \<and> fst ` set (am_last m) = set agents"
  using remembers_all [OF assms, of k] by (auto simp: quiet_def)

theorem remembered_disconnects_unbounded_witness:
  "\<exists>m. agent_reach one_slot (m, {#}) \<and> am_connections m = [] \<and> length (am_order m) \<le> 1
    \<and> fst ` set (am_last m) = {''a'', ''b'', ''c''}"
  using remembered_disconnects_unbounded [of "[''a'', ''b'', ''c'']" one_slot]
  by (simp add: remembered_limit_def one_slot_def)

end
