(* ===== verification/AgentControl.thy ===== *)
theory AgentControl
  imports AgentDrains
begin

section \<open>The control stream of an Agent\<close>

text \<open>
  \<open>serveControl\<close> of \<open>pkg/server/agentconn/manager.go\<close>, turn by turn, and the watch on revocations with its
  back-off. A turn is one frame read, or the read that failed; it carries the readings of the clock and the
  outcomes of writing. The store's answer to a heartbeat is a function of the time and the health it is
  asked to record.
\<close>

subsection \<open>Frames and outcomes\<close>

datatype health_status = HealthUnspecified | HealthHealthy | HealthDegraded

definition health_status_value :: "health_status \<Rightarrow> string option" where
  "health_status_value h =
     (case h of HealthHealthy \<Rightarrow> Some ''healthy'' | HealthDegraded \<Rightarrow> Some ''degraded'' | _ \<Rightarrow> None)"

datatype control_message =
    ClientGoodbye
  | CertificateRenewalRequest string
  | HeartbeatMessage "64 word" health_status
  | OtherMessage

record control_frame =
  cf_version :: "32 word"
  cf_message :: control_message

datatype close_code =
    CloseNormal | CloseProtocolError | CloseAuthenticationError | CloseHeartbeatTimeout
  | CloseConnectionReplaced | CloseInternalError | CloseScopeSuspended

datatype store_refusal = AgentScopeSuspended | AgentCredentialRejected | StoreFailed

datatype renewal_refusal = RenewalScopeSuspended | RenewalInvalidInput | RenewalCredentialRejected | RenewalFailed

datatype control_end =
    EndExpired | EndDeadline | EndRead | EndVersion | EndGoodbye | EndRenewal renewal_refusal
  | EndHeartbeat | EndHealth | EndPersist store_refusal | EndAck

text \<open>\<open>tn_open\<close>: neither the Server nor the connection is done when a read fails.\<close>

record control_turn =
  tn_now :: time
  tn_deadline :: bool
  tn_frame :: "control_frame option"
  tn_then :: time
  tn_open :: bool
  tn_renewal :: "renewal_refusal + unit"
  tn_written :: bool

text \<open>The loop's variables, and what it did: acknowledgements, published changes, closes with their code.\<close>

record control_state =
  cs_session :: agent_session
  cs_sequence :: "64 word"
  cs_health :: string
  cs_persisted :: time
  cs_acks :: "(64 word \<times> time) list"
  cs_published :: "time list"
  cs_closes :: "close_code list"

definition start_control :: "agent_session \<Rightarrow> time \<Rightarrow> control_state" where
  "start_control s now =
     \<lparr>cs_session = s, cs_sequence = 0, cs_health = ''healthy'', cs_persisted = now, cs_acks = [], cs_published = [],
      cs_closes = []\<rparr>"

definition with_reason :: "string \<Rightarrow> control_state \<Rightarrow> control_state" where
  "with_reason r c = c\<lparr>cs_session := set_disconnect_reason r (cs_session c)\<rparr>"

definition told_go_away :: "string \<Rightarrow> control_state \<Rightarrow> control_state" where
  "told_go_away r c = c\<lparr>cs_session := write_go_away r (cs_session c)\<rparr>"

definition closed_with :: "close_code \<Rightarrow> string \<Rightarrow> control_state \<Rightarrow> control_state" where
  "closed_with code message c = c\<lparr>cs_session := close_with message (cs_session c), cs_closes := cs_closes c @ [code]\<rparr>"

definition end_expired :: "control_state \<Rightarrow> control_state \<times> control_end option" where
  "end_expired c =
     (closed_with CloseAuthenticationError ''Agent certificate expired'' (with_reason ''certificate_expired'' c), Some EndExpired)"

definition end_failed_read :: "control_turn \<Rightarrow> control_state \<Rightarrow> control_state \<times> control_end option" where
  "end_failed_read t c =
     (if as_expires (cs_session c) \<le> tn_then t then end_expired c
      else (if tn_open t then closed_with CloseHeartbeatTimeout ''heartbeat timeout'' (with_reason ''heartbeat_timeout'' c) else c,
            Some EndRead))"

subsection \<open>Renewal\<close>

text \<open>\<open>renewCertificate\<close>: its service is optional, and its answer is written back.\<close>

definition renew_certificate :: "bool \<Rightarrow> control_turn \<Rightarrow> renewal_refusal + unit" where
  "renew_certificate offered t =
     (if \<not> offered then Inl RenewalFailed
      else case tn_renewal t of Inl e \<Rightarrow> Inl e | Inr _ \<Rightarrow> if tn_written t then Inr () else Inl RenewalFailed)"

definition renewal_close :: "renewal_refusal \<Rightarrow> close_code" where
  "renewal_close e =
     (case e of RenewalScopeSuspended \<Rightarrow> CloseScopeSuspended
      | RenewalFailed \<Rightarrow> CloseInternalError
      | _ \<Rightarrow> CloseAuthenticationError)"

definition end_renewal :: "renewal_refusal \<Rightarrow> control_state \<Rightarrow> control_state \<times> control_end option" where
  "end_renewal e c =
     (let c1 = with_reason ''certificate_renewal_rejected'' c;
          c2 = (if e = RenewalScopeSuspended then told_go_away ''scope_suspended'' (with_reason ''scope_suspended'' c1) else c1)
      in (closed_with (renewal_close e) ''Agent certificate renewal rejected'' c2, Some (EndRenewal e)))"

subsection \<open>Heartbeats\<close>

definition end_persist :: "store_refusal \<Rightarrow> control_state \<Rightarrow> control_state \<times> control_end option" where
  "end_persist e c =
     (let c1 = with_reason ''heartbeat_persistence_failed'' c in
      (case e of
         AgentScopeSuspended \<Rightarrow>
           closed_with CloseScopeSuspended ''Agent scope suspended'' (told_go_away ''scope_suspended'' (with_reason ''scope_suspended'' c1))
       | AgentCredentialRejected \<Rightarrow>
           closed_with CloseAuthenticationError ''Agent credential rejected'' (with_reason ''credential_rejected'' c1)
       | StoreFailed \<Rightarrow> c1,
       Some (EndPersist e)))"

definition acknowledge :: "control_turn \<Rightarrow> control_state \<Rightarrow> control_state \<times> control_end option" where
  "acknowledge t c =
     (if tn_written t then (c\<lparr>cs_acks := cs_acks c @ [(cs_sequence c, tn_then t)]\<rparr>, None)
      else (with_reason ''heartbeat_ack_failed'' c, Some EndAck))"

definition take_heartbeat ::
    "duration \<Rightarrow> (time \<Rightarrow> string \<Rightarrow> store_refusal + unit) \<Rightarrow> control_turn \<Rightarrow> 64 word \<Rightarrow> health_status
       \<Rightarrow> control_state \<Rightarrow> control_state \<times> control_end option" where
  "take_heartbeat interval persist t seq h c =
     (if seq = 0 \<or> seq \<le> cs_sequence c
      then (closed_with CloseProtocolError ''invalid heartbeat'' (with_reason ''invalid_heartbeat'' c), Some EndHeartbeat)
      else case health_status_value h of
        None \<Rightarrow> (closed_with CloseProtocolError ''invalid heartbeat health'' c, Some EndHealth)
      | Some health \<Rightarrow>
          let now = tn_then t; c1 = c\<lparr>cs_sequence := seq, cs_session := record_heartbeat now (cs_session c)\<rparr> in
          if health \<noteq> cs_health c \<or> interval \<le> time_sub now (cs_persisted c)
          then (case persist now health of
                  Inl e \<Rightarrow> end_persist e c1
                | Inr _ \<Rightarrow> acknowledge t (c1\<lparr>cs_persisted := now, cs_health := health,
                             cs_published := (if health \<noteq> cs_health c then cs_published c @ [now] else cs_published c)\<rparr>))
          else acknowledge t c1)"

subsection \<open>The loop\<close>

definition serve_turn ::
    "duration \<Rightarrow> bool \<Rightarrow> (time \<Rightarrow> string \<Rightarrow> store_refusal + unit) \<Rightarrow> control_turn
       \<Rightarrow> control_state \<Rightarrow> control_state \<times> control_end option" where
  "serve_turn interval offered persist t c =
     (if as_expires (cs_session c) \<le> tn_now t then end_expired c
      else if \<not> tn_deadline t then (c, Some EndDeadline)
      else case tn_frame t of
        None \<Rightarrow> end_failed_read t c
      | Some f \<Rightarrow>
          if cf_version f \<noteq> protocol_version
          then (closed_with CloseProtocolError ''protocol version mismatch'' (with_reason ''protocol_version_mismatch'' c), Some EndVersion)
          else (case cf_message f of
                  ClientGoodbye \<Rightarrow> (with_reason ''client_goodbye'' c, Some EndGoodbye)
                | CertificateRenewalRequest csr \<Rightarrow>
                    (case renew_certificate offered t of Inl e \<Rightarrow> end_renewal e c | Inr _ \<Rightarrow> (c, None))
                | HeartbeatMessage seq h \<Rightarrow> take_heartbeat interval persist t seq h c
                | OtherMessage \<Rightarrow>
                    (closed_with CloseProtocolError ''invalid heartbeat'' (with_reason ''invalid_heartbeat'' c), Some EndHeartbeat)))"

fun serve_control ::
    "duration \<Rightarrow> bool \<Rightarrow> (time \<Rightarrow> string \<Rightarrow> store_refusal + unit) \<Rightarrow> control_turn list
       \<Rightarrow> control_state \<Rightarrow> control_state \<times> control_end option" where
  "serve_control interval offered persist [] c = (c, None)"
| "serve_control interval offered persist (t # ts) c =
     (case serve_turn interval offered persist t c of
        (c', None) \<Rightarrow> serve_control interval offered persist ts c'
      | (c', Some e) \<Rightarrow> (c', Some e))"

subsection \<open>What a turn does\<close>

lemmas control_changes = with_reason_def told_go_away_def closed_with_def end_expired_def end_failed_read_def end_renewal_def
  end_persist_def acknowledge_def

lemma take_heartbeat_effect:
  assumes "take_heartbeat interval persist t seq h c = (c', e)"
  shows "(cs_persisted c' = cs_persisted c \<or> (\<exists>x. persist (tn_then t) x = Inr () \<and> cs_persisted c' = tn_then t))
    \<and> cs_sequence c \<le> cs_sequence c'
    \<and> (cs_acks c' = cs_acks c
       \<or> cs_acks c' = cs_acks c @ [(cs_sequence c', tn_then t)] \<and> cs_sequence c < cs_sequence c' \<and> cs_sequence c' = seq
         \<and> (cs_persisted c' = tn_then t \<or> time_sub (tn_then t) (cs_persisted c') < interval))"
proof (cases "seq = 0 \<or> seq \<le> cs_sequence c \<or> health_status_value h = None")
  case True
  then show ?thesis using assms by (auto simp: take_heartbeat_def control_changes split: if_splits)
next
  case False
  then obtain health where health: "health_status_value h = Some health" by blast
  have seq: "cs_sequence c < seq" using False by auto
  have now: "persist (tn_then t) health = Inr () \<or> (\<exists>x. persist (tn_then t) health = Inl x)"
    by (cases "persist (tn_then t) health") auto
  show ?thesis
  proof (cases "health \<noteq> cs_health c \<or> interval \<le> time_sub (tn_then t) (cs_persisted c)")
    case True
    from now show ?thesis
    proof
      assume "persist (tn_then t) health = Inr ()"
      then show ?thesis using assms False True health seq
        by (cases "tn_written t") (auto simp: take_heartbeat_def Let_def control_changes)
    next
      assume "\<exists>x. persist (tn_then t) health = Inl x"
      then obtain x where "persist (tn_then t) health = Inl x" by blast
      then show ?thesis using assms False True health seq
        by (cases x) (auto simp: take_heartbeat_def Let_def control_changes)
    qed
  next
    case quiet: False
    then show ?thesis using assms False health seq
      by (cases "tn_written t") (auto simp: take_heartbeat_def Let_def control_changes)
  qed
qed

lemma serve_turn_effect:
  assumes "serve_turn interval offered persist t c = (c', e)"
  shows "(cs_persisted c' = cs_persisted c \<or> (\<exists>x. persist (tn_then t) x = Inr () \<and> cs_persisted c' = tn_then t))
    \<and> cs_sequence c \<le> cs_sequence c'
    \<and> (cs_acks c' = cs_acks c
       \<or> cs_acks c' = cs_acks c @ [(cs_sequence c', tn_then t)] \<and> cs_sequence c < cs_sequence c'
         \<and> (cs_persisted c' = tn_then t \<or> time_sub (tn_then t) (cs_persisted c') < interval))"
proof -
  consider seq h where "take_heartbeat interval persist t seq h c = (c', e)"
    | "cs_persisted c' = cs_persisted c" "cs_sequence c' = cs_sequence c" "cs_acks c' = cs_acks c"
    using assms
    by (auto simp: serve_turn_def control_changes Let_def split: if_splits option.splits control_message.splits sum.splits)
  then show ?thesis
  proof cases
    case (1 seq h)
    from take_heartbeat_effect [OF this] show ?thesis by blast
  qed simp
qed

lemma serve_control_invariant:
  assumes "serve_control interval offered persist ts c = (c', e)" and "P c"
    and "\<And>t c c' e. t \<in> set ts \<Longrightarrow> P c \<Longrightarrow> serve_turn interval offered persist t c = (c', e) \<Longrightarrow> P c'"
  shows "P c'"
  using assms
proof (induction ts arbitrary: c)
  case (Cons t ts)
  obtain c1 e1 where turn: "serve_turn interval offered persist t c = (c1, e1)" by fastforce
  have "P c1" using Cons.prems(3) [OF _ Cons.prems(2) turn] by simp
  then show ?case using Cons.IH [of c1] Cons.prems turn by (cases e1) auto
qed simp

definition acks_rise :: "control_state \<Rightarrow> bool" where
  "acks_rise c \<longleftrightarrow> sorted_wrt (<) (map fst (cs_acks c)) \<and> (\<forall>a \<in> set (cs_acks c). fst a \<le> cs_sequence c)"

lemma acks_rise_turn:
  assumes "acks_rise c" and "serve_turn interval offered persist t c = (c', e)"
  shows "acks_rise c'"
proof -
  have le: "cs_sequence c \<le> cs_sequence c'"
    and acks: "cs_acks c' = cs_acks c \<or> cs_acks c' = cs_acks c @ [(cs_sequence c', tn_then t)] \<and> cs_sequence c < cs_sequence c'"
    using serve_turn_effect [OF assms(2)] by blast+
  have old: "sorted_wrt (<) (map fst (cs_acks c))" "\<And>a. a \<in> set (cs_acks c) \<Longrightarrow> fst a \<le> cs_sequence c"
    using assms(1) by (simp_all add: acks_rise_def)
  from acks show ?thesis
  proof
    assume "cs_acks c' = cs_acks c"
    then show ?thesis using old le unfolding acks_rise_def by (metis order_trans)
  next
    assume new: "cs_acks c' = cs_acks c @ [(cs_sequence c', tn_then t)] \<and> cs_sequence c < cs_sequence c'"
    then have "fst a < cs_sequence c'" if "a \<in> set (cs_acks c)" for a using old(2) [OF that] by (metis le_less_trans)
    then show ?thesis using new old(1) unfolding acks_rise_def by (auto simp: sorted_wrt_append intro: order_less_imp_le)
  qed
qed

text \<open>The acknowledgements of a connection carry strictly rising sequence numbers, whatever the Agent sends:
a heartbeat that repeats a number, goes back or is numbered zero ends the connection unacknowledged.\<close>

theorem acknowledgements_rise:
  "sorted_wrt (<) (map fst (cs_acks (fst (serve_control interval offered persist ts (start_control s now)))))"
proof -
  obtain c' e where run: "serve_control interval offered persist ts (start_control s now) = (c', e)" by fastforce
  have "acks_rise c'"
    by (rule serve_control_invariant [OF run, of acks_rise], simp add: acks_rise_def start_control_def, rule acks_rise_turn)
  then show ?thesis by (simp add: run acks_rise_def)
qed

text \<open>Once the store refuses what it is asked to record about an Agent, from some time on and whatever the reason,
the connection acknowledges no heartbeat later than one write interval after that time: the store has to be asked
again by then.\<close>

lemma withdrawn_access_ends_within_interval:
  assumes "\<And>at health. since \<le> at \<Longrightarrow> persist at health \<noteq> Inr ()" and "now < since" and "0 \<le> interval" and "interval \<le> max_int64"
    and "serve_control interval offered persist ts (start_control s now) = (c, e)"
    and "(seq, at) \<in> set (cs_acks c)"
  shows "at < since + interval"
proof -
  let ?P = "\<lambda>c. cs_persisted c < since \<and> (\<forall>a \<in> set (cs_acks c). snd a < since + interval)"
  have "?P c"
  proof (rule serve_control_invariant [OF assms(5), of ?P])
    show "?P (start_control s now)" using assms(2) by (simp add: start_control_def)
  next
    fix t c1 c2 e1 assume old: "?P c1" and turn: "serve_turn interval offered persist t c1 = (c2, e1)"
    note effect = serve_turn_effect [OF turn]
    have early: "cs_persisted c2 < since" using effect old assms(1) [of "tn_then t"] by (metis not_less)
    moreover have "tn_then t < since + interval"
      if "cs_persisted c2 = tn_then t \<or> time_sub (tn_then t) (cs_persisted c2) < interval"
      using that early assms(3,4) by (auto simp: time_sub_def)
    ultimately show "?P c2" using effect old by auto
  qed
  then show ?thesis using assms(6) by auto
qed

definition beat :: "64 word \<Rightarrow> time \<Rightarrow> control_turn" where
  "beat n at = \<lparr>tn_now = at, tn_deadline = True, tn_frame = Some \<lparr>cf_version = 1, cf_message = HeartbeatMessage n HealthHealthy\<rparr>,
      tn_then = at, tn_open = True, tn_renewal = Inr (), tn_written = True\<rparr>"

definition refuses_from :: "time \<Rightarrow> time \<Rightarrow> string \<Rightarrow> store_refusal + unit" where
  "refuses_from since at health = (if since \<le> at then Inl AgentCredentialRejected else Inr ())"

subsection \<open>The watch on revocations\<close>

text \<open>
  One attempt to watch: whether it was established before it ended, with what error it ended (\<open>None\<close>: without
  one), and whether the Server stopped during the watch or during the wait after it.
\<close>

record watch_attempt =
  wa_watched :: bool
  wa_stopped :: bool
  wa_stopped_waiting :: bool

datatype watch_end = WatchStopped | WatchNeverEstablished

definition retry_initial :: duration where "retry_initial = second"
definition retry_max :: duration where "retry_max = 30 * second"

text \<open>The delays waited before each retry, and how it ended if it did.\<close>

fun supervise_revocations ::
    "bool \<Rightarrow> duration \<Rightarrow> watch_attempt list \<Rightarrow> duration list \<times> watch_end option" where
  "supervise_revocations established delay [] = ([], None)"
| "supervise_revocations established delay (w # ws) =
     (if wa_stopped w then ([], Some WatchStopped)
      else if \<not> (established \<or> wa_watched w) then ([], Some WatchNeverEstablished)
      else let d = (if wa_watched w then retry_initial else delay) in
        if wa_stopped_waiting w then ([d], Some WatchStopped)
        else case supervise_revocations True (min (d * 2) retry_max) ws of (ds, e) \<Rightarrow> (d # ds, e))"

lemma supervise_bounds:
  "retry_initial \<le> delay \<Longrightarrow> delay \<le> retry_max \<Longrightarrow> d \<in> set (fst (supervise_revocations est delay ws))
     \<Longrightarrow> retry_initial \<le> d \<and> d \<le> retry_max"
proof (induction est delay ws rule: supervise_revocations.induct)
  case (2 est delay w ws)
  let ?d = "if wa_watched w then retry_initial else delay"
  have "retry_initial \<le> ?d" "?d \<le> retry_max" "retry_initial \<le> min (?d * 2) retry_max" "min (?d * 2) retry_max \<le> retry_max"
    using "2.prems" by (auto simp: retry_initial_def retry_max_def second_def)
  then show ?case using 2 by (auto simp: Let_def split: if_splits prod.splits)
qed simp

lemma supervise_never_gives_up: "snd (supervise_revocations True delay ws) \<noteq> Some WatchNeverEstablished"
proof (induction ws arbitrary: delay)
  case (Cons w ws)
  show ?case
    using Cons.IH [of "min (retry_initial * 2) retry_max"] Cons.IH [of "min (delay * 2) retry_max"]
    by (simp add: Let_def case_prod_beta)
qed simp

text \<open>Only a watch on revocations that could not be established when the Server starts is fatal; once it was
established its failures are retried for as long as the Server runs, and every retry waits between one and
thirty seconds.\<close>

theorem watch_is_retried_once_established:
  "(snd (supervise_revocations False retry_initial ws) = Some WatchNeverEstablished
     \<longleftrightarrow> (\<exists>w ws'. ws = w # ws' \<and> \<not> wa_stopped w \<and> \<not> wa_watched w))
   \<and> set (fst (supervise_revocations False retry_initial ws)) \<subseteq> {second .. 30 * second}"
proof
  have "retry_initial \<le> retry_max" by (simp add: retry_initial_def retry_max_def second_def)
  then show "set (fst (supervise_revocations False retry_initial ws)) \<subseteq> {second .. 30 * second}"
    using supervise_bounds [of retry_initial _ False ws] by (auto simp: retry_initial_def retry_max_def)
  show "snd (supervise_revocations False retry_initial ws) = Some WatchNeverEstablished
     \<longleftrightarrow> (\<exists>w ws'. ws = w # ws' \<and> \<not> wa_stopped w \<and> \<not> wa_watched w)"
    by (cases ws) (simp_all add: Let_def supervise_never_gives_up case_prod_beta)
qed

end
