(* ===== verification/AgentLoop.thy ===== *)
theory AgentLoop
  imports AgentControl
begin

section \<open>The Agent's side of a connection\<close>

text \<open>
  The admission of a connection by \<open>handleConnection\<close> (\<open>pkg/server/agentconn/manager.go\<close>) up to its place in
  the registry, and what the Agent makes of it: \<open>pkg/agent/connection.go\<close> with the check of the Server's
  hello, the loop of heartbeats and the loop of reconnections, \<open>pkg/agent/errors.go\<close> and \<open>GoAwayIsPermanent\<close>
  with the errors that end it.
\<close>

subsection \<open>Admission by the Server\<close>

text \<open>The outcomes of what the handler calls, in the order of the calls.\<close>

record handshake_input =
  hi_certificate :: "agent_certificate option"
  hi_stream :: bool
  hi_deadline :: bool
  hi_frame :: "(32 word \<times> client_hello option) option"
  hi_now :: time
  hi_activation :: "store_refusal + unit"
  hi_identifier :: "string option"
  hi_dispatcher :: bool

definition wants_metrics :: "bool \<Rightarrow> client_hello \<Rightarrow> bool" where
  "wants_metrics sink h \<longleftrightarrow> sink \<and> cap_metrics_ingest \<in> set (ch_capabilities h)"

definition handshake ::
    "(string \<Rightarrow> string) \<Rightarrow> (int \<Rightarrow> string) \<Rightarrow> nat \<Rightarrow> nat \<Rightarrow> bool \<Rightarrow> handshake_input
       \<Rightarrow> (close_code \<times> string) + agent_session" where
  "handshake render decimal limit admitted sink x =
     (if limit \<le> admitted then Inl (CloseInternalError, ''Agent connection capacity reached'')
      else case identity_from_certificate render decimal (hi_certificate x) of
        Inl _ \<Rightarrow> Inl (CloseAuthenticationError, ''invalid Agent identity'')
      | Inr i \<Rightarrow>
          if \<not> hi_stream x then Inl (CloseProtocolError, ''control stream required'')
          else if \<not> hi_deadline x then Inl (CloseProtocolError, ''control stream deadline failed'')
          else (case hi_frame x of
                  None \<Rightarrow> Inl (CloseProtocolError, ''invalid ClientHello frame'')
                | Some (version, hello) \<Rightarrow>
                    (case (validate_client_hello version hello i, hello) of
                       (Inr _, Some h) \<Rightarrow>
                         (case hi_activation x of
                            Inl AgentScopeSuspended \<Rightarrow> Inl (CloseScopeSuspended, ''Agent scope suspended'')
                          | Inl _ \<Rightarrow> Inl (CloseAuthenticationError, ''Agent credential rejected'')
                          | Inr _ \<Rightarrow>
                              (case hi_identifier x of
                                 None \<Rightarrow> Inl (CloseProtocolError, ''connection identifier unavailable'')
                               | Some n \<Rightarrow>
                                   if wants_metrics sink h \<and> \<not> hi_dispatcher x
                                   then Inl (CloseInternalError, ''metrics ingest dispatcher unavailable'')
                                   else Inr (new_session n i (hi_now x) (agreed_capabilities sink (ch_capabilities h)))))
                     | _ \<Rightarrow> Inl (CloseAuthenticationError, ''ClientHello rejected''))))"

subsection \<open>What ends the Agent\<close>

datatype agent_failure =
    ServerHelloInvalid | HeartbeatConfigInvalid | ServerCapabilityInvalid | HeartbeatAckInvalid | CertificateExpired
  | ControlFrameUnexpected | ControlVersionUnsupported | HeartbeatAckTimeout
  | GoAwayReceived string | CertificateUntrusted | ClosedByServer close_code | ClosedByAgent close_code | OtherFailure

definition permanent_agent_connection_error :: "agent_failure \<Rightarrow> bool" where
  "permanent_agent_connection_error e \<longleftrightarrow>
     (case e of
        GoAwayReceived r \<Rightarrow> go_away_is_permanent r
      | ClosedByServer c \<Rightarrow> c \<in> {CloseProtocolError, CloseAuthenticationError}
      | ClosedByAgent _ \<Rightarrow> False
      | HeartbeatAckTimeout \<Rightarrow> False
      | OtherFailure \<Rightarrow> False
      | _ \<Rightarrow> True)"

subsection \<open>The Server's hello\<close>

record server_hello =
  sh_connection :: string
  sh_interval :: "64 word"
  sh_timeout :: "64 word"
  sh_capabilities :: "string list"

text \<open>\<open>time.Duration(millis) * time.Millisecond\<close> wraps around.\<close>

definition millis_duration :: "64 word \<Rightarrow> duration" where
  "millis_duration w = sint (w * 1000000)"

definition validate_server_hello ::
    "32 word \<Rightarrow> server_hello option \<Rightarrow> agent_failure + duration \<times> duration" where
  "validate_server_hello version hello =
     (case hello of
        None \<Rightarrow> Inl ServerHelloInvalid
      | Some h \<Rightarrow>
          let interval = millis_duration (sh_interval h); timeout = millis_duration (sh_timeout h) in
          if version \<noteq> protocol_version \<or> \<not> is_uuid (sh_connection h) then Inl ServerHelloInvalid
          else if interval < second \<or> 5 * minute < interval \<or> timeout \<le> interval \<or> 15 * minute < timeout
          then Inl HeartbeatConfigInvalid
          else if 64 < length (sh_capabilities h) then Inl ServerCapabilityInvalid
          else if list_ex (\<lambda>c. c = [] \<or> trim_space c \<noteq> c \<or> 128 < length c) (sh_capabilities h)
          then Inl ServerCapabilityInvalid
          else Inr (interval, timeout))"

subsection \<open>Heartbeats\<close>

record agent_loop =
  al_sent :: "64 word"
  al_acked :: "64 word"
  al_timer :: bool

definition start_loop :: agent_loop where
  "start_loop = \<lparr>al_sent = 0, al_acked = 0, al_timer = False\<rparr>"

text \<open>What the loop's \<open>select\<close> received; a tick says whether a renewal is due and whether writing succeeded.\<close>

datatype loop_event =
    LoopCancelled | ConnectionDone agent_failure | StreamsStopped | ReaderFailed agent_failure | GoAwayArrived string
  | RenewalArrived | AckArrived "64 word" | AckTimerFired | Ticked bool bool

datatype loop_end = LoopStopped | LoopRenewal | LoopFailed agent_failure

definition agent_turn :: "loop_event \<Rightarrow> agent_loop \<Rightarrow> agent_loop \<times> 64 word option \<times> loop_end option" where
  "agent_turn e a =
     (case e of
        LoopCancelled \<Rightarrow> (a, None, Some LoopStopped)
      | ConnectionDone x \<Rightarrow> (a, None, Some (LoopFailed x))
      | StreamsStopped \<Rightarrow> (a, None, Some (LoopFailed OtherFailure))
      | ReaderFailed x \<Rightarrow> (a, None, Some (LoopFailed x))
      | GoAwayArrived r \<Rightarrow> (a, None, Some (LoopFailed (GoAwayReceived r)))
      | RenewalArrived \<Rightarrow> (a, None, Some (LoopFailed ControlFrameUnexpected))
      | AckArrived n \<Rightarrow>
          if n \<le> al_acked a \<or> al_sent a < n then (a, None, Some (LoopFailed HeartbeatAckInvalid))
          else (a\<lparr>al_acked := n, al_timer := n \<noteq> al_sent a\<rparr>, None, None)
      | AckTimerFired \<Rightarrow> (a, None, Some (LoopFailed HeartbeatAckTimeout))
      | Ticked due written \<Rightarrow>
          if due then (a, None, Some LoopRenewal)
          else let a' = a\<lparr>al_sent := al_sent a + 1\<rparr> in
            if \<not> written then (a', None, Some (LoopFailed OtherFailure))
            else (a'\<lparr>al_timer := (al_sent a' = al_acked a' + 1 \<or> al_timer a')\<rparr>, Some (al_sent a'), None))"

subsection \<open>Reconnections\<close>

datatype connection_attempt =
    TlsConfigInvalid | AttemptCancelled | CertificateRenewed | EndedWithoutError | AttemptFailed agent_failure bool

datatype agent_end = AgentStopped | AgentFailed agent_failure | AgentTlsInvalid

text \<open>\<open>jitter\<close> is the product with a factor of at least one and less than 1.2.\<close>

definition retry_delay :: "(duration \<Rightarrow> duration) \<Rightarrow> duration \<Rightarrow> duration \<Rightarrow> duration \<Rightarrow> duration" where
  "retry_delay jitter interval after maximum = min (jitter (max interval after)) maximum"

text \<open>The flag of a failed attempt says that the Agent was stopped while it waited to retry.\<close>

fun connection_loop ::
    "(duration \<Rightarrow> duration) \<Rightarrow> duration \<Rightarrow> duration \<Rightarrow> duration \<Rightarrow> connection_attempt list
       \<Rightarrow> duration list \<times> agent_end option" where
  "connection_loop jitter initial maximum interval [] = ([], None)"
| "connection_loop jitter initial maximum interval (TlsConfigInvalid # xs) = ([], Some AgentTlsInvalid)"
| "connection_loop jitter initial maximum interval (AttemptCancelled # xs) = ([], Some AgentStopped)"
| "connection_loop jitter initial maximum interval (CertificateRenewed # xs) = connection_loop jitter initial maximum initial xs"
| "connection_loop jitter initial maximum interval (EndedWithoutError # xs) = connection_loop jitter initial maximum interval xs"
| "connection_loop jitter initial maximum interval (AttemptFailed e stopped # xs) =
     (if permanent_agent_connection_error e then ([], Some (AgentFailed e))
      else let d = retry_delay jitter interval 0 maximum in
        if stopped then ([d], Some AgentStopped)
        else case connection_loop jitter initial maximum (min (interval * 2) maximum) xs of (ds, r) \<Rightarrow> (d # ds, r))"

end
