(* ===== verification/AgentExchange.thy ===== *)
theory AgentExchange
  imports AgentLoop
begin

section \<open>Agent and Server on one control stream\<close>

text \<open>
  Both ends of the control stream together: the heartbeats the Agent's loop sends reach the Server's loop in
  order, its acknowledgements come back in order, and the two never mistake each other for a violation of
  the protocol. Then what the ways a connection ends mean for the Agent: whether it comes back.
\<close>

subsection \<open>The exchange\<close>

type_synonym exchange = "agent_loop \<times> 64 word list \<times> control_state \<times> 64 word list"

text \<open>
  The Agent, the heartbeats under way, the Server, the acknowledgements under way. The counter of the Agent
  does not overflow: at a heartbeat a second that takes 500 billion years. The session changes at any time.
\<close>

definition heartbeat_turn :: "64 word \<Rightarrow> control_turn \<Rightarrow> bool" where
  "heartbeat_turn n t \<longleftrightarrow> tn_frame t = Some \<lparr>cf_version = protocol_version, cf_message = HeartbeatMessage n HealthHealthy\<rparr>"

inductive exchange_step ::
    "duration \<Rightarrow> bool \<Rightarrow> (time \<Rightarrow> string \<Rightarrow> store_refusal + unit) \<Rightarrow> exchange \<Rightarrow> exchange \<Rightarrow> bool"
  for interval offered persist where
  exchange_tick: "al_sent a \<noteq> - 1 \<Longrightarrow> agent_turn (Ticked False True) a = (a', Some n, None) \<Longrightarrow>
    exchange_step interval offered persist (a, up, c, down) (a', up @ [n], c, down)"
| exchange_serve: "heartbeat_turn n t \<Longrightarrow> serve_turn interval offered persist t c = (c', None) \<Longrightarrow>
    exchange_step interval offered persist (a, n # up, c, down)
      (a, up, c', down @ map fst (drop (length (cs_acks c)) (cs_acks c')))"
| exchange_ack: "agent_turn (AckArrived n) a = (a', None, None) \<Longrightarrow>
    exchange_step interval offered persist (a, up, c, n # down) (a', up, c, down)"
| exchange_session: "exchange_step interval offered persist (a, up, c, down) (a, up, c\<lparr>cs_session := s\<rparr>, down)"

inductive exchange_reach ::
    "duration \<Rightarrow> bool \<Rightarrow> (time \<Rightarrow> string \<Rightarrow> store_refusal + unit) \<Rightarrow> exchange \<Rightarrow> bool"
  for interval offered persist where
  exchange_start: "exchange_reach interval offered persist (start_loop, [], start_control s now, [])"
| exchange_more: "exchange_reach interval offered persist x \<Longrightarrow> exchange_step interval offered persist x y
    \<Longrightarrow> exchange_reach interval offered persist y"

definition exchange_ok :: "exchange \<Rightarrow> bool" where
  "exchange_ok x \<longleftrightarrow> (case x of (a, up, c, down) \<Rightarrow>
     sorted_wrt (<) up \<and> (\<forall>n \<in> set up. cs_sequence c < n \<and> n \<le> al_sent a) \<and> cs_sequence c \<le> al_sent a
     \<and> sorted_wrt (<) down \<and> (\<forall>n \<in> set down. al_acked a < n \<and> n \<le> cs_sequence c) \<and> al_acked a \<le> cs_sequence c
     \<and> (al_timer a \<longleftrightarrow> al_acked a \<noteq> al_sent a))"

lemma next_word: "x \<noteq> - 1 \<Longrightarrow> (x :: 64 word) < x + 1"
  by (simp add: not_le [symmetric] inc_less_eq_iff)

lemma tick_ok:
  assumes ok: "exchange_ok (a, up, c, down)" and room: "al_sent a \<noteq> - 1"
    and turn: "agent_turn (Ticked False True) a = (a', Some n, None)"
  shows "exchange_ok (a', up @ [n], c, down)"
proof -
  have a': "al_sent a' = al_sent a + 1" "al_acked a' = al_acked a" "n = al_sent a + 1"
      "al_timer a' \<longleftrightarrow> al_sent a = al_acked a \<or> al_timer a"
    using turn by (auto simp: agent_turn_def Let_def)
  have up: "al_sent a < al_sent a + 1" using room by (rule next_word)
  note old = ok [unfolded exchange_ok_def prod.case]
  have "al_acked a \<noteq> al_sent a + 1" using old up by (metis le_less_trans not_less order_less_irrefl)
  moreover have "m < al_sent a + 1" if "m \<le> al_sent a" for m using that up by (rule le_less_trans)
  ultimately show ?thesis
    using old a' unfolding exchange_ok_def by (auto simp: sorted_wrt_append intro: order_less_imp_le le_less_trans)
qed

lemma acknowledge_cases:
  assumes "acknowledge t c = (c', e)"
  shows "e = Some EndAck \<or> e = None \<and> cs_sequence c' = cs_sequence c \<and> cs_acks c' = cs_acks c @ [(cs_sequence c, tn_then t)]"
  using assms by (cases "tn_written t") (auto simp: acknowledge_def with_reason_def)

lemma take_healthy:
  assumes "take_heartbeat interval persist t n HealthHealthy c = (c', e)" and "n \<noteq> 0" and "cs_sequence c < n"
  shows "(\<exists>x. e = Some (EndPersist x)) \<or> e = Some EndAck
    \<or> e = None \<and> cs_sequence c' = n \<and> cs_acks c' = cs_acks c @ [(n, tn_then t)]"
proof -
  have "\<not> n \<le> cs_sequence c" using assms(3) by simp
  then consider x c1 where "end_persist x c1 = (c', e)"
    | c1 where "acknowledge t c1 = (c', e)" "cs_sequence c1 = n" "cs_acks c1 = cs_acks c"
    using assms(1,2) by (auto simp: take_heartbeat_def health_status_value_def Let_def split: if_splits sum.splits)
  then show ?thesis
  proof cases
    case (1 x c1)
    then show ?thesis by (auto simp: end_persist_def Let_def)
  next
    case (2 c1)
    from acknowledge_cases [OF 2(1)] 2(2,3) show ?thesis by auto
  qed
qed

lemma serve_turn_heartbeat:
  "heartbeat_turn n t \<Longrightarrow> serve_turn interval offered persist t c =
     (if as_expires (cs_session c) \<le> tn_now t then end_expired c
      else if \<not> tn_deadline t then (c, Some EndDeadline) else take_heartbeat interval persist t n HealthHealthy c)"
  by (simp add: serve_turn_def heartbeat_turn_def)

lemma serve_heartbeat:
  assumes "heartbeat_turn n t" and "serve_turn interval offered persist t c = (c', e)" and "cs_sequence c < n"
  shows "(\<exists>x. e = Some (EndPersist x)) \<or> e \<in> {Some EndAck, Some EndExpired, Some EndDeadline}
    \<or> e = None \<and> cs_sequence c' = n \<and> cs_acks c' = cs_acks c @ [(n, tn_then t)]"
proof -
  have n: "n \<noteq> 0" using assms(3) by auto
  show ?thesis
  proof (cases "as_expires (cs_session c) \<le> tn_now t \<or> \<not> tn_deadline t")
    case True
    then show ?thesis
      using assms(2) unfolding serve_turn_heartbeat [OF assms(1)] by (auto simp: end_expired_def split: if_splits)
  next
    case False
    then have "take_heartbeat interval persist t n HealthHealthy c = (c', e)"
      using assms(2) unfolding serve_turn_heartbeat [OF assms(1)] by simp
    from take_healthy [OF this n assms(3)] show ?thesis by blast
  qed
qed

lemma exchange_step_ok: "exchange_step interval offered persist x y \<Longrightarrow> exchange_ok x \<Longrightarrow> exchange_ok y"
proof (induction rule: exchange_step.induct)
  case (exchange_tick a a' n up c down)
  from tick_ok [OF exchange_tick.prems exchange_tick.hyps] show ?case .
next
  case (exchange_serve n t c c' a up down)
  note old = exchange_serve.prems [unfolded exchange_ok_def prod.case]
  have "cs_sequence c < n" using old by simp
  from serve_heartbeat [OF exchange_serve.hyps this]
  have c': "cs_sequence c' = n" "cs_acks c' = cs_acks c @ [(n, tn_then t)]" by auto
  have "m < n" if "m \<in> set down" for m using old that by (metis le_less_trans list.set_intros(1))
  moreover have "al_acked a < n" using old by (metis le_less_trans list.set_intros(1))
  ultimately show ?case
    using old c' unfolding exchange_ok_def by (auto simp: sorted_wrt_append intro: order_less_imp_le)
next
  case (exchange_ack n a a' up c down)
  note old = exchange_ack.prems [unfolded exchange_ok_def prod.case]
  have "al_acked a' = n" "al_sent a' = al_sent a" "al_timer a' \<longleftrightarrow> n \<noteq> al_sent a"
    using exchange_ack.hyps by (auto simp: agent_turn_def split: if_splits)
  then show ?case using old unfolding exchange_ok_def by auto
next
  case (exchange_session a up c down s)
  then show ?case by (simp add: exchange_ok_def)
qed

lemma exchange_reach_ok: "exchange_reach interval offered persist x \<Longrightarrow> exchange_ok x"
proof (induction rule: exchange_reach.induct)
  case (exchange_start s now)
  show ?case by (simp add: exchange_ok_def start_loop_def start_control_def)
qed (blast intro: exchange_step_ok)

text \<open>C19: Agent and Server agree on the protocol of heartbeats: however the two ends and their messages
interleave, the Server never ends a connection for the heartbeat its Agent sent next (only because the
certificate expired, the store refused or the stream failed), the Agent never takes an acknowledgement for a
violation, and the Agent's timer runs exactly while a heartbeat of its own is unanswered.\<close>

theorem heartbeat_exchange_agrees:
  assumes "exchange_reach interval offered persist (a, up, c, down)"
  shows "(\<forall>n up' t c' e. up = n # up' \<longrightarrow> heartbeat_turn n t \<longrightarrow> serve_turn interval offered persist t c = (c', Some e) \<longrightarrow>
       (\<exists>x. e = EndPersist x) \<or> e \<in> {EndAck, EndExpired, EndDeadline})
    \<and> (\<forall>n down'. down = n # down' \<longrightarrow> snd (snd (agent_turn (AckArrived n) a)) = None)
    \<and> (al_timer a \<longleftrightarrow> al_acked a \<noteq> al_sent a)"
proof (intro conjI allI impI)
  note ok = exchange_reach_ok [OF assms, unfolded exchange_ok_def prod.case]
  show "(\<exists>x. e = EndPersist x) \<or> e \<in> {EndAck, EndExpired, EndDeadline}"
    if "up = n # up'" "heartbeat_turn n t" "serve_turn interval offered persist t c = (c', Some e)" for n up' t c' e
    using serve_heartbeat [OF that(2,3)] ok that(1) by auto
  show "snd (snd (agent_turn (AckArrived n) a)) = None" if "down = n # down'" for n down'
  proof -
    have "al_acked a < n" "n \<le> cs_sequence c" "cs_sequence c \<le> al_sent a" using ok that by auto
    then show ?thesis by (auto simp: agent_turn_def dest: order_trans)
  qed
  show "al_timer a \<longleftrightarrow> al_acked a \<noteq> al_sent a" using ok by blast
qed

definition after_tick :: agent_loop where "after_tick = \<lparr>al_sent = 1, al_acked = 0, al_timer = True\<rparr>"

definition guest_control :: control_state where
  "guest_control = start_control (new_session ''i'' (guest ''a'') 0 []) 0"

definition acknowledged_control :: control_state where
  "acknowledged_control = fst (serve_turn 60 True (refuses_from 100) (beat 1 5) guest_control)"

lemma acknowledged_run:
  "serve_turn 60 True (refuses_from 100) (beat 1 5) guest_control = (acknowledged_control, None)"
  "cs_acks guest_control = []" "cs_acks acknowledged_control = [(1, 5)]"
  by (simp_all add: acknowledged_control_def guest_control_def serve_turn_def take_heartbeat_def beat_def refuses_from_def
      start_control_def new_session_def guest_def protocol_version_def health_status_value_def record_heartbeat_def
      time_sub_def max_int64_def min_int64_def control_changes Let_def)

lemma one_round_reached: "exchange_reach 60 True (refuses_from 100) (after_tick, [], acknowledged_control, [1])"
proof -
  have 0: "exchange_reach 60 True (refuses_from 100) (start_loop, [], guest_control, [])"
    unfolding guest_control_def by (rule exchange_start)
  have "exchange_step 60 True (refuses_from 100) (start_loop, [], guest_control, []) (after_tick, [] @ [1], guest_control, [])"
    by (rule exchange_tick) (simp_all add: start_loop_def agent_turn_def after_tick_def)
  from exchange_more [OF 0 this] have 1: "exchange_reach 60 True (refuses_from 100) (after_tick, [1], guest_control, [])" by simp
  have "exchange_step 60 True (refuses_from 100) (after_tick, [1], guest_control, [])
      (after_tick, [], acknowledged_control, [] @ map fst (drop (length (cs_acks guest_control)) (cs_acks acknowledged_control)))"
    by (rule exchange_serve [OF _ acknowledged_run(1)]) (simp add: heartbeat_turn_def beat_def protocol_version_def)
  from exchange_more [OF 1 this] show ?thesis by (simp add: acknowledged_run)
qed

theorem heartbeat_exchange_agrees_witness:
  "snd (snd (agent_turn (AckArrived 1) after_tick)) = None \<and> al_timer after_tick"
  using heartbeat_exchange_agrees [OF one_round_reached] by (simp add: after_tick_def)

subsection \<open>Who comes back\<close>

text \<open>The code \<open>handleRevocation\<close> closes with.\<close>

definition revocation_close :: "revocation \<Rightarrow> close_code" where
  "revocation_close e =
     (if revocation_reason e = ''scope_suspended'' then CloseScopeSuspended else CloseAuthenticationError)"

lemma revocation_is_final:
  "permanent_agent_connection_error (GoAwayReceived (revocation_reason e)) \<longleftrightarrow> rv_reason e \<noteq> ''scope_suspended''"
  "permanent_agent_connection_error (ClosedByServer (revocation_close e)) \<longleftrightarrow> rv_reason e \<noteq> ''scope_suspended''"
  by (simp_all add: permanent_agent_connection_error_def go_away_is_permanent_def revocation_close_def revocation_reason_def)

lemma end_persist_close:
  assumes "end_persist x c1 = (c', e)"
  shows "e = Some (EndPersist x) \<and> cs_closes c' = cs_closes c1 @
    (case x of AgentScopeSuspended \<Rightarrow> [CloseScopeSuspended] | AgentCredentialRejected \<Rightarrow> [CloseAuthenticationError] | StoreFailed \<Rightarrow> [])"
  using assms by (cases x) (auto simp: end_persist_def Let_def control_changes)

lemma end_renewal_close:
  assumes "end_renewal x c1 = (c', e)"
  shows "e = Some (EndRenewal x) \<and> cs_closes c' = cs_closes c1 @ [renewal_close x]"
  using assms by (auto simp: end_renewal_def Let_def control_changes split: if_splits)

lemma heartbeat_end_close:
  assumes "take_heartbeat interval persist t n h c = (c', Some e)"
  shows "(\<forall>x. e \<noteq> EndRenewal x) \<and> (\<forall>x. e = EndPersist x \<longrightarrow> (\<exists>c1. end_persist x c1 = (c', Some e) \<and> cs_closes c1 = cs_closes c))"
proof -
  consider x c1 where "end_persist x c1 = (c', Some e)" "cs_closes c1 = cs_closes c"
    | c1 where "acknowledge t c1 = (c', Some e)" | "e = EndHeartbeat" | "e = EndHealth"
    using assms by (auto simp: take_heartbeat_def Let_def split: if_splits option.splits sum.splits)
  then show ?thesis
  proof cases
    case (1 x c1)
    then show ?thesis using end_persist_close [OF 1(1)] by auto
  next
    case (2 c1)
    then show ?thesis using acknowledge_cases [OF 2] by simp
  qed simp_all
qed

text \<open>A turn that ends with the store's or the renewal's refusal closes with that refusal's code alone.\<close>

lemma turn_end_close:
  assumes "serve_turn interval offered persist t c = (c', Some e)"
  shows "(\<forall>x. e = EndPersist x \<longrightarrow> (\<exists>c1. end_persist x c1 = (c', Some e) \<and> cs_closes c1 = cs_closes c))
    \<and> (\<forall>x. e = EndRenewal x \<longrightarrow> end_renewal x c = (c', Some e))"
proof -
  consider "e \<in> {EndExpired, EndDeadline, EndRead, EndVersion, EndGoodbye, EndHeartbeat}"
    | n h where "take_heartbeat interval persist t n h c = (c', Some e)"
    | x where "end_renewal x c = (c', Some e)"
    using assms
    by (auto simp: serve_turn_def end_expired_def end_failed_read_def split: if_splits option.splits control_message.splits sum.splits)
  then show ?thesis
  proof cases
    case (2 n h)
    from heartbeat_end_close [OF this] show ?thesis by blast
  next
    case (3 x)
    from end_renewal_close [OF this] 3 show ?thesis by auto
  qed auto
qed


definition suspension :: revocation where
  "suspension = \<lparr>rv_tenant = ''t'', rv_project = [], rv_cluster = [], rv_agent = [], rv_serial = [], rv_reason = ''scope_suspended''\<rparr>"

lemma rejected_turn:
  "\<exists>c'. serve_turn 60 True (refuses_from 100) (beat 2 120) acknowledged_control = (c', Some (EndPersist AgentCredentialRejected))"
  by (simp add: acknowledged_control_def guest_control_def serve_turn_def take_heartbeat_def beat_def refuses_from_def
      start_control_def new_session_def guest_def protocol_version_def health_status_value_def record_heartbeat_def
      time_sub_def max_int64_def min_int64_def control_changes Let_def word_le_nat_alt)


subsection \<open>A failure of the store during admission\<close>

text \<open>When the store merely fails while an admitted Agent is being activated (it is down, or the call timed
out), the connection is closed as if the credential had been rejected, and that code ends the Agent's loop
of reconnections at once: it does not retry, although its identity is as good as before. The same failure a
moment later, at a heartbeat, closes with no such code and is retried.\<close>

theorem failed_activation_ends_the_agent:
  assumes "admitted < limit" and "identity_from_certificate render decimal (hi_certificate x) = Inr i"
    and "hi_stream x" and "hi_deadline x" and "hi_frame x = Some (version, Some h)"
    and "validate_client_hello version (Some h) i = Inr ()" and "hi_activation x = Inl StoreFailed"
  shows "\<exists>code message. handshake render decimal limit admitted sink x = Inl (code, message)
    \<and> connection_loop jitter initial maximum interval (AttemptFailed (ClosedByServer code) stopped # rest)
        = ([], Some (AgentFailed (ClosedByServer code)))"
  using assms by (simp add: handshake_def permanent_agent_connection_error_def)

definition guest_uuid :: string where "guest_uuid = ''11111111-1111-4111-8111-111111111111''"

definition guest_certificate :: agent_certificate where
  "guest_certificate =
     \<lparr>ax_serial = 7, ax_uris = [\<lparr>iu_scheme = ''zke'', iu_host = ''agent'', iu_plain = True,
        iu_path = ''/tenants/'' @ guest_uuid @ ''/projects/'' @ guest_uuid @ ''/clusters/'' @ guest_uuid @ ''/agents/'' @ guest_uuid,
        iu_text = ''zke://agent/tenants/'' @ guest_uuid @ ''/projects/'' @ guest_uuid @ ''/clusters/'' @ guest_uuid @ ''/agents/'' @ guest_uuid\<rparr>],
      ax_common_name = guest_uuid, ax_not_after = 1000\<rparr>"

definition guest_handshake :: handshake_input where
  "guest_handshake =
     \<lparr>hi_certificate = Some guest_certificate, hi_stream = True, hi_deadline = True,
      hi_frame = Some (1, Some \<lparr>ch_agent = guest_uuid, ch_cluster = guest_uuid, ch_startup = guest_uuid,
        ch_version = ''v1'', ch_capabilities = []\<rparr>),
      hi_now = 0, hi_activation = Inl StoreFailed, hi_identifier = Some guest_uuid, hi_dispatcher = True\<rparr>"

lemma guest_identity:
  "case identity_from_certificate (\<lambda>path. ''zke://agent'' @ path) (\<lambda>_. ''7'') (hi_certificate guest_handshake) of
     Inl _ \<Rightarrow> False | Inr i \<Rightarrow> an_agent i = guest_uuid \<and> an_cluster i = guest_uuid"
  by code_simp

lemma guest_hello:
  "case hi_frame guest_handshake of
     Some (version, Some h) \<Rightarrow> version = 1 \<and> ch_agent h = guest_uuid \<and> ch_cluster h = guest_uuid \<and> is_uuid (ch_startup h)
       \<and> trim_space (ch_version h) = ch_version h \<and> length (ch_version h) = 2 \<and> ch_capabilities h = []
   | _ \<Rightarrow> False"
  by code_simp

theorem failed_activation_ends_the_agent_witness:
  "\<exists>code message. handshake (\<lambda>path. ''zke://agent'' @ path) (\<lambda>_. ''7'') 10 0 False guest_handshake = Inl (code, message)
    \<and> connection_loop id 1 60 1 [AttemptFailed (ClosedByServer code) False] = ([], Some (AgentFailed (ClosedByServer code)))"
proof -
  obtain i where i: "identity_from_certificate (\<lambda>path. ''zke://agent'' @ path) (\<lambda>_. ''7'') (hi_certificate guest_handshake) = Inr i"
      "an_agent i = guest_uuid" "an_cluster i = guest_uuid"
    using guest_identity by (auto split: sum.splits)
  obtain version h where h: "hi_frame guest_handshake = Some (version, Some h)" "version = 1" "ch_agent h = guest_uuid"
      "ch_cluster h = guest_uuid" "is_uuid (ch_startup h)" "trim_space (ch_version h) = ch_version h" "length (ch_version h) = 2"
      "ch_capabilities h = []"
    using guest_hello by (auto split: option.splits)
  have "validate_client_hello version (Some h) i = Inr ()"
    using h i by (auto simp: validate_client_hello_def protocol_version_def)
  then show ?thesis
    using i(1) h(1) by (intro failed_activation_ends_the_agent) (simp_all add: guest_handshake_def)
qed

end
