(* ===== verification/ScopeStore.thy ===== *)
theory ScopeStore
  imports AccessStore AgentExchange
begin

section \<open>Tenants, projects and clusters in the store\<close>

text \<open>
  \<open>pkg/server/store/resource_management.go\<close> and \<open>resource_lifecycle.go\<close>: the tables that hold the scopes and
  the Agents below them, and the transactions that create, rename, suspend, resume and delete a scope. A
  transaction is a function from the tables to its result and the tables it leaves, the old ones when it
  fails. Identifiers are values of the type \<open>uuid\<close>, so equal ones are equal texts. \<open>lower\<close> is the database's
  function of that name. Committing announces what the triggers of the migrations announce: Agents and
  credentials that were revoked, Agents that are gone, scopes that were suspended.
\<close>

subsection \<open>Tables\<close>

record tenant_row =
  te_id :: string
  te_name :: string
  te_status :: string
  te_created :: time
  te_updated :: time

record project_row =
  pj_id :: string
  pj_tenant :: string
  pj_name :: string
  pj_status :: string
  pj_created :: time
  pj_updated :: time

record cluster_row =
  cl_id :: string
  cl_tenant :: string
  cl_project :: string
  cl_name :: string
  cl_namespace :: string
  cl_status :: string
  cl_seen :: "time option"
  cl_created :: time
  cl_updated :: time

record agent_row =
  ag_id :: string
  ag_tenant :: string
  ag_project :: string
  ag_cluster :: string
  ag_version :: string
  ag_protocol :: string
  ag_lifecycle :: string
  ag_health :: string
  ag_serial :: "string option"
  ag_seen :: "time option"
  ag_created :: time
  ag_updated :: time

record credential_row =
  kr_id :: string
  kr_tenant :: string
  kr_project :: string
  kr_cluster :: string
  kr_agent :: string
  kr_serial :: string
  kr_fingerprint :: string
  kr_pem :: string
  kr_expires :: time
  kr_revoked :: "time option"

record enrollment_result =
  er_cluster :: string
  er_agent :: string
  er_pem :: string
  er_expires :: time

record enrollment_row =
  en_id :: string
  en_tenant :: string
  en_project :: string
  en_cluster :: "string option"
  en_name :: string
  en_namespace :: string
  en_digest :: string
  en_creator :: string
  en_key :: string
  en_expires :: time
  en_consumed :: "time option"
  en_revoked :: "time option"
  en_created :: time

record attempt_row =
  tr_id :: string
  tr_enrollment :: string
  tr_key :: string
  tr_fingerprint :: string
  tr_status :: string
  tr_result :: "enrollment_result option"

text \<open>One row of a table of creation requests; a tenant's has no tenant it belongs to.\<close>

record creation_request =
  cq_actor :: string
  cq_tenant :: "string option"
  cq_key :: string
  cq_name :: string
  cq_created :: string

record scope_audit =
  sa_actor_type :: string
  sa_actor :: string
  sa_scope :: string
  sa_tenant :: string
  sa_project :: string
  sa_cluster :: string
  sa_action :: string
  sa_target_type :: string
  sa_target :: string
  sa_result :: string
  sa_request :: string

record agent_db =
  gd_users :: "string list"
  gd_tenants :: "tenant_row list"
  gd_projects :: "project_row list"
  gd_clusters :: "cluster_row list"
  gd_agents :: "agent_row list"
  gd_credentials :: "credential_row list"
  gd_enrollments :: "enrollment_row list"
  gd_attempts :: "attempt_row list"
  gd_requests :: "creation_request list"
  gd_audits :: "scope_audit list"
  gd_notices :: "revocation list"

text \<open>\<open>gd_users\<close>: the identifiers of the active users.\<close>

definition active_actor :: "agent_db \<Rightarrow> string \<Rightarrow> bool" where
  "active_actor db u \<longleftrightarrow> u \<in> set (gd_users db)"

definition find_tenant :: "agent_db \<Rightarrow> string \<Rightarrow> tenant_row option" where
  "find_tenant db t = find (\<lambda>r. te_id r = t) (gd_tenants db)"

definition find_project :: "agent_db \<Rightarrow> string \<Rightarrow> project_row option" where
  "find_project db p = find (\<lambda>r. pj_id r = p) (gd_projects db)"

definition find_cluster :: "agent_db \<Rightarrow> string \<Rightarrow> cluster_row option" where
  "find_cluster db c = find (\<lambda>r. cl_id r = c) (gd_clusters db)"

definition tenant_status :: "agent_db \<Rightarrow> string \<Rightarrow> string option" where
  "tenant_status db t = map_option te_status (find_tenant db t)"

definition project_status :: "agent_db \<Rightarrow> string \<Rightarrow> string \<Rightarrow> string option" where
  "project_status db t p = map_option pj_status (find (\<lambda>r. pj_id r = p \<and> pj_tenant r = t) (gd_projects db))"

definition cluster_status :: "agent_db \<Rightarrow> string \<Rightarrow> string \<Rightarrow> string \<Rightarrow> string option" where
  "cluster_status db t p c =
     map_option cl_status (find (\<lambda>r. cl_id r = c \<and> cl_tenant r = t \<and> cl_project r = p) (gd_clusters db))"

subsection \<open>Announcements\<close>

definition no_target :: revocation where
  "no_target = \<lparr>rv_tenant = [], rv_project = [], rv_cluster = [], rv_agent = [], rv_serial = [], rv_reason = []\<rparr>"

definition announced :: "agent_db \<Rightarrow> agent_db \<Rightarrow> revocation list" where
  "announced db db' =
     concat (map (\<lambda>a. case find (\<lambda>b. ag_id b = ag_id a) (gd_agents db') of
         None \<Rightarrow> [no_target\<lparr>rv_agent := ag_id a\<rparr>]
       | Some b \<Rightarrow> if ag_lifecycle a \<noteq> ''revoked'' \<and> ag_lifecycle b = ''revoked'' then [no_target\<lparr>rv_agent := ag_id a\<rparr>] else [])
       (gd_agents db))
     @ concat (map (\<lambda>k. case find (\<lambda>l. kr_serial l = kr_serial k) (gd_credentials db') of
         None \<Rightarrow> []
       | Some l \<Rightarrow> if kr_revoked k = None \<and> kr_revoked l \<noteq> None
                  then [no_target\<lparr>rv_agent := kr_agent k, rv_serial := kr_serial k\<rparr>] else [])
       (gd_credentials db))
     @ concat (map (\<lambda>c. case find_cluster db' (cl_id c) of
         None \<Rightarrow> []
       | Some d \<Rightarrow> if cl_status c \<noteq> ''suspended'' \<and> cl_status d = ''suspended''
                  then [no_target\<lparr>rv_cluster := cl_id c, rv_reason := ''scope_suspended''\<rparr>] else [])
       (gd_clusters db))
     @ concat (map (\<lambda>p. case find_project db' (pj_id p) of
         None \<Rightarrow> []
       | Some q \<Rightarrow> if pj_status p \<noteq> ''suspended'' \<and> pj_status q = ''suspended''
                  then [no_target\<lparr>rv_project := pj_id p, rv_reason := ''scope_suspended''\<rparr>] else [])
       (gd_projects db))
     @ concat (map (\<lambda>t. case find_tenant db' (te_id t) of
         None \<Rightarrow> []
       | Some u \<Rightarrow> if te_status t \<noteq> ''suspended'' \<and> te_status u = ''suspended''
                  then [no_target\<lparr>rv_tenant := te_id t, rv_reason := ''scope_suspended''\<rparr>] else [])
       (gd_tenants db))"

definition commit :: "agent_db \<Rightarrow> agent_db \<Rightarrow> agent_db" where
  "commit db db' = db'\<lparr>gd_notices := gd_notices db @ announced db db'\<rparr>"

datatype scope_error =
    TenantNotFound | ProjectNotFound | ClusterNotFound | ResourceCreationConflict
  | TenantNameConflict | ProjectNameConflict | ClusterNameConflict | ResourceStateConflict | ResourceCreationNotAllowed
  | ScopeFailure string

type_synonym ('e, 'a) scope_transaction = "('e + 'a) \<times> agent_db"

definition insert_scope_audit :: "scope_audit \<Rightarrow> agent_db \<Rightarrow> agent_db" where
  "insert_scope_audit a db = db\<lparr>gd_audits := gd_audits db @ [a]\<rparr>"

definition resource_audit ::
    "actor_request \<Rightarrow> string \<Rightarrow> string \<Rightarrow> string \<Rightarrow> string \<Rightarrow> string \<Rightarrow> string \<Rightarrow> string \<Rightarrow> scope_audit" where
  "resource_audit q scope tenant project cluster action target_type target =
     \<lparr>sa_actor_type = ''user'', sa_actor = ar_actor q, sa_scope = scope, sa_tenant = tenant, sa_project = project,
      sa_cluster = cluster, sa_action = action, sa_target_type = target_type, sa_target = target,
      sa_result = ''succeeded'', sa_request = ar_request q\<rparr>"

definition lifecycle_audit_action :: "string \<Rightarrow> string \<Rightarrow> string \<Rightarrow> string \<Rightarrow> string \<Rightarrow> string" where
  "lifecycle_audit_action previous new update suspend resume =
     (if previous \<noteq> ''suspended'' \<and> new = ''suspended'' then suspend
      else if previous = ''suspended'' \<and> new \<noteq> ''suspended'' then resume
      else update)"

subsection \<open>Creation\<close>

definition invalid_create_params :: "string list \<Rightarrow> actor_request \<Rightarrow> bool" where
  "invalid_create_params texts q \<longleftrightarrow>
     list_ex (\<lambda>s. trim_space s = []) (texts @ [ar_actor q, ar_request q]) \<or> ar_now q = zero_time"

definition find_tenant_creation_replay ::
    "agent_db \<Rightarrow> actor_request \<Rightarrow> string \<Rightarrow> string \<Rightarrow> scope_error + tenant_row option" where
  "find_tenant_creation_replay db q name key =
     (case find (\<lambda>r. cq_tenant r = None \<and> cq_actor r = ar_actor q \<and> cq_key r = key) (gd_requests db) of
        None \<Rightarrow> Inr None
      | Some r \<Rightarrow>
          (case find_tenant db (cq_created r) of
             None \<Rightarrow> Inr None
           | Some t \<Rightarrow> if cq_name r \<noteq> name then Inl ResourceCreationConflict else Inr (Some t)))"

definition create_tenant ::
    "(string \<Rightarrow> string) \<Rightarrow> actor_request \<Rightarrow> string \<Rightarrow> string \<Rightarrow> string \<Rightarrow> agent_db
       \<Rightarrow> (scope_error, tenant_row \<times> bool) scope_transaction" where
  "create_tenant lower q i name key db =
     (if invalid_create_params [i, name, key] q then (Inl (ScopeFailure ''tenant creation fields are required''), db)
      else
        let taken = list_ex (\<lambda>r. lower (te_name r) = lower name) (gd_tenants db);
            replay = find_tenant_creation_replay db q name key in
        if \<not> active_actor db (ar_actor q) \<or> taken
        then (case replay of
                Inl e \<Rightarrow> (Inl e, db)
              | Inr (Some t) \<Rightarrow> (Inr (t, True), db)
              | Inr None \<Rightarrow> (Inl (if taken then TenantNameConflict else ResourceCreationNotAllowed), db))
        else if find_tenant db i \<noteq> None then (Inl (ScopeFailure ''insert tenant''), db)
        else if list_ex (\<lambda>r. cq_tenant r = None \<and> cq_actor r = ar_actor q \<and> cq_key r = key) (gd_requests db)
        then (case replay of
                Inl e \<Rightarrow> (Inl e, db)
              | Inr (Some t) \<Rightarrow> (Inr (t, True), db)
              | Inr None \<Rightarrow> (Inl (ScopeFailure ''tenant creation idempotency key is recorded without a tenant''), db))
        else
          let row = \<lparr>te_id = i, te_name = name, te_status = ''active'', te_created = ar_now q, te_updated = ar_now q\<rparr> in
          (Inr (row, False),
           commit db (insert_scope_audit (resource_audit q ''global'' [] [] [] ''tenant.create'' ''tenant'' i)
             (db\<lparr>gd_tenants := gd_tenants db @ [row],
                 gd_requests := gd_requests db @
                   [\<lparr>cq_actor = ar_actor q, cq_tenant = None, cq_key = key, cq_name = name, cq_created = i\<rparr>]\<rparr>))))"

definition find_project_creation_replay ::
    "agent_db \<Rightarrow> actor_request \<Rightarrow> string \<Rightarrow> string \<Rightarrow> string \<Rightarrow> scope_error + project_row option" where
  "find_project_creation_replay db q tenant name key =
     (case find (\<lambda>r. cq_tenant r = Some tenant \<and> cq_actor r = ar_actor q \<and> cq_key r = key) (gd_requests db) of
        None \<Rightarrow> Inr None
      | Some r \<Rightarrow>
          (case find (\<lambda>p. pj_id p = cq_created r \<and> pj_tenant p = tenant) (gd_projects db) of
             None \<Rightarrow> Inr None
           | Some p \<Rightarrow> if cq_name r \<noteq> name then Inl ResourceCreationConflict else Inr (Some p)))"

definition create_project ::
    "(string \<Rightarrow> string) \<Rightarrow> actor_request \<Rightarrow> string \<Rightarrow> string \<Rightarrow> string \<Rightarrow> string \<Rightarrow> agent_db
       \<Rightarrow> (scope_error, project_row \<times> bool) scope_transaction" where
  "create_project lower q i tenant name key db =
     (if invalid_create_params [i, tenant, name, key] q then (Inl (ScopeFailure ''project creation fields are required''), db)
      else
        let taken = list_ex (\<lambda>r. pj_tenant r = tenant \<and> lower (pj_name r) = lower name) (gd_projects db);
            replay = find_project_creation_replay db q tenant name key in
        if \<not> active_actor db (ar_actor q) \<or> tenant_status db tenant \<noteq> Some ''active'' \<or> taken
        then (case replay of
                Inl e \<Rightarrow> (Inl e, db)
              | Inr (Some p) \<Rightarrow> (Inr (p, True), db)
              | Inr None \<Rightarrow>
                  (Inl (if taken then ProjectNameConflict
                        else case tenant_status db tenant of
                          None \<Rightarrow> TenantNotFound
                        | Some st \<Rightarrow> if st \<noteq> ''active'' then ResourceStateConflict else ResourceCreationNotAllowed), db))
        else if find_project db i \<noteq> None then (Inl (ScopeFailure ''insert project''), db)
        else if list_ex (\<lambda>r. cq_tenant r = Some tenant \<and> cq_actor r = ar_actor q \<and> cq_key r = key) (gd_requests db)
        then (case replay of
                Inl e \<Rightarrow> (Inl e, db)
              | Inr (Some p) \<Rightarrow> (Inr (p, True), db)
              | Inr None \<Rightarrow> (Inl (ScopeFailure ''project creation idempotency key is recorded without a project''), db))
        else
          let row = \<lparr>pj_id = i, pj_tenant = tenant, pj_name = name, pj_status = ''active'', pj_created = ar_now q,
                     pj_updated = ar_now q\<rparr> in
          (Inr (row, False),
           commit db (insert_scope_audit (resource_audit q ''tenant'' tenant [] [] ''project.create'' ''project'' i)
             (db\<lparr>gd_projects := gd_projects db @ [row],
                 gd_requests := gd_requests db @
                   [\<lparr>cq_actor = ar_actor q, cq_tenant = Some tenant, cq_key = key, cq_name = name, cq_created = i\<rparr>]\<rparr>))))"

subsection \<open>Tenants and projects\<close>

definition update_tenant ::
    "(string \<Rightarrow> string) \<Rightarrow> actor_request \<Rightarrow> string \<Rightarrow> string \<Rightarrow> string \<Rightarrow> agent_db
       \<Rightarrow> (scope_error, tenant_row) scope_transaction" where
  "update_tenant lower q t name status db =
     (case find_tenant db t of
        None \<Rightarrow> (Inl TenantNotFound, db)
      | Some r \<Rightarrow>
          if \<not> active_actor db (ar_actor q) then (Inl TenantNotFound, db)
          else if list_ex (\<lambda>x. te_id x \<noteq> t \<and> lower (te_name x) = lower name) (gd_tenants db) then (Inl TenantNameConflict, db)
          else
            let item = r\<lparr>te_name := name, te_status := status, te_updated := max (te_updated r) (ar_now q)\<rparr> in
            (Inr item,
             commit db (insert_scope_audit (resource_audit q ''global'' [] [] []
                 (lifecycle_audit_action (te_status r) status ''tenant.update'' ''tenant.suspend'' ''tenant.resume'') ''tenant'' t)
               (db\<lparr>gd_tenants := update_where (\<lambda>x. te_id x = t) (\<lambda>_. item) (gd_tenants db)\<rparr>))))"

definition update_project ::
    "(string \<Rightarrow> string) \<Rightarrow> actor_request \<Rightarrow> string \<Rightarrow> string \<Rightarrow> string \<Rightarrow> agent_db
       \<Rightarrow> (scope_error, project_row) scope_transaction" where
  "update_project lower q p name status db =
     (case find_project db p of
        None \<Rightarrow> (Inl ProjectNotFound, db)
      | Some r \<Rightarrow>
          (case tenant_status db (pj_tenant r) of
             None \<Rightarrow> (Inl ProjectNotFound, db)
           | Some ts \<Rightarrow>
               if status = ''active'' \<and> ts \<noteq> ''active'' then (Inl ResourceStateConflict, db)
               else if \<not> active_actor db (ar_actor q) then (Inl ResourceCreationNotAllowed, db)
               else if list_ex (\<lambda>x. pj_id x \<noteq> p \<and> pj_tenant x = pj_tenant r \<and> lower (pj_name x) = lower name) (gd_projects db)
               then (Inl ProjectNameConflict, db)
               else
                 let item = r\<lparr>pj_name := name, pj_status := status, pj_updated := max (pj_updated r) (ar_now q)\<rparr> in
                 (Inr item,
                  commit db (insert_scope_audit (resource_audit q ''tenant'' (pj_tenant r) [] []
                      (lifecycle_audit_action (pj_status r) status ''project.update'' ''project.suspend'' ''project.resume'') ''project'' p)
                    (db\<lparr>gd_projects := update_where (\<lambda>x. pj_id x = p) (\<lambda>_. item) (gd_projects db)\<rparr>)))))"

subsection \<open>Clusters\<close>

definition expired_hold :: "time \<Rightarrow> enrollment_row \<Rightarrow> bool" where
  "expired_hold now e \<longleftrightarrow> en_consumed e = None \<and> en_revoked e = None \<and> en_expires e \<le> now"

definition open_enrollment :: "time \<Rightarrow> enrollment_row \<Rightarrow> bool" where
  "open_enrollment now e \<longleftrightarrow> en_consumed e = None \<and> en_revoked e = None \<and> now < en_expires e"

definition pending_name :: "(string \<Rightarrow> string) \<Rightarrow> string \<Rightarrow> string \<Rightarrow> enrollment_row \<Rightarrow> bool" where
  "pending_name lower project name e \<longleftrightarrow>
     en_project e = project \<and> lower (en_name e) = lower name \<and> en_consumed e = None \<and> en_revoked e = None"

text \<open>The name of the cluster's own open enrollments follows; another pending one may hold it already.\<close>

definition rename_enrollments :: "time \<Rightarrow> string \<Rightarrow> string \<Rightarrow> enrollment_row list \<Rightarrow> enrollment_row list" where
  "rename_enrollments now c name es =
     update_where (\<lambda>e. en_cluster e = Some c \<and> open_enrollment now e) (\<lambda>e. e\<lparr>en_name := name\<rparr>) es"

definition pending_names_unique :: "(string \<Rightarrow> string) \<Rightarrow> enrollment_row list \<Rightarrow> bool" where
  "pending_names_unique lower es \<longleftrightarrow>
     distinct (map (\<lambda>e. (en_project e, lower (en_name e))) (filter (\<lambda>e. en_consumed e = None \<and> en_revoked e = None) es))"

definition update_cluster ::
    "(string \<Rightarrow> string) \<Rightarrow> actor_request \<Rightarrow> string \<Rightarrow> string \<Rightarrow> string \<Rightarrow> agent_db
       \<Rightarrow> (scope_error, cluster_row) scope_transaction" where
  "update_cluster lower q c name status db =
     (case find_cluster db c of
        None \<Rightarrow> (Inl ClusterNotFound, db)
      | Some r \<Rightarrow>
          let now = ar_now q;
              es = update_where (\<lambda>e. en_project e = cl_project r \<and> expired_hold now e
                       \<and> (lower (en_name e) = lower name \<or> en_cluster e = Some c))
                     (\<lambda>e. e\<lparr>en_revoked := Some now\<rparr>) (gd_enrollments db) in
          if list_ex (\<lambda>e. pending_name lower (cl_project r) name e \<and> en_cluster e \<noteq> Some c \<and> now < en_expires e) es
          then (Inl ClusterNameConflict, db)
          else if project_status db (cl_tenant r) (cl_project r) \<noteq> Some ''active''
               \<or> tenant_status db (cl_tenant r) \<noteq> Some ''active'' \<or> \<not> active_actor db (ar_actor q)
          then (Inl ResourceStateConflict, db)
          else if list_ex (\<lambda>x. cl_id x \<noteq> c \<and> cl_project x = cl_project r \<and> lower (cl_name x) = lower name) (gd_clusters db)
          then (Inl ClusterNameConflict, db)
          else
            let item = r\<lparr>cl_name := name,
                         cl_status := (if status = ''suspended'' then ''suspended''
                                       else if cl_status r = ''suspended'' then ''pending'' else cl_status r),
                         cl_updated := max (cl_updated r) now\<rparr>;
                es' = rename_enrollments now c name es in
            if \<not> pending_names_unique lower es' then (Inl ClusterNameConflict, db)
            else
              (Inr item,
               commit db (insert_scope_audit (resource_audit q ''cluster'' (cl_tenant r) (cl_project r) c
                   (lifecycle_audit_action (cl_status r) (cl_status item) ''cluster.update'' ''cluster.suspend'' ''cluster.resume'')
                   ''cluster'' c)
                 (db\<lparr>gd_clusters := update_where (\<lambda>x. cl_id x = c) (\<lambda>_. item) (gd_clusters db), gd_enrollments := es'\<rparr>))))"

subsection \<open>Deletion\<close>

text \<open>The rows of the tables below a scope, by what identifies the scope in each.\<close>

definition delete_below ::
    "(enrollment_row \<Rightarrow> bool) \<Rightarrow> (credential_row \<Rightarrow> bool) \<Rightarrow> (agent_row \<Rightarrow> bool) \<Rightarrow> (cluster_row \<Rightarrow> bool) \<Rightarrow> agent_db \<Rightarrow> agent_db" where
  "delete_below pe pk pa pc db =
     db\<lparr>gd_attempts := filter (\<lambda>t. \<not> list_ex (\<lambda>e. pe e \<and> en_id e = tr_enrollment t) (gd_enrollments db)) (gd_attempts db),
        gd_enrollments := filter (\<lambda>e. \<not> pe e) (gd_enrollments db),
        gd_credentials := filter (\<lambda>k. \<not> pk k) (gd_credentials db),
        gd_agents := filter (\<lambda>a. \<not> pa a) (gd_agents db),
        gd_clusters := filter (\<lambda>c. \<not> pc c) (gd_clusters db)\<rparr>"

definition delete_cluster_tree :: "string \<Rightarrow> agent_db \<Rightarrow> agent_db" where
  "delete_cluster_tree c =
     delete_below (\<lambda>e. en_cluster e = Some c) (\<lambda>k. kr_cluster k = c) (\<lambda>a. ag_cluster a = c) (\<lambda>r. cl_id r = c)"

definition delete_project_tree :: "string \<Rightarrow> agent_db \<Rightarrow> agent_db" where
  "delete_project_tree p db =
     (let db' = delete_below (\<lambda>e. en_project e = p) (\<lambda>k. kr_project k = p) (\<lambda>a. ag_project a = p) (\<lambda>r. cl_project r = p) db
      in db'\<lparr>gd_requests := filter (\<lambda>r. \<not> (cq_tenant r \<noteq> None \<and> cq_created r = p)) (gd_requests db'),
             gd_projects := filter (\<lambda>r. pj_id r \<noteq> p) (gd_projects db')\<rparr>)"

definition delete_tenant_tree :: "string \<Rightarrow> agent_db \<Rightarrow> agent_db" where
  "delete_tenant_tree t db =
     (let db' = delete_below (\<lambda>e. en_tenant e = t) (\<lambda>k. kr_tenant k = t) (\<lambda>a. ag_tenant a = t) (\<lambda>r. cl_tenant r = t) db
      in db'\<lparr>gd_requests := filter (\<lambda>r. \<not> (cq_tenant r = Some t \<or> cq_tenant r = None \<and> cq_created r = t)) (gd_requests db'),
             gd_projects := filter (\<lambda>r. pj_tenant r \<noteq> t) (gd_projects db'),
             gd_tenants := filter (\<lambda>r. te_id r \<noteq> t) (gd_tenants db')\<rparr>)"

definition delete_tenant :: "actor_request \<Rightarrow> string \<Rightarrow> agent_db \<Rightarrow> (scope_error, tenant_row) scope_transaction" where
  "delete_tenant q t db =
     (case find_tenant db t of
        None \<Rightarrow> (Inl TenantNotFound, db)
      | Some r \<Rightarrow>
          if \<not> active_actor db (ar_actor q) then (Inl TenantNotFound, db)
          else (Inr r, commit db (delete_tenant_tree t
                 (insert_scope_audit (resource_audit q ''global'' [] [] [] ''tenant.delete'' ''tenant'' t) db))))"

definition delete_project :: "actor_request \<Rightarrow> string \<Rightarrow> agent_db \<Rightarrow> (scope_error, project_row) scope_transaction" where
  "delete_project q p db =
     (case find_project db p of
        None \<Rightarrow> (Inl ProjectNotFound, db)
      | Some r \<Rightarrow>
          if \<not> active_actor db (ar_actor q) then (Inl ProjectNotFound, db)
          else (Inr r, commit db (delete_project_tree p
                 (insert_scope_audit (resource_audit q ''tenant'' (pj_tenant r) [] [] ''project.delete'' ''project'' p) db))))"

definition delete_cluster :: "actor_request \<Rightarrow> string \<Rightarrow> agent_db \<Rightarrow> (scope_error, cluster_row) scope_transaction" where
  "delete_cluster q c db =
     (case find_cluster db c of
        None \<Rightarrow> (Inl ClusterNotFound, db)
      | Some r \<Rightarrow>
          if \<not> active_actor db (ar_actor q) then (Inl ClusterNotFound, db)
          else (Inr r, commit db (delete_cluster_tree c
                 (insert_scope_audit (resource_audit q ''cluster'' (cl_tenant r) (cl_project r) c ''cluster.delete'' ''cluster'' c) db))))"

end
