(* ===== verification/CredentialStore.thy ===== *)
theory CredentialStore
  imports ScopeStore
begin

section \<open>Credentials of Agents in the store\<close>

text \<open>
  \<open>pkg/server/store/agent_connection.go\<close> and \<open>agent_management.go\<close>: activating a connection, recording a
  heartbeat, renewing a credential, revoking an Agent. The reports of a failing database are left out here:
  every operation is the transaction that reached it.
\<close>

subsection \<open>Who is refused, and why\<close>

definition agent_of :: "agent_identity \<Rightarrow> agent_row \<Rightarrow> bool" where
  "agent_of i a \<longleftrightarrow>
     ag_tenant a = an_tenant i \<and> ag_project a = an_project i \<and> ag_cluster a = an_cluster i \<and> ag_id a = an_agent i"

definition credential_of :: "agent_identity \<Rightarrow> credential_row \<Rightarrow> bool" where
  "credential_of i k \<longleftrightarrow>
     kr_tenant k = an_tenant i \<and> kr_project k = an_project i \<and> kr_cluster k = an_cluster i \<and> kr_agent k = an_agent i"

definition usable_credential :: "agent_identity \<Rightarrow> string \<Rightarrow> time \<Rightarrow> credential_row \<Rightarrow> bool" where
  "usable_credential i serial now k \<longleftrightarrow>
     credential_of i k \<and> kr_serial k = serial \<and> kr_revoked k = None \<and> now < kr_expires k"

definition scope_active :: "agent_db \<Rightarrow> agent_identity \<Rightarrow> bool" where
  "scope_active db i \<longleftrightarrow>
     project_status db (an_tenant i) (an_project i) = Some ''active'' \<and> tenant_status db (an_tenant i) = Some ''active''"

definition classify_rejection :: "agent_db \<Rightarrow> agent_identity \<Rightarrow> string \<Rightarrow> time \<Rightarrow> store_refusal" where
  "classify_rejection db i serial now =
     (if list_ex (\<lambda>a. agent_of i a \<and> ag_lifecycle a \<noteq> ''revoked'') (gd_agents db)
         \<and> list_ex (usable_credential i serial now) (gd_credentials db)
      then (case (tenant_status db (an_tenant i), project_status db (an_tenant i) (an_project i),
                  cluster_status db (an_tenant i) (an_project i) (an_cluster i)) of
              (Some t, Some p, Some c) \<Rightarrow>
                if t = ''suspended'' \<or> p = ''suspended'' \<or> c = ''suspended'' then AgentScopeSuspended else AgentCredentialRejected
            | _ \<Rightarrow> AgentCredentialRejected)
      else AgentCredentialRejected)"

subsection \<open>Activation\<close>

record activation =
  av_identity :: agent_identity
  av_serial :: string
  av_version :: string
  av_protocol :: string
  av_health :: string
  av_now :: time

definition may_activate :: "agent_db \<Rightarrow> agent_identity \<Rightarrow> string \<Rightarrow> time \<Rightarrow> bool" where
  "may_activate db i serial now \<longleftrightarrow>
     list_ex (\<lambda>a. agent_of i a \<and> ag_lifecycle a \<noteq> ''revoked'') (gd_agents db)
     \<and> list_ex (usable_credential i serial now) (gd_credentials db)
     \<and> cluster_status db (an_tenant i) (an_project i) (an_cluster i) \<notin> {None, Some ''suspended''}
     \<and> scope_active db i"

text \<open>The three updates of the statement, all on the tables as it found them.\<close>

definition activate_connection :: "activation \<Rightarrow> agent_db \<Rightarrow> (store_refusal, unit) scope_transaction" where
  "activate_connection v db =
     (let i = av_identity v; now = av_now v in
      if \<not> may_activate db i (av_serial v) now then (Inl (classify_rejection db i (av_serial v) now), db)
      else
        (Inr (),
         commit db (db\<lparr>
           gd_credentials := update_where (\<lambda>k. credential_of i k \<and> kr_serial k \<noteq> av_serial v \<and> kr_revoked k = None)
             (\<lambda>k. k\<lparr>kr_revoked := Some now\<rparr>) (gd_credentials db),
           gd_agents := update_where (\<lambda>a. ag_id a = an_agent i)
             (\<lambda>a. a\<lparr>ag_version := av_version v, ag_protocol := av_protocol v, ag_lifecycle := ''active'',
                    ag_health := av_health v, ag_serial := Some (av_serial v), ag_seen := Some now, ag_updated := now\<rparr>)
             (gd_agents db),
           gd_clusters := update_where (\<lambda>c. cl_tenant c = an_tenant i \<and> cl_project c = an_project i \<and> cl_id c = an_cluster i
               \<and> cl_status c \<noteq> ''suspended'')
             (\<lambda>c. c\<lparr>cl_status := ''active'', cl_seen := Some now, cl_updated := now\<rparr>) (gd_clusters db)\<rparr>)))"

subsection \<open>Heartbeats\<close>

definition may_beat :: "agent_db \<Rightarrow> agent_identity \<Rightarrow> string \<Rightarrow> time \<Rightarrow> bool" where
  "may_beat db i serial now \<longleftrightarrow>
     list_ex (\<lambda>a. agent_of i a \<and> ag_lifecycle a = ''active'') (gd_agents db)
     \<and> cluster_status db (an_tenant i) (an_project i) (an_cluster i) = Some ''active''
     \<and> list_ex (usable_credential i serial now) (gd_credentials db)
     \<and> scope_active db i"

definition record_agent_heartbeat ::
    "agent_identity \<Rightarrow> string \<Rightarrow> string \<Rightarrow> time \<Rightarrow> agent_db \<Rightarrow> (store_refusal, unit) scope_transaction" where
  "record_agent_heartbeat i serial health now db =
     (if \<not> may_beat db i serial now then (Inl (classify_rejection db i serial now), db)
      else
        (Inr (),
         commit db (db\<lparr>
           gd_agents := update_where (\<lambda>a. agent_of i a \<and> ag_lifecycle a = ''active'')
             (\<lambda>a. a\<lparr>ag_health := health, ag_seen := Some now, ag_updated := now\<rparr>) (gd_agents db),
           gd_clusters := update_where (\<lambda>c. cl_tenant c = an_tenant i \<and> cl_project c = an_project i \<and> cl_id c = an_cluster i
               \<and> cl_status c = ''active'')
             (\<lambda>c. c\<lparr>cl_seen := Some now, cl_updated := now\<rparr>) (gd_clusters db)\<rparr>)))"

subsection \<open>Renewal\<close>

record renewal =
  rn_identity :: agent_identity
  rn_current :: string
  rn_fingerprint :: string
  rn_serial :: string
  rn_pem :: string
  rn_expires :: time
  rn_request :: string
  rn_now :: time

definition renewal_fields_ok :: "renewal \<Rightarrow> bool" where
  "renewal_fields_ok r \<longleftrightarrow>
     trim_space (rn_current r) \<noteq> [] \<and> length (rn_fingerprint r) = 32 \<and> trim_space (rn_serial r) \<noteq> []
     \<and> trim_space (rn_pem r) \<noteq> [] \<and> rn_now r < rn_expires r \<and> trim_space (rn_request r) \<noteq> [] \<and> rn_now r \<noteq> zero_time"

definition may_renew :: "agent_db \<Rightarrow> agent_identity \<Rightarrow> string \<Rightarrow> time \<Rightarrow> bool" where
  "may_renew db i serial now \<longleftrightarrow>
     list_ex (usable_credential i serial now) (gd_credentials db)
     \<and> list_ex (\<lambda>a. agent_of i a \<and> ag_lifecycle a = ''active'') (gd_agents db)
     \<and> cluster_status db (an_tenant i) (an_project i) (an_cluster i) = Some ''active''
     \<and> scope_active db i"

definition renewal_audit :: "renewal \<Rightarrow> string \<Rightarrow> scope_audit" where
  "renewal_audit r credential =
     \<lparr>sa_actor_type = ''agent'', sa_actor = an_agent (rn_identity r), sa_scope = ''cluster'',
      sa_tenant = an_tenant (rn_identity r), sa_project = an_project (rn_identity r),
      sa_cluster = an_cluster (rn_identity r), sa_action = ''agent.certificate.renew'',
      sa_target_type = ''agent_credential'', sa_target = credential, sa_result = ''succeeded'', sa_request = rn_request r\<rparr>"

definition renewed_row :: "renewal \<Rightarrow> string \<Rightarrow> credential_row" where
  "renewed_row r credential =
     \<lparr>kr_id = credential, kr_tenant = an_tenant (rn_identity r), kr_project = an_project (rn_identity r),
      kr_cluster = an_cluster (rn_identity r), kr_agent = an_agent (rn_identity r), kr_serial = rn_serial r,
      kr_fingerprint = rn_fingerprint r, kr_pem = rn_pem r, kr_expires = rn_expires r, kr_revoked = None\<rparr>"

definition renew_credential ::
    "string \<Rightarrow> renewal \<Rightarrow> agent_db \<Rightarrow> (store_refusal, credential_row) scope_transaction" where
  "renew_credential credential r db =
     (let i = rn_identity r; now = rn_now r in
      if \<not> renewal_fields_ok r then (Inl StoreFailed, db)
      else if \<not> may_renew db i (rn_current r) now then (Inl (classify_rejection db i (rn_current r) now), db)
      else (case find (\<lambda>k. credential_of i k \<and> kr_fingerprint k = rn_fingerprint r) (gd_credentials db) of
              Some k \<Rightarrow>
                if kr_revoked k \<noteq> None \<or> kr_expires k \<le> now then (Inl AgentCredentialRejected, db) else (Inr k, db)
            | None \<Rightarrow>
                if list_ex (\<lambda>k. kr_serial k = rn_serial r) (gd_credentials db) then (Inl StoreFailed, db)
                else (Inr (renewed_row r credential),
                      commit db (insert_scope_audit (renewal_audit r credential)
                        (db\<lparr>gd_credentials := gd_credentials db @ [renewed_row r credential]\<rparr>)))))"

subsection \<open>Revocation\<close>

text \<open>The order of the query: Agents that are not revoked first, then the newest.\<close>

definition revoked_before :: "agent_row \<Rightarrow> agent_row \<Rightarrow> bool" where
  "revoked_before a b \<longleftrightarrow>
     (if (ag_lifecycle a \<noteq> ''revoked'') = (ag_lifecycle b \<noteq> ''revoked'') then ag_created b \<le> ag_created a
      else ag_lifecycle a \<noteq> ''revoked'')"

fun first_to_revoke :: "agent_row list \<Rightarrow> agent_row option" where
  "first_to_revoke [] = None"
| "first_to_revoke (a # as) =
     (case first_to_revoke as of None \<Rightarrow> Some a | Some b \<Rightarrow> if revoked_before a b then Some a else Some b)"

datatype revoke_error = AgentNotFound | RevokeFailure string

record agent_revoked =
  ad_agent :: string
  ad_at :: time
  ad_already :: bool

definition revoke_agent :: "actor_request \<Rightarrow> string \<Rightarrow> agent_db \<Rightarrow> (revoke_error, agent_revoked) scope_transaction" where
  "revoke_agent q c db =
     (if trim_space c = [] \<or> trim_space (ar_actor q) = [] \<or> trim_space (ar_request q) = [] \<or> ar_now q = zero_time
      then (Inl (RevokeFailure ''Agent revocation fields are required''), db)
      else case first_to_revoke (filter (\<lambda>a. ag_cluster a = c) (gd_agents db)) of
        None \<Rightarrow> (Inl AgentNotFound, db)
      | Some a \<Rightarrow>
          let now = ar_now q; already = (ag_lifecycle a = ''revoked'');
              audit = resource_audit q ''cluster'' (ag_tenant a) (ag_project a) (ag_cluster a) ''cluster.connection.revoke''
                        ''cluster'' (ag_cluster a);
              db' = (if already then db
                     else db\<lparr>gd_agents := update_where (\<lambda>x. ag_id x = ag_id a)
                               (\<lambda>x. x\<lparr>ag_lifecycle := ''revoked'', ag_health := ''unknown'', ag_updated := now\<rparr>) (gd_agents db),
                             gd_credentials := update_where (\<lambda>k. kr_agent k = ag_id a \<and> kr_revoked k = None)
                               (\<lambda>k. k\<lparr>kr_revoked := Some now\<rparr>) (gd_credentials db)\<rparr>)
          in (Inr \<lparr>ad_agent = ag_id a, ad_at = (if already then ag_updated a else now), ad_already = already\<rparr>,
              commit db (insert_scope_audit audit db')))"

end
