(* ===== verification/EnrollmentStore.thy ===== *)
theory EnrollmentStore
  imports CredentialStore
begin

section \<open>Enrollment of Agents\<close>

text \<open>
  \<open>pkg/server/store/enrollment.go\<close>, \<open>enrollment_management.go\<close> and \<open>agent_enrollment.go\<close>: issuing a token,
  beginning and completing an attempt with it, revoking it; and \<open>pkg/server/enrollment/agent.go\<close>, the
  enrollment of an Agent composed of them. Parsing requests and signing certificates belong to the
  standard library's X.509: they are parameters, as are the identifiers drawn at random.
\<close>

subsection \<open>Issuing a token\<close>

datatype enrollment_error =
    EnrollmentCreationDenied | EnrollmentIdempotencyConflict | EnrollmentTokenRejected | EnrollmentAttemptConflict
  | EnrollmentAttemptFailed | EnrollmentAttemptNotFound | EnrollmentNotFound | EnrollmentStateConflict
  | EnrollmentNameConflict | EnrollmentFailure string

record enrollment_params =
  ep_project :: string
  ep_cluster :: string
  ep_name :: string
  ep_namespace :: string
  ep_digest :: string
  ep_key :: string
  ep_expires :: time
  ep_snapshot :: bool

text \<open>\<open>ep_snapshot\<close>: the other parts of the configuration's snapshot are all there.\<close>

definition cluster_may_reenroll :: "time \<Rightarrow> enrollment_params \<Rightarrow> project_row \<Rightarrow> agent_db \<Rightarrow> bool" where
  "cluster_may_reenroll dbnow e p db \<longleftrightarrow>
     list_ex (\<lambda>c. cl_id c = ep_cluster e \<and> cl_tenant c = pj_tenant p \<and> cl_project c = pj_id p
        \<and> cl_namespace c = ep_namespace e \<and> cl_status c \<noteq> ''suspended'') (gd_clusters db)
     \<and> \<not> list_ex (\<lambda>a. ag_cluster a = ep_cluster e \<and> ag_lifecycle a \<noteq> ''revoked'') (gd_agents db)
     \<and> \<not> list_ex (\<lambda>x. en_cluster x = Some (ep_cluster e) \<and> open_enrollment dbnow x) (gd_enrollments db)"

definition may_issue ::
    "(string \<Rightarrow> string) \<Rightarrow> actor_request \<Rightarrow> time \<Rightarrow> enrollment_params \<Rightarrow> agent_db \<Rightarrow> project_row option" where
  "may_issue lower q dbnow e db =
     (case find_project db (ep_project e) of
        None \<Rightarrow> None
      | Some p \<Rightarrow>
          if pj_status p = ''active'' \<and> tenant_status db (pj_tenant p) = Some ''active'' \<and> active_actor db (ar_actor q)
             \<and> (ep_cluster e \<noteq> [] \<or> \<not> list_ex (\<lambda>c. cl_project c = pj_id p \<and> lower (cl_name c) = lower (ep_name e)) (gd_clusters db))
             \<and> (ep_cluster e = [] \<or> cluster_may_reenroll dbnow e p db)
          then Some p else None)"

definition enrollment_audit :: "actor_request \<Rightarrow> enrollment_row \<Rightarrow> scope_audit" where
  "enrollment_audit q x =
     \<lparr>sa_actor_type = ''user'', sa_actor = en_creator x,
      sa_scope = (if en_cluster x = None then ''project'' else ''cluster''), sa_tenant = en_tenant x, sa_project = en_project x,
      sa_cluster = (case en_cluster x of None \<Rightarrow> [] | Some c \<Rightarrow> c),
      sa_action = (if en_cluster x = None then ''cluster.enrollment.create'' else ''cluster.connection.reenroll''),
      sa_target_type = ''enrollment'', sa_target = en_id x, sa_result = ''succeeded'', sa_request = ar_request q\<rparr>"

text \<open>\<open>ar_now q\<close> is the Server's clock, \<open>dbnow\<close> the database's.\<close>

definition create_enrollment ::
    "(string \<Rightarrow> string) \<Rightarrow> actor_request \<Rightarrow> time \<Rightarrow> string \<Rightarrow> enrollment_params \<Rightarrow> agent_db
       \<Rightarrow> (enrollment_error, enrollment_row) scope_transaction" where
  "create_enrollment lower q dbnow i e db =
     (if list_ex (\<lambda>s. trim_space s = []) [ep_project e, ep_name e, ar_actor q, ar_request q, ep_key e] \<or> ep_expires e = zero_time
      then (Inl (EnrollmentFailure ''enrollment creation fields are required''), db)
      else if length (ep_digest e) \<noteq> 32 then (Inl (EnrollmentFailure ''enrollment token digest must use SHA-256''), db)
      else if \<not> ep_snapshot e \<or> trim_space (ep_namespace e) = []
      then (Inl (EnrollmentFailure ''enrollment configuration snapshot is required''), db)
      else
        let db1 = db\<lparr>gd_enrollments := update_where
               (\<lambda>x. en_project x = ep_project e \<and> lower (en_name x) = lower (ep_name e) \<and> expired_hold (ar_now q) x)
               (\<lambda>x. x\<lparr>en_revoked := Some (ar_now q)\<rparr>) (gd_enrollments db)\<rparr>;
            same_key = list_ex (\<lambda>x. en_creator x = ar_actor q \<and> en_project x = ep_project e \<and> en_key x = ep_key e) (gd_enrollments db1);
            pending = list_ex (pending_name lower (ep_project e) (ep_name e)) (gd_enrollments db1) in
        case (may_issue lower q dbnow e db1, same_key) of
          (Some p, False) \<Rightarrow>
            if pending \<or> list_ex (\<lambda>x. en_digest x = ep_digest e) (gd_enrollments db1)
            then (Inl EnrollmentNameConflict, db)
            else
              let row = \<lparr>en_id = i, en_tenant = pj_tenant p, en_project = pj_id p,
                         en_cluster = (if ep_cluster e = [] then None else Some (ep_cluster e)), en_name = ep_name e,
                         en_namespace = ep_namespace e, en_digest = ep_digest e, en_creator = ar_actor q, en_key = ep_key e,
                         en_expires = ep_expires e, en_consumed = None, en_revoked = None, en_created = dbnow\<rparr> in
              (Inr row, commit db (insert_scope_audit (enrollment_audit q row) (db1\<lparr>gd_enrollments := gd_enrollments db1 @ [row]\<rparr>)))
        | _ \<Rightarrow>
            (Inl (if same_key then EnrollmentIdempotencyConflict
                  else if ep_cluster e = [] \<and>
                    (list_ex (\<lambda>c. cl_project c = ep_project e \<and> lower (cl_name c) = lower (ep_name e)) (gd_clusters db1) \<or> pending)
                  then EnrollmentNameConflict else EnrollmentCreationDenied), db))"

text \<open>\<open>enrollmentFromStore\<close>: the state of a token, as the listing's filter derives it too.\<close>

definition enrollment_status :: "time \<Rightarrow> enrollment_row \<Rightarrow> string" where
  "enrollment_status now x =
     (if en_revoked x \<noteq> None then ''revoked'' else if en_consumed x \<noteq> None then ''consumed''
      else if en_expires x \<le> now then ''expired'' else ''active'')"

definition revoke_enrollment ::
    "actor_request \<Rightarrow> string \<Rightarrow> string \<Rightarrow> agent_db \<Rightarrow> (enrollment_error, enrollment_row) scope_transaction" where
  "revoke_enrollment q project i db =
     (case find (\<lambda>x. en_project x = project \<and> en_id x = i) (gd_enrollments db) of
        None \<Rightarrow> (Inl EnrollmentNotFound, db)
      | Some x \<Rightarrow>
          if en_consumed x \<noteq> None then (Inl EnrollmentStateConflict, db)
          else
            let item = x\<lparr>en_revoked := Some (case en_revoked x of None \<Rightarrow> ar_now q | Some t \<Rightarrow> t)\<rparr> in
            (Inr item,
             commit db (insert_scope_audit (resource_audit q ''project'' (en_tenant x) (en_project x) [] ''cluster.enrollment.revoke'' ''enrollment'' i)
               (if en_revoked x = None then db\<lparr>gd_enrollments := update_where (\<lambda>y. en_id y = i) (\<lambda>_. item) (gd_enrollments db)\<rparr> else db))))"

subsection \<open>The token of an attempt\<close>

text \<open>The enrollment with the locked rows of its scope; a row that is missing finds nothing.\<close>

definition locked_scope :: "agent_db \<Rightarrow> enrollment_row \<Rightarrow> (string \<times> string \<times> string) option" where
  "locked_scope db x =
     (case (tenant_status db (en_tenant x), project_status db (en_tenant x) (en_project x)) of
        (Some t, Some p) \<Rightarrow>
          (case en_cluster x of
             None \<Rightarrow> Some (t, p, [])
           | Some c \<Rightarrow> (case cluster_status db (en_tenant x) (en_project x) c of None \<Rightarrow> None | Some s \<Rightarrow> Some (t, p, s)))
      | _ \<Rightarrow> None)"

definition lock_enrollment :: "agent_db \<Rightarrow> (enrollment_row \<Rightarrow> bool) \<Rightarrow> (enrollment_row \<times> string \<times> string \<times> string) option" where
  "lock_enrollment db P =
     (case find P (gd_enrollments db) of
        None \<Rightarrow> None
      | Some x \<Rightarrow> map_option (\<lambda>s. (x, s)) (locked_scope db x))"

definition is_usable :: "time \<Rightarrow> enrollment_row \<times> string \<times> string \<times> string \<Rightarrow> bool" where
  "is_usable now l \<longleftrightarrow> (case l of (x, t, p, c) \<Rightarrow>
     t = ''active'' \<and> p = ''active'' \<and> (en_cluster x = None \<or> c \<noteq> ''suspended'')
     \<and> en_consumed x = None \<and> en_revoked x = None \<and> now < en_expires x)"

definition rejected_audit :: "string \<Rightarrow> enrollment_row option \<Rightarrow> scope_audit" where
  "rejected_audit request x =
     \<lparr>sa_actor_type = ''system'', sa_actor = [], sa_scope = (if x = None then ''global'' else ''project''),
      sa_tenant = (case x of None \<Rightarrow> [] | Some x \<Rightarrow> en_tenant x), sa_project = (case x of None \<Rightarrow> [] | Some x \<Rightarrow> en_project x),
      sa_cluster = [], sa_action = ''cluster.enroll'', sa_target_type = ''enrollment'',
      sa_target = (case x of None \<Rightarrow> [] | Some x \<Rightarrow> en_id x), sa_result = ''denied'', sa_request = request\<rparr>"

definition reject_enrollment ::
    "enrollment_error \<Rightarrow> string \<Rightarrow> enrollment_row option \<Rightarrow> agent_db \<Rightarrow> (enrollment_error, 'a) scope_transaction" where
  "reject_enrollment e request x db = (Inl e, commit db (insert_scope_audit (rejected_audit request x) db))"

record enroll_request =
  eq_digest :: string
  eq_key :: string
  eq_fingerprint :: string
  eq_request :: string
  eq_now :: time

definition find_attempt :: "agent_db \<Rightarrow> enrollment_row \<Rightarrow> string \<Rightarrow> attempt_row option" where
  "find_attempt db x key = find (\<lambda>t. tr_enrollment t = en_id x \<and> tr_key t = key) (gd_attempts db)"

text \<open>A succeeded attempt without its response is an error of the read.\<close>

definition begin_enrollment ::
    "string \<Rightarrow> enroll_request \<Rightarrow> agent_db \<Rightarrow> (enrollment_error, enrollment_row \<times> attempt_row) scope_transaction" where
  "begin_enrollment i q db =
     (if length (eq_digest q) \<noteq> 32 then (Inl (EnrollmentFailure ''enrollment token digest must use SHA-256''), db)
      else if trim_space (eq_key q) = [] \<or> length (eq_fingerprint q) \<noteq> 32 \<or> trim_space (eq_request q) = [] \<or> eq_now q = zero_time
      then (Inl (EnrollmentFailure ''agent enrollment attempt fields are required''), db)
      else case lock_enrollment db (\<lambda>x. en_digest x = eq_digest q) of
        None \<Rightarrow> reject_enrollment EnrollmentTokenRejected (eq_request q) None db
      | Some l \<Rightarrow>
          (case find_attempt db (fst l) (eq_key q) of
             None \<Rightarrow>
               if \<not> is_usable (eq_now q) l then reject_enrollment EnrollmentTokenRejected (eq_request q) (Some (fst l)) db
               else let t = \<lparr>tr_id = i, tr_enrollment = en_id (fst l), tr_key = eq_key q, tr_fingerprint = eq_fingerprint q,
                             tr_status = ''pending'', tr_result = None\<rparr> in
                 (Inr (fst l, t), commit db (db\<lparr>gd_attempts := gd_attempts db @ [t]\<rparr>))
           | Some t \<Rightarrow>
               if tr_status t = ''succeeded'' \<and> tr_result t = None
               then (Inl (EnrollmentFailure ''succeeded agent enrollment attempt has no stored response''), db)
               else if tr_fingerprint t \<noteq> eq_fingerprint q
               then reject_enrollment EnrollmentAttemptConflict (eq_request q) (Some (fst l)) db
               else if tr_status t = ''succeeded'' then (Inr (fst l, t), db)
               else if tr_status t = ''failed'' then (Inl EnrollmentAttemptFailed, db)
               else if \<not> is_usable (eq_now q) l then reject_enrollment EnrollmentTokenRejected (eq_request q) (Some (fst l)) db
               else (Inr (fst l, t), db)))"

subsection \<open>Completing an attempt\<close>

record completion =
  ec_enrollment :: string
  ec_attempt :: string
  ec_key :: string
  ec_fingerprint :: string
  ec_cluster :: string
  ec_agent :: string
  ec_version :: string
  ec_protocol :: string
  ec_serial :: string
  ec_pem :: string
  ec_expires :: time
  ec_request :: string
  ec_now :: time

definition completion_fields_ok :: "completion \<Rightarrow> bool" where
  "completion_fields_ok c \<longleftrightarrow>
     list_all (\<lambda>s. trim_space s \<noteq> [])
       [ec_enrollment c, ec_attempt c, ec_key c, ec_cluster c, ec_agent c, ec_version c, ec_protocol c, ec_serial c, ec_pem c, ec_request c]
     \<and> length (ec_fingerprint c) = 32 \<and> ec_now c < ec_expires c \<and> ec_now c \<noteq> zero_time"

definition completed_audit :: "completion \<Rightarrow> enrollment_row \<Rightarrow> scope_audit" where
  "completed_audit c x =
     \<lparr>sa_actor_type = ''agent'', sa_actor = ec_agent c, sa_scope = ''cluster'', sa_tenant = en_tenant x, sa_project = en_project x,
      sa_cluster = ec_cluster c, sa_action = ''cluster.enroll'', sa_target_type = ''cluster'', sa_target = ec_cluster c,
      sa_result = ''succeeded'', sa_request = ec_request c\<rparr>"

text \<open>The cluster row a first enrollment inserts; one with that identifier or name there already is a conflict.\<close>

definition enrolled_cluster ::
    "(string \<Rightarrow> string) \<Rightarrow> time \<Rightarrow> completion \<Rightarrow> enrollment_row \<Rightarrow> agent_db \<Rightarrow> enrollment_error + cluster_row list" where
  "enrolled_cluster lower dbnow c x db =
     (case en_cluster x of
        None \<Rightarrow>
          if list_ex (\<lambda>r. cl_id r = ec_cluster c \<or> cl_project r = en_project x \<and> lower (cl_name r) = lower (en_name x)) (gd_clusters db)
          then Inl EnrollmentNameConflict
          else Inr (gd_clusters db @
            [\<lparr>cl_id = ec_cluster c, cl_tenant = en_tenant x, cl_project = en_project x, cl_name = en_name x,
              cl_namespace = en_namespace x, cl_status = ''pending'', cl_seen = None, cl_created = dbnow, cl_updated = dbnow\<rparr>])
      | Some d \<Rightarrow> if d \<noteq> ec_cluster c then Inl EnrollmentAttemptConflict else Inr (gd_clusters db))"

definition enrolled_agent :: "time \<Rightarrow> completion \<Rightarrow> enrollment_row \<Rightarrow> agent_row" where
  "enrolled_agent dbnow c x =
     \<lparr>ag_id = ec_agent c, ag_tenant = en_tenant x, ag_project = en_project x, ag_cluster = ec_cluster c, ag_version = ec_version c,
      ag_protocol = ec_protocol c, ag_lifecycle = ''pending'', ag_health = ''unknown'', ag_serial = None, ag_seen = None,
      ag_created = dbnow, ag_updated = dbnow\<rparr>"

definition enrolled_credential :: "string \<Rightarrow> completion \<Rightarrow> enrollment_row \<Rightarrow> credential_row" where
  "enrolled_credential i c x =
     \<lparr>kr_id = i, kr_tenant = en_tenant x, kr_project = en_project x, kr_cluster = ec_cluster c, kr_agent = ec_agent c,
      kr_serial = ec_serial c, kr_fingerprint = ec_fingerprint c, kr_pem = ec_pem c, kr_expires = ec_expires c, kr_revoked = None\<rparr>"

text \<open>The unique indexes: one Agent of a cluster that is not revoked, one credential of a serial number.\<close>

definition agent_insertable :: "completion \<Rightarrow> agent_db \<Rightarrow> bool" where
  "agent_insertable c db \<longleftrightarrow>
     \<not> list_ex (\<lambda>a. ag_id a = ec_agent c \<or> ag_cluster a = ec_cluster c \<and> ag_lifecycle a \<noteq> ''revoked'') (gd_agents db)
     \<and> \<not> list_ex (\<lambda>k. kr_serial k = ec_serial c) (gd_credentials db)"

definition complete_enrollment ::
    "(string \<Rightarrow> string) \<Rightarrow> time \<Rightarrow> string \<Rightarrow> completion \<Rightarrow> agent_db \<Rightarrow> (enrollment_error, enrollment_result) scope_transaction" where
  "complete_enrollment lower dbnow i c db =
     (if \<not> completion_fields_ok c then (Inl (EnrollmentFailure ''completed agent enrollment fields are required''), db)
      else case lock_enrollment db (\<lambda>x. en_id x = ec_enrollment c) of
        None \<Rightarrow> (Inl EnrollmentAttemptNotFound, db)
      | Some l \<Rightarrow>
          (case find (\<lambda>t. tr_enrollment t = en_id (fst l) \<and> tr_id t = ec_attempt c) (gd_attempts db) of
             None \<Rightarrow> (Inl EnrollmentAttemptNotFound, db)
           | Some t \<Rightarrow>
               if tr_status t = ''succeeded'' \<and> tr_result t = None
               then (Inl (EnrollmentFailure ''succeeded agent enrollment attempt has no stored response''), db)
               else if tr_key t \<noteq> ec_key c \<or> tr_fingerprint t \<noteq> ec_fingerprint c then (Inl EnrollmentAttemptConflict, db)
               else if tr_status t = ''succeeded'' then (Inr (the (tr_result t)), db)
               else if tr_status t = ''failed'' then (Inl EnrollmentAttemptFailed, db)
               else if \<not> is_usable (ec_now c) l then reject_enrollment EnrollmentTokenRejected (ec_request c) (Some (fst l)) db
               else
                 (case enrolled_cluster lower dbnow c (fst l) db of
                    Inl e \<Rightarrow> (Inl e, db)
                  | Inr clusters \<Rightarrow>
                      if \<not> agent_insertable c db then (Inl (EnrollmentFailure ''create enrolled agent''), db)
                      else
                        let result = \<lparr>er_cluster = ec_cluster c, er_agent = ec_agent c, er_pem = ec_pem c, er_expires = ec_expires c\<rparr> in
                        (Inr result,
                         commit db (insert_scope_audit (completed_audit c (fst l))
                           (db\<lparr>gd_clusters := clusters,
                               gd_agents := gd_agents db @ [enrolled_agent dbnow c (fst l)],
                               gd_credentials := gd_credentials db @ [enrolled_credential i c (fst l)],
                               gd_enrollments := update_where (\<lambda>y. en_id y = en_id (fst l))
                                 (\<lambda>y. y\<lparr>en_cluster := Some (case en_cluster y of None \<Rightarrow> ec_cluster c | Some d \<Rightarrow> d), en_consumed := Some (ec_now c)\<rparr>)
                                 (gd_enrollments db),
                               gd_attempts := update_where (\<lambda>y. tr_id y = tr_id t)
                                 (\<lambda>y. y\<lparr>tr_status := ''succeeded'', tr_result := Some result\<rparr>) (gd_attempts db)\<rparr>))))))"

definition record_enrollment_failure :: "string \<Rightarrow> string \<Rightarrow> agent_db \<Rightarrow> (enrollment_error, unit) scope_transaction" where
  "record_enrollment_failure enrollment request db =
     (if trim_space enrollment = [] \<or> trim_space request = []
      then (Inl (EnrollmentFailure ''Agent enrollment failure audit fields are required''), db)
      else case find (\<lambda>x. en_id x = enrollment) (gd_enrollments db) of
        None \<Rightarrow> (Inl EnrollmentAttemptNotFound, db)
      | Some x \<Rightarrow>
          (Inr (), commit db (insert_scope_audit ((rejected_audit request (Some x))\<lparr>sa_result := ''failed''\<rparr>) db)))"

subsection \<open>Enrolling\<close>

datatype enroll_error =
    EnrollInvalidInput | EnrollTokenRejected | EnrollAttemptConflict | EnrollAttemptFailed | EnrollNameConflict
  | EnrollSigningUnavailable | EnrollOther

definition map_store_error :: "enrollment_error \<Rightarrow> enroll_error" where
  "map_store_error e =
     (case e of
        EnrollmentTokenRejected \<Rightarrow> EnrollTokenRejected
      | EnrollmentAttemptConflict \<Rightarrow> EnrollAttemptConflict
      | EnrollmentAttemptNotFound \<Rightarrow> EnrollAttemptConflict
      | EnrollmentAttemptFailed \<Rightarrow> EnrollAttemptFailed
      | EnrollmentNameConflict \<Rightarrow> EnrollNameConflict
      | _ \<Rightarrow> EnrollOther)"

definition valid_bounded :: "nat \<Rightarrow> string \<Rightarrow> bool" where
  "valid_bounded n s \<longleftrightarrow> 0 < length s \<and> length s \<le> n \<and> trim_space s = s"

record signed_certificate =
  sc_pem :: string
  sc_serial :: string
  sc_expires :: time

text \<open>
  What the service is given: the digest of a well formed token, the fingerprint of a well formed request,
  the signer when it is configured, and the identifiers it draws.
\<close>

record enroll_env =
  ev_digest :: "string \<Rightarrow> string option"
  ev_csr :: "string \<Rightarrow> string option"
  ev_signer :: "(string \<Rightarrow> agent_identity \<Rightarrow> time \<Rightarrow> signed_certificate option) option"
  ev_cluster :: "string option"
  ev_agent :: "string option"
  ev_attempt :: string
  ev_credential :: string
  ev_dbnow :: time
  ev_lower :: "string \<Rightarrow> string"

record enroll_input =
  ei_token :: string
  ei_key :: string
  ei_csr :: string
  ei_version :: string
  ei_protocol :: string
  ei_request :: string
  ei_now :: time

definition enroll_failure ::
    "string \<Rightarrow> string \<Rightarrow> enroll_error \<Rightarrow> agent_db \<Rightarrow> (enroll_error, enrollment_result \<times> bool) scope_transaction" where
  "enroll_failure enrollment request e db = (Inl e, snd (record_enrollment_failure enrollment request db))"

definition begin_agent ::
    "enroll_env \<Rightarrow> enroll_input \<Rightarrow> agent_db \<Rightarrow> (enroll_error, enrollment_row \<times> attempt_row) scope_transaction" where
  "begin_agent v i db =
     (if \<not> is_idempotency_key (ei_key i) \<or> trim_space (ei_request i) = [] \<or> ei_now i = zero_time then (Inl EnrollInvalidInput, db)
      else case ev_digest v (ei_token i) of
        None \<Rightarrow> (Inl EnrollTokenRejected, db)
      | Some d \<Rightarrow>
          (case ev_csr v (ei_csr i) of
             None \<Rightarrow> (Inl EnrollInvalidInput, db)
           | Some fp \<Rightarrow>
               (case begin_enrollment (ev_attempt v)
                       \<lparr>eq_digest = d, eq_key = ei_key i, eq_fingerprint = fp, eq_request = ei_request i, eq_now = ei_now i\<rparr> db of
                  (Inl e, db') \<Rightarrow> (Inl (map_store_error e), db')
                | (Inr x, db') \<Rightarrow> (Inr x, db'))))"

definition complete_agent ::
    "enroll_env \<Rightarrow> enroll_input \<Rightarrow> enrollment_row \<Rightarrow> attempt_row \<Rightarrow> string \<Rightarrow> string \<Rightarrow> signed_certificate \<Rightarrow> agent_db
       \<Rightarrow> (enroll_error, enrollment_result) scope_transaction" where
  "complete_agent v i x t cluster agent s db =
     (case ev_csr v (ei_csr i) of
        None \<Rightarrow> (Inl EnrollInvalidInput, db)
      | Some fp \<Rightarrow>
          if \<not> is_uuid (en_id x) \<or> \<not> is_uuid (tr_id t) \<or> \<not> is_idempotency_key (tr_key t) \<or> \<not> is_uuid cluster \<or> \<not> is_uuid agent
             \<or> \<not> valid_bounded 128 (ei_version i) \<or> \<not> valid_bounded 128 (ei_protocol i) \<or> trim_space (ei_request i) = []
             \<or> ei_now i = zero_time \<or> sc_expires s \<le> ei_now i
          then (Inl EnrollInvalidInput, db)
          else
            (case complete_enrollment (ev_lower v) (ev_dbnow v) (ev_credential v)
                    \<lparr>ec_enrollment = en_id x, ec_attempt = tr_id t, ec_key = tr_key t, ec_fingerprint = fp, ec_cluster = cluster,
                     ec_agent = agent, ec_version = ei_version i, ec_protocol = ei_protocol i, ec_serial = sc_serial s, ec_pem = sc_pem s,
                     ec_expires = sc_expires s, ec_request = ei_request i, ec_now = ei_now i\<rparr> db of
               (Inl e, db') \<Rightarrow> (Inl (map_store_error e), db')
             | (Inr r, db') \<Rightarrow> (Inr r, db')))"

definition enroll :: "enroll_env \<Rightarrow> enroll_input \<Rightarrow> agent_db \<Rightarrow> (enroll_error, enrollment_result \<times> bool) scope_transaction" where
  "enroll v i db =
     (if \<not> valid_bounded 128 (ei_version i) \<or> \<not> valid_bounded 128 (ei_protocol i) then (Inl EnrollInvalidInput, db)
      else case begin_agent v i db of
        (Inl e, db1) \<Rightarrow> (Inl e, db1)
      | (Inr (x, t), db1) \<Rightarrow>
          (case tr_result t of
             Some r \<Rightarrow> (Inr (r, True), db1)
           | None \<Rightarrow>
               (case (ev_signer v, (case en_cluster x of None \<Rightarrow> ev_cluster v | c \<Rightarrow> c), ev_agent v) of
                  (None, _, _) \<Rightarrow> enroll_failure (en_id x) (ei_request i) EnrollSigningUnavailable db1
                | (Some sign, Some cluster, Some agent) \<Rightarrow>
                    (case sign (ei_csr i) \<lparr>an_tenant = en_tenant x, an_project = en_project x, an_cluster = cluster, an_agent = agent\<rparr> (ei_now i) of
                       None \<Rightarrow> enroll_failure (en_id x) (ei_request i) EnrollOther db1
                     | Some s \<Rightarrow>
                         (case complete_agent v i x t cluster agent s db1 of
                            (Inr r, db2) \<Rightarrow> (Inr (r, False), db2)
                          | (Inl e, db2) \<Rightarrow>
                              if e \<in> {EnrollTokenRejected, EnrollAttemptConflict, EnrollAttemptFailed} then (Inl e, db2)
                              else enroll_failure (en_id x) (ei_request i) e db2))
                | _ \<Rightarrow> enroll_failure (en_id x) (ei_request i) EnrollOther db1)))"

subsection \<open>Renewing a certificate\<close>

text \<open>\<open>pkg/server/enrollment/renewal.go\<close>. The signer is configured whenever the service exists.\<close>

definition valid_connection_identity :: "agent_identity \<Rightarrow> bool" where
  "valid_connection_identity i \<longleftrightarrow> is_uuid (an_tenant i) \<and> is_uuid (an_project i) \<and> is_uuid (an_cluster i) \<and> is_uuid (an_agent i)"

record renew_input =
  ri_identity :: agent_identity
  ri_current :: string
  ri_csr :: string
  ri_request :: string
  ri_now :: time

definition renew_certificate_service ::
    "enroll_env \<Rightarrow> renew_input \<Rightarrow> agent_db \<Rightarrow> (renewal_refusal, string \<times> time) scope_transaction" where
  "renew_certificate_service v i db =
     (case ev_signer v of
        None \<Rightarrow> (Inl RenewalFailed, db)
      | Some sign \<Rightarrow>
          if \<not> valid_connection_identity (ri_identity i) \<or> trim_space (ri_current i) = [] \<or> trim_space (ri_request i) = []
             \<or> ri_now i = zero_time
          then (Inl RenewalInvalidInput, db)
          else (case (ev_csr v (ri_csr i), sign (ri_csr i) (ri_identity i) (ri_now i)) of
              (None, _) \<Rightarrow> (Inl RenewalInvalidInput, db)
            | (Some fp, None) \<Rightarrow> (Inl RenewalFailed, db)
            | (Some fp, Some s) \<Rightarrow>
                (case renew_credential (ev_credential v)
                        \<lparr>rn_identity = ri_identity i, rn_current = ri_current i, rn_fingerprint = fp, rn_serial = sc_serial s,
                         rn_pem = sc_pem s, rn_expires = sc_expires s, rn_request = ri_request i, rn_now = ri_now i\<rparr> db of
                   (Inl AgentScopeSuspended, db') \<Rightarrow> (Inl RenewalScopeSuspended, db')
                 | (Inl AgentCredentialRejected, db') \<Rightarrow> (Inl RenewalCredentialRejected, db')
                 | (Inl StoreFailed, db') \<Rightarrow> (Inl RenewalFailed, db')
                 | (Inr k, db') \<Rightarrow> (Inr (kr_pem k, kr_expires k), db'))))"

end
