(* ===== verification/CredentialSafety.thy ===== *)
theory CredentialSafety
  imports EnrollmentStore
begin

section \<open>Every history of Agents' credentials\<close>

text \<open>
  The steps of the store, one transaction each, in any order, and what holds after any number of them: a
  credential that is not revoked belongs to an Agent that is not, a withdrawn credential never returns, an
  enrollment makes one Agent. Serial numbers and the identifiers of enrollments are drawn at random; a step
  that draws one draws a value never drawn before.
\<close>

type_synonym history = "agent_db \<times> string set \<times> string set"

inductive db_step :: "(string \<Rightarrow> string) \<Rightarrow> history \<Rightarrow> history \<Rightarrow> bool" for lower where
  s_users: "db_step lower (db, S, E) (db\<lparr>gd_users := us\<rparr>, S, E)"
| s_create_tenant: "create_tenant lower q i n key db = (r, db') \<Longrightarrow> db_step lower (db, S, E) (db', S, E)"
| s_create_project: "create_project lower q i t n key db = (r', db') \<Longrightarrow> db_step lower (db, S, E) (db', S, E)"
| s_update_tenant: "update_tenant lower q t n st db = (r, db') \<Longrightarrow> db_step lower (db, S, E) (db', S, E)"
| s_update_project: "update_project lower q p n st db = (r, db') \<Longrightarrow> db_step lower (db, S, E) (db', S, E)"
| s_update_cluster: "update_cluster lower q c n st db = (r, db') \<Longrightarrow> db_step lower (db, S, E) (db', S, E)"
| s_delete_tenant: "delete_tenant q t db = (r, db') \<Longrightarrow> db_step lower (db, S, E) (db', S, E)"
| s_delete_project: "delete_project q p db = (r, db') \<Longrightarrow> db_step lower (db, S, E) (db', S, E)"
| s_delete_cluster: "delete_cluster q c db = (r, db') \<Longrightarrow> db_step lower (db, S, E) (db', S, E)"
| s_activate: "activate_connection v db = (r, db') \<Longrightarrow> db_step lower (db, S, E) (db', S, E)"
| s_heartbeat: "record_agent_heartbeat i serial health now db = (r, db') \<Longrightarrow> db_step lower (db, S, E) (db', S, E)"
| s_renew: "renew_credential cid x db = (r, db') \<Longrightarrow> rn_serial x \<notin> S \<Longrightarrow>
    db_step lower (db, S, E) (db', insert (rn_serial x) S, E)"
| s_revoke_agent: "revoke_agent q c db = (r, db') \<Longrightarrow> db_step lower (db, S, E) (db', S, E)"
| s_create_enrollment: "create_enrollment lower q dbnow i e db = (r, db') \<Longrightarrow> i \<notin> E \<Longrightarrow>
    db_step lower (db, S, E) (db', S, insert i E)"
| s_revoke_enrollment: "revoke_enrollment q p i db = (r, db') \<Longrightarrow> db_step lower (db, S, E) (db', S, E)"
| s_begin: "begin_enrollment i q db = (r, db') \<Longrightarrow> i \<notin> tr_id ` set (gd_attempts db) \<Longrightarrow>
    db_step lower (db, S, E) (db', S, E)"
| s_complete: "complete_enrollment lower dbnow cid c db = (r, db') \<Longrightarrow> ec_serial c \<notin> S \<Longrightarrow>
    db_step lower (db, S, E) (db', insert (ec_serial c) S, E)"
| s_failure: "record_enrollment_failure en rq db = (r, db') \<Longrightarrow> db_step lower (db, S, E) (db', S, E)"

definition empty_db :: "string list \<Rightarrow> agent_db" where
  "empty_db users =
     \<lparr>gd_users = users, gd_tenants = [], gd_projects = [], gd_clusters = [], gd_agents = [], gd_credentials = [],
      gd_enrollments = [], gd_attempts = [], gd_requests = [], gd_audits = [], gd_notices = []\<rparr>"

inductive db_reach :: "(string \<Rightarrow> string) \<Rightarrow> history \<Rightarrow> bool" for lower where
  db_start: "db_reach lower (empty_db users, {}, {})"
| db_more: "db_reach lower h \<Longrightarrow> db_step lower h h' \<Longrightarrow> db_reach lower h'"

subsection \<open>The tables Agents live in\<close>

lemma commit_fields [simp]:
  "gd_users (commit db x) = gd_users x" "gd_tenants (commit db x) = gd_tenants x" "gd_projects (commit db x) = gd_projects x"
  "gd_clusters (commit db x) = gd_clusters x" "gd_agents (commit db x) = gd_agents x"
  "gd_credentials (commit db x) = gd_credentials x" "gd_enrollments (commit db x) = gd_enrollments x"
  "gd_attempts (commit db x) = gd_attempts x" "gd_requests (commit db x) = gd_requests x"
  by (simp_all add: commit_def)

lemma scope_audit_fields [simp]:
  "gd_users (insert_scope_audit a x) = gd_users x" "gd_tenants (insert_scope_audit a x) = gd_tenants x"
  "gd_projects (insert_scope_audit a x) = gd_projects x" "gd_clusters (insert_scope_audit a x) = gd_clusters x"
  "gd_agents (insert_scope_audit a x) = gd_agents x" "gd_credentials (insert_scope_audit a x) = gd_credentials x"
  "gd_enrollments (insert_scope_audit a x) = gd_enrollments x" "gd_attempts (insert_scope_audit a x) = gd_attempts x"
  "gd_requests (insert_scope_audit a x) = gd_requests x"
  by (simp_all add: insert_scope_audit_def)

definition agent_tables :: "agent_db \<Rightarrow> agent_row list \<times> credential_row list" where
  "agent_tables db = (gd_agents db, gd_credentials db)"

definition token_tables :: "agent_db \<Rightarrow> enrollment_row list \<times> attempt_row list" where
  "token_tables db = (gd_enrollments db, gd_attempts db)"

lemmas table_pair_defs = agent_tables_def token_tables_def

lemma scopes_keep_tables:
  "create_tenant lower q i n key db = (r1, d1) \<Longrightarrow> agent_tables d1 = agent_tables db \<and> token_tables d1 = token_tables db"
  "create_project lower q i t n key db = (r2, d2) \<Longrightarrow> agent_tables d2 = agent_tables db \<and> token_tables d2 = token_tables db"
  "update_tenant lower q t n st db = (r3, d3) \<Longrightarrow> agent_tables d3 = agent_tables db \<and> token_tables d3 = token_tables db"
  "update_project lower q p n st db = (r4, d4) \<Longrightarrow> agent_tables d4 = agent_tables db \<and> token_tables d4 = token_tables db"
  "record_enrollment_failure en rq db = (r5, d5) \<Longrightarrow> agent_tables d5 = agent_tables db \<and> token_tables d5 = token_tables db"
      by (auto simp: create_tenant_def Let_def table_pair_defs split: if_splits sum.splits option.splits; fail)
    (auto simp: create_project_def update_tenant_def update_project_def record_enrollment_failure_def Let_def table_pair_defs
       split: if_splits sum.splits option.splits; fail)+

subsection \<open>The invariant of Agents and credentials\<close>

definition standing :: "agent_row \<Rightarrow> bool" where
  "standing a \<longleftrightarrow> ag_lifecycle a \<noteq> ''revoked''"

definition matches :: "credential_row \<Rightarrow> agent_row \<Rightarrow> bool" where
  "matches k a \<longleftrightarrow>
     ag_id a = kr_agent k \<and> ag_cluster a = kr_cluster k \<and> ag_project a = kr_project k \<and> ag_tenant a = kr_tenant k"

definition csr_key :: "credential_row \<Rightarrow> (string \<times> string) \<times> (string \<times> string) \<times> string" where
  "csr_key k = ((kr_tenant k, kr_project k), (kr_cluster k, kr_agent k), kr_fingerprint k)"

definition credentials_ok :: "agent_row list \<Rightarrow> credential_row list \<Rightarrow> bool" where
  "credentials_ok as ks \<longleftrightarrow>
     distinct (map ag_id as) \<and> distinct (map ag_cluster (filter standing as))
     \<and> distinct (map kr_serial ks) \<and> distinct (map csr_key ks)
     \<and> (\<forall>k \<in> set ks. \<exists>a \<in> set as. matches k a \<and> (kr_revoked k = None \<longrightarrow> standing a))"

lemma distinct_map_mono: "distinct (map k xs) \<Longrightarrow> distinct (map k (filter P xs))"
  by (simp add: distinct_map_filter)

text \<open>Changed rows keep what identifies them; a credential left alone keeps an Agent that stands.\<close>

lemma credentials_okI:
  assumes "distinct (map ag_id as)" and "distinct (map ag_cluster (filter standing as))"
    and "distinct (map kr_serial ks)" and "distinct (map csr_key ks)"
    and "\<And>k. k \<in> set ks \<Longrightarrow> \<exists>a \<in> set as. matches k a \<and> (kr_revoked k = None \<longrightarrow> standing a)"
  shows "credentials_ok as ks"
  unfolding credentials_ok_def using assms by blast

lemma credentials_okD:
  assumes "credentials_ok as ks"
  shows "distinct (map ag_id as)" and "distinct (map ag_cluster (filter standing as))"
    and "distinct (map kr_serial ks)" and "distinct (map csr_key ks)"
    and "\<And>k. k \<in> set ks \<Longrightarrow> \<exists>a \<in> set as. matches k a \<and> (kr_revoked k = None \<longrightarrow> standing a)"
  using assms unfolding credentials_ok_def by blast+

lemma changed_ok:
  assumes ok: "credentials_ok as ks"
    and f: "\<And>a. a \<in> set as \<Longrightarrow> ag_id (f a) = ag_id a \<and> ag_cluster (f a) = ag_cluster a \<and> ag_project (f a) = ag_project a
        \<and> ag_tenant (f a) = ag_tenant a \<and> (standing (f a) \<longrightarrow> standing a)"
    and g: "\<And>k. k \<in> set ks \<Longrightarrow> kr_serial (g k) = kr_serial k \<and> csr_key (g k) = csr_key k \<and> (kr_revoked (g k) = None \<longrightarrow> kr_revoked k = None)"
    and left: "\<And>k a. k \<in> set ks \<Longrightarrow> a \<in> set as \<Longrightarrow> kr_revoked (g k) = None \<Longrightarrow> matches k a \<Longrightarrow> standing a \<Longrightarrow> standing (f a)"
  shows "credentials_ok (map f as) (map g ks)"
proof (rule credentials_okI)
  note old = credentials_okD [OF ok]
  have f1: "ag_id (f a) = ag_id a" "ag_cluster (f a) = ag_cluster a" "standing (f a) \<Longrightarrow> standing a" if "a \<in> set as" for a
    using f [OF that] by blast+
  have g1: "kr_serial (g k) = kr_serial k" "csr_key (g k) = csr_key k" if "k \<in> set ks" for k
    using g [OF that] by blast+
  have ids: "map ag_id (map f as) = map ag_id as" unfolding map_map comp_def by (rule map_cong [OF refl f1(1)])
  show "distinct (map ag_id (map f as))" unfolding ids by (rule old(1))
  have serials: "map kr_serial (map g ks) = map kr_serial ks" unfolding map_map comp_def by (rule map_cong [OF refl g1(1)])
  show "distinct (map kr_serial (map g ks))" unfolding serials by (rule old(3))
  have keys: "map csr_key (map g ks) = map csr_key ks" unfolding map_map comp_def by (rule map_cong [OF refl g1(2)])
  show "distinct (map csr_key (map g ks))" unfolding keys by (rule old(4))
  have both: "filter (standing \<circ> f) as = filter (standing \<circ> f) (filter standing as)"
    unfolding filter_filter by (rule filter_cong [OF refl]) (use f1(3) in auto)
  have "map ag_cluster (filter standing (map f as)) = map ag_cluster (map f (filter (standing \<circ> f) as))"
    by (simp only: filter_map)
  also have "\<dots> = map ag_cluster (filter (standing \<circ> f) as)"
    unfolding map_map comp_def by (rule map_cong [OF refl f1(2)]) simp
  also have "\<dots> = map ag_cluster (filter (standing \<circ> f) (filter standing as))" by (rule arg_cong [OF both])
  finally have swap: "map ag_cluster (filter standing (map f as)) = map ag_cluster (filter (standing \<circ> f) (filter standing as))" .
  show "distinct (map ag_cluster (filter standing (map f as)))"
    unfolding swap by (rule distinct_map_mono [OF old(2)])
  fix l assume "l \<in> set (map g ks)"
  then obtain k where k: "k \<in> set ks" "l = g k" by auto
  from old(5) [OF k(1)] obtain a where a: "a \<in> set as" "matches k a" "kr_revoked k = None \<longrightarrow> standing a" by metis
  have "matches l (f a)" using a(2) f [OF a(1)] g [OF k(1)] k(2) by (simp add: matches_def csr_key_def)
  moreover have "standing (f a)" if "kr_revoked l = None" using left [OF k(1) a(1)] g [OF k(1)] a(2,3) that k(2) by simp
  moreover have "f a \<in> set (map f as)" using a(1) by simp
  ultimately show "\<exists>a \<in> set (map f as). matches l a \<and> (kr_revoked l = None \<longrightarrow> standing a)" by metis
qed

lemma filtered_ok:
  assumes ok: "credentials_ok as ks" and deep: "\<And>k a. matches k a \<Longrightarrow> pa a \<Longrightarrow> pk k"
  shows "credentials_ok (filter (\<lambda>a. \<not> pa a) as) (filter (\<lambda>k. \<not> pk k) ks)"
proof (rule credentials_okI)
  note old = credentials_okD [OF ok]
  have swap: "filter standing (filter (\<lambda>a. \<not> pa a) as) = filter (\<lambda>a. \<not> pa a) (filter standing as)"
    unfolding filter_filter by (rule filter_cong) auto
  show "distinct (map ag_cluster (filter standing (filter (\<lambda>a. \<not> pa a) as)))"
    unfolding swap by (rule distinct_map_mono [OF old(2)])
  show "distinct (map ag_id (filter (\<lambda>a. \<not> pa a) as))" by (rule distinct_map_mono [OF old(1)])
  show "distinct (map kr_serial (filter (\<lambda>k. \<not> pk k) ks))" by (rule distinct_map_mono [OF old(3)])
  show "distinct (map csr_key (filter (\<lambda>k. \<not> pk k) ks))" by (rule distinct_map_mono [OF old(4)])
  fix k assume "k \<in> set (filter (\<lambda>k. \<not> pk k) ks)"
  then have k: "k \<in> set ks" "\<not> pk k" by simp_all
  from old(5) [OF k(1)] obtain a where a: "a \<in> set as" "matches k a \<and> (kr_revoked k = None \<longrightarrow> standing a)" by metis
  have "\<not> pa a" using deep [OF conjunct1 [OF a(2)]] k(2) by blast
  then have "a \<in> set (filter (\<lambda>a. \<not> pa a) as)" using a(1) by simp
  then show "\<exists>a \<in> set (filter (\<lambda>a. \<not> pa a) as). matches k a \<and> (kr_revoked k = None \<longrightarrow> standing a)" using a(2) by metis
qed

lemma appended_credential_ok:
  assumes ok: "credentials_ok as ks" and "kr_serial k \<notin> kr_serial ` set ks" and "csr_key k \<notin> csr_key ` set ks"
    and "a \<in> set as" and "matches k a" and "standing a"
  shows "credentials_ok as (ks @ [k])"
  using assms unfolding credentials_ok_def by auto

lemma appended_agent_ok:
  assumes ok: "credentials_ok as ks" and new: "ag_id a \<notin> ag_id ` set as"
    and alone: "\<And>b. b \<in> set as \<Longrightarrow> standing b \<Longrightarrow> ag_cluster b \<noteq> ag_cluster a"
  shows "credentials_ok (as @ [a]) ks"
proof (rule credentials_okI)
  show "\<exists>b \<in> set (as @ [a]). matches k b \<and> (kr_revoked k = None \<longrightarrow> standing b)" if "k \<in> set ks" for k
    using credentials_okD(5) [OF ok that] by auto
  have "ag_cluster a \<notin> ag_cluster ` set (filter standing as)" using alone by auto metis
  then show "distinct (map ag_cluster (filter standing (as @ [a])))" using credentials_okD(2) [OF ok] by simp
qed (use credentials_okD [OF ok] new in simp_all)

lemma fresh_agent_key:
  assumes "credentials_ok as ks" and "kr_agent k \<notin> ag_id ` set as"
  shows "csr_key k \<notin> csr_key ` set ks"
proof
  assume "csr_key k \<in> csr_key ` set ks"
  then obtain l where l: "l \<in> set ks" "csr_key k = csr_key l" by blast
  obtain a where a: "a \<in> set as" "matches l a" using credentials_okD(5) [OF assms(1) l(1)] by blast
  have "ag_id a = kr_agent k" using l(2) a(2) by (simp add: csr_key_def matches_def)
  then show False using assms(2) a(1) by (metis image_eqI)
qed

lemma same_agent:
  assumes "credentials_ok as ks" and "a \<in> set as" and "b \<in> set as" and "ag_id a = ag_id b"
  shows "a = b"
  using credentials_okD(1) [OF assms(1)] assms(2-4) by (simp add: distinct_map inj_on_def)

definition agents_ok :: "agent_db \<Rightarrow> bool" where
  "agents_ok db \<longleftrightarrow> credentials_ok (gd_agents db) (gd_credentials db)"

lemma activate_ok:
  assumes ok: "agents_ok db" and step: "activate_connection v db = (r, db')"
  shows "agents_ok db'"
proof (cases "may_activate db (av_identity v) (av_serial v) (av_now v)")
  case False
  then show ?thesis using ok step by (simp add: activate_connection_def Let_def)
next
  case True
  then obtain b where b: "b \<in> set (gd_agents db)" "agent_of (av_identity v) b" "standing b"
    by (auto simp: may_activate_def list_ex_iff standing_def)
  have up: "standing a" if "a \<in> set (gd_agents db)" "ag_id a = an_agent (av_identity v)" for a
    using same_agent [OF ok [unfolded agents_ok_def] that(1) b(1)] b(2,3) that(2) by (simp add: agent_of_def)
  have "gd_agents db' = map (\<lambda>a. if ag_id a = an_agent (av_identity v) then a\<lparr>ag_version := av_version v, ag_protocol := av_protocol v,
         ag_lifecycle := ''active'', ag_health := av_health v, ag_serial := Some (av_serial v), ag_seen := Some (av_now v),
         ag_updated := av_now v\<rparr> else a) (gd_agents db)"
    "gd_credentials db' = map (\<lambda>k. if credential_of (av_identity v) k \<and> kr_serial k \<noteq> av_serial v \<and> kr_revoked k = None
         then k\<lparr>kr_revoked := Some (av_now v)\<rparr> else k) (gd_credentials db)"
    using step True by (auto simp: activate_connection_def Let_def update_where_def)
  then show ?thesis
    unfolding agents_ok_def
    by (simp only:) (rule changed_ok [OF ok [unfolded agents_ok_def]]; use up in \<open>auto simp: standing_def csr_key_def\<close>)
qed

lemma heartbeat_ok:
  assumes ok: "agents_ok db" and step: "record_agent_heartbeat i serial health now db = (r, db')"
  shows "agents_ok db'"
proof (cases "may_beat db i serial now")
  case False
  then show ?thesis using ok step by (simp add: record_agent_heartbeat_def)
next
  case True
  have "gd_agents db' = map (\<lambda>a. if agent_of i a \<and> ag_lifecycle a = ''active'' then a\<lparr>ag_health := health, ag_seen := Some now,
         ag_updated := now\<rparr> else a) (gd_agents db)"
    "gd_credentials db' = map (\<lambda>k. k) (gd_credentials db)"
    using step True by (auto simp: record_agent_heartbeat_def update_where_def)
  then show ?thesis
    unfolding agents_ok_def
    by (simp only:) (rule changed_ok [OF ok [unfolded agents_ok_def]]; auto simp: standing_def)
qed

text \<open>What a renewal leaves: the tables it found, or one more credential, of an Agent that is active.\<close>

lemma renew_cases:
  assumes "renew_credential cid x db = (r, db')"
  obtains (same) "db' = db"
  | (new) a where "r = Inr (renewed_row x cid)" "gd_agents db' = gd_agents db"
      "gd_credentials db' = gd_credentials db @ [renewed_row x cid]" "token_tables db' = token_tables db"
      "a \<in> set (gd_agents db)" "agent_of (rn_identity x) a" "ag_lifecycle a = ''active''"
      "rn_serial x \<notin> kr_serial ` set (gd_credentials db)"
      "\<forall>k \<in> set (gd_credentials db). \<not> (credential_of (rn_identity x) k \<and> kr_fingerprint k = rn_fingerprint x)"
      "may_renew db (rn_identity x) (rn_current x) (rn_now x)"
proof (cases "renewal_fields_ok x \<and> may_renew db (rn_identity x) (rn_current x) (rn_now x)
    \<and> find (\<lambda>k. credential_of (rn_identity x) k \<and> kr_fingerprint k = rn_fingerprint x) (gd_credentials db) = None
    \<and> \<not> list_ex (\<lambda>k. kr_serial k = rn_serial x) (gd_credentials db)")
  case False
  then have "db' = db"
    using assms
    by (cases "renewal_fields_ok x"; cases "may_renew db (rn_identity x) (rn_current x) (rn_now x)";
        cases "find (\<lambda>k. credential_of (rn_identity x) k \<and> kr_fingerprint k = rn_fingerprint x) (gd_credentials db)")
      (simp_all add: renew_credential_def Let_def split: if_splits)
  then show thesis by (rule same)
next
  case True
  then have e: "renew_credential cid x db = (Inr (renewed_row x cid),
      commit db (insert_scope_audit (renewal_audit x cid) (db\<lparr>gd_credentials := gd_credentials db @ [renewed_row x cid]\<rparr>)))"
    by (simp add: renew_credential_def Let_def)
  obtain a where a: "a \<in> set (gd_agents db)" "agent_of (rn_identity x) a" "ag_lifecycle a = ''active''"
    using True by (auto simp: may_renew_def list_ex_iff)
  have "rn_serial x \<notin> kr_serial ` set (gd_credentials db)" using True by (force simp: list_ex_iff)
  moreover have "\<forall>k \<in> set (gd_credentials db). \<not> (credential_of (rn_identity x) k \<and> kr_fingerprint k = rn_fingerprint x)"
    using True by (simp add: find_None_iff)
  moreover have "r = Inr (renewed_row x cid)" "gd_agents db' = gd_agents db"
      "gd_credentials db' = gd_credentials db @ [renewed_row x cid]" "token_tables db' = token_tables db"
    using assms e by (auto simp: token_tables_def)
  ultimately show thesis using new a True by metis
qed

lemma renew_ok:
  assumes ok: "agents_ok db" and step: "renew_credential cid x db = (r, db')"
  shows "agents_ok db'"
  using step
proof (cases rule: renew_cases)
  case (new a)
  have "csr_key (renewed_row x cid) \<notin> csr_key ` set (gd_credentials db)"
    using new(9) by (auto simp: csr_key_def renewed_row_def credential_of_def)
  moreover have "matches (renewed_row x cid) a" using new(6) by (simp add: renewed_row_def matches_def agent_of_def)
  moreover have "standing a" using new(7) by (simp add: standing_def)
  moreover have "kr_serial (renewed_row x cid) \<notin> kr_serial ` set (gd_credentials db)" using new(8) by (simp add: renewed_row_def)
  ultimately show ?thesis
    unfolding agents_ok_def new(2,3) using appended_credential_ok [OF ok [unfolded agents_ok_def] _ _ new(5)] by metis
qed (use ok in simp)

lemma first_to_revoke_mem: "first_to_revoke as = Some a \<Longrightarrow> a \<in> set as"
  by (induction as arbitrary: a) (auto split: option.splits if_splits)

text \<open>A successful revocation leaves the tables when the Agent was revoked before, and revokes all it holds otherwise.\<close>

lemma revoke_cases:
  assumes "revoke_agent q c db = (r, db')"
  obtains (same) "agent_tables db' = agent_tables db" "token_tables db' = token_tables db"
      "\<And>x. r = Inr x \<Longrightarrow> \<exists>a \<in> set (gd_agents db). ag_id a = ad_agent x \<and> \<not> standing a"
  | (revoked) a where "a \<in> set (gd_agents db)" "\<And>x. r = Inr x \<Longrightarrow> ad_agent x = ag_id a" "token_tables db' = token_tables db"
      "gd_agents db' = map (\<lambda>x. if ag_id x = ag_id a then x\<lparr>ag_lifecycle := ''revoked'', ag_health := ''unknown'',
         ag_updated := ar_now q\<rparr> else x) (gd_agents db)"
      "gd_credentials db' = map (\<lambda>k. if kr_agent k = ag_id a \<and> kr_revoked k = None then k\<lparr>kr_revoked := Some (ar_now q)\<rparr>
         else k) (gd_credentials db)"
proof (cases "first_to_revoke (filter (\<lambda>a. ag_cluster a = c) (gd_agents db))")
  case None
  then have "db' = db" "\<forall>x. r \<noteq> Inr x" using assms by (auto simp: revoke_agent_def split: if_splits)
  then show thesis by (intro same) simp_all
next
  case (Some a)
  then have a: "a \<in> set (gd_agents db)" using first_to_revoke_mem by force
  show thesis
  proof (cases "trim_space c = [] \<or> trim_space (ar_actor q) = [] \<or> trim_space (ar_request q) = [] \<or> ar_now q = zero_time")
    case True
    then have "db' = db" "\<forall>x. r \<noteq> Inr x" using assms by (auto simp: revoke_agent_def)
    then show thesis by (intro same) simp_all
  next
    case fields: False
    show thesis
    proof (cases "ag_lifecycle a = ''revoked''")
      case True
      then have "agent_tables db' = agent_tables db" "token_tables db' = token_tables db" "\<And>x. r = Inr x \<Longrightarrow> ad_agent x = ag_id a"
        using assms Some fields by (auto simp: revoke_agent_def Let_def table_pair_defs)
      then show thesis using a True by (intro same) (auto simp: standing_def)
    next
      case False
      then have e: "token_tables db' = token_tables db" "\<And>x. r = Inr x \<Longrightarrow> ad_agent x = ag_id a"
          "gd_agents db' = map (\<lambda>x. if ag_id x = ag_id a then x\<lparr>ag_lifecycle := ''revoked'', ag_health := ''unknown'',
             ag_updated := ar_now q\<rparr> else x) (gd_agents db)"
          "gd_credentials db' = map (\<lambda>k. if kr_agent k = ag_id a \<and> kr_revoked k = None then k\<lparr>kr_revoked := Some (ar_now q)\<rparr>
             else k) (gd_credentials db)"
        using assms Some fields by (auto simp: revoke_agent_def Let_def table_pair_defs update_where_def)
      show thesis by (rule revoked [OF a e(2,1,3,4)])
    qed
  qed
qed

lemma revoke_ok:
  assumes ok: "agents_ok db" and step: "revoke_agent q c db = (r, db')"
  shows "agents_ok db'"
  using step
proof (cases rule: revoke_cases)
  case same
  then show ?thesis using ok by (simp add: agents_ok_def agent_tables_def)
next
  case (revoked a)
  show ?thesis
    unfolding agents_ok_def revoked(4,5)
    by (rule changed_ok [OF ok [unfolded agents_ok_def]]) (auto simp: standing_def csr_key_def matches_def split: if_splits)
qed

text \<open>A deletion takes the credentials of every Agent it takes.\<close>

definition agent_core :: "agent_db \<Rightarrow> (agent_row list \<times> credential_row list) \<times> enrollment_row list \<times> attempt_row list" where
  "agent_core db = (agent_tables db, token_tables db)"

lemmas agent_core_defs = agent_core_def agent_tables_def token_tables_def

lemma deletions:
  "delete_tenant q t db = (r, db') \<Longrightarrow> db' = db \<or> agent_core db' = agent_core (delete_tenant_tree t db)"
  "delete_project q t db = (r', db') \<Longrightarrow> db' = db \<or> agent_core db' = agent_core (delete_project_tree t db)"
  "delete_cluster q t db = (r'', db') \<Longrightarrow> db' = db \<or> agent_core db' = agent_core (delete_cluster_tree t db)"
proof -
  show "delete_tenant q t db = (r, db') \<Longrightarrow> db' = db \<or> agent_core db' = agent_core (delete_tenant_tree t db)"
    by (cases "find_tenant db t"; cases "active_actor db (ar_actor q)")
      (auto simp: delete_tenant_def delete_tenant_tree_def delete_below_def Let_def agent_core_defs)
  show "delete_project q t db = (r', db') \<Longrightarrow> db' = db \<or> agent_core db' = agent_core (delete_project_tree t db)"
    by (cases "find_project db t"; cases "active_actor db (ar_actor q)")
      (auto simp: delete_project_def delete_project_tree_def delete_below_def Let_def agent_core_defs)
  show "delete_cluster q t db = (r'', db') \<Longrightarrow> db' = db \<or> agent_core db' = agent_core (delete_cluster_tree t db)"
    by (cases "find_cluster db t"; cases "active_actor db (ar_actor q)")
      (auto simp: delete_cluster_def delete_cluster_tree_def delete_below_def Let_def agent_core_defs)
qed

lemma deletion_cases:
  assumes "(r, db') \<in> {delete_tenant q t db} \<or> (r', db') \<in> {delete_project q t db} \<or> (r'', db') \<in> {delete_cluster q t db}"
  obtains (same) "agent_tables db' = agent_tables db" "token_tables db' = token_tables db"
  | (deleted) pe pk pa where "\<And>k a. matches k a \<Longrightarrow> pa a \<Longrightarrow> pk k"
      "gd_agents db' = filter (\<lambda>a. \<not> pa a) (gd_agents db)" "gd_credentials db' = filter (\<lambda>k. \<not> pk k) (gd_credentials db)"
      "gd_enrollments db' = filter (\<lambda>e. \<not> pe e) (gd_enrollments db)"
      "gd_attempts db' = filter (\<lambda>t. \<not> list_ex (\<lambda>e. pe e \<and> en_id e = tr_enrollment t) (gd_enrollments db)) (gd_attempts db)"
proof -
  consider "db' = db" | "agent_core db' = agent_core (delete_tenant_tree t db)" | "agent_core db' = agent_core (delete_project_tree t db)"
    | "agent_core db' = agent_core (delete_cluster_tree t db)"
    using assms deletions [of q t db] by (metis singletonD)
  then show thesis
  proof cases
    case 1
    then show thesis by (intro same) simp_all
  next
    case 2
    show thesis
      by (rule deleted [of "\<lambda>a. ag_tenant a = t" "\<lambda>k. kr_tenant k = t" "\<lambda>e. en_tenant e = t"])
        (use 2 in \<open>simp_all add: delete_tenant_tree_def delete_below_def Let_def agent_core_defs matches_def\<close>)
  next
    case 3
    show thesis
      by (rule deleted [of "\<lambda>a. ag_project a = t" "\<lambda>k. kr_project k = t" "\<lambda>e. en_project e = t"])
        (use 3 in \<open>simp_all add: delete_project_tree_def delete_below_def Let_def agent_core_defs matches_def\<close>)
  next
    case 4
    show thesis
      by (rule deleted [of "\<lambda>a. ag_cluster a = t" "\<lambda>k. kr_cluster k = t" "\<lambda>e. en_cluster e = Some t"])
        (use 4 in \<open>simp_all add: delete_cluster_tree_def delete_below_def Let_def agent_core_defs matches_def\<close>)
  qed
qed

lemma deletion_ok:
  assumes ok: "agents_ok db"
    and step: "(r, db') \<in> {delete_tenant q t db} \<or> (r', db') \<in> {delete_project q t db} \<or> (r'', db') \<in> {delete_cluster q t db}"
  shows "agents_ok db'"
  using step
proof (cases rule: deletion_cases)
  case same
  then show ?thesis using ok by (simp add: agents_ok_def agent_tables_def)
next
  case (deleted pe pk pa)
  show ?thesis unfolding agents_ok_def deleted(2,3) by (rule filtered_ok [OF ok [unfolded agents_ok_def] deleted(1)])
qed

text \<open>A completion fails and leaves the tables, replays a succeeded attempt, or enrolls an Agent.\<close>

lemma complete_cases:
  assumes "complete_enrollment lower dbnow cid c db = (r, db')"
  obtains (failed) e where "r = Inl e" "agent_core db' = agent_core db"
  | (replayed) t where "r = Inr (the (tr_result t))" "db' = db" "t \<in> set (gd_attempts db)" "tr_enrollment t = ec_enrollment c"
      "tr_status t = ''succeeded''"
  | (enrolled) x t where "r = Inr \<lparr>er_cluster = ec_cluster c, er_agent = ec_agent c, er_pem = ec_pem c, er_expires = ec_expires c\<rparr>"
      "x \<in> set (gd_enrollments db)" "en_id x = ec_enrollment c" "en_consumed x = None"
      "t \<in> set (gd_attempts db)" "tr_enrollment t = en_id x" "agent_insertable c db"
      "gd_agents db' = gd_agents db @ [enrolled_agent dbnow c x]"
      "gd_credentials db' = gd_credentials db @ [enrolled_credential cid c x]"
      "gd_enrollments db' = map (\<lambda>y. if en_id y = en_id x then y\<lparr>en_cluster := Some (case en_cluster y of None \<Rightarrow> ec_cluster c | Some d \<Rightarrow> d),
         en_consumed := Some (ec_now c)\<rparr> else y) (gd_enrollments db)"
      "gd_attempts db' = map (\<lambda>y. if tr_id y = tr_id t then y\<lparr>tr_status := ''succeeded'', tr_result := Some \<lparr>er_cluster = ec_cluster c,
         er_agent = ec_agent c, er_pem = ec_pem c, er_expires = ec_expires c\<rparr>\<rparr> else y) (gd_attempts db)"
proof (cases "completion_fields_ok c")
  case False
  then show thesis using assms failed by (auto simp: complete_enrollment_def)
next
  case fields: True
  show thesis
  proof (cases "lock_enrollment db (\<lambda>x. en_id x = ec_enrollment c)")
    case None
    then show thesis using assms fields failed by (auto simp: complete_enrollment_def)
  next
    case (Some l)
    then have l: "fst l \<in> set (gd_enrollments db)" "en_id (fst l) = ec_enrollment c"
      by (auto simp: lock_enrollment_def find_Some_iff split: option.splits)
    show thesis
    proof (cases "find (\<lambda>t. tr_enrollment t = en_id (fst l) \<and> tr_id t = ec_attempt c) (gd_attempts db)")
      case None
      then show thesis using assms fields Some failed by (auto simp: complete_enrollment_def)
    next
      case found: (Some t)
      then have t: "t \<in> set (gd_attempts db)" "tr_enrollment t = en_id (fst l)" by (auto simp: find_Some_iff)
      note u = assms [unfolded complete_enrollment_def, simplified fields Some, simplified, unfolded found option.case]
      show thesis
      proof (cases "is_usable (ec_now c) l \<and> tr_status t \<noteq> ''succeeded'' \<and> agent_insertable c db
          \<and> (\<exists>cs. enrolled_cluster lower dbnow c (fst l) db = Inr cs) \<and> tr_status t \<noteq> ''failed''
          \<and> tr_key t = ec_key c \<and> tr_fingerprint t = ec_fingerprint c")
        case True
        then obtain cs where cs: "enrolled_cluster lower dbnow c (fst l) db = Inr cs" by blast
        have "en_consumed (fst l) = None" using True by (cases l) (auto simp: is_usable_def)
        then show thesis
          by (intro enrolled [OF _ l _ t]) (use u True cs in \<open>auto simp: Let_def update_where_def\<close>)
      next
        case False
        show thesis
        proof (cases "\<exists>x. r = Inr x")
          case True
          then obtain w where w: "r = Inr w" by blast
          have "tr_status t = ''succeeded'' \<and> r = Inr (the (tr_result t)) \<and> db' = db"
            using u False unfolding w
            by (cases "enrolled_cluster lower dbnow c (fst l) db"; cases "agent_insertable c db"; cases "is_usable (ec_now c) l";
                cases "tr_status t = ''succeeded''"; cases "tr_status t = ''failed''";
                cases "tr_key t = ec_key c"; cases "tr_fingerprint t = ec_fingerprint c")
              (simp_all add: reject_enrollment_def Let_def split: if_splits)
          then show thesis using replayed t l(2) by simp
        next
          case nothing: False
          then obtain e where "r = Inl e" by (cases r) auto
          moreover have "agent_core db' = agent_core db"
            using u nothing False
            by (cases "enrolled_cluster lower dbnow c (fst l) db"; cases "agent_insertable c db"; cases "is_usable (ec_now c) l";
                cases "tr_status t = ''succeeded''"; cases "tr_status t = ''failed''";
                cases "tr_key t = ec_key c"; cases "tr_fingerprint t = ec_fingerprint c")
              (auto simp: reject_enrollment_def agent_core_defs Let_def split: if_splits)
          ultimately show thesis by (rule failed)
        qed
      qed
    qed
  qed
qed

lemma complete_ok:
  assumes ok: "agents_ok db" and step: "complete_enrollment lower dbnow cid c db = (r, db')"
  shows "agents_ok db'"
  using step
proof (cases rule: complete_cases)
  case (failed e)
  then show ?thesis using ok by (simp add: agents_ok_def agent_core_defs)
next
  case (replayed t)
  then show ?thesis using ok by simp
next
  case (enrolled x t)
  let ?a = "enrolled_agent dbnow c x" and ?k = "enrolled_credential cid c x"
  have new: "ag_id ?a \<notin> ag_id ` set (gd_agents db)" "kr_serial ?k \<notin> kr_serial ` set (gd_credentials db)"
    "\<And>b. b \<in> set (gd_agents db) \<Longrightarrow> standing b \<Longrightarrow> ag_cluster b \<noteq> ag_cluster ?a"
    using enrolled(7) by (auto simp: agent_insertable_def enrolled_agent_def enrolled_credential_def list_ex_iff standing_def)
  have "credentials_ok (gd_agents db @ [?a]) (gd_credentials db)"
    using appended_agent_ok [OF ok [unfolded agents_ok_def] new(1,3)] by blast
  moreover have "csr_key ?k \<notin> csr_key ` set (gd_credentials db)"
    by (rule fresh_agent_key [OF ok [unfolded agents_ok_def]]) (use new(1) in \<open>simp add: enrolled_agent_def enrolled_credential_def\<close>)
  ultimately show ?thesis
    unfolding agents_ok_def enrolled(8,9)
    by (rule appended_credential_ok [where a = ?a, OF _ new(2)])
      (simp_all add: matches_def enrolled_agent_def enrolled_credential_def standing_def)
qed

end
