(* ===== verification/CredentialHistory.thy ===== *)
theory CredentialHistory
  imports CredentialSafety
begin

section \<open>Withdrawn credentials, enrollments and renewals\<close>

text \<open>
  The invariants of the store over its steps, and what follows: a withdrawn credential never returns and
  silences the connection it was presented on, one enrollment makes one Agent, and what the Agent meets when
  the answer to a renewal is lost.
\<close>

lemma update_cluster_tables:
  assumes "update_cluster lower q c n st db = (r, db')"
  shows "agent_tables db' = agent_tables db \<and> gd_attempts db' = gd_attempts db
    \<and> (\<exists>f. gd_enrollments db' = map f (gd_enrollments db)
         \<and> (\<forall>x. en_id (f x) = en_id x \<and> en_consumed (f x) = en_consumed x \<and> en_cluster (f x) = en_cluster x))"
proof (cases "\<exists>x. r = Inr x")
  case False
  then have "db' = db"
    using assms by (cases "find_cluster db c") (auto simp: update_cluster_def Let_def split: if_splits)
  then show ?thesis by (auto intro: exI [of _ id])
next
  case True
  then obtain x where x: "r = Inr x" by blast
  then obtain y where y: "find_cluster db c = Some y"
    using assms by (cases "find_cluster db c") (auto simp: update_cluster_def)
  let ?g = "\<lambda>e. if en_project e = cl_project y \<and> expired_hold (ar_now q) e \<and> (lower (en_name e) = lower n \<or> en_cluster e = Some c)
    then e\<lparr>en_revoked := Some (ar_now q)\<rparr> else e"
  let ?h = "\<lambda>e. if en_cluster e = Some c \<and> open_enrollment (ar_now q) e then e\<lparr>en_name := n\<rparr> else e"
  have "agent_tables db' = agent_tables db \<and> gd_attempts db' = gd_attempts db \<and> gd_enrollments db' = map (?h \<circ> ?g) (gd_enrollments db)"
    using assms unfolding x update_cluster_def y
    by (simp add: Let_def rename_enrollments_def update_where_def agent_tables_def split: if_splits)
      (auto simp: comp_def)
  moreover have "\<forall>x. en_id ((?h \<circ> ?g) x) = en_id x \<and> en_consumed ((?h \<circ> ?g) x) = en_consumed x \<and> en_cluster ((?h \<circ> ?g) x) = en_cluster x"
    by auto
  ultimately show ?thesis by blast
qed

lemma create_enrollment_tables:
  assumes "create_enrollment lower q dbnow i e db = (r, db')"
  shows "agent_tables db' = agent_tables db \<and> gd_attempts db' = gd_attempts db
    \<and> (\<exists>f xs. gd_enrollments db' = map f (gd_enrollments db) @ xs \<and> (xs = [] \<or> (\<exists>x. xs = [x] \<and> en_id x = i \<and> en_consumed x = None))
         \<and> (\<forall>x. en_id (f x) = en_id x \<and> en_consumed (f x) = en_consumed x \<and> en_cluster (f x) = en_cluster x))"
proof (cases "\<exists>x. r = Inr x")
  case False
  then have "db' = db" using assms by (auto simp: create_enrollment_def Let_def split: if_splits option.splits bool.splits)
  then show ?thesis by (auto intro: exI [of _ id])
next
  case True
  then obtain x where x: "r = Inr x" by blast
  let ?f = "\<lambda>x. if en_project x = ep_project e \<and> lower (en_name x) = lower (ep_name e) \<and> expired_hold (ar_now q) x
    then x\<lparr>en_revoked := Some (ar_now q)\<rparr> else x"
  have "agent_tables db' = agent_tables db \<and> gd_attempts db' = gd_attempts db \<and> gd_enrollments db' = map ?f (gd_enrollments db) @ [x]
    \<and> en_id x = i \<and> en_consumed x = None"
    using assms unfolding x
    by (simp add: create_enrollment_def Let_def update_where_def agent_tables_def split: if_splits option.splits bool.splits) auto
  then show ?thesis by (intro conjI exI [of _ ?f] exI [of _ "[x]"]) auto
qed

lemma revoke_enrollment_tables:
  assumes "revoke_enrollment q p i db = (r, db')"
  shows "agent_tables db' = agent_tables db \<and> gd_attempts db' = gd_attempts db
    \<and> (gd_enrollments db' = gd_enrollments db
       \<or> (\<exists>x t. x \<in> set (gd_enrollments db) \<and> en_id x = i \<and> en_consumed x = None
            \<and> gd_enrollments db' = map (\<lambda>y. if en_id y = i then x\<lparr>en_revoked := t\<rparr> else y) (gd_enrollments db)))"
proof (cases "find (\<lambda>x. en_project x = p \<and> en_id x = i) (gd_enrollments db)")
  case None
  then show ?thesis using assms by (auto simp: revoke_enrollment_def)
next
  case (Some x)
  then have x: "x \<in> set (gd_enrollments db)" "en_id x = i" by (auto simp: find_Some_iff)
  show ?thesis
  proof (cases "en_consumed x = None \<and> en_revoked x = None")
    case True
    then have "agent_tables db' = agent_tables db" "gd_attempts db' = gd_attempts db"
        "gd_enrollments db' = map (\<lambda>y. if en_id y = i then x\<lparr>en_revoked := Some (ar_now q)\<rparr> else y) (gd_enrollments db)"
      using assms Some by (auto simp: revoke_enrollment_def Let_def agent_tables_def update_where_def)
    then show ?thesis using x True by blast
  next
    case False
    then show ?thesis
      using assms Some x
      by (cases "en_consumed x"; cases "en_revoked x") (auto simp: revoke_enrollment_def Let_def agent_tables_def)
  qed
qed

lemma begin_enrollment_tables:
  assumes "begin_enrollment i q db = (r, db')"
  shows "agent_tables db' = agent_tables db \<and> gd_enrollments db' = gd_enrollments db
    \<and> (gd_attempts db' = gd_attempts db
       \<or> (\<exists>t. gd_attempts db' = gd_attempts db @ [t] \<and> tr_id t = i \<and> tr_status t = ''pending''))"
proof (cases "lock_enrollment db (\<lambda>x. en_digest x = eq_digest q)")
  case None
  then show ?thesis using assms
    by (auto simp: begin_enrollment_def reject_enrollment_def agent_tables_def split: if_splits)
next
  case (Some l)
  show ?thesis
    using assms Some
    by (cases "find_attempt db (fst l) (eq_key q)")
      (auto simp: begin_enrollment_def reject_enrollment_def agent_tables_def Let_def split: if_splits)
qed

subsection \<open>Tokens and their attempts\<close>

definition succeeded :: "attempt_row \<Rightarrow> bool" where
  "succeeded t \<longleftrightarrow> tr_status t = ''succeeded''"

definition tokens_ok :: "enrollment_row list \<Rightarrow> attempt_row list \<Rightarrow> bool" where
  "tokens_ok es ts \<longleftrightarrow>
     distinct (map en_id es) \<and> distinct (map tr_id ts)
     \<and> (\<forall>t \<in> set ts. succeeded t \<longrightarrow> tr_result t \<noteq> None \<and> (\<exists>x \<in> set es. en_id x = tr_enrollment t \<and> en_consumed x \<noteq> None))
     \<and> (\<forall>t \<in> set ts. \<forall>u \<in> set ts. succeeded t \<longrightarrow> succeeded u \<longrightarrow> tr_enrollment t = tr_enrollment u \<longrightarrow> t = u)"

text \<open>What a step does to them, with the identifiers drawn so far.\<close>

inductive token_step ::
    "string set \<times> enrollment_row list \<times> attempt_row list \<Rightarrow> string set \<times> enrollment_row list \<times> attempt_row list \<Rightarrow> bool" where
  t_rows: "E \<subseteq> E' \<Longrightarrow> \<forall>x \<in> set es. en_id (f x) = en_id x \<and> (en_consumed x \<noteq> None \<longrightarrow> en_consumed (f x) \<noteq> None) \<Longrightarrow>
    set (map en_id xs) \<subseteq> E' - E \<Longrightarrow> distinct (map en_id xs) \<Longrightarrow> token_step (E, es, ts) (E', map f es @ xs, ts)"
| t_attempt: "tr_id t \<notin> tr_id ` set ts \<Longrightarrow> \<not> succeeded t \<Longrightarrow> token_step (E, es, ts) (E, es, ts @ [t])"
| t_delete: "token_step (E, es, ts)
    (E, filter (\<lambda>e. \<not> pe e) es, filter (\<lambda>t. \<not> list_ex (\<lambda>e. pe e \<and> en_id e = tr_enrollment t) es) ts)"
| t_complete: "x \<in> set es \<Longrightarrow> en_consumed x = None \<Longrightarrow> t \<in> set ts \<Longrightarrow> tr_enrollment t = en_id x \<Longrightarrow>
    \<forall>y. en_id (f y) = en_id y \<and> en_consumed (f y) \<noteq> None \<Longrightarrow>
    token_step (E, es, ts) (E, map (\<lambda>y. if en_id y = en_id x then f y else y) es,
      map (\<lambda>y. if tr_id y = tr_id t then y\<lparr>tr_status := ''succeeded'', tr_result := Some w\<rparr> else y) ts)"

lemma token_same: "token_step (E, es, ts) (E, es, ts)"
  using t_rows [of E E es id "[]" ts] by simp

lemma distinct_same: "distinct (map k xs) \<Longrightarrow> x \<in> set xs \<Longrightarrow> y \<in> set xs \<Longrightarrow> k x = k y \<Longrightarrow> x = y"
  by (simp add: distinct_map inj_on_def)

definition token_ok :: "string set \<times> enrollment_row list \<times> attempt_row list \<Rightarrow> bool" where
  "token_ok s \<longleftrightarrow> (case s of (E, es, ts) \<Rightarrow> tokens_ok es ts \<and> set (map en_id es) \<subseteq> E)"

lemma tokens_okI:
  assumes "distinct (map en_id es)" and "distinct (map tr_id ts)"
    and "\<And>t. t \<in> set ts \<Longrightarrow> succeeded t \<Longrightarrow> tr_result t \<noteq> None"
    and "\<And>t. t \<in> set ts \<Longrightarrow> succeeded t \<Longrightarrow> \<exists>x \<in> set es. en_id x = tr_enrollment t \<and> en_consumed x \<noteq> None"
    and "\<And>t u. t \<in> set ts \<Longrightarrow> u \<in> set ts \<Longrightarrow> succeeded t \<Longrightarrow> succeeded u \<Longrightarrow> tr_enrollment t = tr_enrollment u \<Longrightarrow> t = u"
  shows "tokens_ok es ts"
  unfolding tokens_ok_def using assms by blast

lemma tokens_okD:
  assumes "tokens_ok es ts"
  shows "distinct (map en_id es)" and "distinct (map tr_id ts)"
    and "\<And>t. t \<in> set ts \<Longrightarrow> succeeded t \<Longrightarrow> tr_result t \<noteq> None"
    and "\<And>t. t \<in> set ts \<Longrightarrow> succeeded t \<Longrightarrow> \<exists>x \<in> set es. en_id x = tr_enrollment t \<and> en_consumed x \<noteq> None"
    and "\<And>t u. t \<in> set ts \<Longrightarrow> u \<in> set ts \<Longrightarrow> succeeded t \<Longrightarrow> succeeded u \<Longrightarrow> tr_enrollment t = tr_enrollment u \<Longrightarrow> t = u"
  using assms unfolding tokens_ok_def by blast+

lemma rows_tokens_ok:
  assumes ok: "tokens_ok es ts"
    and f: "\<forall>x \<in> set es. en_id (f x) = en_id x \<and> (en_consumed x \<noteq> None \<longrightarrow> en_consumed (f x) \<noteq> None)"
    and new: "set (map en_id xs) \<inter> set (map en_id es) = {}" "distinct (map en_id xs)"
  shows "tokens_ok (map f es @ xs) ts"
proof -
  note old = tokens_okD [OF ok]
  have ids: "map en_id (map f es) = map en_id es" using f by simp
  show ?thesis
  proof (rule tokens_okI [OF _ old(2,3) _ old(5)])
    show "distinct (map en_id (map f es @ xs))"
      unfolding map_append ids distinct_append using old(1) new by (simp only: Int_commute)
    fix t assume "t \<in> set ts" "succeeded t"
    from old(4) [OF this] obtain x where x: "x \<in> set es" "en_id x = tr_enrollment t" "en_consumed x \<noteq> None" by blast
    have "en_id (f x) = tr_enrollment t" "en_consumed (f x) \<noteq> None" using f x by auto
    then show "\<exists>x \<in> set (map f es @ xs). en_id x = tr_enrollment t \<and> en_consumed x \<noteq> None"
      using x(1) by (intro bexI [of _ "f x"]) simp_all
  qed
qed

lemma attempt_tokens_ok:
  assumes ok: "tokens_ok es ts" and "tr_id t \<notin> tr_id ` set ts" and "\<not> succeeded t"
  shows "tokens_ok es (ts @ [t])"
proof -
  note old = tokens_okD [OF ok]
  have mem: "u \<in> set ts" if "u \<in> set (ts @ [t])" "succeeded u" for u using that assms(3) by auto
  show ?thesis
  proof (rule tokens_okI [OF old(1)])
    show "distinct (map tr_id (ts @ [t]))" using old(2) assms(2) by simp
    show "tr_result u \<noteq> None" if "u \<in> set (ts @ [t])" "succeeded u" for u using old(3) [OF mem [OF that] that(2)] .
    show "\<exists>x \<in> set es. en_id x = tr_enrollment u \<and> en_consumed x \<noteq> None" if "u \<in> set (ts @ [t])" "succeeded u" for u
      using old(4) [OF mem [OF that] that(2)] .
    show "u = v" if "u \<in> set (ts @ [t])" "v \<in> set (ts @ [t])" "succeeded u" "succeeded v" "tr_enrollment u = tr_enrollment v" for u v
      using old(5) [OF mem [OF that(1,3)] mem [OF that(2,4)] that(3-5)] .
  qed
qed

lemma deleted_tokens_ok:
  assumes ok: "tokens_ok es ts"
  shows "tokens_ok (filter (\<lambda>e. \<not> pe e) es) (filter (\<lambda>t. \<not> list_ex (\<lambda>e. pe e \<and> en_id e = tr_enrollment t) es) ts)"
proof -
  note old = tokens_okD [OF ok]
  show ?thesis
  proof (rule tokens_okI [OF distinct_map_mono [OF old(1)] distinct_map_mono [OF old(2)]])
    fix t assume t: "t \<in> set (filter (\<lambda>t. \<not> list_ex (\<lambda>e. pe e \<and> en_id e = tr_enrollment t) es) ts)" "succeeded t"
    then have mem: "t \<in> set ts" "\<not> list_ex (\<lambda>e. pe e \<and> en_id e = tr_enrollment t) es" by simp_all
    show "tr_result t \<noteq> None" by (rule old(3) [OF mem(1) t(2)])
    from old(4) [OF mem(1) t(2)] obtain x where x: "x \<in> set es" "en_id x = tr_enrollment t" "en_consumed x \<noteq> None" by blast
    have "\<not> pe x" using mem(2) x(1,2) by (auto simp: list_ex_iff)
    then show "\<exists>x \<in> set (filter (\<lambda>e. \<not> pe e) es). en_id x = tr_enrollment t \<and> en_consumed x \<noteq> None"
      using x by (intro bexI [of _ x]) simp_all
  qed (use old(5) in simp)
qed

lemma completed_tokens_ok:
  assumes ok: "tokens_ok es ts" and x: "x \<in> set es" "en_consumed x = None" and t: "t \<in> set ts" "tr_enrollment t = en_id x"
    and f: "\<forall>y. en_id (f y) = en_id y \<and> en_consumed (f y) \<noteq> None"
  shows "tokens_ok (map (\<lambda>y. if en_id y = en_id x then f y else y) es)
      (map (\<lambda>y. if tr_id y = tr_id t then y\<lparr>tr_status := ''succeeded'', tr_result := Some w\<rparr> else y) ts)"
    (is "tokens_ok (map ?g es) (map ?h ts)")
proof -
  note old = tokens_okD [OF ok]
  have ids: "map en_id (map ?g es) = map en_id es" "map tr_id (map ?h ts) = map tr_id ts" using f by simp_all
  have mine: "y = t" if "y \<in> set ts" "tr_id y = tr_id t" for y using distinct_same [OF old(2) that(1) t(1) that(2)] .
  have others: "tr_enrollment y \<noteq> en_id x" if "y \<in> set ts" "succeeded y" for y
    using old(4) [OF that] distinct_same [OF old(1) _ x(1)] x(2) by metis
  have became: "\<exists>y \<in> set ts. (y = t \<and> tr_enrollment u = en_id x \<and> u = ?h t \<or> tr_id y \<noteq> tr_id t \<and> succeeded y \<and> u = y)"
    if u: "u \<in> set (map ?h ts)" "succeeded u" for u
  proof -
    obtain y where y: "y \<in> set ts" "u = ?h y" using u(1) by auto
    show ?thesis
    proof (cases "tr_id y = tr_id t")
      case True
      then show ?thesis using y mine [OF y(1)] t by (intro bexI [of _ t]) simp_all
    next
      case False
      then show ?thesis using y u(2) by (intro bexI [of _ y]) simp_all
    qed
  qed
  show ?thesis
  proof (rule tokens_okI)
    show "distinct (map en_id (map ?g es))" unfolding ids by (rule old(1))
    show "distinct (map tr_id (map ?h ts))" unfolding ids by (rule old(2))
    fix u assume u: "u \<in> set (map ?h ts)" "succeeded u"
    from became [OF this] obtain y where y: "y \<in> set ts"
        "y = t \<and> tr_enrollment u = en_id x \<and> u = ?h t \<or> tr_id y \<noteq> tr_id t \<and> succeeded y \<and> u = y" by (elim bexE)
    show "tr_result u \<noteq> None" using old(3) [OF y(1)] y(2) by auto
    have "\<exists>z \<in> set es. en_id z = tr_enrollment u \<and> en_consumed (?g z) \<noteq> None"
      using y(2)
    proof
      assume "y = t \<and> tr_enrollment u = en_id x \<and> u = ?h t"
      then show ?thesis using x(1) f t(2) by (intro bexI [of _ x]) simp_all
    next
      assume o: "tr_id y \<noteq> tr_id t \<and> succeeded y \<and> u = y"
      then obtain z where "z \<in> set es" "en_id z = tr_enrollment u" "en_consumed z \<noteq> None" using old(4) [OF y(1)] by blast
      then show ?thesis using f by (intro bexI [of _ z]) simp_all
    qed
    then obtain z where z: "z \<in> set es" "en_id z = tr_enrollment u" "en_consumed (?g z) \<noteq> None" by blast
    show "\<exists>x \<in> set (map ?g es). en_id x = tr_enrollment u \<and> en_consumed x \<noteq> None"
      using z f by (intro bexI [of _ "?g z"]) simp_all
    fix v assume v: "v \<in> set (map ?h ts)" "succeeded v" and same: "tr_enrollment u = tr_enrollment v"
    from became [OF v] obtain y' where y': "y' \<in> set ts"
        "y' = t \<and> tr_enrollment v = en_id x \<and> v = ?h t \<or> tr_id y' \<noteq> tr_id t \<and> succeeded y' \<and> v = y'" by (elim bexE)
    from y(2) show "u = v"
    proof
      assume a: "y = t \<and> tr_enrollment u = en_id x \<and> u = ?h t"
      then have "\<not> (succeeded y' \<and> v = y')" using others [OF y'(1)] same by auto
      then show ?thesis using a y'(2) by auto
    next
      assume a: "tr_id y \<noteq> tr_id t \<and> succeeded y \<and> u = y"
      then have "tr_enrollment v \<noteq> en_id x" using others [OF y(1)] same by auto
      then have "succeeded y'" "v = y'" using y'(2) by auto
      then show ?thesis using a same old(5) [OF y(1) y'(1)] by auto
    qed
  qed
qed

lemma token_step_ok:
  assumes "token_step s s'" and "token_ok s"
  shows "token_ok s'"
  using assms
proof (cases rule: token_step.cases)
  case (t_rows E E' es f xs ts)
  then have ok: "tokens_ok es ts" "set (map en_id es) \<subseteq> E" using assms(2) by (simp_all add: token_ok_def)
  have "set (map en_id xs) \<inter> set (map en_id es) = {}" using t_rows(5) ok(2) by fast
  then have "tokens_ok (map f es @ xs) ts" using rows_tokens_ok [OF ok(1) t_rows(4) _ t_rows(6)] by blast
  moreover have "map en_id (map f es) = map en_id es" using t_rows(4) by simp
  then have "set (map en_id (map f es @ xs)) \<subseteq> E'" unfolding map_append set_append using ok(2) t_rows(3,5) by (simp only:) fast
  ultimately show ?thesis by (simp only: t_rows(2) token_ok_def prod.case simp_thms)
next
  case (t_attempt t ts E es)
  then show ?thesis using assms(2) attempt_tokens_ok by (simp add: token_ok_def)
next
  case (t_delete E es ts pe)
  then show ?thesis using assms(2) deleted_tokens_ok by (auto simp: token_ok_def)
next
  case (t_complete x es t ts f E w)
  then have ok: "tokens_ok es ts" "set (map en_id es) \<subseteq> E" using assms(2) by (simp_all add: token_ok_def)
  have "map en_id (map (\<lambda>y. if en_id y = en_id x then f y else y) es) = map en_id es" using t_complete(7) by simp
  then show ?thesis
    unfolding t_complete(2) token_ok_def prod.case using completed_tokens_ok [OF ok(1) t_complete(3-7)] ok(2) by (simp only: simp_thms)
qed

text \<open>An enrollment that made its Agent makes no other, not even after its row is gone.\<close>

definition settled :: "string \<Rightarrow> enrollment_result \<Rightarrow> string set \<times> enrollment_row list \<times> attempt_row list \<Rightarrow> bool" where
  "settled en w s \<longleftrightarrow> (case s of (E, es, ts) \<Rightarrow>
     en \<in> E \<and> (\<forall>x \<in> set es. en_id x = en \<longrightarrow> en_consumed x \<noteq> None)
     \<and> (\<forall>t \<in> set ts. succeeded t \<longrightarrow> tr_enrollment t = en \<longrightarrow> tr_result t = Some w))"

lemma settled_step:
  assumes "token_step s s'" and "token_ok s" and "settled en w s"
  shows "settled en w s'"
  using assms
proof (cases rule: token_step.cases)
  case (t_rows E E' es f xs ts)
  then have "\<forall>x \<in> set xs. en_id x \<noteq> en" using assms(3) by (auto simp: settled_def)
  then show ?thesis using t_rows assms(3) by (auto simp: settled_def)
next
  case (t_complete x es t ts f E v)
  then have "en_id x \<noteq> en" using assms(3) by (auto simp: settled_def)
  moreover have "distinct (map tr_id ts)" using assms(2) t_complete(1) by (simp add: token_ok_def tokens_ok_def)
  ultimately have "tr_id y \<noteq> tr_id t" if "y \<in> set ts" "tr_enrollment y = en" for y
    using distinct_same [of tr_id ts y t] that t_complete(5,6) by metis
  then have "tr_result y = Some w" if "y \<in> set (map (\<lambda>y. if tr_id y = tr_id t then y\<lparr>tr_status := ''succeeded'', tr_result := Some v\<rparr> else y) ts)"
      "succeeded y" "tr_enrollment y = en" for y
    using that assms(3) t_complete(1) by (auto simp: settled_def split: if_splits)
  moreover have "en_consumed y \<noteq> None" if "y \<in> set (map (\<lambda>y. if en_id y = en_id x then f y else y) es)" "en_id y = en" for y
    using that assms(3) t_complete(1,7) by (auto simp: settled_def)
  moreover have "en \<in> E" using assms(3) t_complete(1) by (simp add: settled_def)
  ultimately show ?thesis unfolding t_complete(2) settled_def prod.case by blast
qed (use assms(3) in \<open>auto simp: settled_def\<close>)

definition token_state :: "history \<Rightarrow> string set \<times> enrollment_row list \<times> attempt_row list" where
  "token_state h = (snd (snd h), gd_enrollments (fst h), gd_attempts (fst h))"

lemma token_state_simps [simp]: "token_state (db, S, E) = (E, gd_enrollments db, gd_attempts db)"
  by (simp add: token_state_def)

lemma token_kept: "token_tables db' = token_tables db \<Longrightarrow> token_step (token_state (db, S, E)) (token_state (db', S', E))"
  by (simp add: token_tables_def token_same)

lemma token_deleted:
  assumes "(r, db') \<in> {delete_tenant q t db} \<or> (r', db') \<in> {delete_project q t db} \<or> (r'', db') \<in> {delete_cluster q t db}"
  shows "token_step (token_state (db, S, E)) (token_state (db', S, E))"
  using assms
proof (cases rule: deletion_cases)
  case same
  show ?thesis by (rule token_kept [OF same(2)])
next
  case (deleted pe pk pa)
  show ?thesis unfolding token_state_simps deleted(4,5) by (rule t_delete)
qed

lemma token_renewed: "renew_credential cid x db = (r, db') \<Longrightarrow> token_step (token_state (db, S, E)) (token_state (db', S', E))"
  by (erule renew_cases) (simp_all add: token_same token_tables_def)

lemma token_revoked: "revoke_agent q c db = (r, db') \<Longrightarrow> token_step (token_state (db, S, E)) (token_state (db', S', E))"
  by (erule revoke_cases) (simp_all add: token_same token_tables_def)

lemma token_completed:
  assumes "complete_enrollment lower dbnow cid c db = (r, db')"
  shows "token_step (token_state (db, S, E)) (token_state (db', S', E))"
  using assms
proof (cases rule: complete_cases)
  case (failed e)
  then show ?thesis by (simp add: agent_core_defs token_same)
next
  case (replayed t)
  then show ?thesis by (simp add: token_same)
next
  case (enrolled x t)
  show ?thesis
    unfolding token_state_simps enrolled(10,11)
    by (rule t_complete [where f = "\<lambda>y. y\<lparr>en_cluster := Some (case en_cluster y of None \<Rightarrow> ec_cluster c | Some d \<Rightarrow> d),
         en_consumed := Some (ec_now c)\<rparr>"]) (use enrolled in simp_all)
qed

lemma token_updated:
  assumes "update_cluster lower q c n st db = (r, db')"
  shows "token_step (token_state (db, S, E)) (token_state (db', S, E))"
proof -
  from update_cluster_tables [OF assms] obtain f where
    f: "gd_enrollments db' = map f (gd_enrollments db) @ []" "gd_attempts db' = gd_attempts db"
      "\<forall>x. en_id (f x) = en_id x \<and> en_consumed (f x) = en_consumed x" by (metis append_Nil2)
  show ?thesis unfolding token_state_simps f(1,2) by (rule t_rows) (use f(3) in simp_all)
qed

lemma token_issued:
  assumes "create_enrollment lower q dbnow i e db = (r, db')" and "i \<notin> E"
  shows "token_step (token_state (db, S, E)) (token_state (db', S, insert i E))"
proof -
  from create_enrollment_tables [OF assms(1)] obtain f xs where
    f: "gd_enrollments db' = map f (gd_enrollments db) @ xs" "gd_attempts db' = gd_attempts db"
      "xs = [] \<or> (\<exists>x. xs = [x] \<and> en_id x = i)" "\<forall>x. en_id (f x) = en_id x \<and> en_consumed (f x) = en_consumed x"
    by metis
  show ?thesis unfolding token_state_simps f(1,2)
    by (rule t_rows) (use f(3,4) assms(2) in auto)
qed

lemma token_withdrawn:
  assumes "revoke_enrollment q p i db = (r, db')" and ok: "token_ok (token_state (db, S, E))"
  shows "token_step (token_state (db, S, E)) (token_state (db', S, E))"
proof -
  from revoke_enrollment_tables [OF assms(1)] consider "gd_enrollments db' = gd_enrollments db" "gd_attempts db' = gd_attempts db"
    | x t where "x \<in> set (gd_enrollments db)" "en_id x = i" "en_consumed x = None" "gd_attempts db' = gd_attempts db"
        "gd_enrollments db' = map (\<lambda>y. if en_id y = i then x\<lparr>en_revoked := t\<rparr> else y) (gd_enrollments db) @ []"
    unfolding append_Nil2 by blast
  then show ?thesis
  proof cases
    case 1
    then show ?thesis by (simp add: token_same)
  next
    case (2 x t)
    have "distinct (map en_id (gd_enrollments db))" using ok by (simp add: token_ok_def tokens_ok_def)
    then have "en_consumed y = None" if "y \<in> set (gd_enrollments db)" "en_id y = i" for y
      using distinct_same [of en_id "gd_enrollments db" y x] that 2(1-3) by simp
    then show ?thesis unfolding token_state_simps 2(4,5) by (intro t_rows) (use 2(2) in simp_all)
  qed
qed

lemma token_begun:
  assumes "begin_enrollment i q db = (r, db')" and "i \<notin> tr_id ` set (gd_attempts db)"
  shows "token_step (token_state (db, S, E)) (token_state (db', S, E))"
proof -
  from begin_enrollment_tables [OF assms(1)] consider "gd_enrollments db' = gd_enrollments db" "gd_attempts db' = gd_attempts db"
    | t where "gd_enrollments db' = gd_enrollments db" "gd_attempts db' = gd_attempts db @ [t]" "tr_id t = i" "tr_status t = ''pending''"
    by blast
  then show ?thesis
  proof cases
    case 1
    then show ?thesis by (simp add: token_same)
  next
    case (2 t)
    show ?thesis unfolding token_state_simps 2(1,2) by (rule t_attempt) (use assms(2) 2(3,4) in \<open>simp_all add: succeeded_def\<close>)
  qed
qed

lemma token_beaten:
  "activate_connection v db = (r, db') \<Longrightarrow> token_step (token_state (db, S, E)) (token_state (db', S, E))"
  "record_agent_heartbeat i serial health now db = (r, db') \<Longrightarrow> token_step (token_state (db, S, E)) (token_state (db', S, E))"
  by (auto simp: activate_connection_def record_agent_heartbeat_def Let_def token_same split: if_splits)

lemma db_step_token:
  assumes "db_step lower h h'" and ok: "token_ok (token_state h)"
  shows "token_step (token_state h) (token_state h')"
  using assms(1)
proof (cases rule: db_step.cases)
  case (s_users db S E us)
  then show ?thesis by (simp add: token_same)
next
  case (s_activate v db r db' S E)
  show ?thesis unfolding s_activate(1,2) by (rule token_beaten(1) [OF s_activate(3)])
next
  case (s_heartbeat i serial health now db r db' S E)
  show ?thesis unfolding s_heartbeat(1,2) by (rule token_beaten(2) [OF s_heartbeat(3)])
next
  case (s_update_cluster q c n st db r db' S E)
  show ?thesis unfolding s_update_cluster(1,2) by (rule token_updated [OF s_update_cluster(3)])
next
  case (s_create_enrollment q dbnow i e db r db' E S)
  show ?thesis unfolding s_create_enrollment(1,2) by (rule token_issued [OF s_create_enrollment(3,4)])
next
  case (s_revoke_enrollment q p i db r db' S E)
  show ?thesis unfolding s_revoke_enrollment(1,2) by (rule token_withdrawn [OF s_revoke_enrollment(3) ok [unfolded s_revoke_enrollment(1)]])
next
  case (s_begin i q db r db' S E)
  show ?thesis unfolding s_begin(1,2) by (rule token_begun [OF s_begin(3,4)])
next
  case (s_create_tenant q i n key db r db' S E)
  show ?thesis unfolding s_create_tenant(1,2) by (rule token_kept [OF conjunct2 [OF scopes_keep_tables(1) [OF s_create_tenant(3)]]])
next
  case (s_create_project q i t n key db r db' S E)
  show ?thesis unfolding s_create_project(1,2) by (rule token_kept [OF conjunct2 [OF scopes_keep_tables(2) [OF s_create_project(3)]]])
next
  case (s_update_tenant q t n st db r db' S E)
  show ?thesis unfolding s_update_tenant(1,2) by (rule token_kept [OF conjunct2 [OF scopes_keep_tables(3) [OF s_update_tenant(3)]]])
next
  case (s_update_project q p n st db r db' S E)
  show ?thesis unfolding s_update_project(1,2) by (rule token_kept [OF conjunct2 [OF scopes_keep_tables(4) [OF s_update_project(3)]]])
next
  case (s_failure en rq db r db' S E)
  show ?thesis unfolding s_failure(1,2) by (rule token_kept [OF conjunct2 [OF scopes_keep_tables(5) [OF s_failure(3)]]])
next
  case (s_delete_tenant q t db r db' S E)
  show ?thesis unfolding s_delete_tenant(1,2) by (rule token_deleted [of r db' q t db]) (use s_delete_tenant(3) in simp)
next
  case (s_delete_project q p db r db' S E)
  show ?thesis unfolding s_delete_project(1,2) by (rule token_deleted [of _ db' q p db r]) (use s_delete_project(3) in simp)
next
  case (s_delete_cluster q c db r db' S E)
  show ?thesis unfolding s_delete_cluster(1,2) by (rule token_deleted [of _ db' q c db _ r]) (use s_delete_cluster(3) in simp)
next
  case (s_renew cid x db r db' S E)
  show ?thesis unfolding s_renew(1,2) by (rule token_renewed [OF s_renew(3)])
next
  case (s_revoke_agent q c db r db' S E)
  show ?thesis unfolding s_revoke_agent(1,2) by (rule token_revoked [OF s_revoke_agent(3)])
next
  case (s_complete dbnow cid c db r db' S E)
  show ?thesis unfolding s_complete(1,2) by (rule token_completed [OF s_complete(3)])
qed

subsection \<open>Credentials over a history\<close>

text \<open>A credential of a later state stems from one of the earlier, withdrawn if that was, or bears a new serial number.\<close>

definition stems :: "string set \<Rightarrow> credential_row list \<Rightarrow> string set \<Rightarrow> credential_row list \<Rightarrow> bool" where
  "stems S ks S' ks' \<longleftrightarrow> S \<subseteq> S'
     \<and> (\<forall>l \<in> set ks'. (\<exists>k \<in> set ks. kr_serial l = kr_serial k \<and> csr_key l = csr_key k \<and> (kr_revoked l = None \<longrightarrow> kr_revoked k = None))
          \<or> kr_serial l \<in> S' - S)"

lemma stems_changed:
  assumes "S \<subseteq> S'" and "\<And>k. kr_serial (g k) = kr_serial k \<and> csr_key (g k) = csr_key k \<and> (kr_revoked (g k) = None \<longrightarrow> kr_revoked k = None)"
  shows "stems S ks S' (map g ks)"
  using assms unfolding stems_def by auto

lemma stems_same: "S \<subseteq> S' \<Longrightarrow> ks' = ks \<Longrightarrow> stems S ks S' ks'"
  using stems_changed [of S S' id ks] by simp

lemma stems_filtered: "stems S ks S (filter P ks)"
  unfolding stems_def by auto

lemma stems_appended: "stems S ks S' ks \<Longrightarrow> kr_serial k \<in> S' - S \<Longrightarrow> stems S ks S' (ks @ [k])"
  unfolding stems_def by auto

lemma tables_kept: "agent_tables db' = agent_tables db \<Longrightarrow> S \<subseteq> S' \<Longrightarrow> agents_ok db
   \<Longrightarrow> agents_ok db' \<and> stems S (gd_credentials db) S' (gd_credentials db')"
  by (simp add: agent_tables_def agents_ok_def stems_same)

lemma deletion_stems:
  assumes "(r, db') \<in> {delete_tenant q t db} \<or> (r', db') \<in> {delete_project q t db} \<or> (r'', db') \<in> {delete_cluster q t db}"
  shows "stems S (gd_credentials db) S (gd_credentials db')"
  using assms
proof (cases rule: deletion_cases)
  case same
  then show ?thesis by (simp add: agent_tables_def stems_same)
next
  case (deleted pe pk pa)
  show ?thesis unfolding deleted(3) by (rule stems_filtered)
qed

lemma connection_stems:
  "activate_connection v db = (r, db') \<Longrightarrow> stems S (gd_credentials db) S (gd_credentials db')"
  "record_agent_heartbeat i serial health now db = (r, db') \<Longrightarrow> stems S (gd_credentials db) S (gd_credentials db')"
proof -
  assume "activate_connection v db = (r, db')"
  then show "stems S (gd_credentials db) S (gd_credentials db')"
  proof (cases "may_activate db (av_identity v) (av_serial v) (av_now v)")
    case True
    have "gd_credentials db' = map (\<lambda>k. if credential_of (av_identity v) k \<and> kr_serial k \<noteq> av_serial v \<and> kr_revoked k = None
         then k\<lparr>kr_revoked := Some (av_now v)\<rparr> else k) (gd_credentials db)"
      using \<open>activate_connection v db = (r, db')\<close> True by (auto simp: activate_connection_def Let_def update_where_def)
    then show ?thesis by (simp only:) (rule stems_changed; simp add: csr_key_def)
  qed (auto simp: activate_connection_def Let_def intro: stems_same)
next
  assume "record_agent_heartbeat i serial health now db = (r, db')"
  then show "stems S (gd_credentials db) S (gd_credentials db')"
    by (cases "may_beat db i serial now") (auto simp: record_agent_heartbeat_def intro!: stems_same)
qed

lemma issue_stems:
  "renew_credential cid x db = (r, db') \<Longrightarrow> rn_serial x \<notin> S \<Longrightarrow> stems S (gd_credentials db) (insert (rn_serial x) S) (gd_credentials db')"
  "complete_enrollment lower dbnow cid c db = (r', db') \<Longrightarrow> ec_serial c \<notin> S \<Longrightarrow>
     stems S (gd_credentials db) (insert (ec_serial c) S) (gd_credentials db')"
proof -
  assume "renew_credential cid x db = (r, db')" and new: "rn_serial x \<notin> S"
  then show "stems S (gd_credentials db) (insert (rn_serial x) S) (gd_credentials db')"
  proof (cases rule: renew_cases)
    case same
    then show ?thesis by (simp add: stems_same subset_insertI)
  next
    case (new a)
    show ?thesis unfolding new(3)
      by (rule stems_appended) (use \<open>rn_serial x \<notin> S\<close> in \<open>simp_all add: stems_same subset_insertI renewed_row_def\<close>)
  qed
next
  assume "complete_enrollment lower dbnow cid c db = (r', db')" and new: "ec_serial c \<notin> S"
  then show "stems S (gd_credentials db) (insert (ec_serial c) S) (gd_credentials db')"
  proof (cases rule: complete_cases)
    case (failed e)
    then show ?thesis by (simp add: agent_core_defs stems_same subset_insertI)
  next
    case (replayed t)
    then show ?thesis by (simp add: stems_same subset_insertI)
  next
    case (enrolled x t)
    show ?thesis unfolding enrolled(9)
      by (rule stems_appended) (use new in \<open>simp_all add: stems_same subset_insertI enrolled_credential_def\<close>)
  qed
qed

lemma revoke_stems:
  assumes "revoke_agent q c db = (r, db')"
  shows "stems S (gd_credentials db) S (gd_credentials db')"
  using assms
proof (cases rule: revoke_cases)
  case same
  then show ?thesis by (simp add: agent_tables_def stems_same)
next
  case (revoked a)
  show ?thesis unfolding revoked(5) by (rule stems_changed) (simp_all add: csr_key_def)
qed

lemma db_step_credentials:
  assumes "db_step lower h h'" and ok: "agents_ok (fst h)"
  shows "agents_ok (fst h') \<and> stems (fst (snd h)) (gd_credentials (fst h)) (fst (snd h')) (gd_credentials (fst h'))"
  using assms(1)
proof (cases rule: db_step.cases)
  case (s_users db S E us)
  then show ?thesis using ok by (simp add: agents_ok_def stems_same)
next
  case (s_create_tenant q i n key db r db' S E)
  show ?thesis unfolding s_create_tenant(1,2) fst_conv snd_conv
    by (rule tables_kept) (use scopes_keep_tables(1) [OF s_create_tenant(3)] ok s_create_tenant(1) in simp_all)
next
  case (s_create_project q i t n key db r db' S E)
  show ?thesis unfolding s_create_project(1,2) fst_conv snd_conv
    by (rule tables_kept) (use scopes_keep_tables(2) [OF s_create_project(3)] ok s_create_project(1) in simp_all)
next
  case (s_update_tenant q t n st db r db' S E)
  show ?thesis unfolding s_update_tenant(1,2) fst_conv snd_conv
    by (rule tables_kept) (use scopes_keep_tables(3) [OF s_update_tenant(3)] ok s_update_tenant(1) in simp_all)
next
  case (s_update_project q p n st db r db' S E)
  show ?thesis unfolding s_update_project(1,2) fst_conv snd_conv
    by (rule tables_kept) (use scopes_keep_tables(4) [OF s_update_project(3)] ok s_update_project(1) in simp_all)
next
  case (s_failure en rq db r db' S E)
  show ?thesis unfolding s_failure(1,2) fst_conv snd_conv
    by (rule tables_kept) (use scopes_keep_tables(5) [OF s_failure(3)] ok s_failure(1) in simp_all)
next
  case (s_update_cluster q c n st db r db' S E)
  show ?thesis unfolding s_update_cluster(1,2) fst_conv snd_conv
    by (rule tables_kept) (use update_cluster_tables [OF s_update_cluster(3)] ok s_update_cluster(1) in simp_all)
next
  case (s_create_enrollment q dbnow i e db r db' E S)
  show ?thesis unfolding s_create_enrollment(1,2) fst_conv snd_conv
    by (rule tables_kept) (use create_enrollment_tables [OF s_create_enrollment(3)] ok s_create_enrollment(1) in simp_all)
next
  case (s_revoke_enrollment q p i db r db' S E)
  show ?thesis unfolding s_revoke_enrollment(1,2) fst_conv snd_conv
    by (rule tables_kept) (use revoke_enrollment_tables [OF s_revoke_enrollment(3)] ok s_revoke_enrollment(1) in simp_all)
next
  case (s_begin i q db r db' S E)
  show ?thesis unfolding s_begin(1,2) fst_conv snd_conv
    by (rule tables_kept) (use begin_enrollment_tables [OF s_begin(3)] ok s_begin(1) in simp_all)
next
  case (s_delete_tenant q t db r db' S E)
  have d: "(r, db') \<in> {delete_tenant q t db} \<or> (r', db') \<in> {delete_project q t db} \<or> (r'', db') \<in> {delete_cluster q t db}" for r' r''
    using s_delete_tenant(3) by simp
  show ?thesis using deletion_ok [OF _ d] deletion_stems [OF d] ok by (simp add: s_delete_tenant(1,2))
next
  case (s_delete_project q t db r db' S E)
  have d: "(r', db') \<in> {delete_tenant q t db} \<or> (r, db') \<in> {delete_project q t db} \<or> (r'', db') \<in> {delete_cluster q t db}" for r' r''
    using s_delete_project(3) by simp
  show ?thesis using deletion_ok [OF _ d] deletion_stems [OF d] ok by (simp add: s_delete_project(1,2))
next
  case (s_delete_cluster q t db r db' S E)
  have d: "(r', db') \<in> {delete_tenant q t db} \<or> (r'', db') \<in> {delete_project q t db} \<or> (r, db') \<in> {delete_cluster q t db}" for r' r''
    using s_delete_cluster(3) by simp
  show ?thesis using deletion_ok [OF _ d] deletion_stems [OF d] ok by (simp add: s_delete_cluster(1,2))
next
  case (s_activate v db r db' S E)
  show ?thesis using activate_ok [OF _ s_activate(3)] connection_stems(1) [OF s_activate(3)] ok by (simp add: s_activate(1,2))
next
  case (s_heartbeat i serial health now db r db' S E)
  show ?thesis using heartbeat_ok [OF _ s_heartbeat(3)] connection_stems(2) [OF s_heartbeat(3)] ok by (simp add: s_heartbeat(1,2))
next
  case (s_renew cid x db r db' S E)
  show ?thesis using renew_ok [OF _ s_renew(3)] issue_stems(1) [OF s_renew(3,4)] ok by (simp add: s_renew(1,2))
next
  case (s_revoke_agent q c db r db' S E)
  show ?thesis using revoke_ok [OF _ s_revoke_agent(3)] revoke_stems [OF s_revoke_agent(3)] ok by (simp add: s_revoke_agent(1,2))
next
  case (s_complete dbnow cid c db r db' S E)
  show ?thesis using complete_ok [OF _ s_complete(3)] issue_stems(2) [OF s_complete(3,4)] ok by (simp add: s_complete(1,2))
qed

subsection \<open>What holds of every history\<close>

definition history_ok :: "history \<Rightarrow> bool" where
  "history_ok h \<longleftrightarrow> agents_ok (fst h) \<and> kr_serial ` set (gd_credentials (fst h)) \<subseteq> fst (snd h) \<and> token_ok (token_state h)"

lemma history_ok_step:
  assumes "db_step lower h h'" and "history_ok h"
  shows "history_ok h'"
proof -
  have ok: "agents_ok (fst h)" "kr_serial ` set (gd_credentials (fst h)) \<subseteq> fst (snd h)" "token_ok (token_state h)"
    using assms(2) by (simp_all add: history_ok_def)
  note new = db_step_credentials [OF assms(1) ok(1)]
  have "kr_serial ` set (gd_credentials (fst h')) \<subseteq> fst (snd h')"
  proof
    fix x assume "x \<in> kr_serial ` set (gd_credentials (fst h'))"
    then obtain l where l: "l \<in> set (gd_credentials (fst h'))" "x = kr_serial l" by blast
    have "(\<exists>k \<in> set (gd_credentials (fst h)). kr_serial l = kr_serial k) \<or> kr_serial l \<in> fst (snd h')"
      using new l(1) unfolding stems_def by blast
    then show "x \<in> fst (snd h')" using l(2) ok(2) new unfolding stems_def by auto
  qed
  then show ?thesis using new token_step_ok [OF db_step_token [OF assms(1) ok(3)] ok(3)] by (simp add: history_ok_def)
qed

lemma history_ok_reach: "db_reach lower h \<Longrightarrow> history_ok h"
proof (induction rule: db_reach.induct)
  case (db_start users)
  show ?case
    by (simp add: history_ok_def agents_ok_def credentials_ok_def empty_db_def token_ok_def tokens_ok_def)
next
  case (db_more h h')
  then show ?case using history_ok_step by blast
qed

text \<open>A serial number that was drawn and of which every row is withdrawn; its rows keep their request.\<close>

definition withdrawn :: "string \<Rightarrow> (string \<times> string) \<times> (string \<times> string) \<times> string \<Rightarrow> history \<Rightarrow> bool" where
  "withdrawn serial key h \<longleftrightarrow> history_ok h \<and> serial \<in> fst (snd h)
     \<and> (\<forall>k \<in> set (gd_credentials (fst h)). kr_serial k = serial \<longrightarrow> kr_revoked k \<noteq> None \<and> csr_key k = key)"

lemma withdrawn_step:
  assumes "db_step lower h h'" and old: "withdrawn serial key h"
  shows "withdrawn serial key h'"
proof -
  have ok: "history_ok h" using old by (simp add: withdrawn_def)
  have new: "stems (fst (snd h)) (gd_credentials (fst h)) (fst (snd h')) (gd_credentials (fst h'))"
    using db_step_credentials [OF assms(1)] ok by (simp add: history_ok_def)
  have "kr_revoked l \<noteq> None \<and> csr_key l = key" if l: "l \<in> set (gd_credentials (fst h'))" "kr_serial l = serial" for l
  proof -
    have "kr_serial l \<notin> fst (snd h') - fst (snd h)" using old l(2) by (simp add: withdrawn_def)
    then obtain k where k: "k \<in> set (gd_credentials (fst h))" "kr_serial l = kr_serial k" "csr_key l = csr_key k"
        "kr_revoked l = None \<longrightarrow> kr_revoked k = None" using new l(1) unfolding stems_def by blast
    then have "kr_revoked k \<noteq> None" "csr_key k = key" using old l(2) unfolding withdrawn_def by simp_all
    then show ?thesis using k(3,4) by auto
  qed
  then show ?thesis using history_ok_step [OF assms(1) ok] old new unfolding withdrawn_def stems_def by auto
qed

lemma withdrawn_steps: "(db_step lower)\<^sup>*\<^sup>* h h' \<Longrightarrow> withdrawn serial key h \<Longrightarrow> withdrawn serial key h'"
  by (induction rule: rtranclp_induct) (auto intro: withdrawn_step)

lemma withdrawn_unusable: "withdrawn serial key h \<Longrightarrow> \<not> list_ex (usable_credential i serial now) (gd_credentials (fst h))"
  by (auto simp: withdrawn_def list_ex_iff usable_credential_def)

lemma unusable_refused:
  assumes "\<not> list_ex (usable_credential i serial now) (gd_credentials db)"
  shows "record_agent_heartbeat i serial health now db = (Inl AgentCredentialRejected, db)"
    and "av_identity v = i \<Longrightarrow> av_serial v = serial \<Longrightarrow> av_now v = now \<Longrightarrow> activate_connection v db = (Inl AgentCredentialRejected, db)"
  using assms by (simp_all add: record_agent_heartbeat_def activate_connection_def may_beat_def may_activate_def classify_rejection_def)

lemma withdrawn_row:
  assumes "history_ok (db, S, E)" and "k \<in> set (gd_credentials db)" and "kr_revoked k \<noteq> None"
  shows "withdrawn (kr_serial k) (csr_key k) (db, S, E)"
proof -
  have "distinct (map kr_serial (gd_credentials db))"
    using assms(1) by (simp add: history_ok_def agents_ok_def credentials_ok_def)
  then show ?thesis
    using assms distinct_same [of kr_serial "gd_credentials db" _ k] by (auto simp: withdrawn_def history_ok_def)
qed

subsection \<open>A short history\<close>

abbreviation (input) tenant_id :: string where "tenant_id \<equiv> ''11111111-1111-4111-8111-111111111111''"
abbreviation (input) project_id :: string where "project_id \<equiv> ''22222222-2222-4222-8222-222222222222''"
abbreviation (input) cluster_id :: string where "cluster_id \<equiv> ''33333333-3333-4333-8333-333333333333''"
abbreviation (input) agent_id :: string where "agent_id \<equiv> ''44444444-4444-4444-8444-444444444444''"

definition admin_at :: "time \<Rightarrow> actor_request" where
  "admin_at now = \<lparr>ar_actor = ''u'', ar_request = ''r'', ar_now = now\<rparr>"

definition digest_of :: "char \<Rightarrow> string" where "digest_of c = replicate 32 c"

definition token_params :: enrollment_params where
  "token_params = \<lparr>ep_project = project_id, ep_cluster = [], ep_name = ''edge'', ep_namespace = ''zke'', ep_digest = digest_of CHR ''d'',
     ep_key = ''k'', ep_expires = 100, ep_snapshot = True\<rparr>"

definition token_use :: enroll_request where
  "token_use = \<lparr>eq_digest = digest_of CHR ''d'', eq_key = ''key'', eq_fingerprint = digest_of CHR ''f'', eq_request = ''r'', eq_now = 20\<rparr>"

definition token_completion :: "string \<Rightarrow> completion" where
  "token_completion serial = \<lparr>ec_enrollment = ''e'', ec_attempt = ''a'', ec_key = ''key'', ec_fingerprint = digest_of CHR ''f'', ec_cluster = cluster_id,
     ec_agent = agent_id, ec_version = ''1'', ec_protocol = ''1'', ec_serial = serial, ec_pem = ''pem'', ec_expires = 1000,
     ec_request = ''r'', ec_now = 30\<rparr>"

definition edge_agent :: agent_identity where
  "edge_agent = \<lparr>an_tenant = tenant_id, an_project = project_id, an_cluster = cluster_id, an_agent = agent_id\<rparr>"

definition connect_at :: "time \<Rightarrow> activation" where
  "connect_at now = \<lparr>av_identity = edge_agent, av_serial = ''s1'', av_version = ''1'', av_protocol = ''1'', av_health = ''healthy'', av_now = now\<rparr>"

definition renewal_at :: "string \<Rightarrow> time \<Rightarrow> renewal" where
  "renewal_at serial now = \<lparr>rn_identity = edge_agent, rn_current = ''s1'', rn_fingerprint = digest_of CHR ''g'', rn_serial = serial,
     rn_pem = ''pem2'', rn_expires = 2000, rn_request = ''r'', rn_now = now\<rparr>"

definition d1 :: agent_db where "d1 = snd (create_tenant id (admin_at 10) tenant_id ''T'' ''k'' (empty_db [''u'']))"
definition d2 :: agent_db where "d2 = snd (create_project id (admin_at 10) project_id tenant_id ''P'' ''k'' d1)"
definition d3 :: agent_db where "d3 = snd (create_enrollment id (admin_at 10) 10 ''e'' token_params d2)"
definition d4 :: agent_db where "d4 = snd (begin_enrollment ''a'' token_use d3)"
definition d5 :: agent_db where "d5 = snd (complete_enrollment id 30 ''k1'' (token_completion ''s1'') d4)"
definition d6 :: agent_db where "d6 = snd (activate_connection (connect_at 40) d5)"
definition d7 :: agent_db where "d7 = snd (renew_credential ''k2'' (renewal_at ''s2'' 50) d6)"
definition d8 :: agent_db where "d8 = snd (activate_connection (connect_at 60) d7)"
definition d9 :: agent_db where "d9 = snd (revoke_agent (admin_at 70) cluster_id d6)"

lemmas sample_defs = admin_at_def token_params_def token_use_def token_completion_def edge_agent_def connect_at_def renewal_at_def digest_of_def
  zero_time_def

lemma sample_texts [simp]:
  "trim_space ''u'' = ''u''" "trim_space ''r'' = ''r''" "trim_space ''k'' = ''k''" "trim_space tenant_id = tenant_id"
  "trim_space ''T'' = ''T''" "trim_space project_id = project_id" "trim_space ''P'' = ''P''" "trim_space ''e'' = ''e''"
  "trim_space ''a'' = ''a''" "trim_space cluster_id = cluster_id" "trim_space ''edge'' = ''edge''" "trim_space ''zke'' = ''zke''"
  "trim_space ''key'' = ''key''" "trim_space agent_id = agent_id" "trim_space ''1'' = ''1''"
  "trim_space ''s1'' = ''s1''" "trim_space ''s2'' = ''s2''" "trim_space ''s3'' = ''s3''" "trim_space ''pem'' = ''pem''"
  "trim_space ''pem2'' = ''pem2''"
  by code_simp+

definition tenant_t :: tenant_row where
  "tenant_t = \<lparr>te_id = tenant_id, te_name = ''T'', te_status = ''active'', te_created = 10, te_updated = 10\<rparr>"

definition project_p :: project_row where
  "project_p = \<lparr>pj_id = project_id, pj_tenant = tenant_id, pj_name = ''P'', pj_status = ''active'', pj_created = 10, pj_updated = 10\<rparr>"

lemma d1: "fst (create_tenant id (admin_at 10) tenant_id ''T'' ''k'' (empty_db [''u''])) = Inr (tenant_t, False)"
    "gd_users d1 = [''u'']" "gd_tenants d1 = [tenant_t]" "gd_projects d1 = []" "gd_clusters d1 = []"
    "gd_agents d1 = []" "gd_credentials d1 = []" "gd_enrollments d1 = []" "gd_attempts d1 = []"
    "\<forall>r \<in> set (gd_requests d1). cq_tenant r = None"
  by (simp_all add: d1_def create_tenant_def empty_db_def sample_defs invalid_create_params_def active_actor_def tenant_t_def
      find_tenant_creation_replay_def find_tenant_def Let_def)

lemma d2: "fst (create_project id (admin_at 10) project_id tenant_id ''P'' ''k'' d1) = Inr (project_p, False)"
    "gd_users d2 = [''u'']" "gd_tenants d2 = [tenant_t]" "gd_projects d2 = [project_p]" "gd_clusters d2 = []"
    "gd_agents d2 = []" "gd_credentials d2 = []" "gd_enrollments d2 = []" "gd_attempts d2 = []"
proof -
  have "find (\<lambda>r. cq_tenant r = Some tenant_id \<and> cq_actor r = ''u'' \<and> cq_key r = ''k'') (gd_requests d1) = None"
    "\<not> list_ex (\<lambda>r. cq_tenant r = Some tenant_id \<and> cq_actor r = ''u'' \<and> cq_key r = ''k'') (gd_requests d1)"
    using d1(10) by (auto simp: find_None_iff list_ex_iff)
  then show "fst (create_project id (admin_at 10) project_id tenant_id ''P'' ''k'' d1) = Inr (project_p, False)"
    "gd_users d2 = [''u'']" "gd_tenants d2 = [tenant_t]" "gd_projects d2 = [project_p]" "gd_clusters d2 = []"
    "gd_agents d2 = []" "gd_credentials d2 = []" "gd_enrollments d2 = []" "gd_attempts d2 = []"
    by (simp_all add: d2_def create_project_def d1 sample_defs invalid_create_params_def active_actor_def tenant_t_def project_p_def
        find_project_creation_replay_def find_tenant_def find_project_def tenant_status_def Let_def)
qed

definition token_e :: enrollment_row where
  "token_e = \<lparr>en_id = ''e'', en_tenant = tenant_id, en_project = project_id, en_cluster = None, en_name = ''edge'', en_namespace = ''zke'',
     en_digest = digest_of CHR ''d'', en_creator = ''u'', en_key = ''k'', en_expires = 100, en_consumed = None, en_revoked = None,
     en_created = 10\<rparr>"

lemmas scope_reads = active_actor_def find_tenant_def find_project_def find_cluster_def tenant_status_def project_status_def
  cluster_status_def tenant_t_def project_p_def

lemma d3: "fst (create_enrollment id (admin_at 10) 10 ''e'' token_params d2) = Inr token_e"
    "gd_users d3 = [''u'']" "gd_tenants d3 = [tenant_t]" "gd_projects d3 = [project_p]" "gd_clusters d3 = []"
    "gd_agents d3 = []" "gd_credentials d3 = []" "gd_enrollments d3 = [token_e]" "gd_attempts d3 = []"
  by (simp_all add: d3_def create_enrollment_def d2 sample_defs may_issue_def scope_reads token_e_def Let_def update_where_def)

definition attempt_a :: attempt_row where
  "attempt_a = \<lparr>tr_id = ''a'', tr_enrollment = ''e'', tr_key = ''key'', tr_fingerprint = digest_of CHR ''f'', tr_status = ''pending'',
     tr_result = None\<rparr>"

lemma d4: "fst (begin_enrollment ''a'' token_use d3) = Inr (token_e, attempt_a)"
    "gd_users d4 = [''u'']" "gd_tenants d4 = [tenant_t]" "gd_projects d4 = [project_p]" "gd_clusters d4 = []"
    "gd_agents d4 = []" "gd_credentials d4 = []" "gd_enrollments d4 = [token_e]" "gd_attempts d4 = [attempt_a]"
  by (simp_all add: d4_def begin_enrollment_def d3 sample_defs scope_reads token_e_def attempt_a_def Let_def lock_enrollment_def
      locked_scope_def find_attempt_def is_usable_def)

lemma d5: "fst (complete_enrollment id 30 ''k1'' (token_completion ''s1'') d4)
      = Inr \<lparr>er_cluster = cluster_id, er_agent = agent_id, er_pem = ''pem'', er_expires = 1000\<rparr>"
    "gd_tenants d5 = [tenant_t]" "gd_projects d5 = [project_p]"
    "map cl_id (gd_clusters d5) = [cluster_id]" "map cl_status (gd_clusters d5) = [''pending'']"
    "map cl_tenant (gd_clusters d5) = [tenant_id]" "map cl_project (gd_clusters d5) = [project_id]"
    "gd_agents d5 = [enrolled_agent 30 (token_completion ''s1'') token_e]"
    "gd_credentials d5 = [enrolled_credential ''k1'' (token_completion ''s1'') token_e]"
  by (simp_all add: d5_def complete_enrollment_def d4 sample_defs scope_reads token_e_def attempt_a_def Let_def lock_enrollment_def
      locked_scope_def is_usable_def completion_fields_ok_def enrolled_cluster_def agent_insertable_def)

lemma d5_tokens: "gd_enrollments d5 = [token_e\<lparr>en_cluster := Some cluster_id, en_consumed := Some 30\<rparr>]"
    "gd_users d5 = [''u'']"
    "gd_attempts d5 = [attempt_a\<lparr>tr_status := ''succeeded'',
       tr_result := Some \<lparr>er_cluster = cluster_id, er_agent = agent_id, er_pem = ''pem'', er_expires = 1000\<rparr>\<rparr>]"
  by (simp_all add: d5_def complete_enrollment_def d4 sample_defs scope_reads token_e_def attempt_a_def Let_def lock_enrollment_def
      locked_scope_def is_usable_def completion_fields_ok_def enrolled_cluster_def agent_insertable_def update_where_def)

lemma d5_cluster: "\<exists>x. gd_clusters d5 = [x] \<and> cl_id x = cluster_id \<and> cl_status x = ''pending'' \<and> cl_tenant x = tenant_id \<and> cl_project x = project_id"
  using d5(4-7) by (cases "gd_clusters d5") auto

lemmas sample_rows = enrolled_agent_def enrolled_credential_def token_e_def agent_of_def credential_of_def usable_credential_def
  scope_active_def update_where_def

lemma d6: "fst (activate_connection (connect_at 40) d5) = Inr ()"
    "gd_tenants d6 = [tenant_t]" "gd_projects d6 = [project_p]"
    "\<exists>x. gd_clusters d6 = [x] \<and> cl_id x = cluster_id \<and> cl_status x = ''active'' \<and> cl_tenant x = tenant_id \<and> cl_project x = project_id"
    "\<exists>a. gd_agents d6 = [a] \<and> agent_of edge_agent a \<and> ag_lifecycle a = ''active''"
    "gd_credentials d6 = [enrolled_credential ''k1'' (token_completion ''s1'') token_e]"
proof -
  obtain x where x: "gd_clusters d5 = [x]" "cl_id x = cluster_id" "cl_status x = ''pending''" "cl_tenant x = tenant_id" "cl_project x = project_id"
    using d5_cluster by blast
  show "fst (activate_connection (connect_at 40) d5) = Inr ()" "gd_tenants d6 = [tenant_t]" "gd_projects d6 = [project_p]"
    "\<exists>x. gd_clusters d6 = [x] \<and> cl_id x = cluster_id \<and> cl_status x = ''active'' \<and> cl_tenant x = tenant_id \<and> cl_project x = project_id"
    "\<exists>a. gd_agents d6 = [a] \<and> agent_of edge_agent a \<and> ag_lifecycle a = ''active''"
    "gd_credentials d6 = [enrolled_credential ''k1'' (token_completion ''s1'') token_e]"
    by (simp_all add: d6_def activate_connection_def d5 x sample_defs scope_reads sample_rows may_activate_def Let_def)
qed

lemma d7: "fst (renew_credential ''k2'' (renewal_at ''s2'' 50) d6) = Inr (renewed_row (renewal_at ''s2'' 50) ''k2'')"
    "gd_tenants d7 = [tenant_t]" "gd_projects d7 = [project_p]" "gd_clusters d7 = gd_clusters d6" "gd_agents d7 = gd_agents d6"
    "gd_credentials d7 = [enrolled_credential ''k1'' (token_completion ''s1'') token_e, renewed_row (renewal_at ''s2'' 50) ''k2'']"
proof -
  obtain x where x: "gd_clusters d6 = [x]" "cl_id x = cluster_id" "cl_status x = ''active''" "cl_tenant x = tenant_id" "cl_project x = project_id"
    using d6(4) by blast
  obtain a where a: "gd_agents d6 = [a]" "agent_of edge_agent a" "ag_lifecycle a = ''active''" using d6(5) by blast
  show "fst (renew_credential ''k2'' (renewal_at ''s2'' 50) d6) = Inr (renewed_row (renewal_at ''s2'' 50) ''k2'')"
    "gd_tenants d7 = [tenant_t]" "gd_projects d7 = [project_p]" "gd_clusters d7 = gd_clusters d6" "gd_agents d7 = gd_agents d6"
    "gd_credentials d7 = [enrolled_credential ''k1'' (token_completion ''s1'') token_e, renewed_row (renewal_at ''s2'' 50) ''k2'']"
    using a(2)
    by (simp_all add: d7_def renew_credential_def d6 x a sample_defs scope_reads sample_rows may_renew_def renewal_fields_ok_def
        renewed_row_def Let_def)
qed

lemma d8: "fst (activate_connection (connect_at 60) d7) = Inr ()"
proof -
  obtain x where x: "gd_clusters d6 = [x]" "cl_id x = cluster_id" "cl_status x = ''active''" "cl_tenant x = tenant_id" "cl_project x = project_id"
    using d6(4) by blast
  obtain a where a: "gd_agents d6 = [a]" "agent_of edge_agent a" "ag_lifecycle a = ''active''" using d6(5) by blast
  show ?thesis
    using a(2) by (simp add: activate_connection_def d7 x a sample_defs scope_reads sample_rows may_activate_def renewed_row_def Let_def)
qed

lemma d9: "fst (revoke_agent (admin_at 70) cluster_id d6) = Inr \<lparr>ad_agent = agent_id, ad_at = 70, ad_already = False\<rparr>"
proof -
  obtain a where a: "gd_agents d6 = [a]" "agent_of edge_agent a" "ag_lifecycle a = ''active''" using d6(5) by blast
  show ?thesis using a(2) by (simp add: revoke_agent_def a sample_defs sample_rows Let_def)
qed

lemma d6_tokens: "gd_enrollments d6 = gd_enrollments d5" "gd_attempts d6 = gd_attempts d5" "gd_users d6 = gd_users d5"
  by (simp_all add: d6_def activate_connection_def Let_def)

lemma pair_snd: "fst p = r \<Longrightarrow> p = (r, snd p)"
  by (cases p) simp

lemma d4_reach: "db_reach id (d4, {}, {''e''})"
proof -
  have "db_reach id (d1, {}, {})" by (rule db_more [OF db_start s_create_tenant [OF pair_snd [OF d1(1)], folded d1_def]])
  then have "db_reach id (d2, {}, {})" by (rule db_more [OF _ s_create_project [OF pair_snd [OF d2(1)], folded d2_def]])
  then have "db_reach id (d3, {}, {''e''})" by (rule db_more [OF _ s_create_enrollment [OF pair_snd [OF d3(1)], folded d3_def]]) simp
  then show ?thesis by (rule db_more [OF _ s_begin [OF pair_snd [OF d4(1)], folded d4_def]]) (simp add: d3)
qed

lemma d6_reach: "db_reach id (d6, {''s1''}, {''e''})"
proof -
  have "db_reach id (d5, {''s1''}, {''e''})"
    using db_more [OF d4_reach s_complete [OF pair_snd [OF d5(1)], folded d5_def]] by (simp add: token_completion_def)
  then show ?thesis by (rule db_more [OF _ s_activate [OF pair_snd [OF d6(1)], folded d6_def]])
qed

subsection \<open>Revocation\<close>

text \<open>C14: Whatever the store is asked to do, and in whatever order, a credential that is not revoked belongs to an
Agent of the same scope that is not revoked either, a cluster has one Agent at a time that is not revoked, and a
serial number names one credential.\<close>

theorem live_credentials_have_standing_agents:
  assumes "db_reach lower (db, S, E)"
  shows "(\<forall>k \<in> set (gd_credentials db). kr_revoked k = None \<longrightarrow>
           (\<exists>a \<in> set (gd_agents db). ag_id a = kr_agent k \<and> ag_cluster a = kr_cluster k \<and> ag_project a = kr_project k
              \<and> ag_tenant a = kr_tenant k \<and> ag_lifecycle a \<noteq> ''revoked''))
    \<and> (\<forall>a \<in> set (gd_agents db). \<forall>b \<in> set (gd_agents db). ag_lifecycle a \<noteq> ''revoked'' \<longrightarrow> ag_lifecycle b \<noteq> ''revoked''
         \<longrightarrow> ag_cluster a = ag_cluster b \<longrightarrow> a = b)
    \<and> distinct (map kr_serial (gd_credentials db))"
proof -
  note ok = credentials_okD [OF history_ok_reach [OF assms, unfolded history_ok_def fst_conv, THEN conjunct1, unfolded agents_ok_def]]
  have "\<exists>a \<in> set (gd_agents db). ag_id a = kr_agent k \<and> ag_cluster a = kr_cluster k \<and> ag_project a = kr_project k
      \<and> ag_tenant a = kr_tenant k \<and> ag_lifecycle a \<noteq> ''revoked''" if k: "k \<in> set (gd_credentials db)" "kr_revoked k = None" for k
  proof -
    obtain a where "a \<in> set (gd_agents db)" "matches k a \<and> (kr_revoked k = None \<longrightarrow> standing a)" using ok(5) [OF k(1)] by metis
    then show ?thesis using k(2) by (intro bexI [of _ a]) (simp_all add: matches_def standing_def)
  qed
  moreover have "a = b" if "a \<in> set (gd_agents db)" "b \<in> set (gd_agents db)" "ag_lifecycle a \<noteq> ''revoked''" "ag_lifecycle b \<noteq> ''revoked''"
      "ag_cluster a = ag_cluster b" for a b
    by (rule distinct_same [OF ok(2)]) (use that in \<open>simp_all add: standing_def\<close>)
  ultimately show ?thesis using ok(3) by blast
qed

theorem live_credentials_have_standing_agents_witness:
  "\<exists>a. gd_credentials d6 = [enrolled_credential ''k1'' (token_completion ''s1'') token_e] \<and> a \<in> set (gd_agents d6)
     \<and> ag_id a = agent_id \<and> ag_lifecycle a \<noteq> ''revoked''"
  using live_credentials_have_standing_agents [OF d6_reach]
  by (auto simp: d6(6) enrolled_credential_def token_completion_def)

text \<open>A credential that was withdrawn is never taken again: after any number of further steps of the store,
connecting with it and reporting a heartbeat under it are refused as a rejected credential and change nothing.\<close>

theorem withdrawn_credentials_never_return:
  assumes "db_reach lower (db, S, E)" and "k \<in> set (gd_credentials db)" and "kr_revoked k \<noteq> None"
    and "(db_step lower)\<^sup>*\<^sup>* (db, S, E) (db', S', E')" and "av_serial v = kr_serial k"
  shows "activate_connection v db' = (Inl AgentCredentialRejected, db')
    \<and> record_agent_heartbeat i (kr_serial k) health now db' = (Inl AgentCredentialRejected, db')"
proof -
  have "withdrawn (kr_serial k) (csr_key k) (db', S', E')"
    by (rule withdrawn_steps [OF assms(4) withdrawn_row [OF history_ok_reach [OF assms(1)] assms(2,3)]])
  then have "\<not> list_ex (usable_credential i (kr_serial k) now) (gd_credentials db')" for i now
    using withdrawn_unusable by fastforce
  then show ?thesis using unusable_refused assms(5) by metis
qed

lemma d9_reach: "db_reach id (d9, {''s1''}, {''e''})"
  by (rule db_more [OF d6_reach s_revoke_agent [OF pair_snd [OF d9], folded d9_def]])

lemma d9_credentials: "gd_credentials d9 = [(enrolled_credential ''k1'' (token_completion ''s1'') token_e)\<lparr>kr_revoked := Some 70\<rparr>]"
proof -
  obtain a where a: "gd_agents d6 = [a]" "agent_of edge_agent a" "ag_lifecycle a = ''active''" using d6(5) by blast
  show ?thesis using a(2) by (simp add: d9_def revoke_agent_def a d6 sample_defs sample_rows Let_def)
qed

theorem withdrawn_credentials_never_return_witness:
  "activate_connection (connect_at 80) d9 = (Inl AgentCredentialRejected, d9)
   \<and> record_agent_heartbeat edge_agent ''s1'' ''healthy'' 80 d9 = (Inl AgentCredentialRejected, d9)"
proof -
  let ?k = "(enrolled_credential ''k1'' (token_completion ''s1'') token_e)\<lparr>kr_revoked := Some 70\<rparr>"
  have "kr_serial ?k = ''s1''" by (simp add: enrolled_credential_def token_completion_def)
  then show ?thesis
    using withdrawn_credentials_never_return [OF d9_reach, of ?k d9 "{''s1''}" "{''e''}" "connect_at 80" edge_agent "''healthy''" 80]
    by (simp add: d9_credentials connect_at_def)
qed

lemma revoked_rows:
  assumes "history_ok (db, S, E)" and "revoke_agent q c db = (Inr x, db')" and "k \<in> set (gd_credentials db)"
    and "kr_agent k = ad_agent x"
  shows "withdrawn (kr_serial k) (csr_key k) (db', S, E)"
proof -
  have step: "db_step lower (db, S, E) (db', S, E)" for lower by (rule s_revoke_agent [OF assms(2)])
  have ok: "history_ok (db', S, E)" by (rule history_ok_step [OF step assms(1)])
  have serials: "kr_serial k \<in> S" using assms(1,3) by (auto simp: history_ok_def)
  have same: "l = k" if "l \<in> set (gd_credentials db)" "kr_serial l = kr_serial k" for l
    using assms(1) distinct_same [OF _ that(1) assms(3) that(2)] by (simp add: history_ok_def agents_ok_def credentials_ok_def)
  show ?thesis
    using assms(2)
  proof (cases rule: revoke_cases)
    case same
    have creds: "gd_credentials db' = gd_credentials db" using same(1) by (simp add: agent_tables_def)
    obtain a where a: "a \<in> set (gd_agents db)" "ag_id a = kr_agent k" "\<not> standing a" using same(3) [OF refl] assms(4) by metis
    have ok0: "credentials_ok (gd_agents db) (gd_credentials db)" using assms(1) by (simp add: history_ok_def agents_ok_def)
    obtain b where b: "b \<in> set (gd_agents db)" "matches k b" "kr_revoked k = None \<longrightarrow> standing b"
      using credentials_okD(5) [OF ok0 assms(3)] by metis
    have "a = b" by (rule same_agent [OF ok0 a(1) b(1)]) (use a(2) b(2) in \<open>simp add: matches_def\<close>)
    then have "kr_revoked k \<noteq> None" using a(3) b(3) by blast
    then show ?thesis using withdrawn_row [OF ok, of k] creds assms(3) by simp
  next
    case (revoked a)
    have a: "ag_id a = kr_agent k" using revoked(2) [OF refl] assms(4) by simp
    have "kr_revoked l \<noteq> None \<and> csr_key l = csr_key k" if l: "l \<in> set (gd_credentials db')" "kr_serial l = kr_serial k" for l
    proof -
      obtain y where y: "y \<in> set (gd_credentials db)"
          "l = (if kr_agent y = ag_id a \<and> kr_revoked y = None then y\<lparr>kr_revoked := Some (ar_now q)\<rparr> else y)"
        using l(1) revoked(5) by auto
      have "y = k" using same y l(2) by (simp split: if_splits)
      then show ?thesis using y(2) a by (simp add: csr_key_def)
    qed
    then show ?thesis using ok serials by (simp add: withdrawn_def)
  qed
qed

text \<open>C8: Revoking a cluster's Agent ends the connection it holds within one write interval, even if the
announcement of the revocation never arrives: whatever the store does from then on, no heartbeat presented under
any of the Agent's credentials is acknowledged later than that.\<close>

theorem revoked_agents_are_cut_off:
  assumes "db_reach lower (db, S, E)" and "revoke_agent q c db = (Inr x, db')" and "k \<in> set (gd_credentials db)"
    and "kr_agent k = ad_agent x" and "\<And>at. since \<le> at \<Longrightarrow> \<exists>S' E'. (db_step lower)\<^sup>*\<^sup>* (db', S, E) (store at, S', E')"
    and "now < since" and "0 \<le> interval" and "interval \<le> max_int64"
    and "serve_control interval offered (\<lambda>at health. fst (record_agent_heartbeat i (kr_serial k) health at (store at))) ts
      (start_control s now) = (control, e)"
    and "(seq, at) \<in> set (cs_acks control)"
  shows "at < since + interval"
proof (rule withdrawn_access_ends_within_interval [OF _ assms(6-10)])
  fix at health assume "since \<le> at"
  then obtain S' E' where "(db_step lower)\<^sup>*\<^sup>* (db', S, E) (store at, S', E')" using assms(5) by blast
  then have "withdrawn (kr_serial k) (csr_key k) (store at, S', E')"
    by (rule withdrawn_steps [OF _ revoked_rows [OF history_ok_reach [OF assms(1)] assms(2-4)]])
  then show "fst (record_agent_heartbeat i (kr_serial k) health at (store at)) \<noteq> Inr ()"
    using unusable_refused(1) withdrawn_unusable by (metis fst_conv Inl_Inr_False)
qed

definition store_over_time :: "time \<Rightarrow> agent_db" where
  "store_over_time at = (if at < 70 then d6 else d9)"

definition cut_off_run :: "control_state \<times> control_end option" where
  "cut_off_run = serve_control 60 True (\<lambda>at health. fst (record_agent_heartbeat edge_agent ''s1'' health at (store_over_time at)))
     [beat 1 65, beat 2 75, beat 3 130] (start_control (new_session ''i'' (guest ''a'') 0 []) 0)"

lemma cut_off_acks: "cs_acks (fst cut_off_run) = [(1, 65), (2, 75)]"
proof -
  have bad: "record_agent_heartbeat edge_agent ''s1'' health at d9 = (Inl AgentCredentialRejected, d9)" for health at
    by (rule unusable_refused(1)) (simp add: d9_credentials usable_credential_def)
  obtain x where x: "gd_clusters d6 = [x]" "cl_id x = cluster_id" "cl_status x = ''active''" "cl_tenant x = tenant_id" "cl_project x = project_id"
    using d6(4) by blast
  obtain a where a: "gd_agents d6 = [a]" "agent_of edge_agent a" "ag_lifecycle a = ''active''" using d6(5) by blast
  have good: "fst (record_agent_heartbeat edge_agent ''s1'' health at d6) = Inr ()" if "at < 100" for health at
    using a(2) that by (simp add: record_agent_heartbeat_def may_beat_def d6 x a sample_defs scope_reads sample_rows)
  show ?thesis
    by (simp add: cut_off_run_def serve_turn_def take_heartbeat_def beat_def store_over_time_def bad good start_control_def
      new_session_def guest_def protocol_version_def health_status_value_def record_heartbeat_def time_sub_def max_int64_def
      min_int64_def control_changes Let_def word_le_nat_alt)
qed

theorem revoked_agents_are_cut_off_witness:
  "map snd (cs_acks (fst cut_off_run)) = [65, 75] \<and> (65 :: time) < 70 + 60 \<and> (75 :: time) < 70 + 60"
proof -
  obtain control e where run: "cut_off_run = (control, e)" by fastforce
  have revoke: "revoke_agent (admin_at 70) cluster_id d6 = (Inr \<lparr>ad_agent = agent_id, ad_at = 70, ad_already = False\<rparr>, d9)"
    using pair_snd [OF d9] by (simp add: d9_def)
  let ?k = "enrolled_credential ''k1'' (token_completion ''s1'') token_e"
  have k: "?k \<in> set (gd_credentials d6)" "kr_agent ?k = ad_agent \<lparr>ad_agent = agent_id, ad_at = 70, ad_already = False\<rparr>"
      "kr_serial ?k = ''s1''"
    by (simp_all add: d6 enrolled_credential_def token_completion_def)
  have later: "\<exists>S' E'. (db_step id)\<^sup>*\<^sup>* (d9, {''s1''}, {''e''}) (store_over_time at, S', E')" if "70 \<le> at" for at
    using that by (auto simp: store_over_time_def)
  have shown: "serve_control 60 True (\<lambda>at health. fst (record_agent_heartbeat edge_agent (kr_serial ?k) health at (store_over_time at)))
      [beat 1 65, beat 2 75, beat 3 130] (start_control (new_session ''i'' (guest ''a'') 0 []) 0) = (control, e)"
    unfolding k(3) using run by (simp only: cut_off_run_def)
  have "at < 70 + 60" if "(seq, at) \<in> set (cs_acks control)" for seq at
    by (rule revoked_agents_are_cut_off [OF d6_reach revoke k(1,2) later _ _ _ shown that]) (simp_all add: max_int64_def)
  then show ?thesis using cut_off_acks by (auto simp: run)
qed

subsection \<open>Enrollment\<close>

lemma completed_settled:
  assumes ok: "history_ok (db, S, E)" and step: "complete_enrollment lower dbnow cid c db = (Inr w, db')"
  shows "settled (ec_enrollment c) w (token_state (db', S', E))"
proof -
  have old: "tokens_ok (gd_enrollments db) (gd_attempts db)" "set (map en_id (gd_enrollments db)) \<subseteq> E"
    using ok by (simp_all add: history_ok_def token_ok_def)
  show ?thesis
    using step
  proof (cases rule: complete_cases)
    case (failed e)
    then show ?thesis by simp
  next
    case (replayed t)
    have s: "succeeded t" using replayed(5) by (simp add: succeeded_def)
    obtain x where x: "x \<in> set (gd_enrollments db)" "en_id x = ec_enrollment c" "en_consumed x \<noteq> None"
      using tokens_okD(4) [OF old(1) replayed(3) s] replayed(4) by auto
    have "en_consumed y \<noteq> None" if "y \<in> set (gd_enrollments db)" "en_id y = ec_enrollment c" for y
      using distinct_same [OF tokens_okD(1) [OF old(1)] that(1) x(1)] that(2) x by simp
    moreover have "tr_result u = Some w" if "u \<in> set (gd_attempts db)" "succeeded u" "tr_enrollment u = ec_enrollment c" for u
      using tokens_okD(5) [OF old(1) that(1) replayed(3) that(2) s] tokens_okD(3) [OF old(1) that(1,2)] that(3) replayed(1,4) by auto
    moreover have "ec_enrollment c \<in> E" using old(2) x(1,2) by auto
    ultimately show ?thesis unfolding token_state_simps settled_def prod.case replayed(2) by blast
  next
    case (enrolled x t)
    have open_token: "\<not> succeeded u" if "u \<in> set (gd_attempts db)" "tr_enrollment u = ec_enrollment c" for u
      using tokens_okD(4) [OF old(1) that(1)] distinct_same [OF tokens_okD(1) [OF old(1)] _ enrolled(2)] that(2) enrolled(3,4) by metis
    have "tr_result u = Some w" if u: "u \<in> set (gd_attempts db')" "succeeded u" "tr_enrollment u = ec_enrollment c" for u
      using u open_token unfolding enrolled(11) using enrolled(1) by (auto split: if_splits)
    moreover have "en_consumed y \<noteq> None" if "y \<in> set (gd_enrollments db')" "en_id y = ec_enrollment c" for y
      using that enrolled(3) unfolding enrolled(10) by (auto split: if_splits)
    moreover have "ec_enrollment c \<in> E" using old(2) enrolled(2,3) by auto
    ultimately show ?thesis unfolding token_state_simps settled_def prod.case by blast
  qed
qed

text \<open>C13: One token enrolls one Agent: after a completion succeeded, every later completion that succeeds for the
same enrollment, in whatever history lies between, returns the same Agent and certificate and changes nothing.\<close>

theorem enrollment_creates_one_agent:
  assumes "db_reach lower (db, S, E)" and "complete_enrollment lower dbnow cid c db = (Inr w, db1)" and "ec_serial c \<notin> S"
    and "(db_step lower)\<^sup>*\<^sup>* (db1, insert (ec_serial c) S, E) (db2, S2, E2)"
    and "complete_enrollment lower dbnow' cid' c' db2 = (Inr w', db3)" and "ec_enrollment c' = ec_enrollment c"
  shows "w' = w \<and> db3 = db2"
proof -
  have ok: "history_ok (db, S, E)" by (rule history_ok_reach [OF assms(1)])
  let ?P = "\<lambda>h. history_ok h \<and> settled (ec_enrollment c) w (token_state h)"
  have "?P (db1, insert (ec_serial c) S, E)"
    using history_ok_step [OF s_complete [OF assms(2,3)] ok] completed_settled [OF ok assms(2)] by simp
  with assms(4) have "?P (db2, S2, E2)"
  proof (induction rule: rtranclp_induct)
    case (step h h')
    then have h: "history_ok h" "settled (ec_enrollment c) w (token_state h)" by simp_all
    then have t: "token_ok (token_state h)" by (simp add: history_ok_def)
    show ?case using history_ok_step [OF step(2) h(1)] settled_step [OF db_step_token [OF step(2) t] t h(2)] by simp
  qed simp
  then have now: "\<forall>x \<in> set (gd_enrollments db2). en_id x = ec_enrollment c \<longrightarrow> en_consumed x \<noteq> None"
      "\<forall>t \<in> set (gd_attempts db2). succeeded t \<longrightarrow> tr_enrollment t = ec_enrollment c \<longrightarrow> tr_result t = Some w"
    by (simp_all add: settled_def)
  show ?thesis
    using assms(5)
  proof (cases rule: complete_cases)
    case (failed e)
    then show ?thesis by simp
  next
    case (replayed t)
    then show ?thesis using now(2) assms(6) by (auto simp: succeeded_def)
  next
    case (enrolled x t)
    then show ?thesis using now(1) assms(6) by auto
  qed
qed

lemma d5_replay: "complete_enrollment id 50 ''k3'' (token_completion ''s3'') d6
    = (Inr \<lparr>er_cluster = cluster_id, er_agent = agent_id, er_pem = ''pem'', er_expires = 1000\<rparr>, d6)"
proof -
  obtain x where x: "gd_clusters d6 = [x]" "cl_id x = cluster_id" "cl_status x = ''active''" "cl_tenant x = tenant_id" "cl_project x = project_id"
    using d6(4) by blast
  show ?thesis
    by (simp add: complete_enrollment_def d6 x d6_tokens d5_tokens sample_defs scope_reads token_e_def attempt_a_def lock_enrollment_def
        locked_scope_def completion_fields_ok_def)
qed

theorem enrollment_creates_one_agent_witness:
  "fst (complete_enrollment id 50 ''k3'' (token_completion ''s3'') d6) = fst (complete_enrollment id 30 ''k1'' (token_completion ''s1'') d4)
   \<and> snd (complete_enrollment id 50 ''k3'' (token_completion ''s3'') d6) = d6"
proof -
  have "db_step id (d5, {''s1''}, {''e''}) (d6, {''s1''}, {''e''})" by (rule s_activate [OF pair_snd [OF d6(1)], folded d6_def])
  then have between: "(db_step id)\<^sup>*\<^sup>* (d5, insert (ec_serial (token_completion ''s1'')) {}, {''e''}) (d6, {''s1''}, {''e''})"
    by (simp add: token_completion_def r_into_rtranclp)
  have "\<lparr>er_cluster = cluster_id, er_agent = agent_id, er_pem = ''pem'', er_expires = 1000\<rparr>
      = \<lparr>er_cluster = cluster_id, er_agent = agent_id, er_pem = ''pem'', er_expires = 1000\<rparr> \<and> d6 = d6"
    by (rule enrollment_creates_one_agent [OF d4_reach pair_snd [OF d5(1), folded d5_def] _ between d5_replay])
      (simp_all add: token_completion_def)
  then show ?thesis using d5(1) d5_replay by simp
qed

subsection \<open>Renewal whose answer is lost\<close>

lemma renew_found:
  assumes "renew_credential cid x db = (Inr k, db')"
  shows "k \<in> set (gd_credentials db) \<or> k = renewed_row x cid \<and> gd_credentials db' = gd_credentials db @ [renewed_row x cid]
      \<and> may_renew db (rn_identity x) (rn_current x) (rn_now x)"
proof (cases "find (\<lambda>k. credential_of (rn_identity x) k \<and> kr_fingerprint k = rn_fingerprint x) (gd_credentials db)")
  case None
  then show ?thesis using assms by (auto simp: renew_credential_def Let_def split: if_splits)
next
  case (Some l)
  then have "k = l" using assms by (simp add: renew_credential_def Let_def split: if_splits)
  then show ?thesis using Some by (auto simp: find_Some_iff)
qed

lemma old_certificate_withdraws:
  assumes ok: "history_ok (db, S, E)" and renew: "renew_credential cid x db = (Inr k, db1)" and fresh: "rn_serial x \<notin> S"
    and new: "kr_serial k = rn_serial x"
    and connect: "activate_connection v db1 = (Inr (), db2)" "av_identity v = rn_identity x" "av_serial v = rn_current x"
  shows "withdrawn (rn_serial x) (csr_key (renewed_row x cid)) (db2, insert (rn_serial x) S, E)"
proof -
  have unused: "kr_serial l \<noteq> rn_serial x" if "l \<in> set (gd_credentials db)" for l
    using ok fresh that by (auto simp: history_ok_def)
  have made: "gd_credentials db1 = gd_credentials db @ [renewed_row x cid]" "may_renew db (rn_identity x) (rn_current x) (rn_now x)"
    using renew_found [OF renew] unused [of k] new by blast+
  have other: "rn_current x \<noteq> rn_serial x"
    using made(2) unused by (auto simp: may_renew_def usable_credential_def list_ex_iff)
  have creds: "gd_credentials db2 = map (\<lambda>k. if credential_of (rn_identity x) k \<and> kr_serial k \<noteq> rn_current x \<and> kr_revoked k = None
       then k\<lparr>kr_revoked := Some (av_now v)\<rparr> else k) (gd_credentials db1)"
    using connect by (auto simp: activate_connection_def Let_def update_where_def split: if_splits)
  have "history_ok (db2, insert (rn_serial x) S, E)"
    using history_ok_step [OF s_activate [OF connect(1)] history_ok_step [OF s_renew [OF renew fresh] ok]] .
  moreover have "kr_revoked l \<noteq> None \<and> csr_key l = csr_key (renewed_row x cid)"
    if l: "l \<in> set (gd_credentials db2)" "kr_serial l = rn_serial x" for l
  proof -
    obtain y where y: "y \<in> set (gd_credentials db1)" "l = (if credential_of (rn_identity x) y \<and> kr_serial y \<noteq> rn_current x
        \<and> kr_revoked y = None then y\<lparr>kr_revoked := Some (av_now v)\<rparr> else y)" using l(1) creds by auto
    have "kr_serial y = rn_serial x" using y(2) l(2) by (simp split: if_splits)
    then have "y = renewed_row x cid" using y(1) made(1) unused by auto
    then show ?thesis using y(2) other by (simp add: renewed_row_def credential_of_def csr_key_def)
  qed
  ultimately show ?thesis by (simp add: withdrawn_def)
qed

text \<open>A request whose certificate was withdrawn is never answered with a certificate again.\<close>

lemma withdrawn_request_refused:
  assumes gone: "withdrawn serial key h" and there: "serial \<in> kr_serial ` set (gd_credentials (fst h))"
    and key: "key = csr_key (renewed_row y cid')"
  shows "\<exists>e. renew_credential cid y (fst h) = (Inl e, fst h)
    \<and> (renewal_fields_ok y \<longrightarrow> may_renew (fst h) (rn_identity y) (rn_current y) (rn_now y) \<longrightarrow> e = AgentCredentialRejected)"
proof -
  obtain l where l: "l \<in> set (gd_credentials (fst h))" "kr_revoked l \<noteq> None" "csr_key l = key"
    using gone there by (auto simp: withdrawn_def)
  have "distinct (map csr_key (gd_credentials (fst h)))"
    using gone by (simp add: withdrawn_def history_ok_def agents_ok_def credentials_ok_def)
  then have only: "k = l" if "k \<in> set (gd_credentials (fst h))" "credential_of (rn_identity y) k" "kr_fingerprint k = rn_fingerprint y" for k
    using distinct_same [of csr_key _ k l] that l(1,3) key by (auto simp: csr_key_def renewed_row_def credential_of_def)
  have mine: "credential_of (rn_identity y) l" "kr_fingerprint l = rn_fingerprint y"
    using l(3) key by (auto simp: csr_key_def renewed_row_def credential_of_def)
  obtain k where k: "find (\<lambda>k. credential_of (rn_identity y) k \<and> kr_fingerprint k = rn_fingerprint y) (gd_credentials (fst h)) = Some k"
    using l(1) mine by (cases "find (\<lambda>k. credential_of (rn_identity y) k \<and> kr_fingerprint k = rn_fingerprint y) (gd_credentials (fst h))")
      (auto simp: find_None_iff)
  then have "k \<in> set (gd_credentials (fst h))" "credential_of (rn_identity y) k" "kr_fingerprint k = rn_fingerprint y"
    by (auto simp: find_Some_iff)
  then have "k = l" by (rule only)
  then show ?thesis using k l(2) by (simp add: renew_credential_def Let_def)
qed

text \<open>A request to renew that the service passes on to the store.\<close>

definition renewal_in_order :: "enroll_env \<Rightarrow> renew_input \<Rightarrow> bool" where
  "renewal_in_order w i \<longleftrightarrow>
     valid_connection_identity (ri_identity i) \<and> trim_space (ri_current i) \<noteq> [] \<and> trim_space (ri_request i) \<noteq> [] \<and> ri_now i \<noteq> zero_time
     \<and> (case ev_signer w of None \<Rightarrow> False | Some sign \<Rightarrow>
          (case (ev_csr w (ri_csr i), sign (ri_csr i) (ri_identity i) (ri_now i)) of
             (Some fp, Some c) \<Rightarrow> length fp = 32 \<and> trim_space (sc_serial c) \<noteq> [] \<and> trim_space (sc_pem c) \<noteq> [] \<and> ri_now i < sc_expires c
           | _ \<Rightarrow> False))"

text \<open>C31: When the answer to a renewal is lost and the Agent connects once more with the certificate it has, that
connection withdraws the new one; from then on the Server answers the same request, which the Agent keeps, with no
certificate as long as the row stands: a request in order, of an Agent that may renew, is refused as a rejected
credential, which closes the connection as an authentication error and so ends the Agent for good.\<close>

theorem lost_renewal_locks_the_agent_out:
  assumes "db_reach lower (db, S, E)" and "renew_credential cid x db = (Inr k, db1)" and "rn_serial x \<notin> S"
    and "kr_serial k = rn_serial x"
    and "activate_connection v db1 = (Inr (), db2)" and "av_identity v = rn_identity x" and "av_serial v = rn_current x"
    and "(db_step lower)\<^sup>*\<^sup>* (db2, insert (rn_serial x) S, E) (db', S', E')" and "rn_serial x \<in> kr_serial ` set (gd_credentials db')"
    and "ri_identity i = rn_identity x" and "ev_csr w (ri_csr i) = Some (rn_fingerprint x)"
  shows "(\<exists>e. renew_certificate_service w i db' = (Inl e, db'))
    \<and> (renewal_in_order w i \<longrightarrow> may_renew db' (ri_identity i) (ri_current i) (ri_now i)
         \<longrightarrow> renew_certificate_service w i db' = (Inl RenewalCredentialRejected, db'))
    \<and> permanent_agent_connection_error (ClosedByServer (renewal_close RenewalCredentialRejected))"
proof -
  have gone: "withdrawn (rn_serial x) (csr_key (renewed_row x cid)) (db', S', E')"
    by (rule withdrawn_steps [OF assms(8) old_certificate_withdraws [OF history_ok_reach [OF assms(1)] assms(2-7)]])
  have there: "rn_serial x \<in> kr_serial ` set (gd_credentials (fst (db', S', E')))" using assms(9) by simp
  have refused: "\<exists>e. renew_credential cid' y db' = (Inl e, db')
      \<and> (renewal_fields_ok y \<longrightarrow> may_renew db' (rn_identity y) (rn_current y) (rn_now y) \<longrightarrow> e = AgentCredentialRejected)"
    if "rn_identity y = rn_identity x" "rn_fingerprint y = rn_fingerprint x" for y cid'
    using withdrawn_request_refused [OF gone there, of y cid'] that by (simp add: renewed_row_def csr_key_def)
  have "\<exists>e. renew_certificate_service w i db' = (Inl e, db')
      \<and> (renewal_in_order w i \<longrightarrow> may_renew db' (ri_identity i) (ri_current i) (ri_now i) \<longrightarrow> e = RenewalCredentialRejected)"
  proof (cases "\<exists>sign c. ev_signer w = Some sign \<and> sign (ri_csr i) (ri_identity i) (ri_now i) = Some c \<and> valid_connection_identity (ri_identity i)
      \<and> trim_space (ri_current i) \<noteq> [] \<and> trim_space (ri_request i) \<noteq> [] \<and> ri_now i \<noteq> zero_time")
    case False
    then show ?thesis
      using assms(11) by (auto simp: renew_certificate_service_def renewal_in_order_def split: option.splits)
  next
    case True
    then obtain sign c where c: "ev_signer w = Some sign" "sign (ri_csr i) (ri_identity i) (ri_now i) = Some c"
        "valid_connection_identity (ri_identity i)" "trim_space (ri_current i) \<noteq> []" "trim_space (ri_request i) \<noteq> []" "ri_now i \<noteq> zero_time"
      by blast
    let ?y = "\<lparr>rn_identity = ri_identity i, rn_current = ri_current i, rn_fingerprint = rn_fingerprint x, rn_serial = sc_serial c,
        rn_pem = sc_pem c, rn_expires = sc_expires c, rn_request = ri_request i, rn_now = ri_now i\<rparr>"
    obtain e where e: "renew_credential (ev_credential w) ?y db' = (Inl e, db')"
        "renewal_fields_ok ?y \<longrightarrow> may_renew db' (ri_identity i) (ri_current i) (ri_now i) \<longrightarrow> e = AgentCredentialRejected"
      using refused [of ?y "ev_credential w"] assms(10) by auto
    have "renewal_fields_ok ?y" if "renewal_in_order w i"
      using that c assms(11) by (simp add: renewal_in_order_def renewal_fields_ok_def)
    then show ?thesis
      using e c assms(11) by (cases e) (auto simp: renew_certificate_service_def)
  qed
  then show ?thesis by (auto simp: permanent_agent_connection_error_def renewal_close_def)
qed

definition renewal_env :: enroll_env where
  "renewal_env = \<lparr>ev_digest = (\<lambda>_. None), ev_csr = (\<lambda>_. Some (digest_of CHR ''g'')),
     ev_signer = Some (\<lambda>_ _ _. Some \<lparr>sc_pem = ''pem2'', sc_serial = ''s3'', sc_expires = 2000\<rparr>), ev_cluster = None, ev_agent = None,
     ev_attempt = ''a'', ev_credential = ''k3'', ev_dbnow = 70, ev_lower = id\<rparr>"

definition renewal_again :: renew_input where
  "renewal_again = \<lparr>ri_identity = edge_agent, ri_current = ''s1'', ri_csr = ''csr'', ri_request = ''r'', ri_now = 70\<rparr>"

theorem lost_renewal_locks_the_agent_out_witness:
  "renew_certificate_service renewal_env renewal_again d8 = (Inl RenewalCredentialRejected, d8)"
proof -
  have renewed: "renew_credential ''k2'' (renewal_at ''s2'' 50) d6 = (Inr (renewed_row (renewal_at ''s2'' 50) ''k2''), d7)"
    using pair_snd [OF d7(1)] by (simp add: d7_def)
  have connected: "activate_connection (connect_at 60) d7 = (Inr (), d8)" using pair_snd [OF d8] by (simp add: d8_def)
  have "may_activate d7 edge_agent ''s1'' 60" using d8 by (auto simp: activate_connection_def connect_at_def Let_def split: if_splits)
  then have there: "rn_serial (renewal_at ''s2'' 50) \<in> kr_serial ` set (gd_credentials d8)"
    by (simp add: d8_def activate_connection_def connect_at_def Let_def update_where_def d7 renewed_row_def renewal_at_def)
  obtain x where x: "gd_clusters d6 = [x]" "cl_id x = cluster_id" "cl_status x = ''active''" "cl_tenant x = tenant_id" "cl_project x = project_id"
    using d6(4) by blast
  obtain a where a: "gd_agents d6 = [a]" "agent_of edge_agent a" "ag_lifecycle a = ''active''" using d6(5) by blast
  have "valid_connection_identity edge_agent" unfolding edge_agent_def by code_simp
  then have "renewal_in_order renewal_env renewal_again"
    by (simp add: renewal_in_order_def renewal_env_def renewal_again_def digest_of_def zero_time_def)
  moreover have "may_renew d8 (ri_identity renewal_again) (ri_current renewal_again) (ri_now renewal_again)"
    using \<open>may_activate d7 edge_agent ''s1'' 60\<close> a(2)
    by (simp add: d8_def activate_connection_def may_renew_def d7 x a sample_defs scope_reads sample_rows renewal_again_def Let_def)
  ultimately show ?thesis
    using lost_renewal_locks_the_agent_out [OF d6_reach renewed _ _ connected _ _ rtranclp.rtrancl_refl there, of renewal_again renewal_env]
    by (simp add: renewal_at_def renewed_row_def connect_at_def renewal_again_def renewal_env_def)
qed

subsection \<open>Suspension\<close>

text \<open>Connecting is refused with the retryable answer exactly when the Agent and its certificate are good and
some level above it is suspended, and is accepted exactly when they are good and every level is active, with the
cluster not suspended.\<close>

theorem suspension_is_told_from_rejection:
  fixes v :: activation and db :: agent_db
  defines "i \<equiv> av_identity v"
  defines "good \<equiv> list_ex (\<lambda>a. agent_of i a \<and> ag_lifecycle a \<noteq> ''revoked'') (gd_agents db)
      \<and> list_ex (usable_credential i (av_serial v) (av_now v)) (gd_credentials db)"
  assumes "tenant_status db (an_tenant i) = Some t" and "project_status db (an_tenant i) (an_project i) = Some p"
    and "cluster_status db (an_tenant i) (an_project i) (an_cluster i) = Some c" and "t \<in> {''active'', ''suspended''}"
    and "p \<in> {''active'', ''suspended''}"
  shows "fst (activate_connection v db) =
    (if \<not> good then Inl AgentCredentialRejected else if ''suspended'' \<in> {t, p, c} then Inl AgentScopeSuspended else Inr ())"
  using assms(3-7) unfolding i_def good_def
  by (auto simp: activate_connection_def may_activate_def scope_active_def classify_rejection_def Let_def)

theorem suspension_is_told_from_rejection_witness:
  "fst (activate_connection (connect_at 60) d7) = Inr ()"
proof -
  obtain x where x: "gd_clusters d6 = [x]" "cl_id x = cluster_id" "cl_status x = ''active''" "cl_tenant x = tenant_id" "cl_project x = project_id"
    using d6(4) by blast
  obtain a where a: "gd_agents d6 = [a]" "agent_of edge_agent a" "ag_lifecycle a = ''active''" using d6(5) by blast
  show ?thesis
    using suspension_is_told_from_rejection [of d7 "connect_at 60" "''active''" "''active''" "''active''"] a(2)
    by (simp add: d7 x a sample_defs scope_reads sample_rows renewed_row_def)
qed

text \<open>A cluster that was suspended and resumed is pending until its Agent connects again: meanwhile a
heartbeat on a connection that outlived the suspension is refused as a rejected credential, though the same
certificate would be taken if the Agent connected with it.\<close>

theorem resumed_cluster_rejects_heartbeats:
  assumes "update_cluster lower q (an_cluster i) name status db = (Inr item, db')" and "status \<noteq> ''suspended''"
    and "cluster_status db (an_tenant i) (an_project i) (an_cluster i) = Some ''suspended''" and "distinct (map cl_id (gd_clusters db))"
    and "av_identity v = i"
    and "list_ex (\<lambda>a. agent_of i a \<and> ag_lifecycle a \<noteq> ''revoked'') (gd_agents db)"
    and "list_ex (usable_credential i (av_serial v) (av_now v)) (gd_credentials db)"
  shows "record_agent_heartbeat i (av_serial v) health now db' = (Inl AgentCredentialRejected, db') \<and> fst (activate_connection v db') = Inr ()"
proof -
  obtain r where r: "r \<in> set (gd_clusters db)" "cl_id r = an_cluster i" "cl_tenant r = an_tenant i" "cl_project r = an_project i"
      "cl_status r = ''suspended''"
    using assms(3) unfolding cluster_status_def by (auto simp: find_Some_iff) (metis nth_mem)
  have only: "y = r" if "y \<in> set (gd_clusters db)" "cl_id y = an_cluster i" for y
    using distinct_same [OF assms(4) that(1) r(1)] that(2) r(2) by simp
  obtain r' where found: "find_cluster db (an_cluster i) = Some r'" using r(1,2) by (cases "find_cluster db (an_cluster i)") (auto simp: find_cluster_def find_None_iff)
  then have "r' = r" using only by (auto simp: find_cluster_def find_Some_iff)
  note u = assms(1) [unfolded update_cluster_def found option.case this]
  have new: "gd_tenants db' = gd_tenants db" "gd_projects db' = gd_projects db" "gd_agents db' = gd_agents db"
      "gd_credentials db' = gd_credentials db" "gd_clusters db' = map (\<lambda>x. if cl_id x = an_cluster i then item else x) (gd_clusters db)"
      "scope_active db i" "cl_status item = ''pending''" "cl_id item = cl_id r" "cl_tenant item = cl_tenant r" "cl_project item = cl_project r"
    using u r assms(2) by (auto simp: Let_def update_where_def scope_active_def split: if_splits)
  let ?P = "\<lambda>x. cl_id x = an_cluster i \<and> cl_tenant x = an_tenant i \<and> cl_project x = an_project i"
  have "item \<in> set (gd_clusters db')" unfolding new(5) using r(1,2) by (auto intro!: image_eqI [of _ _ r])
  then obtain y where y: "find ?P (gd_clusters db') = Some y"
    using new(8-10) r by (cases "find ?P (gd_clusters db')") (auto simp: find_None_iff)
  then have "y \<in> set (gd_clusters db')" "cl_id y = an_cluster i" by (auto simp: find_Some_iff)
  then have "y = item" unfolding new(5) by (auto split: if_splits)
  then have pending: "cluster_status db' (an_tenant i) (an_project i) (an_cluster i) = Some ''pending''"
    using y new(7) by (simp add: cluster_status_def)
  have reads: "tenant_status db' t = tenant_status db t" "project_status db' t p = project_status db t p" for t p
    by (simp_all add: tenant_status_def find_tenant_def project_status_def new)
  have "classify_rejection db' i serial now = AgentCredentialRejected" for serial now
    using new(6) pending by (simp add: classify_rejection_def reads scope_active_def)
  then show ?thesis
    using assms(5-7) pending new(3,4,6)
    by (simp add: record_agent_heartbeat_def may_beat_def activate_connection_def may_activate_def Let_def scope_active_def reads)
qed

definition d10 :: agent_db where "d10 = snd (update_cluster id (admin_at 45) cluster_id ''edge'' ''suspended'' d6)"
definition d11 :: agent_db where "d11 = snd (update_cluster id (admin_at 50) cluster_id ''edge'' ''active'' d10)"

theorem resumed_cluster_rejects_heartbeats_witness:
  "record_agent_heartbeat edge_agent ''s1'' ''healthy'' 60 d11 = (Inl AgentCredentialRejected, d11)
   \<and> fst (activate_connection (connect_at 60) d11) = Inr ()"
proof -
  obtain x where x: "gd_clusters d6 = [x]" "cl_id x = cluster_id" "cl_status x = ''active''" "cl_tenant x = tenant_id" "cl_project x = project_id"
    using d6(4) by blast
  obtain a where a: "gd_agents d6 = [a]" "agent_of edge_agent a" "ag_lifecycle a = ''active''" using d6(5) by blast
  note tokens = d6_tokens d5_tokens
  have d10: "gd_users d10 = [''u'']" "gd_tenants d10 = [tenant_t]" "gd_projects d10 = [project_p]" "gd_agents d10 = [a]"
      "gd_credentials d10 = [enrolled_credential ''k1'' (token_completion ''s1'') token_e]" "gd_enrollments d10 = gd_enrollments d6"
      "\<exists>y. gd_clusters d10 = [y] \<and> cl_id y = cluster_id \<and> cl_status y = ''suspended'' \<and> cl_tenant y = tenant_id \<and> cl_project y = project_id"
    by (simp_all add: d10_def update_cluster_def d6 x a tokens sample_defs scope_reads token_e_def Let_def update_where_def expired_hold_def
        pending_name_def rename_enrollments_def open_enrollment_def pending_names_unique_def)
  obtain y where y: "gd_clusters d10 = [y]" "cl_id y = cluster_id" "cl_status y = ''suspended''" "cl_tenant y = tenant_id" "cl_project y = project_id"
    using d10(7) by blast
  have "\<exists>item. update_cluster id (admin_at 50) cluster_id ''edge'' ''active'' d10 = (Inr item, d11)"
    by (simp add: d11_def update_cluster_def d10 y tokens sample_defs scope_reads token_e_def Let_def update_where_def expired_hold_def
        pending_name_def rename_enrollments_def open_enrollment_def pending_names_unique_def)
  then obtain item where "update_cluster id (admin_at 50) cluster_id ''edge'' ''active'' d10 = (Inr item, d11)" by blast
  then show ?thesis
    using resumed_cluster_rejects_heartbeats [of id "admin_at 50" edge_agent "''edge''" "''active''" d10 item d11 "connect_at 60" "''healthy''" 60] a(2,3)
    by (simp add: d10 y sample_defs scope_reads sample_rows)
qed

end
