(* ===== verification/MetricsGuard.thy ===== *)
theory MetricsGuard
  imports Prelude
begin

section \<open>Confining a query to one cluster\<close>

text \<open>
  \<open>pkg/server/metricsqlguard/guard.go\<close>. The parser and printer of MetricsQL (package \<open>metricsql\<close> of
  VictoriaMetrics) are parameters. Of an expression the guard reads and writes the filters of series
  selectors and the label lists of aggregations and vector matchings; a node is one of these or another,
  with the rest of its content as a value of the type parameter and its children in order. \<open>VisitAll\<close>
  calls its function on every node, children first; \<open>map_nodes\<close> is a visit that rewrites.
\<close>

record label_filter =
  lf_label :: string
  lf_value :: string
  lf_negative :: bool
  lf_regexp :: bool

datatype mql_node =
    MetricExpr "label_filter list list"
  | AggrFuncExpr "string list"
  | BinaryOpExpr "string list" "string list"
  | OtherExpr

datatype 'r mql = Mql 'r mql_node "'r mql list"

fun nodes :: "'r mql \<Rightarrow> mql_node list" where
  "nodes (Mql r n es) = concat (map nodes es) @ [n]"

fun map_nodes :: "(mql_node \<Rightarrow> mql_node) \<Rightarrow> 'r mql \<Rightarrow> 'r mql" where
  "map_nodes f (Mql r n es) = Mql r (f n) (map (map_nodes f) es)"

lemma nodes_map [simp]: "nodes (map_nodes f e) = map f (nodes e)"
proof (induction e)
  case (Mql r n es)
  have "concat (map (nodes \<circ> map_nodes f) es) = map f (concat (map nodes es))"
    using Mql by (induction es) simp_all
  then show ?case by simp
qed

lemma map_nodes_comp: "map_nodes f (map_nodes g e) = map_nodes (f \<circ> g) e"
  by (induction e) simp

lemma map_nodes_cong: "(\<And>n. n \<in> set (nodes e) \<Longrightarrow> f n = g n) \<Longrightarrow> map_nodes f e = map_nodes g e"
  by (induction e) auto

definition is_selector :: "mql_node \<Rightarrow> bool" where
  "is_selector n = (case n of MetricExpr _ \<Rightarrow> True | _ \<Rightarrow> False)"

definition selectors_of :: "'r mql \<Rightarrow> label_filter list list list" where
  "selectors_of e = concat (map (\<lambda>n. case n of MetricExpr gs \<Rightarrow> [gs] | _ \<Rightarrow> []) (nodes e))"

subsection \<open>The guard\<close>

datatype guard_error = GuardUnsupported string | GuardSyntax string | GuardLabelInvalid

record enforced_query =
  eq_expression :: string
  eq_likely_invalid :: bool
  eq_selectors :: nat

definition max_expression_bytes :: nat where "max_expression_bytes = 4096"

definition guard_label_start :: "char \<Rightarrow> bool" where
  "guard_label_start c \<longleftrightarrow> c = CHR ''_'' \<or> is_lower c \<or> is_upper c"

definition guard_label_name :: "string \<Rightarrow> bool" where
  "guard_label_name s =
     (case s of [] \<Rightarrow> False | c # cs \<Rightarrow> guard_label_start c \<and> list_all (\<lambda>x. guard_label_start x \<or> is_digit x) cs)"

definition enforced_filter :: "string \<Rightarrow> string \<Rightarrow> label_filter" where
  "enforced_filter label value = \<lparr>lf_label = label, lf_value = value, lf_negative = False, lf_regexp = False\<rparr>"

definition scope_groups :: "string \<Rightarrow> string \<Rightarrow> label_filter list list \<Rightarrow> label_filter list list" where
  "scope_groups label value gs =
     (if gs = [] then [[enforced_filter label value]]
      else map (\<lambda>g. filter (\<lambda>f. lf_label f \<noteq> label) g @ [enforced_filter label value]) gs)"

definition scope_node :: "string \<Rightarrow> string \<Rightarrow> mql_node \<Rightarrow> mql_node" where
  "scope_node label value n =
     (case n of MetricExpr gs \<Rightarrow> MetricExpr (scope_groups label value gs) | _ \<Rightarrow> n)"

definition scope_query :: "'r mql \<Rightarrow> string \<Rightarrow> string \<Rightarrow> 'r mql \<times> nat" where
  "scope_query e label value =
     (map_nodes (scope_node label value) e, length (filter is_selector (nodes e)))"

text \<open>The checks \<open>verify\<close> makes on each selector of what it has read back.\<close>

definition group_scoped :: "string \<Rightarrow> string \<Rightarrow> label_filter list \<Rightarrow> bool" where
  "group_scoped label value g \<longleftrightarrow>
     list_all (\<lambda>f. lf_label f = label \<longrightarrow> lf_value f = value \<and> \<not> lf_regexp f \<and> \<not> lf_negative f) g
     \<and> length (filter (\<lambda>f. lf_label f = label) g) = 1"

definition selector_scoped :: "string \<Rightarrow> string \<Rightarrow> label_filter list list \<Rightarrow> bool" where
  "selector_scoped label value gs \<longleftrightarrow> gs \<noteq> [] \<and> list_all (group_scoped label value) gs"

definition verify_query ::
    "(string \<Rightarrow> string + 'r mql) \<Rightarrow> string \<Rightarrow> string \<Rightarrow> string \<Rightarrow> nat \<Rightarrow> guard_error + unit" where
  "verify_query parse rewritten label value selectors =
     (case parse rewritten of
        Inl _ \<Rightarrow> Inl (GuardUnsupported ''rewritten expression does not parse'')
      | Inr e \<Rightarrow>
          (if \<not> list_all (selector_scoped label value) (selectors_of e)
              \<or> length (selectors_of e) \<noteq> selectors
           then Inl (GuardUnsupported ''cluster filter could not be injected'') else Inr ()))"

definition enforce ::
    "(string \<Rightarrow> string + 'r mql) \<Rightarrow> ('r mql \<Rightarrow> string) \<Rightarrow> ('r mql \<Rightarrow> bool)
       \<Rightarrow> string \<Rightarrow> string \<Rightarrow> string \<Rightarrow> guard_error + enforced_query" where
  "enforce parse render likely_invalid expression label value =
     (let trimmed = trim_space expression in
      if trimmed = [] then Inl (GuardUnsupported ''expression is empty'')
      else if max_expression_bytes < length trimmed then Inl (GuardUnsupported ''expression is too long'')
      else if \<not> guard_label_name label then Inl GuardLabelInvalid
      else case parse trimmed of
        Inl m \<Rightarrow> Inl (GuardSyntax m)
      | Inr e \<Rightarrow>
          (let (scoped, selectors) = scope_query e label value; rewritten = render scoped in
           and_then (verify_query parse rewritten label value selectors) (\<lambda>_.
           Inr \<lparr>eq_expression = rewritten, eq_likely_invalid = likely_invalid scoped,
                eq_selectors = selectors\<rparr>)))"

definition placeholder_target :: string where
  "placeholder_target = ''00000000-0000-0000-0000-000000000000''"

definition validate_query ::
    "(string \<Rightarrow> string + 'r mql) \<Rightarrow> ('r mql \<Rightarrow> string) \<Rightarrow> ('r mql \<Rightarrow> bool) \<Rightarrow> string \<Rightarrow> string \<Rightarrow> guard_error + unit" where
  "validate_query parse render likely_invalid expression label =
     and_then (enforce parse render likely_invalid expression label placeholder_target) (\<lambda>_. Inr ())"

definition without_string :: "string list \<Rightarrow> string \<Rightarrow> string list" where
  "without_string values excluded = filter (\<lambda>v. v \<noteq> excluded) values"

definition unscope_node :: "string \<Rightarrow> mql_node \<Rightarrow> mql_node" where
  "unscope_node label n =
     (case n of
        MetricExpr gs \<Rightarrow> MetricExpr (map (filter (\<lambda>f. lf_label f \<noteq> label)) gs)
      | AggrFuncExpr args \<Rightarrow> AggrFuncExpr (without_string args label)
      | BinaryOpExpr group_args join_args \<Rightarrow>
          BinaryOpExpr (without_string group_args label) (without_string join_args label)
      | OtherExpr \<Rightarrow> OtherExpr)"

definition without_label ::
    "(string \<Rightarrow> string + 'r mql) \<Rightarrow> ('r mql \<Rightarrow> string) \<Rightarrow> string \<Rightarrow> string \<Rightarrow> guard_error + string" where
  "without_label parse render expression label =
     (if \<not> guard_label_name label then Inl GuardLabelInvalid
      else case parse (trim_space expression) of
        Inl m \<Rightarrow> Inl (GuardSyntax m)
      | Inr e \<Rightarrow> Inr (render (map_nodes (unscope_node label) e)))"

subsection \<open>What a selector selects\<close>

text \<open>
  The abstract side: a series is a map from label names to values, absent labels reading as the empty
  value. A filter compares, or matches with the anchored regular expression \<open>re\<close>; a selector takes the
  series that pass every filter of one of its groups, and every series if it has no group.
\<close>

definition passes :: "(string \<Rightarrow> string \<Rightarrow> bool) \<Rightarrow> (string \<Rightarrow> string) \<Rightarrow> label_filter \<Rightarrow> bool" where
  "passes re series f \<longleftrightarrow>
     (if lf_regexp f then re (lf_value f) (series (lf_label f)) else series (lf_label f) = lf_value f) \<noteq> lf_negative f"

definition selects :: "(string \<Rightarrow> string \<Rightarrow> bool) \<Rightarrow> label_filter list list \<Rightarrow> (string \<Rightarrow> string) \<Rightarrow> bool" where
  "selects re gs series \<longleftrightarrow> gs = [] \<or> list_ex (list_all (passes re series)) gs"

definition reads :: "(string \<Rightarrow> string \<Rightarrow> bool) \<Rightarrow> 'r mql \<Rightarrow> (string \<Rightarrow> string) \<Rightarrow> bool" where
  "reads re e series \<longleftrightarrow> list_ex (\<lambda>gs. selects re gs series) (selectors_of e)"

text \<open>The author's selector with every condition on the label taken out.\<close>

definition strip_groups :: "string \<Rightarrow> label_filter list list \<Rightarrow> label_filter list list" where
  "strip_groups label gs = map (filter (\<lambda>f. lf_label f \<noteq> label)) gs"

lemma selectors_map:
  "selectors_of (map_nodes (scope_node label value) e) = map (scope_groups label value) (selectors_of e)"
proof -
  have "concat (map ((\<lambda>n. case n of MetricExpr gs \<Rightarrow> [gs] | _ \<Rightarrow> []) \<circ> scope_node label value) ns)
      = map (scope_groups label value) (concat (map (\<lambda>n. case n of MetricExpr gs \<Rightarrow> [gs] | _ \<Rightarrow> []) ns))" for ns
    by (induction ns) (simp_all add: scope_node_def split: mql_node.splits)
  then show ?thesis by (simp add: selectors_of_def)
qed

lemma count_selectors: "length (filter is_selector (nodes e)) = length (selectors_of e)"
proof -
  have "length (filter is_selector ns) = length (concat (map (\<lambda>n. case n of MetricExpr gs \<Rightarrow> [gs] | _ \<Rightarrow> []) ns))" for ns
    by (induction ns) (simp_all add: is_selector_def split: mql_node.splits)
  then show ?thesis by (simp add: selectors_of_def)
qed

lemma scope_groups_scoped: "selector_scoped label value (scope_groups label value gs)"
  by (auto simp: scope_groups_def selector_scoped_def group_scoped_def enforced_filter_def list_all_iff filter_empty_conv)

text \<open>One filter on the label, an equality: a series that passes the group carries the value.\<close>

lemma scoped_group_value:
  assumes "group_scoped label value g" and "list_all (passes re series) g"
  shows "series label = value"
proof -
  from assms(1) have "filter (\<lambda>f. lf_label f = label) g \<noteq> []" by (auto simp: group_scoped_def)
  then obtain f where f: "f \<in> set g" "lf_label f = label" by (auto simp: filter_empty_conv)
  then have "lf_value f = value" "\<not> lf_regexp f" "\<not> lf_negative f"
    using assms(1) by (auto simp: group_scoped_def list_all_iff)
  with assms(2) f show ?thesis by (auto simp: list_all_iff passes_def)
qed

lemma scoped_selector_value:
  "selector_scoped label value gs \<Longrightarrow> selects re gs series \<Longrightarrow> series label = value"
  by (auto simp: selector_scoped_def selects_def list_all_iff list_ex_iff intro: scoped_group_value)

lemma scoped_selects:
  "selects re (scope_groups label value gs) series
     \<longleftrightarrow> series label = value \<and> selects re (strip_groups label gs) series"
  by (auto simp: selects_def scope_groups_def strip_groups_def list_ex_iff list_all_iff passes_def enforced_filter_def)

lemma enforce_Inr:
  assumes "enforce parse render li x label value = Inr q"
  shows "\<exists>e. parse (trim_space x) = Inr e \<and> eq_expression q = render (map_nodes (scope_node label value) e)
           \<and> eq_selectors q = length (selectors_of e)
           \<and> (\<exists>e'. parse (eq_expression q) = Inr e' \<and> list_all (selector_scoped label value) (selectors_of e')
                 \<and> length (selectors_of e') = length (selectors_of e))"
  using assms
  by (auto simp: enforce_def Let_def and_then_eq_Inr verify_query_def scope_query_def count_selectors
      split: if_splits sum.splits)

subsection \<open>Properties\<close>

text \<open>
  C10: nothing the guard lets through reads another cluster. Whatever the parser and printer do with the
  author's text, and however they disagree, if \<open>Enforce\<close> returns an expression then the storage, reading
  it with the same parser, finds only selectors every series of which carries the label with the value
  asked for.
\<close>

theorem enforced_reads_one_cluster:
  assumes "enforce parse render likely_invalid x label value = Inr q"
    and "parse (eq_expression q) = Inr e" and "reads re e series"
  shows "series label = value"
proof -
  from enforce_Inr [OF assms(1)] assms(2)
  have "list_all (selector_scoped label value) (selectors_of e)" by auto
  then show ?thesis
    using assms(3) scoped_selector_value by (fastforce simp: reads_def list_all_iff list_ex_iff)
qed

text \<open>
  C34: the guard changes nothing else. An expression that parses, is not empty and not too long, and whose
  scoped form reads back as it was printed, is let through, with the number of its
  selectors, and each selector takes exactly the series of that cluster that the author's selector, its
  conditions on the label taken out, would have taken.
\<close>

theorem enforced_is_the_query_in_one_cluster:
  assumes "parse (render (fst (scope_query e label value))) = Inr (fst (scope_query e label value))"
    and "parse (trim_space x) = Inr e" and "trim_space x \<noteq> []" and "length (trim_space x) \<le> max_expression_bytes" and "guard_label_name label"
  shows "\<exists>q e'. enforce parse render likely_invalid x label value = Inr q \<and> parse (eq_expression q) = Inr e'
           \<and> eq_selectors q = length (selectors_of e)
           \<and> map (selects re) (selectors_of e')
             = map (\<lambda>gs series. series label = value \<and> selects re (strip_groups label gs) series) (selectors_of e)"
proof -
  let ?e = "map_nodes (scope_node label value) e"
  have "list_all (selector_scoped label value) (selectors_of ?e)"
    by (simp add: selectors_map list_all_iff scope_groups_scoped)
  then have "verify_query parse (render ?e) label value (length (selectors_of e)) = Inr ()"
    using assms(1) by (simp add: verify_query_def scope_query_def selectors_map)
  then have q: "enforce parse render likely_invalid x label value
      = Inr \<lparr>eq_expression = render ?e, eq_likely_invalid = likely_invalid ?e, eq_selectors = length (selectors_of e)\<rparr>"
    using assms(2-5) by (simp add: enforce_def Let_def scope_query_def count_selectors)
  have "map (selects re) (selectors_of ?e)
      = map (\<lambda>gs series. series label = value \<and> selects re (strip_groups label gs) series) (selectors_of e)"
    by (simp add: selectors_map comp_def fun_eq_iff scoped_selects)
  with q show ?thesis using assms(1) by (auto simp: scope_query_def)
qed

lemma selectors_unscope:
  "selectors_of (map_nodes (unscope_node label) e) = map (strip_groups label) (selectors_of e)"
proof -
  have "concat (map ((\<lambda>n. case n of MetricExpr gs \<Rightarrow> [gs] | _ \<Rightarrow> []) \<circ> unscope_node label) ns)
      = map (strip_groups label) (concat (map (\<lambda>n. case n of MetricExpr gs \<Rightarrow> [gs] | _ \<Rightarrow> []) ns))" for ns
    by (induction ns) (simp_all add: unscope_node_def strip_groups_def split: mql_node.splits)
  then show ?thesis by (simp add: selectors_of_def)
qed

lemma scope_stripped: "scope_groups label value (strip_groups label gs) = scope_groups label value gs"
  by (simp add: scope_groups_def strip_groups_def)

text \<open>The displayed form loses the scope and nothing that a later scoping would keep.\<close>

lemma displayed_form_rescopes:
  "map (scope_groups label value) (selectors_of (map_nodes (unscope_node label) e))
     = map (scope_groups label value) (selectors_of e)"
  by (simp add: selectors_unscope scope_stripped comp_def)

lemma scoping_twice: "scope_groups label value (scope_groups label old gs) = scope_groups label value gs"
  by (auto simp: scope_groups_def enforced_filter_def)

text \<open>A sample: one selector with two alternatives, one of them asking for another cluster.\<close>

definition sample_filter :: "string \<Rightarrow> string \<Rightarrow> label_filter" where
  "sample_filter l v = \<lparr>lf_label = l, lf_value = v, lf_negative = False, lf_regexp = False\<rparr>"

definition sample_query :: "label_filter list list \<Rightarrow> unit mql" where
  "sample_query gs = Mql () OtherExpr [Mql () (MetricExpr gs) []]"

definition sample_parse :: "string \<Rightarrow> string + unit mql" where
  "sample_parse s =
     (if s = ''q'' then Inr (sample_query [[sample_filter ''job'' ''a''], [sample_filter ''c'' ''other'']])
      else if s = ''r'' then Inr (sample_query [[sample_filter ''job'' ''a'', sample_filter ''c'' ''one''], [sample_filter ''c'' ''one'']])
      else Inl ''syntax'')"

definition sample_render :: "unit mql \<Rightarrow> string" where "sample_render e = ''r''"

definition sample_enforced :: enforced_query where
  "sample_enforced = \<lparr>eq_expression = ''r'', eq_likely_invalid = False, eq_selectors = 1\<rparr>"

theorem enforced_is_the_query_in_one_cluster_witness:
  "\<exists>q e'. enforce sample_parse sample_render (\<lambda>_. False) '' q '' ''c'' ''one'' = Inr q
     \<and> sample_parse (eq_expression q) = Inr e' \<and> eq_selectors q = length (selectors_of (projr (sample_parse ''q'')))
     \<and> map (selects (\<lambda>_ _. False)) (selectors_of e')
       = map (\<lambda>gs series. series ''c'' = ''one'' \<and> selects (\<lambda>_ _. False) (strip_groups ''c'' gs) series)
           (selectors_of (projr (sample_parse ''q'')))"
proof -
  let ?e = "projr (sample_parse ''q'')"
  have "sample_parse (sample_render (fst (scope_query ?e ''c'' ''one''))) = Inr (fst (scope_query ?e ''c'' ''one''))"
    by code_simp
  moreover have "sample_parse (trim_space '' q '') = Inr ?e" by code_simp
  moreover have "trim_space '' q '' \<noteq> []" by code_simp
  moreover have "length (trim_space '' q '') \<le> max_expression_bytes"
  proof -
    have "trim_space '' q '' = ''q''" by code_simp
    then show ?thesis by (simp add: max_expression_bytes_def)
  qed
  moreover have "guard_label_name ''c''" by code_simp
  ultimately show ?thesis by (rule enforced_is_the_query_in_one_cluster)
qed

theorem enforced_reads_one_cluster_witness:
  "((\<lambda>l. ''x'')(''job'' := ''a'', ''c'' := ''one'')) ''c'' = ''one''
   \<and> enforce sample_parse sample_render (\<lambda>_. False) '' q '' ''c'' ''one'' = Inr sample_enforced"
proof -
  have e: "enforce sample_parse sample_render (\<lambda>_. False) '' q '' ''c'' ''one'' = Inr sample_enforced" by code_simp
  let ?s = "(\<lambda>l. ''x'')(''job'' := ''a'', ''c'' := ''one'')"
  have "sample_parse (eq_expression sample_enforced) = Inr (projr (sample_parse ''r''))" by code_simp
  moreover have "reads (\<lambda>_ _. False) (projr (sample_parse ''r'')) ?s" by code_simp
  ultimately show ?thesis using enforced_reads_one_cluster [OF e] e by blast
qed

end
