(* ===== verification/AiAttachments.thy ===== *)
theory AiAttachments
  imports Prelude
begin

section \<open>Attachments of a turn\<close>

text \<open>
  \<open>attachmentChunks\<close> of \<open>pkg/server/airuntime/runtime.go\<close>: the content of an attachment is cut into entries of
  the trail, each no longer than a bound and each cut where a character ends. The introducing text of an
  entry is abbreviated.
\<close>

record ai_attachment =
  aa_name :: string
  aa_media :: string
  aa_content :: string

definition chunk_bytes :: nat where "chunk_bytes = 7 * 1024"

definition valid_text :: "string \<Rightarrow> bool" where
  "valid_text s \<longleftrightarrow> valid_utf8 (map of_char s)"

text \<open>The inner loop: the bound comes down until what is before it is well-formed.\<close>

primrec valid_cut :: "nat \<Rightarrow> string \<Rightarrow> nat" where
  "valid_cut 0 s = 0"
| "valid_cut (Suc n) s = (if valid_text (take (Suc n) s) then Suc n else valid_cut n s)"

lemma valid_cut_le: "valid_cut n s \<le> n"
  by (induction n) auto

function attachment_pieces :: "string \<Rightarrow> string list" where
  "attachment_pieces s =
     (let e = valid_cut (min chunk_bytes (length s)) s in
      if e = 0 then [] else take e s # attachment_pieces (drop e s))"
  by pat_completeness auto

termination
proof (relation "measure length")
  fix s :: string and e
  assume e: "e = valid_cut (min chunk_bytes (length s)) s" and "e \<noteq> 0"
  moreover have "valid_cut (min chunk_bytes (length s)) s \<le> min chunk_bytes (length s)" by (rule valid_cut_le)
  ultimately show "(drop e s, s) \<in> measure length" by auto
qed simp

declare attachment_pieces.simps [simp del]

definition attachment_chunks :: "ai_attachment \<Rightarrow> string list" where
  "attachment_chunks a =
     (case attachment_pieces (aa_content a) of
        [] \<Rightarrow> []
      | p # ps \<Rightarrow> (''attachment '' @ aa_name a @ '' ('' @ aa_media a @ ''): '' @ p)
                  # map (\<lambda>q. ''attachment '' @ aa_name a @ '' (continued): '' @ q) ps)"

subsection \<open>Nothing is lost\<close>

text \<open>A well-formed text that is not empty starts with a character of at most four bytes.\<close>

lemma first_character:
  "valid_utf8 s \<Longrightarrow> s \<noteq> [] \<Longrightarrow> \<exists>k. 0 < k \<and> k \<le> 4 \<and> k \<le> length s \<and> valid_utf8 (take k s)"
proof (induction s rule: valid_utf8.induct)
  case (2 a r)
  show ?case
  proof (cases "a < 128")
    case True
    then show ?thesis by (intro exI [of _ 1]) simp
  next
    case False
    show ?thesis
    proof (cases "between 194 223 a")
      case True
      with "2.prems"(1) False obtain b r2 where "r = b # r2" "utf8_tail b" by (auto split: list.splits)
      with False True show ?thesis by (intro exI [of _ 2]) (simp add: numeral_eq_Suc)
    next
      case no2: False
      show ?thesis
      proof (cases "between 224 239 a")
        case True
        with "2.prems"(1) False no2 obtain b c r3 where "r = b # c # r3" "utf8_tail c"
          "if a = 224 then between 160 191 b else if a = 237 then between 128 159 b else utf8_tail b"
          by (auto split: list.splits)
        with False no2 True show ?thesis by (intro exI [of _ 3]) (simp add: numeral_eq_Suc)
      next
        case no3: False
        with "2.prems"(1) False no2 obtain b c d r4 where "r = b # c # d # r4" "between 240 244 a" "utf8_tail c" "utf8_tail d"
          "if a = 240 then between 144 191 b else if a = 244 then between 128 143 b else utf8_tail b"
          by (auto split: list.splits)
        with False no2 no3 show ?thesis by (intro exI [of _ 4]) (simp add: numeral_eq_Suc)
      qed
    qed
  qed
qed simp

lemma valid_rest: "valid_utf8 x \<Longrightarrow> valid_utf8 (x @ y) \<Longrightarrow> valid_utf8 y"
proof (induction x rule: valid_utf8.induct)
  case (2 a r)
  show ?case
  proof (cases "a < 128")
    case True
    with "2.IH"(1) "2.prems" show ?thesis by simp
  next
    case False
    show ?thesis
    proof (cases "between 194 223 a")
      case True
      with "2.prems"(1) False obtain b r2 where "r = b # r2" by (auto split: list.splits)
      with False True "2.IH"(2) "2.prems" show ?thesis by simp
    next
      case no2: False
      show ?thesis
      proof (cases "between 224 239 a")
        case True
        with "2.prems"(1) False no2 obtain b c r3 where "r = b # c # r3" by (auto split: list.splits)
        with False no2 True "2.IH"(3) "2.prems" show ?thesis by simp
      next
        case no3: False
        with "2.prems"(1) False no2 obtain b c d r4 where "r = b # c # d # r4" by (auto split: list.splits)
        with False no2 no3 "2.IH"(4) "2.prems" show ?thesis by simp
      qed
    qed
  qed
qed simp

lemma valid_text_rest:
  assumes "valid_text s" and "valid_text (take e s)"
  shows "valid_text (drop e s)"
proof -
  have "map of_char s = map of_char (take e s) @ map of_char (drop e s)"
    by (metis append_take_drop_id map_append)
  then show ?thesis using assms valid_rest unfolding valid_text_def by metis
qed

lemma valid_cut_valid: "valid_text (take (valid_cut n s) s)"
  by (induction n) (simp_all add: valid_text_def)

lemma valid_cut_ge: "valid_text (take k s) \<Longrightarrow> k \<le> n \<Longrightarrow> k \<le> valid_cut n s"
  by (induction n) (auto simp: le_Suc_eq)

lemma valid_cut_positive:
  assumes "valid_text s" and "s \<noteq> []"
  shows "0 < valid_cut (min chunk_bytes (length s)) s"
proof -
  from first_character [of "map of_char s"] assms obtain k where "0 < k" "k \<le> 4" "k \<le> length s"
    "valid_utf8 (take k (map of_char s))" by (auto simp: valid_text_def)
  then have "valid_text (take k s)" "k \<le> min chunk_bytes (length s)"
    by (auto simp: valid_text_def take_map chunk_bytes_def)
  from valid_cut_ge [OF this] \<open>0 < k\<close> show ?thesis by simp
qed

text \<open>
  An attachment reaches the trail whole. The pieces a well-formed content is cut into give it back one
  after the other; each is well-formed on its own, none is empty or longer than the bound.
\<close>

theorem attachments_are_kept_whole:
  assumes "valid_text s"
  shows "concat (attachment_pieces s) = s
    \<and> list_all (\<lambda>p. p \<noteq> [] \<and> valid_text p \<and> length p \<le> chunk_bytes) (attachment_pieces s)"
  using assms
proof (induction s rule: attachment_pieces.induct)
  case (1 s)
  define e where "e = valid_cut (min chunk_bytes (length s)) s"
  have le: "e \<le> min chunk_bytes (length s)" unfolding e_def by (rule valid_cut_le)
  show ?case
  proof (cases "s = []")
    case True
    then show ?thesis by (simp add: attachment_pieces.simps [of "[]"])
  next
    case False
    have pos: "0 < e" unfolding e_def by (rule valid_cut_positive [OF 1(2) False])
    have v: "valid_text (take e s)" unfolding e_def by (rule valid_cut_valid)
    have "valid_text (drop e s)" by (rule valid_text_rest [OF 1(2) v])
    from 1(1) [OF e_def _ this] pos
    have ih: "concat (attachment_pieces (drop e s)) = drop e s"
      "list_all (\<lambda>p. p \<noteq> [] \<and> valid_text p \<and> length p \<le> chunk_bytes) (attachment_pieces (drop e s))" by simp_all
    have eq: "attachment_pieces s = take e s # attachment_pieces (drop e s)"
      using pos unfolding attachment_pieces.simps [of s] Let_def e_def [symmetric] by simp
    have "take e s \<noteq> []" "length (take e s) \<le> chunk_bytes" using pos le False by auto
    with ih v show ?thesis unfolding eq by simp
  qed
qed

theorem attachments_are_kept_whole_witness:
  "concat (attachment_pieces ''log'') = ''log''
    \<and> list_all (\<lambda>p. p \<noteq> [] \<and> valid_text p \<and> length p \<le> chunk_bytes) (attachment_pieces ''log'')"
  by (rule attachments_are_kept_whole) code_simp

end
