(* ===== verification/AiTools.thy ===== *)
theory AiTools
  imports Validation AiAttachments
begin

section \<open>Tools of an AIOps turn, and the people they wait for\<close>

text \<open>
  \<open>pkg/server/airuntime/tools.go\<close>, \<open>approval.go\<close> and what \<open>runtime.go\<close> decides about one call. The facts a
  turn asks for from outside (the account, its permissions on the cluster, the session's approval mode,
  the answer of a person, the model, the tools) change while it runs. Each question is asked at an
  instant, a natural number that every question advances, and \<open>turn_facts\<close> gives the answer of every
  instant; nothing is assumed about it. JSON decoding is an argument. The Chinese texts the model is given
  are abbreviated.
\<close>

datatype approval_mode = ApprovalAsk | ApprovalAssisted | ApprovalFull

datatype evidence_kind = EvidenceResource | EvidenceEvent | EvidenceMetric | EvidenceLog | EvidenceHelmRelease | EvidenceOther

record ai_evidence =
  ev_kind :: evidence_kind
  ev_cluster :: string
  ev_namespace :: string
  ev_gvk :: string
  ev_name :: string
  ev_version :: string
  ev_query :: string
  ev_expression :: string
  ev_container :: string

definition evidence_kind_text :: "evidence_kind \<Rightarrow> string" where
  "evidence_kind_text k =
     (case k of EvidenceResource \<Rightarrow> ''resource'' | EvidenceEvent \<Rightarrow> ''event'' | EvidenceMetric \<Rightarrow> ''metric''
      | EvidenceLog \<Rightarrow> ''log'' | EvidenceHelmRelease \<Rightarrow> ''helm_release'' | EvidenceOther \<Rightarrow> [])"

text \<open>What a reference points at, without the version it was read at.\<close>

definition evidence_key :: "ai_evidence \<Rightarrow> string" where
  "evidence_key e =
     evidence_kind_text (ev_kind e) @ concat (map ((#) (CHR 0x00))
       [ev_cluster e, ev_namespace e, ev_gvk e, ev_name e, ev_container e, ev_query e, ev_expression e])"

text \<open>The first reference to each thing, as the loops over a set of keys seen keep them.\<close>

definition first_evidence :: "ai_evidence list \<Rightarrow> ai_evidence list" where
  "first_evidence es =
     rev (fold (\<lambda>e acc. if evidence_key e \<in> evidence_key ` set acc then acc else e # acc) es [])"

record ai_target =
  tg_cluster :: string
  tg_namespace :: string
  tg_gvk :: string
  tg_name :: string

record tool_spec =
  ts_name :: string
  ts_permissions :: "string list"
  ts_conditional :: "string list"
  ts_sensitive :: bool
  ts_sensitive_when :: "string \<Rightarrow> bool"
  ts_mutating :: bool
  ts_target :: "string \<Rightarrow> ai_target option"

record tool_call =
  tc_id :: string
  tc_name :: string
  tc_arguments :: string

record audit_target =
  at_target :: ai_target
  at_result :: string
  at_missing :: string

record tool_result =
  tr_text :: string
  tr_evidence :: "ai_evidence list"
  tr_target :: "ai_target option"
  tr_audit_targets :: "audit_target list"
  tr_failed :: bool
  tr_denied :: bool
  tr_trusted :: bool
  tr_view :: "ai_evidence option"

definition requires_approval_for :: "tool_spec \<Rightarrow> approval_mode \<Rightarrow> string \<Rightarrow> bool" where
  "requires_approval_for s mode arguments =
     (let sensitive = (ts_sensitive s \<or> ts_sensitive_when s arguments) in
      case mode of
        ApprovalFull \<Rightarrow> False
      | ApprovalAssisted \<Rightarrow> sensitive
      | ApprovalAsk \<Rightarrow> sensitive \<or> ts_mutating s)"

definition find_spec :: "tool_spec list \<Rightarrow> string \<Rightarrow> tool_spec option" where
  "find_spec specs name = find (\<lambda>s. ts_name s = name) specs"

definition tool_run_subtasks :: string where "tool_run_subtasks = ''run_subtasks''"
definition tool_open_console_view :: string where "tool_open_console_view = ''open_console_view''"

definition delegable_specs :: "tool_spec list \<Rightarrow> tool_spec list" where
  "delegable_specs specs =
     filter (\<lambda>s. \<not> (ts_mutating s \<or> ts_name s = tool_run_subtasks \<or> ts_name s = tool_open_console_view)) specs"

subsection \<open>Waiting for a person\<close>

text \<open>
  \<open>pendingApprovals\<close>: the calls parked on a person. A channel holds one decision; \<open>answer\<close> removes the
  entry it delivers to, so the channel is written at most once.
\<close>

record pending_approvals =
  pa_waiting :: "(string \<times> string) list"
  pa_delivered :: "((string \<times> string) \<times> string) list"

definition open_approval :: "string \<Rightarrow> string \<Rightarrow> pending_approvals \<Rightarrow> pending_approvals" where
  "open_approval session call p =
     p\<lparr>pa_waiting := (session, call) # removeAll (session, call) (pa_waiting p)\<rparr>"

definition close_approval :: "string \<Rightarrow> string \<Rightarrow> pending_approvals \<Rightarrow> pending_approvals" where
  "close_approval session call p = p\<lparr>pa_waiting := removeAll (session, call) (pa_waiting p)\<rparr>"

definition answer_approval :: "string \<Rightarrow> string \<Rightarrow> string \<Rightarrow> pending_approvals \<Rightarrow> bool \<times> pending_approvals" where
  "answer_approval session call decision p =
     (if (session, call) \<notin> set (pa_waiting p) then (False, p)
      else (True, p\<lparr>pa_waiting := removeAll (session, call) (pa_waiting p),
                    pa_delivered := pa_delivered p @ [((session, call), decision)]\<rparr>))"

datatype decide_error = DecideInvalidInput | NoPendingApproval | DecideRefused string

text \<open>\<open>Decide\<close>; \<open>readable\<close> is the answer of \<open>Runtime.Get\<close>, which checks ownership and \<open>ai.run\<close>.\<close>

definition decide ::
    "string + unit \<Rightarrow> string \<Rightarrow> string \<Rightarrow> string \<Rightarrow> pending_approvals \<Rightarrow> (decide_error + unit) \<times> pending_approvals" where
  "decide readable session call decision p =
     (if trim_space call = [] \<or> (decision \<noteq> ''approved'' \<and> decision \<noteq> ''denied'')
      then (Inl DecideInvalidInput, p)
      else case readable of
        Inl e \<Rightarrow> (Inl (DecideRefused e), p)
      | Inr _ \<Rightarrow>
          (let (ok, p') = answer_approval session call decision p in
           (if ok then Inr () else Inl NoPendingApproval, p')))"

text \<open>An answered call is no longer waiting, so it is not answered twice.\<close>

lemma answered_once:
  "answer_approval s c d p = (True, p') \<Longrightarrow> fst (answer_approval s c d' p') = False"
  by (auto simp: answer_approval_def split: if_splits)

subsection \<open>A turn and what it asks\<close>

record turn_job =
  tj_session :: string
  tj_user :: string
  tj_tenant :: string
  tj_project :: string
  tj_cluster :: string
  tj_attachments :: "ai_attachment list"
  tj_subtask :: "string option"

datatype approval_answer = Answered string | AnswerCancelled string | AnswerTimedOut

record model_completion =
  cm_text :: string
  cm_reasoning :: string
  cm_calls :: "tool_call list"
  cm_evidence :: "ai_evidence list"

record turn_facts =
  tf_active :: "nat \<Rightarrow> string + bool"
  tf_cluster :: "nat \<Rightarrow> string \<Rightarrow> string + string \<times> string"
  tf_mode :: "nat \<Rightarrow> approval_mode option"
  tf_answer :: "nat \<Rightarrow> tool_call \<Rightarrow> approval_answer"
  tf_cancelled :: "nat \<Rightarrow> string option"
  tf_think :: "nat \<Rightarrow> string + model_completion"
  tf_tool :: "nat \<Rightarrow> tool_call \<Rightarrow> string + tool_result"
  tf_settings :: "nat \<Rightarrow> string + bool"

record tool_content =
  ct_text :: string
  ct_failed :: bool
  ct_untrusted :: bool
  ct_target :: "ai_target option"
  ct_evidence :: "ai_evidence list"
  ct_view :: "ai_evidence option"

datatype trail_body =
    TrailSystem "approval_mode option" "string list"
  | TrailContext string
  | TrailReasoning nat string
  | TrailModel nat string "string list"
  | TrailToolCall nat tool_call "ai_target option" bool
  | TrailToolResult nat tool_call tool_content
  | TrailApprovalRequest nat tool_call approval_mode "ai_target option"
  | TrailApprovalDecision nat tool_call string "ai_target option"
  | TrailConclusion nat string "ai_evidence list"
  | TrailError string

record tool_audit =
  ta_call :: tool_call
  ta_step :: nat
  ta_target :: "ai_target option"
  ta_result :: string
  ta_missing :: string
  ta_mutating :: bool

text \<open>
  What a turn leaves behind: the entries it hands to the trail with the branch that wrote them, its audit
  rows, the calls it performed with the instant, and how it was finished.
\<close>

record turn_world =
  tw_now :: nat
  tw_trail :: "(string option \<times> trail_body) list"
  tw_audits :: "tool_audit list"
  tw_performed :: "(nat \<times> tool_call \<times> tool_spec) list"
  tw_finished :: "(string \<times> string) list"

definition ask :: "(nat \<Rightarrow> 'a) \<Rightarrow> turn_world \<Rightarrow> 'a \<times> turn_world" where
  "ask f w = (f (tw_now w), w\<lparr>tw_now := Suc (tw_now w)\<rparr>)"

definition append_trail :: "turn_job \<Rightarrow> trail_body \<Rightarrow> turn_world \<Rightarrow> turn_world" where
  "append_trail j b w = w\<lparr>tw_trail := tw_trail w @ [(tj_subtask j, b)]\<rparr>"

definition permission_ai_run :: string where "permission_ai_run = ''ai.run''"

definition ai_scope_ok :: "turn_job \<Rightarrow> string + string \<times> string \<Rightarrow> bool" where
  "ai_scope_ok j r \<longleftrightarrow> r = Inr (tj_tenant j, tj_project j)"

definition authorize_target :: "turn_facts \<Rightarrow> turn_job \<Rightarrow> turn_world \<Rightarrow> bool \<times> turn_world" where
  "authorize_target f j w =
     (if \<not> (is_uuid (tj_user j) \<and> is_uuid (tj_tenant j) \<and> is_uuid (tj_project j) \<and> is_uuid (tj_cluster j))
      then (False, w)
      else let (r, w') = ask (\<lambda>t. tf_cluster f t permission_ai_run) w in (ai_scope_ok j r, w'))"

definition revalidate_turn :: "turn_facts \<Rightarrow> turn_job \<Rightarrow> turn_world \<Rightarrow> bool \<times> turn_world" where
  "revalidate_turn f j w =
     (let (a, w') = ask (tf_active f) w in
      if a = Inr True then authorize_target f j w' else (False, w'))"

text \<open>The permissions of a tool one after the other; the first one missing ends the check.\<close>

fun missing_permission ::
    "turn_facts \<Rightarrow> turn_job \<Rightarrow> string list \<Rightarrow> turn_world \<Rightarrow> string option \<times> turn_world" where
  "missing_permission f j [] w = (None, w)"
| "missing_permission f j (p # ps) w =
     (let (r, w') = ask (\<lambda>t. tf_cluster f t p) w in
      if ai_scope_ok j r then missing_permission f j ps w' else (Some p, w'))"

definition authorize_tool :: "turn_facts \<Rightarrow> turn_job \<Rightarrow> tool_spec \<Rightarrow> turn_world \<Rightarrow> (bool \<times> string) \<times> turn_world" where
  "authorize_tool f j s w =
     (case missing_permission f j (ts_permissions s) w of
        (Some p, w') \<Rightarrow> ((False, p), w')
      | (None, w') \<Rightarrow> ((ts_permissions s \<noteq> [] \<or> ts_conditional s \<noteq> [], []), w'))"

definition evidence_permission :: "evidence_kind \<Rightarrow> string option" where
  "evidence_permission k =
     (case k of
        EvidenceEvent \<Rightarrow> Some ''cluster.event.read''
      | EvidenceMetric \<Rightarrow> Some ''cluster.metrics.read''
      | EvidenceLog \<Rightarrow> Some ''cluster.pod.logs.read''
      | EvidenceHelmRelease \<Rightarrow> Some ''cluster.secret.read''
      | EvidenceResource \<Rightarrow> Some ''cluster.read''
      | EvidenceOther \<Rightarrow> None)"

definition authorize_evidence :: "turn_facts \<Rightarrow> turn_job \<Rightarrow> ai_evidence \<Rightarrow> turn_world \<Rightarrow> bool \<times> turn_world" where
  "authorize_evidence f j e w =
     (if ev_cluster e \<noteq> tj_cluster j then (False, w)
      else case evidence_permission (ev_kind e) of
        None \<Rightarrow> (False, w)
      | Some p \<Rightarrow> (let (r, w') = ask (\<lambda>t. tf_cluster f t p) w in (ai_scope_ok j r, w')))"

fun visible_evidence :: "turn_facts \<Rightarrow> turn_job \<Rightarrow> ai_evidence list \<Rightarrow> turn_world \<Rightarrow> ai_evidence list \<times> turn_world" where
  "visible_evidence f j [] w = ([], w)"
| "visible_evidence f j (e # es) w =
     (let item = e\<lparr>ev_cluster := tj_cluster j\<rparr>; (ok, w1) = authorize_evidence f j item w;
          (rest, w2) = visible_evidence f j es w1 in
      (if ok then item # rest else rest, w2))"

definition visible_view :: "turn_facts \<Rightarrow> turn_job \<Rightarrow> ai_evidence option \<Rightarrow> turn_world \<Rightarrow> ai_evidence option \<times> turn_world" where
  "visible_view f j v w =
     (case v of
        None \<Rightarrow> (None, w)
      | Some e \<Rightarrow> (let item = e\<lparr>ev_cluster := tj_cluster j\<rparr>; (ok, w') = authorize_evidence f j item w in
                  (if ok then Some item else None, w')))"

definition current_mode :: "turn_facts \<Rightarrow> turn_world \<Rightarrow> approval_mode \<times> turn_world" where
  "current_mode f w =
     (let (m, w') = ask (tf_mode f) w in (case m of None \<Rightarrow> ApprovalAsk | Some x \<Rightarrow> x, w'))"

end
