(* ===== verification/AiTurn.thy ===== *)
theory AiTurn
  imports AiTools Encoding
begin

section \<open>The loop of an AIOps turn\<close>

text \<open>
  \<open>pkg/server/airuntime/runtime.go\<close> and \<open>subtask.go\<close>: admitting, executing and recording the calls of one
  step, the loop of a turn, and delegated branches. Calls executed concurrently run in an order that is an
  argument, one invocation at a time; the branches of a delegation run one after the other. What an entry
  costs to store, live signals to watchers, the naming of a session and the compaction of the
  conversation are left out: a model step is one question, answered with a completion or with the failure
  the step is classified as.
\<close>

record run_limits =
  rl_max_steps :: nat
  rl_max_calls :: nat
  rl_repeat :: nat
  rl_parallel :: nat
  rl_sub_parallel :: nat
  rl_sub_steps :: nat
  rl_sub_calls :: nat
  rl_audit :: bool
  rl_object :: "string \<Rightarrow> bool"
  rl_goals :: "string \<Rightarrow> (string \<times> nat) list option"

record planned_call =
  pl_call :: tool_call
  pl_spec :: "tool_spec option"
  pl_arguments :: string
  pl_target :: "ai_target option"
  pl_outcome :: "tool_content option"
  pl_run :: bool

definition failed_content :: "string \<Rightarrow> tool_content" where
  "failed_content text =
     \<lparr>ct_text = text, ct_failed = True, ct_untrusted = False, ct_target = None, ct_evidence = [], ct_view = None\<rparr>"

definition record_call :: "turn_job \<Rightarrow> nat \<Rightarrow> tool_call \<Rightarrow> ai_target option \<Rightarrow> bool \<Rightarrow> turn_world \<Rightarrow> turn_world" where
  "record_call j step c target authorized = append_trail j (TrailToolCall step c target authorized)"

definition record_result ::
    "turn_job \<Rightarrow> nat \<Rightarrow> planned_call \<Rightarrow> turn_world \<Rightarrow> turn_world" where
  "record_result j step item w =
     (let outcome = (case pl_outcome item of None \<Rightarrow> failed_content ''no result'' | Some x \<Rightarrow> x);
          content = outcome\<lparr>ct_target := (case ct_target outcome of None \<Rightarrow> pl_target item | Some t \<Rightarrow> Some t)\<rparr>
      in append_trail j (TrailToolResult step (pl_call item) content) w)"

definition record_tool_audit ::
    "run_limits \<Rightarrow> nat \<Rightarrow> tool_call \<Rightarrow> tool_spec \<Rightarrow> ai_target option \<Rightarrow> string \<Rightarrow> string \<Rightarrow> turn_world \<Rightarrow> turn_world" where
  "record_tool_audit lim step c s target result missing w =
     (if \<not> rl_audit lim then w
      else w\<lparr>tw_audits := tw_audits w @ [\<lparr>ta_call = c, ta_step = step, ta_target = target, ta_result = result,
                                         ta_missing = missing, ta_mutating = ts_mutating s\<rparr>]\<rparr>)"

definition decode_arguments :: "run_limits \<Rightarrow> string \<Rightarrow> string option" where
  "decode_arguments lim value =
     (let trimmed = trim_space value in
      if trimmed = [] then Some ''{}'' else if rl_object lim trimmed then Some trimmed else None)"

definition qualified_call_id :: "turn_job \<Rightarrow> string \<Rightarrow> string" where
  "qualified_call_id j i = (case tj_subtask j of None \<Rightarrow> i | Some b \<Rightarrow> b @ '':'' @ i)"

definition await_approval ::
    "turn_facts \<Rightarrow> turn_job \<Rightarrow> nat \<Rightarrow> tool_call \<Rightarrow> approval_mode \<Rightarrow> ai_target option \<Rightarrow> turn_world
       \<Rightarrow> (string + string) \<times> turn_world" where
  "await_approval f j step c mode target w =
     (let (a, w') = ask (\<lambda>t. tf_answer f t c) (append_trail j (TrailApprovalRequest step c mode target) w) in
      case a of
        Answered d \<Rightarrow> (Inr d, append_trail j (TrailApprovalDecision step c d target) w')
      | AnswerCancelled e \<Rightarrow> (Inl e, w')
      | AnswerTimedOut \<Rightarrow> (Inl ''approval_timeout'', w'))"

subsection \<open>Admitting one call\<close>

definition not_run :: "tool_call \<Rightarrow> tool_spec option \<Rightarrow> ai_target option \<Rightarrow> string \<Rightarrow> planned_call" where
  "not_run c s target text =
     \<lparr>pl_call = c, pl_spec = s, pl_arguments = [], pl_target = target,
      pl_outcome = Some (failed_content text), pl_run = False\<rparr>"

text \<open>The part after authorization and approval: the call is recorded, decoded and counted.\<close>

definition admit_cleared ::
    "run_limits \<Rightarrow> turn_job \<Rightarrow> nat \<Rightarrow> tool_call \<Rightarrow> tool_spec \<Rightarrow> ai_target option \<Rightarrow> (string \<Rightarrow> nat) \<Rightarrow> turn_world
       \<Rightarrow> planned_call \<times> (string \<Rightarrow> nat) \<times> turn_world" where
  "admit_cleared lim j step c s target repeats w =
     (let w' = record_call j step c target True w in
      case decode_arguments lim (tc_arguments c) of
        None \<Rightarrow> (not_run c (Some s) target ''arguments are not a JSON object'', repeats, w')
      | Some args \<Rightarrow>
          (let k = tc_name c @ [CHR 0x00] @ args; seen = repeats(k := Suc (repeats k)) in
           if rl_repeat lim < seen k then (not_run c (Some s) target ''repeated call'', seen, w')
           else (\<lparr>pl_call = c, pl_spec = Some s, pl_arguments = args, pl_target = target, pl_outcome = None,
                  pl_run = True\<rparr>, seen, w')))"

definition refuse_call ::
    "run_limits \<Rightarrow> turn_job \<Rightarrow> nat \<Rightarrow> tool_call \<Rightarrow> tool_spec \<Rightarrow> ai_target option \<Rightarrow> string \<Rightarrow> turn_world
       \<Rightarrow> planned_call \<times> turn_world" where
  "refuse_call lim j step c s target missing w =
     (not_run c (Some s) target (''missing permission '' @ missing),
      record_tool_audit lim step c s target ''denied'' missing (record_call j step c target False w))"

definition call_target :: "turn_job \<Rightarrow> tool_call \<Rightarrow> tool_spec option \<Rightarrow> ai_target option" where
  "call_target j c s =
     (case Option.bind s (\<lambda>s. ts_target s (tc_arguments c)) of
        None \<Rightarrow> Some \<lparr>tg_cluster = tj_cluster j, tg_namespace = [], tg_gvk = [], tg_name = []\<rparr>
      | Some t \<Rightarrow> Some (t\<lparr>tg_cluster := tj_cluster j\<rparr>))"

definition admit ::
    "run_limits \<Rightarrow> turn_facts \<Rightarrow> turn_job \<Rightarrow> nat \<Rightarrow> tool_call \<Rightarrow> tool_spec list \<Rightarrow> approval_mode
       \<Rightarrow> (string \<Rightarrow> nat) \<Rightarrow> turn_world \<Rightarrow> (string + planned_call) \<times> (string \<Rightarrow> nat) \<times> turn_world" where
  "admit lim f j step c specs mode repeats w =
     (case find_spec specs (tc_name c) of
        None \<Rightarrow>
          (Inr (not_run c None (call_target j c None) ''unknown tool''), repeats,
           record_call j step c (call_target j c None) False w)
      | Some s \<Rightarrow>
          (let target = call_target j c (Some s); ((ok, missing), w1) = authorize_tool f j s w in
           if \<not> ok then (let (item, w2) = refuse_call lim j step c s target missing w1 in (Inr item, repeats, w2))
           else if \<not> requires_approval_for s mode (tc_arguments c)
           then (let (item, seen, w2) = admit_cleared lim j step c s target repeats w1 in (Inr item, seen, w2))
           else (case await_approval f j step c mode target w1 of
               (Inl e, w2) \<Rightarrow> (Inl e, repeats, w2)
             | (Inr d, w2) \<Rightarrow>
                 if d = ''denied''
                 then (Inr (not_run c (Some s) target ''denied by the operator''), repeats,
                       record_call j step c target False w2)
                 else (case revalidate_turn f j w2 of
                     (False, w3) \<Rightarrow> (Inl ''permission_revoked'', repeats, w3)
                   | (True, w3) \<Rightarrow>
                       (let ((ok2, missing2), w4) = authorize_tool f j s w3 in
                        if \<not> ok2
                        then (let (item, w5) = refuse_call lim j step c s target missing2 w4 in (Inr item, repeats, w5))
                        else (let (item, seen, w5) = admit_cleared lim j step c s target repeats w4
                              in (Inr item, seen, w5)))))))"

fun admit_all ::
    "run_limits \<Rightarrow> turn_facts \<Rightarrow> turn_job \<Rightarrow> nat \<Rightarrow> tool_spec list \<Rightarrow> approval_mode \<Rightarrow> tool_call list
       \<Rightarrow> (string \<Rightarrow> nat) \<Rightarrow> turn_world \<Rightarrow> (string + planned_call list) \<times> (string \<Rightarrow> nat) \<times> turn_world" where
  "admit_all lim f j step specs mode [] repeats w = (Inr [], repeats, w)"
| "admit_all lim f j step specs mode (c # cs) repeats w =
     (case admit lim f j step (c\<lparr>tc_id := qualified_call_id j (tc_id c)\<rparr>) specs mode repeats w of
        (Inl e, seen, w1) \<Rightarrow> (Inl e, seen, w1)
      | (Inr item, seen, w1) \<Rightarrow>
          (case admit_all lim f j step specs mode cs seen w1 of
             (Inl e, seen2, w2) \<Rightarrow> (Inl e, seen2, w2)
           | (Inr items, seen2, w2) \<Rightarrow> (Inr (item # items), seen2, w2)))"

subsection \<open>Executing\<close>

type_synonym performer = "planned_call \<Rightarrow> turn_world \<Rightarrow> (string + tool_result) \<times> turn_world"

fun audit_targets ::
    "run_limits \<Rightarrow> turn_job \<Rightarrow> nat \<Rightarrow> tool_call \<Rightarrow> tool_spec \<Rightarrow> string \<Rightarrow> audit_target list \<Rightarrow> turn_world \<Rightarrow> turn_world" where
  "audit_targets lim j step c s result [] w = w"
| "audit_targets lim j step c s result (a # as) w =
     audit_targets lim j step c s result as
       (record_tool_audit lim step c s (Some ((at_target a)\<lparr>tg_cluster := tj_cluster j\<rparr>))
          (if at_result a \<in> {''succeeded'', ''failed'', ''denied''} then at_result a else result)
          (at_missing a) w)"

definition invoke ::
    "run_limits \<Rightarrow> turn_facts \<Rightarrow> performer \<Rightarrow> turn_job \<Rightarrow> nat \<Rightarrow> tool_spec \<Rightarrow> planned_call \<Rightarrow> turn_world
       \<Rightarrow> planned_call \<times> turn_world" where
  "invoke lim f perform j step s item w =
     (case perform item (w\<lparr>tw_performed := tw_performed w @ [(tw_now w, pl_call item, s)]\<rparr>) of
        (Inl e, w1) \<Rightarrow>
          (item\<lparr>pl_outcome := Some \<lparr>ct_text = e, ct_failed = True, ct_untrusted = True, ct_target = pl_target item,
                                   ct_evidence = [], ct_view = None\<rparr>\<rparr>,
           record_tool_audit lim step (pl_call item) s (pl_target item) ''failed'' [] w1)
      | (Inr r, w1) \<Rightarrow>
          (let result = (if tr_denied r then ''denied'' else if tr_failed r then ''failed'' else ''succeeded'');
               (evidence, w2) = visible_evidence f j (tr_evidence r) w1;
               (view, w3) = visible_view f j (tr_view r) w2;
               target = (case tr_target r of None \<Rightarrow> pl_target item
                                           | Some t \<Rightarrow> Some (t\<lparr>tg_cluster := tj_cluster j\<rparr>));
               content = \<lparr>ct_text = tr_text r, ct_failed = (tr_failed r \<or> tr_denied r), ct_untrusted = (\<not> tr_trusted r),
                          ct_target = target, ct_evidence = evidence, ct_view = view\<rparr>
           in (item\<lparr>pl_target := target, pl_outcome := Some content\<rparr>,
               if tr_audit_targets r \<noteq> [] then audit_targets lim j step (pl_call item) s result (tr_audit_targets r) w3
               else record_tool_audit lim step (pl_call item) s target result [] w3)))"

fun invoke_at ::
    "run_limits \<Rightarrow> turn_facts \<Rightarrow> performer \<Rightarrow> turn_job \<Rightarrow> nat \<Rightarrow> nat list \<Rightarrow> planned_call list \<Rightarrow> turn_world
       \<Rightarrow> planned_call list \<times> turn_world" where
  "invoke_at lim f perform j step [] items w = (items, w)"
| "invoke_at lim f perform j step (i # is) items w =
     (case (i < length items \<and> pl_run (items ! i), pl_spec (items ! i)) of
        (True, Some s) \<Rightarrow>
          (let (item, w') = invoke lim f perform j step s (items ! i) w
           in invoke_at lim f perform j step is (items[i := item]) w')
      | _ \<Rightarrow> invoke_at lim f perform j step is items w)"

definition runs_mutating :: "planned_call \<Rightarrow> bool" where
  "runs_mutating item \<longleftrightarrow> pl_run item \<and> (case pl_spec item of None \<Rightarrow> False | Some s \<Rightarrow> ts_mutating s)"

definition execute_calls ::
    "run_limits \<Rightarrow> turn_facts \<Rightarrow> performer \<Rightarrow> (nat \<Rightarrow> nat list) \<Rightarrow> turn_job \<Rightarrow> nat \<Rightarrow> planned_call list \<Rightarrow> turn_world
       \<Rightarrow> planned_call list \<times> turn_world" where
  "execute_calls lim f perform order j step items w =
     (if list_ex runs_mutating items then invoke_at lim f perform j step [0..<length items] items w
      else invoke_at lim f perform j step (order (length items)) items w)"

definition parallelism_for :: "run_limits \<Rightarrow> turn_job \<Rightarrow> nat" where
  "parallelism_for lim j =
     (if tj_subtask j = None \<or> rl_sub_parallel lim \<le> 1 then rl_parallel lim
      else max 1 (rl_parallel lim div rl_sub_parallel lim))"

fun record_results :: "turn_job \<Rightarrow> nat \<Rightarrow> planned_call list \<Rightarrow> turn_world \<Rightarrow> turn_world" where
  "record_results j step [] w = w"
| "record_results j step (item # items) w = record_results j step items (record_result j step item w)"

definition run_tool_calls ::
    "run_limits \<Rightarrow> turn_facts \<Rightarrow> performer \<Rightarrow> (nat \<Rightarrow> nat list) \<Rightarrow> turn_job \<Rightarrow> nat \<Rightarrow> tool_call list
       \<Rightarrow> tool_spec list \<Rightarrow> approval_mode \<Rightarrow> (string \<Rightarrow> nat) \<Rightarrow> turn_world
       \<Rightarrow> string option \<times> (string \<Rightarrow> nat) \<times> turn_world" where
  "run_tool_calls lim f perform order j step calls specs mode repeats w =
     (case admit_all lim f j step specs mode calls repeats w of
        (Inl e, seen, w1) \<Rightarrow> (Some e, seen, w1)
      | (Inr items, seen, w1) \<Rightarrow>
          (let (finished, w2) = execute_calls lim f perform order j step items w1
           in (None, seen, record_results j step finished w2)))"

subsection \<open>The turn\<close>

definition fail_turn :: "string \<Rightarrow> turn_world \<Rightarrow> turn_world" where
  "fail_turn failure w =
     w\<lparr>tw_trail := tw_trail w @ [(None, TrailError failure)],
       tw_finished := tw_finished w @ [if failure = ''session_ended'' then (''canceled'', []) else (''failed'', failure)]\<rparr>"

definition conclude_turn :: "turn_job \<Rightarrow> nat \<Rightarrow> model_completion \<Rightarrow> turn_world \<Rightarrow> turn_world" where
  "conclude_turn j step c w =
     (append_trail j (TrailConclusion step (cm_text c) (cm_evidence c)) w)
       \<lparr>tw_finished := tw_finished w @ [(''succeeded'', [])]\<rparr>"

definition record_step :: "turn_job \<Rightarrow> nat \<Rightarrow> model_completion \<Rightarrow> turn_world \<Rightarrow> turn_world" where
  "record_step j step c w =
     (let w1 = (if trim_space (cm_reasoning c) = [] then w
                else append_trail j (TrailReasoning step (trim_space (cm_reasoning c))) w)
      in append_trail j (TrailModel step (cm_text c) (map tc_name (cm_calls c))) w1)"

text \<open>\<open>remaining\<close> is the number of steps left of the budget, \<open>used\<close> the calls requested so far.\<close>

fun turn_loop ::
    "run_limits \<Rightarrow> turn_facts \<Rightarrow> performer \<Rightarrow> (nat \<Rightarrow> nat list) \<Rightarrow> turn_job \<Rightarrow> tool_spec list
       \<Rightarrow> nat \<Rightarrow> nat \<Rightarrow> nat \<Rightarrow> (string \<Rightarrow> nat) \<Rightarrow> turn_world \<Rightarrow> turn_world" where
  "turn_loop lim f perform order j specs 0 step used repeats w = fail_turn ''step_budget_exhausted'' w"
| "turn_loop lim f perform order j specs (Suc remaining) step used repeats w =
     (case ask (tf_cancelled f) w of
        (Some e, w1) \<Rightarrow> fail_turn e w1
      | (None, w1) \<Rightarrow>
          (case revalidate_turn f j w1 of
             (False, w2) \<Rightarrow> fail_turn ''permission_revoked'' w2
           | (True, w2) \<Rightarrow>
               (let (mode, w3) = current_mode f w2 in
                case ask (tf_think f) w3 of
                  (Inl e, w4) \<Rightarrow> fail_turn e w4
                | (Inr c, w4) \<Rightarrow>
                    (let w5 = record_step j step c w4 in
                     if cm_calls c = [] then conclude_turn j step c w5
                     else if rl_max_calls lim < used + length (cm_calls c) then fail_turn ''tool_budget_exhausted'' w5
                     else (case run_tool_calls lim f perform order j step (cm_calls c) specs mode repeats w5 of
                         (Some e, seen, w6) \<Rightarrow> fail_turn e w6
                       | (None, seen, w6) \<Rightarrow>
                           turn_loop lim f perform order j specs remaining (Suc step)
                             (used + length (cm_calls c)) seen w6)))))"

definition append_attachments :: "turn_job \<Rightarrow> turn_world \<Rightarrow> turn_world" where
  "append_attachments j w =
     fold (append_trail j) (map TrailContext (concat (map attachment_chunks (tj_attachments j)))) w"

text \<open>The start of a turn. The settings are read, and say whether the model is enabled.\<close>

definition run_turn ::
    "run_limits \<Rightarrow> turn_facts \<Rightarrow> performer \<Rightarrow> (nat \<Rightarrow> nat list) \<Rightarrow> turn_job \<Rightarrow> tool_spec list
       \<Rightarrow> turn_world \<Rightarrow> turn_world" where
  "run_turn lim f perform order j specs w =
     (case revalidate_turn f j w of
        (False, w1) \<Rightarrow> fail_turn ''permission_revoked'' w1
      | (True, w1) \<Rightarrow>
          (let (settings, w2) = ask (tf_settings f) w1 in
           if settings \<noteq> Inr True then fail_turn ''model_unavailable'' w2
           else let (mode, w3) = current_mode f w2 in
                turn_loop lim f perform order j specs (rl_max_steps lim) 1 0 (\<lambda>_. 0)
                  (append_attachments j (append_trail j (TrailSystem (Some mode) (map ts_name specs)) w3))))"

subsection \<open>Delegated branches\<close>

record subtask_run =
  sr_id :: string
  sr_text :: string
  sr_failure :: string
  sr_evidence :: "ai_evidence list"
  sr_steps :: nat
  sr_calls :: nat

text \<open>The catalogue performs what a branch asks for; a branch never sees the delegation tool.\<close>

definition perform_catalogue :: "turn_facts \<Rightarrow> performer" where
  "perform_catalogue f item w = ask (\<lambda>t. tf_tool f t (pl_call item)) w"

fun branch_loop ::
    "run_limits \<Rightarrow> turn_facts \<Rightarrow> (nat \<Rightarrow> nat list) \<Rightarrow> turn_job \<Rightarrow> tool_spec list \<Rightarrow> nat \<Rightarrow> nat
       \<Rightarrow> (string \<Rightarrow> nat) \<Rightarrow> subtask_run \<Rightarrow> turn_world \<Rightarrow> subtask_run \<times> turn_world" where
  "branch_loop lim f order j specs 0 step repeats b w = (b\<lparr>sr_failure := ''step_budget_exhausted''\<rparr>, w)"
| "branch_loop lim f order j specs (Suc remaining) step repeats b w =
     (case ask (tf_cancelled f) w of
        (Some e, w1) \<Rightarrow> (b\<lparr>sr_failure := e\<rparr>, w1)
      | (None, w1) \<Rightarrow>
          (case revalidate_turn f j w1 of
             (False, w2) \<Rightarrow> (b\<lparr>sr_failure := ''permission_revoked''\<rparr>, w2)
           | (True, w2) \<Rightarrow>
               (let (mode, w3) = current_mode f w2 in
                case ask (tf_think f) w3 of
                  (Inl e, w4) \<Rightarrow> (b\<lparr>sr_failure := e\<rparr>, w4)
                | (Inr c, w4) \<Rightarrow>
                    (let w5 = append_trail j (TrailModel step (cm_text c) (map tc_name (cm_calls c))) w4;
                         b1 = b\<lparr>sr_steps := step\<rparr> in
                     if cm_calls c = []
                     then (let text = trim_space (cm_text c) in
                       if text = [] then (b1\<lparr>sr_failure := ''step_budget_exhausted''\<rparr>, w5)
                       else (b1\<lparr>sr_text := text, sr_evidence := cm_evidence c\<rparr>,
                             append_trail j (TrailConclusion step text (cm_evidence c)) w5))
                     else if rl_sub_calls lim < sr_calls b + length (cm_calls c)
                     then (b1\<lparr>sr_failure := ''tool_budget_exhausted''\<rparr>, w5)
                     else (let b2 = b1\<lparr>sr_calls := sr_calls b + length (cm_calls c)\<rparr> in
                       case run_tool_calls lim f (perform_catalogue f) order j step (cm_calls c) specs mode repeats w5 of
                         (Some e, seen, w6) \<Rightarrow> (b2\<lparr>sr_failure := e\<rparr>, w6)
                       | (None, seen, w6) \<Rightarrow> branch_loop lim f order j specs remaining (Suc step) seen b2 w6)))))"

definition run_subtask ::
    "run_limits \<Rightarrow> turn_facts \<Rightarrow> (nat \<Rightarrow> nat list) \<Rightarrow> turn_job \<Rightarrow> tool_spec list \<Rightarrow> string \<Rightarrow> turn_world
       \<Rightarrow> subtask_run \<times> turn_world" where
  "run_subtask lim f order parent specs i w =
     (let j = parent\<lparr>tj_subtask := Some i\<rparr> in
      branch_loop lim f order j specs (rl_sub_steps lim) 1 (\<lambda>_. 0)
        \<lparr>sr_id = i, sr_text = [], sr_failure = [], sr_evidence = [], sr_steps = 0, sr_calls = 0\<rparr>
        (append_trail j (TrailSystem None (map ts_name specs)) w))"

fun run_branches ::
    "run_limits \<Rightarrow> turn_facts \<Rightarrow> (nat \<Rightarrow> nat list) \<Rightarrow> turn_job \<Rightarrow> tool_spec list \<Rightarrow> string list \<Rightarrow> turn_world
       \<Rightarrow> subtask_run list \<times> turn_world" where
  "run_branches lim f order j specs [] w = ([], w)"
| "run_branches lim f order j specs (i # is) w =
     (let (b, w1) = run_subtask lim f order j specs i w; (bs, w2) = run_branches lim f order j specs is w1
      in (b # bs, w2))"

text \<open>\<open>foldSubtasks\<close>: the answer fails only if every branch failed; a reference is cited once.\<close>

definition fold_subtasks :: "subtask_run list \<Rightarrow> tool_result" where
  "fold_subtasks bs =
     \<lparr>tr_text = concat (map (\<lambda>b. if sr_failure b \<noteq> [] then sr_failure b else sr_text b) bs),
      tr_evidence = first_evidence (concat (map sr_evidence (filter (\<lambda>b. sr_failure b = []) bs))),
      tr_target = None, tr_audit_targets = [],
      tr_failed = (length (filter (\<lambda>b. sr_failure b \<noteq> []) bs) = length bs), tr_denied = False,
      tr_trusted = False, tr_view = None\<rparr>"

definition plain_failure :: "string \<Rightarrow> tool_result" where
  "plain_failure text =
     \<lparr>tr_text = text, tr_evidence = [], tr_target = None, tr_audit_targets = [], tr_failed = True,
      tr_denied = False, tr_trusted = False, tr_view = None\<rparr>"

definition branch_ids :: "planned_call \<Rightarrow> nat \<Rightarrow> string list" where
  "branch_ids item n = map (\<lambda>k. tc_id (pl_call item) @ ''-'' @ nat_digits k) [1..<Suc n]"

definition max_subtask_goal_runes :: nat where "max_subtask_goal_runes = 300"

definition run_subtasks ::
    "run_limits \<Rightarrow> turn_facts \<Rightarrow> (nat \<Rightarrow> nat list) \<Rightarrow> turn_job \<Rightarrow> tool_spec list \<Rightarrow> planned_call \<Rightarrow> turn_world
       \<Rightarrow> (string + tool_result) \<times> turn_world" where
  "run_subtasks lim f order j catalogue item w =
     (if rl_sub_parallel lim = 0 then (Inr (plain_failure ''delegation is off''), w)
      else case rl_goals lim (pl_arguments item) of
        None \<Rightarrow> (Inl ''arguments'', w)
      | Some requested \<Rightarrow>
          (let goals = filter (\<lambda>g. fst g \<noteq> []) requested in
           if list_ex (\<lambda>g. max_subtask_goal_runes < snd g) goals then (Inr (plain_failure ''goal is too long''), w)
           else if goals = [] then (Inr (plain_failure ''no goal''), w)
           else if rl_sub_parallel lim < length goals then (Inr (plain_failure ''too many subtasks''), w)
           else (case ask (tf_settings f) w of
               (Inl e, w1) \<Rightarrow> (Inl e, w1)
             | (Inr _, w1) \<Rightarrow>
                 if delegable_specs catalogue = [] then (Inr (plain_failure ''no tool for subtasks''), w1)
                 else (let (bs, w') = run_branches lim f order j (delegable_specs catalogue)
                                        (branch_ids item (length goals)) w1
                       in (Inr (fold_subtasks bs), w')))))"

text \<open>\<open>perform\<close> on the main line: delegation is the runtime's own, the rest is asked for.\<close>

definition perform_main ::
    "run_limits \<Rightarrow> turn_facts \<Rightarrow> (nat \<Rightarrow> nat list) \<Rightarrow> turn_job \<Rightarrow> tool_spec list \<Rightarrow> performer" where
  "perform_main lim f order j catalogue item w =
     (if tc_name (pl_call item) = tool_run_subtasks then run_subtasks lim f order j catalogue item w
      else perform_catalogue f item w)"

end
