(* ===== verification/AiTokens.thy ===== *)
theory AiTokens
  imports Prelude
begin

section \<open>Text measured in tokens\<close>

text \<open>
  How \<open>pkg/server/airuntime\<close> prices text without a tokenizer (\<open>context.go\<close>) and cuts a summary to a price
  (\<open>compaction.go\<close>). Go's iteration over a string yields runes: \<open>runes\<close> gives their encodings, a byte that
  starts no well-formed one standing for the replacement character, as \<open>[]rune\<close> does.
\<close>

subsection \<open>Runes of a string\<close>

definition two_bytes :: "nat \<Rightarrow> nat \<Rightarrow> bool" where
  "two_bytes a b \<longleftrightarrow> between 194 223 a \<and> utf8_tail b"

definition three_bytes :: "nat \<Rightarrow> nat \<Rightarrow> nat \<Rightarrow> bool" where
  "three_bytes a b c \<longleftrightarrow> between 224 239 a
     \<and> (if a = 224 then between 160 191 b else if a = 237 then between 128 159 b else utf8_tail b) \<and> utf8_tail c"

definition four_bytes :: "nat \<Rightarrow> nat \<Rightarrow> nat \<Rightarrow> nat \<Rightarrow> bool" where
  "four_bytes a b c d \<longleftrightarrow> between 240 244 a
     \<and> (if a = 240 then between 144 191 b else if a = 244 then between 128 143 b else utf8_tail b)
     \<and> utf8_tail c \<and> utf8_tail d"

fun rune_width :: "nat list \<Rightarrow> nat" where
  "rune_width [] = 0"
| "rune_width [a] = (if a < 128 then 1 else 0)"
| "rune_width [a, b] = (if a < 128 then 1 else if two_bytes a b then 2 else 0)"
| "rune_width [a, b, c] =
     (if a < 128 then 1 else if two_bytes a b then 2 else if three_bytes a b c then 3 else 0)"
| "rune_width (a # b # c # d # r) =
     (if a < 128 then 1 else if two_bytes a b then 2 else if three_bytes a b c then 3
      else if four_bytes a b c d then 4 else 0)"

lemma multibyte_tails:
  "two_bytes a b \<Longrightarrow> 194 \<le> a \<and> utf8_tail b"
  "three_bytes a b c \<Longrightarrow> 194 \<le> a \<and> utf8_tail b \<and> utf8_tail c"
  "four_bytes a b c d \<Longrightarrow> 194 \<le> a \<and> utf8_tail b \<and> utf8_tail c \<and> utf8_tail d"
  by (auto simp: two_bytes_def three_bytes_def four_bytes_def between_def utf8_tail_def split: if_splits)

lemma list_cases_4:
  obtains "s = []" | a where "s = [a]" | a b where "s = [a, b]" | a b c where "s = [a, b, c]"
    | a b c d r where "s = a # b # c # d # r"
  by (metis list.exhaust)

abbreviation bytes :: "string \<Rightarrow> nat list" where "bytes \<equiv> map of_char"

definition replacement_rune :: string where "replacement_rune = [CHR 0xEF, CHR 0xBF, CHR 0xBD]"

function runes :: "string \<Rightarrow> string list" where
  "runes [] = []"
| "runes (c # cs) =
     (let n = rune_width (bytes (c # cs)) in
      if n = 0 then replacement_rune # runes cs else take n (c # cs) # runes (drop n (c # cs)))"
  by pat_completeness auto

termination
  by (relation "measure length") auto

text \<open>Four bytes decide; evaluation reads no more.\<close>

lemma rune_width_four: "rune_width (take 4 s) = rune_width s"
  by (cases s rule: list_cases_4) simp_all

lemma runes_code [code]:
  "runes [] = []"
  "runes (c # cs) =
     (let n = rune_width (bytes (take 4 (c # cs))) in
      if n = 0 then replacement_rune # runes cs else take n (c # cs) # runes (drop n (c # cs)))"
  using rune_width_four [of "bytes (c # cs)"]
  by (simp_all add: Let_def take_map del: rune_width.simps list.map take_Suc_Cons)

definition is_rune :: "string \<Rightarrow> bool" where
  "is_rune r \<longleftrightarrow> r \<noteq> [] \<and> rune_width (bytes r) = length r"

lemma rune_width_cases:
  "rune_width s = 0
   \<or> (\<exists>a r. s = a # r \<and> a < 128 \<and> rune_width s = 1)
   \<or> (\<exists>a b r. s = a # b # r \<and> 194 \<le> a \<and> utf8_tail b \<and> rune_width s = 2)
   \<or> (\<exists>a b c r. s = a # b # c # r \<and> 194 \<le> a \<and> utf8_tail b \<and> utf8_tail c \<and> rune_width s = 3)
   \<or> (\<exists>a b c d r. s = a # b # c # d # r \<and> 194 \<le> a \<and> utf8_tail b \<and> utf8_tail c \<and> utf8_tail d \<and> rune_width s = 4)"
  by (cases s rule: list_cases_4) (simp_all add: multibyte_tails)

lemma rune_width_append: "rune_width s \<noteq> 0 \<Longrightarrow> rune_width (s @ t) = rune_width s"
  by (cases s rule: list_cases_4; cases t rule: list_cases_4) (simp_all split: if_splits)

lemma rune_width_take: "rune_width s \<noteq> 0 \<Longrightarrow> rune_width (take (rune_width s) s) = rune_width s"
  by (cases s rule: list_cases_4) (simp_all split: if_splits)

lemma rune_width_le: "rune_width s \<le> length s"
  using rune_width_cases [of s] by auto

lemma replacement_is_rune: "is_rune replacement_rune"
  by (simp add: is_rune_def replacement_rune_def two_bytes_def three_bytes_def between_def utf8_tail_def)

lemma runes_are_runes: "list_all is_rune (runes s)"
proof (induction s rule: runes.induct)
  case (2 c cs)
  let ?n = "rune_width (bytes (c # cs))"
  show ?case
  proof (cases "?n = 0")
    case True
    with 2(1) [OF refl True] show ?thesis by (simp add: Let_def replacement_is_rune)
  next
    case False
    have le: "?n \<le> length (c # cs)" using rune_width_le [of "bytes (c # cs)"] by simp
    have "rune_width (bytes (take ?n (c # cs))) = ?n"
      using rune_width_take [OF False] by (simp only: take_map)
    then have "is_rune (take ?n (c # cs))" using le False by (simp add: is_rune_def del: rune_width.simps list.map)
    with 2(2) [OF refl False] False show ?thesis by (simp add: Let_def del: rune_width.simps list.map)
  qed
qed simp

lemma runes_of_rune: "is_rune r \<Longrightarrow> runes (r @ s) = r # runes s"
proof -
  assume r: "is_rune r"
  then obtain c cs where c: "r = c # cs" by (cases r) (auto simp: is_rune_def)
  have "rune_width (bytes (r @ s)) = length r"
    using r rune_width_append [of "bytes r" "bytes s"] by (simp add: is_rune_def del: rune_width.simps)
  then show ?thesis unfolding c by (simp add: Let_def del: rune_width.simps list.map)
qed

lemma runes_concat: "list_all is_rune rs \<Longrightarrow> runes (concat rs) = rs"
  by (induction rs) (simp_all add: runes_of_rune)

lemma runes_append: "list_all is_rune rs \<Longrightarrow> runes (concat rs @ s) = rs @ runes s"
  by (induction rs) (simp_all add: runes_of_rune)

lemma concat_runes_cases: "concat (runes s) = t \<Longrightarrow> runes t = runes s"
  using runes_concat [OF runes_are_runes] by metis

subsection \<open>Trimming cuts whole runes\<close>

lemma rune_shape:
  assumes "is_rune r"
  obtains c cs where "r = c # cs" and "\<not> utf8_tail (of_char c)" and "\<forall>x \<in> set cs. utf8_tail (of_char x)"
proof -
  from assms obtain c cs where c: "r = c # cs" by (cases r) (auto simp: is_rune_def)
  with assms have "rune_width (bytes (c # cs)) = Suc (length cs)" by (simp add: is_rune_def del: rune_width.simps)
  with rune_width_cases [of "bytes (c # cs)"]
  have "\<not> utf8_tail (of_char c) \<and> (\<forall>x \<in> set (bytes cs). utf8_tail x)"
    by (elim disjE exE conjE) (auto simp: utf8_tail_def between_def length_Suc_conv simp del: rune_width.simps)
  with c show ?thesis by (intro that) auto
qed

lemma rune_prefix:
  assumes "is_rune e" and "list_all is_rune rs" and "concat rs = e @ t"
  shows "\<exists>rs'. rs = e # rs' \<and> t = concat rs'"
proof -
  have "rs = e # runes t" using runes_concat [OF assms(2)] runes_of_rune [OF assms(1), of t] assms(3) by simp
  then show ?thesis using assms(3) by auto
qed

lemma rune_suffix:
  assumes e: "is_rune e" and rs: "list_all is_rune rs" and eq: "concat rs = t @ e"
  shows "\<exists>rs'. rs = rs' @ [e] \<and> t = concat rs'"
proof -
  obtain c cs where c: "e = c # cs" "\<not> utf8_tail (of_char c)" "\<forall>x \<in> set cs. utf8_tail (of_char x)"
    using rune_shape [OF e] .
  have "rs \<noteq> []" using eq c by auto
  then obtain rs' r where r: "rs = rs' @ [r]" by (metis rev_exhaust)
  then have "is_rune r" using rs by simp
  then obtain d ds where d: "r = d # ds" "\<not> utf8_tail (of_char d)" "\<forall>x \<in> set ds. utf8_tail (of_char x)"
    by (rule rune_shape)
  have "concat rs' @ d # ds = t @ c # cs" using eq r c d by simp
  then obtain us where "concat rs' = t @ us \<and> us @ d # ds = c # cs \<or> concat rs' @ us = t \<and> d # ds = us @ c # cs"
    by (auto simp: append_eq_append_conv2)
  then show ?thesis
  proof
    assume us: "concat rs' = t @ us \<and> us @ d # ds = c # cs"
    show ?thesis
    proof (cases us)
      case Nil
      with us r c d show ?thesis by auto
    next
      case (Cons a as)
      with us have "d \<in> set cs" by auto
      with c(3) d(2) show ?thesis by blast
    qed
  next
    assume us: "concat rs' @ us = t \<and> d # ds = us @ c # cs"
    show ?thesis
    proof (cases us)
      case Nil
      with us r c d show ?thesis by auto
    next
      case (Cons a as)
      with us have "c \<in> set ds" by auto
      with d(3) c(2) show ?thesis by blast
    qed
  qed
qed

lemma strip_one_Some: "strip_one ws s = Some t \<Longrightarrow> \<exists>w \<in> set ws. s = w @ t"
proof -
  assume a: "strip_one ws s = Some t"
  then obtain w r where f: "filter (\<lambda>w. w \<noteq> [] \<and> has_prefix s w) ws = w # r" and t: "t = drop (length w) s"
    by (auto simp: strip_one_def split: list.splits)
  then have "w \<in> set (filter (\<lambda>w. w \<noteq> [] \<and> has_prefix s w) ws)" by simp
  then show ?thesis using t by (auto simp: has_prefix_iff)
qed

lemma trim_left_runes:
  "list_all is_rune ws \<Longrightarrow> list_all is_rune rs \<Longrightarrow> s = concat rs \<Longrightarrow> \<exists>k. trim_left ws s = concat (drop k rs)"
proof (induction ws s arbitrary: rs rule: trim_left.induct)
  case (1 ws s)
  show ?case
  proof (cases "strip_one ws s")
    case None
    then have "trim_left ws s = concat (drop 0 rs)" using 1 by (simp add: trim_left_id)
    then show ?thesis ..
  next
    case (Some t)
    from strip_one_Some [OF Some] obtain w where w: "w \<in> set ws" "s = w @ t" by blast
    have "is_rune w" using w(1) 1(2) by (simp add: list_all_iff)
    from rune_prefix [OF this 1(3)] 1(4) w(2) obtain rs' where rs': "rs = w # rs'" "t = concat rs'" by metis
    have "list_all is_rune rs'" using 1(3) rs' by simp
    from 1(1) [OF Some 1(2) this rs'(2)] obtain k where "trim_left ws t = concat (drop k rs')" by blast
    then have "trim_left ws s = concat (drop (Suc k) rs)" using Some rs' by (subst trim_left.simps) simp
    then show ?thesis ..
  qed
qed

lemma trim_right_runes:
  "list_all is_rune ws \<Longrightarrow> list_all is_rune rs \<Longrightarrow> s = rev (concat rs)
     \<Longrightarrow> \<exists>k. trim_left (map rev ws) s = rev (concat (take k rs))"
proof (induction "map rev ws" s arbitrary: rs rule: trim_left.induct)
  case (1 s)
  show ?case
  proof (cases "strip_one (map rev ws) s")
    case None
    then have "trim_left (map rev ws) s = rev (concat (take (length rs) rs))" using 1 by (simp add: trim_left_id)
    then show ?thesis ..
  next
    case (Some t)
    from strip_one_Some [OF Some] obtain w where w: "w \<in> set ws" "s = rev w @ t" by auto
    have "is_rune w" using w(1) 1(2) by (simp add: list_all_iff)
    moreover have "concat rs = rev t @ w" using 1(4) w(2) by (metis rev_append rev_rev_ident)
    ultimately obtain rs' where rs': "rs = rs' @ [w]" "rev t = concat rs'" using rune_suffix 1(3) by blast
    have "list_all is_rune rs'" "t = rev (concat rs')" using 1(3) rs' by (auto simp flip: rs'(2))
    from 1(1) [OF Some 1(2) this] obtain k where "trim_left (map rev ws) t = rev (concat (take k rs'))" by blast
    then have "trim_left (map rev ws) t = rev (concat (take (min k (length rs')) rs))"
      using rs' by (simp add: min_def)
    then have "trim_left (map rev ws) s = rev (concat (take (min k (length rs')) rs))"
      using Some by (subst trim_left.simps) simp
    then show ?thesis ..
  qed
qed

lemma spaces_are_runes: "list_all is_rune space_encodings"
  by code_simp

lemma trim_space_runes:
  assumes "list_all is_rune rs"
  shows "\<exists>k m. trim_space (concat rs) = concat (take m (drop k rs))"
proof -
  obtain k where k: "trim_left space_encodings (concat rs) = concat (drop k rs)"
    using trim_left_runes [OF spaces_are_runes assms refl] by blast
  have "list_all is_rune (drop k rs)" using assms by (auto simp: list_all_iff dest: in_set_dropD)
  from trim_right_runes [OF spaces_are_runes this refl]
  obtain m where "trim_left (map rev space_encodings) (rev (concat (drop k rs))) = rev (concat (take m (drop k rs)))"
    by blast
  then have "trim_space (concat rs) = concat (take m (drop k rs))" by (simp add: trim_space_def k)
  then show ?thesis by blast
qed

subsection \<open>Prices\<close>

definition narrow :: "string \<Rightarrow> bool" where
  "narrow r \<longleftrightarrow> (case r of [c] \<Rightarrow> of_char c < (128 :: nat) | _ \<Rightarrow> False)"

definition ascii_chars_per_token :: nat where "ascii_chars_per_token = 4"

definition price :: "string list \<Rightarrow> int" where
  "price rs =
     int ((length (filter narrow rs) + ascii_chars_per_token - 1) div ascii_chars_per_token
          + length (filter (\<lambda>r. \<not> narrow r) rs))"

definition estimate_tokens :: "string \<Rightarrow> int" where
  "estimate_tokens s = price (runes s)"

lemma price_Nil [simp]: "price [] = 0"
  by (simp add: price_def ascii_chars_per_token_def)

lemma price_nonneg [simp]: "0 \<le> price rs"
  by (simp add: price_def)

lemma price_append: "price (xs @ ys) \<le> price xs + price ys"
proof -
  have "(a + b + 4 - 1) div 4 \<le> (a + 4 - 1) div 4 + (b + 4 - 1) div (4 :: nat)" for a b by linarith
  then show ?thesis by (simp add: price_def ascii_chars_per_token_def flip: of_nat_add)
qed

lemma price_mono: "price ys \<le> price (xs @ ys @ zs)"
  by (simp add: price_def ascii_chars_per_token_def div_le_mono)

lemma price_part: "price (take m (drop k rs)) \<le> price rs"
  by (metis append_take_drop_id price_mono)

lemma estimate_concat: "list_all is_rune rs \<Longrightarrow> estimate_tokens (concat rs) = price rs"
  by (simp add: estimate_tokens_def runes_concat)

lemma estimate_trim: "list_all is_rune rs \<Longrightarrow> estimate_tokens (trim_space (concat rs)) \<le> price rs"
proof -
  assume r: "list_all is_rune rs"
  from trim_space_runes [OF r] obtain k m where t: "trim_space (concat rs) = concat (take m (drop k rs))" by blast
  have "list_all is_rune (take m (drop k rs))" using r by (auto simp: list_all_iff dest: in_set_takeD in_set_dropD)
  then show ?thesis using t price_part by (simp add: estimate_concat)
qed

subsection \<open>Cutting to a price\<close>

text \<open>The binary search of \<open>prefixWithinTokens\<close> and \<open>suffixWithinTokens\<close>.\<close>

function longest_within :: "(nat \<Rightarrow> bool) \<Rightarrow> nat \<Rightarrow> nat \<Rightarrow> nat" where
  "longest_within fits low high =
     (if low < high
      then let middle = (low + high + 1) div 2 in
           if fits middle then longest_within fits middle high else longest_within fits low (middle - 1)
      else low)"
  by pat_completeness auto

termination
  by (relation "measure (\<lambda>(fits, low, high). high - low)") auto

declare longest_within.simps [simp del]

definition prefix_within_tokens :: "string \<Rightarrow> int \<Rightarrow> string" where
  "prefix_within_tokens s limit =
     (let rs = runes s in
      concat (take (longest_within (\<lambda>n. estimate_tokens (concat (take n rs)) \<le> limit) 0 (length rs)) rs))"

definition suffix_within_tokens :: "string list \<Rightarrow> int \<Rightarrow> string" where
  "suffix_within_tokens rs limit =
     concat (drop (length rs - longest_within
       (\<lambda>n. estimate_tokens (concat (drop (length rs - n) rs)) \<le> limit) 0 (length rs)) rs)"

definition summary_marker :: string where
  "summary_marker =
     [CHR 0x0A, CHR 0x0A, CHR 0x5B, CHR 0xE6, CHR 0xA3, CHR 0x80, CHR 0xE6, CHR 0x9F, CHR 0xA5, CHR 0xE7,
      CHR 0x82, CHR 0xB9, CHR 0xE4, CHR 0xB8, CHR 0xAD, CHR 0xE6, CHR 0xAE, CHR 0xB5, CHR 0xE5, CHR 0x9B,
      CHR 0xA0, CHR 0xE4, CHR 0xB8, CHR 0x8A, CHR 0xE4, CHR 0xB8, CHR 0x8B, CHR 0xE6, CHR 0x96, CHR 0x87,
      CHR 0xE9, CHR 0xA2, CHR 0x84, CHR 0xE7, CHR 0xAE, CHR 0x97, CHR 0xE5, CHR 0x8F, CHR 0x97, CHR 0xE9,
      CHR 0x99, CHR 0x90, CHR 0xE8, CHR 0x80, CHR 0x8C, CHR 0xE7, CHR 0x9C, CHR 0x81, CHR 0xE7, CHR 0x95,
      CHR 0xA5, CHR 0x5D, CHR 0x0A, CHR 0x0A]"

text \<open>The loop that takes runes off the tail while the whole is too long.\<close>

function shrink_tail :: "string \<Rightarrow> int \<Rightarrow> string \<Rightarrow> string" where
  "shrink_tail front limit t =
     (if limit < estimate_tokens (front @ t) \<and> t \<noteq> [] then shrink_tail front limit (concat (drop 1 (runes t)))
      else front @ t)"
  by pat_completeness auto

termination
proof (relation "measure (\<lambda>(front, limit, t). length (runes t))")
  fix front limit and t :: string
  assume "limit < estimate_tokens (front @ t) \<and> t \<noteq> []"
  then have "runes t \<noteq> []" by (cases t) (auto simp: Let_def)
  moreover have "list_all is_rune (drop 1 (runes t))"
    using runes_are_runes [of t] by (auto simp: list_all_iff dest: in_set_dropD)
  ultimately show "((front, limit, concat (drop 1 (runes t))), (front, limit, t)) \<in> measure (\<lambda>(front, limit, t). length (runes t))"
    by (simp add: runes_concat)
qed simp

declare shrink_tail.simps [simp del]

definition fit_summary :: "string \<Rightarrow> int \<Rightarrow> string" where
  "fit_summary value limit =
     (let v = trim_space value in
      if v = [] \<or> limit \<le> 0 then []
      else if estimate_tokens v \<le> limit then v
      else let marker_tokens = estimate_tokens summary_marker in
        if limit \<le> marker_tokens then prefix_within_tokens v limit
        else let content = limit - marker_tokens;
                 head = prefix_within_tokens v (content * 2 div 3);
                 tail = suffix_within_tokens (runes v) (content - estimate_tokens head)
             in trim_space (shrink_tail (head @ summary_marker) limit tail))"

subsection \<open>What is cut fits\<close>

lemma longest_within_fits: "fits low \<Longrightarrow> fits (longest_within fits low high)"
proof (induction fits low high rule: longest_within.induct)
  case (1 fits low high)
  let ?m = "(low + high + 1) div 2"
  show ?case
  proof (cases "low < high")
    case False
    then show ?thesis using 1(3) by (simp add: longest_within.simps [of fits low high])
  next
    case True
    show ?thesis
    proof (cases "fits ?m")
      case fits: True
      show ?thesis using 1(1) [OF True refl fits fits] True fits
        by (simp add: longest_within.simps [of fits low high] Let_def)
    next
      case no: False
      show ?thesis using 1(2) [OF True refl no 1(3)] True no
        by (simp add: longest_within.simps [of fits low high] Let_def)
    qed
  qed
qed

lemma list_all_take_drop: "list_all P xs \<Longrightarrow> list_all P (take n xs) \<and> list_all P (drop n xs)"
  by (auto simp: list_all_iff dest: in_set_takeD in_set_dropD)

lemma prefix_within:
  assumes "0 \<le> limit"
  shows "\<exists>rs. list_all is_rune rs \<and> prefix_within_tokens s limit = concat rs \<and> price rs \<le> limit"
proof -
  let ?fits = "\<lambda>n. estimate_tokens (concat (take n (runes s))) \<le> limit"
  let ?n = "longest_within ?fits 0 (length (runes s))"
  have "?fits 0" using assms by (simp add: estimate_tokens_def)
  then have f: "?fits ?n" by (rule longest_within_fits)
  have r: "list_all is_rune (take ?n (runes s))" using list_all_take_drop [OF runes_are_runes] by blast
  then have "price (take ?n (runes s)) \<le> limit" using f by (simp add: estimate_concat)
  then show ?thesis using r by (metis prefix_within_tokens_def)
qed

lemma suffix_within:
  assumes "0 \<le> limit" and rs: "list_all is_rune rs"
  shows "\<exists>ts. list_all is_rune ts \<and> suffix_within_tokens rs limit = concat ts \<and> price ts \<le> limit"
proof -
  let ?fits = "\<lambda>n. estimate_tokens (concat (drop (length rs - n) rs)) \<le> limit"
  let ?n = "longest_within ?fits 0 (length rs)"
  have "?fits 0" using assms by (simp add: estimate_tokens_def)
  then have f: "?fits ?n" by (rule longest_within_fits)
  have r: "list_all is_rune (drop (length rs - ?n) rs)" using list_all_take_drop [OF rs] by blast
  then have "price (drop (length rs - ?n) rs) \<le> limit" using f by (simp add: estimate_concat)
  then show ?thesis using r by (metis suffix_within_tokens_def)
qed

lemma marker_runes: "summary_marker = concat (runes summary_marker)"
  by code_simp

lemma marker_split: "\<exists>ms. list_all is_rune ms \<and> summary_marker = concat ms \<and> estimate_tokens summary_marker = price ms"
  using marker_runes runes_are_runes [of summary_marker] by (metis estimate_tokens_def)

text \<open>The loop changes nothing when the whole already fits.\<close>

lemma shrink_tail_fits: "estimate_tokens (front @ t) \<le> limit \<Longrightarrow> shrink_tail front limit t = front @ t"
  by (simp add: shrink_tail.simps [of front limit t])

text \<open>
  Whatever the model or the fallback wrote, what \<open>fitSummary\<close> keeps is priced at most at the limit.
\<close>

lemma summary_fits_limit: "estimate_tokens (fit_summary value limit) \<le> max 0 limit"
proof -
  define v where "v = trim_space value"
  define mt where "mt = estimate_tokens summary_marker"
  show ?thesis
  proof (cases "v = [] \<or> limit \<le> 0 \<or> estimate_tokens v \<le> limit")
    case True
    then show ?thesis
      by (auto simp: fit_summary_def v_def [symmetric] estimate_tokens_def)
  next
    case False
    then have f: "v \<noteq> []" "0 < limit" "limit < estimate_tokens v" by auto
    have "estimate_tokens (fit_summary value limit) \<le> limit"
    proof (cases "limit \<le> mt")
      case True
      then have e: "fit_summary value limit = prefix_within_tokens v limit"
        using f by (simp add: fit_summary_def v_def [symmetric] mt_def [symmetric] Let_def)
      obtain rs where "list_all is_rune rs" "prefix_within_tokens v limit = concat rs" "price rs \<le> limit"
        using prefix_within [of limit v] f by auto
      then show ?thesis unfolding e by (simp add: estimate_concat)
    next
      case False
      define content where "content = limit - mt"
      have pos: "0 < content" using False by (simp add: content_def)
      then have "0 \<le> content * 2 div 3" by simp
      from prefix_within [OF this, of v]
      obtain hs where hs: "list_all is_rune hs" "prefix_within_tokens v (content * 2 div 3) = concat hs"
        "price hs \<le> content * 2 div 3" by blast
      have "price hs \<le> content" using hs(3) pos by linarith
      then obtain ts where ts: "list_all is_rune ts"
        "suffix_within_tokens (runes v) (content - estimate_tokens (concat hs)) = concat ts"
        "price ts \<le> content - price hs"
        using suffix_within [OF _ runes_are_runes, of "content - estimate_tokens (concat hs)" v] hs(1)
        by (auto simp: estimate_concat)
      obtain ms where ms: "list_all is_rune ms" "summary_marker = concat ms" "mt = price ms"
        using marker_split by (auto simp: mt_def)
      have all: "list_all is_rune (hs @ ms @ ts)" using hs ms ts by simp
      have "price (hs @ ms @ ts) \<le> price hs + (price ms + price ts)"
        using price_append [of hs "ms @ ts"] price_append [of ms ts] by linarith
      also have "\<dots> \<le> limit" using ts(3) ms(3) by (simp add: content_def)
      finally have p: "price (hs @ ms @ ts) \<le> limit" .
      have "estimate_tokens ((concat hs @ summary_marker) @ concat ts) \<le> limit"
        using p estimate_concat [OF all] ms(2) by simp
      from shrink_tail_fits [OF this] have "fit_summary value limit = trim_space (concat (hs @ ms @ ts))"
        using f False hs(2) ts(2) ms(2)
        by (simp add: fit_summary_def v_def [symmetric] mt_def [symmetric] Let_def content_def [symmetric])
      then show ?thesis using estimate_trim [OF all] p by simp
    qed
    then show ?thesis by simp
  qed
qed

end
