(* ===== verification/AiContext.thy ===== *)
theory AiContext
  imports AiTurn AiTokens
begin

section \<open>What a model is sent\<close>

text \<open>
  \<open>pkg/server/airuntime/context.go\<close>: the trail projected into a conversation, the references a turn read, and
  the price of a request. An entry has the fields these functions read. The fixed Chinese texts put around
  a content are an argument.
\<close>

datatype entry_kind =
    KindSystem | KindInput | KindContext | KindModel | KindReasoning | KindToolCall | KindToolResult
  | KindApprovalRequest | KindApprovalDecision | KindCompaction | KindConclusion | KindError

record trail_entry =
  te_sequence :: int
  te_turn :: int
  te_kind :: entry_kind
  te_truncated :: bool
  te_text :: string
  te_tool :: string
  te_call :: string
  te_arguments :: string
  te_failed :: bool
  te_untrusted :: bool
  te_evidence :: "ai_evidence list"
  te_input_tokens :: "int option"
  te_shadowed_to :: "int option"
  te_subtask :: "string option"

record fixed_texts =
  fx_preamble :: string
  fx_context :: string
  fx_result :: string
  fx_result_cut :: string
  fx_platform :: string
  fx_summary :: string
  fx_called :: string

datatype chat_role = RoleUser | RoleAssistant | RoleTool

record chat_message =
  ms_role :: chat_role
  ms_text :: string
  ms_calls :: "tool_call list"
  ms_call_id :: string
  ms_tool :: string

definition text_message :: "chat_role \<Rightarrow> string \<Rightarrow> chat_message" where
  "text_message r text = \<lparr>ms_role = r, ms_text = text, ms_calls = [], ms_call_id = [], ms_tool = []\<rparr>"

definition branch_of :: "trail_entry \<Rightarrow> string" where
  "branch_of e = (case te_subtask e of None \<Rightarrow> [] | Some i \<Rightarrow> i)"

definition wire_call_id :: "trail_entry \<Rightarrow> string" where
  "wire_call_id e = (case te_subtask e of None \<Rightarrow> te_call e | Some i \<Rightarrow> trim_prefix (te_call e) (i @ '':''))"

subsection \<open>The surface\<close>

definition replaces :: "trail_entry \<Rightarrow> bool" where
  "replaces e \<longleftrightarrow> te_kind e = KindCompaction \<and> te_shadowed_to e \<noteq> None \<and> trim_space (te_text e) \<noteq> []"

definition newest_checkpoint :: "trail_entry list \<Rightarrow> trail_entry option" where
  "newest_checkpoint es = find replaces (rev es)"

definition surface_of :: "trail_entry list \<Rightarrow> trail_entry list \<times> trail_entry option" where
  "surface_of es =
     (case newest_checkpoint es of
        None \<Rightarrow> (es, None)
      | Some c \<Rightarrow> (filter (\<lambda>e. the (te_shadowed_to c) < te_sequence e \<and> te_kind e \<noteq> KindCompaction) es, Some c))"

subsection \<open>The conversation\<close>

definition tool_result_text :: "fixed_texts \<Rightarrow> trail_entry \<Rightarrow> string" where
  "tool_result_text tx e =
     (let text = (if trim_space (te_text e) = [] then ''(no output)'' else te_text e) in
      if te_failed e then ''[tool failed]'' @ [CHR 0x0A] @ text
      else (if \<not> te_untrusted e then fx_platform tx
            else if te_truncated e then fx_result_cut tx else fx_result tx) @ [CHR 0x0A] @ text)"

record chat_projection =
  pj_messages :: "chat_message list"
  pj_assistant :: "chat_message option"
  pj_results :: "chat_message list"
  pj_evidence :: "ai_evidence list"

definition flush_projection :: "chat_projection \<Rightarrow> chat_projection" where
  "flush_projection p =
     p\<lparr>pj_messages := pj_messages p @ (case pj_assistant p of None \<Rightarrow> [] | Some a \<Rightarrow> [a]) @ pj_results p,
       pj_assistant := None, pj_results := []\<rparr>"

definition project_entry :: "fixed_texts \<Rightarrow> trail_entry \<Rightarrow> chat_projection \<Rightarrow> chat_projection" where
  "project_entry tx e p =
     (case te_kind e of
        KindInput \<Rightarrow>
          (let p1 = flush_projection p in
           p1\<lparr>pj_messages := pj_messages p1 @ [text_message RoleUser (te_text e)],
              pj_evidence := pj_evidence p1 @ te_evidence e\<rparr>)
      | KindContext \<Rightarrow>
          (let p1 = flush_projection p in
           p1\<lparr>pj_messages := pj_messages p1 @ [text_message RoleUser (fx_context tx @ te_text e)],
              pj_evidence := pj_evidence p1 @ te_evidence e\<rparr>)
      | KindModel \<Rightarrow> (flush_projection p)\<lparr>pj_assistant := Some (text_message RoleAssistant (te_text e))\<rparr>
      | KindToolCall \<Rightarrow>
          (let a = (case pj_assistant p of None \<Rightarrow> text_message RoleAssistant [] | Some a \<Rightarrow> a) in
           p\<lparr>pj_assistant := Some (a\<lparr>ms_calls := ms_calls a @
               [\<lparr>tc_id = wire_call_id e, tc_name = te_tool e, tc_arguments = te_arguments e\<rparr>]\<rparr>)\<rparr>)
      | KindToolResult \<Rightarrow>
          p\<lparr>pj_results := pj_results p @
              [\<lparr>ms_role = RoleTool, ms_text = tool_result_text tx e, ms_calls = [], ms_call_id = wire_call_id e,
                ms_tool = te_tool e\<rparr>],
            pj_evidence := pj_evidence p @ te_evidence e\<rparr>
      | _ \<Rightarrow> p)"

definition drop_dangling_results :: "chat_message list \<Rightarrow> chat_message list" where
  "drop_dangling_results ms =
     filter (\<lambda>m. ms_role m = RoleTool \<longrightarrow> ms_call_id m \<in> set (concat (map (map tc_id \<circ> ms_calls) ms))) ms"

definition checkpoint_message :: "fixed_texts \<Rightarrow> trail_entry \<Rightarrow> chat_message" where
  "checkpoint_message tx c = text_message RoleUser (fx_preamble tx @ [CHR 0x0A, CHR 0x0A] @ te_text c)"

definition project_surface :: "fixed_texts \<Rightarrow> trail_entry list \<Rightarrow> string \<Rightarrow> chat_projection" where
  "project_surface tx es branch =
     (let (surface, checkpoint) = surface_of es;
          start = \<lparr>pj_messages = (case checkpoint of None \<Rightarrow> [] | Some c \<Rightarrow> [checkpoint_message tx c]),
                   pj_assistant = None, pj_results = [],
                   pj_evidence = (case checkpoint of None \<Rightarrow> [] | Some c \<Rightarrow> te_evidence c)\<rparr>
      in flush_projection (fold (project_entry tx) (filter (\<lambda>e. branch_of e = branch) surface) start))"

definition build_messages ::
    "fixed_texts \<Rightarrow> trail_entry list \<Rightarrow> string \<Rightarrow> chat_message list \<times> ai_evidence list" where
  "build_messages tx es branch =
     (let p = project_surface tx es branch in (drop_dangling_results (pj_messages p), pj_evidence p))"

subsection \<open>References\<close>

definition put_evidence :: "ai_evidence \<Rightarrow> ai_evidence list \<Rightarrow> ai_evidence list" where
  "put_evidence e es =
     (if evidence_key e \<in> evidence_key ` set es
      then map (\<lambda>x. if evidence_key x = evidence_key e then e else x) es else es @ [e])"

definition turn_evidence :: "trail_entry list \<Rightarrow> int \<Rightarrow> ai_evidence list" where
  "turn_evidence es turn =
     fold put_evidence (concat (map te_evidence (filter (\<lambda>e. te_turn e = turn) es))) []"

subsection \<open>Prices\<close>

definition role_overhead_tokens :: int where "role_overhead_tokens = 4"
definition block_overhead_tokens :: int where "block_overhead_tokens = 4"

definition entry_tokens :: "fixed_texts \<Rightarrow> trail_entry \<Rightarrow> int" where
  "entry_tokens tx e =
     (if branch_of e \<noteq> [] then 0
      else case te_kind e of
        KindInput \<Rightarrow> estimate_tokens (te_text e) + role_overhead_tokens
      | KindContext \<Rightarrow> estimate_tokens (te_text e) + role_overhead_tokens
      | KindModel \<Rightarrow> estimate_tokens (te_text e) + role_overhead_tokens
      | KindToolCall \<Rightarrow> estimate_tokens (te_tool e) + estimate_tokens (te_arguments e) + block_overhead_tokens
      | KindToolResult \<Rightarrow> estimate_tokens (tool_result_text tx e) + role_overhead_tokens
      | _ \<Rightarrow> 0)"

record tool_definition =
  td_name :: string
  td_description :: string
  td_parameters :: string

definition tool_definition_tokens :: "tool_definition list \<Rightarrow> int" where
  "tool_definition_tokens ds =
     sum_list (map (\<lambda>d. estimate_tokens (td_name d) + estimate_tokens (td_description d)
       + estimate_tokens (td_parameters d) + block_overhead_tokens) ds)"

definition messages_tokens :: "chat_message list \<Rightarrow> int" where
  "messages_tokens ms =
     sum_list (map (\<lambda>m. estimate_tokens (ms_text m) + role_overhead_tokens
       + sum_list (map (\<lambda>c. estimate_tokens (tc_name c) + estimate_tokens (tc_arguments c) + block_overhead_tokens)
           (ms_calls m))) ms)"

record pressure =
  pr_system :: int
  pr_tools :: int
  pr_messages :: int
  pr_total :: int
  pr_measured :: bool

definition measure_messages :: "chat_message list \<Rightarrow> string \<Rightarrow> tool_definition list \<Rightarrow> pressure" where
  "measure_messages ms system tools =
     (let s = estimate_tokens system + role_overhead_tokens; t = tool_definition_tokens tools; m = messages_tokens ms
      in \<lparr>pr_system = s, pr_tools = t, pr_messages = m, pr_total = s + t + m, pr_measured = False\<rparr>)"

definition usage_anchor :: "trail_entry list \<Rightarrow> trail_entry option" where
  "usage_anchor surface =
     find (\<lambda>e. branch_of e = [] \<and> te_kind e = KindModel
             \<and> (case te_input_tokens e of None \<Rightarrow> False | Some n \<Rightarrow> 0 < n)) (rev surface)"

definition measure_request :: "fixed_texts \<Rightarrow> trail_entry list \<Rightarrow> string \<Rightarrow> tool_definition list \<Rightarrow> pressure" where
  "measure_request tx es system tools =
     (let (surface, checkpoint) = surface_of es; p = measure_messages (fst (build_messages tx es [])) system tools in
      case usage_anchor surface of
        None \<Rightarrow> p
      | Some a \<Rightarrow>
          (if (case checkpoint of None \<Rightarrow> False | Some c \<Rightarrow> te_sequence a < te_sequence c) then p
           else let measured = the (te_input_tokens a)
                  + sum_list (map (entry_tokens tx) (filter (\<lambda>e. te_sequence a \<le> te_sequence e) surface)) in
             if measured < pr_total p then p else p\<lparr>pr_total := measured, pr_measured := True\<rparr>))"

end
