(* ===== verification/AiCompaction.thy ===== *)
theory AiCompaction
  imports AiContext
begin

section \<open>Compacting a conversation\<close>

text \<open>
  \<open>pkg/server/airuntime/compaction.go\<close> and \<open>prepare\<close> of \<open>runtime.go\<close>. The answers of the model asked for a
  summary are an argument, one for each attempt; the ratios of the configuration are functions of the
  window; live signals are left out.
\<close>

record compaction_plan =
  cp_shadowed :: "trail_entry list"
  cp_retained_tokens :: int
  cp_before_tokens :: int
  cp_checkpoint :: "trail_entry option"

text \<open>The loop that grows the tail from the end: the index it starts at and what it costs.\<close>

fun grow_tail :: "fixed_texts \<Rightarrow> trail_entry list \<Rightarrow> int \<Rightarrow> nat \<Rightarrow> int \<Rightarrow> nat \<times> int" where
  "grow_tail tx surface retain 0 retained = (0, retained)"
| "grow_tail tx surface retain (Suc i) retained =
     (if retain \<le> retained then (Suc i, retained)
      else grow_tail tx surface retain i (retained + entry_tokens tx (surface ! i)))"

definition inside_step :: "entry_kind \<Rightarrow> bool" where
  "inside_step k \<longleftrightarrow>
     k \<in> {KindToolCall, KindToolResult, KindApprovalRequest, KindApprovalDecision, KindReasoning, KindSystem, KindError}"

fun walk_back :: "trail_entry list \<Rightarrow> nat \<Rightarrow> nat" where
  "walk_back surface 0 = 0"
| "walk_back surface (Suc i) = (if inside_step (te_kind (surface ! Suc i)) then walk_back surface i else Suc i)"

definition step_boundary :: "trail_entry list \<Rightarrow> nat \<Rightarrow> nat" where
  "step_boundary surface keep_from =
     (if length surface \<le> keep_from then length surface else walk_back surface keep_from)"

definition plan_compaction :: "fixed_texts \<Rightarrow> trail_entry list \<Rightarrow> int \<Rightarrow> int \<Rightarrow> compaction_plan option" where
  "plan_compaction tx es retain max_retained =
     (let (surface, checkpoint) = surface_of es in
      if surface = [] then None
      else let before = messages_tokens (fst (build_messages tx es []));
               (start, retained) = grow_tail tx surface retain (length surface) 0;
               keep = step_boundary surface start;
               all = \<lparr>cp_shadowed = surface, cp_retained_tokens = 0, cp_before_tokens = before, cp_checkpoint = checkpoint\<rparr>
           in
           if keep = 0 then (if checkpoint = None \<and> retained \<le> max_retained then None else Some all)
           else let kept = sum_list (map (entry_tokens tx) (drop keep surface)) in
             Some (if max_retained < kept then all
                   else all\<lparr>cp_shadowed := take keep surface, cp_retained_tokens := kept\<rparr>))"

subsection \<open>Budgets\<close>

record context_budget =
  cb_window :: int
  cb_max_output :: int
  cb_threshold :: int
  cb_retain :: int

record compaction_config =
  cc_threshold :: "int \<Rightarrow> int"
  cc_retain :: "int \<Rightarrow> int"
  cc_max_summary :: int
  cc_retries :: nat

definition message_capacity :: "context_budget \<Rightarrow> string \<Rightarrow> tool_definition list \<Rightarrow> int" where
  "message_capacity b system tools =
     max 0 (cb_window b - cb_max_output b
            - (estimate_tokens system + role_overhead_tokens + tool_definition_tokens tools) - 1)"

definition budget_for :: "compaction_config \<Rightarrow> int \<Rightarrow> int \<Rightarrow> context_budget" where
  "budget_for cfg window max_output =
     (let threshold = min (cc_threshold cfg window) (window - max_output);
          retain = cc_retain cfg window
      in \<lparr>cb_window = window, cb_max_output = max_output, cb_threshold = threshold,
          cb_retain = (if threshold \<le> retain then (if threshold < 0 then - (- threshold div 2) else threshold div 2)
                       else retain)\<rparr>)"

definition retain_for :: "fixed_texts \<Rightarrow> trail_entry list \<Rightarrow> context_budget \<Rightarrow> bool \<Rightarrow> int" where
  "retain_for tx es b overflow =
     (if \<not> overflow then cb_retain b
      else min (cb_retain b) (messages_tokens (fst (build_messages tx es [])) div 2))"

definition plan_evidence :: "compaction_plan \<Rightarrow> ai_evidence list" where
  "plan_evidence p =
     first_evidence (concat (map te_evidence
       ((case cp_checkpoint p of None \<Rightarrow> [] | Some c \<Rightarrow> [c]) @ cp_shadowed p)))"

subsection \<open>The summary\<close>

datatype summary_attempt = SummaryCancelled | SummaryFailed bool | SummaryText string

definition role_text :: "chat_role \<Rightarrow> string" where
  "role_text r = (case r of RoleUser \<Rightarrow> ''user'' | RoleAssistant \<Rightarrow> ''assistant'' | RoleTool \<Rightarrow> ''tool'')"

definition mechanical_summary :: "fixed_texts \<Rightarrow> chat_message list \<Rightarrow> string" where
  "mechanical_summary tx ms =
     fx_summary tx @ concat (map (\<lambda>m.
       (let text = trim_space (ms_text m) in
        if text \<noteq> [] then ''['' @ role_text (ms_role m) @ '']'' @ [CHR 0x0A] @ text @ [CHR 0x0A]
        else concat (map (\<lambda>c. ''['' @ role_text (ms_role m) @ fx_called tx @ tc_name c @ '']'' @ [CHR 0x0A]) (ms_calls m)))) ms)"

text \<open>Attempts until one answers with text, one fails for good, the turn is cancelled or they are used up.\<close>

fun model_summary :: "summary_attempt list \<Rightarrow> nat \<Rightarrow> string option" where
  "model_summary [] n = None"
| "model_summary (a # as) 0 = None"
| "model_summary (a # as) (Suc n) =
     (case a of
        SummaryCancelled \<Rightarrow> None
      | SummaryFailed retryable \<Rightarrow> if retryable then model_summary as n else None
      | SummaryText t \<Rightarrow> if trim_space t \<noteq> [] then Some (trim_space t) else model_summary as n)"

definition summarize :: "fixed_texts \<Rightarrow> compaction_config \<Rightarrow> summary_attempt list \<Rightarrow> compaction_plan \<Rightarrow> string" where
  "summarize tx cfg attempts p =
     (let ms = (case cp_checkpoint p of None \<Rightarrow> [] | Some c \<Rightarrow> [checkpoint_message tx c])
               @ fst (build_messages tx (cp_shadowed p) [])
      in if ms = [] then []
         else case model_summary attempts (Suc (cc_retries cfg)) of
           Some t \<Rightarrow> t
         | None \<Rightarrow> mechanical_summary tx ms)"

definition minimum_checkpoint_summary_tokens :: int where "minimum_checkpoint_summary_tokens = 1024"

record compaction_record =
  cr_summary :: string
  cr_evidence :: "ai_evidence list"
  cr_before :: int
  cr_after :: int
  cr_retained :: int
  cr_from :: int
  cr_to :: int

definition preamble_text :: "fixed_texts \<Rightarrow> string" where
  "preamble_text tx = fx_preamble tx @ [CHR 0x0A, CHR 0x0A]"

definition compact ::
    "fixed_texts \<Rightarrow> compaction_config \<Rightarrow> summary_attempt list \<Rightarrow> trail_entry list \<Rightarrow> context_budget \<Rightarrow> bool
       \<Rightarrow> string \<Rightarrow> tool_definition list \<Rightarrow> compaction_record option" where
  "compact tx cfg attempts es b overflow system tools =
     (let available = message_capacity b system tools - (estimate_tokens (preamble_text tx) + role_overhead_tokens) in
      if available \<le> 0 then None
      else let reserve = min (cc_max_summary cfg) (min available minimum_checkpoint_summary_tokens);
               max_retained = available - reserve
           in case plan_compaction tx es (min (retain_for tx es b overflow) max_retained) max_retained of
             None \<Rightarrow> None
           | Some p \<Rightarrow>
               (let limit = min (cc_max_summary cfg) (available - cp_retained_tokens p);
                    written = summarize tx cfg attempts p
                in if trim_space written = [] then None
                   else let summary = fit_summary written limit;
                            after = estimate_tokens (preamble_text tx @ summary) + role_overhead_tokens + cp_retained_tokens p
                        in if cp_before_tokens p \<le> after then None
                           else Some \<lparr>cr_summary = summary, cr_evidence = plan_evidence p,
                                      cr_before = cp_before_tokens p, cr_after = after,
                                      cr_retained = cp_retained_tokens p,
                                      cr_from = te_sequence (hd (cp_shadowed p)),
                                      cr_to = te_sequence (last (cp_shadowed p))\<rparr>))"

text \<open>The entry \<open>append\<close> writes, with the next sequence of the trail.\<close>

definition checkpoint_entry :: "int \<Rightarrow> int \<Rightarrow> compaction_record \<Rightarrow> trail_entry" where
  "checkpoint_entry sequence turn r =
     \<lparr>te_sequence = sequence, te_turn = turn, te_kind = KindCompaction, te_truncated = False, te_text = cr_summary r,
      te_tool = [], te_call = [], te_arguments = [], te_failed = False, te_untrusted = False,
      te_evidence = cr_evidence r, te_input_tokens = None, te_shadowed_to = Some (cr_to r), te_subtask = None\<rparr>"

definition prepare_request ::
    "fixed_texts \<Rightarrow> compaction_config \<Rightarrow> summary_attempt list \<Rightarrow> trail_entry list \<Rightarrow> context_budget \<Rightarrow> int \<Rightarrow> int
       \<Rightarrow> string \<Rightarrow> tool_definition list \<Rightarrow> (chat_message list \<times> ai_evidence list \<times> pressure) option" where
  "prepare_request tx cfg attempts es b sequence turn system tools =
     (let p = measure_request tx es system tools;
          es1 = (if pr_total p < cb_threshold b then es
                 else case compact tx cfg attempts es b False system tools of
                   None \<Rightarrow> es
                 | Some r \<Rightarrow> es @ [checkpoint_entry sequence turn r]);
          p1 = measure_request tx es1 system tools
      in if cb_window b \<le> pr_total p1 + cb_max_output b then None
         else Some (fst (build_messages tx es1 []), turn_evidence es1 turn, p1))"

end
