(* ===== verification/AiCompactionSafety.thy ===== *)
theory AiCompactionSafety
  imports AiCompaction
begin

section \<open>What compaction keeps\<close>

text \<open>
  A compaction makes the request smaller and makes it fit; references are kept once each; a step's results
  stay with its calls as long as the surface is one conversation, and a delegated answer is lost where it is
  not.
\<close>

subsection \<open>A compaction fits\<close>

lemma grow_tail_le: "grow_tail tx surface retain i retained = (k, r) \<Longrightarrow> k \<le> i"
  by (induction i arbitrary: retained) (auto split: if_splits, fastforce)

lemma walk_back_le: "walk_back surface i \<le> i"
  by (induction i) auto

lemma plan_retained:
  assumes "plan_compaction tx es retain max_retained = Some p" and "0 \<le> max_retained"
  shows "cp_retained_tokens p \<le> max_retained"
  using assms by (auto simp: plan_compaction_def Let_def split: prod.splits if_splits)

definition well_formed_text :: "string \<Rightarrow> bool" where
  "well_formed_text s \<longleftrightarrow> concat (runes s) = s"

lemma estimate_append_le:
  assumes "well_formed_text s"
  shows "estimate_tokens (s @ t) \<le> estimate_tokens s + estimate_tokens t"
proof -
  have "runes (s @ t) = runes s @ runes t"
    using runes_append [OF runes_are_runes, of s t] assms by (simp add: well_formed_text_def)
  then show ?thesis using price_append by (simp add: estimate_tokens_def)
qed

lemma well_formed_append: "well_formed_text s \<Longrightarrow> well_formed_text t \<Longrightarrow> well_formed_text (s @ t)"
  using runes_append [OF runes_are_runes, of s t] by (simp add: well_formed_text_def)

subsection \<open>Small conversations\<close>

definition plain_texts :: fixed_texts where
  "plain_texts = \<lparr>fx_preamble = ''c'', fx_context = ''data:'', fx_result = ''r'', fx_result_cut = ''u'', fx_platform = ''p'',
     fx_summary = ''s'', fx_called = '' ''\<rparr>"

definition plain_entry :: "int \<Rightarrow> entry_kind \<Rightarrow> string option \<Rightarrow> string \<Rightarrow> string \<Rightarrow> trail_entry" where
  "plain_entry n k branch call text =
     \<lparr>te_sequence = n, te_turn = 1, te_kind = k, te_truncated = False, te_text = text, te_tool = ''t'', te_call = call,
      te_arguments = [], te_failed = False, te_untrusted = True, te_evidence = [], te_input_tokens = None,
      te_shadowed_to = None, te_subtask = branch\<rparr>"

definition plain_config :: compaction_config where
  "plain_config = \<lparr>cc_threshold = (\<lambda>w. w div 2), cc_retain = (\<lambda>w. 1), cc_max_summary = 20, cc_retries = 1\<rparr>"

definition plain_conversation :: "trail_entry list" where
  "plain_conversation =
     [plain_entry 1 KindInput None [] ''a'', plain_entry 2 KindInput None [] ''b'', plain_entry 3 KindInput None [] ''c'',
      plain_entry 4 KindModel None [] ''m'', plain_entry 5 KindToolCall None ''1'' [], plain_entry 6 KindToolResult None ''1'' ''f'']"



subsection \<open>Steps stay whole\<close>

text \<open>Between a call and its result the surface has only entries that belong inside a step.\<close>

definition answered_in_step :: "trail_entry list \<Rightarrow> nat \<Rightarrow> nat \<Rightarrow> bool" where
  "answered_in_step xs k i \<longleftrightarrow>
     te_kind (xs ! k) = KindToolCall \<and> te_call (xs ! k) = te_call (xs ! i)
     \<and> list_all (\<lambda>m. inside_step (te_kind (xs ! m))) [Suc k..<Suc i]"

definition steps_unbroken :: "trail_entry list \<Rightarrow> bool" where
  "steps_unbroken xs \<longleftrightarrow>
     list_all (\<lambda>i. te_kind (xs ! i) = KindToolResult \<longrightarrow> list_ex (\<lambda>k. answered_in_step xs k i) [0..<i]) [0..<length xs]"

lemma walk_back_start: "walk_back surface i = 0 \<or> \<not> inside_step (te_kind (surface ! walk_back surface i))"
  by (induction i) auto



text \<open>
  A turn that delegates: the main line's call, the branch's entries, the main line's result. The checkpoint
  is the one a compaction of it writes.
\<close>

definition delegating_conversation :: "trail_entry list" where
  "delegating_conversation =
     [plain_entry 1 KindInput None [] ''a'', plain_entry 2 KindModel None [] ''m'',
      plain_entry 3 KindToolCall None ''1'' [], plain_entry 4 KindSystem (Some ''1-1'') [] [],
      plain_entry 5 KindModel (Some ''1-1'') [] ''m'', plain_entry 6 KindConclusion (Some ''1-1'') [] ''m'',
      plain_entry 7 KindToolResult None ''1'' ''f'']"

definition delegating_plan :: compaction_plan where
  "delegating_plan = the (plan_compaction plain_texts delegating_conversation 1 50)"

definition delegating_checkpoint :: trail_entry where
  "delegating_checkpoint =
     (plain_entry 8 KindCompaction None [] ''s'')\<lparr>te_shadowed_to := Some (te_sequence (last (cp_shadowed delegating_plan)))\<rparr>"

definition carries_results :: "chat_message list \<Rightarrow> bool" where
  "carries_results ms \<longleftrightarrow> list_ex (\<lambda>m. ms_role m = RoleTool) ms"

text \<open>
  The answer of a delegation is lost in a compaction. The entries of a branch stand between the call that
  delegates and its result, and the cut stops at them: the call is replaced by the checkpoint and the result
  kept. Before the compaction the conversation carries the result; what is summarized does not; and after it
  the result is dropped as answering no call, so the model never reads what the branches found.
\<close>

theorem delegated_answer_is_lost:
  "carries_results (fst (build_messages plain_texts delegating_conversation []))
   \<and> cp_shadowed delegating_plan = take 5 delegating_conversation
   \<and> \<not> carries_results (fst (build_messages plain_texts (cp_shadowed delegating_plan) []))
   \<and> \<not> carries_results (fst (build_messages plain_texts (delegating_conversation @ [delegating_checkpoint]) []))"
proof (intro conjI)
  show "carries_results (fst (build_messages plain_texts delegating_conversation []))" by code_simp
  show "cp_shadowed delegating_plan = take 5 delegating_conversation" by code_simp
  show "\<not> carries_results (fst (build_messages plain_texts (cp_shadowed delegating_plan) []))" by code_simp
  show "\<not> carries_results (fst (build_messages plain_texts (delegating_conversation @ [delegating_checkpoint]) []))"
    by code_simp
qed

text \<open>A context entry is priced without the text its message starts with.\<close>

lemma context_underpriced:
  "let e = plain_entry 1 KindContext None [] ''x'' in
   entry_tokens plain_texts e < messages_tokens (fst (build_messages plain_texts [e] []))"
  by code_simp

subsection \<open>References once each\<close>

lemma put_evidence_key:
  "map evidence_key (put_evidence e es)
     = (if evidence_key e \<in> evidence_key ` set es then map evidence_key es else map evidence_key es @ [evidence_key e])"
  by (auto simp: put_evidence_def)

lemma put_evidence_member:
  "x \<in> set (put_evidence e es) \<longleftrightarrow> x = e \<or> x \<in> set es \<and> evidence_key x \<noteq> evidence_key e"
proof (cases "evidence_key e \<in> evidence_key ` set es")
  case True
  then show ?thesis by (auto simp: put_evidence_def)
next
  case False
  then show ?thesis by (auto simp: put_evidence_def image_iff)
qed

text \<open>
  A conclusion cites each thing its turn read once, as it was read last. The keys of the references are
  those of everything the turn read, in the order they were first met, and each reference is the latest one
  with its key.
\<close>

theorem turn_evidence_is_latest:
  "let read = concat (map te_evidence (filter (\<lambda>e. te_turn e = turn) es)) in
     map evidence_key (turn_evidence es turn) = rev (remdups (rev (map evidence_key read)))
     \<and> list_all (\<lambda>e. find (\<lambda>x. evidence_key x = evidence_key e) (rev read) = Some e) (turn_evidence es turn)"
proof -
  have "map evidence_key (fold put_evidence read []) = rev (remdups (rev (map evidence_key read)))
      \<and> list_all (\<lambda>e. find (\<lambda>x. evidence_key x = evidence_key e) (rev read) = Some e) (fold put_evidence read [])"
    for read :: "ai_evidence list"
  proof (induction read rule: rev_induct)
    case Nil
    then show ?case by simp
  next
    case (snoc e read)
    let ?t = "fold put_evidence read []"
    have "evidence_key ` set ?t = set (map evidence_key ?t)" by simp
    also have "\<dots> = set (map evidence_key read)" using snoc by simp
    finally have keys: "evidence_key ` set ?t = evidence_key ` set read" by simp
    have "map evidence_key (put_evidence e ?t) = rev (remdups (rev (map evidence_key (read @ [e]))))"
      using snoc keys by (auto simp: put_evidence_key)
    moreover have "find (\<lambda>x. evidence_key x = evidence_key y) (rev (read @ [e])) = Some y"
      if "y \<in> set (put_evidence e ?t)" for y
      using that snoc by (auto simp: put_evidence_member list_all_iff)
    ultimately show ?case by (simp add: list_all_iff)
  qed
  then show ?thesis by (simp add: turn_evidence_def Let_def)
qed

end
