(* ===== verification/AiTurnSafety.thy ===== *)
theory AiTurnSafety
  imports AiTurn
begin

section \<open>What an AIOps turn may do\<close>

text \<open>
  A call is performed only when a check of every permission it declares succeeded before, and where the
  mode of the step asks for a person, after that person's approval; a delegation performs only reads; a
  turn ends exactly once.
\<close>

subsection \<open>Questions only move the instant\<close>

definition same_record :: "turn_world \<Rightarrow> turn_world \<Rightarrow> bool" where
  "same_record w w' \<longleftrightarrow>
     tw_now w \<le> tw_now w' \<and> tw_trail w' = tw_trail w \<and> tw_audits w' = tw_audits w
     \<and> tw_performed w' = tw_performed w \<and> tw_finished w' = tw_finished w"

lemma same_record_refl [simp]: "same_record w w"
  by (simp add: same_record_def)

lemma same_record_trans: "same_record a b \<Longrightarrow> same_record b c \<Longrightarrow> same_record a c"
  by (auto simp: same_record_def)

lemma ask_eq: "ask f w = (r, w') \<longleftrightarrow> r = f (tw_now w) \<and> w' = w\<lparr>tw_now := Suc (tw_now w)\<rparr>"
  by (auto simp: ask_def)

lemma ask_same [simp]: "same_record w (w\<lparr>tw_now := Suc (tw_now w)\<rparr>)"
  by (simp add: same_record_def)

lemma missing_permission_same: "same_record w (snd (missing_permission f j ps w))"
proof (induction ps arbitrary: w)
  case (Cons p ps)
  show ?case
    using Cons.IH [of "w\<lparr>tw_now := Suc (tw_now w)\<rparr>"] same_record_trans [OF ask_same]
    by (auto simp: ask_def Let_def split: prod.splits)
qed simp

lemma authorize_tool_same: "authorize_tool f j s w = (r, w') \<Longrightarrow> same_record w w'"
  using missing_permission_same [of w f j "ts_permissions s"]
  by (auto simp: authorize_tool_def split: prod.splits option.splits)

lemma revalidate_same: "revalidate_turn f j w = (r, w') \<Longrightarrow> same_record w w'"
  by (auto simp: revalidate_turn_def authorize_target_def ask_def same_record_def split: if_splits)

lemma evidence_same: "authorize_evidence f j e w = (r, w') \<Longrightarrow> same_record w w'"
  by (auto simp: authorize_evidence_def ask_def split: if_splits option.splits)

lemma visible_evidence_same: "visible_evidence f j es w = (r, w') \<Longrightarrow> same_record w w'"
  by (induction es arbitrary: w r w')
     (auto simp: Let_def split: prod.splits dest: evidence_same intro: same_record_trans)

lemma visible_view_same: "visible_view f j v w = (r, w') \<Longrightarrow> same_record w w'"
  by (auto simp: visible_view_def Let_def split: option.splits prod.splits dest: evidence_same)

lemma current_mode_same: "current_mode f w = (m, w') \<Longrightarrow> same_record w w'"
  by (auto simp: current_mode_def ask_def)

subsection \<open>Clearance\<close>

text \<open>All permissions granted, asked one after the other from an instant.\<close>

definition granted :: "turn_facts \<Rightarrow> turn_job \<Rightarrow> string list \<Rightarrow> nat \<Rightarrow> bool" where
  "granted f j ps t \<longleftrightarrow> (\<forall>i < length ps. ai_scope_ok j (tf_cluster f (t + i) (ps ! i)))"

lemma missing_permission_None:
  "missing_permission f j ps w = (None, w') \<Longrightarrow> granted f j ps (tw_now w) \<and> tw_now w' = tw_now w + length ps"
proof (induction ps arbitrary: w)
  case Nil
  then show ?case by (simp add: granted_def)
next
  case (Cons p ps)
  let ?w = "w\<lparr>tw_now := Suc (tw_now w)\<rparr>"
  have ok: "ai_scope_ok j (tf_cluster f (tw_now w) p)" and rest: "missing_permission f j ps ?w = (None, w')"
    using Cons.prems by (auto simp: ask_def Let_def split: if_splits)
  from Cons.IH [OF rest] have g: "granted f j ps (Suc (tw_now w))" and n: "tw_now w' = Suc (tw_now w) + length ps"
    by simp_all
  have "ai_scope_ok j (tf_cluster f (tw_now w + i) ((p # ps) ! i))" if "i < length (p # ps)" for i
    using ok g that by (cases i) (auto simp: granted_def)
  with n show ?case by (simp add: granted_def)
qed

definition tool_granted :: "turn_facts \<Rightarrow> turn_job \<Rightarrow> tool_spec \<Rightarrow> nat \<Rightarrow> bool" where
  "tool_granted f j s t \<longleftrightarrow>
     granted f j (ts_permissions s) t \<and> (ts_permissions s \<noteq> [] \<or> ts_conditional s \<noteq> [])"

lemma authorize_tool_True:
  "authorize_tool f j s w = ((True, m), w') \<Longrightarrow>
     tool_granted f j s (tw_now w) \<and> tw_now w' = tw_now w + length (ts_permissions s)"
  by (auto simp: authorize_tool_def tool_granted_def split: prod.splits option.splits dest: missing_permission_None)

text \<open>An account that is active and may run AIOps on the cluster, at two consecutive instants.\<close>

definition account_standing :: "turn_facts \<Rightarrow> turn_job \<Rightarrow> nat \<Rightarrow> bool" where
  "account_standing f j t \<longleftrightarrow> tf_active f t = Inr True \<and> ai_scope_ok j (tf_cluster f (Suc t) permission_ai_run)"

lemma revalidate_True: "revalidate_turn f j w = (True, w') \<Longrightarrow> account_standing f j (tw_now w) \<and> tw_now w' = tw_now w + 2"
  by (auto simp: revalidate_turn_def authorize_target_def ask_def account_standing_def split: if_splits)

text \<open>
  What a call was cleared on before an instant: its tool is in the catalogue, its permissions were all
  granted, and if \<open>mode\<close> asks for a person, somebody answered something other than a denial, the account
  was found standing after that, and the permissions were asked again after that.
\<close>

definition cleared ::
    "turn_facts \<Rightarrow> turn_job \<Rightarrow> tool_spec list \<Rightarrow> approval_mode \<Rightarrow> tool_call \<Rightarrow> tool_spec \<Rightarrow> nat \<Rightarrow> bool" where
  "cleared f j specs mode c s t \<longleftrightarrow>
     find_spec specs (tc_name c) = Some s
     \<and> (\<exists>t1. tool_granted f j s t1 \<and> t1 + length (ts_permissions s) \<le> t
          \<and> (requires_approval_for s mode (tc_arguments c) \<longrightarrow>
               (\<exists>t0 d. tf_answer f t0 c = Answered d \<and> d \<noteq> ''denied'' \<and> account_standing f j (Suc t0) \<and> t0 + 2 < t1)))"

lemma cleared_later: "cleared f j specs mode c s t \<Longrightarrow> t \<le> t' \<Longrightarrow> cleared f j specs mode c s t'"
  unfolding cleared_def by (meson le_trans)

definition item_cleared :: "turn_facts \<Rightarrow> turn_job \<Rightarrow> tool_spec list \<Rightarrow> approval_mode \<Rightarrow> nat \<Rightarrow> planned_call \<Rightarrow> bool" where
  "item_cleared f j specs mode t item \<longleftrightarrow>
     (pl_run item \<longrightarrow> (\<exists>s. pl_spec item = Some s \<and> cleared f j specs mode (pl_call item) s t))"

text \<open>Entries are appended and nothing is performed while calls are admitted.\<close>

definition nothing_performed :: "turn_world \<Rightarrow> turn_world \<Rightarrow> bool" where
  "nothing_performed w w' \<longleftrightarrow>
     tw_now w \<le> tw_now w' \<and> tw_performed w' = tw_performed w \<and> tw_finished w' = tw_finished w"

lemma nothing_performed_trans: "nothing_performed a b \<Longrightarrow> nothing_performed b c \<Longrightarrow> nothing_performed a c"
  by (auto simp: nothing_performed_def)

lemma same_nothing: "same_record w w' \<Longrightarrow> nothing_performed w w'"
  by (simp add: same_record_def nothing_performed_def)

lemma append_nothing [simp]:
  "tw_now (append_trail j b w) = tw_now w" "tw_performed (append_trail j b w) = tw_performed w"
  "tw_finished (append_trail j b w) = tw_finished w" "tw_audits (append_trail j b w) = tw_audits w"
  by (simp_all add: append_trail_def)

lemma record_call_nothing [simp]:
  "tw_now (record_call j st c tg a w) = tw_now w" "tw_performed (record_call j st c tg a w) = tw_performed w"
  "tw_finished (record_call j st c tg a w) = tw_finished w" "tw_audits (record_call j st c tg a w) = tw_audits w"
  by (simp_all add: record_call_def)

lemma record_tool_audit_nothing [simp]:
  "tw_now (record_tool_audit lim st c s tg r m w) = tw_now w" "tw_performed (record_tool_audit lim st c s tg r m w) = tw_performed w"
  "tw_finished (record_tool_audit lim st c s tg r m w) = tw_finished w"
  "tw_trail (record_tool_audit lim st c s tg r m w) = tw_trail w"
  by (simp_all add: record_tool_audit_def)

lemma await_nothing:
  assumes "await_approval f j st c m tg w = (r, w')"
  shows "nothing_performed w w'"
    and "r = Inr d \<Longrightarrow> tf_answer f (tw_now w) c = Answered d \<and> tw_now w' = Suc (tw_now w)"
  using assms by (auto simp: await_approval_def ask_def nothing_performed_def split: approval_answer.splits)

lemma admit_cleared_result:
  assumes "admit_cleared lim j st c s tg rep w = (item, seen, w')"
  shows "nothing_performed w w'" and "tw_now w' = tw_now w" and "pl_run item \<Longrightarrow> pl_spec item = Some s \<and> pl_call item = c"
  using assms
  by (auto simp: admit_cleared_def Let_def nothing_performed_def not_run_def split: option.splits if_splits)

lemma refuse_call_result:
  assumes "refuse_call lim j st c s tg m w = (item, w')"
  shows "nothing_performed w w'" and "\<not> pl_run item"
  using assms by (auto simp: refuse_call_def nothing_performed_def not_run_def)

lemma admit_result:
  assumes "admit lim f j st c specs mode rep w = (r, seen, w')"
  shows "nothing_performed w w' \<and> (\<forall>item. r = Inr item \<longrightarrow> item_cleared f j specs mode (tw_now w') item)"
proof (cases "find_spec specs (tc_name c)")
  case None
  then show ?thesis
    using assms by (auto simp: admit_def not_run_def item_cleared_def nothing_performed_def)
next
  case (Some s)
  let ?tg = "call_target j c (Some s)"
  obtain ok missing w1 where a: "authorize_tool f j s w = ((ok, missing), w1)" by (metis prod.collapse)
  have n1: "nothing_performed w w1" using authorize_tool_same [OF a] by (rule same_nothing)
  note step = assms [unfolded admit_def, simplified Some option.case Let_def a prod.case]
  show ?thesis
  proof (cases "ok \<and> requires_approval_for s mode (tc_arguments c)")
    case False
    show ?thesis
    proof (cases ok)
      case False
      then obtain item w2 where "refuse_call lim j st c s ?tg missing w1 = (item, w2)" by (metis prod.collapse)
      with step False show ?thesis
        using refuse_call_result nothing_performed_trans [OF n1] by (auto simp: item_cleared_def)
    next
      case True
      with False have no: "\<not> requires_approval_for s mode (tc_arguments c)" by simp
      obtain item sn w2 where ac: "admit_cleared lim j st c s ?tg rep w1 = (item, sn, w2)" by (metis prod.collapse)
      note ac' = admit_cleared_result [OF ac]
      have "tool_granted f j s (tw_now w)" and now: "tw_now w1 = tw_now w + length (ts_permissions s)"
        using authorize_tool_True a True by auto
      then have "cleared f j specs mode c s (tw_now w2)"
        using Some no ac'(2) by (auto simp: cleared_def)
      with step True no ac ac' nothing_performed_trans [OF n1] show ?thesis
        by (auto simp: item_cleared_def)
    qed
  next
    case True
    obtain d w2 where w: "await_approval f j st c mode ?tg w1 = (d, w2)" by (metis prod.collapse)
    have n2: "nothing_performed w w2" by (rule nothing_performed_trans [OF n1 await_nothing(1) [OF w]])
    show ?thesis
    proof (cases d)
      case (Inl e)
      with step True w n2 show ?thesis by auto
    next
      case (Inr x)
      note ans = await_nothing(2) [OF w Inr]
      show ?thesis
      proof (cases "x = ''denied''")
        case True
        with step \<open>ok \<and> _\<close> w Inr n2 show ?thesis
          by (auto simp: not_run_def item_cleared_def nothing_performed_def)
      next
        case False
        obtain v w3 where rv: "revalidate_turn f j w2 = (v, w3)" by (metis prod.collapse)
        have n3: "nothing_performed w w3" by (rule nothing_performed_trans [OF n2 same_nothing [OF revalidate_same [OF rv]]])
        show ?thesis
        proof (cases v)
          case False
          with step True w Inr \<open>x \<noteq> _\<close> rv n3 show ?thesis by auto
        next
          case v: True
          obtain ok2 missing2 w4 where a2: "authorize_tool f j s w3 = ((ok2, missing2), w4)" by (metis prod.collapse)
          have n4: "nothing_performed w w4"
            by (rule nothing_performed_trans [OF n3 same_nothing [OF authorize_tool_same [OF a2]]])
          show ?thesis
          proof (cases ok2)
            case False
            obtain item w5 where "refuse_call lim j st c s ?tg missing2 w4 = (item, w5)" by (metis prod.collapse)
            with step True w Inr \<open>x \<noteq> _\<close> rv v a2 False show ?thesis
              using refuse_call_result nothing_performed_trans [OF n4] by (auto simp: item_cleared_def)
          next
            case ok2: True
            obtain item sn w5 where ac: "admit_cleared lim j st c s ?tg rep w4 = (item, sn, w5)" by (metis prod.collapse)
            note ac' = admit_cleared_result [OF ac]
            have g: "tool_granted f j s (tw_now w3)" and now4: "tw_now w4 = tw_now w3 + length (ts_permissions s)"
              using authorize_tool_True a2 ok2 by auto
            have st2: "account_standing f j (tw_now w2)" and now3: "tw_now w3 = tw_now w2 + 2"
              using revalidate_True rv v by auto
            have "cleared f j specs mode c s (tw_now w5)"
              unfolding cleared_def
            proof (intro conjI exI impI)
              show "find_spec specs (tc_name c) = Some s" by (rule Some)
              show "tool_granted f j s (tw_now w3)" by (rule g)
              show "tw_now w3 + length (ts_permissions s) \<le> tw_now w5" using ac'(2) now4 by simp
              show "tf_answer f (tw_now w1) c = Answered x" using ans by simp
              show "x \<noteq> ''denied''" by (rule \<open>x \<noteq> _\<close>)
              show "account_standing f j (Suc (tw_now w1))" using st2 ans by simp
              show "tw_now w1 + 2 < tw_now w3" using now3 ans by simp
            qed
            with step True w Inr \<open>x \<noteq> _\<close> rv v a2 ok2 ac ac' nothing_performed_trans [OF n4] show ?thesis
              by (auto simp: item_cleared_def)
          qed
        qed
      qed
    qed
  qed
qed

lemma item_cleared_later: "item_cleared f j specs mode t item \<Longrightarrow> t \<le> t' \<Longrightarrow> item_cleared f j specs mode t' item"
  unfolding item_cleared_def using cleared_later by blast

lemma admit_all_result:
  assumes "admit_all lim f j st specs mode cs rep w = (r, seen, w')"
  shows "nothing_performed w w'
    \<and> (\<forall>items. r = Inr items \<longrightarrow> length items = length cs \<and> (\<forall>item \<in> set items. item_cleared f j specs mode (tw_now w') item))"
  using assms
proof (induction cs arbitrary: rep w r seen w')
  case Nil
  then show ?case by (auto simp: nothing_performed_def)
next
  case (Cons c cs)
  obtain r1 s1 w1 where a: "admit lim f j st (c\<lparr>tc_id := qualified_call_id j (tc_id c)\<rparr>) specs mode rep w = (r1, s1, w1)"
    by (metis prod.collapse)
  note a' = admit_result [OF a]
  show ?case
  proof (cases r1)
    case (Inl e)
    with Cons.prems a a' show ?thesis by auto
  next
    case (Inr item)
    obtain r2 s2 w2 where b: "admit_all lim f j st specs mode cs s1 w1 = (r2, s2, w2)" by (metis prod.collapse)
    note b' = Cons.IH [OF b]
    have "tw_now w1 \<le> tw_now w2" using b' by (simp add: nothing_performed_def)
    then have "item_cleared f j specs mode (tw_now w2) item" using a' Inr item_cleared_later by blast
    with Cons.prems a a' b b' Inr show ?thesis
      by (cases r2) (auto intro: nothing_performed_trans)
  qed
qed

subsection \<open>Performing\<close>

definition performs :: "(nat \<Rightarrow> tool_call \<Rightarrow> tool_spec \<Rightarrow> bool) \<Rightarrow> turn_world \<Rightarrow> turn_world \<Rightarrow> bool" where
  "performs P w w' \<longleftrightarrow>
     tw_now w \<le> tw_now w' \<and> tw_finished w' = tw_finished w
     \<and> (\<exists>xs. tw_performed w' = tw_performed w @ xs \<and> (\<forall>(t, c, s) \<in> set xs. P t c s))"

lemma performs_trans: "performs P a b \<Longrightarrow> performs P b c \<Longrightarrow> performs P a c"
  by (fastforce simp: performs_def)

lemma nothing_performs: "nothing_performed w w' \<Longrightarrow> performs P w w'"
  by (simp add: performs_def nothing_performed_def)

lemma performs_mono: "performs P w w' \<Longrightarrow> (\<And>t c s. P t c s \<Longrightarrow> Q t c s) \<Longrightarrow> performs Q w w'"
  by (fastforce simp: performs_def)

lemma performs_refl [simp]: "performs P w w"
  by (simp add: performs_def)

definition performer_ok :: "(nat \<Rightarrow> tool_call \<Rightarrow> tool_spec \<Rightarrow> bool) \<Rightarrow> performer \<Rightarrow> bool" where
  "performer_ok P perform \<longleftrightarrow> (\<forall>item w r w'. perform item w = (r, w') \<longrightarrow> performs P w w')"

lemma audit_targets_nothing [simp]:
  "tw_now (audit_targets lim j st c s r as w) = tw_now w"
  "tw_performed (audit_targets lim j st c s r as w) = tw_performed w"
  "tw_finished (audit_targets lim j st c s r as w) = tw_finished w"
  "tw_trail (audit_targets lim j st c s r as w) = tw_trail w"
  by (induction as arbitrary: w) simp_all

lemma invoke_performs:
  assumes i: "invoke lim f perform j st s item w = (item', w')" and p: "performer_ok P perform"
    and ok: "P (tw_now w) (pl_call item) s"
  shows "performs P w w'" and "pl_run item' = pl_run item" and "pl_spec item' = pl_spec item"
    and "pl_call item' = pl_call item"
proof -
  let ?w0 = "w\<lparr>tw_performed := tw_performed w @ [(tw_now w, pl_call item, s)]\<rparr>"
  obtain r w1 where r: "perform item ?w0 = (r, w1)" by (metis prod.collapse)
  have "performs P w ?w0" using ok by (simp add: performs_def)
  moreover have "performs P ?w0 w1" using p r by (simp add: performer_ok_def)
  ultimately have p1: "performs P w w1" by (rule performs_trans)
  show "performs P w w'"
  proof (cases r)
    case (Inl e)
    with i r have "w' = record_tool_audit lim st (pl_call item) s (pl_target item) ''failed'' [] w1"
      by (simp add: invoke_def)
    then have "nothing_performed w1 w'" by (simp add: nothing_performed_def)
    then show ?thesis using performs_trans [OF p1 nothing_performs] by blast
  next
    case (Inr x)
    obtain es w2 where e: "visible_evidence f j (tr_evidence x) w1 = (es, w2)" by (metis prod.collapse)
    obtain v w3 where v: "visible_view f j (tr_view x) w2 = (v, w3)" by (metis prod.collapse)
    have "same_record w1 w3"
      by (rule same_record_trans [OF visible_evidence_same [OF e] visible_view_same [OF v]])
    moreover have "nothing_performed w3 w'"
      using i r Inr e v by (auto simp: invoke_def Let_def nothing_performed_def split: if_splits)
    ultimately have "nothing_performed w1 w'" using nothing_performed_trans same_nothing by blast
    then show ?thesis using performs_trans [OF p1 nothing_performs] by blast
  qed
  show "pl_run item' = pl_run item" "pl_spec item' = pl_spec item" "pl_call item' = pl_call item"
    using i by (auto simp: invoke_def Let_def split: prod.splits sum.splits)
qed

text \<open>A planned call may be performed at any instant from \<open>t\<close> on.\<close>

definition may_perform :: "(nat \<Rightarrow> tool_call \<Rightarrow> tool_spec \<Rightarrow> bool) \<Rightarrow> nat \<Rightarrow> planned_call \<Rightarrow> bool" where
  "may_perform P t item \<longleftrightarrow> (\<forall>s. pl_run item \<and> pl_spec item = Some s \<longrightarrow> (\<forall>t' \<ge> t. P t' (pl_call item) s))"

lemma may_perform_later: "may_perform P t item \<Longrightarrow> t \<le> t' \<Longrightarrow> may_perform P t' item"
  by (simp add: may_perform_def)

lemma invoke_at_performs:
  assumes "invoke_at lim f perform j st is items w = (items', w')" and "performer_ok P perform"
    and "\<forall>item \<in> set items. may_perform P (tw_now w) item"
  shows "performs P w w' \<and> length items' = length items"
  using assms(1,3)
proof (induction "is" arbitrary: items w)
  case Nil
  then show ?case by simp
next
  case (Cons i ts)
  show ?case
  proof (cases "i < length items \<and> pl_run (items ! i) \<and> (\<exists>s. pl_spec (items ! i) = Some s)")
    case False
    then have "invoke_at lim f perform j st ts items w = (items', w')"
      using Cons.prems(1) by (auto split: option.splits bool.splits)
    then show ?thesis by (rule Cons.IH) (rule Cons.prems(2))
  next
    case True
    then obtain s where s: "pl_spec (items ! i) = Some s" and i: "i < length items" "pl_run (items ! i)" by blast
    obtain item w1 where v: "invoke lim f perform j st s (items ! i) w = (item, w1)" by (metis prod.collapse)
    have "may_perform P (tw_now w) (items ! i)" using Cons.prems(2) i by simp
    then have ok: "P (tw_now w) (pl_call (items ! i)) s" using i s by (simp add: may_perform_def)
    note inv = invoke_performs [OF v assms(2) ok]
    have le: "tw_now w \<le> tw_now w1" using inv(1) by (simp add: performs_def)
    have "\<forall>x \<in> set (items[i := item]). may_perform P (tw_now w1) x"
    proof
      fix x
      assume "x \<in> set (items[i := item])"
      then consider "x = item" | "x \<in> set items" using set_update_subset_insert by fastforce
      then show "may_perform P (tw_now w1) x"
      proof cases
        case 1
        have "may_perform P (tw_now w) item"
          using \<open>may_perform P (tw_now w) (items ! i)\<close> inv(2-4) by (simp add: may_perform_def)
        then show ?thesis using 1 le may_perform_later by blast
      next
        case 2
        then show ?thesis using Cons.prems(2) le may_perform_later by blast
      qed
    qed
    moreover have "invoke_at lim f perform j st ts (items[i := item]) w1 = (items', w')"
      using Cons.prems(1) i s v by simp
    ultimately have "performs P w1 w' \<and> length items' = length (items[i := item])" by (intro Cons.IH)
    then show ?thesis using performs_trans [OF inv(1)] by simp
  qed
qed

lemma record_results_nothing: "nothing_performed w (record_results j st items w)"
proof (induction items arbitrary: w)
  case Nil
  then show ?case by (simp add: nothing_performed_def)
next
  case (Cons item items)
  have "nothing_performed w (record_result j st item w)" by (simp add: record_result_def Let_def nothing_performed_def)
  from nothing_performed_trans [OF this Cons.IH] show ?case by simp
qed

subsection \<open>Every call of a step\<close>

definition mode_at :: "turn_facts \<Rightarrow> nat \<Rightarrow> approval_mode" where
  "mode_at f t = (case tf_mode f t of None \<Rightarrow> ApprovalAsk | Some m \<Rightarrow> m)"

text \<open>
  What every performed call rests on: it names a tool of the catalogue, cleared under the approval mode
  the session had at some earlier instant.
\<close>

definition call_ok :: "turn_facts \<Rightarrow> turn_job \<Rightarrow> tool_spec list \<Rightarrow> nat \<Rightarrow> tool_call \<Rightarrow> tool_spec \<Rightarrow> bool" where
  "call_ok f j specs t c s \<longleftrightarrow> (\<exists>t0 < t. cleared f j specs (mode_at f t0) c s t)"

lemma call_ok_later: "call_ok f j specs t c s \<Longrightarrow> t \<le> t' \<Longrightarrow> call_ok f j specs t' c s"
  unfolding call_ok_def by (meson cleared_later less_le_trans)

lemma run_tool_calls_performs:
  assumes r: "run_tool_calls lim f perform order j st calls specs (mode_at f t0) rep w = (e, seen, w')"
    and p: "performer_ok P perform" and t0: "t0 < tw_now w"
    and P: "\<And>t c s. call_ok f j specs t c s \<Longrightarrow> P t c s"
  shows "performs P w w'"
proof -
  obtain a seen1 w1 where a: "admit_all lim f j st specs (mode_at f t0) calls rep w = (a, seen1, w1)" by (metis prod.collapse)
  note ad = admit_all_result [OF a]
  have n1: "nothing_performed w w1" using ad by simp
  show ?thesis
  proof (cases a)
    case (Inl x)
    with r a n1 show ?thesis by (simp add: run_tool_calls_def nothing_performs)
  next
    case (Inr items)
    obtain items2 w2 where x: "execute_calls lim f perform order j st items w1 = (items2, w2)" by (metis prod.collapse)
    have now: "tw_now w \<le> tw_now w1" using n1 by (simp add: nothing_performed_def)
    have may: "may_perform P (tw_now w1) item" if "item \<in> set items" for item
      unfolding may_perform_def
    proof (intro allI impI)
      fix s t'
      assume s: "pl_run item \<and> pl_spec item = Some s" and t': "tw_now w1 \<le> t'"
      have "item_cleared f j specs (mode_at f t0) (tw_now w1) item" using ad Inr that by simp
      then have "cleared f j specs (mode_at f t0) (pl_call item) s (tw_now w1)" using s by (auto simp: item_cleared_def)
      then have "cleared f j specs (mode_at f t0) (pl_call item) s t'" using t' by (rule cleared_later)
      moreover have "t0 < t'" using t0 now t' by simp
      ultimately show "P t' (pl_call item) s" using P by (auto simp: call_ok_def)
    qed
    obtain ix where "invoke_at lim f perform j st ix items w1 = (items2, w2)"
      using x by (auto simp: execute_calls_def split: if_splits)
    from invoke_at_performs [OF this p] may have "performs P w1 w2" by blast
    moreover have "w' = record_results j st items2 w2" using r a Inr x by (simp add: run_tool_calls_def)
    ultimately show ?thesis
      using performs_trans [OF nothing_performs [OF n1]] performs_trans nothing_performs [OF record_results_nothing] by metis
  qed
qed

lemma current_mode_at: "current_mode f w = (m, w') \<Longrightarrow> m = mode_at f (tw_now w) \<and> tw_now w < tw_now w'"
  by (auto simp: current_mode_def ask_def mode_at_def split: option.splits)

subsection \<open>Turns and branches\<close>

text \<open>What a turn did before it was finished, and that it is finished once.\<close>

definition turn_ended :: "(nat \<Rightarrow> tool_call \<Rightarrow> tool_spec \<Rightarrow> bool) \<Rightarrow> turn_world \<Rightarrow> turn_world \<Rightarrow> bool" where
  "turn_ended P w w' \<longleftrightarrow>
     (\<exists>v e. performs P w v \<and> tw_now w' = tw_now v \<and> tw_performed w' = tw_performed v
        \<and> tw_finished w' = tw_finished w @ [e])"

lemma fail_ends: "performs P w v \<Longrightarrow> turn_ended P w (fail_turn e v)"
  unfolding turn_ended_def fail_turn_def by (auto simp: performs_def)

lemma conclude_ends: "performs P w v \<Longrightarrow> turn_ended P w (conclude_turn j st c v)"
  unfolding turn_ended_def conclude_turn_def by (auto simp: performs_def)

lemma ended_trans: "performs P w v \<Longrightarrow> turn_ended P v w' \<Longrightarrow> turn_ended P w w'"
  unfolding turn_ended_def using performs_trans by (metis performs_def)

lemma record_step_nothing: "nothing_performed w (record_step j st c w)"
  by (simp add: record_step_def Let_def nothing_performed_def)

lemma same_performs: "same_record w w' \<Longrightarrow> performs P w w'"
  by (simp add: nothing_performs same_nothing)

lemma turn_loop_ended:
  assumes p: "performer_ok P perform" and P: "\<And>t c s. call_ok f j specs t c s \<Longrightarrow> P t c s"
  shows "turn_ended P w (turn_loop lim f perform order j specs n st used rep w)"
proof (induction n arbitrary: st used rep w)
  case 0
  show ?case by (simp add: fail_ends)
next
  case (Suc n)
  define w1 where "w1 = w\<lparr>tw_now := Suc (tw_now w)\<rparr>"
  have s1: "performs P w w1" by (simp add: w1_def same_performs)
  have a1: "ask (tf_cancelled f) w = (tf_cancelled f (tw_now w), w1)" by (simp add: ask_def w1_def)
  show ?case
  proof (cases "tf_cancelled f (tw_now w)")
    case (Some e)
    then show ?thesis by (simp add: a1 fail_ends [OF s1])
  next
    case None
    obtain ok w2 where r: "revalidate_turn f j w1 = (ok, w2)" by (metis prod.collapse)
    have s2: "performs P w w2" by (rule performs_trans [OF s1 same_performs [OF revalidate_same [OF r]]])
    show ?thesis
    proof (cases ok)
      case False
      then show ?thesis by (simp add: a1 None r fail_ends [OF s2])
    next
      case True
      obtain m w3 where m: "current_mode f w2 = (m, w3)" by (metis prod.collapse)
      have s3: "performs P w w3" by (rule performs_trans [OF s2 same_performs [OF current_mode_same [OF m]]])
      define w4 where "w4 = w3\<lparr>tw_now := Suc (tw_now w3)\<rparr>"
      have s4: "performs P w w4" by (rule performs_trans [OF s3 same_performs]) (simp add: w4_def)
      have a4: "ask (tf_think f) w3 = (tf_think f (tw_now w3), w4)" by (simp add: ask_def w4_def)
      show ?thesis
      proof (cases "tf_think f (tw_now w3)")
        case (Inl e)
        then show ?thesis by (simp add: a1 None r True m a4 fail_ends [OF s4])
      next
        case (Inr c)
        define w5 where "w5 = record_step j st c w4"
        have s5: "performs P w w5"
          unfolding w5_def by (rule performs_trans [OF s4 nothing_performs [OF record_step_nothing]])
        note unfolded = a1 None r True m a4 Inr w5_def [symmetric]
        show ?thesis
        proof (cases "cm_calls c = [] \<or> rl_max_calls lim < used + length (cm_calls c)")
          case True
          then show ?thesis by (auto simp: unfolded Let_def conclude_ends [OF s5] fail_ends [OF s5])
        next
          case False
          obtain e seen w6 where t: "run_tool_calls lim f perform order j st (cm_calls c) specs m rep w5 = (e, seen, w6)"
            by (metis prod.collapse)
          have now: "tw_now w2 < tw_now w5"
            using current_mode_at [OF m] record_step_nothing [of w4 j st c]
            by (simp add: w5_def w4_def nothing_performed_def)
          have "performs P w5 w6"
            using t current_mode_at [OF m] now by (intro run_tool_calls_performs [OF _ p _ P]) auto
          then have s6: "performs P w w6" by (rule performs_trans [OF s5])
          show ?thesis
          proof (cases e)
            case None
            with False show ?thesis by (simp add: unfolded Let_def t ended_trans [OF s6 Suc.IH])
          next
            case (Some x)
            with False show ?thesis by (simp add: unfolded Let_def t fail_ends [OF s6])
          qed
        qed
      qed
    qed
  qed
qed

lemma append_attachments_nothing:
  "tw_now (append_attachments j w) = tw_now w \<and> tw_performed (append_attachments j w) = tw_performed w
     \<and> tw_finished (append_attachments j w) = tw_finished w"
proof -
  have "tw_now (fold (append_trail j) bs w) = tw_now w \<and> tw_performed (fold (append_trail j) bs w) = tw_performed w
      \<and> tw_finished (fold (append_trail j) bs w) = tw_finished w" for bs
    by (induction bs arbitrary: w) simp_all
  then show ?thesis by (simp add: append_attachments_def)
qed

lemma run_turn_ended:
  assumes p: "performer_ok P perform" and P: "\<And>t c s. call_ok f j specs t c s \<Longrightarrow> P t c s"
  shows "turn_ended P w (run_turn lim f perform order j specs w)"
proof -
  obtain ok w1 where r: "revalidate_turn f j w = (ok, w1)" by (metis prod.collapse)
  have s1: "performs P w w1" by (rule same_performs [OF revalidate_same [OF r]])
  define w2 where "w2 = w1\<lparr>tw_now := Suc (tw_now w1)\<rparr>"
  have a: "ask (tf_settings f) w1 = (tf_settings f (tw_now w1), w2)" by (simp add: ask_def w2_def)
  have s2: "performs P w w2" by (rule performs_trans [OF s1 same_performs]) (simp add: w2_def)
  obtain m w3 where m: "current_mode f w2 = (m, w3)" by (metis prod.collapse)
  define w4 where "w4 = append_attachments j (append_trail j (TrailSystem (Some m) (map ts_name specs)) w3)"
  have "performs P w w4"
    by (rule performs_trans [OF performs_trans [OF s2 same_performs [OF current_mode_same [OF m]]] nothing_performs])
       (simp add: w4_def nothing_performed_def append_attachments_nothing)
  from ended_trans [OF this turn_loop_ended [OF p P]] fail_ends [OF s1] fail_ends [OF s2]
  show ?thesis by (auto simp: run_turn_def r a m w4_def [symmetric] Let_def split: bool.splits)
qed

lemma perform_catalogue_ok: "performer_ok P (perform_catalogue f)"
  by (auto simp: performer_ok_def perform_catalogue_def ask_def intro!: same_performs)

lemma branch_loop_performs:
  assumes P: "\<And>t c s. call_ok f j specs t c s \<Longrightarrow> P t c s"
    and l: "branch_loop lim f order j specs n st rep b w = (b', w')"
  shows "performs P w w'"
  using l
proof (induction n arbitrary: st rep b w)
  case 0
  then show ?case by simp
next
  case (Suc n)
  define w1 where "w1 = w\<lparr>tw_now := Suc (tw_now w)\<rparr>"
  have s1: "performs P w w1" by (simp add: w1_def same_performs)
  have a1: "ask (tf_cancelled f) w = (tf_cancelled f (tw_now w), w1)" by (simp add: ask_def w1_def)
  obtain ok w2 where r: "revalidate_turn f j w1 = (ok, w2)" by (metis prod.collapse)
  have s2: "performs P w w2" by (rule performs_trans [OF s1 same_performs [OF revalidate_same [OF r]]])
  obtain m w3 where m: "current_mode f w2 = (m, w3)" by (metis prod.collapse)
  have s3: "performs P w w3" by (rule performs_trans [OF s2 same_performs [OF current_mode_same [OF m]]])
  define w4 where "w4 = w3\<lparr>tw_now := Suc (tw_now w3)\<rparr>"
  have s4: "performs P w w4" by (rule performs_trans [OF s3 same_performs]) (simp add: w4_def)
  have a4: "ask (tf_think f) w3 = (tf_think f (tw_now w3), w4)" by (simp add: ask_def w4_def)
  show ?case
  proof (cases "tf_cancelled f (tw_now w) = None \<and> ok \<and> (\<exists>c. tf_think f (tw_now w3) = Inr c)")
    case False
    then show ?thesis
      using Suc.prems s1 s2 s4 by (cases "tf_cancelled f (tw_now w)"; cases ok; cases "tf_think f (tw_now w3)")
        (auto simp: a1 r m a4)
  next
    case True
    then obtain c where c: "tf_think f (tw_now w3) = Inr c" and ok: "tf_cancelled f (tw_now w) = None" "ok" by blast
    define w5 where "w5 = append_trail j (TrailModel st (cm_text c) (map tc_name (cm_calls c))) w4"
    have s5: "performs P w w5"
      by (rule performs_trans [OF s4 nothing_performs]) (simp add: w5_def nothing_performed_def)
    note loop = Suc.prems [unfolded branch_loop.simps, simplified a1 ok r m a4 c prod.case option.case sum.case Let_def w5_def [symmetric]]
    show ?thesis
    proof (cases "cm_calls c = [] \<or> rl_sub_calls lim < sr_calls b + length (cm_calls c)")
      case True
      have "performs P w (append_trail j x w5)" for x
        by (rule performs_trans [OF s5 nothing_performs]) (simp add: nothing_performed_def)
      with loop True s5 show ?thesis by (auto simp: Let_def split: if_splits)
    next
      case False
      obtain e seen w6 where t: "run_tool_calls lim f (perform_catalogue f) order j st (cm_calls c) specs m rep w5 = (e, seen, w6)"
        by (metis prod.collapse)
      have now: "tw_now w2 < tw_now w5" using current_mode_at [OF m] by (simp add: w5_def w4_def)
      have "performs P w5 w6"
        using t current_mode_at [OF m] now by (intro run_tool_calls_performs [OF _ perform_catalogue_ok _ P]) auto
      then have s6: "performs P w w6" by (rule performs_trans [OF s5])
      show ?thesis
      proof (cases e)
        case None
        with loop False t have "branch_loop lim f order j specs n (Suc st) seen
            (b\<lparr>sr_steps := st, sr_calls := sr_calls b + length (cm_calls c)\<rparr>) w6 = (b', w')" by simp
        from performs_trans [OF s6 Suc.IH [OF this]] show ?thesis .
      next
        case (Some x)
        with loop False t s6 show ?thesis by simp
      qed
    qed
  qed
qed

lemma branch_scope [simp]:
  "ai_scope_ok (j\<lparr>tj_subtask := i\<rparr>) = ai_scope_ok j"
  by (simp add: ai_scope_ok_def fun_eq_iff)

lemma branch_cleared [simp]: "cleared f (j\<lparr>tj_subtask := i\<rparr>) = cleared f j"
  by (simp add: cleared_def tool_granted_def granted_def account_standing_def fun_eq_iff)

lemma branch_call_ok [simp]: "call_ok f (j\<lparr>tj_subtask := i\<rparr>) = call_ok f j"
  by (simp add: call_ok_def fun_eq_iff)

lemma run_branches_performs:
  assumes "\<And>t c s. call_ok f j specs t c s \<Longrightarrow> P t c s"
  shows "performs P w (snd (run_branches lim f order j specs ids w))"
proof (induction ids arbitrary: w)
  case Nil
  then show ?case by simp
next
  case (Cons i ids)
  let ?j = "j\<lparr>tj_subtask := Some i\<rparr>"
  obtain b w1 where b: "run_subtask lim f order j specs i w = (b, w1)" by (metis prod.collapse)
  define w0 where "w0 = append_trail ?j (TrailSystem None (map ts_name specs)) w"
  have l: "branch_loop lim f order ?j specs (rl_sub_steps lim) 1 (\<lambda>_. 0)
      \<lparr>sr_id = i, sr_text = [], sr_failure = [], sr_evidence = [], sr_steps = 0, sr_calls = 0\<rparr> w0 = (b, w1)"
    using b by (simp add: run_subtask_def Let_def w0_def)
  have "performs P w0 w1" using assms by (intro branch_loop_performs [OF _ l]) simp
  moreover have "performs P w w0" by (simp add: w0_def nothing_performs nothing_performed_def)
  ultimately have "performs P w w1" using performs_trans by blast
  then show ?case using performs_trans [OF _ Cons.IH [of w1]] b by (auto simp: Let_def split: prod.splits)
qed

lemma run_subtasks_cases:
  assumes "run_subtasks lim f order j cat item w = (r, w')"
  shows "w' = w \<or> w' = w\<lparr>tw_now := Suc (tw_now w)\<rparr>
    \<or> (\<exists>n. w' = snd (run_branches lim f order j (delegable_specs cat) (branch_ids item n) (w\<lparr>tw_now := Suc (tw_now w)\<rparr>)))"
  using assms by (auto simp: run_subtasks_def ask_def Let_def split: if_splits option.splits prod.splits sum.splits)
    (metis snd_conv)+

lemma run_subtasks_performs:
  assumes "\<And>t c s. call_ok f j (delegable_specs cat) t c s \<Longrightarrow> P t c s"
    and r: "run_subtasks lim f order j cat item w = (x, w')"
  shows "performs P w w'"
  using run_subtasks_cases [OF r]
proof (elim disjE exE)
  fix n assume w': "w' = snd (run_branches lim f order j (delegable_specs cat) (branch_ids item n) (w\<lparr>tw_now := Suc (tw_now w)\<rparr>))"
  show ?thesis
    unfolding w' by (rule performs_trans [OF same_performs [OF ask_same]]) (rule run_branches_performs [OF assms(1)])
qed (simp_all add: same_performs)

lemma perform_main_ok:
  assumes P: "\<And>t c s. call_ok f j (delegable_specs cat) t c s \<Longrightarrow> P t c s"
  shows "performer_ok P (perform_main lim f order j cat)"
  unfolding performer_ok_def
proof (intro allI impI)
  fix item w x w' assume r: "perform_main lim f order j cat item w = (x, w')"
  show "performs P w w'"
  proof (cases "tc_name (pl_call item) = tool_run_subtasks")
    case True
    with r have "run_subtasks lim f order j cat item w = (x, w')" by (simp add: perform_main_def)
    from run_subtasks_performs [OF P this] show ?thesis .
  next
    case False
    with r perform_catalogue_ok [of P f] show ?thesis by (simp add: perform_main_def performer_ok_def)
  qed
qed

definition rests_on :: "turn_facts \<Rightarrow> turn_job \<Rightarrow> tool_spec list \<Rightarrow> nat \<Rightarrow> tool_call \<Rightarrow> tool_spec \<Rightarrow> bool" where
  "rests_on f j cat t c s \<longleftrightarrow> call_ok f j cat t c s \<or> call_ok f j (delegable_specs cat) t c s"

lemma main_turn_ended:
  "turn_ended (rests_on f j cat) w (run_turn lim f (perform_main lim f order j cat) order j cat w)"
  by (rule run_turn_ended [OF perform_main_ok]) (simp_all add: rests_on_def)

subsection \<open>A small turn\<close>

text \<open>
  A session in a sound scope, a reading and a mutating tool, and facts that never change but for the
  model, which asks for the calls until an instant and then concludes. The concrete cases start from here.
\<close>

definition small_job :: turn_job where
  "small_job = \<lparr>tj_session = ''s'', tj_user = ''00000000-0000-4000-8000-00000000000a'',
     tj_tenant = ''00000000-0000-4000-8000-00000000000b'', tj_project = ''00000000-0000-4000-8000-00000000000c'',
     tj_cluster = ''00000000-0000-4000-8000-00000000000d'', tj_attachments = [], tj_subtask = None\<rparr>"

definition small_spec :: "string \<Rightarrow> string \<Rightarrow> bool \<Rightarrow> tool_spec" where
  "small_spec name permission mutating =
     \<lparr>ts_name = name, ts_permissions = [permission], ts_conditional = [], ts_sensitive = False,
      ts_sensitive_when = (\<lambda>_. False), ts_mutating = mutating, ts_target = (\<lambda>_. None)\<rparr>"

definition small_catalogue :: "tool_spec list" where
  "small_catalogue = [small_spec ''get'' ''cluster.read'' False, small_spec ''scale'' ''cluster.write'' True,
     small_spec tool_run_subtasks permission_ai_run False]"

definition small_call :: "string \<Rightarrow> string \<Rightarrow> tool_call" where
  "small_call i name = \<lparr>tc_id = i, tc_name = name, tc_arguments = []\<rparr>"

definition small_answer :: "tool_call list \<Rightarrow> model_completion" where
  "small_answer calls = \<lparr>cm_text = ''answer'', cm_reasoning = [], cm_calls = calls, cm_evidence = []\<rparr>"

definition small_facts :: "tool_call list \<Rightarrow> nat \<Rightarrow> turn_facts" where
  "small_facts calls stop =
     \<lparr>tf_active = (\<lambda>_. Inr True), tf_cluster = (\<lambda>_ _. Inr (tj_tenant small_job, tj_project small_job)),
      tf_mode = (\<lambda>_. Some ApprovalAsk), tf_answer = (\<lambda>_ _. Answered ''approved''), tf_cancelled = (\<lambda>_. None),
      tf_think = (\<lambda>t. Inr (small_answer (if t < stop then calls else []))),
      tf_tool = (\<lambda>_ _. Inr (plain_failure ''nothing'')), tf_settings = (\<lambda>_. Inr True)\<rparr>"

definition small_limits :: run_limits where
  "small_limits = \<lparr>rl_max_steps = 4, rl_max_calls = 8, rl_repeat = 2, rl_parallel = 4, rl_sub_parallel = 2,
     rl_sub_steps = 2, rl_sub_calls = 4, rl_audit = True, rl_object = (\<lambda>_. True), rl_goals = (\<lambda>_. Some [(''g'', 1)])\<rparr>"

definition small_world :: turn_world where
  "small_world = \<lparr>tw_now = 0, tw_trail = [], tw_audits = [], tw_performed = [], tw_finished = []\<rparr>"

definition small_order :: "nat \<Rightarrow> nat list" where "small_order n = [0..<n]"

definition small_run :: "turn_facts \<Rightarrow> turn_world" where
  "small_run f =
     run_turn small_limits f (perform_main small_limits f small_order small_job small_catalogue) small_order small_job
       small_catalogue small_world"



text \<open>
  Every turn ends exactly once, whatever the model, the tools and the people do. The loop is bounded
  by its steps, so it returns; and on every path one outcome is recorded for the turn.
\<close>

theorem turn_ends_once:
  "\<exists>e. tw_finished (run_turn lim f (perform_main lim f order j cat) order j cat w) = tw_finished w @ [e]"
  using main_turn_ended [of f j cat w lim order] unfolding turn_ended_def by blast

lemma delegated_reads:
  assumes "call_ok f j (delegable_specs cat) t c s"
  shows "\<not> ts_mutating s \<and> tc_name c \<noteq> tool_run_subtasks"
proof -
  from assms have "find_spec (delegable_specs cat) (tc_name c) = Some s" by (auto simp: call_ok_def cleared_def)
  then have "s \<in> set (delegable_specs cat)" "ts_name s = tc_name c"
    by (auto simp: find_spec_def find_Some_iff)
  then show ?thesis by (auto simp: delegable_specs_def)
qed

text \<open>
  C11: a delegation reads only and does not nest. None of the calls performed under it is of a mutating
  tool or of the delegation tool, whatever its branches ask for.
\<close>

theorem branches_only_read:
  assumes "run_subtasks lim f order j cat item w = (x, w')" and "(t, c, s) \<in> set (tw_performed w')"
    and "(t, c, s) \<notin> set (tw_performed w)"
  shows "\<not> ts_mutating s \<and> tc_name c \<noteq> tool_run_subtasks"
proof -
  have "performs (\<lambda>t c s. \<not> ts_mutating s \<and> tc_name c \<noteq> tool_run_subtasks) w w'"
    by (rule run_subtasks_performs [OF delegated_reads assms(1)])
  then show ?thesis using assms(2,3) by (fastforce simp: performs_def)
qed

theorem branches_only_read_witness:
  "let f = small_facts [small_call ''1'' ''get''] 8;
       item = \<lparr>pl_call = small_call ''0'' tool_run_subtasks, pl_spec = None, pl_arguments = ''{}'', pl_target = None,
               pl_outcome = None, pl_run = True\<rparr>;
       w = snd (run_subtasks small_limits f small_order small_job small_catalogue item small_world);
       (t, c, s) = hd (tw_performed w) in
     tc_name c = ''get'' \<and> \<not> ts_mutating s \<and> tc_name c \<noteq> tool_run_subtasks"
proof -
  let ?f = "small_facts [small_call ''1'' ''get''] 8"
  let ?item = "\<lparr>pl_call = small_call ''0'' tool_run_subtasks, pl_spec = None, pl_arguments = ''{}'', pl_target = None,
               pl_outcome = None, pl_run = True\<rparr>"
  let ?r = "run_subtasks small_limits ?f small_order small_job small_catalogue ?item small_world"
  obtain x w where r: "?r = (x, w)" by (metis prod.collapse)
  obtain t c s where h: "hd (tw_performed w) = (t, c, s)" by (metis prod_cases3)
  have "0 < length (tw_performed (snd ?r))" by code_simp
  then have m: "(t, c, s) \<in> set (tw_performed w)" using hd_in_set h r by (metis length_greater_0_conv snd_conv)
  have "tc_name (fst (snd (hd (tw_performed (snd ?r))))) = ''get''" by code_simp
  with branches_only_read [OF r m] h r show ?thesis by (simp add: Let_def small_world_def)
qed

end
