(* ===== verification/AiTurnRecords.thy ===== *)
theory AiTurnRecords
  imports AiTurnSafety "HOL-Library.Sublist"
begin

section \<open>The record of a turn\<close>

text \<open>
  What the entries of a turn say: whose they are, that every call has one result in the order the model
  asked, and that a step that writes runs in that order. And two ways in which the facts a call was
  cleared on are older than the code says they are.
\<close>

subsection \<open>What is appended\<close>

definition adds :: "(string option \<times> trail_body \<Rightarrow> bool) \<Rightarrow> turn_world \<Rightarrow> turn_world \<Rightarrow> bool" where
  "adds Q w w' \<longleftrightarrow> (\<exists>xs. tw_trail w' = tw_trail w @ xs \<and> list_all Q xs)"

lemma adds_refl [simp]: "adds Q w w"
  by (simp add: adds_def)

lemma adds_trans: "adds Q a b \<Longrightarrow> adds Q b c \<Longrightarrow> adds Q a c"
  by (fastforce simp: adds_def)

lemma adds_mono: "adds Q w w' \<Longrightarrow> (\<And>x. Q x \<Longrightarrow> R x) \<Longrightarrow> adds R w w'"
  by (fastforce simp: adds_def list_all_iff)

lemma same_adds: "same_record w w' \<Longrightarrow> adds Q w w'"
  by (simp add: adds_def same_record_def)

lemma adds_append: "Q (tj_subtask j, b) \<Longrightarrow> adds Q w v \<Longrightarrow> adds Q w (append_trail j b v)"
  by (fastforce simp: adds_def append_trail_def)

lemma adds_same: "adds Q w v \<Longrightarrow> tw_trail v' = tw_trail v \<Longrightarrow> adds Q w v'"
  by (simp add: adds_def)

text \<open>An entry of the job itself that is not a result.\<close>

definition own_step :: "turn_job \<Rightarrow> string option \<times> trail_body \<Rightarrow> bool" where
  "own_step j e \<longleftrightarrow> fst e = tj_subtask j \<and> (case snd e of TrailToolResult _ _ _ \<Rightarrow> False | _ \<Rightarrow> True)"

text \<open>
  What admission appends: the calls it has decided about, with the approvals between them. \<open>admits\<close> says
  which calls, in order.
\<close>

definition admission :: "trail_body \<Rightarrow> bool" where
  "admission b \<longleftrightarrow>
     (case b of TrailToolCall _ _ _ _ \<Rightarrow> True | TrailApprovalRequest _ _ _ _ \<Rightarrow> True
      | TrailApprovalDecision _ _ _ _ \<Rightarrow> True | _ \<Rightarrow> False)"

definition calls_in :: "trail_body list \<Rightarrow> tool_call list" where
  "calls_in xs = concat (map (\<lambda>b. case b of TrailToolCall _ c _ _ \<Rightarrow> [c] | _ \<Rightarrow> []) xs)"

lemma calls_in_simps [simp]:
  "calls_in [] = []" "calls_in (xs @ ys) = calls_in xs @ calls_in ys"
  "calls_in [TrailToolCall st c tg a] = [c]" "calls_in [TrailApprovalRequest st c m tg] = []"
  "calls_in [TrailApprovalDecision st c d tg] = []"
  by (simp_all add: calls_in_def)

lemma admission_simps [simp]:
  "admission (TrailToolCall st c tg a)" "admission (TrailApprovalRequest st c m tg)"
  "admission (TrailApprovalDecision st c d tg)"
  by (simp_all add: admission_def)

definition admits :: "turn_job \<Rightarrow> tool_call list \<Rightarrow> turn_world \<Rightarrow> turn_world \<Rightarrow> bool" where
  "admits j cs w w' \<longleftrightarrow>
     (\<exists>xs. tw_trail w' = tw_trail w @ map (Pair (tj_subtask j)) xs \<and> list_all admission xs \<and> calls_in xs = cs)"

lemma admits_refl [simp]: "admits j [] w w"
  by (auto simp: admits_def intro: exI [of _ "[]"])

lemma same_admits: "same_record w w' \<Longrightarrow> admits j [] w w'"
  by (auto simp: admits_def same_record_def intro: exI [of _ "[]"])

lemma admits_trans:
  assumes "admits j cs a b" and "admits j ds b c"
  shows "admits j (cs @ ds) a c"
proof -
  from assms(1) obtain xs where xs: "tw_trail b = tw_trail a @ map (Pair (tj_subtask j)) xs" "list_all admission xs"
    "calls_in xs = cs" by (auto simp: admits_def)
  from assms(2) obtain ys where ys: "tw_trail c = tw_trail b @ map (Pair (tj_subtask j)) ys" "list_all admission ys"
    "calls_in ys = ds" by (auto simp: admits_def)
  from xs ys have "tw_trail c = tw_trail a @ map (Pair (tj_subtask j)) (xs @ ys)" "list_all admission (xs @ ys)"
    "calls_in (xs @ ys) = cs @ ds" by simp_all
  then show ?thesis unfolding admits_def by metis
qed

lemma admits_append:
  assumes "admits j cs w v" and "admission b"
  shows "admits j (cs @ calls_in [b]) w (append_trail j b v)"
proof -
  have "tw_trail (append_trail j b v) = tw_trail v @ map (Pair (tj_subtask j)) [b]" by (simp add: append_trail_def)
  moreover have "list_all admission [b]" using assms(2) by simp
  ultimately have "admits j (calls_in [b]) v (append_trail j b v)" unfolding admits_def by blast
  then show ?thesis by (rule admits_trans [OF assms(1)])
qed

lemma admits_same: "admits j cs w v \<Longrightarrow> tw_trail v' = tw_trail v \<Longrightarrow> admits j cs w v'"
  by (simp add: admits_def)

lemma admits_adds:
  assumes "admits j cs w w'"
  shows "adds (own_step j) w w'"
proof -
  from assms obtain xs where xs: "tw_trail w' = tw_trail w @ map (Pair (tj_subtask j)) xs" "list_all admission xs"
    by (auto simp: admits_def)
  have "own_step j (tj_subtask j, x)" if "x \<in> set xs" for x
    using xs(2) that by (cases x) (auto simp: own_step_def admission_def list_all_iff)
  then have "list_all (own_step j) (map (Pair (tj_subtask j)) xs)" by (auto simp: list_all_iff)
  with xs(1) show ?thesis unfolding adds_def by metis
qed

lemma record_call_admits: "admits j cs w v \<Longrightarrow> admits j (cs @ [c]) w (record_call j st c tg a v)"
  using admits_append [of j cs w v "TrailToolCall st c tg a"] by (simp add: record_call_def)

lemma admit_cleared_admits:
  assumes "admit_cleared lim j st c s tg rep w = (item, seen, w')"
  shows "admits j [c] w w' \<and> pl_call item = c"
proof -
  have "w' = record_call j st c tg True w"
    using assms by (auto simp: admit_cleared_def Let_def split: option.splits if_splits)
  then have "admits j [c] w w'" using record_call_admits [of j "[]" w w c st tg True] by simp
  then show ?thesis using assms by (auto simp: admit_cleared_def not_run_def Let_def split: option.splits if_splits)
qed

lemma refuse_call_admits:
  assumes "refuse_call lim j st c s tg m w = (item, w')"
  shows "admits j [c] w w' \<and> pl_call item = c"
proof -
  have "admits j [c] w (record_call j st c tg False w)" using record_call_admits [of j "[]" w w c st tg False] by simp
  then have "admits j [c] w (record_tool_audit lim st c s tg ''denied'' m (record_call j st c tg False w))"
    by (rule admits_same) simp
  then show ?thesis using assms by (auto simp: refuse_call_def not_run_def)
qed

lemma await_admits:
  assumes "await_approval f j st c m tg w = (r, w')"
  shows "admits j [] w w'"
proof -
  let ?v = "append_trail j (TrailApprovalRequest st c m tg) w"
  have v0: "admits j [] w ?v" using admits_append [of j "[]" w w "TrailApprovalRequest st c m tg"] by simp
  have v: "admits j [] w (?v\<lparr>tw_now := n\<rparr>)" for n by (rule admits_same [OF v0]) simp
  show ?thesis
  proof (cases "tf_answer f (tw_now ?v) c")
    case (Answered d)
    then have "w' = append_trail j (TrailApprovalDecision st c d tg) (?v\<lparr>tw_now := Suc (tw_now ?v)\<rparr>)"
      using assms by (simp add: await_approval_def ask_def del: append_nothing)
    then show ?thesis using admits_append [OF v, of "TrailApprovalDecision st c d tg"] by simp
  next
    case (AnswerCancelled e)
    then have "w' = ?v\<lparr>tw_now := Suc (tw_now ?v)\<rparr>"
      using assms by (simp add: await_approval_def ask_def del: append_nothing)
    then show ?thesis using v by blast
  next
    case AnswerTimedOut
    then have "w' = ?v\<lparr>tw_now := Suc (tw_now ?v)\<rparr>"
      using assms by (simp add: await_approval_def ask_def del: append_nothing)
    then show ?thesis using v by blast
  qed
qed

lemma admit_admits:
  assumes "admit lim f j st c specs mode rep w = (r, seen, w')"
  shows "case r of Inl e \<Rightarrow> admits j [] w w' | Inr item \<Rightarrow> admits j [c] w w' \<and> pl_call item = c"
proof (cases "find_spec specs (tc_name c)")
  case None
  have "admits j [c] w (record_call j st c tg False w)" for tg
    using record_call_admits [of j "[]" w w c st tg False] by simp
  then show ?thesis using assms None by (auto simp: admit_def not_run_def)
next
  case (Some s)
  let ?tg = "call_target j c (Some s)"
  obtain ok missing w1 where a: "authorize_tool f j s w = ((ok, missing), w1)" by (metis prod.collapse)
  have n1: "admits j [] w w1" using authorize_tool_same [OF a] by (rule same_admits)
  note step = assms [unfolded admit_def, simplified Some option.case Let_def a prod.case]
  obtain item w2 where rc: "refuse_call lim j st c s ?tg missing w1 = (item, w2)" by (metis prod.collapse)
  obtain item' sn w2' where ac: "admit_cleared lim j st c s ?tg rep w1 = (item', sn, w2')" by (metis prod.collapse)
  note first = admits_trans [OF n1 conjunct1 [OF refuse_call_admits [OF rc]]]
    admits_trans [OF n1 conjunct1 [OF admit_cleared_admits [OF ac]]]
    conjunct2 [OF refuse_call_admits [OF rc]] conjunct2 [OF admit_cleared_admits [OF ac]]
  show ?thesis
  proof (cases "ok \<and> requires_approval_for s mode (tc_arguments c)")
    case False
    then show ?thesis using step rc ac first by (cases ok) auto
  next
    case True
    obtain d v2 where aw: "await_approval f j st c mode ?tg w1 = (d, v2)" by (metis prod.collapse)
    have n2: "admits j [] w v2" using admits_trans [OF n1 await_admits [OF aw]] by simp
    obtain v v3 where rv: "revalidate_turn f j v2 = (v, v3)" by (metis prod.collapse)
    have n3: "admits j [] w v3" using admits_trans [OF n2 same_admits [OF revalidate_same [OF rv]]] by simp
    obtain ok2 missing2 v4 where a2: "authorize_tool f j s v3 = ((ok2, missing2), v4)" by (metis prod.collapse)
    have n4: "admits j [] w v4" using admits_trans [OF n3 same_admits [OF authorize_tool_same [OF a2]]] by simp
    obtain i5 v5 where rc2: "refuse_call lim j st c s ?tg missing2 v4 = (i5, v5)" by (metis prod.collapse)
    obtain i6 s6 v6 where ac2: "admit_cleared lim j st c s ?tg rep v4 = (i6, s6, v6)" by (metis prod.collapse)
    have denied: "admits j [c] w (record_call j st c ?tg False v2)"
      using record_call_admits [OF n2, of c st ?tg False] by simp
    note ends = admits_trans [OF n4 conjunct1 [OF refuse_call_admits [OF rc2]]]
      admits_trans [OF n4 conjunct1 [OF admit_cleared_admits [OF ac2]]]
      conjunct2 [OF refuse_call_admits [OF rc2]] conjunct2 [OF admit_cleared_admits [OF ac2]]
    show ?thesis
    proof (cases d)
      case (Inl e)
      then show ?thesis using step True aw n2 by auto
    next
      case (Inr x)
      then show ?thesis
        using step True aw rv a2 rc2 ac2 n3 denied ends
        by (cases "x = ''denied''"; cases v; cases ok2) (auto simp: not_run_def)
    qed
  qed
qed

definition session_calls :: "turn_job \<Rightarrow> tool_call list \<Rightarrow> tool_call list" where
  "session_calls j calls = map (\<lambda>c. c\<lparr>tc_id := qualified_call_id j (tc_id c)\<rparr>) calls"

lemma admit_all_admits:
  assumes "admit_all lim f j st specs mode cs rep w = (r, seen, w')"
  shows "case r of Inl e \<Rightarrow> \<exists>ds. admits j ds w w'
     | Inr items \<Rightarrow> admits j (session_calls j cs) w w' \<and> map pl_call items = session_calls j cs"
  using assms
proof (induction cs arbitrary: rep w r seen w')
  case Nil
  then show ?case by (auto simp: session_calls_def)
next
  case (Cons c cs)
  obtain r1 s1 w1 where a: "admit lim f j st (c\<lparr>tc_id := qualified_call_id j (tc_id c)\<rparr>) specs mode rep w = (r1, s1, w1)"
    by (metis prod.collapse)
  note a' = admit_admits [OF a]
  show ?case
  proof (cases r1)
    case (Inl e)
    with Cons.prems a a' show ?thesis by auto
  next
    case (Inr item)
    obtain r2 s2 w2 where b: "admit_all lim f j st specs mode cs s1 w1 = (r2, s2, w2)" by (metis prod.collapse)
    have first: "admits j [c\<lparr>tc_id := qualified_call_id j (tc_id c)\<rparr>] w w1"
      and call: "pl_call item = c\<lparr>tc_id := qualified_call_id j (tc_id c)\<rparr>" using a' Inr by simp_all
    show ?thesis
    proof (cases r2)
      case Inl2: (Inl e)
      with Cons.IH [OF b] obtain ds where "admits j ds w1 w2" by auto
      from admits_trans [OF first this] show ?thesis using Cons.prems a b Inr Inl2 by auto
    next
      case Inr2: (Inr items)
      with Cons.IH [OF b] have "admits j (session_calls j cs) w1 w2" "map pl_call items = session_calls j cs" by auto
      from admits_trans [OF first this(1)] this(2) call show ?thesis
        using Cons.prems a b Inr Inr2 by (auto simp: session_calls_def)
    qed
  qed
qed

lemma admit_all_adds:
  assumes "admit_all lim f j st specs mode cs rep w = (r, seen, w')"
  shows "adds (own_step j) w w' \<and> (\<forall>items. r = Inr items \<longrightarrow> map pl_call items = session_calls j cs)"
  using admit_all_admits [OF assms] admits_adds by (auto split: sum.splits)

subsection \<open>What performing and recording append\<close>

definition performer_adds :: "(string option \<times> trail_body \<Rightarrow> bool) \<Rightarrow> performer \<Rightarrow> bool" where
  "performer_adds Q perform \<longleftrightarrow> (\<forall>item w r w'. perform item w = (r, w') \<longrightarrow> adds Q w w')"

lemma invoke_adds:
  assumes i: "invoke lim f perform j st s item w = (item', w')" and p: "performer_adds Q perform"
  shows "adds Q w w'" and "pl_call item' = pl_call item"
proof -
  let ?w0 = "w\<lparr>tw_performed := tw_performed w @ [(tw_now w, pl_call item, s)]\<rparr>"
  obtain r w1 where r: "perform item ?w0 = (r, w1)" by (metis prod.collapse)
  have "adds Q ?w0 w1" using p r by (simp add: performer_adds_def)
  then have p1: "adds Q w w1" by (simp add: adds_def)
  show "adds Q w w'"
  proof (cases r)
    case (Inl e)
    with i r show ?thesis by (auto simp: invoke_def intro: adds_same [OF p1])
  next
    case (Inr x)
    obtain es w2 where e: "visible_evidence f j (tr_evidence x) w1 = (es, w2)" by (metis prod.collapse)
    obtain v w3 where v: "visible_view f j (tr_view x) w2 = (v, w3)" by (metis prod.collapse)
    have "same_record w1 w3"
      by (rule same_record_trans [OF visible_evidence_same [OF e] visible_view_same [OF v]])
    then have p3: "adds Q w w3" using adds_trans [OF p1 same_adds] by blast
    have "tw_trail w' = tw_trail w3" using i r Inr e v by (auto simp: invoke_def Let_def split: if_splits)
    then show ?thesis by (rule adds_same [OF p3])
  qed
  show "pl_call item' = pl_call item"
    using i by (auto simp: invoke_def Let_def split: prod.splits sum.splits)
qed

lemma invoke_at_adds:
  assumes "invoke_at lim f perform j st is items w = (items', w')" and p: "performer_adds Q perform"
  shows "adds Q w w' \<and> map pl_call items' = map pl_call items"
  using assms(1)
proof (induction "is" arbitrary: items w)
  case Nil
  then show ?case by simp
next
  case (Cons i ts)
  show ?case
  proof (cases "i < length items \<and> pl_run (items ! i) \<and> (\<exists>s. pl_spec (items ! i) = Some s)")
    case False
    then have "invoke_at lim f perform j st ts items w = (items', w')"
      using Cons.prems(1) by (auto split: option.splits bool.splits)
    then show ?thesis by (rule Cons.IH)
  next
    case True
    then obtain s where s: "pl_spec (items ! i) = Some s" and i: "i < length items" "pl_run (items ! i)" by blast
    obtain item w1 where v: "invoke lim f perform j st s (items ! i) w = (item, w1)" by (metis prod.collapse)
    have "invoke_at lim f perform j st ts (items[i := item]) w1 = (items', w')"
      using Cons.prems(1) i s v by simp
    note ih = Cons.IH [OF this]
    have "map pl_call (items[i := item]) = map pl_call items"
      using invoke_adds(2) [OF v p] i by (simp add: map_update list_update_same_conv)
    then show ?thesis using ih adds_trans [OF invoke_adds(1) [OF v p]] by simp
  qed
qed

lemma execute_adds:
  "execute_calls lim f perform order j st items w = (items', w') \<Longrightarrow> performer_adds Q perform
     \<Longrightarrow> adds Q w w' \<and> map pl_call items' = map pl_call items"
  using invoke_at_adds by (auto simp: execute_calls_def split: if_splits)

definition recorded_content :: "planned_call \<Rightarrow> tool_content" where
  "recorded_content item =
     (let outcome = (case pl_outcome item of None \<Rightarrow> failed_content ''no result'' | Some x \<Rightarrow> x)
      in outcome\<lparr>ct_target := (case ct_target outcome of None \<Rightarrow> pl_target item | Some t \<Rightarrow> Some t)\<rparr>)"

lemma record_results_trail:
  "tw_trail (record_results j st items w) =
     tw_trail w @ map (\<lambda>i. (tj_subtask j, TrailToolResult st (pl_call i) (recorded_content i))) items"
  by (induction items arbitrary: w) (simp_all add: record_result_def append_trail_def recorded_content_def Let_def)

definition result_entries :: "turn_job \<Rightarrow> nat \<Rightarrow> tool_call list \<Rightarrow> tool_content list \<Rightarrow> (string option \<times> trail_body) list" where
  "result_entries j st calls contents = map2 (\<lambda>c k. (tj_subtask j, TrailToolResult st c k)) calls contents"

definition answered_calls :: "turn_job \<Rightarrow> nat \<Rightarrow> tool_call list \<Rightarrow> turn_world \<Rightarrow> turn_world \<Rightarrow> bool" where
  "answered_calls j st calls v w' \<longleftrightarrow>
     (\<exists>contents. length contents = length calls
        \<and> tw_trail w' = tw_trail v @ result_entries j st (session_calls j calls) contents)"

lemma record_results_answer:
  assumes "map pl_call items = session_calls j calls"
  shows "answered_calls j st calls w (record_results j st items w)"
  unfolding answered_calls_def
proof (intro exI conjI)
  show "length (map recorded_content items) = length calls" using assms by (metis length_map session_calls_def)
  have "map2 (\<lambda>c k. (tj_subtask j, TrailToolResult st c k)) (map pl_call items) (map recorded_content items)
      = map (\<lambda>i. (tj_subtask j, TrailToolResult st (pl_call i) (recorded_content i))) items"
    by (induction items) simp_all
  then show "tw_trail (record_results j st items w) = tw_trail w @ result_entries j st (session_calls j calls) (map recorded_content items)"
    by (simp add: record_results_trail result_entries_def assms)
qed

lemma run_tool_calls_trail:
  assumes r: "run_tool_calls lim f perform order j st calls specs m rep w = (e, seen, w')"
    and p: "performer_adds Q perform" and own: "\<And>x. own_step j x \<Longrightarrow> Q x"
  shows "\<exists>v. adds Q w v \<and> (if e = None then answered_calls j st calls v w' else w' = v)"
proof -
  obtain r1 s1 w1 where a: "admit_all lim f j st specs m calls rep w = (r1, s1, w1)" by (metis prod.collapse)
  have q1: "adds Q w w1" using admit_all_adds [OF a] own adds_mono by blast
  show ?thesis
  proof (cases r1)
    case (Inl x)
    with r a q1 show ?thesis by (auto simp: run_tool_calls_def)
  next
    case (Inr items)
    obtain items' w2 where x: "execute_calls lim f perform order j st items w1 = (items', w2)" by (metis prod.collapse)
    note x' = execute_adds [OF x p]
    have e: "e = None" "w' = record_results j st items' w2" using r a Inr x by (simp_all add: run_tool_calls_def)
    have "map pl_call items' = session_calls j calls"
      using admit_all_adds [OF a] Inr x' by simp
    from record_results_answer [OF this] e have "answered_calls j st calls w2 w'" by simp
    moreover have "adds Q w w2" using adds_trans [OF q1] x' by blast
    ultimately show ?thesis using e by auto
  qed
qed

subsection \<open>Whose entries they are\<close>

definition stamped :: "string option \<Rightarrow> string option \<times> trail_body \<Rightarrow> bool" where
  "stamped b e \<longleftrightarrow> fst e = b"

lemma own_step_stamped: "own_step j e \<Longrightarrow> stamped (tj_subtask j) e"
  by (simp add: own_step_def stamped_def)

lemma result_entries_stamped: "list_all (stamped (tj_subtask j)) (result_entries j st cs ks)"
  by (auto simp: result_entries_def list_all_iff stamped_def)

lemma catalogue_adds: "performer_adds Q (perform_catalogue f)"
  by (auto simp: performer_adds_def perform_catalogue_def ask_def adds_def)

lemma answered_stamped: "answered_calls j st calls v w' \<Longrightarrow> adds (stamped (tj_subtask j)) v w'"
  using result_entries_stamped unfolding answered_calls_def adds_def by blast

lemma branch_step_adds:
  assumes "run_tool_calls lim f (perform_catalogue f) order j st calls specs m rep w = (e, seen, w')"
  shows "adds (stamped (tj_subtask j)) w w'"
proof -
  have "\<exists>v. adds (stamped (tj_subtask j)) w v \<and> (if e = None then answered_calls j st calls v w' else w' = v)"
    by (rule run_tool_calls_trail [OF assms catalogue_adds own_step_stamped])
  then obtain v where v: "adds (stamped (tj_subtask j)) w v"
    and "if e = None then answered_calls j st calls v w' else w' = v" by blast
  then have "adds (stamped (tj_subtask j)) v w'" using answered_stamped by (auto split: if_splits)
  with v show ?thesis by (rule adds_trans)
qed

lemma branch_loop_adds:
  assumes "branch_loop lim f order j specs n st rep b w = (b', w')"
  shows "adds (stamped (tj_subtask j)) w w'"
  using assms
proof (induction n arbitrary: st rep b w)
  case 0
  then show ?case by simp
next
  case (Suc n)
  let ?Q = "stamped (tj_subtask j)"
  obtain x w1 where a1: "ask (tf_cancelled f) w = (x, w1)" by (metis prod.collapse)
  obtain ok w2 where r: "revalidate_turn f j w1 = (ok, w2)" by (metis prod.collapse)
  obtain m w3 where m: "current_mode f w2 = (m, w3)" by (metis prod.collapse)
  obtain y w4 where a4: "ask (tf_think f) w3 = (y, w4)" by (metis prod.collapse)
  have s1: "adds ?Q w w1" using a1 by (auto simp: ask_def adds_def)
  have s2: "adds ?Q w w2" by (rule adds_trans [OF s1 same_adds [OF revalidate_same [OF r]]])
  have s3: "adds ?Q w w3" by (rule adds_trans [OF s2 same_adds [OF current_mode_same [OF m]]])
  have s4: "adds ?Q w w4" using adds_same [OF s3] a4 by (auto simp: ask_def)
  show ?case
  proof (cases "x = None \<and> ok \<and> (\<exists>c. y = Inr c)")
    case False
    then show ?thesis using Suc.prems s1 s2 s4 by (cases x; cases ok; cases y) (auto simp: a1 r m a4)
  next
    case True
    then obtain c where c: "y = Inr c" and ok: "x = None" "ok" by blast
    define w5 where "w5 = append_trail j (TrailModel st (cm_text c) (map tc_name (cm_calls c))) w4"
    have s5: "adds ?Q w w5" unfolding w5_def by (rule adds_append [OF _ s4]) (simp add: stamped_def)
    note loop = Suc.prems [unfolded branch_loop.simps, simplified a1 ok r m a4 c prod.case option.case sum.case Let_def w5_def [symmetric]]
    show ?thesis
    proof (cases "cm_calls c = [] \<or> rl_sub_calls lim < sr_calls b + length (cm_calls c)")
      case True
      have "adds ?Q w (append_trail j z w5)" for z by (rule adds_append [OF _ s5]) (simp add: stamped_def)
      with loop True s5 show ?thesis by (auto simp: Let_def split: if_splits)
    next
      case False
      obtain e seen w6 where t: "run_tool_calls lim f (perform_catalogue f) order j st (cm_calls c) specs m rep w5 = (e, seen, w6)"
        by (metis prod.collapse)
      have s6: "adds ?Q w w6" by (rule adds_trans [OF s5 branch_step_adds [OF t]])
      show ?thesis
      proof (cases e)
        case None
        with loop False t have "branch_loop lim f order j specs n (Suc st) seen
            (b\<lparr>sr_steps := st, sr_calls := sr_calls b + length (cm_calls c)\<rparr>) w6 = (b', w')" by simp
        from adds_trans [OF s6 Suc.IH [OF this]] show ?thesis .
      next
        case (Some z)
        with loop False t s6 show ?thesis by simp
      qed
    qed
  qed
qed

lemma run_subtask_adds:
  assumes "run_subtask lim f order j specs i w = (b, w')"
  shows "adds (stamped (Some i)) w w'"
proof -
  let ?j = "j\<lparr>tj_subtask := Some i\<rparr>"
  let ?w0 = "append_trail ?j (TrailSystem None (map ts_name specs)) w"
  have "adds (stamped (tj_subtask ?j)) w ?w0" by (rule adds_append) (simp_all add: stamped_def)
  moreover have "adds (stamped (tj_subtask ?j)) ?w0 w'"
    using assms by (intro branch_loop_adds) (simp add: run_subtask_def Let_def)
  ultimately have "adds (stamped (tj_subtask ?j)) w w'" by (rule adds_trans)
  then show ?thesis by simp
qed

definition by_a_branch :: "string option \<times> trail_body \<Rightarrow> bool" where
  "by_a_branch e \<longleftrightarrow> (\<exists>i. fst e = Some i \<and> i \<noteq> [])"

lemma run_branches_adds: "[] \<notin> set ids \<Longrightarrow> adds by_a_branch w (snd (run_branches lim f order j specs ids w))"
proof (induction ids arbitrary: w)
  case Nil
  then show ?case by simp
next
  case (Cons i ids)
  obtain b w1 where b: "run_subtask lim f order j specs i w = (b, w1)" by (metis prod.collapse)
  have "adds by_a_branch w w1"
    using Cons.prems by (intro adds_mono [OF run_subtask_adds [OF b]]) (auto simp: stamped_def by_a_branch_def)
  then show ?case using adds_trans [OF _ Cons.IH [of w1]] Cons.prems b by (auto simp: Let_def split: prod.splits)
qed

lemma branch_ids_named: "[] \<notin> set (branch_ids item n)"
  by (auto simp: branch_ids_def)

lemma main_adds: "performer_adds by_a_branch (perform_main lim f order j cat)"
  unfolding performer_adds_def
proof (intro allI impI)
  fix item w r w'
  assume r: "perform_main lim f order j cat item w = (r, w')"
  show "adds by_a_branch w w'"
  proof (cases "tc_name (pl_call item) = tool_run_subtasks")
    case True
    then have "run_subtasks lim f order j cat item w = (r, w')" using r by (simp add: perform_main_def)
    from run_subtasks_cases [OF this] show ?thesis
    proof (elim disjE exE)
      fix n assume "w' = snd (run_branches lim f order j (delegable_specs cat) (branch_ids item n) (w\<lparr>tw_now := Suc (tw_now w)\<rparr>))"
      then show ?thesis
        using run_branches_adds [OF branch_ids_named] adds_trans [OF same_adds [OF ask_same]] by blast
    qed (simp_all add: same_adds)
  next
    case False
    with r catalogue_adds [of by_a_branch f] show ?thesis by (simp add: perform_main_def performer_adds_def)
  qed
qed

text \<open>
  C35: one result for every call, in the order the model asked. When a step of the main line gets through,
  its trail ends with exactly one result for each call, in that order, whatever the order in which they
  finished; before them the main line wrote no result at all, and what else was written belongs to branches.
\<close>

theorem one_result_for_every_call:
  assumes "run_tool_calls lim f (perform_main lim f order j cat) order j st calls specs m rep w = (None, seen, w')"
    and "tj_subtask j = None"
  shows "\<exists>mid contents. length contents = length calls
     \<and> tw_trail w' = tw_trail w @ mid @ map2 (\<lambda>c k. (None, TrailToolResult st c k)) calls contents
     \<and> list_all (\<lambda>e. own_step j e \<or> by_a_branch e) mid"
proof -
  let ?Q = "\<lambda>e. own_step j e \<or> by_a_branch e"
  have p: "performer_adds ?Q (perform_main lim f order j cat)"
    unfolding performer_adds_def
  proof (intro allI impI)
    fix item w r w' assume "perform_main lim f order j cat item w = (r, w')"
    then have "adds by_a_branch w w'" using main_adds [of lim f order j cat] by (simp add: performer_adds_def)
    then show "adds ?Q w w'" by (rule adds_mono) simp
  qed
  obtain v where v: "adds ?Q w v" and a: "answered_calls j st calls v w'"
    using run_tool_calls_trail [where Q = ?Q, OF assms(1) p] by auto
  have q: "session_calls j calls = calls" by (simp add: session_calls_def qualified_call_id_def assms(2))
  from v obtain mid where mid: "tw_trail v = tw_trail w @ mid" "list_all ?Q mid" unfolding adds_def by (elim exE conjE)
  from a [unfolded answered_calls_def q] obtain ks where ks: "length ks = length calls"
    "tw_trail w' = tw_trail v @ result_entries j st calls ks" by (elim exE conjE)
  have "tw_trail w' = tw_trail w @ mid @ map2 (\<lambda>c k. (None, TrailToolResult st c k)) calls ks"
    using mid(1) ks(2) by (simp add: result_entries_def assms(2))
  with ks(1) mid(2) show ?thesis by (intro exI conjI)
qed

definition small_step :: "tool_call list \<Rightarrow> string option \<times> (string \<Rightarrow> nat) \<times> turn_world" where
  "small_step calls =
     (let f = small_facts [] 0 in
      run_tool_calls small_limits f (perform_main small_limits f small_order small_job small_catalogue) small_order
        small_job 1 calls small_catalogue ApprovalAsk (\<lambda>_. 0) small_world)"

theorem one_result_for_every_call_witness:
  "let calls = [small_call ''1'' ''get'', small_call ''2'' ''drop''] in
     fst (small_step calls) = None
     \<and> (\<exists>mid contents. length contents = 2
         \<and> tw_trail (snd (snd (small_step calls))) = mid @ map2 (\<lambda>c k. (None, TrailToolResult 1 c k)) calls contents)"
proof -
  let ?calls = "[small_call ''1'' ''get'', small_call ''2'' ''drop'']"
  let ?f = "small_facts [] 0"
  obtain e seen w where r: "small_step ?calls = (e, seen, w)" by (metis prod.collapse)
  have "fst (small_step ?calls) = None" by code_simp
  with r have e: "e = None" by simp
  have "tj_subtask small_job = None" by (simp add: small_job_def)
  from one_result_for_every_call [OF r [unfolded small_step_def Let_def e] this]
  obtain mid contents where "length contents = length ?calls"
    "tw_trail w = tw_trail small_world @ mid @ map2 (\<lambda>c k. (None, TrailToolResult 1 c k)) ?calls contents"
    by (elim exE conjE)
  then have "length contents = 2 \<and> tw_trail w = mid @ map2 (\<lambda>c k. (None, TrailToolResult 1 c k)) ?calls contents"
    by (simp add: small_world_def)
  then show ?thesis unfolding Let_def r e fst_conv snd_conv by (intro conjI exI) auto
qed

subsection \<open>A step that writes runs in the model's order\<close>

abbreviation new_calls :: "turn_world \<Rightarrow> turn_world \<Rightarrow> tool_call list" where
  "new_calls w w' \<equiv> map (\<lambda>(t, c, s). c) (drop (length (tw_performed w)) (tw_performed w'))"

definition asks_only :: "performer \<Rightarrow> planned_call list \<Rightarrow> bool" where
  "asks_only perform items \<longleftrightarrow>
     (\<forall>item \<in> set items. \<forall>w. \<forall>item'. pl_call item' = pl_call item \<longrightarrow> tw_performed (snd (perform item' w)) = tw_performed w)"

lemma invoke_performed:
  assumes "invoke lim f perform j st s item w = (item', w')"
    and p: "\<And>v. tw_performed (snd (perform item v)) = tw_performed v"
  shows "tw_performed w' = tw_performed w @ [(tw_now w, pl_call item, s)]"
    and "pl_run item' = pl_run item \<and> pl_spec item' = pl_spec item \<and> pl_call item' = pl_call item"
proof -
  let ?w0 = "w\<lparr>tw_performed := tw_performed w @ [(tw_now w, pl_call item, s)]\<rparr>"
  obtain r w1 where r: "perform item ?w0 = (r, w1)" by (metis prod.collapse)
  have w1: "tw_performed w1 = tw_performed w @ [(tw_now w, pl_call item, s)]" using p [of ?w0] r by simp
  show "tw_performed w' = tw_performed w @ [(tw_now w, pl_call item, s)]"
  proof (cases r)
    case (Inl e)
    with assms(1) r w1 show ?thesis by (auto simp: invoke_def)
  next
    case (Inr x)
    obtain es w2 where e: "visible_evidence f j (tr_evidence x) w1 = (es, w2)" by (metis prod.collapse)
    obtain v w3 where v: "visible_view f j (tr_view x) w2 = (v, w3)" by (metis prod.collapse)
    have "same_record w1 w3"
      by (rule same_record_trans [OF visible_evidence_same [OF e] visible_view_same [OF v]])
    moreover have "tw_performed w' = tw_performed w3"
      using assms(1) r Inr e v by (auto simp: invoke_def Let_def split: if_splits)
    ultimately show ?thesis using w1 by (simp add: same_record_def)
  qed
  show "pl_run item' = pl_run item \<and> pl_spec item' = pl_spec item \<and> pl_call item' = pl_call item"
    using assms(1) by (auto simp: invoke_def Let_def split: prod.splits sum.splits)
qed

definition runs_at :: "planned_call list \<Rightarrow> nat \<Rightarrow> bool" where
  "runs_at items i \<longleftrightarrow> i < length items \<and> pl_run (items ! i) \<and> pl_spec (items ! i) \<noteq> None"

lemma invoke_at_performed:
  assumes "invoke_at lim f perform j st is items w = (items', w')" and "asks_only perform items"
  shows "\<exists>xs. tw_performed w' = tw_performed w @ xs
     \<and> map (\<lambda>(t, c, s). c) xs = map (\<lambda>i. pl_call (items ! i)) (filter (runs_at items) is)"
  using assms
proof (induction "is" arbitrary: items w)
  case Nil
  then show ?case by simp
next
  case (Cons i ts)
  show ?case
  proof (cases "runs_at items i")
    case False
    then have "invoke_at lim f perform j st ts items w = (items', w')"
      using Cons.prems(1) by (auto simp: runs_at_def split: option.splits bool.splits)
    from Cons.IH [OF this Cons.prems(2)] False show ?thesis by simp
  next
    case True
    then obtain s where s: "pl_spec (items ! i) = Some s" and i: "i < length items" "pl_run (items ! i)"
      by (auto simp: runs_at_def)
    obtain item w1 where v: "invoke lim f perform j st s (items ! i) w = (item, w1)" by (metis prod.collapse)
    have "\<And>v. tw_performed (snd (perform (items ! i) v)) = tw_performed v"
      using Cons.prems(2) nth_mem [OF i(1)] unfolding asks_only_def by blast
    note inv = invoke_performed [OF v this]
    let ?items = "items[i := item]"
    have "invoke_at lim f perform j st ts ?items w1 = (items', w')" using Cons.prems(1) i s v by simp
    moreover have "asks_only perform ?items"
      unfolding asks_only_def
    proof (intro ballI allI impI)
      fix x w0 and x' :: planned_call assume "x \<in> set ?items" and x': "pl_call x' = pl_call x"
      then have "x \<in> set items \<or> x = item" using set_update_subset_insert by fastforce
      then have "\<exists>y \<in> set items. pl_call x' = pl_call y" using inv(2) i(1) x' by (metis nth_mem)
      then show "tw_performed (snd (perform x' w0)) = tw_performed w0"
        using Cons.prems(2) by (auto simp: asks_only_def)
    qed
    ultimately obtain xs where xs: "tw_performed w' = tw_performed w1 @ xs"
      "map (\<lambda>(t, c, s). c) xs = map (\<lambda>i. pl_call (?items ! i)) (filter (runs_at ?items) ts)" using Cons.IH by blast
    have same: "pl_call (?items ! k) = pl_call (items ! k) \<and> runs_at ?items k = runs_at items k" for k
      using inv(2) i(1) by (cases "k = i") (auto simp: runs_at_def)
    have "map (\<lambda>(t, c, s). c) xs = map (\<lambda>i. pl_call (items ! i)) (filter (runs_at items) ts)"
      using xs(2) same by (simp cong: filter_cong map_cong)
    then show ?thesis using xs(1) inv(1) True by simp
  qed
qed

lemma main_asks_only:
  assumes "tool_run_subtasks \<notin> set (map (\<lambda>i. tc_name (pl_call i)) items)"
  shows "asks_only (perform_main lim f order j cat) items"
proof -
  have "tc_name (pl_call item) \<noteq> tool_run_subtasks" if "item \<in> set items" for item
    using assms that by force
  then show ?thesis by (simp add: asks_only_def perform_main_def perform_catalogue_def ask_def)
qed

lemma main_writes_nothing_itself:
  assumes "\<not> list_ex runs_mutating items"
    and "invoke_at lim f (perform_main lim f order j cat) j st is items w = (items', w')"
  shows "performs (\<lambda>t c s. \<not> ts_mutating s) w w'"
proof -
  have "performer_ok (\<lambda>t c s. \<not> ts_mutating s) (perform_main lim f order j cat)"
    by (rule perform_main_ok) (simp add: delegated_reads)
  moreover have "\<forall>item \<in> set items. may_perform (\<lambda>t c s. \<not> ts_mutating s) (tw_now w) item"
    using assms(1) by (auto simp: may_perform_def runs_mutating_def list_ex_iff)
  ultimately show ?thesis using invoke_at_performs [OF assms(2)] by blast
qed



subsection \<open>Facts older than they are said to be\<close>

text \<open>The operator withdraws full approval while the model is thinking about its first step.\<close>

definition switched_facts :: turn_facts where
  "switched_facts =
     (small_facts [small_call ''1'' ''scale''] 9)
       \<lparr>tf_mode := (\<lambda>t. Some (if t < 8 then ApprovalFull else ApprovalAsk))\<rparr>"

definition requests_approval :: "string option \<times> trail_body \<Rightarrow> bool" where
  "requests_approval e = (case snd e of TrailApprovalRequest _ _ _ _ \<Rightarrow> True | _ \<Rightarrow> False)"

definition performed_names :: "turn_world \<Rightarrow> (nat \<times> string) list" where
  "performed_names w = map (\<lambda>(t, c, s). (t, tc_name c)) (tw_performed w)"

text \<open>
  A mode withdrawn is not read. From instant 8 on the session asks for a person before any call that
  changes the cluster; at instant 10 the turn performs such a call, and no approval is requested in the
  whole turn: the mode of a step is the one read before its model call.
\<close>

theorem withdrawn_mode_is_not_read:
  "mode_at switched_facts (8 + n) = ApprovalAsk
   \<and> requires_approval_for (small_spec ''scale'' ''cluster.write'' True) ApprovalAsk []
   \<and> performed_names (small_run switched_facts) = [(10, ''scale'')]
   \<and> \<not> list_ex requests_approval (tw_trail (small_run switched_facts))"
proof (intro conjI)
  show "mode_at switched_facts (8 + n) = ApprovalAsk"
    by (simp add: mode_at_def switched_facts_def)
  show "requires_approval_for (small_spec ''scale'' ''cluster.write'' True) ApprovalAsk []" by code_simp
  show "performed_names (small_run switched_facts) = [(10, ''scale'')]" by code_simp
  show "\<not> list_ex requests_approval (tw_trail (small_run switched_facts))" by code_simp
qed

text \<open>The operator loses the permission of the first call while the second waits for an approval.\<close>

definition revoked_facts :: turn_facts where
  "revoked_facts =
     (small_facts [small_call ''1'' ''get'', small_call ''2'' ''scale''] 9)
       \<lparr>tf_cluster := (\<lambda>t p. if p = ''cluster.read'' \<and> 10 \<le> t then Inl ''denied''
                            else Inr (tj_tenant small_job, tj_project small_job))\<rparr>"


end
