(* ===== verification/AiConversation.thy ===== *)
theory AiConversation
  imports AiTurnRecords AiContext
begin

section \<open>Turns and the conversations they leave\<close>

text \<open>
  The trail a turn writes (\<open>AiTurn\<close>) read as the conversation the next request carries (\<open>AiContext\<close>). A model
  endpoint takes a conversation in which every message that asks for calls is followed by their results;
  turns that succeed keep it so, and a turn that ends while a call waits for a person does not.
\<close>

subsection \<open>The entries of a trail\<close>

definition blank_entry :: "entry_kind \<Rightarrow> string option \<Rightarrow> trail_entry" where
  "blank_entry k b =
     \<lparr>te_sequence = 0, te_turn = 0, te_kind = k, te_truncated = False, te_text = [], te_tool = [], te_call = [],
      te_arguments = [], te_failed = False, te_untrusted = False, te_evidence = [], te_input_tokens = None,
      te_shadowed_to = None, te_subtask = b\<rparr>"

fun entry_of :: "string option \<times> trail_body \<Rightarrow> trail_entry" where
  "entry_of (b, TrailSystem mode tools) = blank_entry KindSystem b"
| "entry_of (b, TrailContext text) = (blank_entry KindContext b)\<lparr>te_text := text, te_untrusted := True\<rparr>"
| "entry_of (b, TrailReasoning step text) = (blank_entry KindReasoning b)\<lparr>te_text := text\<rparr>"
| "entry_of (b, TrailModel step text tools) = (blank_entry KindModel b)\<lparr>te_text := text\<rparr>"
| "entry_of (b, TrailToolCall step c target ok) =
     (blank_entry KindToolCall b)\<lparr>te_tool := tc_name c, te_call := tc_id c, te_arguments := tc_arguments c\<rparr>"
| "entry_of (b, TrailToolResult step c k) =
     (blank_entry KindToolResult b)\<lparr>te_tool := tc_name c, te_call := tc_id c, te_text := ct_text k,
        te_failed := ct_failed k, te_untrusted := ct_untrusted k, te_evidence := ct_evidence k\<rparr>"
| "entry_of (b, TrailApprovalRequest step c mode target) = (blank_entry KindApprovalRequest b)\<lparr>te_call := tc_id c\<rparr>"
| "entry_of (b, TrailApprovalDecision step c d target) = (blank_entry KindApprovalDecision b)\<lparr>te_call := tc_id c\<rparr>"
| "entry_of (b, TrailConclusion step text evidence) =
     (blank_entry KindConclusion b)\<lparr>te_text := text, te_evidence := evidence\<rparr>"
| "entry_of (b, TrailError failure) = blank_entry KindError b"

definition entries_of :: "(string option \<times> trail_body) list \<Rightarrow> trail_entry list" where
  "entries_of = map entry_of"

text \<open>The question that opens a turn, which the store writes.\<close>

definition question_entry :: "string \<Rightarrow> trail_entry" where
  "question_entry text = (blank_entry KindInput None)\<lparr>te_text := text\<rparr>"

lemma entry_kind_subtask [simp]:
  "te_subtask (entry_of (b, x)) = b" "te_kind (entry_of e) \<noteq> KindCompaction"
proof -
  show "te_subtask (entry_of (b, x)) = b" by (cases x) (simp_all add: blank_entry_def)
  obtain b' x' where "e = (b', x')" by (metis prod.collapse)
  then show "te_kind (entry_of e) \<noteq> KindCompaction" by (cases x') (simp_all add: blank_entry_def)
qed

subsection \<open>Well-formed conversations\<close>

definition answers_to :: "chat_message list \<Rightarrow> (chat_role \<times> string) list" where
  "answers_to ms = map (\<lambda>m. (ms_role m, ms_call_id m)) ms"

function chat_ok :: "chat_message list \<Rightarrow> bool" where
  "chat_ok [] = True"
| "chat_ok (m # ms) =
     (case ms_role m of
        RoleTool \<Rightarrow> False
      | RoleUser \<Rightarrow> chat_ok ms
      | RoleAssistant \<Rightarrow>
          answers_to (take (length (ms_calls m)) ms) = map (\<lambda>c. (RoleTool, tc_id c)) (ms_calls m)
          \<and> chat_ok (drop (length (ms_calls m)) ms))"
  by pat_completeness auto

termination
  by (relation "measure length") auto

lemma chat_ok_append: "chat_ok xs \<Longrightarrow> chat_ok ys \<Longrightarrow> chat_ok (xs @ ys)"
proof (induction xs rule: chat_ok.induct)
  case (2 m ms)
  show ?case
  proof (cases "ms_role m")
    case RoleAssistant
    let ?n = "length (ms_calls m)"
    have a: "answers_to (take ?n ms) = map (\<lambda>c. (RoleTool, tc_id c)) (ms_calls m)" and r: "chat_ok (drop ?n ms)"
      using 2(3) RoleAssistant by simp_all
    from a have "length (take ?n ms) = ?n" by (metis answers_to_def length_map)
    then have le: "?n \<le> length ms" by simp
    have "chat_ok (drop ?n ms @ ys)" by (rule 2(2) [OF RoleAssistant r 2(4)])
    with a le RoleAssistant show ?thesis by simp
  qed (use 2 in simp_all)
qed simp

lemma chat_ok_results:
  assumes "chat_ok ms" and "m \<in> set ms" and "ms_role m = RoleTool"
  shows "ms_call_id m \<in> set (concat (map (map tc_id \<circ> ms_calls) ms))"
  using assms
proof (induction ms rule: chat_ok.induct)
  case (2 x xs)
  show ?case
  proof (cases "ms_role x")
    case RoleAssistant
    let ?n = "length (ms_calls x)"
    have a: "answers_to (take ?n xs) = map (\<lambda>c. (RoleTool, tc_id c)) (ms_calls x)" and r: "chat_ok (drop ?n xs)"
      using 2(3) RoleAssistant by simp_all
    have "m \<in> set xs" using 2(4,5) RoleAssistant by auto
    then consider "m \<in> set (take ?n xs)" | "m \<in> set (drop ?n xs)" by (metis Un_iff append_take_drop_id set_append)
    then show ?thesis
    proof cases
      case 1
      then have "(ms_role m, ms_call_id m) \<in> set (answers_to (take ?n xs))" by (auto simp: answers_to_def)
      then show ?thesis unfolding a by auto
    next
      case 2
      from \<open>\<lbrakk>ms_role x = RoleAssistant; chat_ok (drop ?n xs); m \<in> set (drop ?n xs); ms_role m = RoleTool\<rbrakk> \<Longrightarrow> _\<close>
      have "ms_call_id m \<in> set (concat (map (map tc_id \<circ> ms_calls) (drop ?n xs)))"
        using RoleAssistant r 2 \<open>ms_role m = RoleTool\<close> by blast
      then show ?thesis by (auto dest: in_set_dropD)
    qed
  qed (use 2 in auto)
qed simp

lemma chat_ok_keeps: "chat_ok ms \<Longrightarrow> drop_dangling_results ms = ms"
  using chat_ok_results by (auto simp: drop_dangling_results_def filter_id_conv)

subsection \<open>Reading a trail\<close>

definition empty_projection :: chat_projection where
  "empty_projection = \<lparr>pj_messages = [], pj_assistant = None, pj_results = [], pj_evidence = []\<rparr>"

definition project_all :: "fixed_texts \<Rightarrow> trail_entry list \<Rightarrow> chat_projection \<Rightarrow> chat_projection" where
  "project_all tx es p = fold (project_entry tx) (filter (\<lambda>e. branch_of e = []) es) p"

definition conversation :: "fixed_texts \<Rightarrow> trail_entry list \<Rightarrow> chat_message list" where
  "conversation tx es = pj_messages (flush_projection (project_all tx es empty_projection))"

lemma project_all_append: "project_all tx (xs @ ys) p = project_all tx ys (project_all tx xs p)"
  by (simp add: project_all_def)

lemma surface_of_uncompacted:
  assumes "\<forall>e \<in> set es. te_kind e \<noteq> KindCompaction"
  shows "surface_of es = (es, None)"
proof -
  have "newest_checkpoint es = None" using assms by (auto simp: newest_checkpoint_def find_None_iff replaces_def)
  then show ?thesis by (simp add: surface_of_def)
qed

lemma build_uncompacted:
  "\<forall>e \<in> set es. te_kind e \<noteq> KindCompaction \<Longrightarrow> fst (build_messages tx es []) = drop_dangling_results (conversation tx es)"
  by (simp add: build_messages_def project_surface_def surface_of_uncompacted Let_def conversation_def
      project_all_def empty_projection_def)

abbreviation trail_projection :: "fixed_texts \<Rightarrow> (string option \<times> trail_body) list \<Rightarrow> chat_projection" where
  "trail_projection tx tr \<equiv> project_all tx (entries_of tr) empty_projection"

lemma by_a_branch_skipped: "list_all by_a_branch xs \<Longrightarrow> project_all tx (entries_of xs) p = p"
proof -
  assume a: "list_all by_a_branch xs"
  have "branch_of (entry_of e) \<noteq> []" if "e \<in> set xs" for e
    using a that by (cases e) (auto simp: list_all_iff by_a_branch_def branch_of_def)
  then have "filter (\<lambda>e. branch_of e = []) (entries_of xs) = []"
    by (auto simp: entries_of_def filter_empty_conv)
  then show ?thesis by (simp add: project_all_def)
qed

lemma main_entry: "branch_of (entry_of (None, x)) = []"
  by (simp add: branch_of_def)

lemma project_main: "project_all tx (entries_of ((None, x) # xs)) p
    = project_all tx (entries_of xs) (project_entry tx (entry_of (None, x)) p)"
  by (simp add: project_all_def entries_of_def main_entry)

text \<open>What is read of an admission: the calls join the message of their step.\<close>

lemma project_admission:
  "list_all admission xs \<Longrightarrow> pj_assistant p = Some a
     \<Longrightarrow> project_all tx (entries_of (map (Pair None) xs)) p
       = p\<lparr>pj_assistant := Some (a\<lparr>ms_calls := ms_calls a @ calls_in xs\<rparr>)\<rparr>"
proof (induction xs arbitrary: p a)
  case Nil
  then show ?case by (simp add: entries_of_def project_all_def)
next
  case (Cons x xs)
  have adm: "admission x" "list_all admission xs" using Cons.prems(1) by simp_all
  show ?case
  proof (cases x)
    case (TrailToolCall st c tg ok)
    let ?a = "a\<lparr>ms_calls := ms_calls a @ [c]\<rparr>"
    have e: "project_entry tx (entry_of (None, x)) p = p\<lparr>pj_assistant := Some ?a\<rparr>"
      using Cons.prems(2) TrailToolCall
      by (simp add: project_entry_def blank_entry_def wire_call_id_def)
    have "calls_in (x # xs) = c # calls_in xs" by (simp add: calls_in_def TrailToolCall)
    then show ?thesis using Cons.IH [OF adm(2), of "p\<lparr>pj_assistant := Some ?a\<rparr>" ?a] e
      by (simp add: project_main)
  next
    case (TrailApprovalRequest st c m tg)
    then have "project_entry tx (entry_of (None, x)) p = p" "calls_in (x # xs) = calls_in xs"
      by (simp_all add: project_entry_def blank_entry_def calls_in_def)
    then show ?thesis using Cons.IH [OF adm(2) Cons.prems(2)] by (simp add: project_main)
  next
    case (TrailApprovalDecision st c d tg)
    then have "project_entry tx (entry_of (None, x)) p = p" "calls_in (x # xs) = calls_in xs"
      by (simp_all add: project_entry_def blank_entry_def calls_in_def)
    then show ?thesis using Cons.IH [OF adm(2) Cons.prems(2)] by (simp add: project_main)
  qed (use adm in \<open>simp_all add: admission_def\<close>)
qed

lemma project_results:
  assumes "length ks = length cs"
  shows "\<exists>rs ev. project_all tx (entries_of (map2 (\<lambda>c k. (None, TrailToolResult st c k)) cs ks)) p
      = p\<lparr>pj_results := pj_results p @ rs, pj_evidence := ev\<rparr>
    \<and> answers_to rs = map (\<lambda>c. (RoleTool, tc_id c)) cs"
  using assms
proof (induction cs arbitrary: ks p)
  case Nil
  then show ?case
    by (intro exI [of _ "[]"] exI [of _ "pj_evidence p"]) (simp add: entries_of_def project_all_def answers_to_def)
next
  case (Cons c cs)
  then obtain k ks' where k: "ks = k # ks'" "length ks' = length cs" by (metis length_Suc_conv)
  let ?e = "entry_of (None, TrailToolResult st c k)"
  let ?r = "\<lparr>ms_role = RoleTool, ms_text = tool_result_text tx ?e, ms_calls = [], ms_call_id = tc_id c, ms_tool = tc_name c\<rparr>"
  let ?p = "p\<lparr>pj_results := pj_results p @ [?r], pj_evidence := pj_evidence p @ ct_evidence k\<rparr>"
  have e: "project_entry tx ?e p = ?p" by (simp add: project_entry_def blank_entry_def wire_call_id_def)
  from Cons.IH [OF k(2), of ?p] obtain rs ev
    where rs: "project_all tx (entries_of (map2 (\<lambda>c k. (None, TrailToolResult st c k)) cs ks')) ?p
      = ?p\<lparr>pj_results := pj_results ?p @ rs, pj_evidence := ev\<rparr>" "answers_to rs = map (\<lambda>c. (RoleTool, tc_id c)) cs"
    by blast
  have "project_all tx (entries_of (map2 (\<lambda>c k. (None, TrailToolResult st c k)) (c # cs) ks)) p
      = p\<lparr>pj_results := pj_results p @ ?r # rs, pj_evidence := ev\<rparr>"
    using rs(1) e k by (simp add: project_main)
  moreover have "answers_to (?r # rs) = map (\<lambda>c. (RoleTool, tc_id c)) (c # cs)" using rs(2) by (simp add: answers_to_def)
  ultimately show ?case by metis
qed

subsection \<open>A step, a turn\<close>

abbreviation kept_ok :: "fixed_texts \<Rightarrow> turn_world \<Rightarrow> bool" where
  "kept_ok tx w \<equiv> chat_ok (conversation tx (entries_of (tw_trail w)))"

lemma conversation_append:
  "conversation tx (es @ fs) = pj_messages (flush_projection (project_all tx fs (project_all tx es empty_projection)))"
  by (simp add: conversation_def project_all_append)

lemma entries_append [simp]: "entries_of (xs @ ys) = entries_of xs @ entries_of ys"
  by (simp add: entries_of_def)

lemma project_one: "project_all tx (entries_of [(None, x)]) p = project_entry tx (entry_of (None, x)) p"
  by (simp add: project_all_def entries_of_def main_entry)

lemma quiet_entries:
  "project_entry tx (blank_entry KindSystem None) p = p"
  "project_entry tx ((blank_entry KindReasoning None)\<lparr>te_text := said\<rparr>) p = p"
  "project_entry tx ((blank_entry KindConclusion None)\<lparr>te_text := said, te_evidence := ev\<rparr>) p = p"
  by (simp_all add: project_entry_def blank_entry_def)

lemma completed_step:
  assumes r: "run_tool_calls lim f (perform_main lim f order j cat) order j st calls specs m rep w = (None, seen, w')"
    and j: "tj_subtask j = None"
    and a: "pj_assistant (trail_projection tx (tw_trail w)) = Some (text_message RoleAssistant text)"
    and n: "pj_results (trail_projection tx (tw_trail w)) = []"
    and ok: "chat_ok (pj_messages (trail_projection tx (tw_trail w)))"
  shows "kept_ok tx w'"
proof -
  let ?p = "perform_main lim f order j cat"
  have q: "session_calls j calls = calls" by (simp add: session_calls_def qualified_call_id_def j)
  obtain r1 s1 w1 where ad: "admit_all lim f j st specs m calls rep w = (r1, s1, w1)" by (metis prod.collapse)
  then obtain items where items: "r1 = Inr items" using r by (cases r1) (auto simp: run_tool_calls_def)
  obtain items' w2 where x: "execute_calls lim f ?p order j st items w1 = (items', w2)" by (metis prod.collapse)
  have w': "w' = record_results j st items' w2" using r ad items x by (simp add: run_tool_calls_def)
  have adm: "admits j calls w w1" and calls: "map pl_call items = calls"
    using admit_all_admits [OF ad] items q by simp_all
  from adm obtain xs where xs: "tw_trail w1 = tw_trail w @ map (Pair None) xs" "list_all admission xs" "calls_in xs = calls"
    by (auto simp: admits_def j)
  have ex: "adds by_a_branch w1 w2" "map pl_call items' = calls" using execute_adds [OF x main_adds] calls by simp_all
  from ex(1) obtain ys where ys: "tw_trail w2 = tw_trail w1 @ ys" "list_all by_a_branch ys" by (auto simp: adds_def)
  have "answered_calls j st calls w2 w'" unfolding w' using record_results_answer [of items' j calls st w2] ex(2) q by simp
  then obtain ks where ks: "length ks = length calls"
    "tw_trail w' = tw_trail w2 @ map2 (\<lambda>c k. (None, TrailToolResult st c k)) calls ks"
    by (auto simp: answered_calls_def q result_entries_def j)
  define p where "p = trail_projection tx (tw_trail w)"
  define p1 where "p1 = p\<lparr>pj_assistant := Some ((text_message RoleAssistant text)\<lparr>ms_calls := calls\<rparr>)\<rparr>"
  have "project_all tx (entries_of (map (Pair None) xs)) p = p1"
    using project_admission [OF xs(2) a] xs(3) by (simp add: p_def [symmetric] p1_def text_message_def)
  then have "trail_projection tx (tw_trail w2) = p1"
    using xs(1) ys by (simp add: project_all_append p_def [symmetric] by_a_branch_skipped)
  then have "trail_projection tx (tw_trail w')
      = project_all tx (entries_of (map2 (\<lambda>c k. (None, TrailToolResult st c k)) calls ks)) p1"
    using ks(2) by (simp add: project_all_append)
  with project_results [OF ks(1), of tx st p1] obtain rs ev where
    rs: "trail_projection tx (tw_trail w') = p1\<lparr>pj_results := pj_results p1 @ rs, pj_evidence := ev\<rparr>"
    "answers_to rs = map (\<lambda>c. (RoleTool, tc_id c)) calls" by metis
  have "length rs = length calls" using rs(2) by (metis answers_to_def length_map)
  then have step: "chat_ok ((text_message RoleAssistant text)\<lparr>ms_calls := calls\<rparr> # rs)"
    using rs(2) by (simp add: text_message_def)
  have "conversation tx (entries_of (tw_trail w')) = pj_messages p @ (text_message RoleAssistant text)\<lparr>ms_calls := calls\<rparr> # rs"
    using n by (simp add: conversation_def rs(1) flush_projection_def p1_def p_def)
  then show ?thesis using chat_ok_append [OF ok step] by (simp add: p_def)
qed

lemma record_step_projection:
  assumes "tj_subtask j = None"
  shows "trail_projection tx (tw_trail (record_step j st c w))
    = (flush_projection (trail_projection tx (tw_trail w)))\<lparr>pj_assistant := Some (text_message RoleAssistant (cm_text c))\<rparr>"
proof -
  have "project_entry tx (entry_of (None, TrailModel st said tools)) p
      = (flush_projection p)\<lparr>pj_assistant := Some (text_message RoleAssistant said)\<rparr>" for said tools p
    by (simp add: project_entry_def blank_entry_def)
  then show ?thesis
    using assms by (simp add: record_step_def append_trail_def Let_def project_all_append project_one quiet_entries)
qed

lemma flush_twice: "pj_messages (flush_projection (flush_projection p)) = pj_messages (flush_projection p)"
  "pj_results (flush_projection p) = []" "pj_assistant (flush_projection p) = None"
  by (simp_all add: flush_projection_def)

lemma record_step_kept:
  assumes j: "tj_subtask j = None" and ok: "kept_ok tx w"
  shows "kept_ok tx (record_step j st c w)"
proof -
  have "chat_ok [text_message RoleAssistant (cm_text c)]" by (simp add: text_message_def answers_to_def)
  with ok have "chat_ok (conversation tx (entries_of (tw_trail w)) @ [text_message RoleAssistant (cm_text c)])"
    by (rule chat_ok_append)
  then show ?thesis
    by (simp add: conversation_def record_step_projection [OF j] flush_projection_def)
qed

lemma same_kept: "same_record w w' \<Longrightarrow> kept_ok tx w' \<longleftrightarrow> kept_ok tx w"
  by (simp add: same_record_def)

lemma failed_is_not_succeeded: "last (tw_finished (fail_turn e w)) \<noteq> (''succeeded'', x)"
  by (simp add: fail_turn_def)

lemma turn_loop_kept:
  assumes j: "tj_subtask j = None"
  shows "kept_ok tx w
    \<Longrightarrow> last (tw_finished (turn_loop lim f (perform_main lim f order j cat) order j specs n st used rep w)) = (''succeeded'', [])
    \<Longrightarrow> kept_ok tx (turn_loop lim f (perform_main lim f order j cat) order j specs n st used rep w)"
proof (induction n arbitrary: st used rep w)
  case 0
  then show ?case using failed_is_not_succeeded by simp
next
  case (Suc n)
  obtain x w1 where a1: "ask (tf_cancelled f) w = (x, w1)" by (metis prod.collapse)
  obtain ok w2 where r: "revalidate_turn f j w1 = (ok, w2)" by (metis prod.collapse)
  obtain m w3 where m: "current_mode f w2 = (m, w3)" by (metis prod.collapse)
  obtain y w4 where a4: "ask (tf_think f) w3 = (y, w4)" by (metis prod.collapse)
  have "same_record w w1" "same_record w3 w4" using a1 a4 by (auto simp: ask_def)
  then have k4: "kept_ok tx w4"
    using Suc.prems(1) same_kept revalidate_same [OF r] current_mode_same [OF m] by metis
  note loop = Suc.prems(2) [unfolded turn_loop.simps a1 r m Let_def prod.case a4]
  obtain c where c: "x = None" "ok" "y = Inr c"
    using loop failed_is_not_succeeded by (cases x; cases ok; cases y) auto
  define w5 where "w5 = record_step j st c w4"
  have k5: "kept_ok tx w5" unfolding w5_def by (rule record_step_kept [OF j k4])
  note step = a1 r m a4 c w5_def [symmetric]
  show ?case
  proof (cases "cm_calls c = []")
    case True
    have "kept_ok tx (conclude_turn j st c w5)"
      using k5 j by (simp add: conclude_turn_def append_trail_def conversation_def project_all_append project_one quiet_entries)
    then show ?thesis using True by (simp add: step Let_def)
  next
    case False
    have within: "\<not> rl_max_calls lim < used + length (cm_calls c)"
      using loop False failed_is_not_succeeded by (auto simp: c w5_def [symmetric] split: if_splits)
    obtain e seen w6 where t: "run_tool_calls lim f (perform_main lim f order j cat) order j st (cm_calls c) specs m rep w5 = (e, seen, w6)"
      by (metis prod.collapse)
    have e: "e = None"
      using loop False within failed_is_not_succeeded by (cases e) (auto simp: c w5_def [symmetric] t)
    have "kept_ok tx w6"
    proof (rule completed_step [OF t [unfolded e] j])
      show "pj_assistant (trail_projection tx (tw_trail w5)) = Some (text_message RoleAssistant (cm_text c))"
        "pj_results (trail_projection tx (tw_trail w5)) = []"
        unfolding w5_def by (simp_all add: record_step_projection [OF j] flush_twice)
      show "chat_ok (pj_messages (trail_projection tx (tw_trail w5)))"
        using k4 unfolding w5_def by (simp add: record_step_projection [OF j] conversation_def)
    qed
    then show ?thesis using Suc.IH Suc.prems(2) False within by (simp add: step Let_def t e)
  qed
qed

lemma attachments_kept:
  assumes j: "tj_subtask j = None" and "kept_ok tx w"
  shows "kept_ok tx (append_attachments j w)"
proof -
  have "kept_ok tx w \<Longrightarrow> kept_ok tx (fold (append_trail j) (map TrailContext ts) w)" for ts
  proof (induction ts arbitrary: w)
    case (Cons t ts)
    have "project_entry tx (entry_of (None, TrailContext t)) p
        = (let p1 = flush_projection p in p1\<lparr>pj_messages := pj_messages p1 @ [text_message RoleUser (fx_context tx @ t)],
             pj_evidence := pj_evidence p1 @ []\<rparr>)" for p
      by (simp add: project_entry_def blank_entry_def)
    then have "conversation tx (entries_of (tw_trail (append_trail j (TrailContext t) w)))
        = conversation tx (entries_of (tw_trail w)) @ [text_message RoleUser (fx_context tx @ t)]"
      by (simp add: append_trail_def j project_all_append project_one conversation_def Let_def flush_projection_def)
    moreover have "chat_ok [text_message RoleUser (fx_context tx @ t)]" by (simp add: text_message_def)
    ultimately have "kept_ok tx (append_trail j (TrailContext t) w)" using Cons.prems chat_ok_append by simp
    from Cons.IH [OF this] show ?case by simp
  qed simp
  then show ?thesis using assms(2) by (simp add: append_attachments_def)
qed



subsection \<open>A turn that ends while a call waits\<close>

text \<open>Two calls of one step; the second needs a person, who never answers.\<close>

definition timed_out_facts :: turn_facts where
  "timed_out_facts = (small_facts [small_call ''1'' ''get'', small_call ''2'' ''scale''] 9)\<lparr>tf_answer := (\<lambda>_ _. AnswerTimedOut)\<rparr>"

definition timed_out_run :: turn_world where
  "timed_out_run = small_run timed_out_facts"

lemma timed_out_trail:
  "map fst (tw_trail timed_out_run) = [None, None, None, None, None]"
  "tw_finished timed_out_run = [(''failed'', ''approval_timeout'')]"
  by code_simp+

lemma timed_out_projection:
  "pj_messages (trail_projection tx (tw_trail timed_out_run)) = []
   \<and> pj_assistant (trail_projection tx (tw_trail timed_out_run))
     = Some ((text_message RoleAssistant ''answer'')\<lparr>ms_calls := [small_call ''1'' ''get'']\<rparr>)
   \<and> pj_results (trail_projection tx (tw_trail timed_out_run)) = []"
  by code_simp

lemma project_grows: "\<exists>ms. pj_messages (flush_projection (project_all tx es p)) = pj_messages p @ ms"
proof -
  have one: "\<exists>ms. pj_messages (project_entry tx e p) = pj_messages p @ ms" for e p
    by (cases "te_kind e") (simp_all add: project_entry_def flush_projection_def Let_def)
  have "\<exists>ms. pj_messages (fold (project_entry tx) xs p) = pj_messages p @ ms" for xs p
  proof (induction xs arbitrary: p)
    case (Cons x xs)
    obtain ms where "pj_messages (project_entry tx x p) = pj_messages p @ ms" using one by blast
    with Cons [of "project_entry tx x p"] show ?case by auto
  qed simp
  then obtain ms where "pj_messages (project_all tx es p) = pj_messages p @ ms" unfolding project_all_def by blast
  then show ?thesis by (simp add: flush_projection_def)
qed


end
