(* ===== verification/Spec2Isabelle.thy ===== *)
theory Spec2Isabelle
  imports AccessMgmt AuthSafety Limiters PagedQueries Overview PodRuns AgentStreams MetricsReads ManifestSafety CredentialHistory MetricsGuard AiCompactionSafety AiConversation
begin

section \<open>A verification library for the ZKE Server and Agent\<close>

text \<open>
  \<^bold>\<open>What this development models.\<close> ZKE is a multi-cluster Kubernetes platform. A Server keeps accounts,
  roles and clusters in a database and serves an HTTP API; an Agent in each cluster keeps a connection to
  the Server, answers resource requests, caches the cluster's objects and forwards metrics and Pod
  traffic. The development follows a request through the Server's own decisions: who may do what
  (authorization and the writes that change it), the gates in front of a route, the services behind it
  (Pod access, manifests), the protocol to the Agent, and on the Agent's side the cache that answers
  listings. It also models the Server's rewriting of the metrics an Agent forwards,
  the guard on metrics queries and the loop in which a model acts for an operator.

  \<^bold>\<open>Conventions\<close> (\<open>Prelude\<close>, \<open>Encoding\<close>, \<open>Tables\<close>). A function returning \<open>(T, error)\<close> is a function into
  \<open>'e + 'a\<close>; a method that changes its receiver returns it updated; a lock is the atomicity of one such
  function, and interleavings are sequences of steps. Durations and machine integers are words of their
  width. Strings are byte lists. Go maps that are iterated are association lists with distinct keys, the
  iteration order being an argument where a result depends on it (\<open>Tables\<close>, with the locale
  \<open>bounded_table\<close> for tables of limited size). The locale \<open>ceiling_steps\<close> of \<open>Prelude\<close> is the argument that
  sequences of steps cannot raise authority above a ceiling, \<open>accumulator\<close> of \<open>SectionTotals\<close> that running
  sums equal recounts; each is interpreted on the model's own operations.

  \<^bold>\<open>Identifiers and pages\<close> (\<open>Validation\<close>): \<open>pkg/shared/validation\<close>, \<open>identifier\<close>, \<open>pagination\<close>.

  \<^bold>\<open>Authorization\<close> (\<open>Rbac\<close>): \<open>pkg/server/rbac\<close>. \<open>rbac_store\<close> stands for the two queries the service asks;
  \<open>authorize_global\<close> to \<open>authorize_cluster\<close> are the decisions of \<open>service.go\<close>, threading the request memo of
  \<open>cache.go\<close>; \<open>list_capabilities\<close> and \<open>resolve_visibility\<close> are the two summaries. The lemmas give each
  decision as a quantified statement over bindings, the memo's coherence, and the agreement of the
  summaries with the decisions.

  \<^bold>\<open>Access management\<close> (\<open>AccessStore\<close>, \<open>AccessSafety\<close>, \<open>AccessMgmt\<close>): every write of
  \<open>store/access_management.go\<close> and \<open>store/roles.go\<close> as one function on the tables that runs its locked checks
  in the order of the transaction and ends with its audit row, over the constraints of
  \<open>000001_phase1_foundation.sql\<close>; the step relation \<open>access_step\<close> and its sequences; the validation and error
  mapping of \<open>pkg/server/accessmanagement\<close>. The lemmas: the table invariant \<open>db_ok\<close>, what each write may
  grant and take, and by rule induction over sequences that authority stays under the group's ceiling,
  that an administrator remains, and that membership in the administrator group comes from inside.

  \<^bold>\<open>Authentication\<close> (\<open>AuthStore\<close>, \<open>PasswordHash\<close>, \<open>AuthService\<close>, \<open>AuthHistory\<close>, \<open>AuthSafety\<close>): the transactions
  of \<open>store/auth_session.go\<close>, \<open>auth_user.go\<close> and \<open>auth_audit.go\<close> on the same tables (logins, sessions, failed
  attempts and locking, password changes, the first administrator), stored hashes with their parser, and
  \<open>pkg/server/auth\<close> above them. \<open>auth_steps\<close> are sequences of these transactions and the management writes;
  they carry what holds of sessions, locks and the last administrator. Argon2, digests, Unicode
  normalization, random values and both clocks are arguments.

  \<^bold>\<open>The gates of a route\<close> (\<open>RequestGate\<close>, \<open>GateSafety\<close>, \<open>GateRoutes\<close>, \<open>GateGrants\<close>):
  \<open>httpapi/middleware/authorization.go\<close>, \<open>scope.go\<close> and the grant files. A \<open>gin_context\<close> holds what the gates
  read and leave: route, parameters, body, resolved scope, memo, denials and reply. \<open>cluster_route\<close> is the
  composition \<open>routes.go\<close> makes, the gate for protected namespaces before the gate of the route. The
  lemmas: a gate changes the look-ahead, the memo and the denials only; \<open>route_admits\<close> says when a route
  admits, in terms of \<open>Rbac\<close>'s decisions. The JSON decoding of a creation body is an argument.

  \<^bold>\<open>Manifests\<close> (\<open>ManifestGate\<close>, \<open>ManifestDocs\<close>, \<open>ManifestRun\<close>, \<open>ManifestSends\<close>, \<open>ManifestSafety\<close>):
  \<open>kubernetesresource/manifest_access.go\<close> with the rules of \<open>authorization.go\<close> and \<open>secret.go\<close> it reaches, and
  \<open>kubernetesmanifest/service.go\<close>. A Kubernetes object is a record of the parts these rules read. The locale
  \<open>manifest_layer\<close> is the contract between the two packages, what each operation of the layer below may
  send; it is interpreted on \<open>manifest_access\<close> over a resource service that keeps the writes it was asked
  for. The resource service, Kubernetes' name rules, YAML decoding, the parsing of a group and version and
  the digest are arguments. Lemmas: what planning and executing add to the writes, the distinctness of
  planned objects, the agreement of documents and routes (with \<open>route_admits\<close>), what a rule may hand out.

  \<^bold>\<open>Pod access\<close> (\<open>PodAccess\<close>, \<open>PodSafety\<close>, \<open>PodRuns\<close>): \<open>pkg/server/podaccess/service.go\<close>. The four tables of
  the service, \<open>create\<close>, the three steps of an activation (take, check, commit, between which other calls
  run), \<open>resolve\<close>, ending, expiry and revalidation. The invariant compares the targets claimed by entries
  with the reservation table as sets; a run is a sequence of calls and steps in any interleaving. Clock,
  random source, digest, the session and permission checks are an environment record.

  \<^bold>\<open>Limiters\<close> (\<open>Limiters\<close>): \<open>httpapi/source_limiter.go\<close> and \<open>login_limiter.go\<close>, over \<open>Tables\<close>.

  \<^bold>\<open>Agent protocol\<close> (\<open>AgentFrames\<close>, \<open>AgentStreams\<close>): framing, stream headers, admissions and body compression
  of \<open>pkg/shared/agentprotocol\<close>; a connection is a reader and a writer that may split what passes, and the
  compressor is an argument with its round trip as a hypothesis.

  \<^bold>\<open>Agent connections\<close> (\<open>AgentSessions\<close>, \<open>AgentRegistry\<close>, \<open>AgentDrains\<close>, \<open>AgentControl\<close>): \<open>agentconn/manager.go\<close>.
  \<open>identity_from_certificate\<close>, the hello and \<open>agreed_capabilities\<close>; \<open>agent_session\<close> and its operations;
  \<open>agent_manager\<close> with its registry, subscribers and remembered disconnections, sessions living in a heap
  because registry, handlers and requests share them. A request is a thread that passes the stations of
  \<open>request_step\<close>; \<open>agent_step\<close> interleaves threads, registrations, timers and revocations, and \<open>world_ok\<close> is
  its invariant. \<open>serve_control\<close> is the loop on the control stream, a list of turns being what it reads, the
  store and the clock; \<open>supervise_revocations\<close> the watch. The Agent's end (\<open>AgentLoop\<close>, \<open>AgentExchange\<close>):
  \<open>agent/connection.go\<close>, \<open>errors.go\<close>, with \<open>exchange_step\<close> for both ends and the messages between them.

  \<^bold>\<open>Scopes, credentials and enrollment\<close> (\<open>ScopeStore\<close>, \<open>CredentialStore\<close>, \<open>EnrollmentStore\<close>): the transactions of
  \<open>store/resource_management.go\<close>, \<open>resource_lifecycle.go\<close>, \<open>agent_connection.go\<close>, \<open>agent_management.go\<close>,
  \<open>enrollment.go\<close> and \<open>agent_enrollment.go\<close> over one \<open>agent_db\<close>, and the services \<open>enrollment/agent.go\<close> and
  \<open>renewal.go\<close> above them. \<open>commit\<close> appends what the database's triggers announce. \<open>db_step\<close>
  (\<open>CredentialSafety\<close>) is any of these transactions; \<open>CredentialHistory\<close> has the invariants of all histories,
  what follows for withdrawn credentials, joined with \<open>serve_control\<close>, and the two ways in which a good Agent
  is turned away.

  \<^bold>\<open>Agent cache\<close> (\<open>SectionTotals\<close>, \<open>ResourceStore\<close>, \<open>PagedQueries\<close>, \<open>Overview\<close>): \<open>pkg/agent/resourcecache\<close>: running
  totals refined against a recount, the store's events, queries with selectors, windows and paging
  sessions, and the overview put together from the sections.

  \<^bold>\<open>Metrics query guard\<close> (\<open>MetricsGuard\<close>): \<open>metricsqlguard/guard.go\<close>. Of an expression the filters of selectors
  and the label lists are kept; the MetricsQL parser and printer are arguments without laws, since the guard
  reads its own output back. A selector's meaning (\<open>selects\<close>) is the abstract side.

  \<^bold>\<open>AI runtime\<close> (\<open>AiTools\<close>, \<open>AiAttachments\<close>, \<open>AiTokens\<close>, \<open>AiContext\<close>, \<open>AiCompaction\<close>, \<open>AiCompactionSafety\<close>,
  \<open>AiTurn\<close>, \<open>AiTurnSafety\<close>, \<open>AiTurnRecords\<close>, \<open>AiConversation\<close>):
  \<open>pkg/server/airuntime\<close>.
  A turn asks the world around it (permissions, the account, the approval mode, people, the model, the
  tools) one question after the other; \<open>turn_facts\<close> answers each at its instant, with nothing assumed, so a
  fact may change between any two questions. \<open>turn_world\<close> keeps what the turn leaves: trail, audit rows,
  performed calls, outcome. \<open>admit\<close>, \<open>execute_calls\<close> and \<open>record_results\<close> are the three phases of a step,
  \<open>turn_loop\<close> and \<open>branch_loop\<close> the loops of a turn and of a delegated branch, recursive over the step
  budget. Concurrent reads run in an order that is an argument; branches one after the other. \<open>AiTokens\<close> has
  the price of a text and the cutting of a summary to a price, \<open>AiContext\<close> the conversation a request carries
  and its price (\<open>context.go\<close>), \<open>AiCompaction\<close> the replacing of its head by a checkpoint (\<open>compaction.go\<close>) over the
  entries \<open>prepare\<close> has loaded, with the summaries a model would write as an argument. \<open>AiConversation\<close> reads the
  trail \<open>AiTurn\<close> writes as such a conversation; \<open>chat_ok\<close> is what an endpoint takes.

  \<^bold>\<open>Metrics ingest\<close> (\<open>MetricsRewrite\<close>, \<open>MetricsReads\<close>): \<open>metricsingest/rewrite.go\<close> over the wire primitives of
  \<open>protowire\<close>, whose laws (\<open>wire_ok\<close>) are its documentation; an independent reader of batches states what the
  rewriting keeps.

  \<^bold>\<open>Bounds and fuel.\<close> No loop of the model uses fuel: recursions are structural (those of a turn over the step
  budget the code has) or terminate by the length of what is left to read (\<open>rewrite_returns\<close>). Constants are the source's. The hypotheses on arguments state
  documented behaviour and each theorem that has one has a witness with a concrete argument.

  \<^bold>\<open>Not modelled.\<close> Goroutine scheduling inside one operation, contexts and cancellation, logging and metrics;
  SQL execution (the writes are functions on the tables) and migrations beyond the constraints used;
  cryptography (digests are arguments); rendering of responses; the field-by-field projections between
  Kubernetes types and forms; Helm (adapters over its SDK), the catalogue of metrics queries, the
  clients of model endpoints and the retries against them, listings of the audit log, and the Web console. The manifest's component list gives each with its reason.
\<close>

end
